(* ===== verification/Js_Value.thy ===== *)
theory Js_Value
  imports Prelude
begin

text \<open>
  JavaScript values as the framework handles them: what a handler sends, what a parsed request
  holds. Numbers are integers. \<open>JInst s\<close> is an instance of a class (a Date, a Buffer, a Map),
  which the code passes on untouched; \<open>s\<close> is the text \<open>JSON.stringify\<close> prints for it.

  Also here: \<open>packages/core/src/sanitize.ts\<close> (prototype-pollution keys are stripped) and
  \<open>packages/core/src/state.ts\<close> (the write-once request state).
\<close>

datatype jsval =
    JUndef | JNull | JBool bool | JNum int | JStr string
  | JArr "jsval list" | JObj "(string \<times> jsval) list" | JInst string

definition truthy :: "jsval \<Rightarrow> bool" where
  "truthy v = (case v of JUndef \<Rightarrow> False | JNull \<Rightarrow> False | JBool b \<Rightarrow> b | JNum n \<Rightarrow> n \<noteq> 0
     | JStr s \<Rightarrow> s \<noteq> [] | _ \<Rightarrow> True)"

text \<open>\<open>String(v)\<close>.\<close>

fun js_string :: "jsval \<Rightarrow> string" where
  "js_string JUndef = ''undefined''"
| "js_string JNull = ''null''"
| "js_string (JBool b) = (if b then ''true'' else ''false'')"
| "js_string (JNum n) = show_int n"
| "js_string (JStr s) = s"
| "js_string (JInst s) = s"
| "js_string (JArr vs) = join_with '','' (map (\<lambda>v. if v = JUndef \<or> v = JNull then [] else js_string v) vs)"
| "js_string (JObj kvs) = ''[object Object]''"

subsection \<open>JSON.stringify\<close>

definition hex_digit :: "nat \<Rightarrow> char" where
  "hex_digit n = (if n < 10 then char_of (48 + n) else char_of (87 + n))"

definition json_char :: "char \<Rightarrow> string" where
  "json_char c =
     (if c = CHR 0x22 then [CHR 0x5C, CHR 0x22]
      else if c = CHR 0x5C then [CHR 0x5C, CHR 0x5C]
      else if c = CHR 0x08 then [CHR 0x5C, CHR ''b'']
      else if c = CHR 0x0C then [CHR 0x5C, CHR ''f'']
      else if c = CHR 0x0A then [CHR 0x5C, CHR ''n'']
      else if c = CHR 0x0D then [CHR 0x5C, CHR ''r'']
      else if c = CHR 0x09 then [CHR 0x5C, CHR ''t'']
      else if (of_char c :: nat) < 32
      then CHR 0x5C # ''u00'' @ [hex_digit (of_char c div 16), hex_digit (of_char c mod 16)]
      else [c])"

definition json_string :: "string \<Rightarrow> string" where
  "json_string s = CHR 0x22 # concat (map json_char s) @ [CHR 0x22]"

fun json_stringify :: "jsval \<Rightarrow> string option" where
  "json_stringify JUndef = None"
| "json_stringify JNull = Some ''null''"
| "json_stringify (JBool b) = Some (if b then ''true'' else ''false'')"
| "json_stringify (JNum n) = Some (show_int n)"
| "json_stringify (JStr s) = Some (json_string s)"
| "json_stringify (JInst s) = Some s"
| "json_stringify (JArr vs) =
     Some (''['' @ join_with '','' (map (\<lambda>v. case json_stringify v of Some s \<Rightarrow> s | None \<Rightarrow> ''null'') vs) @ '']'')"
| "json_stringify (JObj kvs) =
     Some (''{'' @ join_with '','' (map (\<lambda>(k, s). json_string k @ '':'' @ the s)
       (filter (\<lambda>(k, s). s \<noteq> None) (map (\<lambda>(k, v). (k, json_stringify v)) kvs))) @ ''}'')"

lemma json_stringify_None [simp]: "json_stringify v = None \<longleftrightarrow> v = JUndef"
  by (cases v) auto

subsection \<open>sanitizeInput\<close>

definition polluting :: "string \<Rightarrow> bool" where
  "polluting k \<longleftrightarrow> k = ''__proto__'' \<or> k = ''constructor'' \<or> k = ''prototype''"

fun sanitize_input :: "jsval \<Rightarrow> jsval" where
  "sanitize_input (JArr vs) = JArr (map sanitize_input vs)"
| "sanitize_input (JObj kvs) =
     JObj (map (\<lambda>(k, v). (k, sanitize_input v)) (filter (\<lambda>(k, v). \<not> polluting k) kvs))"
| "sanitize_input v = v"

fun pollution_free :: "jsval \<Rightarrow> bool" where
  "pollution_free (JArr vs) = (\<forall>v \<in> set vs. pollution_free v)"
| "pollution_free (JObj kvs) = (\<forall>(k, v) \<in> set kvs. \<not> polluting k \<and> pollution_free v)"
| "pollution_free v = True"

text \<open>The path of keys and indices leads to a value; polluting keys lead nowhere.\<close>

datatype step = Key string | Index nat

fun value_at :: "step list \<Rightarrow> jsval \<Rightarrow> jsval option" where
  "value_at [] v = Some v"
| "value_at (Key k # p) (JObj kvs) = (case map_of kvs k of Some v \<Rightarrow> value_at p v | None \<Rightarrow> None)"
| "value_at (Index i # p) (JArr vs) = (if i < length vs then value_at p (vs ! i) else None)"
| "value_at _ _ = None"

definition clean_path :: "step list \<Rightarrow> bool" where
  "clean_path p \<longleftrightarrow> (\<forall>k. Key k \<in> set p \<longrightarrow> \<not> polluting k)"

lemma sanitize_pollution_free: "pollution_free (sanitize_input v)"
  by (induction v rule: sanitize_input.induct) auto

lemma sanitize_id: "pollution_free v \<Longrightarrow> sanitize_input v = v"
proof (induction v rule: sanitize_input.induct)
  case (1 vs)
  then show ?case by (auto intro: map_idI)
next
  case (2 kvs)
  then have "filter (\<lambda>(k, v). \<not> polluting k) kvs = kvs"
    by (auto simp: filter_id_conv)
  with 2 show ?case by (auto intro!: map_idI)
qed auto

lemma map_of_sanitized:
  "\<not> polluting k \<Longrightarrow>
   map_of (map (\<lambda>(k, v). (k, f v)) (filter (\<lambda>(k, v). \<not> polluting k) kvs)) k = map_option f (map_of kvs k)"
  by (induction kvs) auto

lemma value_at_sanitize:
  "clean_path p \<Longrightarrow> value_at p (sanitize_input v) = map_option sanitize_input (value_at p v)"
  by (induction p v rule: value_at.induct)
     (auto simp: clean_path_def map_of_sanitized split: option.splits)

text \<open>\<open>sanitizeInput\<close> returns a value without a polluting key at any depth, leaves every value
  reachable without such a key where it was (itself sanitized), and changes nothing in a value
  that has none; in particular it is idempotent.\<close>

theorem sanitize_input_spec:
  "pollution_free (sanitize_input v)
   \<and> sanitize_input (sanitize_input v) = sanitize_input v
   \<and> (\<forall>p. clean_path p \<longrightarrow> value_at p (sanitize_input v) = map_option sanitize_input (value_at p v))"
  by (simp add: sanitize_pollution_free sanitize_id value_at_sanitize)

theorem sanitize_input_spec_witness:
  "clean_path [Key ''a''] \<and> value_at [Key ''a''] (sanitize_input
     (JObj [(''__proto__'', JObj []), (''a'', JNum 1)])) = Some (JNum 1)"
proof -
  let ?v = "JObj [(''__proto__'', JObj []), (''a'', JNum 1)]"
  have c: "clean_path [Key ''a'']" by (simp add: clean_path_def polluting_def)
  with sanitize_input_spec[of ?v] have
    "value_at [Key ''a''] (sanitize_input ?v) = map_option sanitize_input (value_at [Key ''a''] ?v)" by blast
  with c show ?thesis by simp
qed

subsection \<open>RequestState\<close>

text \<open>The write-once state of a request. \<open>rs_frozen\<close> records that \<open>Object.freeze\<close> was applied to
  the stored user object; \<open>get\<close> and \<open>set\<close> read through the proxy are methods, not keys.\<close>

record request_state =
  rs_data :: "(string, jsval) jsmap"
  rs_frozen :: bool

datatype state_error = ImmutableKey string

definition is_object :: "jsval \<Rightarrow> bool" where
  "is_object v = (case v of JArr _ \<Rightarrow> True | JObj _ \<Rightarrow> True | JInst _ \<Rightarrow> True | _ \<Rightarrow> False)"

definition state_get :: "string \<Rightarrow> request_state \<Rightarrow> jsval" where
  "state_get k s = (case map_of (rs_data s) k of Some v \<Rightarrow> v | None \<Rightarrow> JUndef)"

definition state_set :: "string \<Rightarrow> jsval \<Rightarrow> request_state \<Rightarrow> state_error option \<times> request_state" where
  "state_set k v s =
     (if map_of (rs_data s) k \<noteq> None then (Some (ImmutableKey k), s)
      else (None, s\<lparr> rs_frozen := (rs_frozen s \<or> (k = ''user'' \<and> is_object v)),
                     rs_data := AList.update k v (rs_data s) \<rparr>))"

datatype proxy_read = PMethodGet | PMethodSet | PValue jsval

definition state_proxy_get :: "string \<Rightarrow> request_state \<Rightarrow> proxy_read" where
  "state_proxy_get k s =
     (if k = ''get'' then PMethodGet else if k = ''set'' then PMethodSet
      else PValue (state_get k s))"

definition state_proxy_set :: "string \<Rightarrow> jsval \<Rightarrow> request_state \<Rightarrow> state_error option \<times> request_state" where
  "state_proxy_set k v s =
     (if map_of (rs_data s) k \<noteq> None then (Some (ImmutableKey k), s)
      else (None, s\<lparr> rs_frozen := (rs_frozen s \<or> (k = ''user'' \<and> is_object v)),
                     rs_data := AList.update k v (rs_data s) \<rparr>))"

fun state_run :: "(string \<times> jsval) list \<Rightarrow> request_state \<Rightarrow> request_state" where
  "state_run [] s = s"
| "state_run ((k, v) # ws) s = state_run ws (snd (state_set k v s))"

lemma state_set_keeps: "map_of (rs_data s) k = Some v \<Longrightarrow> map_of (rs_data (snd (state_set k' v' s))) k = Some v"
  by (auto simp: state_set_def)

lemma state_run_keeps: "map_of (rs_data s) k = Some v \<Longrightarrow> map_of (rs_data (state_run ws s)) k = Some v"
  by (induction ws s rule: state_run.induct) (auto simp: state_set_keeps)

text \<open>The first write of a key decides its value: once set, no sequence of later writes changes
  it, and every later write of that key is refused with an error.\<close>

theorem request_state_write_once:
  assumes "fst (state_set k v s) = None"
  shows "state_get k (state_run ws (snd (state_set k v s))) = v
     \<and> fst (state_set k v' (state_run ws (snd (state_set k v s)))) = Some (ImmutableKey k)"
proof -
  have "map_of (rs_data (snd (state_set k v s))) k = Some v"
    using assms by (auto simp: state_set_def split: if_splits)
  from state_run_keeps[OF this] show ?thesis by (simp add: state_get_def state_set_def)
qed

theorem request_state_write_once_witness:
  "state_get ''user'' (state_run [(''user'', JNull), (''x'', JNum 1)]
     (snd (state_set ''user'' (JNum 7) \<lparr>rs_data = [], rs_frozen = False\<rparr>))) = JNum 7"
  using request_state_write_once[of "''user''" "JNum 7" "\<lparr>rs_data = [], rs_frozen = False\<rparr>"
      "[(''user'', JNull), (''x'', JNum 1)]" JNull]
  by (simp add: state_set_def)

end
