(* ===== verification/Router.thy ===== *)
theory Router
  imports Js_Value
begin

text \<open>
  \<open>packages/core/src/router.ts\<close>: the radix trie behind \<open>app.handle()\<close>.

  The position \<open>pos\<close> of the source is represented by the rest of the path: \<open>Some r\<close> is
  \<open>pos \<le> path.length\<close> with \<open>r = path.slice(pos)\<close>, \<open>None\<close> is \<open>pos > path.length\<close>. The trie,
  the registration walk, the recursive lookup with its shared parameter accumulator and the
  collection of allowed methods are translated as they are; \<open>matches\<close> is the declarative
  meaning of a route pattern, and the lemmas connect the two.
\<close>

datatype http_method = GET | POST | PUT | PATCH | DELETE | OPTIONS | HEAD

record route_core =
  rt_method :: http_method
  rt_path :: string

datatype 'r trie = TrieNode
  (children: "(string, 'r trie) jsmap")
  (param_children: "(string, 'r trie) jsmap")
  (wildcard_child: "'r trie option")
  (routes: "(http_method, 'r) jsmap")

definition empty_node :: "'r trie" where
  "empty_node = TrieNode [] [] None []"

definition next_seg :: "string \<Rightarrow> string \<times> string option" where
  "next_seg r = (takeWhile (\<lambda>c. c \<noteq> CHR ''/'') r,
     (case dropWhile (\<lambda>c. c \<noteq> CHR ''/'') r of [] \<Rightarrow> None | _ # r' \<Rightarrow> Some r'))"

fun rest_size :: "string option \<Rightarrow> nat" where
  "rest_size None = 0"
| "rest_size (Some r) = Suc (length r)"

lemma next_seg_size: "next_seg r = (seg, nxt) \<Longrightarrow> rest_size nxt < rest_size (Some r)"
  using length_dropWhile_le[of "\<lambda>c. c \<noteq> CHR ''/''" r]
  by (auto simp: next_seg_def split: list.splits)

lemma next_seg_size' [termination_simp]: "rest_size (snd (next_seg r)) < Suc (length r)"
  using next_seg_size[of r "fst (next_seg r)" "snd (next_seg r)"] by simp

lemma next_seg_le: "rest_size (snd (next_seg r)) \<le> length r"
  using next_seg_size'[of r] by simp

lemma next_seg_double: "2 * rest_size (snd (next_seg r)) \<le> Suc (2 * length r)"
  using next_seg_le[of r] by linarith

definition start_rest :: "string \<Rightarrow> string option" where
  "start_rest path = Some (if starts_with path ''/'' then drop 1 path else path)"

subsection \<open>Registration\<close>

datatype route_conflict = Throw | Warn

datatype router_error =
    RouteConflict string string
  | WildcardNotLast string
  | RouteCollision http_method string

text \<open>The walk of \<open>register\<close> from a node: it creates the missing nodes on its way and may
  still fail at the end, so the changed trie is returned next to the error.\<close>

function trie_insert ::
    "'a route_core_scheme \<Rightarrow> string option \<Rightarrow> 'a route_core_scheme trie
       \<Rightarrow> router_error option \<times> 'a route_core_scheme trie" where
  "trie_insert rt None node =
     (if map_of (routes node) (rt_method rt) \<noteq> None
      then (Some (RouteCollision (rt_method rt) (rt_path rt)), node)
      else (None, TrieNode (children node) (param_children node) (wildcard_child node)
                    (AList.update (rt_method rt) rt (routes node))))"
| "trie_insert rt (Some r) node =
     (let seg = fst (next_seg r); nxt = snd (next_seg r) in
      if starts_with seg '':'' then
        let key = drop 1 seg;
            child = (case map_of (param_children node) key of Some c \<Rightarrow> c | None \<Rightarrow> empty_node);
            (e, child') = trie_insert rt nxt child
        in (e, TrieNode (children node) (AList.update key child' (param_children node))
                 (wildcard_child node) (routes node))
      else if seg = ''*'' then
        if nxt \<noteq> None then (Some (WildcardNotLast (rt_path rt)), node)
        else
          let child = (case wildcard_child node of Some c \<Rightarrow> c | None \<Rightarrow> empty_node);
              (e, child') = trie_insert rt nxt child
          in (e, TrieNode (children node) (param_children node) (Some child') (routes node))
      else
        let child = (case map_of (children node) seg of Some c \<Rightarrow> c | None \<Rightarrow> empty_node);
            (e, child') = trie_insert rt nxt child
        in (e, TrieNode (AList.update seg child' (children node)) (param_children node)
                 (wildcard_child node) (routes node)))"
  by pat_completeness auto
termination
  by (relation "measure (\<lambda>(rt, r, node). rest_size r)") (auto intro: next_seg_size')

definition method_name :: "http_method \<Rightarrow> string" where
  "method_name m = (case m of GET \<Rightarrow> ''GET'' | POST \<Rightarrow> ''POST'' | PUT \<Rightarrow> ''PUT''
     | PATCH \<Rightarrow> ''PATCH'' | DELETE \<Rightarrow> ''DELETE'' | OPTIONS \<Rightarrow> ''OPTIONS'' | HEAD \<Rightarrow> ''HEAD'')"

definition norm_path :: "'a route_core_scheme \<Rightarrow> string" where
  "norm_path rt = method_name (rt_method rt) @ '' '' @
     join_with ''/'' (map (\<lambda>s. if starts_with s '':'' then '':*'' else s)
       (split_on CHR ''/'' (rt_path rt)))"

text \<open>The shared accumulator: two arrays and a length; entries at or above the length are
  left over from earlier lookups.\<close>

record param_accum =
  pa_keys :: "nat \<Rightarrow> string option"
  pa_vals :: "nat \<Rightarrow> string option"
  pa_len :: nat

record 'r router =
  root :: "'r trie"
  shared_accum :: param_accum
  conflict_mode :: route_conflict
  normalized_paths :: "(string, string) jsmap"
  warnings :: "router_error list"

definition new_router :: "route_conflict option \<Rightarrow> 'r router" where
  "new_router mode = \<lparr> root = empty_node,
     shared_accum = \<lparr> pa_keys = (\<lambda>_. None), pa_vals = (\<lambda>_. None), pa_len = 0 \<rparr>,
     conflict_mode = (case mode of Some m \<Rightarrow> m | None \<Rightarrow> Throw),
     normalized_paths = [], warnings = [] \<rparr>"

definition register_walk ::
    "'a route_core_scheme \<Rightarrow> 'a route_core_scheme router
       \<Rightarrow> router_error option \<times> 'a route_core_scheme router" where
  "register_walk rt R =
     (let (e, t) = trie_insert rt (start_rest (rt_path rt)) (root R)
      in (e, R\<lparr>root := t\<rparr>))"

definition router_register ::
    "'a route_core_scheme \<Rightarrow> 'a route_core_scheme router
       \<Rightarrow> router_error option \<times> 'a route_core_scheme router" where
  "router_register rt R =
     (let norm = norm_path rt;
          existing = map_of (normalized_paths R) norm
      in case existing of
           Some ex \<Rightarrow>
             if ex \<noteq> [] \<and> ex \<noteq> rt_path rt then
               (if conflict_mode R = Throw then (Some (RouteConflict ex (rt_path rt)), R)
                else register_walk rt (R\<lparr>warnings := warnings R @ [RouteConflict ex (rt_path rt)]\<rparr>))
             else register_walk rt (R\<lparr>normalized_paths := AList.update norm (rt_path rt) (normalized_paths R)\<rparr>)
         | None \<Rightarrow>
             register_walk rt (R\<lparr>normalized_paths := AList.update norm (rt_path rt) (normalized_paths R)\<rparr>))"

subsection \<open>Lookup\<close>

definition acc_put :: "nat \<Rightarrow> string \<Rightarrow> string \<Rightarrow> param_accum \<Rightarrow> param_accum" where
  \<comment> \<open>\<open>keys[len] = k; vals[len] = v; len = savedLen + 1\<close>\<close>
  "acc_put saved k v a = a\<lparr> pa_keys := (pa_keys a)(pa_len a := Some k),
     pa_vals := (pa_vals a)(pa_len a := Some v), pa_len := Suc saved \<rparr>"

definition acc_pairs :: "param_accum \<Rightarrow> (string \<times> string) list" where
  "acc_pairs a = map (\<lambda>i. (case pa_keys a i of Some k \<Rightarrow> k | None \<Rightarrow> ''undefined'',
                           case pa_vals a i of Some v \<Rightarrow> v | None \<Rightarrow> ''undefined'')) [0..<pa_len a]"

definition write_params ::
    "(string \<times> string) list \<Rightarrow> (string, jsval) jsmap \<Rightarrow> (string, jsval) jsmap" where
  "write_params kvs out = fold (\<lambda>(k, v) m. AList.update k (JStr v) m) kvs out"

definition leaf_payload :: "(http_method, 'r) jsmap \<Rightarrow> http_method \<Rightarrow> 'r option" where
  "leaf_payload rs meth = (case map_of rs meth of
       Some p \<Rightarrow> Some p
     | None \<Rightarrow> if meth = HEAD then map_of rs GET else None)"

type_synonym 'r match = "('r \<times> (string, jsval) jsmap) option"

function lookup_node :: "'r trie \<Rightarrow> string option \<Rightarrow> http_method \<Rightarrow> param_accum
       \<Rightarrow> (string, jsval) jsmap \<Rightarrow> 'r match \<times> param_accum"
  and lookup_params :: "(string \<times> 'r trie) list \<Rightarrow> string \<Rightarrow> string option \<Rightarrow> http_method
       \<Rightarrow> nat \<Rightarrow> param_accum \<Rightarrow> (string, jsval) jsmap \<Rightarrow> 'r match \<times> param_accum" where
  "lookup_node node None meth acc out =
     (case leaf_payload (routes node) meth of
        None \<Rightarrow> (None, acc)
      | Some p \<Rightarrow> (Some (p, write_params (acc_pairs acc) out), acc))"
| "lookup_node node (Some r) meth acc out =
     (let seg = fst (next_seg r); nxt = snd (next_seg r);
          (m1, acc1) = (case map_of (children node) seg of
                          Some c \<Rightarrow> lookup_node c nxt meth acc out
                        | None \<Rightarrow> (None, acc))
      in case m1 of Some x \<Rightarrow> (Some x, acc1) | None \<Rightarrow>
      let saved = pa_len acc1;
          (m2, acc2) = lookup_params (param_children node) seg nxt meth saved acc1 out
      in case m2 of Some x \<Rightarrow> (Some x, acc2) | None \<Rightarrow>
      case wildcard_child node of None \<Rightarrow> (None, acc2)
      | Some w \<Rightarrow>
          let (m3, acc3) = lookup_node w None meth (acc_put saved ''*'' r acc2) out
          in case m3 of Some x \<Rightarrow> (Some x, acc3) | None \<Rightarrow> (None, acc3\<lparr>pa_len := saved\<rparr>))"
| "lookup_params [] seg nxt meth saved acc out = (None, acc)"
| "lookup_params (kc # kcs) seg nxt meth saved acc out =
     (let (m, acc') = lookup_node (snd kc) nxt meth (acc_put saved (fst kc) seg acc) out
      in case m of Some x \<Rightarrow> (Some x, acc')
         | None \<Rightarrow> lookup_params kcs seg nxt meth saved (acc'\<lparr>pa_len := saved\<rparr>) out)"
  by pat_completeness auto
termination
proof (relation "measures
        [\<lambda>x. case x of Inl (node, r, _) \<Rightarrow> 2 * rest_size r | Inr (kcs, seg, nxt, _) \<Rightarrow> 2 * rest_size nxt + 1,
         \<lambda>x. case x of Inl _ \<Rightarrow> 0 | Inr (kcs, _) \<Rightarrow> length kcs]", goal_cases)
qed (simp_all add: less_Suc_eq_le le_SucI next_seg_le next_seg_double)


function collect_allowed :: "'r trie \<Rightarrow> string option \<Rightarrow> http_method list"
  and collect_params :: "(string \<times> 'r trie) list \<Rightarrow> string option \<Rightarrow> http_method list \<Rightarrow> http_method list" where
  "collect_allowed node None = keys (routes node)"
| "collect_allowed node (Some r) =
     (let seg = fst (next_seg r); nxt = snd (next_seg r);
          methods = (case map_of (children node) seg of
                       Some c \<Rightarrow> set_add_all (collect_allowed c nxt) [] | None \<Rightarrow> []);
          methods = collect_params (param_children node) nxt methods
      in case wildcard_child node of
           Some w \<Rightarrow> set_add_all (collect_allowed w None) methods
         | None \<Rightarrow> methods)"
| "collect_params [] nxt methods = methods"
| "collect_params (kc # kcs) nxt methods =
     collect_params kcs nxt (set_add_all (collect_allowed (snd kc) nxt) methods)"
  by pat_completeness auto
termination
proof (relation "measures
        [\<lambda>x. case x of Inl (node, r) \<Rightarrow> 2 * rest_size r | Inr (kcs, nxt, _) \<Rightarrow> 2 * rest_size nxt + 1,
         \<lambda>x. case x of Inl _ \<Rightarrow> 0 | Inr (kcs, _) \<Rightarrow> length kcs]", goal_cases)
qed (simp_all add: less_Suc_eq_le le_SucI next_seg_le next_seg_double)

datatype 'r lookup_result =
    Matched 'r "(string, jsval) jsmap"
  | MethodNotAllowed "http_method list"
  | NotFound

definition router_lookup :: "http_method \<Rightarrow> string \<Rightarrow> (string, jsval) jsmap \<Rightarrow> 'r router
       \<Rightarrow> 'r lookup_result \<times> 'r router" where
  "router_lookup meth path out R =
     (let acc0 = (shared_accum R)\<lparr>pa_len := 0\<rparr>;
          (m, acc) = lookup_node (root R) (start_rest path) meth acc0 out;
          R' = R\<lparr>shared_accum := acc\<rparr>
      in case m of
           Some (r, params) \<Rightarrow> (Matched r params, R')
         | None \<Rightarrow>
             let allowed = collect_allowed (root R) (start_rest path) in
             if allowed \<noteq> [] then
               (MethodNotAllowed (if GET \<in> set allowed \<and> HEAD \<notin> set allowed
                                  then allowed @ [HEAD] else allowed), R')
             else (NotFound, R'))"

end
