(* ===== verification/Router_Spec.thy ===== *)
theory Router_Spec
  imports Router
begin

text \<open>
  What the trie of \<open>Router\<close> means: a route path is a pattern (\<open>pat_of\<close>), a pattern matches a
  request path and binds its parameters (\<open>matches\<close>), and a trie is the map \<open>trie_get\<close> from
  patterns to the routes stored there. The lemmas give the insert law of the trie, the
  equivalence of the lookup with the shared accumulator and a pure search, and soundness,
  completeness and precedence of that search.
\<close>

datatype pseg = Lit string | Par string | Wild

definition pseg_of :: "string \<Rightarrow> pseg" where
  "pseg_of seg = (if starts_with seg '':'' then Par (drop 1 seg)
                  else if seg = ''*'' then Wild else Lit seg)"

function pat_of :: "string option \<Rightarrow> pseg list" where
  "pat_of None = []"
| "pat_of (Some r) = pseg_of (fst (next_seg r)) # pat_of (snd (next_seg r))"
  by pat_completeness auto
termination
  by (relation "measure rest_size") (auto intro: next_seg_size')

definition route_pattern :: "'a route_core_scheme \<Rightarrow> pseg list" where
  "route_pattern rt = pat_of (start_rest (rt_path rt))"

fun matches :: "pseg list \<Rightarrow> string option \<Rightarrow> (string \<times> string) list option" where
  "matches [] None = Some []"
| "matches (Lit s # ps) (Some r) =
     (if fst (next_seg r) = s then matches ps (snd (next_seg r)) else None)"
| "matches (Par k # ps) (Some r) =
     map_option ((#) (k, fst (next_seg r))) (matches ps (snd (next_seg r)))"
| "matches (Wild # ps) (Some r) = (if ps = [] then Some [(''*'', r)] else None)"
| "matches _ _ = None"

fun trie_get :: "'r trie \<Rightarrow> pseg list \<Rightarrow> (http_method \<rightharpoonup> 'r)" where
  "trie_get node [] = map_of (routes node)"
| "trie_get node (Lit s # ps) =
     (case map_of (children node) s of Some c \<Rightarrow> trie_get c ps | None \<Rightarrow> Map.empty)"
| "trie_get node (Par k # ps) =
     (case map_of (param_children node) k of Some c \<Rightarrow> trie_get c ps | None \<Rightarrow> Map.empty)"
| "trie_get node (Wild # ps) =
     (case wildcard_child node of Some c \<Rightarrow> trie_get c ps | None \<Rightarrow> Map.empty)"

lemma trie_get_empty [simp]: "trie_get empty_node ps = Map.empty"
  by (cases ps; cases "hd ps") (auto simp: empty_node_def)

inductive trie_inv :: "'r trie \<Rightarrow> bool" where
  "distinct_keys cs \<Longrightarrow> distinct_keys ps \<Longrightarrow> distinct_keys rs
   \<Longrightarrow> (\<forall>x \<in> set cs. trie_inv (snd x)) \<Longrightarrow> (\<forall>x \<in> set ps. trie_inv (snd x))
   \<Longrightarrow> (\<forall>c. w = Some c \<longrightarrow> trie_inv c) \<Longrightarrow> trie_inv (TrieNode cs ps w rs)"

inductive_simps trie_inv_Node [simp]: "trie_inv (TrieNode cs ps w rs)"

lemma trie_inv_sel:
  "trie_inv node \<longleftrightarrow> distinct_keys (children node) \<and> distinct_keys (param_children node)
     \<and> distinct_keys (routes node) \<and> (\<forall>x \<in> set (children node). trie_inv (snd x))
     \<and> (\<forall>x \<in> set (param_children node). trie_inv (snd x))
     \<and> (\<forall>c. wildcard_child node = Some c \<longrightarrow> trie_inv c)"
  by (cases node) auto

lemma trie_inv_empty [simp]: "trie_inv empty_node"
  by (simp add: empty_node_def)

lemma trie_inv_map_of: "\<forall>x \<in> set m. trie_inv (snd x) \<Longrightarrow> map_of m k = Some c \<Longrightarrow> trie_inv c"
  by (auto dest!: map_of_SomeD)

lemma ball_snd_update:
  "\<forall>x \<in> set m. P (snd x) \<Longrightarrow> P v \<Longrightarrow> \<forall>x \<in> set (AList.update k v m). P (snd x)"
  using set_update_subset[of k v m] by auto

subsection \<open>The insert law\<close>

fun wild_inner :: "pseg list \<Rightarrow> bool" where
  "wild_inner [] = False"
| "wild_inner (Wild # ps) = (ps \<noteq> [])"
| "wild_inner (_ # ps) = wild_inner ps"

definition insert_error :: "'a route_core_scheme \<Rightarrow> pseg list \<Rightarrow> 'a route_core_scheme trie \<Rightarrow> router_error option" where
  "insert_error rt ps node =
     (if wild_inner ps then Some (WildcardNotLast (rt_path rt))
      else if trie_get node ps (rt_method rt) \<noteq> None
      then Some (RouteCollision (rt_method rt) (rt_path rt)) else None)"

lemma pat_of_eq_Nil [simp]: "pat_of r = [] \<longleftrightarrow> r = None"
  by (cases r) auto

text \<open>The subtree a walk enters when it reads a segment (a fresh node if there is none), and
  the node with that subtree replaced.\<close>

fun child_at :: "'r trie \<Rightarrow> pseg \<Rightarrow> 'r trie" where
  "child_at node (Lit s) = (case map_of (children node) s of Some c \<Rightarrow> c | None \<Rightarrow> empty_node)"
| "child_at node (Par k) = (case map_of (param_children node) k of Some c \<Rightarrow> c | None \<Rightarrow> empty_node)"
| "child_at node Wild = (case wildcard_child node of Some c \<Rightarrow> c | None \<Rightarrow> empty_node)"

fun set_child :: "'r trie \<Rightarrow> pseg \<Rightarrow> 'r trie \<Rightarrow> 'r trie" where
  "set_child node (Lit s) c =
     TrieNode (AList.update s c (children node)) (param_children node) (wildcard_child node) (routes node)"
| "set_child node (Par k) c =
     TrieNode (children node) (AList.update k c (param_children node)) (wildcard_child node) (routes node)"
| "set_child node Wild c = TrieNode (children node) (param_children node) (Some c) (routes node)"

lemma trie_insert_step:
  "trie_insert rt (Some r) node =
     (let p = pseg_of (fst (next_seg r)) in
      if p = Wild \<and> snd (next_seg r) \<noteq> None then (Some (WildcardNotLast (rt_path rt)), node)
      else (fst (trie_insert rt (snd (next_seg r)) (child_at node p)),
            set_child node p (snd (trie_insert rt (snd (next_seg r)) (child_at node p)))))"
  (is "?l = ?r")
proof (cases "next_seg r")
  case (Pair seg nxt)
  consider (par) "starts_with seg '':''"
    | (wild) "\<not> starts_with seg '':''" "seg = ''*''"
    | (lit) "\<not> starts_with seg '':''" "seg \<noteq> ''*''"
    by blast
  then show ?thesis
  proof cases
    case par
    with Pair show ?thesis by (simp add: pseg_of_def Let_def case_prod_beta)
  next
    case wild
    then have "pseg_of seg = Wild" by (simp add: pseg_of_def)
    with wild Pair show ?thesis by (cases nxt) (simp_all add: Let_def case_prod_beta)
  next
    case lit
    with Pair show ?thesis by (simp add: pseg_of_def Let_def case_prod_beta)
  qed
qed
declare trie_insert.simps(2) [simp del]

lemma routes_set_child [simp]: "routes (set_child node p c) = routes node"
  by (cases p) auto

lemma trie_get_Cons: "trie_get node (p # ps) = trie_get (child_at node p) ps"
  by (cases p) (auto split: option.splits)

lemma trie_get_set_child:
  "trie_get (set_child node p c) qs =
     (case qs of [] \<Rightarrow> trie_get node [] | q # qs' \<Rightarrow>
        if q = p then trie_get c qs' else trie_get node (q # qs'))"
  by (cases p; cases qs; cases "hd qs") auto

lemma trie_inv_child_at: "trie_inv node \<Longrightarrow> trie_inv (child_at node p)"
  by (cases p) (auto simp: trie_inv_sel[of node] intro: trie_inv_map_of split: option.splits)

lemma trie_inv_set_child: "trie_inv node \<Longrightarrow> trie_inv c \<Longrightarrow> trie_inv (set_child node p c)"
proof -
  assume "trie_inv node" "trie_inv c"
  then show "trie_inv (set_child node p c)"
    using ball_snd_update[of "children node" trie_inv c] ball_snd_update[of "param_children node" trie_inv c]
    by (cases node; cases p) simp_all
qed

lemma trie_insert_error:
  "fst (trie_insert rt r node) = insert_error rt (pat_of r) node"
proof (induction r arbitrary: node rule: pat_of.induct)
  case (1 node)
  then show ?case by (simp add: insert_error_def)
next
  case (2 r node)
  obtain seg nxt where ns: "next_seg r = (seg, nxt)" by force
  have wi: "wild_inner (p # ps) = (if p = Wild then ps \<noteq> [] else wild_inner ps)" for p ps
    by (cases p) auto
  show ?case
    using 2 ns by (auto simp: trie_insert_step insert_error_def Let_def wi trie_get_Cons[of node])
qed

lemma trie_insert_get:
  "trie_get (snd (trie_insert rt r node)) qs m =
     (if insert_error rt (pat_of r) node = None \<and> qs = pat_of r \<and> m = rt_method rt then Some rt
      else trie_get node qs m)"
proof (induction r arbitrary: node qs m rule: pat_of.induct)
  case (1 node qs m)
  show ?case
    by (cases qs; cases "hd qs") (auto simp: insert_error_def split: option.splits)
next
  case (2 r node qs m)
  obtain seg nxt where ns: "next_seg r = (seg, nxt)" by force
  let ?p = "pseg_of seg"
  show ?case
  proof (cases "?p = Wild \<and> nxt \<noteq> None")
    case True
    with ns show ?thesis by (auto simp: trie_insert_step insert_error_def)
  next
    case False
    then have wi: "wild_inner (?p # pat_of nxt) = wild_inner (pat_of nxt)"
      by (cases ?p) auto
    have ie: "insert_error rt (?p # pat_of nxt) node = insert_error rt (pat_of nxt) (child_at node ?p)"
      by (simp add: insert_error_def wi trie_get_Cons)
    have step: "snd (trie_insert rt (Some r) node)
        = set_child node ?p (snd (trie_insert rt nxt (child_at node ?p)))"
      using False ns by (auto simp: trie_insert_step Let_def)
    have IH: "trie_get (snd (trie_insert rt nxt (child_at node ?p))) qs' m' =
      (if insert_error rt (pat_of nxt) (child_at node ?p) = None \<and> qs' = pat_of nxt \<and> m' = rt_method rt
       then Some rt else trie_get (child_at node ?p) qs' m')" for qs' m'
      using 2 ns by simp
    show ?thesis
      by (cases qs) (simp_all add: step trie_get_set_child IH ns ie trie_get_Cons[of node] del: trie_get.simps(2-))
  qed
qed

lemma trie_insert_inv: "trie_inv node \<Longrightarrow> trie_inv (snd (trie_insert rt r node))"
proof (induction r arbitrary: node rule: pat_of.induct)
  case (1 node)
  then show ?case by (cases node) auto
next
  case (2 r node)
  then show ?case
    by (simp add: trie_insert_step Let_def trie_inv_child_at trie_inv_set_child)
qed

subsection \<open>A pure search, equal to the lookup with the shared accumulator\<close>

type_synonym 'r found = "('r \<times> (string \<times> string) list \<times> pseg list) option"

definition found_under :: "pseg \<Rightarrow> (string \<times> string) list \<Rightarrow> 'r found \<Rightarrow> 'r found" where
  "found_under p b = map_option (\<lambda>(r, bs, ps). (r, b @ bs, p # ps))"

lemma found_under_simps [simp]:
  "found_under p b None = None"
  "found_under p b (Some (r, bs, ps)) = Some (r, b @ bs, p # ps)"
  by (auto simp: found_under_def)

lemma found_under_eq_None [simp]: "found_under p b x = None \<longleftrightarrow> x = None"
  by (auto simp: found_under_def)

function find_node :: "'r trie \<Rightarrow> string option \<Rightarrow> http_method \<Rightarrow> 'r found"
  and find_params :: "(string \<times> 'r trie) list \<Rightarrow> string \<Rightarrow> string option \<Rightarrow> http_method \<Rightarrow> 'r found" where
  "find_node node None meth = map_option (\<lambda>p. (p, [], [])) (leaf_payload (routes node) meth)"
| "find_node node (Some r) meth =
     (case (case map_of (children node) (fst (next_seg r)) of
              Some c \<Rightarrow> found_under (Lit (fst (next_seg r))) [] (find_node c (snd (next_seg r)) meth)
            | None \<Rightarrow> None) of
        Some x \<Rightarrow> Some x
      | None \<Rightarrow> (case find_params (param_children node) (fst (next_seg r)) (snd (next_seg r)) meth of
          Some x \<Rightarrow> Some x
        | None \<Rightarrow> (case wildcard_child node of
            None \<Rightarrow> None
          | Some w \<Rightarrow> map_option (\<lambda>p. (p, [(''*'', r)], [Wild])) (leaf_payload (routes w) meth))))"
| "find_params [] seg nxt meth = None"
| "find_params (kc # kcs) seg nxt meth =
     (case found_under (Par (fst kc)) [(fst kc, seg)] (find_node (snd kc) nxt meth) of
        Some x \<Rightarrow> Some x
      | None \<Rightarrow> find_params kcs seg nxt meth)"
  by pat_completeness auto
termination
proof (relation "measures
        [\<lambda>x. case x of Inl (node, r, _) \<Rightarrow> 2 * rest_size r | Inr (kcs, seg, nxt, _) \<Rightarrow> 2 * rest_size nxt + 1,
         \<lambda>x. case x of Inl _ \<Rightarrow> 0 | Inr (kcs, _) \<Rightarrow> length kcs]", goal_cases)
qed (simp_all add: less_Suc_eq_le le_SucI next_seg_le next_seg_double)

lemma acc_pairs_put [simp]:
  "acc_pairs (acc_put (pa_len a) k v a) = acc_pairs a @ [(k, v)]"
  by (auto simp: acc_pairs_def acc_put_def)

lemma pa_len_put [simp]: "pa_len (acc_put s k v a) = Suc s"
  by (simp add: acc_put_def)

lemma length_acc_pairs [simp]: "length (acc_pairs a) = pa_len a"
  by (simp add: acc_pairs_def)

lemma acc_pairs_cut: "n \<le> pa_len a \<Longrightarrow> acc_pairs (a\<lparr>pa_len := n\<rparr>) = take n (acc_pairs a)"
  by (simp add: acc_pairs_def take_map)

lemma acc_restore:
  assumes "acc_pairs a' = acc_pairs a @ [kv]"
  shows "acc_pairs (a'\<lparr>pa_len := pa_len a\<rparr>) = acc_pairs a"
proof -
  have "pa_len a' = Suc (pa_len a)"
    using arg_cong[OF assms, of length] by simp
  then show ?thesis by (simp add: acc_pairs_cut assms)
qed

lemma acc_pairs_len: "acc_pairs a' = acc_pairs a \<Longrightarrow> pa_len a' = pa_len a"
  by (metis length_acc_pairs)

definition search_agrees ::
    "'r match \<times> param_accum \<Rightarrow> 'r found \<Rightarrow> param_accum \<Rightarrow> (string, jsval) jsmap \<Rightarrow> bool" where
  "search_agrees res f acc out \<longleftrightarrow> (case f of
     None \<Rightarrow> fst res = None \<and> acc_pairs (snd res) = acc_pairs acc
   | Some (p, b, _) \<Rightarrow> fst res = Some (p, write_params (acc_pairs acc @ b) out))"

lemma search_agrees_trans:
  "acc_pairs a' = acc_pairs a \<Longrightarrow> search_agrees res f a' out = search_agrees res f a out"
  by (auto simp: search_agrees_def split: option.splits)

lemma search_agrees_under_Lit [simp]:
  "search_agrees res (found_under (Lit s) [] f) acc out = search_agrees res f acc out"
  by (cases f) (auto simp: search_agrees_def)

lemma search_agrees_None:
  "search_agrees (m, a) None acc out \<longleftrightarrow> m = None \<and> acc_pairs a = acc_pairs acc"
  by (simp add: search_agrees_def)

lemma search_agrees_Some:
  "search_agrees (m, a) (Some (p, b, ps)) acc out \<longleftrightarrow> m = Some (p, write_params (acc_pairs acc @ b) out)"
  by (simp add: search_agrees_def)

declare lookup_node.simps(2) [simp del] find_node.simps(2) [simp del]

lemma lookup_find:
  fixes node :: "'r trie" and kcs :: "(string \<times> 'r trie) list"
  shows "search_agrees (lookup_node node r meth acc out) (find_node node r meth) acc out"
  "saved = pa_len acc \<Longrightarrow>
   search_agrees (lookup_params kcs seg nxt meth saved acc out) (find_params kcs seg nxt meth) acc out"
proof (induction node r meth acc out and kcs seg nxt meth saved acc out
       rule: lookup_node_lookup_params.induct)
  case (1 node meth acc out)
  show ?case by (auto simp: search_agrees_def split: option.splits)
next
  case (2 node r meth acc out)
  obtain seg nxt where ns: "next_seg r = (seg, nxt)" by force
  define f1 where "f1 = (case map_of (children node) seg of
    Some c \<Rightarrow> found_under (Lit seg) [] (find_node c nxt meth) | None \<Rightarrow> None)"
  obtain m1 acc1 where s1: "(case map_of (children node) seg of
      Some c \<Rightarrow> lookup_node c nxt meth acc out | None \<Rightarrow> (None, acc)) = (m1, acc1)"
    by (rule prod.exhaust)
  have IH1: "search_agrees (lookup_node c nxt meth acc out) (find_node c nxt meth) acc out"
    if "map_of (children node) seg = Some c" for c
    by (rule "2.IH"(1)[of seg nxt c]) (simp_all add: ns that)
  have A1: "search_agrees (m1, acc1) f1 acc out"
  proof (cases "map_of (children node) seg")
    case None
    with s1 show ?thesis by (simp add: f1_def search_agrees_None)
  next
    case (Some c)
    with s1 IH1[OF Some] show ?thesis by (simp add: f1_def)
  qed
  have fd0: "find_node node (Some r) meth =
     (case f1 of Some x \<Rightarrow> Some x
      | None \<Rightarrow> (case find_params (param_children node) seg nxt meth of
          Some x \<Rightarrow> Some x
        | None \<Rightarrow> (case wildcard_child node of
            None \<Rightarrow> None
          | Some w \<Rightarrow> map_option (\<lambda>p. (p, [(''*'', r)], [Wild])) (leaf_payload (routes w) meth))))"
    by (simp only: find_node.simps ns fst_conv snd_conv f1_def)
  have lk0: "m1 = Some y \<Longrightarrow> lookup_node node (Some r) meth acc out = (Some y, acc1)" for y
    by (simp only: lookup_node.simps ns fst_conv snd_conv Let_def s1 prod.case option.case)
  show ?case
  proof (cases f1)
    case (Some x)
    with A1 show ?thesis by (cases x) (simp add: fd0 lk0 search_agrees_Some)
  next
    case f1: None
    with A1 have m1: "m1 = None" and a1: "acc_pairs acc1 = acc_pairs acc"
      by (auto simp: search_agrees_None)
    obtain m2 acc2 where s2: "lookup_params (param_children node) seg nxt meth (pa_len acc1) acc1 out = (m2, acc2)"
      by force
    have A2: "search_agrees (m2, acc2) (find_params (param_children node) seg nxt meth) acc out"
    proof -
      have "search_agrees (lookup_params (param_children node) seg nxt meth (pa_len acc1) acc1 out)
              (find_params (param_children node) seg nxt meth) acc1 out"
        by (rule "2.IH"(2)[OF _ _ s1[symmetric] refl m1 refl refl]) (simp_all add: ns)
      then show ?thesis unfolding s2 search_agrees_trans[OF a1] .
    qed
    show ?thesis
    proof (cases "find_params (param_children node) seg nxt meth")
      case (Some x)
      obtain p b ps where x: "x = (p, b, ps)" by (rule prod_cases3)
      with A2 Some have "m2 = Some (p, write_params (acc_pairs acc @ b) out)"
        by (simp add: search_agrees_Some)
      then have "lookup_node node (Some r) meth acc out = (m2, acc2)"
        by (simp only: lookup_node.simps ns fst_conv snd_conv Let_def s1 m1 s2 prod.case option.case)
      with A2 Some x show ?thesis by (simp add: fd0 f1 search_agrees_Some)
    next
      case fp: None
      with A2 have m2: "m2 = None" and a2: "acc_pairs acc2 = acc_pairs acc"
        by (auto simp: search_agrees_None)
      have l1: "pa_len acc1 = pa_len acc2"
        using a1 a2 acc_pairs_len[of acc1 acc2] by simp
      have l2: "acc_pairs (acc_put (pa_len acc2) ''*'' r acc2) = acc_pairs acc @ [(''*'', r)]"
        using a2 by simp
      have l3: "acc_pairs ((acc_put (pa_len acc2) ''*'' r acc2)\<lparr>pa_len := pa_len acc2\<rparr>) = acc_pairs acc"
        using acc_restore[of "acc_put (pa_len acc2) ''*'' r acc2" acc2] a2 by simp
      have lk: "lookup_node node (Some r) meth acc out =
        (case wildcard_child node of None \<Rightarrow> (None, acc2)
         | Some w \<Rightarrow> (case lookup_node w None meth (acc_put (pa_len acc2) ''*'' r acc2) out of
             (m3, acc3) \<Rightarrow> case m3 of Some x \<Rightarrow> (Some x, acc3) | None \<Rightarrow> (None, acc3\<lparr>pa_len := pa_len acc2\<rparr>)))"
        by (simp only: lookup_node.simps(2) ns fst_conv snd_conv Let_def s1 m1 s2 m2 prod.case option.case flip: l1)
      have fd: "find_node node (Some r) meth = (case wildcard_child node of None \<Rightarrow> None
         | Some w \<Rightarrow> map_option (\<lambda>p. (p, [(''*'', r)], [Wild])) (leaf_payload (routes w) meth))"
        by (simp add: fd0 f1 fp)
      show ?thesis
      proof (cases "wildcard_child node")
        case None
        then show ?thesis by (simp add: lk fd search_agrees_None a2)
      next
        case (Some w)
        then show ?thesis
          by (cases "leaf_payload (routes w) meth")
             (simp_all add: lk fd search_agrees_None search_agrees_Some l2 l3 a2)
      qed
    qed
  qed
next
  case (3 seg nxt meth saved acc out)
  show ?case by (simp add: search_agrees_def)
next
  case (4 kc kcs seg nxt meth saved acc out)
  obtain m acc' where s1: "lookup_node (snd kc) nxt meth (acc_put saved (fst kc) seg acc) out = (m, acc')"
    by force
  have A1: "search_agrees (m, acc') (find_node (snd kc) nxt meth) (acc_put saved (fst kc) seg acc) out"
    using "4.IH"(1) s1 by simp
  show ?case
  proof (cases "find_node (snd kc) nxt meth")
    case (Some x)
    with A1 s1 "4.prems" show ?thesis by (cases x) (simp add: search_agrees_Some)
  next
    case None
    with A1 "4.prems" have m: "m = None" and a: "acc_pairs (acc'\<lparr>pa_len := saved\<rparr>) = acc_pairs acc"
      by (auto simp: search_agrees_None intro: acc_restore)
    have "search_agrees (lookup_params kcs seg nxt meth saved (acc'\<lparr>pa_len := saved\<rparr>) out)
            (find_params kcs seg nxt meth) (acc'\<lparr>pa_len := saved\<rparr>) out"
      using "4.IH"(2)[of _ m acc'] s1 m by simp
    then show ?thesis
      unfolding search_agrees_trans[OF a] using s1 m None by simp
  qed
qed

subsection \<open>Soundness, completeness and precedence of the search\<close>

definition method_payload :: "(http_method \<rightharpoonup> 'r) \<Rightarrow> http_method \<Rightarrow> 'r option" where
  "method_payload f meth = (case f meth of
       Some p \<Rightarrow> Some p | None \<Rightarrow> if meth = HEAD then f GET else None)"

lemma leaf_payload_method: "leaf_payload rs meth = method_payload (map_of rs) meth"
  by (simp add: leaf_payload_def method_payload_def)

definition candidate :: "'r trie \<Rightarrow> string option \<Rightarrow> http_method \<Rightarrow> pseg list \<Rightarrow> bool" where
  "candidate node r meth ps \<longleftrightarrow> matches ps r \<noteq> None \<and> method_payload (trie_get node ps) meth \<noteq> None"

fun seg_rank :: "pseg \<Rightarrow> nat" where
  "seg_rank (Lit _) = 0" | "seg_rank (Par _) = 1" | "seg_rank Wild = 2"

fun at_least_as_specific :: "pseg list \<Rightarrow> pseg list \<Rightarrow> bool" where
  "at_least_as_specific (p # ps) (q # qs) =
     (if p = q then at_least_as_specific ps qs else seg_rank p \<le> seg_rank q)"
| "at_least_as_specific _ _ = True"

lemma matches_None_iff [simp]: "matches ps None = Some b \<longleftrightarrow> ps = [] \<and> b = []"
  by (cases "(ps, None :: string option)" rule: matches.cases) auto

lemma matches_Nil_Some [simp]: "matches [] (Some r) = None"
  by simp

lemma matches_Cons_None [simp]: "matches (p # ps) None = None"
  by (cases p) auto

lemma method_payload_empty [simp]: "method_payload Map.empty meth = None"
  by (simp add: method_payload_def)

lemma candidate_Some:
  "candidate node (Some r) meth ps \<longleftrightarrow>
     (\<exists>qs. ps = Lit (fst (next_seg r)) # qs
           \<and> (\<exists>c. map_of (children node) (fst (next_seg r)) = Some c \<and> candidate c (snd (next_seg r)) meth qs))
   \<or> (\<exists>k qs. ps = Par k # qs
           \<and> (\<exists>c. map_of (param_children node) k = Some c \<and> candidate c (snd (next_seg r)) meth qs))
   \<or> (ps = [Wild] \<and> (\<exists>w. wildcard_child node = Some w \<and> leaf_payload (routes w) meth \<noteq> None))"
  by (cases ps; cases "hd ps")
     (auto simp: candidate_def leaf_payload_method split: option.splits if_splits)

lemma find_sound:
  fixes node :: "'r trie" and kcs :: "(string \<times> 'r trie) list"
  shows "trie_inv node \<Longrightarrow> find_node node r meth = Some (p, b, ps) \<Longrightarrow>
     matches ps r = Some b \<and> method_payload (trie_get node ps) meth = Some p"
  and "\<forall>x \<in> set kcs. trie_inv (snd x) \<Longrightarrow> find_params kcs seg nxt meth = Some (p, b, ps) \<Longrightarrow>
     \<exists>kc \<in> set kcs. \<exists>b' ps'. b = (fst kc, seg) # b' \<and> ps = Par (fst kc) # ps'
        \<and> matches ps' nxt = Some b' \<and> method_payload (trie_get (snd kc) ps') meth = Some p"
proof (induction node r meth and kcs seg nxt meth arbitrary: p b ps and p b ps
       rule: find_node_find_params.induct)
  case (1 node meth)
  then show ?case by (auto simp: leaf_payload_method)
next
  case (2 node r meth)
  then have inv: "distinct_keys (param_children node)" "\<forall>x \<in> set (param_children node). trie_inv (snd x)"
    "\<And>c. map_of (children node) (fst (next_seg r)) = Some c \<Longrightarrow> trie_inv c"
    by (auto simp: trie_inv_sel[of node] dest: trie_inv_map_of)
  consider (lit) c ps' where "map_of (children node) (fst (next_seg r)) = Some c"
      "find_node c (snd (next_seg r)) meth = Some (p, b, ps')" "ps = Lit (fst (next_seg r)) # ps'"
    | (par) "(case map_of (children node) (fst (next_seg r)) of
          Some c \<Rightarrow> found_under (Lit (fst (next_seg r))) [] (find_node c (snd (next_seg r)) meth)
        | None \<Rightarrow> None) = None"
        "find_params (param_children node) (fst (next_seg r)) (snd (next_seg r)) meth = Some (p, b, ps)"
    | (wild) w where "wildcard_child node = Some w" "leaf_payload (routes w) meth = Some p"
        "b = [(''*'', r)]" "ps = [Wild]"
    using "2.prems"(2) by (auto simp: find_node.simps(2) found_under_def split: option.splits)
  then show ?case
  proof cases
    case lit
    with "2.IH"(1)[OF lit(1) inv(3)[OF lit(1)] lit(2)] show ?thesis by simp
  next
    case par
    from "2.IH"(2)[OF par(1) inv(2) par(2)] obtain kc b' ps' where
      "kc \<in> set (param_children node)" "b = (fst kc, fst (next_seg r)) # b'" "ps = Par (fst kc) # ps'"
      "matches ps' (snd (next_seg r)) = Some b'" "method_payload (trie_get (snd kc) ps') meth = Some p"
      by blast
    moreover from this(1) inv(1) have "map_of (param_children node) (fst kc) = Some (snd kc)"
      by simp
    ultimately show ?thesis by simp
  next
    case wild
    then show ?thesis by (simp add: leaf_payload_method)
  qed
next
  case (3 seg nxt meth)
  then show ?case by simp
next
  case (4 kc kcs seg nxt meth)
  show ?case
  proof (cases "find_node (snd kc) nxt meth")
    case None
    with 4 show ?thesis by auto
  next
    case (Some x)
    with 4 show ?thesis by (cases x) auto
  qed
qed

lemma find_complete:
  fixes node :: "'r trie" and kcs :: "(string \<times> 'r trie) list"
  shows "find_node node r meth = None \<Longrightarrow> candidate node r meth ps \<Longrightarrow> False"
  and "find_params kcs seg nxt meth = None \<Longrightarrow> kc \<in> set kcs \<Longrightarrow> candidate (snd kc) nxt meth ps \<Longrightarrow> False"
proof (induction node r meth and kcs seg nxt meth arbitrary: ps and kc ps
       rule: find_node_find_params.induct)
  case (1 node meth)
  then show ?case by (cases ps) (auto simp: candidate_def leaf_payload_method)
next
  case (2 node r meth)
  let ?st = "(case map_of (children node) (fst (next_seg r)) of
       Some c \<Rightarrow> found_under (Lit (fst (next_seg r))) [] (find_node c (snd (next_seg r)) meth) | None \<Rightarrow> None)"
  have st: "?st = None"
    and pa: "find_params (param_children node) (fst (next_seg r)) (snd (next_seg r)) meth = None"
    and wi: "\<And>w. wildcard_child node = Some w \<Longrightarrow> leaf_payload (routes w) meth = None"
    using "2.prems"(1) by (auto simp: find_node.simps(2) split: option.splits)
  from "2.prems"(2) show ?case
    unfolding candidate_Some
  proof (elim disjE exE conjE)
    fix qs c assume c: "map_of (children node) (fst (next_seg r)) = Some c"
      and q: "candidate c (snd (next_seg r)) meth qs"
    from st c have "find_node c (snd (next_seg r)) meth = None" by simp
    from "2.IH"(1)[OF c this q] show False .
  next
    fix k qs c assume c: "map_of (param_children node) k = Some c"
      and q: "candidate c (snd (next_seg r)) meth qs"
    from "2.IH"(2)[OF st pa map_of_SomeD[OF c]] q show False by simp
  next
    fix w assume "wildcard_child node = Some w" "leaf_payload (routes w) meth \<noteq> None"
    with wi show False by simp
  qed
next
  case (3 seg nxt meth)
  then show ?case by simp
next
  case (4 kc' kcs seg nxt meth)
  from "4.prems"(1) have n: "find_node (snd kc') nxt meth = None"
    and ps: "find_params kcs seg nxt meth = None"
    by (auto split: option.splits)
  from "4.prems"(2) consider "kc = kc'" | "kc \<in> set kcs" by auto
  then show ?case
  proof cases
    case 1 with "4.IH"(1)[OF n] "4.prems"(3) show ?thesis by simp
  next
    case 2 with "4.IH"(2)[OF _ ps] n "4.prems"(3) show ?thesis by simp
  qed
qed

lemma find_precedence:
  fixes node :: "'r trie" and kcs :: "(string \<times> 'r trie) list"
  shows "trie_inv node \<Longrightarrow> find_node node r meth = Some (p, b, ps) \<Longrightarrow> candidate node r meth qs
     \<Longrightarrow> at_least_as_specific ps qs"
  and "\<forall>x \<in> set kcs. trie_inv (snd x) \<Longrightarrow> distinct_keys kcs
     \<Longrightarrow> find_params kcs seg nxt meth = Some (p, b, ps)
     \<Longrightarrow> map_of kcs k = Some c \<Longrightarrow> candidate c nxt meth qs \<Longrightarrow> at_least_as_specific ps (Par k # qs)"
proof (induction node r meth and kcs seg nxt meth arbitrary: p b ps qs and p b ps k c qs
       rule: find_node_find_params.induct)
  case (1 node meth)
  then show ?case by auto
next
  case (2 node r meth)
  then have inv: "distinct_keys (param_children node)" "\<forall>x \<in> set (param_children node). trie_inv (snd x)"
    "\<And>c. map_of (children node) (fst (next_seg r)) = Some c \<Longrightarrow> trie_inv c"
    by (auto simp: trie_inv_sel[of node] dest: trie_inv_map_of)
  let ?seg = "fst (next_seg r)" and ?nxt = "snd (next_seg r)"
  let ?st = "(case map_of (children node) ?seg of
       Some c \<Rightarrow> found_under (Lit ?seg) [] (find_node c ?nxt meth) | None \<Rightarrow> None)"
  note cand = "2.prems"(3)[unfolded candidate_Some]
  have lit_none: "?st = None \<Longrightarrow> map_of (children node) ?seg = Some c \<Longrightarrow> candidate c ?nxt meth ps' \<Longrightarrow> False" for c ps'
    using find_complete(1)[of c ?nxt meth ps'] by simp
  consider (lit) c ps' where "map_of (children node) ?seg = Some c"
      "find_node c ?nxt meth = Some (p, b, ps')" "ps = Lit ?seg # ps'"
    | (par) "?st = None" "find_params (param_children node) ?seg ?nxt meth = Some (p, b, ps)"
    | (wild) "?st = None" "find_params (param_children node) ?seg ?nxt meth = None" "ps = [Wild]"
    using "2.prems"(2) by (auto simp: find_node.simps(2) found_under_def split: option.splits)
  then show ?case
  proof cases
    case lit
    from cand show ?thesis
    proof (elim disjE exE conjE)
      fix qs' c' assume "qs = Lit ?seg # qs'" "map_of (children node) ?seg = Some c'" "candidate c' ?nxt meth qs'"
      with lit "2.IH"(1)[OF lit(1) inv(3)[OF lit(1)] lit(2)] show ?thesis by simp
    qed (use lit in simp_all)
  next
    case par
    obtain k0 ps' where ps: "ps = Par k0 # ps'" using find_sound(2)[OF inv(2) par(2)] by blast
    from cand show ?thesis
    proof (elim disjE exE conjE)
      fix qs' c' assume "map_of (children node) ?seg = Some c'" "candidate c' ?nxt meth qs'"
      with lit_none[OF par(1)] show ?thesis by blast
    next
      fix k qs' c' assume "qs = Par k # qs'" "map_of (param_children node) k = Some c'" "candidate c' ?nxt meth qs'"
      with "2.IH"(2)[OF par(1) inv(2,1) par(2)] show ?thesis by simp
    qed (use ps in simp_all)
  next
    case wild
    from cand show ?thesis
    proof (elim disjE exE conjE)
      fix qs' c' assume "map_of (children node) ?seg = Some c'" "candidate c' ?nxt meth qs'"
      with lit_none[OF wild(1)] show ?thesis by blast
    next
      fix k qs' c' assume "map_of (param_children node) k = Some c'" "candidate c' ?nxt meth qs'"
      with find_complete(2)[OF wild(2) map_of_SomeD] show ?thesis by fastforce
    qed (use wild in simp_all)
  qed
next
  case (3 seg nxt meth)
  then show ?case by simp
next
  case (4 kc kcs seg nxt meth)
  show ?case
  proof (cases "find_node (snd kc) nxt meth")
    case None
    have "k \<noteq> fst kc" using find_complete(1)[OF None] "4.prems"(4,5) by auto
    with None 4 show ?thesis by auto
  next
    case (Some x)
    then obtain ps' where ps: "find_node (snd kc) nxt meth = Some (p, tl b, ps')" "ps = Par (fst kc) # ps'"
      using "4.prems"(3) by (cases x) auto
    show ?thesis
    proof (cases "k = fst kc")
      case True
      then have "c = snd kc" using "4.prems"(4) by simp
      with "4.IH"(1)[OF _ ps(1)] "4.prems"(1,5) ps(2) True show ?thesis by simp
    next
      case False
      with ps show ?thesis by simp
    qed
  qed
qed

end
