(* ===== verification/Router_Props.thy ===== *)
theory Router_Props
  imports Router_Spec
begin

text \<open>
  The properties of the router: what a sequence of registrations on a new router makes
  \<open>lookup\<close> return. \<open>register_all\<close> is the sequence of \<open>register\<close> calls of an application; the
  first error stops it, as the exception does.
\<close>

lemma set_collect_params:
  "set (collect_params kcs nxt ms) = set ms \<union> (\<Union>kc \<in> set kcs. set (collect_allowed (snd kc) nxt))"
  by (induction kcs arbitrary: ms) auto

lemma distinct_collect_params: "distinct ms \<Longrightarrow> distinct (collect_params kcs nxt ms)"
  by (induction kcs arbitrary: ms) auto

lemma distinct_collect_allowed: "trie_inv node \<Longrightarrow> distinct (collect_allowed node r)"
  by (cases r) (auto simp: trie_inv_sel[of node] Let_def distinct_collect_params split: option.splits)

definition has_route :: "'r trie \<Rightarrow> string option \<Rightarrow> http_method \<Rightarrow> bool" where
  "has_route node r m \<longleftrightarrow> (\<exists>ps. matches ps r \<noteq> None \<and> trie_get node ps m \<noteq> None)"

lemma has_route_None [simp]: "has_route node None m \<longleftrightarrow> map_of (routes node) m \<noteq> None"
  by (auto simp: has_route_def)

lemma has_route_Some:
  "has_route node (Some r) m \<longleftrightarrow>
     (\<exists>c. map_of (children node) (fst (next_seg r)) = Some c \<and> has_route c (snd (next_seg r)) m)
   \<or> (\<exists>k c. map_of (param_children node) k = Some c \<and> has_route c (snd (next_seg r)) m)
   \<or> (\<exists>w. wildcard_child node = Some w \<and> map_of (routes w) m \<noteq> None)" (is "?l = (?a \<or> ?b \<or> ?c)")
proof
  assume ?l
  then obtain ps where ps: "matches ps (Some r) \<noteq> None" "trie_get node ps m \<noteq> None"
    by (auto simp: has_route_def)
  show "?a \<or> ?b \<or> ?c"
  proof (cases ps)
    case (Cons p qs)
    with ps show ?thesis
      by (cases p) (auto simp: has_route_def split: option.splits if_splits)
  qed (use ps in simp)
next
  assume "?a \<or> ?b \<or> ?c"
  then consider (a) c qs where "map_of (children node) (fst (next_seg r)) = Some c"
      "matches qs (snd (next_seg r)) \<noteq> None" "trie_get c qs m \<noteq> None"
    | (b) k c qs where "map_of (param_children node) k = Some c"
      "matches qs (snd (next_seg r)) \<noteq> None" "trie_get c qs m \<noteq> None"
    | (c) w where "wildcard_child node = Some w" "map_of (routes w) m \<noteq> None"
    unfolding has_route_def by blast
  then show ?l
  proof cases
    case a then show ?thesis
      unfolding has_route_def by (intro exI[of _ "Lit (fst (next_seg r)) # qs"]) simp
  next
    case b then show ?thesis
      unfolding has_route_def by (intro exI[of _ "Par k # qs"]) simp
  next
    case c then show ?thesis
      unfolding has_route_def by (intro exI[of _ "[Wild]"]) simp
  qed
qed

lemma in_keys_map_of: "m \<in> set (keys rs) \<longleftrightarrow> map_of rs m \<noteq> None"
  by (metis map_of_eq_None_iff set_map)

lemma collect_allowed_iff:
  "trie_inv node \<Longrightarrow> m \<in> set (collect_allowed node r) \<longleftrightarrow> has_route node r m"
proof (induction r arbitrary: node rule: pat_of.induct)
  case (1 node)
  show ?case by (simp add: in_keys_map_of del: set_map)
next
  case (2 r node)
  from "2.prems" have inv: "distinct_keys (param_children node)" "\<forall>x \<in> set (param_children node). trie_inv (snd x)"
    "\<And>c. map_of (children node) (fst (next_seg r)) = Some c \<Longrightarrow> trie_inv c"
    "\<And>w. wildcard_child node = Some w \<Longrightarrow> trie_inv w"
    by (auto simp: trie_inv_sel[of node] dest: trie_inv_map_of)
  have par: "(\<exists>kc \<in> set (param_children node). m \<in> set (collect_allowed (snd kc) (snd (next_seg r))))
    \<longleftrightarrow> (\<exists>k c. map_of (param_children node) k = Some c \<and> has_route c (snd (next_seg r)) m)"
    using "2.IH" inv(1,2) by (force dest: map_of_SomeD)
  have lit: "m \<in> set (case map_of (children node) (fst (next_seg r)) of
         Some c \<Rightarrow> set_add_all (collect_allowed c (snd (next_seg r))) [] | None \<Rightarrow> [])
    \<longleftrightarrow> (\<exists>c. map_of (children node) (fst (next_seg r)) = Some c \<and> has_route c (snd (next_seg r)) m)"
    using "2.IH" inv(3) by (cases "map_of (children node) (fst (next_seg r))") auto
  have wild: "wildcard_child node = Some w \<Longrightarrow>
      m \<in> set (keys (routes w)) \<longleftrightarrow> map_of (routes w) m \<noteq> None" for w
    by (rule in_keys_map_of)
  show ?case
    using lit par wild
    by (cases "wildcard_child node")
       (auto simp: Let_def set_collect_params has_route_Some simp del: set_map)
qed

subsection \<open>Registration\<close>

lemma register_walk_fst: "fst (register_walk rt R) = insert_error rt (route_pattern rt) (root R)"
  by (simp add: register_walk_def route_pattern_def case_prod_beta trie_insert_error)

lemma register_walk_root:
  "root (snd (register_walk rt R)) = snd (trie_insert rt (start_rest (rt_path rt)) (root R))"
  "normalized_paths (snd (register_walk rt R)) = normalized_paths R"
  "conflict_mode (snd (register_walk rt R)) = conflict_mode R"
  by (simp_all add: register_walk_def case_prod_beta)

lemma insert_error_root: "insert_error rt ps (root (R\<lparr>normalized_paths := n\<rparr>)) = insert_error rt ps (root R)"
  by simp

definition conflicting_path :: "'a route_core_scheme \<Rightarrow> 'a route_core_scheme router \<Rightarrow> string option" where
  "conflicting_path rt R = (case map_of (normalized_paths R) (norm_path rt) of
      Some ex \<Rightarrow> if ex \<noteq> [] \<and> ex \<noteq> rt_path rt then Some ex else None | None \<Rightarrow> None)"

lemma router_register_fst:
  "fst (router_register rt R) =
     (case conflicting_path rt R of
        Some ex \<Rightarrow> if conflict_mode R = Throw then Some (RouteConflict ex (rt_path rt))
                    else insert_error rt (route_pattern rt) (root R)
      | None \<Rightarrow> insert_error rt (route_pattern rt) (root R))"
  by (auto simp: router_register_def conflicting_path_def Let_def register_walk_fst split: option.splits)

lemma router_register_root:
  "root (snd (router_register rt R)) =
     (if conflicting_path rt R \<noteq> None \<and> conflict_mode R = Throw then root R
      else snd (trie_insert rt (start_rest (rt_path rt)) (root R)))"
  by (auto simp: router_register_def conflicting_path_def Let_def register_walk_root split: option.splits)

lemma router_register_inv: "trie_inv (root R) \<Longrightarrow> trie_inv (root (snd (router_register rt R)))"
  by (simp add: router_register_root trie_insert_inv)

lemma router_register_table:
  "trie_get (root (snd (router_register rt R))) qs m =
     (if fst (router_register rt R) = None \<and> qs = route_pattern rt \<and> m = rt_method rt then Some rt
      else trie_get (root R) qs m)"
  by (auto simp: router_register_root router_register_fst trie_insert_get route_pattern_def split: option.splits)

lemma router_register_mode [simp]: "conflict_mode (snd (router_register rt R)) = conflict_mode R"
  by (auto simp: router_register_def Let_def register_walk_root split: option.splits)

fun register_all :: "'a route_core_scheme list \<Rightarrow> 'a route_core_scheme router
     \<Rightarrow> router_error option \<times> 'a route_core_scheme router" where
  "register_all [] R = (None, R)"
| "register_all (rt # rts) R =
     (case router_register rt R of
        (None, R') \<Rightarrow> register_all rts R'
      | (Some e, R') \<Rightarrow> (Some e, R'))"

lemma register_all_Cons_ok:
  "register_all (rt # rts) R = (None, R') \<longleftrightarrow>
     fst (router_register rt R) = None \<and> register_all rts (snd (router_register rt R)) = (None, R')"
  by (auto split: prod.splits option.splits)

lemma register_all_inv: "register_all rts R = (None, R') \<Longrightarrow> trie_inv (root R) \<Longrightarrow> trie_inv (root R')"
  by (induction rts arbitrary: R) (auto simp: register_all_Cons_ok router_register_inv simp del: register_all.simps(2))

lemma register_all_okI: "fst (register_all rts R) = None \<Longrightarrow> register_all rts R = (None, snd (register_all rts R))"
  by (simp add: prod_eq_iff)

lemma router_register_fresh:
  "fst (router_register rt R) = None \<Longrightarrow> trie_get (root R) (route_pattern rt) (rt_method rt) = None"
  by (auto simp: router_register_fst insert_error_def split: option.splits if_splits)

lemma register_all_table:
  "register_all rts R = (None, R') \<Longrightarrow>
     trie_get (root R') ps m = Some rt \<longleftrightarrow>
       trie_get (root R) ps m = Some rt \<or> (rt \<in> set rts \<and> route_pattern rt = ps \<and> rt_method rt = m)"
proof (induction rts arbitrary: R)
  case (Cons r rts)
  from Cons.prems have ok: "fst (router_register r R) = None"
    and rest: "register_all rts (snd (router_register r R)) = (None, R')"
    by (auto simp: register_all_Cons_ok simp del: register_all.simps(2))
  from router_register_fresh[OF ok] have "trie_get (root R) (route_pattern r) (rt_method r) = None" .
  with Cons.IH[OF rest] ok show ?case by (auto simp: router_register_table)
qed simp

lemma new_router_inv [simp]: "trie_inv (root (new_router mode))"
  by (simp add: new_router_def)

lemma new_router_table [simp]: "trie_get (root (new_router mode)) ps = Map.empty"
  by (simp add: new_router_def)

text \<open>The routes an application registered are exactly the entries of the trie.\<close>

lemma registered_table:
  assumes "register_all rts (new_router mode) = (None, R)"
  shows "trie_get (root R) ps m = Some rt \<longleftrightarrow> rt \<in> set rts \<and> route_pattern rt = ps \<and> rt_method rt = m"
    and "trie_inv (root R)"
  using register_all_table[OF assms, of ps m rt] register_all_inv[OF assms] by simp_all

subsection \<open>Lookup on registered routes\<close>

definition serves :: "'a route_core_scheme \<Rightarrow> http_method \<Rightarrow> bool" where
  "serves rt meth \<longleftrightarrow> rt_method rt = meth \<or> (meth = HEAD \<and> rt_method rt = GET)"

definition route_matches :: "'a route_core_scheme \<Rightarrow> string \<Rightarrow> bool" where
  "route_matches rt path \<longleftrightarrow> matches (route_pattern rt) (start_rest path) \<noteq> None"

lemma router_lookup_find:
  "fst (router_lookup meth path out R) =
     (case find_node (root R) (start_rest path) meth of
        Some (r, b, _) \<Rightarrow> Matched r (write_params b out)
      | None \<Rightarrow>
          (let allowed = collect_allowed (root R) (start_rest path) in
           if allowed \<noteq> [] then
             MethodNotAllowed (if GET \<in> set allowed \<and> HEAD \<notin> set allowed
                               then allowed @ [HEAD] else allowed)
           else NotFound))"
proof -
  let ?acc = "(shared_accum R)\<lparr>pa_len := 0\<rparr>"
  obtain m acc where l: "lookup_node (root R) (start_rest path) meth ?acc out = (m, acc)" by force
  have z: "acc_pairs ?acc = []" by (simp add: acc_pairs_def)
  have "search_agrees (m, acc) (find_node (root R) (start_rest path) meth) ?acc out"
    using lookup_find(1)[of "root R" "start_rest path" meth ?acc out] l by simp
  then show ?thesis
    by (auto simp: router_lookup_def l Let_def search_agrees_def z split: option.splits)
qed

lemma Matched_find:
  "fst (router_lookup meth path out R) = Matched r params \<longleftrightarrow>
     (\<exists>b ps. find_node (root R) (start_rest path) meth = Some (r, b, ps) \<and> params = write_params b out)"
  by (auto simp: router_lookup_find Let_def split: option.splits)

lemma MethodNotAllowed_find:
  "fst (router_lookup meth path out R) = MethodNotAllowed ms \<longleftrightarrow>
     find_node (root R) (start_rest path) meth = None \<and> collect_allowed (root R) (start_rest path) \<noteq> []
     \<and> ms = (if GET \<in> set (collect_allowed (root R) (start_rest path))
               \<and> HEAD \<notin> set (collect_allowed (root R) (start_rest path))
             then collect_allowed (root R) (start_rest path) @ [HEAD]
             else collect_allowed (root R) (start_rest path))"
  by (auto simp: router_lookup_find Let_def split: option.splits)

lemma registered_payload:
  assumes "register_all rts (new_router mode) = (None, R)"
  shows "method_payload (trie_get (root R) ps) meth = Some r \<Longrightarrow>
           r \<in> set rts \<and> route_pattern r = ps \<and> serves r meth"
    and "r \<in> set rts \<Longrightarrow> serves r meth \<Longrightarrow>
           method_payload (trie_get (root R) (route_pattern r)) meth \<noteq> None"
proof -
  show "method_payload (trie_get (root R) ps) meth = Some r \<Longrightarrow>
          r \<in> set rts \<and> route_pattern r = ps \<and> serves r meth"
    by (auto simp: method_payload_def serves_def registered_table(1)[OF assms] split: option.splits if_splits)
next
  assume r: "r \<in> set rts" "serves r meth"
  have "trie_get (root R) (route_pattern r) (rt_method r) = Some r"
    using r(1) by (simp add: registered_table(1)[OF assms])
  with r(2) show "method_payload (trie_get (root R) (route_pattern r)) meth \<noteq> None"
    by (auto simp: method_payload_def serves_def split: option.splits)
qed

lemma registered_candidate:
  assumes "register_all rts (new_router mode) = (None, R)" "r \<in> set rts" "serves r meth" "route_matches r path"
  shows "candidate (root R) (start_rest path) meth (route_pattern r)"
  using assms registered_payload(2)[OF assms(1-3)] by (simp add: candidate_def route_matches_def)

lemma registered_has_route:
  assumes "register_all rts (new_router mode) = (None, R)"
  shows "has_route (root R) (start_rest path) m \<longleftrightarrow>
     (\<exists>r \<in> set rts. rt_method r = m \<and> route_matches r path)"
proof -
  have "has_route (root R) (start_rest path) m \<longleftrightarrow>
     (\<exists>ps rt. matches ps (start_rest path) \<noteq> None \<and> trie_get (root R) ps m = Some rt)"
    by (auto simp: has_route_def)
  then show ?thesis
    by (auto simp: registered_table(1)[OF assms] route_matches_def)
qed

text \<open>C1. After any sequence of successful registrations, \<open>lookup\<close> returns a route exactly when
  some registered route of that method (or, for HEAD, a GET route) has a pattern that matches
  the path: backtracking over static, parameter and wildcard children misses no route.\<close>

theorem router_lookup_complete:
  assumes "register_all rts (new_router mode) = (None, R)"
  shows "(\<exists>r params. fst (router_lookup meth path out R) = Matched r params) \<longleftrightarrow>
         (\<exists>r \<in> set rts. serves r meth \<and> route_matches r path)"
proof
  assume "\<exists>r params. fst (router_lookup meth path out R) = Matched r params"
  then obtain r b ps where "find_node (root R) (start_rest path) meth = Some (r, b, ps)"
    by (auto simp: Matched_find)
  from find_sound(1)[OF registered_table(2)[OF assms] this] registered_payload(1)[OF assms, of ps meth r]
  show "\<exists>r \<in> set rts. serves r meth \<and> route_matches r path"
    by (auto simp: route_matches_def intro!: bexI[of _ r])
next
  assume "\<exists>r \<in> set rts. serves r meth \<and> route_matches r path"
  then obtain r where "r \<in> set rts" "candidate (root R) (start_rest path) meth (route_pattern r)"
    using registered_candidate[OF assms] by blast
  then have "find_node (root R) (start_rest path) meth \<noteq> None"
    using find_complete(1) by blast
  then show "\<exists>r params. fst (router_lookup meth path out R) = Matched r params"
    by (auto simp: Matched_find)
qed

theorem router_lookup_complete_witness:
  "(\<exists>r params. fst (router_lookup HEAD ''/users/7'' []
       (snd (register_all [\<lparr>rt_method = GET, rt_path = ''/users/:id''\<rparr>] (new_router None)))) = Matched r params)"
proof -
  let ?rts = "[\<lparr>rt_method = GET, rt_path = ''/users/:id''\<rparr>]"
  have ok: "register_all ?rts (new_router None) = (None, snd (register_all ?rts (new_router None)))"
    by (rule register_all_okI) code_simp
  have "\<exists>r \<in> set ?rts. serves r HEAD \<and> route_matches r ''/users/7''"
    by code_simp
  then show ?thesis
    using router_lookup_complete[OF ok, of HEAD "''/users/7''" "[]"] by blast
qed

text \<open>C2. What \<open>lookup\<close> returns is right: the route was registered, it serves the method, its
  pattern matches the path, and the parameters written are the bindings of that match, even
  though they travel through one mutable accumulator shared by every lookup and backtracked
  by resetting its length.\<close>

theorem router_lookup_sound:
  assumes "register_all rts (new_router mode) = (None, R)"
    and "fst (router_lookup meth path out R) = Matched r params"
  shows "r \<in> set rts \<and> serves r meth
     \<and> (\<exists>b. matches (route_pattern r) (start_rest path) = Some b \<and> params = write_params b out)"
proof -
  obtain b ps where f: "find_node (root R) (start_rest path) meth = Some (r, b, ps)"
      "params = write_params b out"
    using assms(2) by (auto simp: Matched_find)
  from find_sound(1)[OF registered_table(2)[OF assms(1)] f(1)] registered_payload(1)[OF assms(1), of ps meth r] f(2)
  show ?thesis by auto
qed

theorem router_lookup_sound_witness:
  "\<exists>b. matches (route_pattern (\<lparr>rt_method = GET, rt_path = ''/users/:id''\<rparr>)) (start_rest ''/users/7'') = Some b
     \<and> [(''id'', JStr ''7'')] = write_params b []"
proof -
  let ?rts = "[\<lparr>rt_method = GET, rt_path = ''/users/:id''\<rparr>]"
  have ok: "register_all ?rts (new_router None) = (None, snd (register_all ?rts (new_router None)))"
    by (rule register_all_okI) code_simp
  obtain r params where m: "fst (router_lookup GET ''/users/7'' [] (snd (register_all ?rts (new_router None)))) = Matched r params"
    using router_lookup_complete[OF ok, of GET "''/users/7''" "[]"] by (auto simp: serves_def route_matches_def route_pattern_def start_rest_def starts_with_def next_seg_def pseg_of_def)
  from router_lookup_sound[OF ok m] show ?thesis
    by (auto simp: route_pattern_def start_rest_def starts_with_def next_seg_def pseg_of_def write_params_def)
qed

text \<open>A path that some route matches, but none for the requested method, is answered 405
  with exactly the methods that would have been served, each once; HEAD is listed whenever GET
  is, and the requested method never is.\<close>

theorem router_lookup_allowed:
  assumes "register_all rts (new_router mode) = (None, R)"
    and "fst (router_lookup meth path out R) = MethodNotAllowed ms"
  shows "distinct ms \<and> set ms = {m. \<exists>r \<in> set rts. serves r m \<and> route_matches r path} \<and> meth \<notin> set ms"
proof -
  let ?al = "collect_allowed (root R) (start_rest path)"
  have nf: "find_node (root R) (start_rest path) meth = None"
    and ms: "ms = (if GET \<in> set ?al \<and> HEAD \<notin> set ?al then ?al @ [HEAD] else ?al)"
    using assms(2) by (auto simp: MethodNotAllowed_find)
  have al: "m \<in> set ?al \<longleftrightarrow> (\<exists>r \<in> set rts. rt_method r = m \<and> route_matches r path)" for m
    by (simp add: collect_allowed_iff[OF registered_table(2)[OF assms(1)]] registered_has_route[OF assms(1)])
  have set: "set ms = {m. \<exists>r \<in> set rts. serves r m \<and> route_matches r path}"
    using al by (auto simp: ms serves_def)
  have "\<not> (\<exists>r \<in> set rts. serves r meth \<and> route_matches r path)"
    using registered_candidate[OF assms(1)] find_complete(1)[OF nf] by blast
  moreover have "distinct ms"
    using distinct_collect_allowed[OF registered_table(2)[OF assms(1)]] by (simp add: ms)
  ultimately show ?thesis using set by simp
qed

theorem router_lookup_allowed_witness:
  "\<exists>ms. distinct ms \<and> set ms = {m. \<exists>r \<in> set [\<lparr>rt_method = GET, rt_path = ''/a''\<rparr>]. serves r m \<and> route_matches r ''/a''}
     \<and> POST \<notin> set ms"
proof -
  let ?rts = "[\<lparr>rt_method = GET, rt_path = ''/a''\<rparr>]"
  have ok: "register_all ?rts (new_router None) = (None, snd (register_all ?rts (new_router None)))"
    by (rule register_all_okI) code_simp
  have "find_node (root (snd (register_all ?rts (new_router None)))) (start_rest ''/a'') POST = None"
    by code_simp
  moreover have "collect_allowed (root (snd (register_all ?rts (new_router None)))) (start_rest ''/a'') \<noteq> []"
    by code_simp
  ultimately obtain ms where "fst (router_lookup POST ''/a'' [] (snd (register_all ?rts (new_router None)))) = MethodNotAllowed ms"
    by (auto simp: MethodNotAllowed_find)
  from router_lookup_allowed[OF ok this] show ?thesis by blast
qed

text \<open>Precedence: the route returned is at least as specific as every registered route that
  could serve the request: at the first segment where the two patterns differ, a literal beats
  a parameter and a parameter beats the wildcard.\<close>

theorem router_lookup_precedence:
  assumes "register_all rts (new_router mode) = (None, R)"
    and "fst (router_lookup meth path out R) = Matched r params"
    and "q \<in> set rts" "serves q meth" "route_matches q path"
  shows "at_least_as_specific (route_pattern r) (route_pattern q)"
proof -
  obtain b ps where f: "find_node (root R) (start_rest path) meth = Some (r, b, ps)"
    using assms(2) by (auto simp: Matched_find)
  have "route_pattern r = ps"
    using find_sound(1)[OF registered_table(2)[OF assms(1)] f] registered_payload(1)[OF assms(1)] by blast
  then show ?thesis
    using find_precedence(1)[OF registered_table(2)[OF assms(1)] f registered_candidate[OF assms(1,3-5)]] by simp
qed

theorem router_lookup_precedence_witness:
  "\<exists>r params. fst (router_lookup GET ''/users/me'' [] (snd (register_all
       [\<lparr>rt_method = GET, rt_path = ''/users/:id''\<rparr>, \<lparr>rt_method = GET, rt_path = ''/users/me''\<rparr>] (new_router None)))) = Matched r params
     \<and> at_least_as_specific (route_pattern r) (route_pattern \<lparr>rt_method = GET, rt_path = ''/users/me''\<rparr>)"
proof -
  let ?q = "\<lparr>rt_method = GET, rt_path = ''/users/me''\<rparr>"
  let ?rts = "[\<lparr>rt_method = GET, rt_path = ''/users/:id''\<rparr>, ?q]"
  have ok: "register_all ?rts (new_router None) = (None, snd (register_all ?rts (new_router None)))"
    by (rule register_all_okI) code_simp
  have s: "serves ?q GET" and m: "route_matches ?q ''/users/me''"
    by code_simp+
  obtain r params where l: "fst (router_lookup GET ''/users/me'' [] (snd (register_all ?rts (new_router None)))) = Matched r params"
    using router_lookup_complete[OF ok, of GET "''/users/me''" "[]"] s m by auto
  from router_lookup_precedence[OF ok l _ s m] l show ?thesis by auto
qed

text \<open>The shared accumulator is invisible: whatever entries earlier lookups left in it, a
  lookup returns the same result.\<close>

theorem router_lookup_accum_irrelevant:
  "fst (router_lookup meth path out (R\<lparr>shared_accum := a\<rparr>)) = fst (router_lookup meth path out R)"
  by (cases "find_node (root R) (start_rest path) meth") (auto simp: router_lookup_find Let_def)

text \<open>\<open>register\<close> on every branch: it fails with a conflict, a misplaced wildcard or a
  collision exactly when the table says so, a failing call leaves the route table as it was
  (although the walk may already have created nodes), and a successful call adds exactly the
  new route under its pattern and method.\<close>

theorem router_register_spec:
  "fst (router_register rt R) =
     (if conflicting_path rt R \<noteq> None \<and> conflict_mode R = Throw
      then Some (RouteConflict (the (conflicting_path rt R)) (rt_path rt))
      else if wild_inner (route_pattern rt) then Some (WildcardNotLast (rt_path rt))
      else if trie_get (root R) (route_pattern rt) (rt_method rt) \<noteq> None
      then Some (RouteCollision (rt_method rt) (rt_path rt)) else None)
   \<and> (\<forall>qs m. trie_get (root (snd (router_register rt R))) qs m =
       (if fst (router_register rt R) = None \<and> qs = route_pattern rt \<and> m = rt_method rt then Some rt
        else trie_get (root R) qs m))"
  by (auto simp: router_register_table router_register_fst insert_error_def split: option.splits)

subsection \<open>Ambiguous routes\<close>

definition erase_param :: "pseg \<Rightarrow> pseg" where
  "erase_param p = (case p of Par _ \<Rightarrow> Par ''*'' | _ \<Rightarrow> p)"

definition same_shape :: "'a route_core_scheme \<Rightarrow> 'a route_core_scheme \<Rightarrow> bool" where
  "same_shape r q \<longleftrightarrow> rt_method r = rt_method q
     \<and> map erase_param (route_pattern r) = map erase_param (route_pattern q)"

lemma split_on_next_seg:
  "split_on CHR ''/'' r = fst (next_seg r) #
     (case snd (next_seg r) of None \<Rightarrow> [] | Some r' \<Rightarrow> split_on CHR ''/'' r')"
proof (induction r)
  case (Cons x xs)
  then show ?case by (cases "x = CHR ''/''") (auto simp: next_seg_def split: list.splits)
qed (simp add: next_seg_def)

lemma pat_of_split: "pat_of (Some r) = map pseg_of (split_on CHR ''/'' r)"
proof (induction "Some r" arbitrary: r rule: pat_of.induct)
  case (2 r)
  then show ?case
    by (cases "snd (next_seg r)") (simp_all add: split_on_next_seg[of r])
qed

definition norm_seg :: "string \<Rightarrow> string" where
  "norm_seg s = (if starts_with s '':'' then '':*'' else s)"

lemma norm_seg_erase: "erase_param (pseg_of s) = erase_param (pseg_of t) \<Longrightarrow> norm_seg s = norm_seg t"
  by (auto simp: erase_param_def pseg_of_def norm_seg_def split: if_splits)

lemma map_norm_seg_erase:
  "map erase_param (map pseg_of ss) = map erase_param (map pseg_of ts) \<Longrightarrow> map norm_seg ss = map norm_seg ts"
  by (induction ss ts rule: list_induct2') (auto dest: norm_seg_erase)

lemma norm_path_shape:
  assumes "same_shape r q" "starts_with (rt_path r) ''/''" "starts_with (rt_path q) ''/''"
  shows "norm_path r = norm_path q"
proof -
  obtain pr pq where p: "rt_path r = CHR ''/'' # pr" "rt_path q = CHR ''/'' # pq"
    using assms(2,3) by (auto simp: starts_with_def prefix_def)
  have "route_pattern x = map pseg_of (split_on CHR ''/'' px)" if "rt_path x = CHR ''/'' # px"
    for x :: "'a route_core_scheme" and px
    using that by (simp add: route_pattern_def start_rest_def starts_with_def pat_of_split del: pat_of.simps)
  with p assms(1) have "map norm_seg (split_on CHR ''/'' pr) = map norm_seg (split_on CHR ''/'' pq)"
    by (auto simp: same_shape_def intro: map_norm_seg_erase)
  then have "map (\<lambda>s. if starts_with s '':'' then '':*'' else s) (split_on CHR ''/'' pr)
      = map (\<lambda>s. if starts_with s '':'' then '':*'' else s) (split_on CHR ''/'' pq)"
    by (simp add: norm_seg_def[abs_def])
  with p assms(1) show ?thesis by (simp add: norm_path_def same_shape_def)
qed

definition norms_recorded :: "'a route_core_scheme list \<Rightarrow> 'a route_core_scheme router \<Rightarrow> bool" where
  "norms_recorded rts R \<longleftrightarrow>
     (\<forall>r \<in> set rts. starts_with (rt_path r) ''/'' \<longrightarrow> map_of (normalized_paths R) (norm_path r) = Some (rt_path r))"

lemma router_register_norms:
  assumes "fst (router_register rt R) = None" "conflict_mode R = Throw"
  shows "normalized_paths (snd (router_register rt R)) = AList.update (norm_path rt) (rt_path rt) (normalized_paths R)"
    and "\<And>ex. map_of (normalized_paths R) (norm_path rt) = Some ex \<Longrightarrow> ex = [] \<or> ex = rt_path rt"
  using assms
  by (auto simp: router_register_def Let_def register_walk_root split: option.splits if_splits)

lemma register_all_norms:
  "register_all rts R = (None, R') \<Longrightarrow> conflict_mode R = Throw \<Longrightarrow> norms_recorded done R
   \<Longrightarrow> norms_recorded (done @ rts) R' \<and> conflict_mode R' = Throw"
proof (induction rts arbitrary: R "done")
  case (Cons r rts)
  from Cons.prems(1) have ok: "fst (router_register r R) = None"
    and rest: "register_all rts (snd (router_register r R)) = (None, R')"
    by (auto simp: register_all_Cons_ok simp del: register_all.simps(2))
  have "norms_recorded (done @ [r]) (snd (router_register r R))"
    unfolding norms_recorded_def router_register_norms(1)[OF ok Cons.prems(2)] map_of_update
  proof (intro ballI impI)
    fix x assume x: "x \<in> set (done @ [r])" "starts_with (rt_path x) ''/''"
    have "rt_path x = rt_path r" if "norm_path x = norm_path r" "x \<in> set done"
    proof -
      have "map_of (normalized_paths R) (norm_path r) = Some (rt_path x)"
        using Cons.prems(3) that x(2) by (auto simp: norms_recorded_def)
      with router_register_norms(2)[OF ok Cons.prems(2) this] x(2) show ?thesis
        by (auto simp: starts_with_def)
    qed
    with x Cons.prems(3) show "(if norm_path x = norm_path r then Some (rt_path r)
        else map_of (normalized_paths R) (norm_path x)) = Some (rt_path x)"
      by (auto simp: norms_recorded_def)
  qed
  from Cons.IH[OF rest _ this] Cons.prems(2) show ?case by simp
qed simp

text \<open>In the default \<open>throw\<close> mode no two different registered routes with absolute paths are
  ambiguous: none of the same method have patterns equal up to the names of the parameters.\<close>

theorem router_no_ambiguity:
  assumes "register_all rts (new_router None) = (None, R)"
    and "r \<in> set rts" "q \<in> set rts" "starts_with (rt_path r) ''/''" "starts_with (rt_path q) ''/''"
    and "same_shape r q"
  shows "r = q"
proof -
  have nr: "norms_recorded rts R"
    using register_all_norms[OF assms(1), of "[]"] by (simp add: norms_recorded_def new_router_def)
  then have "Some (rt_path r) = Some (rt_path q)"
    unfolding norms_recorded_def using assms(2-5) norm_path_shape[OF assms(6,4,5)] by metis
  then have "rt_path r = rt_path q" by simp
  then have "route_pattern r = route_pattern q" by (simp add: route_pattern_def)
  then show ?thesis
    using registered_table(1)[OF assms(1), of "route_pattern r" "rt_method r" r]
      registered_table(1)[OF assms(1), of "route_pattern r" "rt_method r" q] assms(2,3,6)
    by (auto simp: same_shape_def)
qed

theorem router_no_ambiguity_witness:
  "\<lparr>rt_method = GET, rt_path = ''/u/:id''\<rparr> = \<lparr>rt_method = GET, rt_path = ''/u/:id''\<rparr>"
proof -
  let ?r = "\<lparr>rt_method = GET, rt_path = ''/u/:id''\<rparr>"
  have ok: "register_all [?r] (new_router None) = (None, snd (register_all [?r] (new_router None)))"
    by (rule register_all_okI) code_simp
  show ?thesis
    by (rule router_no_ambiguity[OF ok]) (simp_all add: starts_with_def same_shape_def)
qed

text \<open>The check behind it compares whole paths, while registration and lookup drop a leading
  slash: written with and without the slash, two routes of one method that differ only in the
  name of a parameter are both accepted in \<open>throw\<close> mode.\<close>

theorem router_ambiguity_without_slash:
  "fst (register_all [\<lparr>rt_method = GET, rt_path = ''/u/:id''\<rparr>, \<lparr>rt_method = GET, rt_path = ''u/:name''\<rparr>] (new_router None)) = None
   \<and> same_shape \<lparr>rt_method = GET, rt_path = ''/u/:id''\<rparr> \<lparr>rt_method = GET, rt_path = ''u/:name''\<rparr>
   \<and> fst (register_all [\<lparr>rt_method = GET, rt_path = ''/u/:id''\<rparr>, \<lparr>rt_method = GET, rt_path = ''/u/:name''\<rparr>] (new_router None))
       = Some (RouteConflict ''/u/:id'' ''/u/:name'')"
  by (intro conjI) code_simp+

end
