(* ===== verification/Hooks.thy ===== *)
theory Hooks
  imports Js_Value
begin

text \<open>
  \<open>packages/core/src/lifecycle.ts\<close> (\<open>HookManager\<close>) and the error values of
  \<open>packages/core/src/errors.ts\<close> that the dispatcher reads.

  User code (hooks, middleware, handlers) is a parameter \<open>call\<close> of the model: a function
  reference is a number, and \<open>call f a w\<close> runs it on the argument \<open>a\<close> in the world \<open>w\<close>; it
  may change any part of the world, the hook lists included, and throw. An awaited promise that
  rejects is a throw. The world is a record that components extend.
\<close>

datatype hook_type = OnRequest | OnPreHandler | OnPostHandler | OnError | OnClose

text \<open>A thrown value: \<open>null\<close> or \<open>undefined\<close>, or an object of which the framework reads the
  numeric \<open>statusCode\<close> and \<open>status\<close>, the string \<open>message\<close>, and \<open>issues\<close>, \<open>errors\<close> and \<open>stack\<close>.\<close>

record js_error =
  err_validation :: bool
  err_status_code :: "int option"
  err_status :: "int option"
  err_message :: "string option"
  err_issues :: jsval
  err_errors :: jsval
  err_stack :: "string option"

datatype thrown = ThrowNullish | ThrowErr js_error

definition mk_error :: "int option \<Rightarrow> string \<Rightarrow> js_error" where
  "mk_error code msg = \<lparr> err_validation = False, err_status_code = code, err_status = None,
     err_message = Some msg, err_issues = JUndef, err_errors = JUndef, err_stack = Some [] \<rparr>"

definition axiomify_error :: "string \<Rightarrow> int option \<Rightarrow> js_error" where
  "axiomify_error msg code = mk_error (Some (case code of Some c \<Rightarrow> c | None \<Rightarrow> 500)) msg"

datatype http_error_class =
    BadRequestError | NotFoundError | UnauthorizedError | ForbiddenError | ConflictError
  | UnprocessableError | TooManyRequestsError
  | InternalServerError | ServiceUnavailableError | GatewayTimeoutError

fun http_error :: "http_error_class \<Rightarrow> string option \<Rightarrow> js_error" where
  "http_error BadRequestError m = axiomify_error (case m of Some s \<Rightarrow> s | None \<Rightarrow> ''Bad Request'') (Some 400)"
| "http_error NotFoundError m = axiomify_error (case m of Some s \<Rightarrow> s | None \<Rightarrow> ''Resource not found'') (Some 404)"
| "http_error UnauthorizedError m = axiomify_error (case m of Some s \<Rightarrow> s | None \<Rightarrow> ''Unauthorized'') (Some 401)"
| "http_error ForbiddenError m = axiomify_error (case m of Some s \<Rightarrow> s | None \<Rightarrow> ''Forbidden'') (Some 403)"
| "http_error ConflictError m = axiomify_error (case m of Some s \<Rightarrow> s | None \<Rightarrow> ''Conflict'') (Some 409)"
| "http_error UnprocessableError m = axiomify_error (case m of Some s \<Rightarrow> s | None \<Rightarrow> ''Unprocessable Entity'') (Some 422)"
| "http_error TooManyRequestsError m = axiomify_error (case m of Some s \<Rightarrow> s | None \<Rightarrow> ''Too Many Requests'') (Some 429)"
| "http_error InternalServerError m = axiomify_error (case m of Some s \<Rightarrow> s | None \<Rightarrow> ''Internal Server Error'') (Some 500)"
| "http_error ServiceUnavailableError m = axiomify_error (case m of Some s \<Rightarrow> s | None \<Rightarrow> ''Service Unavailable'') (Some 503)"
| "http_error GatewayTimeoutError m = axiomify_error (case m of Some s \<Rightarrow> s | None \<Rightarrow> ''Gateway Timeout'') (Some 504)"

subsection \<open>The hook manager\<close>

datatype log_entry = HookThrew hook_type thrown | ResponseInvalid string int | UnhandledError string

record hook_world =
  w_hooks :: "hook_type \<Rightarrow> nat list"
  w_log :: "log_entry list"

text \<open>An action runs in a world, may throw, and leaves a world either way.\<close>

type_synonym 'w act = "'w \<Rightarrow> thrown option \<times> 'w"

definition seq_act :: "'w act \<Rightarrow> 'w act \<Rightarrow> 'w act" where
  "seq_act a b w = (case a w of (None, w') \<Rightarrow> b w' | (Some e, w') \<Rightarrow> (Some e, w'))"

lemma seq_act_simps [simp]:
  "a w = (None, w') \<Longrightarrow> seq_act a b w = b w'"
  "a w = (Some e, w') \<Longrightarrow> seq_act a b w = (Some e, w')"
  by (simp_all add: seq_act_def)

definition hooks_new :: "hook_type \<Rightarrow> nat list" where
  "hooks_new = (\<lambda>_. [])"

definition hooks_add :: "hook_type \<Rightarrow> nat \<Rightarrow> 'a hook_world_scheme \<Rightarrow> 'a hook_world_scheme" where
  "hooks_add t f w = w\<lparr>w_hooks := (w_hooks w)(t := w_hooks w t @ [f])\<rparr>"

fun execute_sequential :: "(nat \<Rightarrow> 'w act) \<Rightarrow> nat list \<Rightarrow> 'w act" where
  "execute_sequential call [] w = (None, w)"
| "execute_sequential call (f # fs) w =
     (case call f w of (None, w') \<Rightarrow> execute_sequential call fs w' | (Some e, w') \<Rightarrow> (Some e, w'))"

definition hooks_run ::
    "(nat \<Rightarrow> 'a hook_world_scheme act) \<Rightarrow> hook_type \<Rightarrow> 'a hook_world_scheme act" where
  "hooks_run call t w =
     (case w_hooks w t of
        [] \<Rightarrow> (None, w)
      | [f] \<Rightarrow> call f w
      | fs \<Rightarrow> execute_sequential call fs w)"

fun execute_safe_sequential ::
    "(nat \<Rightarrow> 'a hook_world_scheme act) \<Rightarrow> hook_type \<Rightarrow> nat list \<Rightarrow> 'a hook_world_scheme \<Rightarrow> 'a hook_world_scheme" where
  "execute_safe_sequential call t [] w = w"
| "execute_safe_sequential call t (f # fs) w =
     (case call f w of
        (None, w') \<Rightarrow> execute_safe_sequential call t fs w'
      | (Some e, w') \<Rightarrow> execute_safe_sequential call t fs (w'\<lparr>w_log := w_log w' @ [HookThrew t e]\<rparr>))"

definition hooks_run_safe ::
    "(nat \<Rightarrow> 'a hook_world_scheme act) \<Rightarrow> hook_type \<Rightarrow> 'a hook_world_scheme \<Rightarrow> 'a hook_world_scheme" where
  "hooks_run_safe call t w =
     (case w_hooks w t of [] \<Rightarrow> w | fs \<Rightarrow> execute_safe_sequential call t fs w)"

lemma hooks_run_sequential: "hooks_run call t w = execute_sequential call (w_hooks w t) w"
  by (auto simp: hooks_run_def split: list.splits prod.splits option.splits)

lemma hooks_run_safe_sequential: "hooks_run_safe call t w = execute_safe_sequential call t (w_hooks w t) w"
  by (auto simp: hooks_run_safe_def split: list.splits)

text \<open>The hooks a run calls, in order, for a function that records its calls.\<close>

fun calls_of :: "(nat \<Rightarrow> 'w act) \<Rightarrow> nat list \<Rightarrow> 'w \<Rightarrow> nat list" where
  "calls_of call [] w = []"
| "calls_of call (f # fs) w =
     f # (case call f w of (None, w') \<Rightarrow> calls_of call fs w' | (Some e, w') \<Rightarrow> [])"

lemma execute_sequential_append:
  "execute_sequential call (fs @ gs) w = seq_act (execute_sequential call fs) (execute_sequential call gs) w"
  by (induction fs arbitrary: w) (auto simp: seq_act_def split: prod.splits option.splits)

lemma calls_of_prefix: "prefix (calls_of call fs w) fs"
  by (induction call fs w rule: calls_of.induct) (auto split: prod.splits option.splits)

lemma calls_of_all: "calls_of call fs w = fs \<longleftrightarrow> fst (execute_sequential call (butlast fs) w) = None"
proof (induction call fs w rule: calls_of.induct)
  case (2 call f fs w)
  then show ?case
    by (cases fs) (auto split: prod.splits option.splits)
qed simp

text \<open>\<open>run\<close> with its fast paths (no promise for an empty list, a direct call for one hook) is
  the plain sequential loop over the list as it was when the run started: a hook that registers
  further hooks of its own type does not make them run for this request.\<close>

theorem hooks_run_snapshot:
  "hooks_run call t w = execute_sequential call (w_hooks w t) w
   \<and> hooks_run_safe call t w = execute_safe_sequential call t (w_hooks w t) w
   \<and> prefix (calls_of call (w_hooks w t) w) (w_hooks w t)"
  by (simp add: hooks_run_sequential hooks_run_safe_sequential calls_of_prefix)

text \<open>\<open>runSafe\<close> lets no hook stop the others: after the first hooks the rest run in the world
  they left, whether or not one of them threw, and each throw is logged exactly once.\<close>

theorem hooks_run_safe_isolated:
  "execute_safe_sequential call t (fs @ gs) w
     = execute_safe_sequential call t gs (execute_safe_sequential call t fs w)
   \<and> execute_safe_sequential call t [f] w
     = (case call f w of (None, w') \<Rightarrow> w' | (Some e, w') \<Rightarrow> w'\<lparr>w_log := w_log w' @ [HookThrew t e]\<rparr>)"
  by (induction fs arbitrary: w) (auto split: prod.splits option.splits)

end
