(* ===== verification/Validation.thy ===== *)
theory Validation
  imports Hooks Router
begin

text \<open>
  \<open>packages/core/src/validation.ts\<close>: \<open>ValidationError\<close> and \<open>ValidationCompiler\<close> (\<open>compile\<close>,
  \<open>execute\<close>, \<open>validateResponse\<close>). The validator of one schema is built by Zod and AJV, which
  are not part of the repository: \<open>build\<close>, a parameter, turns a schema and its source into a
  function from a value to \<open>Valid\<close> of the parsed value or \<open>Invalid\<close> of the field errors.
\<close>

type_synonym field_errors = "(string \<times> string) list"

datatype vresult = Valid jsval | Invalid field_errors

datatype vsource = SrcBody | SrcQuery | SrcParams | SrcResponse

datatype 'z response_schema = SingleSchema 'z | SchemaPerStatus "(int \<times> 'z) list"

record 'z route_schema =
  sc_body :: "'z option"
  sc_query :: "'z option"
  sc_params :: "'z option"
  sc_response :: "'z response_schema option"

datatype response_validator =
    SingleValidator "jsval \<Rightarrow> vresult"
  | ValidatorPerStatus "(int, jsval \<Rightarrow> vresult) jsmap"

record compiled_schema =
  cs_body :: "(jsval \<Rightarrow> vresult) option"
  cs_query :: "(jsval \<Rightarrow> vresult) option"
  cs_params :: "(jsval \<Rightarrow> vresult) option"
  cs_response :: "response_validator option"

type_synonym validator = "(string, compiled_schema) jsmap"

record request =
  rq_method :: http_method
  rq_path :: string
  rq_headers :: "(string, string list) jsmap"
  rq_ip :: string
  rq_body :: jsval
  rq_query :: jsval
  rq_params :: jsval
  rq_aborted :: bool

subsection \<open>ValidationError\<close>

definition error_part :: "string \<Rightarrow> string \<times> string \<Rightarrow> string" where
  "error_part loc fm = loc @ ''.'' @ fst fm @ '' ('' @ snd fm @ '')''"

definition validation_message :: "string \<Rightarrow> (string \<times> field_errors) list \<Rightarrow> string" where
  "validation_message msg errors =
     (if msg = ''Request validation failed'' \<or> msg = ''Response validation failed'' then
        (let parts = concat (map (\<lambda>(loc, fes). map (error_part loc) fes) errors)
         in if parts \<noteq> [] then ''Validation failed: '' @ join_with '', '' parts else msg)
      else msg)"

definition errors_value :: "(string \<times> field_errors) list \<Rightarrow> jsval" where
  "errors_value errors = JObj (map (\<lambda>(loc, fes). (loc, JObj (map (\<lambda>(f, m). (f, JStr m)) fes))) errors)"

definition validation_error :: "string \<Rightarrow> (string \<times> field_errors) list \<Rightarrow> int \<Rightarrow> js_error" where
  "validation_error msg errors code = \<lparr> err_validation = True, err_status_code = Some code,
     err_status = None, err_message = Some (validation_message msg errors), err_issues = JUndef,
     err_errors = errors_value errors, err_stack = Some [] \<rparr>"

subsection \<open>ValidationCompiler\<close>

definition validation_compile ::
    "('z \<Rightarrow> vsource \<Rightarrow> jsval \<Rightarrow> vresult) \<Rightarrow> string \<Rightarrow> 'z route_schema \<Rightarrow> validator \<Rightarrow> validator" where
  "validation_compile build route_id schema vs = AList.update route_id
     \<lparr> cs_body = map_option (\<lambda>z. build z SrcBody) (sc_body schema),
       cs_query = map_option (\<lambda>z. build z SrcQuery) (sc_query schema),
       cs_params = map_option (\<lambda>z. build z SrcParams) (sc_params schema),
       cs_response = (case sc_response schema of
           None \<Rightarrow> None
         | Some (SingleSchema z) \<Rightarrow> Some (SingleValidator (build z SrcResponse))
         | Some (SchemaPerStatus zs) \<Rightarrow> Some (ValidatorPerStatus
             (fold (\<lambda>(code, z) m. AList.update code (build z SrcResponse) m) zs []))) \<rparr> vs"

text \<open>One of the three checks of \<open>execute\<close>: the errors collected so far, and the part of the
  request, replaced by the parsed value when it is valid.\<close>

definition check_part ::
    "(jsval \<Rightarrow> vresult) option \<Rightarrow> string \<Rightarrow> jsval \<Rightarrow> (string \<times> field_errors) list \<Rightarrow> (string \<times> field_errors) list \<times> jsval" where
  "check_part v loc x errs =
     (case v of None \<Rightarrow> (errs, x)
      | Some f \<Rightarrow> (case f x of Invalid es \<Rightarrow> (errs @ [(loc, es)], x) | Valid d \<Rightarrow> (errs, d)))"

definition validation_execute :: "validator \<Rightarrow> string \<Rightarrow> request \<Rightarrow> thrown option \<times> request" where
  "validation_execute vs route_id req =
     (case map_of vs route_id of
        None \<Rightarrow> (None, req)
      | Some cs \<Rightarrow>
          let (e1, b) = check_part (cs_body cs) ''body'' (rq_body req) [];
              (e2, q) = check_part (cs_query cs) ''query'' (rq_query req) e1;
              (e3, p) = check_part (cs_params cs) ''params'' (rq_params req) e2;
              req' = req\<lparr>rq_body := b, rq_query := q, rq_params := p\<rparr>
          in if e3 \<noteq> [] then (Some (ThrowErr (validation_error ''Request validation failed'' e3 400)), req')
             else (None, req'))"

definition validate_response ::
    "bool \<Rightarrow> validator \<Rightarrow> string \<Rightarrow> jsval \<Rightarrow> int \<Rightarrow> thrown option \<times> log_entry list" where
  "validate_response production vs route_id data status =
     (case map_of vs route_id of
        None \<Rightarrow> (None, [])
      | Some cs \<Rightarrow>
        (case (case cs_response cs of
                 None \<Rightarrow> None
               | Some (SingleValidator f) \<Rightarrow> Some f
               | Some (ValidatorPerStatus m) \<Rightarrow> map_of m status) of
           None \<Rightarrow> (None, [])
         | Some f \<Rightarrow>
           (case f data of
              Valid _ \<Rightarrow> (None, [])
            | Invalid es \<Rightarrow>
                if production then (None, [ResponseInvalid route_id status])
                else (Some (ThrowErr (validation_error ''Response validation failed'' [(''response'', es)] 500)), []))))"

subsection \<open>Properties\<close>

definition part_errors :: "(jsval \<Rightarrow> vresult) option \<Rightarrow> string \<Rightarrow> jsval \<Rightarrow> (string \<times> field_errors) list" where
  "part_errors v loc x = (case v of None \<Rightarrow> [] | Some f \<Rightarrow> (case f x of Invalid es \<Rightarrow> [(loc, es)] | Valid _ \<Rightarrow> []))"

definition part_value :: "(jsval \<Rightarrow> vresult) option \<Rightarrow> jsval \<Rightarrow> jsval" where
  "part_value v x = (case v of None \<Rightarrow> x | Some f \<Rightarrow> (case f x of Invalid _ \<Rightarrow> x | Valid d \<Rightarrow> d))"

lemma check_part_eq: "check_part v loc x errs = (errs @ part_errors v loc x, part_value v x)"
  by (auto simp: check_part_def part_errors_def part_value_def split: option.splits vresult.splits)

text \<open>\<open>execute\<close> reports every invalid part of the request in one error (it does not stop at
  the first), throws exactly when there is one, and replaces each valid part by its parsed
  value even when another part fails.\<close>

theorem validation_execute_spec:
  "validation_execute vs route_id req =
     (case map_of vs route_id of
        None \<Rightarrow> (None, req)
      | Some cs \<Rightarrow>
         (let errs = part_errors (cs_body cs) ''body'' (rq_body req)
                   @ part_errors (cs_query cs) ''query'' (rq_query req)
                   @ part_errors (cs_params cs) ''params'' (rq_params req)
          in (if errs = [] then None
              else Some (ThrowErr (validation_error ''Request validation failed'' errs 400)),
              req\<lparr>rq_body := part_value (cs_body cs) (rq_body req),
                  rq_query := part_value (cs_query cs) (rq_query req),
                  rq_params := part_value (cs_params cs) (rq_params req)\<rparr>)))"
  by (auto simp: validation_execute_def check_part_eq Let_def split: option.splits)

lemma map_of_fold_update_notin:
  "c \<notin> fst ` set zs \<Longrightarrow> map_of (fold (\<lambda>(code, z) m. AList.update code (f z) m) zs m0) c = map_of m0 c"
  by (induction zs arbitrary: m0) auto

text \<open>Response validation never fails a request in production, and a schema registered for
  one status is never applied to another: after \<open>compile\<close> with a schema per status code, a
  response whose status has no schema is not checked in any mode.\<close>

theorem validate_response_spec:
  "fst (validate_response True vs route_id data status) = None
   \<and> (sc_response schema = Some (SchemaPerStatus zs) \<and> status \<notin> fst ` set zs \<longrightarrow>
        validate_response production (validation_compile build route_id schema vs) route_id data status = (None, []))"
  by (auto simp: validate_response_def validation_compile_def map_of_fold_update_notin
      split: option.splits response_validator.splits vresult.splits)

theorem validate_response_spec_witness:
  "validate_response False (validation_compile (\<lambda>z s v. Invalid []) ''GET:/a''
      \<lparr>sc_body = None, sc_query = None, sc_params = None, sc_response = Some (SchemaPerStatus [(200, ())])\<rparr> [])
      ''GET:/a'' JNull 204 = (None, [])"
  using validate_response_spec[of "[]" "''GET:/a''" JNull 204
      "\<lparr>sc_body = None, sc_query = None, sc_params = None, sc_response = Some (SchemaPerStatus [(200, ())])\<rparr>"
      "[(200, ())]" False "\<lambda>z s v. Invalid []"] by simp

end
