(* ===== verification/Dispatcher.thy ===== *)
theory Dispatcher
  imports Validation Router_Props
begin

text \<open>
  \<open>packages/core/src/dispatcher.ts\<close>: \<open>RequestDispatcher\<close> and \<open>ValidatingResponse\<close>, and the
  compiled state of \<open>compiled.ts\<close>.

  A response is whatever the transport adapter makes of it: the dispatcher uses it through the
  operations of a record \<open>adapter\<close>, and relies on the laws of the locale \<open>response_adapter\<close>.
  User code gets the response either directly or wrapped in a \<open>ValidatingResponse\<close>; the
  wrapper's \<open>_sent\<close> flag is part of the world. \<open>w_close_deferred\<close> says that the \<open>onClose\<close> run
  was left to the end of a stream (\<open>res.onStreamClose\<close> was assigned).
\<close>

record 'r adapter =
  ad_status :: "int \<Rightarrow> 'r \<Rightarrow> 'r"
  ad_status_code :: "'r \<Rightarrow> int"
  ad_header :: "string \<Rightarrow> string \<Rightarrow> 'r act"
  ad_send :: "jsval \<Rightarrow> string option \<Rightarrow> 'r act"
  ad_headers_sent :: "'r \<Rightarrow> bool"
  ad_is_streaming :: "'r \<Rightarrow> bool"

record 'a route_def = route_core +
  rd_oid :: nat
  rd_ext :: 'a

record compiled_state =
  cp_pipeline :: "nat list"
  cp_has_response_schema :: bool

record ('r, 'a) req_world = hook_world +
  w_req :: request
  w_res :: 'r
  w_vsent :: bool
  w_close_deferred :: bool
  w_router :: "'a route_def router"

datatype res_handle = Direct | Validating string

text \<open>What user code is called with: the request and a response, for match hooks also the route
  and its parameters, for error hooks the thrown value.\<close>

datatype 'a call_arg =
    ArgReq res_handle
  | ArgMatch res_handle "'a route_def" jsval
  | ArgErr thrown res_handle

record ('r, 'a) dispatch_ctx =
  dc_adapter :: "'r adapter"
  dc_call :: "nat \<Rightarrow> 'a call_arg \<Rightarrow> ('r, 'a) req_world act"
  dc_compiled :: "nat \<rightharpoonup> compiled_state"
  dc_not_found :: "nat option"
  dc_method_not_allowed :: "nat option"
  dc_production :: bool

subsection \<open>Lifting adapter operations to the world\<close>

definition on_res :: "'r act \<Rightarrow> ('r, 'a) req_world act" where
  "on_res f w = (let (e, r) = f (w_res w) in (e, w\<lparr>w_res := r\<rparr>))"

definition res_headers_sent :: "('r, 'a) dispatch_ctx \<Rightarrow> ('r, 'a) req_world \<Rightarrow> bool" where
  "res_headers_sent c w = ad_headers_sent (dc_adapter c) (w_res w)"

definition status_send ::
    "('r, 'a) dispatch_ctx \<Rightarrow> int \<Rightarrow> jsval \<Rightarrow> string option \<Rightarrow> ('r, 'a) req_world act" where
  "status_send c code data msg w =
     on_res (ad_send (dc_adapter c) data msg)
       (w\<lparr>w_res := ad_status (dc_adapter c) code (w_res w)\<rparr>)"

text \<open>\<open>ValidatingResponse.send\<close>: the first call validates, every call goes to the inner response.\<close>

definition validating_send ::
    "('r, 'a) dispatch_ctx \<Rightarrow> validator \<Rightarrow> string \<Rightarrow> jsval \<Rightarrow> string option \<Rightarrow> ('r, 'a) req_world act" where
  "validating_send c vs route_id data msg w =
     (if \<not> w_vsent w then
        (let w1 = w\<lparr>w_vsent := True\<rparr>;
             (e, logs) = validate_response (dc_production c) vs route_id data
                           (ad_status_code (dc_adapter c) (w_res w1));
             w2 = w1\<lparr>w_log := w_log w1 @ logs\<rparr>
         in case e of Some t \<Rightarrow> (Some t, w2)
            | None \<Rightarrow> on_res (ad_send (dc_adapter c) data msg) w2)
      else on_res (ad_send (dc_adapter c) data msg) w)"

subsection \<open>handleError\<close>

definition error_status :: "js_error \<Rightarrow> int" where
  "error_status e = (case err_status_code e of Some n \<Rightarrow> n
     | None \<Rightarrow> (case err_status e of Some n \<Rightarrow> n | None \<Rightarrow> 500))"

definition error_message :: "js_error \<Rightarrow> string" where
  "error_message e = (case err_message e of Some m \<Rightarrow> m | None \<Rightarrow> ''Internal Server Error'')"

definition internal_error_body :: jsval where
  "internal_error_body =
     JObj [(''error'', JStr ''Internal Server Error''), (''code'', JStr ''INTERNAL_ERROR'')]"

definition type_error :: thrown where
  "type_error = ThrowErr (mk_error None ''Cannot read properties of null'')"

definition respond_error :: "('r, 'a) dispatch_ctx \<Rightarrow> thrown \<Rightarrow> ('r, 'a) req_world act" where
  "respond_error c t w =
     (if res_headers_sent c w then (None, w)
      else case t of
        ThrowNullish \<Rightarrow> (Some type_error, w)
      | ThrowErr e \<Rightarrow>
          if err_validation e then
            status_send c (case err_status_code e of Some n \<Rightarrow> if n = 0 then 400 else n | None \<Rightarrow> 400)
              (if truthy (err_errors e) then err_errors e else err_issues e) (err_message e) w
          else if dc_production c then
            (if error_status e < 500 then status_send c (error_status e) JNull (Some (error_message e)) w
             else status_send c (error_status e) internal_error_body (Some ''Internal Server Error'') w)
          else
            (let w' = (case err_stack e of Some s \<Rightarrow> w\<lparr>w_log := w_log w @ [UnhandledError s]\<rparr> | None \<Rightarrow> w)
             in status_send c (error_status e)
                  (if err_issues e \<noteq> JUndef \<and> err_issues e \<noteq> JNull then err_issues e
                   else if err_errors e \<noteq> JNull then err_errors e else JUndef)
                  (Some (error_message e)) w'))"

definition handle_error :: "('r, 'a) dispatch_ctx \<Rightarrow> thrown \<Rightarrow> ('r, 'a) req_world act" where
  "handle_error c t w =
     respond_error c t (hooks_run_safe (\<lambda>f. dc_call c f (ArgErr t Direct)) OnError w)"

subsection \<open>executeMatchedRoute\<close>

definition compiled_missing :: "'a route_def \<Rightarrow> thrown" where
  "compiled_missing rt = ThrowErr (mk_error None
     (''[Axiomify] No compiled state found for route '' @ method_name (rt_method rt) @ '' '' @ rt_path rt
        @ ''. This is a framework bug''))"

fun pipeline_loop :: "('r, 'a) dispatch_ctx \<Rightarrow> res_handle \<Rightarrow> nat list \<Rightarrow> ('r, 'a) req_world act" where
  "pipeline_loop c h [] w = (None, w)"
| "pipeline_loop c h (f # fs) w =
     (if res_headers_sent c w \<or> rq_aborted (w_req w) then (None, w)
      else (case dc_call c f (ArgReq h) w of
              (None, w') \<Rightarrow> pipeline_loop c h fs w'
            | (Some e, w') \<Rightarrow> (Some e, w')))"

definition run_pipeline :: "('r, 'a) dispatch_ctx \<Rightarrow> res_handle \<Rightarrow> nat list \<Rightarrow> ('r, 'a) req_world act" where
  "run_pipeline c h fs w =
     (case fs of
        [f] \<Rightarrow> (if rq_aborted (w_req w) then (None, w) else dc_call c f (ArgReq h) w)
      | _ \<Rightarrow> pipeline_loop c h fs w)"

definition obj_of :: "jsval \<Rightarrow> (string, jsval) jsmap" where
  "obj_of v = (case v of JObj kvs \<Rightarrow> kvs | _ \<Rightarrow> [])"

definition object_assign :: "jsval \<Rightarrow> jsval \<Rightarrow> jsval" where
  "object_assign target src = JObj (fold (\<lambda>(k, v) m. AList.update k v m) (obj_of src) (obj_of target))"

definition route_id :: "'a route_def \<Rightarrow> string" where
  "route_id rt = method_name (rt_method rt) @ '':'' @ rt_path rt"

definition after_pre_handler ::
    "('r, 'a) dispatch_ctx \<Rightarrow> 'a route_def \<Rightarrow> jsval \<Rightarrow> ('r, 'a) req_world act" where
  "after_pre_handler c rt params w =
     (case dc_compiled c (rd_oid rt) of
        None \<Rightarrow> (Some (compiled_missing rt), w)
      | Some cp \<Rightarrow>
          let h = (if cp_has_response_schema cp \<or> rq_method (w_req w) = HEAD
                   then Validating (route_id rt) else Direct);
              w1 = w\<lparr>w_vsent := False\<rparr>
          in seq_act (run_pipeline c h (cp_pipeline cp))
               (\<lambda>w2. hooks_run (\<lambda>f. dc_call c f (ArgMatch h rt params)) OnPostHandler w2) w1)"

text \<open>\<open>params\<close> is \<open>None\<close> when it is the object \<open>req.params\<close> itself (the router wrote into it),
  \<open>Some p\<close> for the parameters an adapter hands over, which are copied. Objects are values here: a hook that
  mutates the parameter object in place shows in \<open>req.params\<close> only.\<close>

definition execute_matched_route ::
    "('r, 'a) dispatch_ctx \<Rightarrow> 'a route_def \<Rightarrow> jsval option \<Rightarrow> ('r, 'a) req_world act" where
  "execute_matched_route c rt params w =
     (let w1 = (case params of
                  None \<Rightarrow> w
                | Some p \<Rightarrow> w\<lparr>w_req := (w_req w)\<lparr>rq_params := object_assign (rq_params (w_req w)) p\<rparr>\<rparr>);
         ps = (case params of None \<Rightarrow> rq_params (w_req w) | Some p \<Rightarrow> p)
      in if w_hooks w1 OnPreHandler \<noteq> [] then
           (case hooks_run (\<lambda>f. dc_call c f (ArgMatch Direct rt (rq_params (w_req w1)))) OnPreHandler w1 of
              (Some e, w2) \<Rightarrow> (Some e, w2)
            | (None, w2) \<Rightarrow> if res_headers_sent c w2 then (None, w2) else after_pre_handler c rt ps w2)
         else after_pre_handler c rt ps w1)"

subsection \<open>handle and handleMatchedRoute\<close>

definition default_or ::
    "nat option \<Rightarrow> int \<Rightarrow> string \<Rightarrow> ('r, 'a) dispatch_ctx \<Rightarrow> ('r, 'a) req_world act" where
  "default_or custom code msg c w = (case custom of
       Some f \<Rightarrow> dc_call c f (ArgReq Direct) w
     | None \<Rightarrow> status_send c code JNull (Some msg) w)"

definition allow_value :: "http_method list \<Rightarrow> string" where
  "allow_value allowed = join_with '', '' (map method_name
     (if OPTIONS \<in> set allowed then allowed else allowed @ [OPTIONS]))"

definition route_and_execute :: "('r, 'a) dispatch_ctx \<Rightarrow> ('r, 'a) req_world act" where
  "route_and_execute c w =
     (let (res, R) = router_lookup (rq_method (w_req w)) (rq_path (w_req w)) (obj_of (rq_params (w_req w))) (w_router w);
          w1 = w\<lparr>w_router := R\<rparr>
      in case res of
           NotFound \<Rightarrow> default_or (dc_not_found c) 404 ''Route not found'' c w1
         | MethodNotAllowed allowed \<Rightarrow>
             seq_act (on_res (ad_header (dc_adapter c) ''Allow'' (allow_value allowed)))
               (default_or (dc_method_not_allowed c) 405 ''Method Not Allowed'' c) w1
         | Matched rt ps \<Rightarrow>
             execute_matched_route c rt None (w1\<lparr>w_req := (w_req w1)\<lparr>rq_params := JObj ps\<rparr>\<rparr>))"

definition with_on_request ::
    "('r, 'a) dispatch_ctx \<Rightarrow> ('r, 'a) req_world act \<Rightarrow> ('r, 'a) req_world act" where
  "with_on_request c body w =
     (case hooks_run (\<lambda>f. dc_call c f (ArgReq Direct)) OnRequest w of
        (Some e, w') \<Rightarrow> (Some e, w')
      | (None, w') \<Rightarrow> if res_headers_sent c w' then (None, w') else body w')"

definition try_catch ::
    "('r, 'a) dispatch_ctx \<Rightarrow> ('r, 'a) req_world act \<Rightarrow> ('r, 'a) req_world act" where
  "try_catch c body w =
     (case body w of (None, w') \<Rightarrow> (None, w') | (Some t, w') \<Rightarrow> handle_error c t w')"

definition finally_close :: "('r, 'a) dispatch_ctx \<Rightarrow> ('r, 'a) req_world \<Rightarrow> ('r, 'a) req_world" where
  "finally_close c w =
     (if ad_is_streaming (dc_adapter c) (w_res w) then w\<lparr>w_close_deferred := True\<rparr>
      else hooks_run_safe (\<lambda>f. dc_call c f (ArgReq Direct)) OnClose w)"

text \<open>The \<open>finally\<close> block runs also when \<open>handleError\<close> itself throws; the promise then rejects.\<close>

definition dispatch_handle :: "('r, 'a) dispatch_ctx \<Rightarrow> ('r, 'a) req_world act" where
  "dispatch_handle c w =
     (let (e, w') = try_catch c (with_on_request c (route_and_execute c)) w
      in (e, finally_close c w'))"

definition dispatch_handle_matched ::
    "('r, 'a) dispatch_ctx \<Rightarrow> 'a route_def \<Rightarrow> jsval \<Rightarrow> ('r, 'a) req_world act" where
  "dispatch_handle_matched c rt params w =
     (let (e, w') = try_catch c (with_on_request c (execute_matched_route c rt (Some params))) w
      in (e, finally_close c w'))"

end
