(* ===== verification/Dispatcher_Props.thy ===== *)
theory Dispatcher_Props
  imports Dispatcher
begin

text \<open>
  What the dispatcher guarantees, over any response adapter that keeps the contract of the locale
  \<open>response_adapter\<close>: which response an unmatched request, a wrong method and a failing handler
  get. The contract says what a transport must make of the operations of \<open>adapter\<close>:
  \<open>is_open r\<close> (the client is connected and nothing was sent), \<open>renders r code data msg\<close> (the bytes
  of that response went out) and \<open>has_header r k v\<close> (the header is set and, once something was
  sent, went out too).
\<close>

subsection \<open>Header values\<close>

text \<open>\<open>HEADER_INJECTION_PATTERN\<close> of \<open>packages/native/src/headers.ts\<close>.\<close>

definition injection_char :: "char \<Rightarrow> bool" where
  "injection_char c \<longleftrightarrow> c = CHR 0x0D \<or> c = CHR 0x0A \<or> c = CHR 0x00"

definition header_injection :: "string \<Rightarrow> bool" where
  "header_injection s \<longleftrightarrow> list_ex injection_char s"

lemma allow_value_clean: "\<not> header_injection (allow_value ms)"
proof -
  have j: "header_injection (join_with sep ss) \<Longrightarrow> header_injection sep \<or> (\<exists>s \<in> set ss. header_injection s)" for sep ss
    by (induction ss) (auto simp: header_injection_def join_with_Cons split: if_splits)
  have "\<not> header_injection (method_name m)" for m
    by (cases m) (simp_all add: header_injection_def injection_char_def method_name_def)
  moreover have "\<not> header_injection '', ''" by (simp add: header_injection_def injection_char_def)
  ultimately show ?thesis
    unfolding allow_value_def by (auto simp del: map_append dest!: j)
qed

subsection \<open>The contract of an adapter\<close>

locale response_adapter =
  fixes ad :: "'r adapter"
    and is_open :: "'r \<Rightarrow> bool"
    and renders :: "'r \<Rightarrow> int \<Rightarrow> jsval \<Rightarrow> string option \<Rightarrow> bool"
    and has_header :: "'r \<Rightarrow> string \<Rightarrow> string \<Rightarrow> bool"
  assumes open_unsent: "is_open r \<Longrightarrow> \<not> ad_headers_sent ad r"
    and open_not_streaming: "is_open r \<Longrightarrow> \<not> ad_is_streaming ad r"
    and send_sent: "ad_headers_sent ad r \<Longrightarrow> ad_send ad d m r = (None, r)"
    and status_code: "ad_status_code ad (ad_status ad n r) = n"
    and status_sent: "ad_headers_sent ad (ad_status ad n r) = ad_headers_sent ad r"
    and status_open: "is_open (ad_status ad n r) = is_open r"
    and status_header: "has_header (ad_status ad n r) k v = has_header r k v"
    and header_ok: "\<not> header_injection k \<Longrightarrow> \<not> header_injection v \<Longrightarrow> is_open r \<Longrightarrow>
      \<exists>r'. ad_header ad k v r = (None, r') \<and> is_open r' \<and> has_header r' k v"
    and send_renders: "is_open r \<Longrightarrow> ad_send ad d m r = (None, r') \<Longrightarrow>
      ad_headers_sent ad r' \<and> \<not> ad_is_streaming ad r' \<and> renders r' (ad_status_code ad r) d m"
    and send_header: "is_open r \<Longrightarrow> ad_send ad d m r = (None, r') \<Longrightarrow> has_header r k v \<Longrightarrow> has_header r' k v"
begin

lemma status_send_renders:
  assumes "dc_adapter c = ad" "is_open (w_res w)" "status_send c code d m w = (None, w')"
  shows "renders (w_res w') code d m \<and> ad_headers_sent ad (w_res w') \<and> \<not> ad_is_streaming ad (w_res w')"
    "w_hooks w' = w_hooks w" "has_header (w_res w) k v \<Longrightarrow> has_header (w_res w') k v"
proof -
  obtain r' where send: "ad_send ad d m (ad_status ad code (w_res w)) = (None, r')" and w': "w_res w' = r'"
    and "w_hooks w' = w_hooks w"
    using assms by (auto simp: status_send_def on_res_def split: prod.splits)
  then show "w_hooks w' = w_hooks w" by simp
  have op: "is_open (ad_status ad code (w_res w))" using assms by (simp add: status_open)
  from send_renders[OF op send] show "renders (w_res w') code d m \<and> ad_headers_sent ad (w_res w') \<and> \<not> ad_is_streaming ad (w_res w')"
    by (simp add: w' status_code)
  show "has_header (w_res w) k v \<Longrightarrow> has_header (w_res w') k v"
    using send_header[OF op send] by (simp add: w' status_header)
qed

lemma header_send_renders:
  assumes "dc_adapter c = ad" "is_open (w_res w)" "\<not> header_injection k" "\<not> header_injection v"
    and "seq_act (on_res (ad_header ad k v)) (status_send c code d m) w = (None, w')"
  shows "renders (w_res w') code d m \<and> ad_headers_sent ad (w_res w') \<and> \<not> ad_is_streaming ad (w_res w')
    \<and> has_header (w_res w') k v" "w_hooks w' = w_hooks w"
proof -
  obtain r where h: "ad_header ad k v (w_res w) = (None, r)" "is_open r" "has_header r k v"
    using header_ok[OF assms(3,4,2)] by blast
  then have s: "status_send c code d m (w\<lparr>w_res := r\<rparr>) = (None, w')"
    using assms(5) by (simp add: seq_act_def on_res_def)
  have o: "is_open (w_res (w\<lparr>w_res := r\<rparr>))" using h by simp
  show "renders (w_res w') code d m \<and> ad_headers_sent ad (w_res w') \<and> \<not> ad_is_streaming ad (w_res w')
    \<and> has_header (w_res w') k v"
    using status_send_renders(1)[OF assms(1) o s] status_send_renders(3)[OF assms(1) o s, of k v] h by simp
  show "w_hooks w' = w_hooks w"
    using status_send_renders(2)[OF assms(1) o s] by simp
qed

text \<open>A response that was sent is not replaced by an error response.\<close>

lemma handle_error_sent:
  assumes "dc_adapter c = ad" "w_hooks w OnError = []" "ad_headers_sent ad (w_res w)"
  shows "handle_error c t w = (None, w)"
  using assms by (simp add: handle_error_def hooks_run_safe_def respond_error_def res_headers_sent_def)

lemma finally_close_quiet:
  assumes "dc_adapter c = ad" "w_hooks w OnClose = []" "\<not> ad_is_streaming ad (w_res w)"
  shows "finally_close c w = w"
  using assms by (simp add: finally_close_def hooks_run_safe_def)

lemma no_on_request: "w_hooks w = hooks_new \<Longrightarrow> is_open (w_res w) \<Longrightarrow> dc_adapter c = ad \<Longrightarrow> with_on_request c body w = body w"
  using open_unsent by (simp add: with_on_request_def hooks_run_def hooks_new_def res_headers_sent_def)

lemma dispatch_answered:
  assumes "dc_adapter c = ad" "is_open (w_res w)" "w_hooks w = hooks_new"
    and body: "try_catch c (route_and_execute c) w = (None, w')"
    and "w_hooks w' = hooks_new" "\<not> ad_is_streaming ad (w_res w')"
  shows "dispatch_handle c w = (None, w')"
proof -
  have "try_catch c (with_on_request c (route_and_execute c)) w = (None, w')"
    using body no_on_request[OF assms(3,2,1)] by (simp add: try_catch_def)
  moreover have "finally_close c w' = w'"
    using assms by (intro finally_close_quiet) (auto simp: hooks_new_def)
  ultimately show ?thesis by (simp add: dispatch_handle_def)
qed

lemma status_send_total:
  assumes "\<And>d m r. fst (ad_send ad d m r) = None" "dc_adapter c = ad"
  obtains w' where "status_send c code d m w = (None, w')"
proof -
  obtain e r where "ad_send ad d m (ad_status ad code (w_res w)) = (e, r)" by fastforce
  with assms(1)[of d m "ad_status ad code (w_res w)"] assms(2) that show thesis
    by (simp add: status_send_def on_res_def)
qed

lemma dispatch_not_found:
  assumes c: "dc_adapter c = ad" "dc_not_found c = None" and op: "is_open (w_res w)" and h: "w_hooks w = hooks_new"
    and total: "\<And>d m r. fst (ad_send ad d m r) = None"
    and lk: "fst (router_lookup (rq_method (w_req w)) (rq_path (w_req w)) (obj_of (rq_params (w_req w))) (w_router w)) = NotFound"
  shows "\<exists>w'. dispatch_handle c w = (None, w') \<and> renders (w_res w') 404 JNull (Some ''Route not found'')"
proof -
  obtain R where R: "router_lookup (rq_method (w_req w)) (rq_path (w_req w)) (obj_of (rq_params (w_req w))) (w_router w) = (NotFound, R)"
    using lk by (metis prod.collapse)
  obtain w' where s: "status_send c 404 JNull (Some ''Route not found'') (w\<lparr>w_router := R\<rparr>) = (None, w')"
    using status_send_total[OF total c(1)] by metis
  have o: "is_open (w_res (w\<lparr>w_router := R\<rparr>))" using op by simp
  note r = status_send_renders(1,2)[OF c(1) o s]
  have "try_catch c (route_and_execute c) w = (None, w')"
    using s c by (simp add: try_catch_def route_and_execute_def R default_or_def)
  then show ?thesis using dispatch_answered[OF c(1) op h] r h by auto
qed

lemma dispatch_wrong_method:
  assumes c: "dc_adapter c = ad" "dc_method_not_allowed c = None" and op: "is_open (w_res w)" and h: "w_hooks w = hooks_new"
    and total: "\<And>d m r. fst (ad_send ad d m r) = None"
    and lk: "fst (router_lookup (rq_method (w_req w)) (rq_path (w_req w)) (obj_of (rq_params (w_req w))) (w_router w)) = MethodNotAllowed ms"
  shows "\<exists>w'. dispatch_handle c w = (None, w') \<and> renders (w_res w') 405 JNull (Some ''Method Not Allowed'')
    \<and> has_header (w_res w') ''Allow'' (allow_value ms)"
proof -
  obtain R where R: "router_lookup (rq_method (w_req w)) (rq_path (w_req w)) (obj_of (rq_params (w_req w))) (w_router w) = (MethodNotAllowed ms, R)"
    using lk by (metis prod.collapse)
  let ?w = "w\<lparr>w_router := R\<rparr>"
  have clean: "\<not> header_injection ''Allow''" by (simp add: header_injection_def injection_char_def)
  obtain r where hd: "ad_header ad ''Allow'' (allow_value ms) (w_res w) = (None, r)"
    using header_ok[OF clean allow_value_clean op] by blast
  obtain w' where "status_send c 405 JNull (Some ''Method Not Allowed'') (?w\<lparr>w_res := r\<rparr>) = (None, w')"
    using status_send_total[OF total c(1)] by metis
  then have s: "seq_act (on_res (ad_header ad ''Allow'' (allow_value ms)))
      (status_send c 405 JNull (Some ''Method Not Allowed'')) ?w = (None, w')"
    using hd by (simp add: seq_act_def on_res_def)
  have o: "is_open (w_res ?w)" using op by simp
  note r = header_send_renders[OF c(1) o clean allow_value_clean s]
  have "try_catch c (route_and_execute c) w = (None, w')"
    using s c by (simp add: try_catch_def route_and_execute_def R default_or_def seq_act_def on_res_def hd
        split: prod.splits)
  then show ?thesis using dispatch_answered[OF c(1) op h] r h by auto
qed

lemma dispatch_handler_error:
  assumes c: "dc_adapter c = ad" "dc_production c" and op: "is_open (w_res w)" and h: "w_hooks w = hooks_new"
    and total: "\<And>d m r. fst (ad_send ad d m r) = None"
    and err: "route_and_execute c w = (Some (ThrowErr e), w1)" "is_open (w_res w1)" "w_hooks w1 = hooks_new"
    and e: "\<not> err_validation e"
  shows "\<exists>w'. dispatch_handle c w = (None, w') \<and>
     (if error_status e < 500 then renders (w_res w') (error_status e) JNull (Some (error_message e))
      else renders (w_res w') (error_status e) internal_error_body (Some ''Internal Server Error''))"
proof -
  let ?d = "if error_status e < 500 then JNull else internal_error_body"
  let ?m = "if error_status e < 500 then error_message e else ''Internal Server Error''"
  obtain w' where s: "status_send c (error_status e) ?d (Some ?m) w1 = (None, w')"
    using status_send_total[OF total c(1)] by metis
  note r = status_send_renders(1,2)[OF c(1) err(2) s]
  have "handle_error c (ThrowErr e) w1 = (None, w')"
    using s c e err open_unsent[OF err(2)]
    by (simp add: handle_error_def hooks_run_safe_def respond_error_def res_headers_sent_def hooks_new_def split: if_splits)
  then have "try_catch c (route_and_execute c) w = (None, w')"
    using err by (simp add: try_catch_def)
  then show ?thesis using dispatch_answered[OF c(1) op h] r err by (auto split: if_splits)
qed

end

subsection \<open>The pipeline\<close>

lemma pipeline_loop_append:
  "pipeline_loop c h (fs @ gs) w = seq_act (pipeline_loop c h fs) (pipeline_loop c h gs) w"
proof (induction fs arbitrary: w)
  case (Cons f fs)
  show ?case
  proof (cases "res_headers_sent c w \<or> rq_aborted (w_req w)")
    case True
    then show ?thesis by (cases gs) (auto simp: seq_act_def)
  next
    case False
    then show ?thesis
      by (auto simp: Cons.IH seq_act_def split: prod.splits option.splits)
  qed
qed (simp add: seq_act_def)

text \<open>The unrolled call of a one-step pipeline is the loop, but for a response already sent
  (which the dispatcher has excluded before it); and a step that throws, answers the request or
  sees the client gone is the last one that runs: the steps after it, the handler among them,
  have no effect.\<close>

theorem pipeline_stops:
  "run_pipeline c h fs w =
     (if length fs = 1 \<and> res_headers_sent c w \<and> \<not> rq_aborted (w_req w)
      then dc_call c (hd fs) (ArgReq h) w else pipeline_loop c h fs w)
   \<and> pipeline_loop c h (fs @ gs) w =
     (case pipeline_loop c h fs w of
        (Some e, w') \<Rightarrow> (Some e, w')
      | (None, w') \<Rightarrow> (if res_headers_sent c w' \<or> rq_aborted (w_req w') then (None, w')
                      else pipeline_loop c h gs w'))"
proof -
  have "run_pipeline c h fs w = (if length fs = 1 \<and> res_headers_sent c w \<and> \<not> rq_aborted (w_req w)
      then dc_call c (hd fs) (ArgReq h) w else pipeline_loop c h fs w)"
  proof (cases fs)
    case (Cons f gs)
    then show ?thesis
      by (cases gs) (auto simp: run_pipeline_def split: prod.splits option.splits)
  qed (simp add: run_pipeline_def)
  moreover have "pipeline_loop c h gs w' = (None, w')" if "res_headers_sent c w' \<or> rq_aborted (w_req w')" for w'
    using that by (cases gs) auto
  ultimately show ?thesis
    by (simp add: pipeline_loop_append seq_act_def split: prod.split option.split)
qed

text \<open>What a \<open>ValidatingResponse\<close> does with the first \<open>send\<close>: in production the body goes out
  whether or not the schema accepts it; elsewhere a body that the schema rejects never reaches
  the inner response, and the handler gets the validation error. Every later \<open>send\<close> is passed on
  unchecked.\<close>

theorem validating_send_spec:
  "(let direct = on_res (ad_send (dc_adapter c) data msg) w;
        status = ad_status_code (dc_adapter c) (w_res w)
    in if w_vsent w then validating_send c vs rid data msg w = direct
       else if dc_production c then
         fst (validating_send c vs rid data msg w) = fst direct
         \<and> w_res (snd (validating_send c vs rid data msg w)) = w_res (snd direct)
       else (case fst (validate_response False vs rid data status) of
               Some t \<Rightarrow> validating_send c vs rid data msg w = (Some t, w\<lparr>w_vsent := True\<rparr>)
             | None \<Rightarrow> validating_send c vs rid data msg w = on_res (ad_send (dc_adapter c) data msg) (w\<lparr>w_vsent := True\<rparr>)))"
proof -
  have p: "fst (validate_response True vs rid data st) = None" for st
    by (auto simp: validate_response_def split: option.splits response_validator.splits vresult.splits)
  have n: "snd (validate_response False vs rid data st) = []" for st
    by (auto simp: validate_response_def split: option.splits response_validator.splits vresult.splits)
  show ?thesis
    using p[of "ad_status_code (dc_adapter c) (w_res w)"] n[of "ad_status_code (dc_adapter c) (w_res w)"]
    by (auto simp: validating_send_def on_res_def Let_def split: prod.splits option.splits if_splits)
qed

end
