(* ===== verification/Cookies.thy ===== *)
theory Cookies
  imports Validation
begin

text \<open>
  \<open>packages/core/src/cookies.ts\<close>: parsing a \<open>Cookie\<close> header, printing a \<open>Set-Cookie\<close> line, signed
  values, and the helpers over an adapter's response. HMAC-SHA256 (\<open>node:crypto\<close>) is the
  parameter \<open>hmac\<close>. \<open>encodeURIComponent\<close> and \<open>decodeURIComponent\<close> are modelled on the strings
  of the development, code points up to 255 (UTF-8 sequences of one and two bytes); longer
  escape sequences count as malformed here.
\<close>

subsection \<open>encodeURIComponent and decodeURIComponent\<close>

definition upper_hex :: "nat \<Rightarrow> char" where
  "upper_hex n = (if n < 10 then char_of (48 + n) else char_of (55 + n))"

definition hex_val :: "char \<Rightarrow> nat option" where
  "hex_val c = (let n = (of_char c :: nat) in
     if 48 \<le> n \<and> n \<le> 57 then Some (n - 48)
     else if 65 \<le> n \<and> n \<le> 70 then Some (n - 55)
     else if 97 \<le> n \<and> n \<le> 102 then Some (n - 87) else None)"

definition is_alnum :: "char \<Rightarrow> bool" where
  "is_alnum c = (let n = (of_char c :: nat) in
     (48 \<le> n \<and> n \<le> 57) \<or> (65 \<le> n \<and> n \<le> 90) \<or> (97 \<le> n \<and> n \<le> 122))"

definition uri_unreserved :: "char \<Rightarrow> bool" where
  "uri_unreserved c \<longleftrightarrow> is_alnum c \<or> c \<in> set (''-_.!~*()'' @ [CHR 0x27])"

definition pct :: "nat \<Rightarrow> string" where
  "pct b = [CHR ''%'', upper_hex (b div 16), upper_hex (b mod 16)]"

definition uri_encode_char :: "char \<Rightarrow> string" where
  "uri_encode_char c = (let n = (of_char c :: nat) in
     if uri_unreserved c then [c]
     else if n < 128 then pct n
     else pct (192 + n div 64) @ pct (128 + n mod 64))"

definition uri_encode :: "string \<Rightarrow> string" where
  "uri_encode s = concat (map uri_encode_char s)"

definition hex_pair :: "char \<Rightarrow> char \<Rightarrow> nat option" where
  "hex_pair a b = (case (hex_val a, hex_val b) of (Some x, Some y) \<Rightarrow> Some (16 * x + y) | _ \<Rightarrow> None)"

definition cons_opt :: "char \<Rightarrow> string option \<Rightarrow> string option" where
  "cons_opt c r = map_option (Cons c) r"

fun uri_decode :: "string \<Rightarrow> string option" where
  "uri_decode [] = Some []"
| "uri_decode (c # s) =
     (if c \<noteq> CHR ''%'' then cons_opt c (uri_decode s)
      else (case s of
          a # b # s' \<Rightarrow>
            (case hex_pair a b of
               None \<Rightarrow> None
             | Some n \<Rightarrow>
                 if n < 128 then cons_opt (char_of n) (uri_decode s')
                 else if n = 194 \<or> n = 195 then
                   (case s' of
                      p # x # y # s'' \<Rightarrow>
                        (case (if p = CHR ''%'' then hex_pair x y else None) of
                           None \<Rightarrow> None
                         | Some m \<Rightarrow> if 128 \<le> m \<and> m < 192
                                     then cons_opt (char_of (64 * (n - 192) + (m - 128))) (uri_decode s'')
                                     else None)
                    | _ \<Rightarrow> None)
                 else None)
        | _ \<Rightarrow> None))"

subsection \<open>parseCookieHeader\<close>

definition unquote :: "string \<Rightarrow> string" where
  "unquote v = (if 2 \<le> length v \<and> hd v = CHR 0x22 \<and> last v = CHR 0x22
                then butlast (tl v) else v)"

definition cookie_value_of :: "string \<Rightarrow> string" where
  "cookie_value_of raw =
     (let v = unquote (trim raw)
      in if CHR ''%'' \<in> set v then (case uri_decode v of Some d \<Rightarrow> d | None \<Rightarrow> v) else v)"

definition add_cookie :: "string \<Rightarrow> (string, string) jsmap \<Rightarrow> (string, string) jsmap" where
  "add_cookie seg out =
     (if CHR ''='' \<in> set seg then
        (let name = trim (takeWhile (\<lambda>c. c \<noteq> CHR ''='') seg);
             raw = tl (dropWhile (\<lambda>c. c \<noteq> CHR ''='') seg)
         in if name \<noteq> [] \<and> map_of out name = None
            then AList.update name (cookie_value_of raw) out else out)
      else out)"

function parse_cookie_loop :: "string \<Rightarrow> (string, string) jsmap \<Rightarrow> (string, string) jsmap" where
  "parse_cookie_loop s out =
     (if s = [] then out
      else parse_cookie_loop (drop 1 (dropWhile (\<lambda>c. c \<noteq> CHR '';'') s))
             (add_cookie (takeWhile (\<lambda>c. c \<noteq> CHR '';'') s) out))"
  by auto
termination
proof (relation "measure (\<lambda>(s, out). length s)")
  fix s :: string and out :: "(string, string) jsmap"
  assume "s \<noteq> []"
  then show "((drop 1 (dropWhile (\<lambda>c. c \<noteq> CHR '';'') s), add_cookie (takeWhile (\<lambda>c. c \<noteq> CHR '';'') s) out), s, out)
    \<in> measure (\<lambda>(s, out). length s)"
    using length_dropWhile_le[of "\<lambda>c. c \<noteq> CHR '';''" s] by (cases s) auto
qed simp

declare parse_cookie_loop.simps [simp del]

definition parse_cookie_header :: "string \<Rightarrow> (string, string) jsmap" where
  "parse_cookie_header header = parse_cookie_loop header []"

subsection \<open>serializeCookie\<close>

text \<open>A \<open>Date\<close> is its time value in milliseconds, or invalid.\<close>

datatype js_date = InvalidDate | Time int

datatype js_num = Finite rat | NonFinite

datatype same_site = Strict | Lax | NoneSite

datatype priority = Low | Medium | High

record cookie_options =
  co_domain :: "string option"
  co_path :: "string option"
  co_expires :: "js_date option"
  co_max_age :: "js_num option"
  co_http_only :: "bool option"
  co_secure :: "bool option"
  co_same_site :: "same_site option"
  co_partitioned :: bool
  co_priority :: "priority option"

definition no_options :: cookie_options where
  "no_options = \<lparr> co_domain = None, co_path = None, co_expires = None, co_max_age = None,
     co_http_only = None, co_secure = None, co_same_site = None, co_partitioned = False, co_priority = None \<rparr>"

datatype cookie_error =
    InvalidCookieName string | SameSiteNoneInsecure | IllegalCookieAttr string
  | InvalidExpires | InvalidMaxAge | PartitionedInsecure | EmptySecret | NoMultipleCookies

definition cookie_name_ok :: "string \<Rightarrow> bool" where
  "cookie_name_ok n \<longleftrightarrow> n \<noteq> [] \<and>
     list_all (\<lambda>c. is_alnum c \<or> c \<in> set (''!#$%&*+-.^_|~'' @ [CHR 0x27, CHR 0x60])) n"

definition cookie_value_ok :: "string \<Rightarrow> bool" where
  "cookie_value_ok v \<longleftrightarrow> list_all (\<lambda>c. let n = (of_char c :: nat) in
     n = 0x21 \<or> (0x23 \<le> n \<and> n \<le> 0x2B) \<or> (0x2D \<le> n \<and> n \<le> 0x3A) \<or> (0x3C \<le> n \<and> n \<le> 0x5B)
     \<or> (0x5D \<le> n \<and> n \<le> 0x7E)) v"

definition bad_attr_char :: "char \<Rightarrow> bool" where
  "bad_attr_char c \<longleftrightarrow> c \<in> {CHR '';'', CHR 0x0D, CHR 0x0A, CHR 0x00}"

text \<open>\<open>Date.prototype.toUTCString\<close>, from the proleptic Gregorian calendar of a day number.\<close>

definition civil_of_days :: "int \<Rightarrow> int \<times> int \<times> int" where
  "civil_of_days d =
     (let z = d + 719468; era = z div 146097; doe = z mod 146097;
          yoe = (doe - doe div 1460 + doe div 36524 - doe div 146096) div 365;
          doy = doe - (365 * yoe + yoe div 4 - yoe div 100);
          mp = (5 * doy + 2) div 153;
          day = doy - (153 * mp + 2) div 5 + 1;
          m = (if mp < 10 then mp + 3 else mp - 9);
          y = yoe + era * 400
      in (if m \<le> 2 then y + 1 else y, m, day))"

definition pad :: "nat \<Rightarrow> string \<Rightarrow> string" where
  "pad n s = replicate (n - length s) (CHR ''0'') @ s"

definition pad_int :: "nat \<Rightarrow> int \<Rightarrow> string" where
  "pad_int n i = (if i < 0 then CHR ''-'' # pad (n + 2) (show_nat (nat (- i))) else pad n (show_nat (nat i)))"

definition day_names :: "string list" where
  "day_names = [''Sun'', ''Mon'', ''Tue'', ''Wed'', ''Thu'', ''Fri'', ''Sat'']"

definition month_names :: "string list" where
  "month_names = [''Jan'', ''Feb'', ''Mar'', ''Apr'', ''May'', ''Jun'', ''Jul'', ''Aug'', ''Sep'', ''Oct'', ''Nov'', ''Dec'']"

definition to_utc_string :: "int \<Rightarrow> string" where
  "to_utc_string ms =
     (let days = ms div 86400000; t = ms mod 86400000; (y, m, d) = civil_of_days days
      in day_names ! nat ((days + 4) mod 7) @ '', '' @ pad_int 2 d @ '' '' @ month_names ! nat ((m - 1) mod 12)
         @ '' '' @ pad_int 4 y @ '' '' @ pad_int 2 (t div 3600000) @ '':'' @ pad_int 2 (t div 60000 mod 60)
         @ '':'' @ pad_int 2 (t div 1000 mod 60) @ '' GMT'')"

definition priority_name :: "priority \<Rightarrow> string" where
  "priority_name p = (case p of Low \<Rightarrow> ''Low'' | Medium \<Rightarrow> ''Medium'' | High \<Rightarrow> ''High'')"

definition same_site_name :: "same_site \<Rightarrow> string" where
  "same_site_name s = (case s of Strict \<Rightarrow> ''Strict'' | Lax \<Rightarrow> ''Lax'' | NoneSite \<Rightarrow> ''None'')"

definition check_attr :: "string \<Rightarrow> string \<Rightarrow> cookie_error + string" where
  "check_attr attr v =
     (if list_ex bad_attr_char v then Inl (IllegalCookieAttr attr) else Inr (''; '' @ attr @ ''='' @ v))"

definition domain_part :: "cookie_options \<Rightarrow> cookie_error + string" where
  "domain_part opts =
     (case co_domain opts of Some d \<Rightarrow> (if d = [] then Inr [] else check_attr ''Domain'' d) | None \<Rightarrow> Inr [])"

definition path_part :: "cookie_options \<Rightarrow> cookie_error + string" where
  "path_part opts = check_attr ''Path'' (case co_path opts of Some p \<Rightarrow> p | None \<Rightarrow> ''/'')"

definition expires_part :: "cookie_options \<Rightarrow> cookie_error + string" where
  "expires_part opts = (case co_expires opts of None \<Rightarrow> Inr [] | Some InvalidDate \<Rightarrow> Inl InvalidExpires
     | Some (Time t) \<Rightarrow> Inr (''; Expires='' @ to_utc_string t))"

definition max_age_part :: "cookie_options \<Rightarrow> cookie_error + string" where
  "max_age_part opts = (case co_max_age opts of None \<Rightarrow> Inr [] | Some NonFinite \<Rightarrow> Inl InvalidMaxAge
     | Some (Finite q) \<Rightarrow> Inr (''; Max-Age='' @ show_int \<lfloor>q\<rfloor>))"

definition flags_part :: "bool \<Rightarrow> cookie_options \<Rightarrow> cookie_error + string" where
  "flags_part secure opts =
     (let site = (case co_same_site opts of Some s \<Rightarrow> s | None \<Rightarrow> Lax);
          out = (if co_http_only opts = Some False then [] else ''; HttpOnly'')
            @ (if secure then ''; Secure'' else [])
            @ ''; SameSite='' @ same_site_name site
      in if co_partitioned opts \<and> \<not> secure then Inl PartitionedInsecure
         else Inr (out @ (if co_partitioned opts then ''; Partitioned'' else [])
                @ (case co_priority opts of None \<Rightarrow> [] | Some p \<Rightarrow> ''; Priority='' @ priority_name p)))"

definition serialize_cookie :: "string \<Rightarrow> string \<Rightarrow> cookie_options \<Rightarrow> cookie_error + string" where
  "serialize_cookie name value opts =
     (if \<not> cookie_name_ok name then Inl (InvalidCookieName name)
      else
        let encoded = (if cookie_value_ok value then value else uri_encode value);
            site_none = (co_same_site opts = Some NoneSite);
            secure = (site_none \<or> co_secure opts = Some True)
        in if site_none \<and> co_secure opts = Some False then Inl SameSiteNoneInsecure
           else sum_bind (domain_part opts) (\<lambda>dom.
                sum_bind (path_part opts) (\<lambda>path.
                sum_bind (expires_part opts) (\<lambda>expires.
                sum_bind (max_age_part opts) (\<lambda>max_age.
                sum_bind (flags_part secure opts) (\<lambda>flags.
                  Inr (name @ ''='' @ encoded @ dom @ path @ expires @ max_age @ flags)))))))"

subsection \<open>Signed values\<close>

definition sign_cookie_value ::
    "(string \<Rightarrow> string \<Rightarrow> string) \<Rightarrow> string \<Rightarrow> string \<Rightarrow> cookie_error + string" where
  "sign_cookie_value hmac v secret =
     (if secret = [] then Inl EmptySecret else Inr (''s:'' @ v @ ''.'' @ hmac v secret))"

fun last_index_of :: "'a \<Rightarrow> 'a list \<Rightarrow> nat option" where
  "last_index_of c [] = None"
| "last_index_of c (x # xs) =
     (case last_index_of c xs of Some i \<Rightarrow> Some (Suc i) | None \<Rightarrow> if x = c then Some 0 else None)"

fun check_secrets ::
    "(string \<Rightarrow> string \<Rightarrow> string) \<Rightarrow> string \<Rightarrow> string \<Rightarrow> string list \<Rightarrow> bool" where
  "check_secrets hmac v mac [] = False"
| "check_secrets hmac v mac (s # ss) =
     (if s = [] then check_secrets hmac v mac ss
      else if mac = hmac v s then True else check_secrets hmac v mac ss)"

definition unsign_cookie_value ::
    "(string \<Rightarrow> string \<Rightarrow> string) \<Rightarrow> string \<Rightarrow> string list \<Rightarrow> string option" where
  "unsign_cookie_value hmac signed secrets =
     (if \<not> starts_with signed ''s:'' then None
      else case last_index_of (CHR ''.'') signed of
             None \<Rightarrow> None
           | Some dot \<Rightarrow>
               if dot < 2 then None
               else (let v = drop 2 (take dot signed); mac = drop (Suc dot) signed
                     in if check_secrets hmac v mac secrets then Some v else None))"

subsection \<open>Request and response helpers\<close>

text \<open>The cookies parsed so far, by request object.\<close>

type_synonym parsed_cookies = "(nat, (string, string) jsmap) jsmap"

definition cookie_header :: "request \<Rightarrow> string" where
  "cookie_header req = (case map_of (rq_headers req) ''cookie'' of Some (h # _) \<Rightarrow> h | _ \<Rightarrow> [])"

definition get_cookies :: "nat \<Rightarrow> request \<Rightarrow> parsed_cookies \<Rightarrow> (string, string) jsmap \<times> parsed_cookies" where
  "get_cookies key req cache =
     (case map_of cache key of
        Some cs \<Rightarrow> (cs, cache)
      | None \<Rightarrow> (let cs = parse_cookie_header (cookie_header req) in (cs, AList.update key cs cache)))"

text \<open>The part of a response that cookies need; \<open>cookie\<close> and \<open>clearCookie\<close> are optional members.\<close>

record 'r cookie_port =
  kp_cookie :: "(string \<Rightarrow> string \<Rightarrow> cookie_options \<Rightarrow> 'r act) option"
  kp_clear_cookie :: "(string \<Rightarrow> cookie_options \<Rightarrow> 'r act) option"
  kp_get_header :: "string \<Rightarrow> 'r \<Rightarrow> string option"
  kp_header :: "string \<Rightarrow> string \<Rightarrow> 'r act"

definition cookie_thrown :: "cookie_error \<Rightarrow> thrown" where
  "cookie_thrown e = ThrowErr (mk_error None (case e of
       InvalidCookieName n \<Rightarrow> ''[Axiomify] Invalid cookie name '' @ json_string n @ ''. Cookie names must be RFC 6265 tokens.''
     | SameSiteNoneInsecure \<Rightarrow> ''[Axiomify] SameSite=None cookies must be Secure. Browsers reject them otherwise.''
     | IllegalCookieAttr a \<Rightarrow> ''[Axiomify] Cookie '' @ a @ '' attribute contains illegal characters.''
     | InvalidExpires \<Rightarrow> ''[Axiomify] Cookie expires is an invalid Date.''
     | InvalidMaxAge \<Rightarrow> ''[Axiomify] Cookie maxAge must be a finite number.''
     | PartitionedInsecure \<Rightarrow> ''[Axiomify] Partitioned cookies must be Secure.''
     | EmptySecret \<Rightarrow> ''[Axiomify] Cookie signing secret is empty.''
     | NoMultipleCookies \<Rightarrow> ''[Axiomify] This adapter does not implement res.cookie() and a Set-Cookie header is already present.''))"

definition set_cookie :: "'r cookie_port \<Rightarrow> string \<Rightarrow> string \<Rightarrow> cookie_options \<Rightarrow> 'r act" where
  "set_cookie kp name value opts r =
     (case kp_cookie kp of
        Some f \<Rightarrow> f name value opts r
      | None \<Rightarrow>
          if kp_get_header kp ''Set-Cookie'' r \<noteq> None then (Some (cookie_thrown NoMultipleCookies), r)
          else (case serialize_cookie name value opts of
                  Inl e \<Rightarrow> (Some (cookie_thrown e), r)
                | Inr line \<Rightarrow> kp_header kp ''Set-Cookie'' line r))"

definition expired :: "cookie_options \<Rightarrow> cookie_options" where
  "expired opts = opts\<lparr> co_expires := Some (Time 0), co_max_age := Some (Finite 0) \<rparr>"

definition clear_cookie :: "'r cookie_port \<Rightarrow> string \<Rightarrow> cookie_options \<Rightarrow> 'r act" where
  "clear_cookie kp name opts r =
     (case kp_clear_cookie kp of
        Some f \<Rightarrow> f name opts r
      | None \<Rightarrow> set_cookie kp name [] (expired opts) r)"

subsection \<open>The printed line\<close>

definition cookie_safe :: "string \<Rightarrow> bool" where
  "cookie_safe s \<longleftrightarrow> \<not> list_ex bad_attr_char s"

lemma cookie_safe_append [simp]: "cookie_safe (s @ t) \<longleftrightarrow> cookie_safe s \<and> cookie_safe t"
  and cookie_safe_Cons [simp]: "cookie_safe (c # s) \<longleftrightarrow> \<not> bad_attr_char c \<and> cookie_safe s"
  and cookie_safe_Nil [simp]: "cookie_safe []"
  by (auto simp: cookie_safe_def)

lemma bad_attr_char_code:
  "bad_attr_char c \<longleftrightarrow> (of_char c :: nat) = 59 \<or> (of_char c :: nat) = 13 \<or> (of_char c :: nat) = 10 \<or> (of_char c :: nat) = 0"
proof -
  have "(of_char c :: nat) = of_char d \<longleftrightarrow> c = d" for d by simp
  from this[of "CHR '';''"] this[of "CHR 0x0D"] this[of "CHR 0x0A"] this[of "CHR 0x00"]
  show ?thesis by (simp add: bad_attr_char_def)
qed

lemma cookie_safe_iff: "cookie_safe s \<longleftrightarrow> (\<forall>c \<in> set s. \<not> bad_attr_char c)"
  by (simp add: cookie_safe_def list_ex_iff)

lemma cookie_safe_show_nat [simp]: "cookie_safe (show_nat n)"
  by (auto simp: cookie_safe_iff bad_attr_char_code dest: show_nat_digit)

lemma cookie_safe_show_int [simp]: "cookie_safe (show_int i)"
  by (auto simp: cookie_safe_iff bad_attr_char_code dest!: show_int_digit)

lemma cookie_safe_pad_int [simp]: "cookie_safe (pad_int n i)"
proof -
  have "cookie_safe (replicate k (CHR ''0''))" for k
    by (simp add: cookie_safe_iff bad_attr_char_code)
  then show ?thesis by (simp add: pad_int_def pad_def bad_attr_char_code)
qed

lemma cookie_safe_names: "list_all cookie_safe day_names" "list_all cookie_safe month_names"
  by (simp_all add: bad_attr_char_code day_names_def month_names_def)

lemma cookie_safe_day [simp]: "cookie_safe (day_names ! nat (i mod 7))"
proof (rule cookie_safe_names(1)[unfolded list_all_length, rule_format])
  show "nat (i mod 7) < length day_names" by (simp add: day_names_def nat_less_iff)
qed

lemma cookie_safe_month [simp]: "cookie_safe (month_names ! nat (i mod 12))"
proof (rule cookie_safe_names(2)[unfolded list_all_length, rule_format])
  show "nat (i mod 12) < length month_names" by (simp add: month_names_def nat_less_iff)
qed

lemma cookie_safe_utc [simp]: "cookie_safe (to_utc_string t)"
  unfolding to_utc_string_def Let_def
  by (cases "civil_of_days (t div 86400000)") (simp add: bad_attr_char_code)

definition encode_value :: "string \<Rightarrow> string" where
  "encode_value v = (if cookie_value_ok v then v else uri_encode v)"

definition cookie_attrs :: "cookie_options \<Rightarrow> string list" where
  "cookie_attrs opts =
     (case co_domain opts of Some (d # ds) \<Rightarrow> [''Domain='' @ d # ds] | _ \<Rightarrow> [])
     @ [''Path='' @ (case co_path opts of Some p \<Rightarrow> p | None \<Rightarrow> ''/'')]
     @ (case co_expires opts of Some (Time t) \<Rightarrow> [''Expires='' @ to_utc_string t] | _ \<Rightarrow> [])
     @ (case co_max_age opts of Some (Finite q) \<Rightarrow> [''Max-Age='' @ show_int \<lfloor>q\<rfloor>] | _ \<Rightarrow> [])
     @ (if co_http_only opts = Some False then [] else [''HttpOnly''])
     @ (if co_secure opts = Some True \<or> co_same_site opts = Some NoneSite then [''Secure''] else [])
     @ [''SameSite='' @ same_site_name (case co_same_site opts of Some s \<Rightarrow> s | None \<Rightarrow> Lax)]
     @ (if co_partitioned opts then [''Partitioned''] else [])
     @ (case co_priority opts of Some p \<Rightarrow> [''Priority='' @ priority_name p] | None \<Rightarrow> [])"


text \<open>Each part is its attributes, each after "; ", and each free of separators.\<close>

definition prints :: "string list \<Rightarrow> string \<Rightarrow> bool" where
  "prints attrs s \<longleftrightarrow> s = concat (map (\<lambda>a. CHR '';'' # CHR '' '' # a) attrs) \<and> list_all cookie_safe attrs"

lemma prints_append: "prints xs s \<Longrightarrow> prints ys t \<Longrightarrow> prints (xs @ ys) (s @ t)"
  and prints_Nil: "prints [] []"
  and prints_one: "cookie_safe a \<Longrightarrow> prints [a] (CHR '';'' # CHR '' '' # a)"
  by (auto simp: prints_def)

lemma check_attr_Inr: "check_attr attr v = Inr s \<longleftrightarrow> cookie_safe v \<and> s = ''; '' @ attr @ ''='' @ v"
  by (auto simp: check_attr_def cookie_safe_def)

lemma prints_domain: "domain_part opts = Inr s \<Longrightarrow>
   prints (case co_domain opts of Some (d # ds) \<Rightarrow> [''Domain='' @ d # ds] | _ \<Rightarrow> []) s"
  by (auto simp: domain_part_def check_attr_Inr prints_def bad_attr_char_code split: option.splits if_splits list.splits)

lemma prints_path: "path_part opts = Inr s \<Longrightarrow>
   prints [''Path='' @ (case co_path opts of Some p \<Rightarrow> p | None \<Rightarrow> ''/'')] s"
  by (auto simp: path_part_def check_attr_Inr prints_def bad_attr_char_code)

lemma prints_expires: "expires_part opts = Inr s \<Longrightarrow>
   prints (case co_expires opts of Some (Time t) \<Rightarrow> [''Expires='' @ to_utc_string t] | _ \<Rightarrow> []) s"
  by (auto simp: expires_part_def prints_def bad_attr_char_code split: option.splits js_date.splits)

lemma prints_max_age: "max_age_part opts = Inr s \<Longrightarrow>
   prints (case co_max_age opts of Some (Finite q) \<Rightarrow> [''Max-Age='' @ show_int \<lfloor>q\<rfloor>] | _ \<Rightarrow> []) s"
  by (auto simp: max_age_part_def prints_def bad_attr_char_code split: option.splits js_num.splits)

lemma cookie_safe_words [simp]:
  "cookie_safe (same_site_name s)" "cookie_safe (priority_name p)"
  by (auto simp: same_site_name_def priority_name_def bad_attr_char_code split: same_site.splits priority.splits)

lemma prints_flags: "flags_part secure opts = Inr s \<Longrightarrow>
   prints ((if co_http_only opts = Some False then [] else [''HttpOnly''])
     @ (if secure then [''Secure''] else [])
     @ [''SameSite='' @ same_site_name (case co_same_site opts of Some s \<Rightarrow> s | None \<Rightarrow> Lax)]
     @ (if co_partitioned opts then [''Partitioned''] else [])
     @ (case co_priority opts of Some p \<Rightarrow> [''Priority='' @ priority_name p] | None \<Rightarrow> [])) s"
  by (auto simp: flags_part_def prints_def bad_attr_char_code Let_def split: if_splits option.splits)

lemma serialize_cookie_prints:
  assumes "serialize_cookie n v opts = Inr line"
  shows "\<exists>s. line = n @ ''='' @ encode_value v @ s \<and> prints (cookie_attrs opts) s"
proof -
  from assms obtain d p e m f where parts:
    "domain_part opts = Inr d" "path_part opts = Inr p" "expires_part opts = Inr e" "max_age_part opts = Inr m"
    "flags_part (co_same_site opts = Some NoneSite \<or> co_secure opts = Some True) opts = Inr f"
    and line: "line = n @ ''='' @ encode_value v @ d @ p @ e @ m @ f"
    by (auto simp: serialize_cookie_def Let_def sum_bind_Inr encode_value_def split: if_splits)
  have "prints (cookie_attrs opts) (d @ p @ e @ m @ f)"
    unfolding cookie_attrs_def
    using parts
    by (intro prints_append prints_domain prints_path prints_expires prints_max_age)
       (auto dest!: prints_flags simp: disj_commute)
  with line show ?thesis by blast
qed

lemma serialize_cookie_name: "serialize_cookie n v opts = Inr line \<Longrightarrow> cookie_name_ok n"
  by (auto simp: serialize_cookie_def split: if_splits)

subsection \<open>Encoded characters\<close>

lemma hex_val_upper [simp]: "n < 16 \<Longrightarrow> hex_val (upper_hex n) = Some n"
  by (auto simp: hex_val_def upper_hex_def Let_def)

lemma hex_pair_upper [simp]: "b < 256 \<Longrightarrow> hex_pair (upper_hex (b div 16)) (upper_hex (b mod 16)) = Some b"
  by (simp add: hex_pair_def less_mult_imp_div_less)

lemma of_char_less_256 [simp]: "(of_char c :: nat) < 256"
  by (rule nat_of_char_less_256)

lemma percent_code: "c = CHR ''%'' \<longleftrightarrow> (of_char c :: nat) = 37"
proof -
  have "(of_char c :: nat) = of_char d \<longleftrightarrow> c = d" for d by simp
  from this[of "CHR ''%''"] show ?thesis by simp
qed

lemma unreserved_code: "uri_unreserved c \<Longrightarrow> c \<noteq> CHR ''%'' \<and> c \<noteq> CHR '';'' \<and> c \<noteq> CHR 0x22 \<and> \<not> is_ws c"
  by (auto simp: uri_unreserved_def is_alnum_def is_ws_def Let_def)

lemma uri_decode_encode_char: "uri_decode (uri_encode_char c @ s) = cons_opt c (uri_decode s)"
proof -
  define n where "n = (of_char c :: nat)"
  have n: "n < 256" "char_of n = c" by (simp_all add: n_def)
  consider "uri_unreserved c" | "\<not> uri_unreserved c" "n < 128" | "\<not> uri_unreserved c" "128 \<le> n" by linarith
  then show ?thesis
  proof cases
    case 1
    then show ?thesis using unreserved_code[OF 1] by (simp add: uri_encode_char_def Let_def)
  next
    case 2
    then show ?thesis using n
      by (simp add: uri_encode_char_def Let_def n_def[symmetric] pct_def)
  next
    case 3
    have lead: "192 + n div 64 < 256" "192 + n div 64 = 194 \<or> 192 + n div 64 = 195"
      using 3 n by auto
    have cont: "128 + n mod 64 < 256" "128 \<le> 128 + n mod 64" "128 + n mod 64 < 192" by auto
    have "64 * (192 + n div 64 - 192) + (128 + n mod 64 - 128) = n" by simp
    then show ?thesis using 3 n lead cont
      by (simp add: uri_encode_char_def Let_def n_def[symmetric] pct_def)
  qed
qed

lemma uri_decode_encode: "uri_decode (uri_encode v) = Some v"
proof (induction v)
  case (Cons c v)
  then show ?case
    using uri_decode_encode_char[of c "uri_encode v"] by (simp add: uri_encode_def cons_opt_def)
qed (simp add: uri_encode_def)

lemma uri_encode_id: "CHR ''%'' \<notin> set (uri_encode v) \<Longrightarrow> uri_encode v = v"
  by (induction v) (auto simp: uri_encode_def uri_encode_char_def pct_def Let_def split: if_splits)

text \<open>What the characters of a printed name and value are not.\<close>

definition plain :: "char \<Rightarrow> bool" where
  "plain c \<longleftrightarrow> c \<noteq> CHR '';'' \<and> c \<noteq> CHR 0x22 \<and> \<not> is_ws c \<and> \<not> bad_attr_char c"

lemma ws_code: "is_ws c \<longleftrightarrow> (of_char c :: nat) \<in> {32, 9, 10, 11, 12, 13, 160}"
proof -
  have e: "c = d \<longleftrightarrow> (of_char c :: nat) = of_char d" for d by simp
  have "is_ws c \<longleftrightarrow> (of_char c :: nat) \<in> of_char ` {CHR '' '', CHR 0x09, CHR 0x0A, CHR 0x0B, CHR 0x0C, CHR 0x0D, CHR 0xA0}"
    unfolding is_ws_def by (simp only: inj_image_mem_iff[OF inj_of_char])
  then show ?thesis by simp
qed

lemma plain_code:
  "plain c \<longleftrightarrow> (of_char c :: nat) \<notin> {59, 34, 32, 9, 10, 11, 12, 13, 160, 0}"
proof -
  have e: "c = d \<longleftrightarrow> (of_char c :: nat) = of_char d" for d by simp
  show ?thesis unfolding plain_def ws_code bad_attr_char_code e[of "CHR '';''"] e[of "CHR 0x22"]
    by simp blast
qed

lemma plain_upper_hex: "n < 16 \<Longrightarrow> plain (upper_hex n)"
  by (auto simp: plain_code upper_hex_def)

lemma plain_pct: "b < 256 \<Longrightarrow> list_all plain (pct b)"
  by (simp add: pct_def plain_upper_hex less_mult_imp_div_less) (simp add: plain_code)

lemma plain_unreserved: "uri_unreserved c \<Longrightarrow> plain c"
  by (auto simp: plain_code uri_unreserved_def is_alnum_def Let_def)

lemma plain_encode_char: "list_all plain (uri_encode_char c)"
proof -
  have "192 + (of_char c :: nat) div 64 < 256" "128 + (of_char c :: nat) mod 64 < 256"
    using of_char_less_256[of c] by (simp_all add: less_mult_imp_div_less[of _ 64 64] del: of_char_less_256)
  then show ?thesis
    using plain_pct[of "of_char c"] plain_pct[of "192 + of_char c div 64"] plain_pct[of "128 + of_char c mod 64"]
    by (auto simp: uri_encode_char_def Let_def plain_unreserved)
qed

lemma plain_encode_value: "list_all plain (encode_value v)"
proof (cases "cookie_value_ok v")
  case True
  then show ?thesis
    by (auto simp: encode_value_def cookie_value_ok_def list_all_iff Let_def plain_code)
next
  case False
  then show ?thesis
    using plain_encode_char by (simp add: encode_value_def uri_encode_def list_all_iff)
qed

lemma plain_name: "cookie_name_ok n \<Longrightarrow> list_all (\<lambda>c. plain c \<and> c \<noteq> CHR ''='') n"
  by (auto simp: cookie_name_ok_def list_all_iff is_alnum_def Let_def plain_code)

subsection \<open>Round trip\<close>

lemma parse_cookie_loop_fold: "parse_cookie_loop s out = fold add_cookie (split_on (CHR '';'') s) out"
proof (induction s out rule: parse_cookie_loop.induct)
  case (1 s out)
  let ?p = "\<lambda>c. c \<noteq> CHR '';''"
  show ?case
  proof (cases "s = []")
    case True
    then show ?thesis by (simp add: parse_cookie_loop.simps add_cookie_def)
  next
    case False
    have notin: "CHR '';'' \<notin> set (takeWhile ?p s)" by (auto dest: set_takeWhileD)
    show ?thesis
    proof (cases "dropWhile ?p s")
      case Nil
      then have tw: "takeWhile ?p s = s" by (metis append_Nil2 takeWhile_dropWhile_id)
      have "parse_cookie_loop s out = parse_cookie_loop (drop 1 []) (add_cookie s out)"
        by (subst parse_cookie_loop.simps) (simp only: False Nil tw if_False)
      moreover have "CHR '';'' \<notin> set s" using notin tw by simp
      ultimately show ?thesis
        by (simp add: parse_cookie_loop.simps[of "[]"] split_on_no_sep)
    next
      case (Cons c t)
      then have "c = CHR '';''" by (metis (mono_tags) hd_dropWhile list.discI list.sel(1))
      then have "s = takeWhile ?p s @ CHR '';'' # t" using Cons by (metis takeWhile_dropWhile_id)
      then have "split_on (CHR '';'') s = takeWhile ?p s # split_on (CHR '';'') t"
        using split_on_append_sep[OF notin, of t] by simp
      then show ?thesis using False Cons 1 by (simp add: parse_cookie_loop.simps[of s])
    qed
  qed
qed

lemma trim_plain: "list_all plain s \<Longrightarrow> trim s = s"
  by (rule trim_id) (cases "s = []", auto simp: list_all_iff plain_def)

lemma trim_space: "trim (CHR '' '' # s) = trim s"
  by (simp add: trim_def is_ws_def)

text \<open>What comes back of a value: the value, but the percent-decoding of one that \<open>serializeCookie\<close> prints as
  it is and that holds a percent sign, when it can be decoded.\<close>

definition comes_back :: "string \<Rightarrow> string" where
  "comes_back v =
     (if cookie_value_ok v \<and> CHR ''%'' \<in> set v then (case uri_decode v of Some u \<Rightarrow> u | None \<Rightarrow> v) else v)"

lemma cookie_value_of_encode: "cookie_value_of (encode_value v) = comes_back v"
proof -
  have "trim (encode_value v) = encode_value v" by (rule trim_plain[OF plain_encode_value])
  moreover have "unquote (encode_value v) = encode_value v"
    using plain_encode_value[of v] by (cases "encode_value v") (auto simp: unquote_def plain_def)
  ultimately show ?thesis
    by (auto simp: cookie_value_of_def Let_def encode_value_def comes_back_def uri_decode_encode dest: uri_encode_id)
qed

lemma takeWhile_sep: "c \<notin> set s \<Longrightarrow> takeWhile (\<lambda>x. x \<noteq> c) (s @ c # t) = s"
  and dropWhile_sep: "c \<notin> set s \<Longrightarrow> dropWhile (\<lambda>x. x \<noteq> c) (s @ c # t) = c # t"
  by (induction s) auto

lemma add_cookie_sep:
  assumes "CHR ''='' \<notin> set s" "trim s \<noteq> []"
  shows "add_cookie (s @ CHR ''='' # t) out =
    (if map_of out (trim s) = None then AList.update (trim s) (cookie_value_of t) out else out)"
  using assms by (simp add: add_cookie_def Let_def takeWhile_sep dropWhile_sep)

lemma add_cookie_pair:
  assumes n: "cookie_name_ok n" and ws: "ws = [] \<or> ws = '' ''"
  shows "add_cookie (ws @ n @ ''='' @ encode_value v) out = (if map_of out n = None then AList.update n (comes_back v) out else out)"
proof -
  have no: "CHR ''='' \<notin> set n" and pl: "list_all plain n" and ne: "n \<noteq> []"
    using plain_name[OF n] n by (auto simp: list_all_iff cookie_name_ok_def)
  have "trim (ws @ n) = n" using ws trim_plain[OF pl] by (auto simp: trim_space)
  moreover have "CHR ''='' \<notin> set (ws @ n)" using ws no by auto
  ultimately show ?thesis
    using add_cookie_sep[of "ws @ n" "encode_value v" out] ne
    by (simp only: cookie_value_of_encode append_assoc append_Cons append_Nil simp_thms)
qed

text \<open>The \<open>Cookie\<close> header a browser sends back for some \<open>Set-Cookie\<close> lines.\<close>

definition browser_header :: "string list \<Rightarrow> string" where
  "browser_header lines = join_with ''; '' (map (takeWhile (\<lambda>c. c \<noteq> CHR '';'')) lines)"

lemma join_with_space: "join_with ''; '' (p # ps) = join_with '';'' (p # map (Cons (CHR '' '')) ps)"
  by (induction ps arbitrary: p) (auto simp: join_with_Cons)

definition keep_first :: "string \<times> string \<times> cookie_options \<Rightarrow> (string, string) jsmap \<Rightarrow> (string, string) jsmap" where
  "keep_first c out = (case c of (n, v, _) \<Rightarrow> if map_of out n = None then AList.update n (comes_back v) out else out)"

lemma map_of_keep_first_one:
  "map_of (keep_first (n, v, opts) out) k =
     (case map_of out k of Some x \<Rightarrow> Some x | None \<Rightarrow> if k = n then Some (comes_back v) else None)"
  by (auto simp: keep_first_def split: option.splits)

lemma map_of_keep_first:
  "map_of (fold keep_first cs out) k =
     (case map_of out k of Some x \<Rightarrow> Some x | None \<Rightarrow> map_of (map (\<lambda>(n, v, _). (n, comes_back v)) cs) k)"
proof (induction cs arbitrary: out)
  case (Cons c cs)
  obtain n v opts where "c = (n, v, opts)" by (cases c)
  with Cons show ?case by (simp add: map_of_keep_first_one split: option.split)
qed (simp split: option.split)

lemma serialized_pair:
  assumes "serialize_cookie n v opts = Inr line"
  shows "takeWhile (\<lambda>c. c \<noteq> CHR '';'') line = n @ ''='' @ encode_value v"
    "CHR '';'' \<notin> set (n @ ''='' @ encode_value v)"
proof -
  show s: "CHR '';'' \<notin> set (n @ ''='' @ encode_value v)"
    using plain_name[OF serialize_cookie_name[OF assms]] plain_encode_value[of v]
    by (auto simp: list_all_iff plain_def)
  obtain rest where "line = n @ ''='' @ encode_value v @ rest" "prints (cookie_attrs opts) rest"
    using serialize_cookie_prints[OF assms] by blast
  moreover from this have "rest \<noteq> [] \<Longrightarrow> hd rest = CHR '';''"
    by (cases "cookie_attrs opts") (auto simp: prints_def)
  ultimately show "takeWhile (\<lambda>c. c \<noteq> CHR '';'') line = n @ ''='' @ encode_value v"
    using s by (cases rest) (auto simp: takeWhile_append)
qed

lemma add_cookie_serialized:
  assumes "serialize_cookie n v opts = Inr line" and "ws = [] \<or> ws = '' ''"
  shows "add_cookie (ws @ takeWhile (\<lambda>c. c \<noteq> CHR '';'') line) out = keep_first (n, v, opts) out"
  using add_cookie_pair[OF serialize_cookie_name[OF assms(1)] assms(2)] serialized_pair(1)[OF assms(1)]
  by (simp add: keep_first_def)

lemma fold_add_serialized:
  assumes "list_all2 (\<lambda>(n, v, opts) line. serialize_cookie n v opts = Inr line) cs lines"
    and ws: "ws = [] \<or> ws = '' ''"
  shows "fold add_cookie (map (\<lambda>l. ws @ takeWhile (\<lambda>c. c \<noteq> CHR '';'') l) lines) out = fold keep_first cs out"
  using assms(1)
proof (induction cs lines arbitrary: out rule: list_all2_induct)
  case (Cons c cs l ls)
  obtain n v opts where c: "c = (n, v, opts)" by (cases c)
  have "add_cookie (ws @ takeWhile (\<lambda>c. c \<noteq> CHR '';'') l) out = keep_first c out" for out
    using Cons.hyps(1) unfolding c by (intro add_cookie_serialized[OF _ ws]) auto
  moreover have "fold add_cookie (map (\<lambda>l. ws @ takeWhile (\<lambda>c. c \<noteq> CHR '';'') l) ls) out = fold keep_first cs out" for out
    by (rule Cons.IH)
  ultimately show ?case by simp
qed simp

text \<open>C36. Cookies that \<open>serializeCookie\<close> printed come back from \<open>parseCookieHeader\<close> with the
  values that were set, whatever bytes these hold, and of several cookies of one name the first
  wins, with one exception: a value that is printed as it is and holds a percent sign comes back
  percent-decoded, where it can be decoded.\<close>

theorem cookie_round_trip:
  assumes "list_all2 (\<lambda>(n, v, opts) line. serialize_cookie n v opts = Inr line) cs lines"
  shows "map_of (parse_cookie_header (browser_header lines)) = map_of (map (\<lambda>(n, v, opts). (n, comes_back v)) cs)"
proof (cases lines)
  case Nil
  with assms show ?thesis
    by (simp add: browser_header_def parse_cookie_header_def parse_cookie_loop.simps)
next
  case (Cons l ls)
  then obtain n v opts cs' where cs: "cs = (n, v, opts) # cs'" and l: "serialize_cookie n v opts = Inr l"
    and ls: "list_all2 (\<lambda>(n, v, opts) line. serialize_cookie n v opts = Inr line) cs' ls"
    using assms(1) by (auto simp: list_all2_Cons2)
  let ?t = "takeWhile (\<lambda>c. c \<noteq> CHR '';'')"
  have "CHR '';'' \<notin> set (?t s)" for s by (auto dest: set_takeWhileD)
  then have "split_on (CHR '';'') (browser_header lines) = ?t l # map (\<lambda>l. '' '' @ ?t l) ls"
    unfolding browser_header_def Cons list.map join_with_space
    by (subst split_join_with) (auto simp: comp_def)
  then have "parse_cookie_header (browser_header lines) = fold keep_first cs []"
    using fold_add_serialized[OF ls, of "'' ''"] fold_add_serialized[of "[(n, v, opts)]" "[l]" "[]"] l cs
    by (simp add: parse_cookie_header_def parse_cookie_loop_fold)
  then show ?thesis by (auto simp: map_of_keep_first)
qed

theorem cookie_round_trip_witness:
  "map_of (parse_cookie_header (browser_header
     [''a=1; Path=/; HttpOnly; SameSite=Lax'', ''b=x%20y; Path=/; HttpOnly; SameSite=Lax'', ''a=2; Path=/; HttpOnly; SameSite=Lax'',
      ''c=%41; Path=/; HttpOnly; SameSite=Lax'']))
   = map_of [(''a'', ''1''), (''b'', ''x y''), (''a'', ''2''), (''c'', ''A'')]"
proof -
  let ?cs = "[(''a'', ''1'', no_options), (''b'', ''x y'', no_options), (''a'', ''2'', no_options), (''c'', ''%41'', no_options)]"
  let ?lines = "[''a=1; Path=/; HttpOnly; SameSite=Lax'', ''b=x%20y; Path=/; HttpOnly; SameSite=Lax'', ''a=2; Path=/; HttpOnly; SameSite=Lax'',
      ''c=%41; Path=/; HttpOnly; SameSite=Lax'']"
  have "list_all2 (\<lambda>(n, v, opts) line. serialize_cookie n v opts = Inr line) ?cs ?lines" by code_simp
  then have "map_of (parse_cookie_header (browser_header ?lines)) = map_of (map (\<lambda>(n, v, opts). (n, comes_back v)) ?cs)"
    by (rule cookie_round_trip)
  moreover have "comes_back ''1'' = ''1''" "comes_back ''2'' = ''2''" "comes_back ''x y'' = ''x y''" "comes_back ''%41'' = ''A''"
    by code_simp+
  ultimately show ?thesis by (simp only: list.map prod.case)
qed

text \<open>A value holding a percent sign does not always come back.\<close>

theorem cookie_percent_lost:
  "serialize_cookie ''a'' ''%41'' no_options = Inr ''a=%41; Path=/; HttpOnly; SameSite=Lax''
   \<and> map_of (parse_cookie_header ''a=%41'') ''a'' = Some ''A''"
  by code_simp

subsection \<open>No injection\<close>

lemma prints_split:
  assumes "prints attrs s" "CHR '';'' \<notin> set p"
  shows "split_on (CHR '';'') (p @ s) = p # map (Cons (CHR '' '')) attrs"
proof -
  have "p @ s = join_with '';'' (p # map (Cons (CHR '' '')) attrs)"
    using assms(1) by (simp add: prints_def join_with_concat comp_def)
  moreover have "CHR '';'' \<notin> set a" if "a \<in> set attrs" for a
    using assms(1) that by (auto simp: prints_def list_all_iff cookie_safe_iff bad_attr_char_def)
  ultimately show ?thesis using assms(2) by (simp only: split_join_with) (subst split_join_with, auto)
qed

lemma cookie_safe_pair: "cookie_name_ok n \<Longrightarrow> cookie_safe (n @ ''='' @ encode_value v)"
  using plain_name[of n] plain_encode_value[of v]
  by (auto simp: cookie_safe_iff list_all_iff plain_def bad_attr_char_code)

lemma in_prints:
  "c \<in> set (concat (map (\<lambda>a. x # y # a) as)) \<Longrightarrow> c = x \<or> c = y \<or> (\<exists>a \<in> set as. c \<in> set a)"
  by (induction as) auto

lemma safe_char: "\<not> bad_attr_char c \<Longrightarrow> c \<notin> {CHR 0x0D, CHR 0x0A, CHR 0x00}"
  unfolding bad_attr_char_def by blast

lemma disjoint_append:
  "\<forall>c \<in> set s. c \<notin> X \<Longrightarrow> \<forall>c \<in> set p. c \<notin> X \<Longrightarrow> set l = set p \<union> set s \<Longrightarrow> set l \<inter> X = {}"
  by blast

lemma serialize_cookie_clean:
  assumes "serialize_cookie n v opts = Inr line"
  shows "set line \<inter> {CHR 0x0D, CHR 0x0A, CHR 0x00} = {}"
proof -
  obtain s where s: "line = n @ ''='' @ encode_value v @ s" "prints (cookie_attrs opts) s"
    using serialize_cookie_prints[OF assms] by blast
  have attrs: "\<forall>a \<in> set (cookie_attrs opts). \<forall>c \<in> set a. \<not> bad_attr_char c"
    using s(2) unfolding prints_def list_all_iff cookie_safe_iff by blast
  have "\<forall>c \<in> set s. c \<notin> {CHR 0x0D, CHR 0x0A, CHR 0x00}"
  proof
    fix c assume "c \<in> set s"
    then have "c \<in> set (concat (map (\<lambda>a. CHR '';'' # CHR '' '' # a) (cookie_attrs opts)))"
      using s(2) unfolding prints_def by metis
    from in_prints[OF this] show "c \<notin> {CHR 0x0D, CHR 0x0A, CHR 0x00}"
    proof (elim disjE bexE)
      fix a assume "a \<in> set (cookie_attrs opts)" "c \<in> set a"
      with attrs show ?thesis by (intro safe_char) blast
    qed simp_all
  qed
  moreover have "\<forall>c \<in> set (n @ ''='' @ encode_value v). c \<notin> {CHR 0x0D, CHR 0x0A, CHR 0x00}"
    using cookie_safe_pair[OF serialize_cookie_name[OF assms], of v]
    unfolding cookie_safe_iff by (intro ballI safe_char) (rule bspec)
  moreover have "set line = set (n @ ''='' @ encode_value v) \<union> set s"
    unfolding s(1) set_append by blast
  ultimately show ?thesis by (rule disjoint_append)
qed

text \<open>A \<open>Set-Cookie\<close> line that \<open>serializeCookie\<close> returns is one cookie and nothing else: cut at
  its semicolons it is the name and value followed by the attributes of the options, in a fixed
  order, and it holds no CR, LF or NUL; whatever the name, value, domain or path were, none of
  them starts an attribute or a header of its own. The cookie is \<open>HttpOnly\<close> unless that was
  turned off, and \<open>Secure\<close> when it is \<open>SameSite=None\<close> or \<open>Partitioned\<close>.\<close>

theorem serialize_cookie_no_injection:
  assumes "serialize_cookie n v opts = Inr line"
  shows "split_on (CHR '';'') line = (n @ ''='' @ encode_value v) # map (Cons (CHR '' '')) (cookie_attrs opts)
    \<and> set line \<inter> {CHR 0x0D, CHR 0x0A, CHR 0x00} = {}
    \<and> (co_http_only opts \<noteq> Some False \<longrightarrow> '' HttpOnly'' \<in> set (split_on (CHR '';'') line))
    \<and> (co_same_site opts = Some NoneSite \<or> co_partitioned opts \<longrightarrow> '' Secure'' \<in> set (split_on (CHR '';'') line))"
proof -
  obtain s where s: "line = n @ ''='' @ encode_value v @ s" "prints (cookie_attrs opts) s"
    using serialize_cookie_prints[OF assms] by blast
  have safe: "cookie_safe (n @ ''='' @ encode_value v)"
    by (rule cookie_safe_pair[OF serialize_cookie_name[OF assms]])
  then have sp: "split_on (CHR '';'') line = (n @ ''='' @ encode_value v) # map (Cons (CHR '' '')) (cookie_attrs opts)"
    using prints_split[OF s(2), of "n @ ''='' @ encode_value v"] s(1)
    by (auto simp: cookie_safe_iff bad_attr_char_def)
  have "co_partitioned opts \<Longrightarrow> co_secure opts = Some True \<or> co_same_site opts = Some NoneSite"
    using assms by (auto simp: serialize_cookie_def sum_bind_Inr flags_part_def Let_def split: if_splits)
  then have "co_same_site opts = Some NoneSite \<or> co_partitioned opts \<Longrightarrow> ''Secure'' \<in> set (cookie_attrs opts)"
    by (auto simp: cookie_attrs_def)
  moreover have "co_http_only opts \<noteq> Some False \<Longrightarrow> ''HttpOnly'' \<in> set (cookie_attrs opts)"
    by (simp add: cookie_attrs_def)
  ultimately show ?thesis
    unfolding sp using serialize_cookie_clean[OF assms] by (intro conjI impI) simp_all
qed

theorem serialize_cookie_no_injection_witness:
  "split_on (CHR '';'') ''sid=a%3B%20b; Path=/; HttpOnly; SameSite=Lax''
     = [''sid=a%3B%20b'', '' Path=/'', '' HttpOnly'', '' SameSite=Lax'']"
proof -
  have "serialize_cookie ''sid'' ''a; b'' no_options = Inr ''sid=a%3B%20b; Path=/; HttpOnly; SameSite=Lax''"
    by code_simp
  from serialize_cookie_no_injection[OF this, THEN conjunct1]
  have "split_on (CHR '';'') ''sid=a%3B%20b; Path=/; HttpOnly; SameSite=Lax''
    = (''sid'' @ ''='' @ encode_value ''a; b'') # map (Cons (CHR '' '')) (cookie_attrs no_options)" .
  moreover have "encode_value ''a; b'' = ''a%3B%20b''" by code_simp
  moreover have "cookie_attrs no_options = [''Path=/'', ''HttpOnly'', ''SameSite=Lax'']" by code_simp
  ultimately show ?thesis by (simp only: append_Cons append_Nil list.map)
qed

subsection \<open>Signing\<close>

lemma last_index_of_None [simp]: "last_index_of c xs = None \<longleftrightarrow> c \<notin> set xs"
  by (induction xs) (auto split: option.splits)

lemma last_index_of_append: "c \<notin> set t \<Longrightarrow> last_index_of c (s @ c # t) = Some (length s)"
  by (induction s) (auto split: option.split simp: last_index_of_None[THEN iffD2])

lemma last_index_of_Some:
  "last_index_of c xs = Some i \<Longrightarrow> \<exists>s t. xs = s @ c # t \<and> length s = i \<and> c \<notin> set t"
proof (induction xs arbitrary: i)
  case (Cons x xs)
  show ?case
  proof (cases "last_index_of c xs")
    case None
    with Cons.prems show ?thesis by (auto split: if_splits)
  next
    case (Some j)
    with Cons obtain s t where "xs = s @ c # t" "length s = j" "c \<notin> set t" by blast
    with Cons.prems Some show ?thesis by (intro exI[of _ "x # s"] exI[of _ t]) auto
  qed
qed simp

lemma check_secrets_iff:
  "check_secrets hmac v mac secrets \<longleftrightarrow> (\<exists>s \<in> set secrets. s \<noteq> [] \<and> mac = hmac v s)"
  by (induction secrets) auto

lemma unsign_iff:
  "unsign_cookie_value hmac signed secrets = Some v \<longleftrightarrow>
   (\<exists>mac. signed = ''s:'' @ v @ ''.'' @ mac \<and> CHR ''.'' \<notin> set mac \<and> check_secrets hmac v mac secrets)"
  (is "?l \<longleftrightarrow> ?r")
proof
  assume ?l
  then obtain dot where st: "starts_with signed ''s:''" and dot: "last_index_of (CHR ''.'') signed = Some dot"
      and two: "\<not> dot < 2" and v: "v = drop 2 (take dot signed)"
      and cs: "check_secrets hmac v (drop (Suc dot) signed) secrets"
    by (auto simp: unsign_cookie_value_def Let_def split: if_splits option.splits)
  from last_index_of_Some[OF dot] obtain s t
    where s: "signed = s @ CHR ''.'' # t" "length s = dot" "CHR ''.'' \<notin> set t" by blast
  from st obtain u where u: "signed = ''s:'' @ u" by (auto simp: starts_with_def prefix_def)
  have "take 2 s = take 2 signed" using s two by simp
  then have "take 2 s = ''s:''" using u by simp
  then have s': "s = ''s:'' @ drop 2 s" by (metis append_take_drop_id)
  have "v = drop 2 s" "drop (Suc dot) signed = t" using v s by simp_all
  with s s' cs show ?r by (intro exI[of _ t]) (metis append_assoc append_Cons append_Nil)
next
  assume ?r
  then obtain mac where m: "signed = ''s:'' @ v @ ''.'' @ mac" "CHR ''.'' \<notin> set mac" "check_secrets hmac v mac secrets"
    by blast
  then have "last_index_of (CHR ''.'') signed = Some (length v + 2)"
    using last_index_of_append[of "CHR ''.''" mac "''s:'' @ v"] by simp
  with m show ?l by (simp add: unsign_cookie_value_def starts_with_def)
qed

text \<open>\<open>unsignCookieValue\<close> accepts exactly the values \<open>signCookieValue\<close> returned under one of the
  secrets of the list, and gives back the value that was signed, dots and all: with secret
  rotation a value signed by any secret still listed is accepted, and one whose secret is gone
  is not. HMAC-SHA256 in base64url, a parameter, never contains a dot.\<close>

theorem unsign_sign_exact:
  assumes "\<And>v s. CHR ''.'' \<notin> set (hmac v s)"
  shows "unsign_cookie_value hmac signed secrets = Some v \<longleftrightarrow>
    (\<exists>secret \<in> set secrets. sign_cookie_value hmac v secret = Inr signed)"
  unfolding unsign_iff check_secrets_iff
  using assms by (auto simp: sign_cookie_value_def split: if_splits)

theorem unsign_sign_exact_witness:
  "unsign_cookie_value (\<lambda>v s. filter (\<lambda>c. c \<noteq> CHR ''.'') (rev s)) ''s:a.b.dlo'' [''new'', ''old''] = Some ''a.b''"
proof -
  let ?h = "\<lambda>v s. filter (\<lambda>c. c \<noteq> CHR ''.'') (rev s)"
  have "\<exists>secret \<in> set [''new'', ''old'']. sign_cookie_value ?h ''a.b'' secret = Inr ''s:a.b.dlo''"
    by (simp add: sign_cookie_value_def)
  then show ?thesis by (subst unsign_sign_exact) simp_all
qed

end
