(* ===== verification/Native_Response.thy ===== *)
theory Native_Response
  imports Cookies Dispatcher_Props
begin

text \<open>
  \<open>packages/native/src/response.ts\<close> (\<open>NativeResponse\<close>), \<open>packages/native/src/error-cache.ts\<close> and
  \<open>packages/core/src/serialize.ts\<close>.

  uWebSockets.js is not part of the repository: \<open>nr_wire\<close> is the sequence of calls made on its
  response object, and \<open>nr_writes\<close> its future answers to \<open>write\<close> (accepted, or back-pressure; none
  left means accepted). The application's serializer is the parameter \<open>ser\<close>. The pump that copies
  a readable stream to the socket is not modelled: \<open>nr_stream\<close> ends when the head is written.
  Header names are ordinary ones (not \<open>__proto__\<close>, not integers, which JavaScript reorders).
\<close>

subsection \<open>The serializer\<close>

record ser_input =
  si_data :: jsval
  si_message :: "string option"
  si_status :: int
  si_is_error :: bool

datatype ser_result = SerValue jsval | SerPromise | SerThrow thrown

type_synonym serializer = "ser_input \<Rightarrow> ser_result"

definition ser_probe :: ser_input where
  "ser_probe = \<lparr> si_data = JNull, si_message = None, si_status = 200, si_is_error = False \<rparr>"

definition make_serialize :: "nat \<Rightarrow> serializer \<Rightarrow> thrown + serializer" where
  "make_serialize arity fn =
     (if arity > 1 then
        Inl (ThrowErr (mk_error None ''[Axiomify] SerializerFn must accept a single SerializerInput argument.''))
      else case fn ser_probe of
        SerThrow e \<Rightarrow> Inl e
      | SerPromise \<Rightarrow> Inl (ThrowErr (mk_error None ''[Axiomify] SerializerFn must be synchronous.''))
      | SerValue _ \<Rightarrow> Inr fn)"

subsection \<open>Status lines and cached errors\<close>

definition status_phrases :: "(int, string) jsmap" where
  "status_phrases = [(100, ''Continue''), (101, ''Switching Protocols''), (200, ''OK''), (201, ''Created''),
     (202, ''Accepted''), (204, ''No Content''), (206, ''Partial Content''), (301, ''Moved Permanently''),
     (302, ''Found''), (304, ''Not Modified''), (400, ''Bad Request''), (401, ''Unauthorized''),
     (403, ''Forbidden''), (404, ''Not Found''), (405, ''Method Not Allowed''), (408, ''Request Timeout''),
     (409, ''Conflict''), (410, ''Gone''), (413, ''Payload Too Large''), (415, ''Unsupported Media Type''),
     (422, ''Unprocessable Entity''), (429, ''Too Many Requests''), (500, ''Internal Server Error''),
     (501, ''Not Implemented''), (502, ''Bad Gateway''), (503, ''Service Unavailable''), (504, ''Gateway Timeout'')]"

definition status_line :: "int \<Rightarrow> string" where
  "status_line code = show_int code @ '' '' @
     (case map_of status_phrases code of Some p \<Rightarrow> p | None \<Rightarrow> ''Unknown'')"

record cached_error =
  ce_status_line :: string
  ce_body :: "string option"

record error_cache =
  ec_404 :: cached_error
  ec_405_body :: "string option"
  ec_413 :: cached_error
  ec_500 :: cached_error
  ec_504 :: cached_error

definition cached_body :: "serializer \<Rightarrow> int \<Rightarrow> string \<Rightarrow> thrown + string option" where
  "cached_body ser code msg =
     (case ser \<lparr> si_data = JNull, si_message = Some msg, si_status = code, si_is_error = True \<rparr> of
        SerThrow e \<Rightarrow> Inl e
      | SerPromise \<Rightarrow> Inr (Some ''{}'')
      | SerValue v \<Rightarrow> Inr (json_stringify v))"

definition make_cached :: "serializer \<Rightarrow> int \<Rightarrow> string \<Rightarrow> thrown + cached_error" where
  "make_cached ser code msg = sum_bind (cached_body ser code msg)
     (\<lambda>b. Inr \<lparr> ce_status_line = status_line code, ce_body = b \<rparr>)"

definition build_error_cache :: "nat \<Rightarrow> serializer \<Rightarrow> thrown + error_cache" where
  "build_error_cache arity fn =
     sum_bind (make_serialize arity fn) (\<lambda>ser.
     sum_bind (make_cached ser 404 ''Route not found'') (\<lambda>c404.
     sum_bind (cached_body ser 405 ''Method Not Allowed'') (\<lambda>b405.
     sum_bind (make_cached ser 413 ''Payload Too Large'') (\<lambda>c413.
     sum_bind (make_cached ser 500 ''Internal Server Error'') (\<lambda>c500.
     sum_bind (make_cached ser 504 ''Gateway Timeout'') (\<lambda>c504.
       Inr \<lparr> ec_404 = c404, ec_405_body = b405, ec_413 = c413, ec_500 = c500, ec_504 = c504 \<rparr>))))))"

subsection \<open>NativeResponse\<close>

datatype wire =
    WStatus string | WHeader string string | WWrite string | WEnd "string option"

record native_response =
  nr_status_code :: int
  nr_headers_sent :: bool
  nr_aborted :: bool
  nr_is_streaming :: bool
  nr_method :: http_method
  nr_headers :: "(string, string) jsmap"
  nr_cookies :: "string list"
  nr_payload :: jsval
  nr_message :: "string option"
  nr_pending_sse :: "string list"
  nr_pending_bytes :: nat
  nr_flushing :: bool
  nr_heartbeat :: "int option"
  nr_wire :: "wire list"
  nr_writes :: "bool list"

definition nr_new :: "http_method \<Rightarrow> bool list \<Rightarrow> native_response" where
  "nr_new m ws = \<lparr> nr_status_code = 200, nr_headers_sent = False, nr_aborted = False, nr_is_streaming = False,
     nr_method = m, nr_headers = [], nr_cookies = [], nr_payload = JUndef, nr_message = None,
     nr_pending_sse = [], nr_pending_bytes = 0, nr_flushing = False, nr_heartbeat = None,
     nr_wire = [], nr_writes = ws \<rparr>"

definition plain_error :: "string \<Rightarrow> thrown" where
  "plain_error msg = ThrowErr (mk_error None msg)"

definition nr_status :: "int \<Rightarrow> native_response \<Rightarrow> native_response" where
  "nr_status code r = r\<lparr>nr_status_code := code\<rparr>"

definition nr_header :: "string \<Rightarrow> string \<Rightarrow> native_response act" where
  "nr_header k v r =
     (if header_injection k \<or> header_injection v then
        (Some (plain_error ''[Axiomify/native] header() rejected CR/LF in name or value''), r)
      else (None, r\<lparr>nr_headers := AList.update k v (nr_headers r)\<rparr>))"

definition nr_get_header :: "string \<Rightarrow> native_response \<Rightarrow> string option" where
  "nr_get_header k r = map_of (nr_headers r) k"

definition nr_remove_header :: "string \<Rightarrow> native_response \<Rightarrow> native_response" where
  "nr_remove_header k r = r\<lparr>nr_headers := AList.delete k (nr_headers r)\<rparr>"

definition nr_cookie :: "string \<Rightarrow> string \<Rightarrow> cookie_options \<Rightarrow> native_response act" where
  "nr_cookie name value opts r =
     (case serialize_cookie name value opts of
        Inl e \<Rightarrow> (Some (cookie_thrown e), r)
      | Inr line \<Rightarrow> (None, r\<lparr>nr_cookies := nr_cookies r @ [line]\<rparr>))"

definition nr_clear_cookie :: "string \<Rightarrow> cookie_options \<Rightarrow> native_response act" where
  "nr_clear_cookie name opts r = nr_cookie name [] (expired opts) r"

definition must_suppress_body :: "native_response \<Rightarrow> bool" where
  "must_suppress_body r \<longleftrightarrow> nr_method r = HEAD \<or> nr_status_code r \<in> {204, 205, 304}"

definition remove_header_ci :: "string \<Rightarrow> (string, string) jsmap \<Rightarrow> (string, string) jsmap" where
  "remove_header_ci name hs = filter (\<lambda>(k, v). to_lower k \<noteq> to_lower name) hs"

definition emit :: "wire list \<Rightarrow> native_response \<Rightarrow> native_response" where
  "emit ws r = r\<lparr>nr_wire := nr_wire r @ ws\<rparr>"

text \<open>The head of a response: the status line, some fixed headers, the headers and the cookies.\<close>

definition head_of :: "(string \<times> string) list \<Rightarrow> native_response \<Rightarrow> wire list" where
  "head_of fixed r = WStatus (status_line (nr_status_code r))
     # map (\<lambda>(k, v). WHeader k v) fixed @ map (\<lambda>(k, v). WHeader k v) (nr_headers r)
     @ map (WHeader ''Set-Cookie'') (nr_cookies r)"

definition nr_send :: "serializer \<Rightarrow> jsval \<Rightarrow> string option \<Rightarrow> native_response act" where
  "nr_send ser data msg r =
     (if nr_headers_sent r \<or> nr_aborted r then (None, r)
      else
        let r1 = r\<lparr>nr_headers_sent := True\<rparr> in
        case ser \<lparr> si_data = data, si_message = msg, si_status = nr_status_code r1,
                   si_is_error = (nr_status_code r1 \<ge> 400) \<rparr> of
          SerThrow e \<Rightarrow> (Some e, r1)
        | res \<Rightarrow>
            let payload = (case res of SerValue v \<Rightarrow> v | _ \<Rightarrow> JObj []);
                r2 = r1\<lparr>nr_payload := payload, nr_message := msg\<rparr>
            in (None, emit (head_of [(''Content-Type'', ''application/json'')] r2
                       @ [WEnd (if must_suppress_body r2 then Some [] else json_stringify payload)]) r2))"

definition nr_send_raw :: "jsval \<Rightarrow> string \<Rightarrow> native_response act" where
  "nr_send_raw payload ctype r =
     (if nr_headers_sent r \<or> nr_aborted r then (None, r)
      else if header_injection ctype then
        (Some (plain_error ''[Axiomify/native] sendRaw() rejected CR/LF in contentType (response splitting prevention).''), r)
      else
        let r1 = r\<lparr>nr_headers_sent := True\<rparr>
        in (None, emit (head_of [(''Content-Type'', ctype)] r1
                   @ [WEnd (Some (if must_suppress_body r1 then [] else js_string payload))]) r1))"

definition nr_stream :: "string \<Rightarrow> native_response act" where
  "nr_stream ctype r =
     (if nr_headers_sent r \<or> nr_aborted r then (None, r)
      else if header_injection ctype then
        (Some (plain_error ''[Axiomify/native] stream() rejected CR/LF in contentType (response splitting prevention).''), r)
      else
        let r1 = r\<lparr>nr_headers_sent := True, nr_headers := remove_header_ci ''content-length'' (nr_headers r)\<rparr>
        in if must_suppress_body r1 then
             (None, emit (head_of [(''Content-Type'', ctype)] r1 @ [WEnd (Some [])]) r1)
           else
             (let r2 = r1\<lparr>nr_is_streaming := True\<rparr>
              in (None, emit (head_of [(''Content-Type'', ctype), (''Transfer-Encoding'', ''chunked'')] r2) r2)))"

subsection \<open>Server-sent events\<close>

definition nr_sse_init :: "int option \<Rightarrow> native_response \<Rightarrow> native_response" where
  "nr_sse_init heartbeat r =
     (if nr_headers_sent r \<or> nr_aborted r then r
      else
        let r1 = emit (head_of [(''Content-Type'', ''text/event-stream''), (''Cache-Control'', ''no-cache''),
                   (''Connection'', ''keep-alive'')] (r\<lparr>nr_headers_sent := True\<rparr>)) (r\<lparr>nr_headers_sent := True\<rparr>)
        in r1\<lparr>nr_heartbeat := (if heartbeat = Some 0 then None else heartbeat), nr_is_streaming := True\<rparr>)"

definition sse_pending_byte_cap :: nat where
  "sse_pending_byte_cap = 1048576"

text \<open>\<open>_flushSse\<close>: the loop over the pending events, head first.\<close>

fun flush_loop :: "string list \<Rightarrow> native_response \<Rightarrow> bool \<times> native_response" where
  "flush_loop [] r = (True, r\<lparr>nr_pending_sse := []\<rparr>)"
| "flush_loop (c # cs) r =
     (let r1 = emit [WWrite c] (r\<lparr>nr_writes := tl (nr_writes r)\<rparr>)
      in if nr_writes r \<noteq> [] \<and> \<not> hd (nr_writes r)
         then (False, r1\<lparr>nr_flushing := True, nr_pending_sse := c # cs\<rparr>)
         else flush_loop cs (r1\<lparr>nr_pending_bytes := nr_pending_bytes r1 - length c\<rparr>))"

definition flush_sse :: "native_response \<Rightarrow> bool \<times> native_response" where
  "flush_sse r = (if nr_aborted r then (True, r) else flush_loop (nr_pending_sse r) r)"

definition nl :: string where "nl = [CHR 0x0A]"

definition sse_payload :: "jsval \<Rightarrow> string option \<Rightarrow> string" where
  "sse_payload data event =
     (case event of Some e \<Rightarrow> if e = [] then [] else ''event: '' @ e @ nl | None \<Rightarrow> [])
     @ (if data = JUndef \<or> data = JNull then []
        else let serialized = (case data of JStr s \<Rightarrow> s | _ \<Rightarrow> the (json_stringify data))
             in concat (map (\<lambda>l. ''data: '' @ l @ nl) (split_on (CHR 0x0A) serialized)))
     @ nl"

definition nr_sse_send :: "jsval \<Rightarrow> string option \<Rightarrow> native_response \<Rightarrow> native_response" where
  "nr_sse_send data event r =
     (if nr_aborted r then r
      else
        let r1 = (if nr_headers_sent r then r else nr_sse_init None r);
            payload = sse_payload data event
        in if nr_pending_bytes r1 + length payload > sse_pending_byte_cap then
             emit [WEnd None] (r1\<lparr>nr_aborted := True\<rparr>)
           else snd (flush_sse (r1\<lparr>nr_pending_sse := nr_pending_sse r1 @ [payload],
                                   nr_pending_bytes := nr_pending_bytes r1 + length payload\<rparr>)))"

text \<open>The callback registered with \<open>onWritable\<close>.\<close>

definition nr_on_writable :: "native_response \<Rightarrow> native_response" where
  "nr_on_writable r = (if nr_flushing r then snd (flush_sse (r\<lparr>nr_flushing := False\<rparr>)) else r)"

definition nr_abort :: "native_response \<Rightarrow> native_response" where
  "nr_abort r = r\<lparr>nr_aborted := True\<rparr>"

subsection \<open>What goes over the wire\<close>

text \<open>The calls on the socket form one response: at most one head, whose header names and values
  hold no CR, LF or NUL, before any body bytes.\<close>

abbreviation clean :: "string \<Rightarrow> bool" where
  "clean s \<equiv> \<not> header_injection s"

fun body_event :: "wire \<Rightarrow> bool" where
  "body_event (WWrite _) = True"
| "body_event (WEnd _) = True"
| "body_event _ = False"

fun headers_then_body :: "wire list \<Rightarrow> bool" where
  "headers_then_body (WHeader k v # ws) = (clean k \<and> clean v \<and> headers_then_body ws)"
| "headers_then_body ws = list_all body_event ws"

fun wire_ok :: "wire list \<Rightarrow> bool" where
  "wire_ok (WStatus s # ws) = (clean s \<and> headers_then_body ws)"
| "wire_ok ws = list_all body_event ws"

lemma body_event_cases: "body_event w \<Longrightarrow> (\<exists>s. w = WWrite s) \<or> (\<exists>b. w = WEnd b)"
  by (cases w) auto

lemma body_only: "list_all body_event ws \<Longrightarrow> headers_then_body ws \<and> wire_ok ws"
  by (cases ws) (auto dest!: body_event_cases)

lemma headers_then_body_Cons:
  "headers_then_body (v # vs) =
     (case v of WHeader k x \<Rightarrow> clean k \<and> clean x \<and> headers_then_body vs | _ \<Rightarrow> list_all body_event (v # vs))"
  by (cases v) auto

lemma headers_then_body_append:
  "list_all body_event ws \<Longrightarrow> headers_then_body vs \<Longrightarrow> headers_then_body (vs @ ws)"
  by (induction vs) (auto simp: body_only headers_then_body_Cons split: wire.splits)

lemma wire_ok_append: "wire_ok vs \<Longrightarrow> list_all body_event ws \<Longrightarrow> wire_ok (vs @ ws)"
proof (cases vs)
  case (Cons v vs')
  assume "wire_ok vs" "list_all body_event ws"
  with Cons show ?thesis by (cases v) (auto simp: headers_then_body_append)
qed (simp add: body_only)

lemma clean_append [simp]: "header_injection (s @ t) \<longleftrightarrow> header_injection s \<or> header_injection t"
  and clean_Nil [simp]: "clean []"
  and clean_Cons: "header_injection (c # s) \<longleftrightarrow> injection_char c \<or> header_injection s"
  by (auto simp: header_injection_def)

lemma injection_char_code:
  "injection_char c \<longleftrightarrow> (of_char c :: nat) = 13 \<or> (of_char c :: nat) = 10 \<or> (of_char c :: nat) = 0"
proof -
  have e: "c = d \<longleftrightarrow> (of_char c :: nat) = of_char d" for d by simp
  show ?thesis unfolding injection_char_def e[of "CHR 0x0D"] e[of "CHR 0x0A"] e[of "CHR 0x00"] by simp
qed

lemma clean_show_int: "clean (show_int i)"
  by (auto simp: header_injection_def list_ex_iff injection_char_code dest!: show_int_digit)

lemma clean_phrases: "list_all (\<lambda>(c, p). clean p) status_phrases"
  by (simp add: status_phrases_def clean_Cons injection_char_code)

lemma clean_status_line: "clean (status_line code)"
proof (cases "map_of status_phrases code")
  case None
  then show ?thesis by (simp add: status_line_def clean_show_int clean_Cons injection_char_code)
next
  case (Some p)
  then have "clean p" using clean_phrases by (auto simp: list_all_iff dest: map_of_SomeD)
  with Some show ?thesis by (simp add: status_line_def clean_show_int clean_Cons injection_char_code)
qed

text \<open>The invariant of a response.\<close>

definition nr_inv :: "native_response \<Rightarrow> bool" where
  "nr_inv r \<longleftrightarrow>
     (\<forall>(k, v) \<in> set (nr_headers r). clean k \<and> clean v) \<and> list_all clean (nr_cookies r)
     \<and> wire_ok (nr_wire r) \<and> (nr_headers_sent r \<or> nr_wire r = [] \<and> nr_pending_sse r = [])
     \<and> nr_pending_bytes r = sum_list (map length (nr_pending_sse r))
     \<and> nr_pending_bytes r \<le> sse_pending_byte_cap"

lemma headers_then_body_map:
  "\<forall>(k, v) \<in> set hs. clean k \<and> clean v \<Longrightarrow> headers_then_body ws \<Longrightarrow>
   headers_then_body (map (\<lambda>(k, v). WHeader k v) hs @ ws)"
  by (induction hs) auto

lemma headers_then_body_cookies:
  "list_all clean cs \<Longrightarrow> headers_then_body ws \<Longrightarrow> headers_then_body (map (WHeader ''Set-Cookie'') cs @ ws)"
  by (induction cs) (auto simp: clean_Cons injection_char_code)

lemma wire_ok_head:
  assumes "\<forall>(k, v) \<in> set fixed. clean k \<and> clean v" "\<forall>(k, v) \<in> set (nr_headers r). clean k \<and> clean v"
    and "list_all clean (nr_cookies r)" "list_all body_event ws"
  shows "wire_ok (head_of fixed r @ ws)"
  using assms by (simp add: head_of_def clean_status_line headers_then_body_map headers_then_body_cookies body_only)

lemma nr_inv_head:
  assumes "nr_inv r" "\<not> nr_headers_sent r" "\<forall>(k, v) \<in> set fixed. clean k \<and> clean v" "list_all body_event ws"
    and "nr_wire r' = head_of fixed r'' @ ws" "nr_headers r'' = nr_headers r" "nr_cookies r'' = nr_cookies r"
    and "nr_headers r' = nr_headers r" "nr_cookies r' = nr_cookies r" "nr_headers_sent r'"
    and "nr_pending_bytes r' = nr_pending_bytes r" "nr_pending_sse r' = nr_pending_sse r"
  shows "nr_inv r'"
  using assms wire_ok_head[of fixed r'' ws] by (simp add: nr_inv_def)

lemma nr_inv_status: "nr_inv (nr_status n r) = nr_inv r"
  and nr_inv_abort: "nr_inv (nr_abort r) = nr_inv r"
  by (simp_all add: nr_inv_def nr_status_def nr_abort_def)

lemma nr_inv_header: "nr_inv r \<Longrightarrow> nr_inv (snd (nr_header k v r))"
  using set_update_subset[of k v "nr_headers r"] by (auto simp: nr_inv_def nr_header_def)

lemma nr_inv_remove: "nr_inv r \<Longrightarrow> nr_inv (nr_remove_header k r)"
  by (auto simp: nr_inv_def nr_remove_header_def set_delete)

lemma serialized_clean: "serialize_cookie n v opts = Inr line \<Longrightarrow> clean line"
proof -
  assume "serialize_cookie n v opts = Inr line"
  from serialize_cookie_clean[OF this] show ?thesis
    by (auto simp: header_injection_def list_ex_iff injection_char_def)
qed

lemma nr_inv_cookie: "nr_inv r \<Longrightarrow> nr_inv (snd (nr_cookie n v opts r))"
  by (auto simp: nr_inv_def nr_cookie_def serialized_clean split: sum.splits)

lemma content_type_clean [simp]: "clean ''Content-Type''" "clean ''application/json''" "clean ''Transfer-Encoding''"
   "clean ''chunked''" "clean ''text/event-stream''" "clean ''Cache-Control''" "clean ''no-cache''" "clean ''Connection''" "clean ''keep-alive''"
  by (simp_all add: clean_Cons injection_char_code)

lemma head_of_update [simp]: "head_of fixed (r\<lparr>nr_payload := p, nr_message := m\<rparr>) = head_of fixed r"
  "head_of fixed (r\<lparr>nr_headers_sent := b\<rparr>) = head_of fixed r"
  by (simp_all add: head_of_def)

lemma nr_inv_send: "nr_inv r \<Longrightarrow> nr_inv (snd (nr_send ser d m r))"
  unfolding nr_send_def Let_def
  by (auto simp: emit_def nr_inv_def intro!: wire_ok_head split: ser_result.splits)

lemma nr_inv_send_raw: "nr_inv r \<Longrightarrow> nr_inv (snd (nr_send_raw p ct r))"
  unfolding nr_send_raw_def Let_def
  by (auto simp: emit_def nr_inv_def intro!: wire_ok_head split: ser_result.splits)

lemma remove_header_ci_clean:
  "\<forall>(k, v) \<in> set hs. clean k \<and> clean v \<Longrightarrow> \<forall>(k, v) \<in> set (remove_header_ci n hs). clean k \<and> clean v"
  by (auto simp: remove_header_ci_def)

lemma nr_inv_stream: "nr_inv r \<Longrightarrow> nr_inv (snd (nr_stream ct r))"
proof (cases "nr_headers_sent r \<or> nr_aborted r \<or> header_injection ct")
  case False
  assume inv: "nr_inv r"
  let ?r1 = "r\<lparr>nr_headers_sent := True, nr_headers := remove_header_ci ''content-length'' (nr_headers r)\<rparr>"
  have h: "\<forall>(k, v) \<in> set (nr_headers ?r1). clean k \<and> clean v"
    using inv remove_header_ci_clean[of "nr_headers r" "''content-length''"] by (simp add: nr_inv_def)
  have "wire_ok (head_of [(''Content-Type'', ct)] ?r1 @ [WEnd (Some [])])"
    using h inv False by (intro wire_ok_head) (simp_all add: nr_inv_def)
  moreover have "wire_ok (head_of [(''Content-Type'', ct), (''Transfer-Encoding'', ''chunked'')] (?r1\<lparr>nr_is_streaming := True\<rparr>) @ [])"
    using h inv False by (intro wire_ok_head) (simp_all add: nr_inv_def)
  ultimately show ?thesis
    using False inv h by (simp add: nr_stream_def Let_def emit_def nr_inv_def)
qed (auto simp: nr_stream_def Let_def)

lemma nr_inv_sse_init: "nr_inv r \<Longrightarrow> nr_inv (nr_sse_init hb r)"
  unfolding nr_sse_init_def Let_def
  using wire_ok_head[of _ _ "[]"] by (auto simp: emit_def nr_inv_def)

lemma flush_loop_inv:
  assumes "flush_loop cs r = (b, r')" "nr_pending_bytes r = sum_list (map length cs)"
  shows "nr_headers r' = nr_headers r \<and> nr_cookies r' = nr_cookies r \<and> nr_headers_sent r' = nr_headers_sent r
    \<and> (\<exists>ws. list_all body_event ws \<and> nr_wire r' = nr_wire r @ ws)
    \<and> nr_pending_bytes r' = sum_list (map length (nr_pending_sse r'))
    \<and> nr_pending_bytes r' \<le> nr_pending_bytes r \<and> suffix (nr_pending_sse r') cs"
  using assms
proof (induction cs r arbitrary: b r' rule: flush_loop.induct)
  case (1 r)
  then show ?case by auto
next
  case (2 c cs r)
  let ?r = "emit [WWrite c] (r\<lparr>nr_writes := tl (nr_writes r)\<rparr>)"
  show ?case
  proof (cases "nr_writes r \<noteq> [] \<and> \<not> hd (nr_writes r)")
    case True
    with 2(2,3) show ?thesis by (auto simp: emit_def intro: exI[of _ "[c]"])
  next
    case False
    let ?r2 = "?r\<lparr>nr_pending_bytes := nr_pending_bytes ?r - length c\<rparr>"
    have f: "flush_loop cs ?r2 = (b, r')" using 2(2) False by (simp add: Let_def)
    have b: "nr_pending_bytes ?r2 = sum_list (map length cs)" using 2(3) by (simp add: emit_def)
    note ih = 2(1)[OF refl False f b]
    then obtain ws where "list_all body_event ws" "nr_wire r' = nr_wire ?r2 @ ws" by blast
    then have "\<exists>ws. list_all body_event ws \<and> nr_wire r' = nr_wire r @ ws"
      by (intro exI[of _ "WWrite c # ws"]) (simp add: emit_def)
    with ih b 2(3) show ?thesis by (simp add: emit_def suffix_ConsI)
  qed
qed

lemma nr_inv_flush:
  assumes "nr_inv r" "nr_headers_sent r \<or> nr_aborted r"
  shows "nr_inv (snd (flush_sse r))"
proof (cases "nr_aborted r")
  case False
  obtain b r' where f: "flush_loop (nr_pending_sse r) r = (b, r')" by force
  have "nr_pending_bytes r = sum_list (map length (nr_pending_sse r))" using assms by (simp add: nr_inv_def)
  note fl = flush_loop_inv[OF f this]
  then obtain ws where "list_all body_event ws" "nr_wire r' = nr_wire r @ ws" by blast
  then have "wire_ok (nr_wire r')" using assms by (simp add: wire_ok_append nr_inv_def list_all_iff)
  with fl assms f False show ?thesis by (auto simp: nr_inv_def flush_sse_def)
qed (use assms in \<open>simp add: flush_sse_def\<close>)

lemma nr_inv_sse_send: "nr_inv r \<Longrightarrow> nr_inv (nr_sse_send d e r)"
proof -
  assume inv: "nr_inv r"
  define r1 where "r1 = (if nr_headers_sent r then r else nr_sse_init None r)"
  have i1: "nr_inv r1" using inv nr_inv_sse_init by (simp add: r1_def)
  have s1: "\<not> nr_aborted r \<Longrightarrow> nr_headers_sent r1" by (simp add: r1_def nr_sse_init_def emit_def)
  have "nr_inv (emit [WEnd None] (r1\<lparr>nr_aborted := True\<rparr>))" if "\<not> nr_aborted r"
    using i1 s1[OF that] by (simp add: nr_inv_def emit_def wire_ok_append)
  moreover have "nr_inv (snd (flush_sse (r1\<lparr>nr_pending_sse := nr_pending_sse r1 @ [p],
      nr_pending_bytes := nr_pending_bytes r1 + length p\<rparr>)))"
    if "\<not> nr_aborted r" "nr_pending_bytes r1 + length p \<le> sse_pending_byte_cap" for p
    using i1 s1[OF that(1)] that(2) by (intro nr_inv_flush) (auto simp: nr_inv_def)
  ultimately show ?thesis
    using inv by (simp add: nr_sse_send_def Let_def r1_def[symmetric])
qed

lemma nr_inv_on_writable: "nr_inv r \<Longrightarrow> nr_inv (nr_on_writable r)"
proof (cases "nr_headers_sent r")
  case True
  assume "nr_inv r"
  then have "nr_inv (r\<lparr>nr_flushing := False\<rparr>)" by (simp add: nr_inv_def)
  with True \<open>nr_inv r\<close> show ?thesis by (simp add: nr_on_writable_def nr_inv_flush)
next
  case False
  assume "nr_inv r"
  with False have "nr_pending_sse r = []" by (simp add: nr_inv_def)
  with \<open>nr_inv r\<close> show ?thesis
    by (simp add: nr_on_writable_def nr_inv_def flush_sse_def)
qed

subsection \<open>Any sequence of operations\<close>

datatype nr_op =
    OpStatus int | OpHeader string string | OpRemoveHeader string
  | OpCookie string string cookie_options | OpClearCookie string cookie_options
  | OpSend jsval "string option" | OpSendRaw jsval string | OpStream string
  | OpSseInit "int option" | OpSseSend jsval "string option" | OpWritable | OpAbort

definition nr_step :: "serializer \<Rightarrow> nr_op \<Rightarrow> native_response \<Rightarrow> native_response" where
  "nr_step ser op r = (case op of
       OpStatus n \<Rightarrow> nr_status n r
     | OpHeader k v \<Rightarrow> snd (nr_header k v r)
     | OpRemoveHeader k \<Rightarrow> nr_remove_header k r
     | OpCookie n v opts \<Rightarrow> snd (nr_cookie n v opts r)
     | OpClearCookie n opts \<Rightarrow> snd (nr_clear_cookie n opts r)
     | OpSend d m \<Rightarrow> snd (nr_send ser d m r)
     | OpSendRaw d ct \<Rightarrow> snd (nr_send_raw d ct r)
     | OpStream ct \<Rightarrow> snd (nr_stream ct r)
     | OpSseInit hb \<Rightarrow> nr_sse_init hb r
     | OpSseSend d e \<Rightarrow> nr_sse_send d e r
     | OpWritable \<Rightarrow> nr_on_writable r
     | OpAbort \<Rightarrow> nr_abort r)"

definition nr_run :: "serializer \<Rightarrow> nr_op list \<Rightarrow> native_response \<Rightarrow> native_response" where
  "nr_run ser ops r = fold (nr_step ser) ops r"

lemma nr_inv_step: "nr_inv r \<Longrightarrow> nr_inv (nr_step ser op r)"
  by (cases op)
     (simp_all add: nr_step_def nr_inv_status nr_inv_header nr_inv_remove nr_inv_cookie nr_inv_send nr_inv_send_raw
        nr_inv_stream nr_inv_sse_init nr_inv_sse_send nr_inv_on_writable nr_inv_abort nr_clear_cookie_def)

lemma nr_inv_run: "nr_inv r \<Longrightarrow> nr_inv (nr_run ser ops r)"
  unfolding nr_run_def by (induction ops arbitrary: r) (auto simp: nr_inv_step)

lemma nr_inv_new: "nr_inv (nr_new m ws)"
  by (simp add: nr_inv_def nr_new_def sse_pending_byte_cap_def)

text \<open>C3. No response splitting: whatever the application does with a response, in any order and
  with any strings, the calls on the socket are at most one head (one status line, then headers
  none of whose names or values holds a CR, LF or NUL, cookies and content types included) before
  the body; nothing is sent before the response counts as sent.\<close>

theorem native_no_response_splitting:
  "wire_ok (nr_wire (nr_run ser ops (nr_new m ws)))
   \<and> (nr_headers_sent (nr_run ser ops (nr_new m ws)) \<or> nr_wire (nr_run ser ops (nr_new m ws)) = [])"
  using nr_inv_run[OF nr_inv_new, of ser ops m ws] by (auto simp: nr_inv_def)

text \<open>C40. The events buffered for a client that does not read are bounded: the byte counter is
  exactly the size of the pending queue, and stays within the cap of 1 MiB, whatever the socket
  accepts and refuses.\<close>

theorem native_sse_bounded:
  "sum_list (map length (nr_pending_sse (nr_run ser ops (nr_new m ws)))) \<le> 1048576
   \<and> nr_pending_bytes (nr_run ser ops (nr_new m ws))
     = sum_list (map length (nr_pending_sse (nr_run ser ops (nr_new m ws))))"
  using nr_inv_run[OF nr_inv_new, of ser ops m ws] by (auto simp: nr_inv_def sse_pending_byte_cap_def)

subsection \<open>The contract of an adapter, kept\<close>

definition native_adapter :: "serializer \<Rightarrow> native_response adapter" where
  "native_adapter ser = \<lparr> ad_status = nr_status, ad_status_code = nr_status_code, ad_header = nr_header,
     ad_send = nr_send ser, ad_headers_sent = nr_headers_sent, ad_is_streaming = nr_is_streaming \<rparr>"

definition nr_open :: "native_response \<Rightarrow> bool" where
  "nr_open r \<longleftrightarrow> \<not> nr_headers_sent r \<and> \<not> nr_aborted r \<and> \<not> nr_is_streaming r \<and> nr_wire r = []"

definition body_text :: "serializer \<Rightarrow> http_method \<Rightarrow> int \<Rightarrow> jsval \<Rightarrow> string option \<Rightarrow> string option" where
  "body_text ser meth code data msg =
     (if meth = HEAD \<or> code \<in> {204, 205, 304} then Some []
      else json_stringify (case ser \<lparr> si_data = data, si_message = msg, si_status = code, si_is_error = (code \<ge> 400) \<rparr> of
             SerValue v \<Rightarrow> v | _ \<Rightarrow> JObj []))"

definition nr_renders :: "serializer \<Rightarrow> native_response \<Rightarrow> int \<Rightarrow> jsval \<Rightarrow> string option \<Rightarrow> bool" where
  "nr_renders ser r code data msg \<longleftrightarrow> nr_wire r \<noteq> [] \<and> hd (nr_wire r) = WStatus (status_line code)
     \<and> list_all (\<lambda>w. case w of WHeader _ _ \<Rightarrow> True | _ \<Rightarrow> False) (butlast (tl (nr_wire r)))
     \<and> last (nr_wire r) = WEnd (body_text ser (nr_method r) code data msg)"

definition nr_has_header :: "native_response \<Rightarrow> string \<Rightarrow> string \<Rightarrow> bool" where
  "nr_has_header r k v \<longleftrightarrow> map_of (nr_headers r) k = Some v \<and> (nr_wire r = [] \<or> WHeader k v \<in> set (nr_wire r))"

lemma nr_send_open:
  assumes "nr_open r" "nr_send ser d m r = (None, r')"
  shows "nr_headers_sent r' \<and> \<not> nr_is_streaming r' \<and> nr_headers r' = nr_headers r \<and> nr_method r' = nr_method r
    \<and> nr_wire r' = head_of [(''Content-Type'', ''application/json'')] r @ [WEnd (body_text ser (nr_method r) (nr_status_code r) d m)]"
  using assms
  by (auto simp: nr_send_def nr_open_def Let_def emit_def must_suppress_body_def body_text_def head_of_def
      split: ser_result.splits if_splits)

lemma nr_send_answers:
  "\<not> nr_headers_sent r \<Longrightarrow> \<not> nr_aborted r \<Longrightarrow> nr_headers_sent (snd (nr_send ser d m r))"
  by (auto simp: nr_send_def Let_def emit_def split: ser_result.splits)

lemma nr_send_renders:
  assumes "nr_open r" "nr_send ser d m r = (None, r')"
  shows "nr_renders ser r' (nr_status_code r) d m"
  using nr_send_open[OF assms] by (auto simp: nr_renders_def head_of_def butlast_append list_all_iff)

lemma nr_send_has_header:
  assumes "nr_open r" "nr_send ser d m r = (None, r')" "nr_has_header r k v"
  shows "nr_has_header r' k v"
proof -
  have "(k, v) \<in> set (nr_headers r)" using assms(3) by (auto simp: nr_has_header_def dest: map_of_SomeD)
  then have "WHeader k v \<in> set (nr_wire r')"
    using nr_send_open[OF assms(1,2)] by (force simp: head_of_def)
  with assms(3) nr_send_open[OF assms(1,2)] show ?thesis by (simp add: nr_has_header_def)
qed

interpretation native: response_adapter "native_adapter ser" nr_open "nr_renders ser" nr_has_header for ser
proof (unfold_locales, goal_cases)
  case (3 r d m)
  then show ?case by (simp add: native_adapter_def nr_send_def)
next
  case (8 k v r)
  then show ?case by (auto simp: native_adapter_def nr_header_def nr_open_def nr_has_header_def)
next
  case (9 r d m r')
  then show ?case using nr_send_open nr_send_renders by (auto simp: native_adapter_def)
next
  case (10 r d m r' k v)
  then show ?case using nr_send_has_header by (auto simp: native_adapter_def)
qed (auto simp: native_adapter_def nr_open_def nr_status_def nr_has_header_def)

lemma native_send_total:
  assumes "\<And>i e. ser i \<noteq> SerThrow e"
  shows "fst (ad_send (native_adapter ser) d m r) = None"
  using assms by (auto simp: native_adapter_def nr_send_def Let_def split: ser_result.splits)

text \<open>A request for a path with no route gets exactly one response on the native adapter:
  status 404 with the serialized error envelope (no body for HEAD).\<close>

theorem native_not_found:
  assumes "dc_adapter c = native_adapter ser" "dc_not_found c = None" "\<And>i e. ser i \<noteq> SerThrow e"
    and "nr_open (w_res w)" "w_hooks w = hooks_new"
    and "fst (router_lookup (rq_method (w_req w)) (rq_path (w_req w)) (obj_of (rq_params (w_req w))) (w_router w)) = NotFound"
  shows "\<exists>w'. dispatch_handle c w = (None, w') \<and> nr_renders ser (w_res w') 404 JNull (Some ''Route not found'')"
  using native.dispatch_not_found[OF assms(1,2,4,5) native_send_total[OF assms(3)] assms(6)] .

text \<open>A request whose path has routes, but not for its method, gets a 405 whose \<open>Allow\<close> header
  lists the methods the router reported and \<open>OPTIONS\<close>.\<close>

theorem native_wrong_method:
  assumes "dc_adapter c = native_adapter ser" "dc_method_not_allowed c = None" "\<And>i e. ser i \<noteq> SerThrow e"
    and "nr_open (w_res w)" "w_hooks w = hooks_new"
    and "fst (router_lookup (rq_method (w_req w)) (rq_path (w_req w)) (obj_of (rq_params (w_req w))) (w_router w)) = MethodNotAllowed ms"
  shows "\<exists>w'. dispatch_handle c w = (None, w') \<and> nr_renders ser (w_res w') 405 JNull (Some ''Method Not Allowed'')
    \<and> nr_has_header (w_res w') ''Allow'' (allow_value ms)"
  using native.dispatch_wrong_method[OF assms(1,2,4,5) native_send_total[OF assms(3)] assms(6)] .

text \<open>In production the response to a failing handler depends on the error only through its
  status, and for a client error through its message: a 5xx answers with the fixed generic body,
  whatever message, stack, issues or fields the error carries.\<close>

theorem native_error_opaque:
  assumes "dc_adapter c = native_adapter ser" "dc_production c" "\<And>i e. ser i \<noteq> SerThrow e"
    and "nr_open (w_res w)" "w_hooks w = hooks_new"
    and "route_and_execute c w = (Some (ThrowErr e), w1)" "nr_open (w_res w1)" "w_hooks w1 = hooks_new"
    and "\<not> err_validation e"
  shows "\<exists>w'. dispatch_handle c w = (None, w') \<and>
     (if error_status e < 500 then nr_renders ser (w_res w') (error_status e) JNull (Some (error_message e))
      else nr_renders ser (w_res w') (error_status e) internal_error_body (Some ''Internal Server Error''))"
  using native.dispatch_handler_error[OF assms(1,2,4,5) native_send_total[OF assms(3)] assms(6-9)] .

subsection \<open>A concrete request\<close>

definition envelope :: serializer where
  "envelope i = SerValue (JObj [(''data'', si_data i), (''isError'', JBool (si_is_error i))])"

definition demo_request :: "http_method \<Rightarrow> string \<Rightarrow> request" where
  "demo_request m p = \<lparr> rq_method = m, rq_path = p, rq_headers = [], rq_ip = ''127.0.0.1'', rq_body = JUndef,
     rq_query = JObj [], rq_params = JObj [], rq_aborted = False \<rparr>"

definition demo_route :: "unit route_def" where
  "demo_route = \<lparr> rt_method = GET, rt_path = ''/a'', rd_oid = 0, rd_ext = () \<rparr>"

definition demo_world :: "http_method \<Rightarrow> string \<Rightarrow> (native_response, unit) req_world" where
  "demo_world m p = \<lparr> w_hooks = hooks_new, w_log = [], w_req = demo_request m p, w_res = nr_new m [],
     w_vsent = False, w_close_deferred = False, w_router = snd (router_register demo_route (new_router None)) \<rparr>"

text \<open>Function 0 is a handler that throws.\<close>

definition demo_error :: js_error where
  "demo_error = mk_error None ''db password is hunter2''"

definition demo_ctx :: "(native_response, unit) dispatch_ctx" where
  "demo_ctx = \<lparr> dc_adapter = native_adapter envelope, dc_call = (\<lambda>f a w. (Some (ThrowErr demo_error), w)),
     dc_compiled = [0 \<mapsto> \<lparr> cp_pipeline = [0], cp_has_response_schema = False \<rparr>],
     dc_not_found = None, dc_method_not_allowed = None, dc_production = True \<rparr>"

lemma demo_ctx_simps [simp]: "dc_adapter demo_ctx = native_adapter envelope" "dc_not_found demo_ctx = None"
  "dc_method_not_allowed demo_ctx = None" "dc_production demo_ctx"
  by (simp_all add: demo_ctx_def)

lemma demo_route_oid [simp]: "rd_oid demo_route = 0"
  by (simp add: demo_route_def)

lemma envelope_total: "envelope i \<noteq> SerThrow e"
  by (simp add: envelope_def)

lemma demo_world_simps [simp]: "nr_open (w_res (demo_world m p))" "w_hooks (demo_world m p) = hooks_new"
  by (simp_all add: demo_world_def nr_open_def nr_new_def)

theorem native_not_found_witness:
  "\<exists>w'. dispatch_handle demo_ctx (demo_world GET ''/b'') = (None, w')
     \<and> nr_renders envelope (w_res w') 404 JNull (Some ''Route not found'')"
  by (rule native_not_found[OF _ _ envelope_total]) (simp_all, code_simp)

theorem native_wrong_method_witness:
  "\<exists>w'. dispatch_handle demo_ctx (demo_world POST ''/a'') = (None, w')
     \<and> nr_renders envelope (w_res w') 405 JNull (Some ''Method Not Allowed'')
     \<and> nr_has_header (w_res w') ''Allow'' (allow_value [GET, HEAD])"
  by (rule native_wrong_method[OF _ _ envelope_total]) (simp_all, code_simp)

theorem native_error_opaque_witness:
  "\<exists>w'. dispatch_handle demo_ctx (demo_world GET ''/a'') = (None, w')
     \<and> nr_renders envelope (w_res w') 500 internal_error_body (Some ''Internal Server Error'')"
proof -
  let ?w = "demo_world GET ''/a''"
  let ?w1 = "snd (route_and_execute demo_ctx ?w)"
  have lk: "fst (router_lookup GET ''/a'' [] (snd (router_register demo_route (new_router None)))) = Matched demo_route []"
    by code_simp
  obtain R where R: "router_lookup GET ''/a'' [] (snd (router_register demo_route (new_router None))) = (Matched demo_route [], R)"
    using lk by (metis prod.collapse)
  have r: "route_and_execute demo_ctx ?w = (Some (ThrowErr demo_error), ?w1)"
    "nr_open (w_res ?w1)" "w_hooks ?w1 = hooks_new"
    by (simp_all add: route_and_execute_def R demo_world_def demo_request_def obj_of_def execute_matched_route_def
        hooks_new_def after_pre_handler_def demo_ctx_def run_pipeline_def seq_act_def
        nr_open_def nr_new_def)
  have "error_status demo_error = 500" "\<not> err_validation demo_error"
    by (simp_all add: demo_error_def mk_error_def error_status_def)
  with native_error_opaque[of demo_ctx envelope ?w demo_error ?w1, OF _ _ envelope_total _ _ r]
  show ?thesis by simp
qed

text \<open>An exception of the serializer is not answered: \<open>send\<close> has already marked the response
  sent when it calls the serializer, so the error response that the dispatcher then tries, like
  any later \<open>send\<close>, \<open>sendRaw\<close> or \<open>stream\<close>, writes nothing to the socket.\<close>

theorem native_serializer_throw_unanswered:
  assumes "nr_open r"
    and "ser \<lparr> si_data = d, si_message = m, si_status = nr_status_code r, si_is_error = (nr_status_code r \<ge> 400) \<rparr> = SerThrow e"
    and "list_all (\<lambda>op. \<forall>x y. op \<noteq> OpSseSend x y \<and> op \<noteq> OpWritable) ops"
  shows "fst (nr_send ser d m r) = Some e \<and> nr_wire (nr_run ser' ops (snd (nr_send ser d m r))) = []"
proof -
  have s: "nr_send ser d m r = (Some e, r\<lparr>nr_headers_sent := True\<rparr>)"
    using assms(1,2) by (simp add: nr_send_def nr_open_def)
  have step: "nr_headers_sent (nr_step ser' op q) \<and> nr_wire (nr_step ser' op q) = []"
    if "\<forall>x y. op \<noteq> OpSseSend x y \<and> op \<noteq> OpWritable" "nr_headers_sent q \<and> nr_wire q = []" for op q
    using that
    by (cases op) (auto simp: nr_step_def nr_status_def nr_header_def nr_remove_header_def nr_cookie_def nr_clear_cookie_def
       nr_send_def nr_send_raw_def nr_stream_def nr_sse_init_def nr_abort_def split: sum.splits)
  have "nr_headers_sent q \<and> nr_wire q = [] \<Longrightarrow> nr_wire (nr_run ser' ops q) = []" for q
    using assms(3) unfolding nr_run_def
  proof (induction ops arbitrary: q)
    case (Cons op ops)
    then show ?case using step[of op q] by simp
  qed simp
  with s assms(1) show ?thesis by (simp add: nr_open_def)
qed

theorem native_serializer_throw_unanswered_witness:
  "nr_wire (nr_run envelope [OpStatus 500, OpSend internal_error_body None]
     (snd (nr_send (\<lambda>i. SerThrow ThrowNullish) JNull None (nr_new GET [])))) = []"
  using native_serializer_throw_unanswered[of "nr_new GET []" "\<lambda>i. SerThrow ThrowNullish" JNull None ThrowNullish
      "[OpStatus 500, OpSend internal_error_body None]" envelope]
  by (simp add: nr_open_def nr_new_def)

end
