(* ===== verification/Cache_Store.thy ===== *)
theory Cache_Store
  imports Prelude
begin

text \<open>
  \<open>packages/cache/src/store.ts\<close>: the cache entry, the contract of a cache backend (the locale
  \<open>cache_store\<close>), and \<open>MemoryCacheStore\<close>, the in-process LRU store. Times are milliseconds;
  \<open>now\<close> is the value of \<open>Date.now()\<close> at the call, and lifetimes are whole seconds. The options
  \<open>maxEntries\<close> and \<open>maxBytes\<close> are natural numbers. The sweep timer is the operation \<open>mem_sweep\<close>,
  called at any time.
\<close>

record cache_entry =
  ce_payload :: string
  ce_status :: int
  ce_content_type :: string
  ce_etag :: "string option"
  ce_stored_at :: int
  ce_ttl_ms :: int
  ce_swr_ms :: int
  ce_vary :: "(string, string) jsmap option"

record mem_record =
  mr_entry :: cache_entry
  mr_expires :: int
  mr_bytes :: nat

record mem_store =
  ms_records :: "(string, mem_record) jsmap"
  ms_locks :: "(string, int) jsmap"
  ms_bytes :: nat
  ms_max_entries :: nat
  ms_max_bytes :: nat

definition mem_new :: "nat option \<Rightarrow> nat option \<Rightarrow> mem_store" where
  "mem_new entries bytes = \<lparr> ms_records = [], ms_locks = [], ms_bytes = 0,
     ms_max_entries = (case entries of Some n \<Rightarrow> n | None \<Rightarrow> 1000),
     ms_max_bytes = (case bytes of Some n \<Rightarrow> n | None \<Rightarrow> 32 * 1024 * 1024) \<rparr>"

text \<open>\<open>Buffer.byteLength\<close>, the length of a string in UTF-8.\<close>

definition byte_length :: "string \<Rightarrow> nat" where
  "byte_length s = sum_list (map (\<lambda>c. if (of_char c :: nat) < 128 then 1 else 2) s)"

definition entry_overhead_bytes :: nat where
  "entry_overhead_bytes = 200"

definition entry_bytes :: "string \<Rightarrow> cache_entry \<Rightarrow> nat" where
  "entry_bytes k e = byte_length (ce_payload e) + length k + entry_overhead_bytes"

text \<open>\<open>records.delete(k)\<close> with the byte count of the record.\<close>

definition mem_drop :: "string \<Rightarrow> mem_record \<Rightarrow> mem_store \<Rightarrow> mem_store" where
  "mem_drop k rec s = s\<lparr> ms_records := AList.delete k (ms_records s), ms_bytes := ms_bytes s - mr_bytes rec \<rparr>"

definition mem_get :: "int \<Rightarrow> string \<Rightarrow> mem_store \<Rightarrow> cache_entry option \<times> mem_store" where
  "mem_get now k s =
     (case map_of (ms_records s) k of
        None \<Rightarrow> (None, s)
      | Some rec \<Rightarrow>
          if mr_expires rec \<le> now then (None, mem_drop k rec s)
          else (Some (mr_entry rec), s\<lparr> ms_records := AList.delete k (ms_records s) @ [(k, rec)] \<rparr>))"

function mem_evict :: "mem_store \<Rightarrow> mem_store" where
  "mem_evict s =
     (if length (ms_records s) > ms_max_entries s \<or> ms_bytes s > ms_max_bytes s then
        (case ms_records s of
           [] \<Rightarrow> s
         | (oldest, rec) # _ \<Rightarrow> mem_evict (mem_drop oldest rec s))
      else s)"
  by auto
termination
  by (relation "measure (\<lambda>s. length (ms_records s))")
     (auto simp: mem_drop_def delete_as_filter le_imp_less_Suc)

declare mem_evict.simps [simp del]

definition mem_set :: "int \<Rightarrow> string \<Rightarrow> cache_entry \<Rightarrow> int \<Rightarrow> mem_store \<Rightarrow> mem_store" where
  "mem_set now k e ttl s =
     (let bytes = entry_bytes k e
      in if bytes > ms_max_bytes s then s
         else
           let s1 = (case map_of (ms_records s) k of Some prev \<Rightarrow> mem_drop k prev s | None \<Rightarrow> s);
               rec = \<lparr> mr_entry = e, mr_expires = now + ttl * 1000, mr_bytes = bytes \<rparr>;
               s2 = s1\<lparr> ms_records := AList.update k rec (ms_records s1), ms_bytes := ms_bytes s1 + bytes \<rparr>
           in mem_evict s2)"

definition mem_delete :: "string \<Rightarrow> mem_store \<Rightarrow> mem_store" where
  "mem_delete k s = (case map_of (ms_records s) k of None \<Rightarrow> s | Some rec \<Rightarrow> mem_drop k rec s)"

definition mem_clear :: "mem_store \<Rightarrow> mem_store" where
  "mem_clear s = s\<lparr> ms_records := [], ms_locks := [], ms_bytes := 0 \<rparr>"

text \<open>Deleting from the map while iterating over it: every record is visited once.\<close>

fun mem_drop_where :: "(string \<Rightarrow> mem_record \<Rightarrow> bool) \<Rightarrow> (string \<times> mem_record) list \<Rightarrow> mem_store \<Rightarrow> mem_store" where
  "mem_drop_where P [] s = s"
| "mem_drop_where P ((k, rec) # rs) s = mem_drop_where P rs (if P k rec then mem_drop k rec s else s)"

definition mem_delete_by_prefix :: "string \<Rightarrow> mem_store \<Rightarrow> mem_store" where
  "mem_delete_by_prefix p s = mem_drop_where (\<lambda>k rec. starts_with k p) (ms_records s) s"

definition mem_acquire :: "int \<Rightarrow> string \<Rightarrow> int \<Rightarrow> mem_store \<Rightarrow> bool \<times> mem_store" where
  "mem_acquire now k ttl s =
     (case map_of (ms_locks s) k of
        Some until \<Rightarrow> if until > now then (False, s)
                      else (True, s\<lparr> ms_locks := AList.update k (now + ttl * 1000) (ms_locks s) \<rparr>)
      | None \<Rightarrow> (True, s\<lparr> ms_locks := AList.update k (now + ttl * 1000) (ms_locks s) \<rparr>))"

definition mem_release :: "string \<Rightarrow> mem_store \<Rightarrow> mem_store" where
  "mem_release k s = s\<lparr> ms_locks := AList.delete k (ms_locks s) \<rparr>"

definition mem_sweep :: "int \<Rightarrow> mem_store \<Rightarrow> mem_store" where
  "mem_sweep now s =
     (let s1 = mem_drop_where (\<lambda>k rec. mr_expires rec \<le> now) (ms_records s) s
      in s1\<lparr> ms_locks := filter (\<lambda>(k, until). \<not> until \<le> now) (ms_locks s1) \<rparr>)"

subsection \<open>The contract of a cache backend\<close>

text \<open>\<open>holds s k e\<close> says that the store may answer a lookup of \<open>k\<close> with \<open>e\<close>. A backend may forget
  entries at any time; what it must not do is invent one, move one to another key, or answer
  with one that was deleted.\<close>

locale cache_store =
  fixes get :: "int \<Rightarrow> string \<Rightarrow> 's \<Rightarrow> cache_entry option \<times> 's"
    and set_entry :: "int \<Rightarrow> string \<Rightarrow> cache_entry \<Rightarrow> int \<Rightarrow> 's \<Rightarrow> 's"
    and del :: "string \<Rightarrow> 's \<Rightarrow> 's"
    and del_prefix :: "string \<Rightarrow> 's \<Rightarrow> 's"
    and clear :: "'s \<Rightarrow> 's"
    and acquire :: "int \<Rightarrow> string \<Rightarrow> int \<Rightarrow> 's \<Rightarrow> bool \<times> 's"
    and release :: "string \<Rightarrow> 's \<Rightarrow> 's"
    and inv :: "'s \<Rightarrow> bool"
    and holds :: "'s \<Rightarrow> string \<Rightarrow> cache_entry \<Rightarrow> bool"
  assumes get_inv: "inv s \<Longrightarrow> inv (snd (get now k s))"
    and set_inv: "inv s \<Longrightarrow> inv (set_entry now k e ttl s)"
    and del_inv: "inv s \<Longrightarrow> inv (del k s)"
    and del_prefix_inv: "inv s \<Longrightarrow> inv (del_prefix p s)"
    and clear_inv: "inv s \<Longrightarrow> inv (clear s)"
    and acquire_inv: "inv s \<Longrightarrow> inv (snd (acquire now k ttl s))"
    and release_inv: "inv s \<Longrightarrow> inv (release k s)"
    and get_holds: "inv s \<Longrightarrow> get now k s = (Some e, s') \<Longrightarrow> holds s k e"
    and get_keeps: "inv s \<Longrightarrow> holds (snd (get now k s)) k' e \<Longrightarrow> holds s k' e"
    and set_holds: "inv s \<Longrightarrow> holds (set_entry now k e ttl s) k' e' \<Longrightarrow> (k' = k \<and> e' = e) \<or> holds s k' e'"
    and del_holds: "inv s \<Longrightarrow> holds (del k s) k' e' \<Longrightarrow> k' \<noteq> k \<and> holds s k' e'"
    and del_prefix_holds: "inv s \<Longrightarrow> holds (del_prefix p s) k' e' \<Longrightarrow> \<not> starts_with k' p \<and> holds s k' e'"
    and clear_holds: "inv s \<Longrightarrow> \<not> holds (clear s) k' e'"
    and acquire_holds: "inv s \<Longrightarrow> holds (snd (acquire now k ttl s)) k' e' = holds s k' e'"
    and release_holds: "inv s \<Longrightarrow> holds (release k s) k' e' = holds s k' e'"

subsection \<open>The memory store keeps its byte count and its bounds\<close>

definition records_bytes :: "(string, mem_record) jsmap \<Rightarrow> nat" where
  "records_bytes rs = sum_list (map (\<lambda>(k, rec). mr_bytes rec) rs)"

text \<open>The counting part of the invariant, which holds inside the operations too.\<close>

definition mem_counts :: "mem_store \<Rightarrow> bool" where
  "mem_counts s \<longleftrightarrow> distinct_keys (ms_records s) \<and> ms_bytes s = records_bytes (ms_records s)"

definition mem_inv :: "mem_store \<Rightarrow> bool" where
  "mem_inv s \<longleftrightarrow> mem_counts s \<and> length (ms_records s) \<le> ms_max_entries s \<and> ms_bytes s \<le> ms_max_bytes s
     \<and> (\<forall>(k, rec) \<in> set (ms_records s). mr_bytes rec = entry_bytes k (mr_entry rec))"

lemma records_bytes_simps [simp]:
  "records_bytes [] = 0" "records_bytes ((k, rec) # rs) = mr_bytes rec + records_bytes rs"
  "records_bytes (rs @ rs') = records_bytes rs + records_bytes rs'"
  by (simp_all add: records_bytes_def)

lemma records_bytes_delete:
  "distinct_keys rs \<Longrightarrow> map_of rs k = Some rec \<Longrightarrow> records_bytes (AList.delete k rs) + mr_bytes rec = records_bytes rs"
proof (induction rs)
  case (Cons p rs)
  obtain a b where p: "p = (a, b)" by force
  show ?case
  proof (cases "a = k")
    case True
    with Cons.prems p have "k \<notin> set (keys rs)" "b = rec" by auto
    with p True show ?thesis by (simp add: delete_notin)
  next
    case False
    with Cons p show ?thesis by simp
  qed
qed simp

lemma mem_drop_fields [simp]:
  "ms_records (mem_drop k rec s) = AList.delete k (ms_records s)"
  "ms_max_entries (mem_drop k rec s) = ms_max_entries s" "ms_max_bytes (mem_drop k rec s) = ms_max_bytes s"
  "ms_locks (mem_drop k rec s) = ms_locks s"
  by (simp_all add: mem_drop_def)

lemma mem_counts_drop:
  "mem_counts s \<Longrightarrow> map_of (ms_records s) k = Some rec \<Longrightarrow> mem_counts (mem_drop k rec s)"
  using records_bytes_delete[of "ms_records s" k rec] by (auto simp: mem_counts_def mem_drop_def)

lemma mem_drop_bytes_le: "ms_bytes (mem_drop k rec s) \<le> ms_bytes s"
  by (simp add: mem_drop_def)

lemma mem_evict_spec:
  assumes "mem_counts s"
  shows "mem_counts (mem_evict s) \<and> suffix (ms_records (mem_evict s)) (ms_records s)
    \<and> length (ms_records (mem_evict s)) \<le> ms_max_entries s \<and> ms_bytes (mem_evict s) \<le> ms_max_bytes s
    \<and> ms_max_entries (mem_evict s) = ms_max_entries s \<and> ms_max_bytes (mem_evict s) = ms_max_bytes s
    \<and> ms_locks (mem_evict s) = ms_locks s"
  using assms
proof (induction s rule: mem_evict.induct)
  case (1 s)
  show ?case
  proof (cases "length (ms_records s) > ms_max_entries s \<or> ms_bytes s > ms_max_bytes s")
    case False
    then show ?thesis using 1(2) by (simp add: mem_evict.simps[of s])
  next
    case True
    show ?thesis
    proof (cases "ms_records s")
      case Nil
      then show ?thesis using True 1(2) by (simp add: mem_counts_def)
    next
      case (Cons p rs)
      obtain k rec where p: "p = (k, rec)" by force
      have "mem_counts (mem_drop k rec s)" by (rule mem_counts_drop[OF 1(2)]) (simp add: Cons p)
      moreover have "AList.delete k (ms_records s) = rs"
        using 1(2) Cons p by (simp add: mem_counts_def delete_notin)
      ultimately show ?thesis
        using 1(1)[OF True Cons p[symmetric]] True Cons p
        by (simp add: mem_evict.simps[of s] suffix_ConsI)
    qed
  qed
qed

text \<open>Evicting never reaches the newest record when that fits by itself.\<close>

lemma mem_evict_keeps_last:
  assumes "mem_counts s" "ms_records s = rs @ [(k, rec)]" "mr_bytes rec \<le> ms_max_bytes s" "1 \<le> ms_max_entries s"
  shows "\<exists>rs'. ms_records (mem_evict s) = rs' @ [(k, rec)] \<and> suffix rs' rs"
  using assms
proof (induction s arbitrary: rs rule: mem_evict.induct)
  case (1 s)
  show ?case
  proof (cases "length (ms_records s) > ms_max_entries s \<or> ms_bytes s > ms_max_bytes s")
    case False
    then show ?thesis using 1(3) by (simp add: mem_evict.simps[of s])
  next
    case True
    with 1(2-5) have "rs \<noteq> []" by (auto simp: mem_counts_def)
    then obtain k' rec' rs' where rs: "rs = (k', rec') # rs'" by (cases rs) auto
    have Cons: "ms_records s = (k', rec') # rs' @ [(k, rec)]" using 1(3) rs by simp
    have "mem_counts (mem_drop k' rec' s)" by (rule mem_counts_drop[OF 1(2)]) (simp add: Cons)
    moreover have "AList.delete k' (ms_records s) = rs' @ [(k, rec)]"
      using 1(2) Cons by (auto simp: mem_counts_def delete_notin)
    ultimately show ?thesis
      using 1(1)[OF True Cons refl, of rs'] 1(4,5) True Cons rs
      by (auto simp: mem_evict.simps[of s] suffix_ConsI)
  qed
qed

subsection \<open>Every operation\<close>

definition mem_holds :: "mem_store \<Rightarrow> string \<Rightarrow> cache_entry \<Rightarrow> bool" where
  "mem_holds s k e \<longleftrightarrow> (\<exists>rec. map_of (ms_records s) k = Some rec \<and> mr_entry rec = e)"

lemma mem_inv_drop: "mem_inv s \<Longrightarrow> map_of (ms_records s) k = Some rec \<Longrightarrow> mem_inv (mem_drop k rec s)"
  using mem_counts_drop[of s k rec] mem_drop_bytes_le[of k rec s]
  by (auto simp: mem_inv_def mem_counts_def length_delete set_delete)

lemma mem_holds_drop: "mem_holds (mem_drop k rec s) k' e \<longleftrightarrow> k' \<noteq> k \<and> mem_holds s k' e"
  by (auto simp: mem_holds_def)

lemma map_of_suffix: "suffix rs rs' \<Longrightarrow> distinct_keys rs' \<Longrightarrow> map_of rs k = Some v \<Longrightarrow> map_of rs' k = Some v"
  by (auto simp: suffix_def map_add_Some_iff dest: map_of_SomeD)

lemma map_of_touch: "map_of (AList.delete k rs @ [(k, rec)]) k' = (if k' = k then Some rec else map_of rs k')"
  by (auto simp: map_add_def split: option.splits)

lemma mem_get_spec:
  assumes "mem_inv s"
  shows "mem_inv (snd (mem_get now k s))"
    and "mem_get now k s = (Some e, s') \<Longrightarrow> mem_holds s k e"
    and "mem_holds (snd (mem_get now k s)) k' e \<Longrightarrow> mem_holds s k' e"
proof -
  show "mem_inv (snd (mem_get now k s))"
  proof (cases "map_of (ms_records s) k")
    case None
    with assms show ?thesis by (simp add: mem_get_def)
  next
    case (Some rec)
    have "(k, rec) \<in> set (ms_records s)" using Some by (rule map_of_SomeD)
    moreover have "Suc (length (AList.delete k (ms_records s))) = length (ms_records s)"
    proof -
      have "k \<in> set (keys (ms_records s))" using map_of_SomeD[OF Some] by force
      moreover from this have "0 < length (ms_records s)" by (cases "ms_records s") auto
      ultimately show ?thesis using assms by (simp add: length_delete mem_inv_def mem_counts_def)
    qed
    moreover have "records_bytes (AList.delete k (ms_records s)) + mr_bytes rec = records_bytes (ms_records s)"
      using assms Some by (intro records_bytes_delete) (auto simp: mem_inv_def mem_counts_def)
    ultimately show ?thesis
      using assms Some mem_inv_drop[OF assms Some]
      by (auto simp: mem_get_def mem_inv_def mem_counts_def set_delete)
  qed
  show "mem_get now k s = (Some e, s') \<Longrightarrow> mem_holds s k e"
    by (auto simp: mem_get_def mem_holds_def split: option.splits if_splits)
  show "mem_holds (snd (mem_get now k s)) k' e \<Longrightarrow> mem_holds s k' e"
    by (auto simp: mem_get_def mem_holds_def map_of_touch split: option.splits if_splits)
qed

text \<open>The store that \<open>set\<close> leaves: refused, or the entry as the newest one after a final segment of
  the others.\<close>

lemma mem_set_cases:
  assumes "mem_inv s"
  shows "mem_inv (mem_set now k e ttl s)"
    and "mem_holds (mem_set now k e ttl s) k' e' \<Longrightarrow> (k' = k \<and> e' = e) \<or> mem_holds s k' e'"
    and "entry_bytes k e \<le> ms_max_bytes s \<Longrightarrow> 1 \<le> ms_max_entries s \<Longrightarrow>
      \<exists>rs. suffix rs (AList.delete k (ms_records s)) \<and> ms_records (mem_set now k e ttl s) =
        rs @ [(k, \<lparr> mr_entry = e, mr_expires = now + ttl * 1000, mr_bytes = entry_bytes k e \<rparr>)]"
proof -
  let ?rec = "\<lparr> mr_entry = e, mr_expires = now + ttl * 1000, mr_bytes = entry_bytes k e \<rparr>"
  define s1 where "s1 = (case map_of (ms_records s) k of Some prev \<Rightarrow> mem_drop k prev s | None \<Rightarrow> s)"
  have r1: "ms_records s1 = AList.delete k (ms_records s)"
    by (auto simp: s1_def delete_notin map_of_eq_None_iff split: option.splits)
  have i1: "mem_inv s1" using assms by (auto simp: s1_def mem_inv_drop split: option.splits)
  define s2 where "s2 = s1\<lparr> ms_records := AList.update k ?rec (ms_records s1), ms_bytes := ms_bytes s1 + entry_bytes k e \<rparr>"
  have "k \<notin> set (keys (ms_records s1))" by (auto simp: r1 set_delete)
  then have r2: "ms_records s2 = AList.delete k (ms_records s) @ [(k, ?rec)]"
    by (simp add: s2_def update_new r1)
  have m2: "ms_max_entries s2 = ms_max_entries s" "ms_max_bytes s2 = ms_max_bytes s"
    by (auto simp: s2_def s1_def split: option.splits)
  have "ms_bytes s2 = ms_bytes s1 + entry_bytes k e" by (simp add: s2_def)
  then have c2: "mem_counts s2"
    using i1 r1 by (auto simp: mem_counts_def mem_inv_def r2 set_delete)
  have recs: "\<forall>(k, rec) \<in> set (ms_records s2). mr_bytes rec = entry_bytes k (mr_entry rec)"
    using assms by (auto simp: r2 set_delete mem_inv_def)
  have set_eq: "mem_set now k e ttl s = (if entry_bytes k e > ms_max_bytes s then s else mem_evict s2)"
    by (simp add: mem_set_def Let_def s2_def s1_def)
  note ev = mem_evict_spec[OF c2]
  have "mem_inv (mem_evict s2)"
    using ev recs m2 by (auto simp: mem_inv_def dest: set_mono_suffix)
  then show "mem_inv (mem_set now k e ttl s)" using assms by (simp add: set_eq)
  show "mem_holds (mem_set now k e ttl s) k' e' \<Longrightarrow> (k' = k \<and> e' = e) \<or> mem_holds s k' e'"
  proof -
    assume h: "mem_holds (mem_set now k e ttl s) k' e'"
    have "mem_holds (mem_evict s2) k' e' \<Longrightarrow> mem_holds s2 k' e'"
      using map_of_suffix[of "ms_records (mem_evict s2)" "ms_records s2" k'] ev c2
      unfolding mem_holds_def mem_counts_def by blast
    moreover have "mem_holds s2 k' e' \<Longrightarrow> (k' = k \<and> e' = e) \<or> mem_holds s k' e'"
      by (auto simp: mem_holds_def r2 map_of_touch split: if_splits)
    ultimately show ?thesis using h by (auto simp: set_eq split: if_splits)
  qed
  assume "entry_bytes k e \<le> ms_max_bytes s" "1 \<le> ms_max_entries s"
  with mem_evict_keeps_last[OF c2 r2] m2 show "\<exists>rs. suffix rs (AList.delete k (ms_records s)) \<and> ms_records (mem_set now k e ttl s) =
        rs @ [(k, ?rec)]"
    by (auto simp: set_eq)
qed

lemma mem_drop_where_spec:
  assumes "mem_inv s" "distinct_keys rs" "\<forall>(k, rec) \<in> set rs. map_of (ms_records s) k = Some rec"
  shows "mem_inv (mem_drop_where P rs s)
    \<and> (mem_holds (mem_drop_where P rs s) k e \<longleftrightarrow>
         mem_holds s k e \<and> \<not> (\<exists>rec. map_of rs k = Some rec \<and> P k rec))
    \<and> ms_locks (mem_drop_where P rs s) = ms_locks s"
  using assms
proof (induction rs arbitrary: s)
  case (Cons p rs)
  obtain k' rec' where p: "p = (k', rec')" by force
  define s' where "s' = (if P k' rec' then mem_drop k' rec' s else s)"
  have "mem_inv s'" using Cons.prems p by (auto simp: s'_def mem_inv_drop)
  moreover have "\<forall>(k, rec) \<in> set rs. map_of (ms_records s') k = Some rec"
    using Cons.prems p by (force simp: s'_def)
  moreover have "map_of rs k' = None" using Cons.prems(2) p by (simp add: map_of_eq_None_iff)
  ultimately show ?case
    using Cons.IH[of s'] Cons.prems p by (auto simp: s'_def mem_holds_drop)
qed (simp add: mem_holds_def)

lemma mem_drop_where_all:
  assumes "mem_inv s"
  shows "mem_inv (mem_drop_where P (ms_records s) s)"
    "mem_holds (mem_drop_where P (ms_records s) s) k e \<longleftrightarrow>
       mem_holds s k e \<and> \<not> (\<exists>rec. map_of (ms_records s) k = Some rec \<and> P k rec)"
    "ms_locks (mem_drop_where P (ms_records s) s) = ms_locks s"
  using mem_drop_where_spec[OF assms, of "ms_records s" P k e] assms
  by (auto simp: mem_inv_def mem_counts_def)

lemma mem_inv_delete: "mem_inv s \<Longrightarrow> mem_inv (mem_delete k s)"
  and mem_holds_delete: "mem_holds (mem_delete k s) k' e \<longleftrightarrow> k' \<noteq> k \<and> mem_holds s k' e"
  by (auto simp: mem_delete_def mem_inv_drop mem_holds_drop mem_holds_def split: option.splits)

lemma mem_inv_locks [simp]: "mem_inv (s\<lparr>ms_locks := l\<rparr>) = mem_inv s" "mem_holds (s\<lparr>ms_locks := l\<rparr>) = mem_holds s"
  by (auto simp: mem_inv_def mem_counts_def mem_holds_def fun_eq_iff)

lemma mem_acquire_state: "snd (mem_acquire now k ttl s) = s \<or> (\<exists>l. snd (mem_acquire now k ttl s) = s\<lparr>ms_locks := l\<rparr>)"
  by (auto simp: mem_acquire_def split: option.splits)

lemma mem_inv_clear: "mem_inv (mem_clear s)" "\<not> mem_holds (mem_clear s) k e"
  by (simp_all add: mem_clear_def mem_inv_def mem_counts_def mem_holds_def)

interpretation mem: cache_store mem_get mem_set mem_delete mem_delete_by_prefix mem_clear mem_acquire mem_release mem_inv mem_holds
proof (unfold_locales, goal_cases)
  case (1 s now k) then show ?case by (rule mem_get_spec(1))
next
  case (2 s now k e ttl) then show ?case by (rule mem_set_cases(1))
next
  case (3 s k) then show ?case by (rule mem_inv_delete)
next
  case (4 s p) then show ?case by (simp add: mem_delete_by_prefix_def mem_drop_where_all(1))
next
  case (5 s) show ?case by (rule mem_inv_clear)
next
  case (6 s now k ttl) then show ?case using mem_acquire_state[of now k ttl s] by auto
next
  case (7 s k) then show ?case by (simp add: mem_release_def)
next
  case (8 s now k e s') then show ?case by (rule mem_get_spec(2))
next
  case (9 s now k k' e) then show ?case by (rule mem_get_spec(3))
next
  case (10 s now k e ttl k' e') then show ?case by (rule mem_set_cases(2))
next
  case (11 s k k' e') then show ?case by (simp add: mem_holds_delete)
next
  case (12 s p k' e')
  then show ?case
    using mem_drop_where_all(2)[OF 12(1), of "\<lambda>k rec. starts_with k p" k' e']
    by (auto simp: mem_delete_by_prefix_def mem_holds_def)
next
  case (13 s k' e') show ?case by (rule mem_inv_clear)
next
  case (14 s now k ttl k' e')
  then show ?case using mem_acquire_state[of now k ttl s] by auto
next
  case (15 s k k' e') then show ?case by (simp add: mem_release_def)
qed

subsection \<open>Properties\<close>

datatype mem_op =
    MGet string | MSet string cache_entry int | MDelete string | MPrefix string | MClear
  | MAcquire string int | MRelease string | MSweep

text \<open>An operation at a time.\<close>

fun mem_step :: "int \<times> mem_op \<Rightarrow> mem_store \<Rightarrow> mem_store" where
  "mem_step (now, MGet k) s = snd (mem_get now k s)"
| "mem_step (now, MSet k e ttl) s = mem_set now k e ttl s"
| "mem_step (now, MDelete k) s = mem_delete k s"
| "mem_step (now, MPrefix p) s = mem_delete_by_prefix p s"
| "mem_step (now, MClear) s = mem_clear s"
| "mem_step (now, MAcquire k ttl) s = snd (mem_acquire now k ttl s)"
| "mem_step (now, MRelease k) s = mem_release k s"
| "mem_step (now, MSweep) s = mem_sweep now s"

definition mem_run :: "(int \<times> mem_op) list \<Rightarrow> mem_store \<Rightarrow> mem_store" where
  "mem_run ops s = fold mem_step ops s"

lemma mem_inv_step: "mem_inv s \<Longrightarrow> mem_inv (mem_step op s)"
proof (cases "(op, s)" rule: mem_step.cases)
  case (8 now s')
  assume "mem_inv s"
  with 8 show ?thesis by (simp add: mem_sweep_def mem_drop_where_all(1) Let_def)
qed (use mem.get_inv mem.set_inv mem.del_inv mem.del_prefix_inv mem.clear_inv mem.acquire_inv mem.release_inv in auto)

lemma mem_inv_run: "mem_inv s \<Longrightarrow> mem_inv (mem_run ops s)"
  unfolding mem_run_def by (induction ops arbitrary: s) (auto simp: mem_inv_step)

lemma mem_inv_new: "mem_inv (mem_new n b)"
  by (simp add: mem_new_def mem_inv_def mem_counts_def)

lemma mem_evict_limits: "ms_max_entries (mem_evict s) = ms_max_entries s \<and> ms_max_bytes (mem_evict s) = ms_max_bytes s"
proof (induction s rule: mem_evict.induct)
  case (1 s)
  then show ?case by (subst (1 2) mem_evict.simps) (auto split: list.splits)
qed

lemma mem_drop_where_limits:
  "ms_max_entries (mem_drop_where P rs s) = ms_max_entries s \<and> ms_max_bytes (mem_drop_where P rs s) = ms_max_bytes s"
  by (induction P rs s rule: mem_drop_where.induct) auto

lemma mem_step_limits: "ms_max_entries (mem_step op s) = ms_max_entries s \<and> ms_max_bytes (mem_step op s) = ms_max_bytes s"
  by (cases "(op, s)" rule: mem_step.cases)
     (auto simp: mem_get_def mem_set_def Let_def mem_evict_limits mem_delete_def mem_delete_by_prefix_def
        mem_drop_where_limits mem_clear_def mem_acquire_def mem_release_def mem_sweep_def split: option.splits)

lemma mem_run_limits: "ms_max_entries (mem_run ops s) = ms_max_entries s \<and> ms_max_bytes (mem_run ops s) = ms_max_bytes s"
  unfolding mem_run_def by (induction ops arbitrary: s) (auto simp: mem_step_limits)

text \<open>Memory is bounded whatever the clients send: after any sequence of operations at any
  times the store holds at most \<open>maxEntries\<close> entries of at most \<open>maxBytes\<close> bytes in all, and its
  running byte counter is the sum over the entries held.\<close>

theorem mem_store_bounded:
  "(let s = mem_run ops (mem_new (Some n) (Some b))
    in length (ms_records s) \<le> n
       \<and> sum_list (map (\<lambda>(k, rec). entry_bytes k (mr_entry rec)) (ms_records s)) \<le> b
       \<and> ms_bytes s = sum_list (map (\<lambda>(k, rec). entry_bytes k (mr_entry rec)) (ms_records s)))"
proof -
  define s where "s = mem_run ops (mem_new (Some n) (Some b))"
  have inv: "mem_inv s" unfolding s_def by (rule mem_inv_run[OF mem_inv_new])
  have lim: "ms_max_entries s = n" "ms_max_bytes s = b"
    using mem_run_limits[of ops "mem_new (Some n) (Some b)"] by (simp_all add: s_def mem_new_def)
  have "sum_list (map (\<lambda>(k, rec). entry_bytes k (mr_entry rec)) (ms_records s)) = records_bytes (ms_records s)"
    using inv unfolding records_bytes_def
    by (intro arg_cong[of _ _ sum_list] map_cong) (auto simp: mem_inv_def)
  then show ?thesis
    using inv lim by (simp add: s_def[symmetric] mem_inv_def mem_counts_def)
qed

text \<open>\<open>set\<close> is least-recently-used: a new entry that fits is the newest record, what remains
  of the others is a final segment of them in the order of their last use, and the entry is
  returned by \<open>get\<close> until its lifetime ends and not after. One that does not fit by itself changes
  nothing: an older entry under its key stays and is still served.\<close>

theorem mem_set_lru:
  assumes "mem_inv s" "1 \<le> ms_max_entries s"
  shows "if entry_bytes k e > ms_max_bytes s then mem_set now k e ttl s = s
     else \<exists>rs. suffix rs (AList.delete k (ms_records s))
        \<and> ms_records (mem_set now k e ttl s) =
            rs @ [(k, \<lparr> mr_entry = e, mr_expires = now + ttl * 1000, mr_bytes = entry_bytes k e \<rparr>)]
        \<and> fst (mem_get now' k (mem_set now k e ttl s)) = (if now' < now + ttl * 1000 then Some e else None)"
proof (cases "entry_bytes k e > ms_max_bytes s")
  case True
  then show ?thesis by (simp add: mem_set_def)
next
  case False
  then have "entry_bytes k e \<le> ms_max_bytes s" by simp
  from mem_set_cases(3)[OF assms(1) this assms(2), of now ttl] obtain rs where rs: "suffix rs (AList.delete k (ms_records s))"
    "ms_records (mem_set now k e ttl s) =
       rs @ [(k, \<lparr> mr_entry = e, mr_expires = now + ttl * 1000, mr_bytes = entry_bytes k e \<rparr>)]" by blast
  have "k \<notin> set (keys rs)"
    using set_mono_suffix[OF rs(1)] by (auto simp: set_delete)
  then have "map_of rs k = None" by (simp add: map_of_eq_None_iff)
  then have "map_of (ms_records (mem_set now k e ttl s)) k =
      Some \<lparr> mr_entry = e, mr_expires = now + ttl * 1000, mr_bytes = entry_bytes k e \<rparr>"
    unfolding rs(2) by (simp add: map_add_def)
  then have "fst (mem_get now' k (mem_set now k e ttl s)) = (if now' < now + ttl * 1000 then Some e else None)"
    by (simp add: mem_get_def)
  with rs False show ?thesis by auto
qed

definition demo_entry :: cache_entry where
  "demo_entry = \<lparr> ce_payload = ''{}'', ce_status = 200, ce_content_type = ''application/json'', ce_etag = None,
     ce_stored_at = 0, ce_ttl_ms = 1000, ce_swr_ms = 0, ce_vary = None \<rparr>"

theorem mem_set_lru_witness:
  "fst (mem_get 500 ''k'' (mem_set 0 ''k'' demo_entry 1 (mem_new (Some 1) (Some 1000)))) = Some demo_entry"
proof -
  have "entry_bytes ''k'' demo_entry \<le> 1000" by (simp add: entry_bytes_def byte_length_def demo_entry_def entry_overhead_bytes_def)
  then show ?thesis
    using mem_set_lru[OF mem_inv_new, of "Some 1" "Some 1000" "''k''" demo_entry 0 1 500]
    by (auto simp: mem_new_def)
qed

definition keeps_lock :: "string \<Rightarrow> int \<Rightarrow> int \<times> mem_op \<Rightarrow> bool" where
  "keeps_lock k until op \<longleftrightarrow> fst op < until \<and> snd op \<noteq> MRelease k \<and> snd op \<noteq> MClear"

lemma mem_evict_locks: "ms_locks (mem_evict s) = ms_locks s"
proof (induction s rule: mem_evict.induct)
  case (1 s)
  then show ?case by (subst mem_evict.simps) (auto split: list.splits)
qed

lemma mem_drop_where_locks: "ms_locks (mem_drop_where P rs s) = ms_locks s"
  by (induction P rs s rule: mem_drop_where.induct) auto

lemma mem_step_lock:
  assumes "keeps_lock k until op" "map_of (ms_locks s) k = Some until" "distinct_keys (ms_locks s)"
  shows "map_of (ms_locks (mem_step op s)) k = Some until \<and> distinct_keys (ms_locks (mem_step op s))"
  using assms
  by (cases "(op, s)" rule: mem_step.cases)
     (auto simp: keeps_lock_def mem_get_def mem_set_def Let_def mem_evict_locks mem_delete_def mem_delete_by_prefix_def
        mem_drop_where_locks mem_acquire_def mem_release_def mem_sweep_def map_of_filter_value simp del: map_of_eq_Some_iff split: option.splits)

text \<open>The refresh lock of a key is granted once per period: after \<open>acquire\<close> succeeded, every
  \<open>acquire\<close> of that key before the lock runs out is refused, through any operations (sweeps
  included) that do not release that lock or clear the store, at times up to then.\<close>

theorem mem_lock_exclusive:
  assumes "distinct_keys (ms_locks s)" "fst (mem_acquire now k ttl s)"
    and "list_all (keeps_lock k (now + ttl * 1000)) ops" "now' < now + ttl * 1000"
  shows "\<not> fst (mem_acquire now' k ttl' (mem_run ops (snd (mem_acquire now k ttl s))))"
proof -
  have "map_of (ms_locks (mem_run ops q)) k = Some (now + ttl * 1000)"
    if "map_of (ms_locks q) k = Some (now + ttl * 1000)" "distinct_keys (ms_locks q)" for q
    using that assms(3) unfolding mem_run_def
  proof (induction ops arbitrary: q)
    case (Cons op ops)
    then show ?case using mem_step_lock[of k "now + ttl * 1000" op q] by (simp del: map_of_eq_Some_iff)
  qed simp
  moreover have "map_of (ms_locks (snd (mem_acquire now k ttl s))) k = Some (now + ttl * 1000)"
    "distinct_keys (ms_locks (snd (mem_acquire now k ttl s)))"
    using assms(1,2) by (auto simp: mem_acquire_def simp del: map_of_eq_Some_iff split: option.splits if_splits)
  ultimately show ?thesis using assms(4) by (simp add: mem_acquire_def)
qed

theorem mem_lock_exclusive_witness:
  "\<not> fst (mem_acquire 9999 ''k'' 5 (mem_run [(5000, MSweep)] (snd (mem_acquire 0 ''k'' 10 (mem_new None None)))))"
  by (rule mem_lock_exclusive) (simp_all add: mem_new_def mem_acquire_def keeps_lock_def)

end
