(* ===== verification/Cache_Key.thy ===== *)
theory Cache_Key
  imports Cookies "HOL-Library.List_Lexorder" "HOL-Library.Char_ord"
begin

text \<open>
  \<open>packages/cache/src/key.ts\<close> (cache keys), \<open>etag.ts\<close> (entity tags and \<open>If-None-Match\<close>) and
  \<open>control.ts\<close> (\<open>Cache-Control\<close>). The SHA-1 digest in base64url is the parameter \<open>sha1\<close>.
  \<open>Array.prototype.sort\<close> compares by code units, the lexicographic order on strings. Query objects
  have distinct keys.
\<close>

subsection \<open>Keys\<close>

definition key_separator :: char where
  "key_separator = CHR 0x00"

text \<open>The pairs of a query, keys sorted, the values of an array sorted under their key; \<open>None\<close> for an
  undefined value.\<close>

definition value_pairs :: "string \<Rightarrow> jsval \<Rightarrow> (string \<times> string option) list" where
  "value_pairs k v = (case v of
       JArr vs \<Rightarrow> map (\<lambda>i. (k, Some i)) (sort (map js_string vs))
     | JUndef \<Rightarrow> [(k, None)]
     | _ \<Rightarrow> [(k, Some (js_string v))])"

definition query_pairs :: "jsval \<Rightarrow> (string \<times> string option) list" where
  "query_pairs q =
     (case q of
        JObj kvs \<Rightarrow> concat (map (\<lambda>k. case map_of kvs k of Some v \<Rightarrow> value_pairs k v | None \<Rightarrow> []) (sort (keys kvs)))
      | _ \<Rightarrow> [])"

definition query_part :: "string \<times> string option \<Rightarrow> string" where
  "query_part kv = uri_encode (fst kv) @ (case snd kv of Some v \<Rightarrow> ''='' @ uri_encode v | None \<Rightarrow> [])"

definition normalize_query :: "jsval \<Rightarrow> string" where
  "normalize_query q = join_with ''&'' (map query_part (query_pairs q))"

definition get_request_header :: "request \<Rightarrow> string \<Rightarrow> string option" where
  "get_request_header req name =
     map_option (join_with '', '')
       (case map_of (rq_headers req) (to_lower name) of
          Some v \<Rightarrow> Some v | None \<Rightarrow> map_of (rq_headers req) name)"

definition build_cache_key :: "string \<Rightarrow> string \<Rightarrow> jsval \<Rightarrow> (string \<times> string) list \<Rightarrow> string" where
  "build_cache_key meth path query vary =
     meth @ [key_separator] @ path @ [key_separator] @ normalize_query query
     @ concat (map (\<lambda>(name, v). [key_separator] @ name @ '':'' @ v) vary)"

definition path_key_prefix :: "string \<Rightarrow> string \<Rightarrow> string" where
  "path_key_prefix meth path = meth @ [key_separator] @ path @ [key_separator]"

definition vary_pairs :: "request \<Rightarrow> string list \<Rightarrow> (string \<times> string) list" where
  "vary_pairs req names = map (\<lambda>n. (to_lower n,
     case get_request_header req n of Some v \<Rightarrow> v | None \<Rightarrow> [])) names"

definition request_cache_key :: "request \<Rightarrow> string list \<Rightarrow> string" where
  "request_cache_key req names =
     build_cache_key (method_name (rq_method req)) (rq_path req) (rq_query req) (vary_pairs req names)"

subsection \<open>Entity tags\<close>

datatype etag_mode = Strong | Weak

definition compute_etag :: "(string \<Rightarrow> string) \<Rightarrow> string \<Rightarrow> etag_mode \<Rightarrow> string" where
  "compute_etag sha1 body mode =
     (let hash = take 27 (sha1 body)
      in (case mode of Weak \<Rightarrow> ''W/'' | Strong \<Rightarrow> []) @ [CHR 0x22] @ hash @ [CHR 0x22])"

definition opaque_tag :: "string \<Rightarrow> string" where
  "opaque_tag tag =
     (let t = trim tag;
          t = (if starts_with t ''W/'' \<or> starts_with t ''w/'' then drop 2 t else t)
      in unquote t)"

definition is_list_sep :: "char \<Rightarrow> bool" where
  "is_list_sep c \<longleftrightarrow> c = CHR '','' \<or> c = CHR '' '' \<or> c = CHR 0x09"

function parse_if_none_match :: "string \<Rightarrow> string list" where
  "parse_if_none_match [] = []"
| "parse_if_none_match (c # s) =
     (if is_list_sep c then parse_if_none_match s
      else if c = CHR ''*'' then ''*'' # parse_if_none_match s
      else
        let weak = ((c = CHR ''W'' \<or> c = CHR ''w'') \<and> s \<noteq> [] \<and> hd s = CHR ''/'');
            pre = (if weak then [c, CHR ''/''] else []);
            rest = (if weak then tl s else c # s)
        in if rest \<noteq> [] \<and> hd rest = CHR 0x22 then
             (if CHR 0x22 \<notin> set (tl rest) then [trim (c # s)]
              else let q = takeWhile (\<lambda>x. x \<noteq> CHR 0x22) (tl rest)
                   in (pre @ [CHR 0x22] @ q @ [CHR 0x22]) # parse_if_none_match (drop (Suc (length q)) (tl rest)))
           else let tok = takeWhile (\<lambda>x. \<not> is_list_sep x) rest
                in (pre @ tok) # parse_if_none_match (drop (length tok) rest))"
  by pat_completeness auto
termination
  by (relation "measure length") (auto simp: Let_def split: if_splits)

declare parse_if_none_match.simps(2) [simp del]

definition if_none_match_matches :: "string list option \<Rightarrow> string option \<Rightarrow> bool" where
  "if_none_match_matches header etag =
     (case header of
        None \<Rightarrow> False
      | Some vs \<Rightarrow>
          let raw = join_with '', '' vs
          in if trim raw = [] then False
             else let candidates = parse_if_none_match raw
                  in if ''*'' \<in> set candidates then True
                     else (case etag of
                             None \<Rightarrow> False
                           | Some t \<Rightarrow> if t = [] then False
                                       else list_ex (\<lambda>c. opaque_tag c = opaque_tag t) candidates))"

subsection \<open>Cache-Control\<close>

datatype cache_scope = Public | Private

record cache_control_options =
  cc_max_age :: "int option"
  cc_s_maxage :: "int option"
  cc_scope :: "cache_scope option"
  cc_immutable :: "bool option"
  cc_swr :: "int option"
  cc_no_store :: bool
  cc_must_revalidate :: "bool option"

datatype control_error = NoStoreCombined | NoDirective

definition build_cache_control :: "cache_control_options \<Rightarrow> control_error + string" where
  "build_cache_control o1 =
     (if cc_no_store o1 then
        (if cc_max_age o1 \<noteq> None \<or> cc_s_maxage o1 \<noteq> None \<or> cc_scope o1 \<noteq> None \<or> cc_immutable o1 \<noteq> None
            \<or> cc_swr o1 \<noteq> None \<or> cc_must_revalidate o1 \<noteq> None
         then Inl NoStoreCombined else Inr ''no-store'')
      else
        let parts =
          (case cc_scope o1 of Some Public \<Rightarrow> [''public''] | Some Private \<Rightarrow> [''private''] | None \<Rightarrow> [])
          @ (case cc_max_age o1 of Some n \<Rightarrow> [''max-age='' @ show_int n] | None \<Rightarrow> [])
          @ (case cc_s_maxage o1 of Some n \<Rightarrow> [''s-maxage='' @ show_int n] | None \<Rightarrow> [])
          @ (if cc_must_revalidate o1 = Some True then [''must-revalidate''] else [])
          @ (if cc_immutable o1 = Some True then [''immutable''] else [])
          @ (case cc_swr o1 of Some n \<Rightarrow> [''stale-while-revalidate='' @ show_int n] | None \<Rightarrow> [])
        in if parts = [] then Inl NoDirective else Inr (join_with '', '' parts))"

subsection \<open>Keys are canonical and collision-free\<close>

lemma uri_encode_inject: "uri_encode s = uri_encode t \<longleftrightarrow> s = t"
  by (metis option.inject uri_decode_encode)

definition uri_safe :: "char \<Rightarrow> bool" where
  "uri_safe c \<longleftrightarrow> (of_char c :: nat) \<notin> {38, 61, 0}"

lemma uri_safe_iff: "uri_safe c \<longleftrightarrow> c \<noteq> CHR ''&'' \<and> c \<noteq> CHR ''='' \<and> c \<noteq> CHR 0x00"
proof -
  have e: "c = d \<longleftrightarrow> (of_char c :: nat) = of_char d" for d by simp
  show ?thesis unfolding uri_safe_def e[of "CHR ''&''"] e[of "CHR ''=''"] e[of "CHR 0x00"] by simp
qed

lemma uri_safe_hex: "n < 16 \<Longrightarrow> uri_safe (upper_hex n)"
  by (auto simp: uri_safe_def upper_hex_def)

lemma uri_safe_pct: "b < 256 \<Longrightarrow> list_all uri_safe (pct b)"
  by (simp add: pct_def uri_safe_hex less_mult_imp_div_less) (simp add: uri_safe_def)

lemma uri_safe_encode_char: "list_all uri_safe (uri_encode_char c)"
proof -
  have "192 + (of_char c :: nat) div 64 < 256" "128 + (of_char c :: nat) mod 64 < 256"
    using of_char_less_256[of c] by (simp_all add: less_mult_imp_div_less[of _ 64 64] del: of_char_less_256)
  moreover have "uri_unreserved c \<Longrightarrow> uri_safe c"
    by (auto simp: uri_safe_def uri_unreserved_def is_alnum_def Let_def)
  ultimately show ?thesis
    using uri_safe_pct[of "of_char c"] uri_safe_pct[of "192 + of_char c div 64"] uri_safe_pct[of "128 + of_char c mod 64"]
    by (auto simp: uri_encode_char_def Let_def)
qed

lemma uri_safe_encode: "c \<in> set (uri_encode s) \<Longrightarrow> uri_safe c"
  using uri_safe_encode_char by (auto simp: uri_encode_def list_all_iff)

lemma encode_no:
  "CHR ''&'' \<notin> set (uri_encode s)" "CHR ''='' \<notin> set (uri_encode s)" "CHR 0x00 \<notin> set (uri_encode s)"
  using uri_safe_encode[of _ s] by (auto simp: uri_safe_iff)

lemma query_part_split: "split_on (CHR ''='') (query_part (k, Some v)) = [uri_encode k, uri_encode v]"
  by (simp add: query_part_def split_on_append_sep encode_no split_on_no_sep)

lemma query_part_inject: "query_part (k, Some v) = query_part (k', Some v') \<longleftrightarrow> k = k' \<and> v = v'"
  by (metis query_part_split uri_encode_inject list.inject)

lemma query_part_no:
  "CHR ''&'' \<notin> set (query_part kv)" "CHR 0x00 \<notin> set (query_part kv)"
  by (auto simp: query_part_def encode_no split: option.splits)

lemma normalize_query_no_nul: "CHR 0x00 \<notin> set (normalize_query q)"
proof -
  have "CHR 0x00 \<notin> set (join_with ''&'' ps)" if "\<forall>p \<in> set ps. CHR 0x00 \<notin> set p" for ps
    using that by (induction ps) (auto simp: join_with_Cons)
  then show ?thesis by (auto simp: normalize_query_def query_part_no)
qed

text \<open>No query value is undefined, as a parsed query string has none.\<close>

definition defined_query :: "jsval \<Rightarrow> bool" where
  "defined_query q \<longleftrightarrow> (case q of JObj kvs \<Rightarrow> distinct_keys kvs \<and> (\<forall>(k, v) \<in> set kvs. v \<noteq> JUndef) | _ \<Rightarrow> True)"

lemma value_pairs_defined: "v \<noteq> JUndef \<Longrightarrow> (k', x) \<in> set (value_pairs k v) \<Longrightarrow> x \<noteq> None"
  by (cases v) (auto simp: value_pairs_def)

lemma query_pairs_defined: "defined_query q \<Longrightarrow> (k, v) \<in> set (query_pairs q) \<Longrightarrow> v \<noteq> None"
proof (cases q)
  case (JObj kvs)
  assume d: "defined_query q" "(k, v) \<in> set (query_pairs q)"
  then obtain k' where "(k, v) \<in> set (case map_of kvs k' of Some v \<Rightarrow> value_pairs k' v | None \<Rightarrow> [])"
    unfolding JObj query_pairs_def by auto
  then obtain x where "map_of kvs k' = Some x" "(k, v) \<in> set (value_pairs k' x)"
    by (cases "map_of kvs k'") auto
  moreover from this have "x \<noteq> JUndef" using d JObj by (auto simp: defined_query_def dest: map_of_SomeD)
  ultimately show ?thesis using value_pairs_defined by blast
qed (auto simp: query_pairs_def)

lemma normalize_query_inject:
  assumes "defined_query q" "defined_query q'"
  shows "normalize_query q = normalize_query q' \<longleftrightarrow> query_pairs q = query_pairs q'"
proof
  assume eq: "normalize_query q = normalize_query q'"
  have part: "\<exists>k v. kv = (k, Some v)" if "kv \<in> set (query_pairs r)" "defined_query r" for kv r
    using that query_pairs_defined[of r "fst kv" "snd kv"] by (metis not_None_eq prod.collapse)
  have ne: "normalize_query r = [] \<longleftrightarrow> query_pairs r = []" if "defined_query r" for r
  proof (cases "query_pairs r")
    case (Cons kv kvs)
    then obtain k v where "kv = (k, Some v)" using part[of kv r] \<open>defined_query r\<close> by auto
    with Cons show ?thesis by (auto simp: normalize_query_def query_part_def join_with_Cons)
  qed (simp add: normalize_query_def)
  have sp: "split_on (CHR ''&'') (normalize_query r) = map query_part (query_pairs r)" if "query_pairs r \<noteq> []" for r
    using that unfolding normalize_query_def by (intro split_join_with) (auto simp: query_part_no)
  have "map query_part (query_pairs q) = map query_part (query_pairs q')"
    using eq ne[OF assms(1)] ne[OF assms(2)] sp[of q] sp[of q'] by (cases "query_pairs q = []") auto
  moreover have "inj_on query_part (set (query_pairs q) \<union> set (query_pairs q'))"
  proof (rule inj_onI)
    fix a b assume "a \<in> set (query_pairs q) \<union> set (query_pairs q')" "b \<in> set (query_pairs q) \<union> set (query_pairs q')"
      and e: "query_part a = query_part b"
    then obtain k v k' v' where "a = (k, Some v)" "b = (k', Some v')"
      using part assms by blast
    with e show "a = b" by (simp add: query_part_inject)
  qed
  ultimately show "query_pairs q = query_pairs q'" by (rule map_inj_on)
qed (simp add: normalize_query_def)

definition nul_free :: "string \<Rightarrow> bool" where
  "nul_free s \<longleftrightarrow> CHR 0x00 \<notin> set s"

lemma method_name_nul_free: "nul_free (method_name m)"
  by (cases m) (simp_all add: nul_free_def method_name_def)

lemma method_name_inject: "method_name m = method_name m' \<longleftrightarrow> m = m'"
  by (cases m; cases m') (simp_all add: method_name_def)

lemma cache_key_split:
  assumes "nul_free m" "nul_free p" "\<forall>(n, v) \<in> set vs. nul_free n \<and> nul_free v"
  shows "split_on (CHR 0x00) (build_cache_key m p q vs) = m # p # normalize_query q # map (\<lambda>(n, v). n @ '':'' @ v) vs"
proof -
  have "build_cache_key m p q vs = join_with [CHR 0x00] (m # p # normalize_query q # map (\<lambda>(n, v). n @ '':'' @ v) vs)"
    unfolding join_with_concat
    by (simp add: build_cache_key_def key_separator_def comp_def case_prod_unfold)
  moreover have "split_on (CHR 0x00) (join_with [CHR 0x00] (m # p # normalize_query q # map (\<lambda>(n, v). n @ '':'' @ v) vs))
      = m # p # normalize_query q # map (\<lambda>(n, v). n @ '':'' @ v) vs"
    using assms by (intro split_join_with) (auto simp: nul_free_def normalize_query_no_nul)
  ultimately show ?thesis by simp
qed

text \<open>The requests the key is meant for: neither the path nor a header value holds a NUL.\<close>

definition key_safe :: "request \<Rightarrow> bool" where
  "key_safe req \<longleftrightarrow> nul_free (rq_path req) \<and> (\<forall>n. \<forall>v. get_request_header req n = Some v \<longrightarrow> nul_free v)
     \<and> defined_query (rq_query req)"

lemma vary_pairs_inject:
  "map (\<lambda>(n, v). n @ '':'' @ v) (vary_pairs r names) = map (\<lambda>(n, v). n @ '':'' @ v) (vary_pairs r' names)
   \<longleftrightarrow> vary_pairs r names = vary_pairs r' names"
  by (induction names) (auto simp: vary_pairs_def)

lemma to_lower_char_nul: "to_lower_char c = CHR 0x00 \<Longrightarrow> c = CHR 0x00"
proof (cases "to_lower_char c = c")
  case False
  assume z: "to_lower_char c = CHR 0x00"
  have lt: "(of_char c :: nat) + 32 < 256" and lc: "to_lower_char c = char_of ((of_char c :: nat) + 32)"
    using False by (auto simp: to_lower_char_def Let_def split: if_splits)
  have "(of_char (to_lower_char c) :: nat) = of_char c + 32"
    unfolding lc using lt by simp
  with z show ?thesis by simp
qed simp

lemma nul_free_to_lower: "nul_free n \<Longrightarrow> nul_free (to_lower n)"
  unfolding nul_free_def to_lower_def by (metis imageE list.set_map to_lower_char_nul)

lemma vary_pairs_nul_free:
  assumes "key_safe q" "list_all nul_free names"
  shows "\<forall>(n, v) \<in> set (vary_pairs q names). nul_free n \<and> nul_free v"
proof -
  have "nul_free (case get_request_header q n of Some v \<Rightarrow> v | None \<Rightarrow> [])" for n
    using assms(1) by (cases "get_request_header q n") (simp_all add: key_safe_def, simp add: nul_free_def)
  then show ?thesis using assms(2) by (auto simp: vary_pairs_def list_all_iff nul_free_to_lower)
qed

lemma request_cache_key_split:
  assumes "key_safe q" "list_all nul_free names"
  shows "split_on (CHR 0x00) (request_cache_key q names) =
    method_name (rq_method q) # rq_path q # normalize_query (rq_query q) # map (\<lambda>(n, v). n @ '':'' @ v) (vary_pairs q names)"
  unfolding request_cache_key_def
  using assms by (intro cache_key_split vary_pairs_nul_free) (simp_all add: key_safe_def method_name_nul_free)

text \<open>C39. Two requests share a cache entry exactly when they should: the keys are equal if and only
  if the methods, the paths, the queries (as sorted pairs) and the values of every global vary
  header are. No value forges another query or another header's value.\<close>

theorem request_cache_key_exact:
  assumes "key_safe r" "key_safe r'" "list_all nul_free names"
  shows "request_cache_key r names = request_cache_key r' names \<longleftrightarrow>
    rq_method r = rq_method r' \<and> rq_path r = rq_path r' \<and> query_pairs (rq_query r) = query_pairs (rq_query r')
    \<and> vary_pairs r names = vary_pairs r' names"
proof
  assume eq: "request_cache_key r names = request_cache_key r' names"
  note s1 = request_cache_key_split[OF assms(1,3)] and s2 = request_cache_key_split[OF assms(2,3)]
  have "method_name (rq_method r) # rq_path r # normalize_query (rq_query r) # map (\<lambda>(n, v). n @ '':'' @ v) (vary_pairs r names)
      = method_name (rq_method r') # rq_path r' # normalize_query (rq_query r') # map (\<lambda>(n, v). n @ '':'' @ v) (vary_pairs r' names)"
    using s1 s2 unfolding eq by (rule trans[OF sym])
  then have parts: "rq_method r = rq_method r'" "rq_path r = rq_path r'"
      "normalize_query (rq_query r) = normalize_query (rq_query r')" "vary_pairs r names = vary_pairs r' names"
    unfolding list.inject method_name_inject vary_pairs_inject by simp_all
  moreover have "query_pairs (rq_query r) = query_pairs (rq_query r')"
    using normalize_query_inject[of "rq_query r" "rq_query r'"] parts(3) assms(1,2) by (simp add: key_safe_def)
  ultimately show "rq_method r = rq_method r' \<and> rq_path r = rq_path r' \<and> query_pairs (rq_query r) = query_pairs (rq_query r')
    \<and> vary_pairs r names = vary_pairs r' names" by simp
qed (simp add: request_cache_key_def build_cache_key_def normalize_query_def)

definition demo_get :: "string \<Rightarrow> jsval \<Rightarrow> request" where
  "demo_get p q = \<lparr> rq_method = GET, rq_path = p, rq_headers = [], rq_ip = ''127.0.0.1'', rq_body = JUndef,
     rq_query = q, rq_params = JObj [], rq_aborted = False \<rparr>"

theorem request_cache_key_exact_witness:
  "request_cache_key (demo_get ''/p'' (JObj [(''b'', JStr ''2''), (''a'', JArr [JStr ''y'', JStr ''x''])])) [''Accept'']
   = request_cache_key (demo_get ''/p'' (JObj [(''a'', JArr [JStr ''x'', JStr ''y'']), (''b'', JStr ''2'')])) [''Accept'']"
proof -
  let ?q = "JObj [(''b'', JStr ''2''), (''a'', JArr [JStr ''y'', JStr ''x''])]"
  let ?q' = "JObj [(''a'', JArr [JStr ''x'', JStr ''y'']), (''b'', JStr ''2'')]"
  have ks: "key_safe (demo_get ''/p'' q)" if "defined_query q" for q
    using that by (simp add: key_safe_def demo_get_def get_request_header_def nul_free_def)
  have d: "defined_query ?q" "defined_query ?q'" by (simp_all add: defined_query_def)
  have n: "list_all nul_free [''Accept'']" by (simp add: nul_free_def)
  have qp: "query_pairs ?q = query_pairs ?q'" by code_simp
  have "vary_pairs (demo_get ''/p'' q) ns = vary_pairs (demo_get ''/p'' q') ns" for q q' ns
    by (simp add: vary_pairs_def demo_get_def get_request_header_def)
  moreover have "rq_method (demo_get ''/p'' q) = GET" "rq_path (demo_get ''/p'' q) = ''/p''" "rq_query (demo_get ''/p'' q) = q" for q
    by (simp_all add: demo_get_def)
  ultimately show ?thesis
    using request_cache_key_exact[OF ks[OF d(1)] ks[OF d(2)] n] qp by simp
qed

text \<open>\<open>invalidatePath\<close> hits the path it names and no other: a key built for a method and a path
  starts with the prefix of a method and a path exactly when these are the same, whatever the
  query and the vary values (\<open>/users\<close> never matches \<open>/users2\<close> or \<open>/users/1\<close>).\<close>

theorem path_key_prefix_exact:
  assumes "nul_free p" "nul_free p'"
  shows "starts_with (build_cache_key (method_name m) p q vs) (path_key_prefix (method_name m') p') \<longleftrightarrow> m = m' \<and> p = p'"
proof
  have sep: "split_on (CHR 0x00) (a @ [CHR 0x00] @ b @ [CHR 0x00] @ t) = a # b # split_on (CHR 0x00) t"
    if "nul_free a" "nul_free b" for a b t
    using that by (simp add: nul_free_def split_on_append_sep)
  assume "starts_with (build_cache_key (method_name m) p q vs) (path_key_prefix (method_name m') p')"
  then obtain t where "build_cache_key (method_name m) p q vs = path_key_prefix (method_name m') p' @ t"
    by (auto simp: starts_with_def prefix_def)
  then have "method_name m @ [CHR 0x00] @ p @ [CHR 0x00] @ (normalize_query q @ concat (map (\<lambda>(name, v). [CHR 0x00] @ name @ '':'' @ v) vs))
      = method_name m' @ [CHR 0x00] @ p' @ [CHR 0x00] @ t"
    by (simp add: build_cache_key_def path_key_prefix_def key_separator_def)
  from arg_cong[OF this, of "split_on (CHR 0x00)"] show "m = m' \<and> p = p'"
    unfolding sep[OF method_name_nul_free assms(1)] sep[OF method_name_nul_free assms(2)]
    by (simp add: method_name_inject)
next
  assume "m = m' \<and> p = p'"
  then show "starts_with (build_cache_key (method_name m) p q vs) (path_key_prefix (method_name m') p')"
    by (simp add: starts_with_def build_cache_key_def path_key_prefix_def prefix_def)
qed

theorem path_key_prefix_exact_witness:
  "\<not> starts_with (build_cache_key (method_name GET) ''/users2'' (JObj []) []) (path_key_prefix (method_name GET) ''/users'')"
  by (subst path_key_prefix_exact) (simp_all add: nul_free_def)

subsection \<open>If-None-Match\<close>

text \<open>A well-formed entity tag: no quote and no white space at the ends inside the quotes.\<close>

definition etag_of :: "bool \<Rightarrow> string \<Rightarrow> string" where
  "etag_of weak h = (if weak then ''W/'' else []) @ [CHR 0x22] @ h @ [CHR 0x22]"

definition etag_ok :: "string \<Rightarrow> bool" where
  "etag_ok h \<longleftrightarrow> CHR 0x22 \<notin> set h"

lemma opaque_tag_etag: "opaque_tag (etag_of weak h) = h"
proof -
  have "trim (etag_of weak h) = etag_of weak h"
    by (rule trim_id) (auto simp: etag_of_def is_ws_def)
  then show ?thesis
    by (cases weak) (auto simp: opaque_tag_def Let_def etag_of_def starts_with_def unquote_def)
qed

lemma parse_etag:
  assumes "etag_ok h"
  shows "parse_if_none_match (etag_of weak h @ s) = etag_of weak h # parse_if_none_match s"
proof -
  have tw: "takeWhile (\<lambda>x. x \<noteq> CHR 0x22) (h @ CHR 0x22 # s) = h"
    using assms unfolding etag_ok_def by (rule takeWhile_sep)
  have dr: "drop (Suc (length h)) (h @ CHR 0x22 # s) = s" by simp
  show ?thesis
  proof (cases weak)
    case True
    then show ?thesis
      by (simp add: etag_of_def parse_if_none_match.simps(2)[of "CHR ''W''"] is_list_sep_def Let_def tw dr)
  next
    case False
    then show ?thesis
      by (simp add: etag_of_def parse_if_none_match.simps(2)[of "CHR 0x22"] is_list_sep_def Let_def tw dr)
  qed
qed

lemma parse_sep: "is_list_sep c \<Longrightarrow> parse_if_none_match (c # s) = parse_if_none_match s"
  by (simp add: parse_if_none_match.simps(2))

lemma parse_etag_list:
  "\<forall>(w, h) \<in> set ts. etag_ok h \<Longrightarrow>
   parse_if_none_match (join_with '', '' (map (\<lambda>(w, h). etag_of w h) ts)) = map (\<lambda>(w, h). etag_of w h) ts"
proof (induction ts)
  case (Cons t ts)
  obtain w h where t: "t = (w, h)" by force
  show ?case
  proof (cases ts)
    case Nil
    then show ?thesis using Cons.prems parse_etag[of h w "[]"] t by simp
  next
    case (Cons t' ts')
    have "parse_if_none_match (join_with '', '' (map (\<lambda>(w, h). etag_of w h) (t # ts)))
        = parse_if_none_match (etag_of w h @ '', '' @ join_with '', '' (map (\<lambda>(w, h). etag_of w h) ts))"
      by (simp add: join_with_Cons t Cons)
    also have "\<dots> = etag_of w h # parse_if_none_match (join_with '', '' (map (\<lambda>(w, h). etag_of w h) ts))"
      using Cons.prems t by (simp add: parse_etag parse_sep is_list_sep_def)
    finally show ?thesis using Cons.IH Cons.prems t by simp
  qed
qed simp

text \<open>\<open>If-None-Match\<close> with a list of entity tags, in one header or several, is true of the current
  tag exactly when one of them names the same representation: the comparison is weak (the \<open>W/\<close>
  on either side does not matter), and commas inside a tag do not cut it.\<close>

theorem if_none_match_weak:
  assumes "\<forall>(w, h) \<in> set ts. etag_ok h" "ts \<noteq> []"
  shows "if_none_match_matches (Some (map (\<lambda>(w, h). etag_of w h) ts)) (Some (etag_of w' h')) \<longleftrightarrow> h' \<in> snd ` set ts"
proof -
  let ?raw = "join_with '', '' (map (\<lambda>(w, h). etag_of w h) ts)"
  obtain w h ts' where ts: "ts = (w, h) # ts'" using assms(2) by (cases ts) auto
  have "trim ?raw \<noteq> []"
  proof -
    have "\<exists>c \<in> set ?raw. \<not> is_ws c"
      by (auto simp: ts join_with_Cons etag_of_def is_ws_def)
    then show ?thesis by (simp only: trim_empty) blast
  qed
  moreover have "''*'' \<notin> set (map (\<lambda>(w, h). etag_of w h) ts)"
    by (auto simp: etag_of_def)
  moreover have "etag_of w' h' \<noteq> []" by (simp add: etag_of_def)
  ultimately have "if_none_match_matches (Some (map (\<lambda>(w, h). etag_of w h) ts)) (Some (etag_of w' h'))
      \<longleftrightarrow> (\<exists>(w, h) \<in> set ts. h = h')"
    using parse_etag_list[OF assms(1)]
    by (simp add: if_none_match_matches_def Let_def opaque_tag_etag list_ex_iff case_prod_unfold)
  then show ?thesis by force
qed

theorem if_none_match_weak_witness:
  "if_none_match_matches (Some [''W/'' @ [CHR 0x22] @ ''a,b'' @ [CHR 0x22], [CHR 0x22] @ ''c'' @ [CHR 0x22]])
     (Some ([CHR 0x22] @ ''a,b'' @ [CHR 0x22]))"
proof -
  have "if_none_match_matches (Some (map (\<lambda>(w, h). etag_of w h) [(True, ''a,b''), (False, ''c'')])) (Some (etag_of False ''a,b''))"
    by (subst if_none_match_weak) (simp_all add: etag_ok_def)
  then show ?thesis by (simp add: etag_of_def)
qed

end
