(* ===== verification/Cache_Plugin.thy ===== *)
theory Cache_Plugin
  imports Native_Response Cache_Store Cache_Key
begin

text \<open>
  \<open>packages/cache/src/plugin.ts\<close>: \<open>useCache\<close>, its \<open>onRequest\<close> hook, the wrapped response and the
  invalidation API, and the middleware of \<open>control.ts\<close>, on the native adapter's response.

  The backend is any \<open>CacheStore\<close>, a record of operations; one whose \<open>get\<close> fails behaves as a miss
  and one whose \<open>acquireRefreshLock\<close> fails as a refusal, which is what the plugin makes of them. A
  store write is done when it is issued (the code does not await it). A lookup reads the clock
  three times: for the store, for the age, and for the lock. The marker that \<open>cached()\<close> left in
  the request state is a parameter of the calls that read it.
\<close>

record cached_marker =
  cm_ttl :: "int option"
  cm_swr :: "int option"
  cm_vary :: "string list option"

definition cached :: "int option \<Rightarrow> int option \<Rightarrow> string list option \<Rightarrow> cached_marker option \<Rightarrow> cached_marker option" where
  "cached ttl swr vary current =
     (case current of
        Some m \<Rightarrow> Some m
      | None \<Rightarrow> Some \<lparr> cm_ttl = ttl, cm_swr = swr,
          cm_vary = (case vary of Some (h # hs) \<Rightarrow> Some (map to_lower (h # hs)) | _ \<Rightarrow> None) \<rparr>)"

record cache_options =
  op_default_ttl :: "int option"
  op_swr :: "int option"
  op_etag :: "etag_mode option option"
  op_routes :: "string list option"
  op_vary :: "string list option"
  op_private :: "bool option"
  op_statuses :: "int list option"
  op_lock_ttl :: "int option"

text \<open>What \<open>useCache\<close> captures: \<open>cg_etag = None\<close> is \<open>etag: false\<close>.\<close>

record cache_config =
  cg_etag :: "etag_mode option"
  cg_ttl :: int
  cg_swr :: int
  cg_vary :: "string list"
  cg_private :: bool
  cg_statuses :: "int list"
  cg_prefixes :: "string list"
  cg_lock_ttl :: int

definition normalize_prefix :: "string \<Rightarrow> string" where
  "normalize_prefix p =
     (let q = (if ends_with p ''/'' \<and> p \<noteq> ''/'' then butlast p else p)
      in if q = [] then ''/'' else q)"

definition or_else :: "'a option \<Rightarrow> 'a \<Rightarrow> 'a" where
  "or_else x d = (case x of Some v \<Rightarrow> v | None \<Rightarrow> d)"

definition default_cacheable_statuses :: "int list" where
  "default_cacheable_statuses = [200, 203, 301, 404]"

definition use_cache_config :: "cache_options \<Rightarrow> cache_config" where
  "use_cache_config o1 = \<lparr>
     cg_etag = or_else (op_etag o1) (Some Weak),
     cg_ttl = or_else (op_default_ttl o1) 30,
     cg_swr = or_else (op_swr o1) 0,
     cg_vary = map to_lower (or_else (op_vary o1) []),
     cg_private = or_else (op_private o1) False,
     cg_statuses = or_else (op_statuses o1) default_cacheable_statuses,
     cg_prefixes = map normalize_prefix (or_else (op_routes o1) []),
     cg_lock_ttl = or_else (op_lock_ttl o1) 30 \<rparr>"

record 's cache_backend =
  cb_get :: "int \<Rightarrow> string \<Rightarrow> 's \<Rightarrow> cache_entry option \<times> 's"
  cb_set :: "int \<Rightarrow> string \<Rightarrow> cache_entry \<Rightarrow> int \<Rightarrow> 's \<Rightarrow> 's"
  cb_delete :: "string \<Rightarrow> 's \<Rightarrow> 's"
  cb_clear :: "'s \<Rightarrow> 's"
  cb_delete_prefix :: "(string \<Rightarrow> 's \<Rightarrow> 's) option"
  cb_acquire :: "(int \<Rightarrow> string \<Rightarrow> int \<Rightarrow> 's \<Rightarrow> bool \<times> 's) option"
  cb_release :: "(string \<Rightarrow> 's \<Rightarrow> 's) option"

record 's cache_plugin =
  pl_store :: 's
  pl_flags :: "(string, int) jsmap"

subsection \<open>The refresh claim\<close>

definition acquire_refresh ::
    "cache_config \<Rightarrow> 's cache_backend \<Rightarrow> int \<Rightarrow> string \<Rightarrow> 's cache_plugin \<Rightarrow> bool \<times> 's cache_plugin" where
  "acquire_refresh cg be now key pl =
     (case cb_acquire be of
        Some acq \<Rightarrow> (let (ok, s) = acq now key (cg_lock_ttl cg) (pl_store pl) in (ok, pl\<lparr>pl_store := s\<rparr>))
      | None \<Rightarrow>
          (case map_of (pl_flags pl) key of
             Some held \<Rightarrow> if held > now then (False, pl)
               else (True, pl\<lparr>pl_flags := AList.update key (now + cg_lock_ttl cg * 1000) (pl_flags pl)\<rparr>)
           | None \<Rightarrow> (True, pl\<lparr>pl_flags := AList.update key (now + cg_lock_ttl cg * 1000) (pl_flags pl)\<rparr>)))"

definition release_refresh :: "'s cache_backend \<Rightarrow> string \<Rightarrow> 's cache_plugin \<Rightarrow> 's cache_plugin" where
  "release_refresh be key pl =
     (case cb_release be of
        Some rel \<Rightarrow> pl\<lparr>pl_store := rel key (pl_store pl)\<rparr>
      | None \<Rightarrow> pl\<lparr>pl_flags := AList.delete key (pl_flags pl)\<rparr>)"

subsection \<open>Eligibility\<close>

definition is_request_eligible :: "cache_config \<Rightarrow> request \<Rightarrow> bool" where
  "is_request_eligible cg req \<longleftrightarrow> cg_private cg \<or>
     (get_request_header req ''authorization'' = None \<and> get_request_header req ''cookie'' = None)"

definition matches_route_prefix :: "cache_config \<Rightarrow> string \<Rightarrow> bool" where
  "matches_route_prefix cg path \<longleftrightarrow>
     list_ex (\<lambda>p. p = ''/'' \<or> path = p \<or> starts_with path (p @ ''/'')) (cg_prefixes cg)"

definition vary_matches :: "cache_entry \<Rightarrow> request \<Rightarrow> bool" where
  "vary_matches e req \<longleftrightarrow>
     (case ce_vary e of
        None \<Rightarrow> True
      | Some vs \<Rightarrow> list_all (\<lambda>(n, v). or_else (get_request_header req n) [] = v) vs)"

definition if_none_match_header :: "request \<Rightarrow> string list option" where
  "if_none_match_header req = map_of (rq_headers req) ''if-none-match''"

subsection \<open>Serving an entry\<close>

datatype x_cache = HIT | STALE | MISS | EXPIRED

definition x_cache_name :: "x_cache \<Rightarrow> string" where
  "x_cache_name x = (case x of HIT \<Rightarrow> ''HIT'' | STALE \<Rightarrow> ''STALE'' | MISS \<Rightarrow> ''MISS'' | EXPIRED \<Rightarrow> ''EXPIRED'')"

definition serve_body :: "request \<Rightarrow> cache_entry \<Rightarrow> native_response act" where
  "serve_body req e r =
     nr_send_raw (JStr (if rq_method req = HEAD then [] else ce_payload e)) (ce_content_type e)
       (nr_status (ce_status e) r)"

definition serve_entry ::
    "cache_config \<Rightarrow> request \<Rightarrow> cache_entry \<Rightarrow> x_cache \<Rightarrow> int \<Rightarrow> native_response act" where
  "serve_entry cg req e kind age =
     seq_act (nr_header ''X-Cache'' (x_cache_name kind))
     (seq_act (nr_header ''Age'' (show_int (max 0 (age div 1000))))
     (case ce_etag e of
        Some (c # t) \<Rightarrow>
          if cg_etag cg \<noteq> None then
            seq_act (nr_header ''ETag'' (c # t))
              (if if_none_match_matches (if_none_match_header req) (Some (c # t))
               then (\<lambda>r. nr_send_raw (JStr []) ''text/plain'' (nr_status 304 r))
               else serve_body req e)
          else serve_body req e
      | _ \<Rightarrow> serve_body req e))"

subsection \<open>The onRequest hook\<close>

text \<open>\<open>Wrapped\<close>: the request goes on to the handler, with the response wrapped and possibly as the
  one that refreshes the entry.\<close>

datatype lookup_outcome = Ignored | Served cache_entry x_cache int | Wrapped bool

record lookup_times =
  lt_get :: int
  lt_age :: int
  lt_lock :: int

definition cache_lookup ::
    "cache_config \<Rightarrow> 's cache_backend \<Rightarrow> lookup_times \<Rightarrow> request \<Rightarrow> native_response \<Rightarrow> 's cache_plugin
       \<Rightarrow> lookup_outcome \<times> 's cache_plugin" where
  "cache_lookup cg be ts req r pl =
     (if (rq_method req \<noteq> GET \<and> rq_method req \<noteq> HEAD) \<or> nr_headers_sent r then (Ignored, pl)
      else if \<not> is_request_eligible cg req then (Wrapped False, pl)
      else
        let key = request_cache_key req (cg_vary cg);
            (found, s) = cb_get be (lt_get ts) key (pl_store pl);
            pl1 = pl\<lparr>pl_store := s\<rparr>
        in case found of
             None \<Rightarrow> (Wrapped False, pl1)
           | Some e \<Rightarrow>
               if \<not> vary_matches e req then (Wrapped False, pl1)
               else
                 let age = lt_age ts - ce_stored_at e
                 in if age \<le> ce_ttl_ms e then (Served e HIT age, pl1)
                    else if age \<le> ce_ttl_ms e + ce_swr_ms e then
                      (let (ok, pl2) = acquire_refresh cg be (lt_lock ts) key pl1
                       in if ok then (Wrapped True, pl2) else (Served e STALE age, pl2))
                    else (Wrapped False, pl1))"

definition cache_on_request ::
    "cache_config \<Rightarrow> 's cache_backend \<Rightarrow> lookup_times \<Rightarrow> request \<Rightarrow> native_response \<Rightarrow> 's cache_plugin
       \<Rightarrow> lookup_outcome \<times> (thrown option \<times> native_response) \<times> 's cache_plugin" where
  "cache_on_request cg be ts req r pl =
     (let (out, pl') = cache_lookup cg be ts req r pl
      in (out, (case out of Served e kind age \<Rightarrow> serve_entry cg req e kind age r | _ \<Rightarrow> (None, r)), pl'))"

subsection \<open>The wrapped response\<close>

record wrapped =
  wr_res :: native_response
  wr_saw_set_cookie :: bool
  wr_finished :: bool

definition wrap_response :: "native_response \<Rightarrow> wrapped" where
  "wrap_response r = \<lparr> wr_res = r, wr_saw_set_cookie = False, wr_finished = False \<rparr>"

definition on_wrapped :: "native_response act \<Rightarrow> wrapped act" where
  "on_wrapped f w = (let (e, r) = f (wr_res w) in (e, w\<lparr>wr_res := r\<rparr>))"

definition wr_header :: "string \<Rightarrow> string \<Rightarrow> wrapped act" where
  "wr_header k v w =
     on_wrapped (nr_header k v)
       (if to_lower k = ''set-cookie'' then w\<lparr>wr_saw_set_cookie := True\<rparr> else w)"

definition wr_cookie :: "string \<Rightarrow> string \<Rightarrow> cookie_options \<Rightarrow> wrapped act" where
  "wr_cookie n v opts w = on_wrapped (nr_cookie n v opts) (w\<lparr>wr_saw_set_cookie := True\<rparr>)"

text \<open>\<open>getHeaderCaseInsensitive('set-cookie')\<close> on this adapter, which has no \<open>getHeaders\<close>.\<close>

definition has_set_cookie_header :: "native_response \<Rightarrow> bool" where
  "has_set_cookie_header r \<longleftrightarrow> nr_get_header ''set-cookie'' r \<noteq> None \<or> nr_get_header ''Set-Cookie'' r \<noteq> None"

definition should_store ::
    "cache_config \<Rightarrow> request \<Rightarrow> cached_marker option \<Rightarrow> bool \<Rightarrow> int \<Rightarrow> wrapped \<Rightarrow> (int \<times> int) option" where
  "should_store cg req marker eligible status w =
     (if \<not> eligible then None
      else if status \<notin> set (cg_statuses cg) then None
      else if wr_saw_set_cookie w \<or> has_set_cookie_header (wr_res w) then None
      else if or_else (nr_get_header ''Content-Encoding'' (wr_res w)) [] \<noteq> [] then None
      else
        let cc = to_lower (or_else (nr_get_header ''Cache-Control'' (wr_res w)) [])
        in if str_includes cc ''no-store'' then None
           else if str_includes cc ''private'' \<and> \<not> cg_private cg then None
           else if marker = None \<and> \<not> matches_route_prefix cg (rq_path req) then None
           else
             let ttl = (case marker of Some m \<Rightarrow> or_else (cm_ttl m) (cg_ttl cg) | None \<Rightarrow> cg_ttl cg);
                 swr = (case marker of Some m \<Rightarrow> or_else (cm_swr m) (cg_swr cg) | None \<Rightarrow> cg_swr cg)
             in if ttl > 0 then Some (ttl, swr) else None)"

definition make_entry ::
    "int \<Rightarrow> request \<Rightarrow> cached_marker option \<Rightarrow> string \<Rightarrow> int \<Rightarrow> string \<Rightarrow> string option \<Rightarrow> int \<times> int \<Rightarrow> cache_entry" where
  "make_entry now req marker body status ctype etag fresh =
     \<lparr> ce_payload = body, ce_status = status, ce_content_type = ctype, ce_etag = etag, ce_stored_at = now,
       ce_ttl_ms = fst fresh * 1000, ce_swr_ms = snd fresh * 1000,
       ce_vary = (case marker of
           Some m \<Rightarrow> (case cm_vary m of
               Some (h # hs) \<Rightarrow> Some (fold (\<lambda>n vs. AList.update n (or_else (get_request_header req n) []) vs) (h # hs) [])
             | _ \<Rightarrow> None)
         | None \<Rightarrow> None) \<rparr>"

text \<open>The result of a wrapped \<open>send\<close>: the exception and the response, the store write that is issued
  (with its lifetime in seconds), and whether the refresh claim is given back.\<close>

record finish_result =
  fr_thrown :: "thrown option"
  fr_wrapped :: wrapped
  fr_write :: "(cache_entry \<times> int) option"
  fr_release :: bool

definition finish_with :: "thrown option \<times> wrapped \<Rightarrow> (cache_entry \<times> int) option \<Rightarrow> bool \<Rightarrow> finish_result" where
  "finish_with ew write rel = (case ew of
       (Some t, w) \<Rightarrow> \<lparr> fr_thrown = Some t, fr_wrapped = w, fr_write = None, fr_release = False \<rparr>
     | (None, w) \<Rightarrow> \<lparr> fr_thrown = None, fr_wrapped = w, fr_write = write, fr_release = rel \<rparr>)"

definition finish_store ::
    "cache_config \<Rightarrow> int \<Rightarrow> request \<Rightarrow> cached_marker option \<Rightarrow> bool \<Rightarrow> bool \<Rightarrow> string \<Rightarrow> string
       \<Rightarrow> native_response act \<Rightarrow> int \<Rightarrow> string option \<Rightarrow> wrapped \<Rightarrow> finish_result" where
  "finish_store cg now req marker eligible refreshing body ctype emit_raw status etag w =
     (case should_store cg req marker eligible status w of
        None \<Rightarrow> finish_with (on_wrapped emit_raw w) None refreshing
      | Some fresh \<Rightarrow>
          finish_with (seq_act (wr_header ''X-Cache'' (x_cache_name (if refreshing then EXPIRED else MISS)))
                               (on_wrapped emit_raw) w)
            (Some (make_entry now req marker body status ctype etag fresh, fst fresh + snd fresh)) refreshing)"

definition wr_finish ::
    "cache_config \<Rightarrow> (string \<Rightarrow> string) \<Rightarrow> int \<Rightarrow> request \<Rightarrow> cached_marker option \<Rightarrow> bool \<Rightarrow> bool \<Rightarrow> string \<Rightarrow> string
       \<Rightarrow> native_response act \<Rightarrow> wrapped \<Rightarrow> finish_result" where
  "wr_finish cg sha1 now req marker eligible refreshing body ctype emit_raw w =
     (if wr_finished w \<or> nr_headers_sent (wr_res w) then finish_with (on_wrapped emit_raw w) None False
      else
        let w1 = w\<lparr>wr_finished := True\<rparr>;
            status = nr_status_code (wr_res w1);
            etag0 = (case nr_get_header ''ETag'' (wr_res w1) of Some t \<Rightarrow> Some t | None \<Rightarrow> nr_get_header ''etag'' (wr_res w1))
        in case cg_etag cg of
             Some mode \<Rightarrow>
               if 200 \<le> status \<and> status < 300 then
                 (let computed = (etag0 = None \<or> etag0 = Some []);
                      etag = (if computed then compute_etag sha1 body mode else the etag0)
                  in case (if computed then wr_header ''ETag'' etag w1 else (None, w1)) of
                       (Some t, w2) \<Rightarrow> finish_with (Some t, w2) None False
                     | (None, w2) \<Rightarrow>
                         if if_none_match_matches (if_none_match_header req) (Some etag) then
                           (finish_with (on_wrapped (\<lambda>r. nr_send_raw (JStr []) ''text/plain'' (nr_status 304 r)) w2) None refreshing)
                             \<lparr>fr_release := refreshing\<rparr>
                         else finish_store cg now req marker eligible refreshing body ctype emit_raw status (Some etag) w2)
               else finish_store cg now req marker eligible refreshing body ctype emit_raw status etag0 w1
           | None \<Rightarrow> finish_store cg now req marker eligible refreshing body ctype emit_raw status etag0 w1)"

definition wr_send ::
    "cache_config \<Rightarrow> (string \<Rightarrow> string) \<Rightarrow> serializer \<Rightarrow> int \<Rightarrow> request \<Rightarrow> cached_marker option \<Rightarrow> bool \<Rightarrow> bool
       \<Rightarrow> jsval \<Rightarrow> string option \<Rightarrow> wrapped \<Rightarrow> finish_result" where
  "wr_send cg sha1 ser now req marker eligible refreshing data msg w =
     (if nr_headers_sent (wr_res w) then finish_with (None, w) None False
      else
        case ser \<lparr> si_data = data, si_message = msg, si_status = nr_status_code (wr_res w),
                   si_is_error = (nr_status_code (wr_res w) \<ge> 400) \<rparr> of
          SerThrow _ \<Rightarrow> finish_with (on_wrapped (nr_send ser data msg) w) None False
        | res \<Rightarrow>
            let payload = (case res of SerValue v \<Rightarrow> v | _ \<Rightarrow> JObj [])
            in case json_stringify payload of
                 None \<Rightarrow> finish_with (on_wrapped (nr_send ser data msg) w) None False
               | Some body \<Rightarrow>
                   wr_finish cg sha1 now req marker eligible refreshing body ''application/json''
                     (\<lambda>r. nr_send_raw (JStr (if rq_method req = HEAD then [] else body)) ''application/json''
                            (r\<lparr>nr_payload := payload, nr_message := msg\<rparr>)) w)"

definition wr_send_raw ::
    "cache_config \<Rightarrow> (string \<Rightarrow> string) \<Rightarrow> int \<Rightarrow> request \<Rightarrow> cached_marker option \<Rightarrow> bool \<Rightarrow> bool
       \<Rightarrow> jsval \<Rightarrow> string option \<Rightarrow> wrapped \<Rightarrow> finish_result" where
  "wr_send_raw cg sha1 now req marker eligible refreshing payload ctype w =
     (if nr_headers_sent (wr_res w) then finish_with (None, w) None False
      else wr_finish cg sha1 now req marker eligible refreshing (js_string payload) (or_else ctype ''text/plain'')
             (nr_send_raw (if rq_method req = HEAD then JStr [] else payload) (or_else ctype ''text/plain'')) w)"

text \<open>The effects of a wrapped send on the plugin, under the key of its request.\<close>

definition apply_finish :: "'s cache_backend \<Rightarrow> int \<Rightarrow> string \<Rightarrow> finish_result \<Rightarrow> 's cache_plugin \<Rightarrow> 's cache_plugin" where
  "apply_finish be now key fr pl =
     (let pl1 = (case fr_write fr of
                   Some (e, ttl) \<Rightarrow> pl\<lparr>pl_store := cb_set be now key e ttl (pl_store pl)\<rparr> | None \<Rightarrow> pl)
      in if fr_release fr then release_refresh be key pl1 else pl1)"

subsection \<open>Invalidation\<close>

definition api_methods :: "http_method option \<Rightarrow> http_method list" where
  "api_methods m = (case m of Some x \<Rightarrow> [x] | None \<Rightarrow> [GET, HEAD])"

definition api_invalidate :: "'s cache_backend \<Rightarrow> string \<Rightarrow> http_method option \<Rightarrow> jsval \<Rightarrow> 's cache_plugin \<Rightarrow> 's cache_plugin" where
  "api_invalidate be path m query pl =
     pl\<lparr>pl_store := fold (\<lambda>x. cb_delete be (build_cache_key (method_name x) path query [])) (api_methods m) (pl_store pl)\<rparr>"

definition api_invalidate_path ::
    "'s cache_backend \<Rightarrow> string \<Rightarrow> http_method option \<Rightarrow> 's cache_plugin \<Rightarrow> thrown option \<times> 's cache_plugin" where
  "api_invalidate_path be path m pl =
     (case cb_delete_prefix be of
        None \<Rightarrow> (Some (plain_error ''[axiomify/cache] invalidatePath() requires a store implementing deleteByPrefix().''), pl)
      | Some del \<Rightarrow> (None, pl\<lparr>pl_store := fold (\<lambda>x. del (path_key_prefix (method_name x) path)) (api_methods m) (pl_store pl)\<rparr>))"

definition api_clear :: "'s cache_backend \<Rightarrow> 's cache_plugin \<Rightarrow> 's cache_plugin" where
  "api_clear be pl = pl\<lparr>pl_store := cb_clear be (pl_store pl)\<rparr>"

subsection \<open>Cache-Control middleware\<close>

definition cache_control_middleware :: "string \<Rightarrow> native_response act" where
  "cache_control_middleware v r =
     (if or_else (nr_get_header ''Cache-Control'' r) [] \<noteq> [] then (None, r) else nr_header ''Cache-Control'' v r)"

definition no_cache :: "native_response act" where
  "no_cache = cache_control_middleware ''no-store, no-cache, must-revalidate''"

end
