(* ===== verification/Cache_Provenance.thy ===== *)
theory Cache_Provenance
  imports Cache_Plugin
begin

text \<open>
  What the cache may answer. A run is a sequence of events: lookups, sends of wrapped responses
  (with whatever the handlers did to them before), invalidations. Every entry that is served was
  written by an earlier send for the same key, of a response that may be shared, and was not
  invalidated since. The proof needs the laws of \<open>cache_store\<close> only; the properties are those of
  \<open>MemoryCacheStore\<close>.
\<close>

datatype plugin_event =
    ELookup lookup_times request native_response
  | ESend int request "cached_marker option" bool jsval "string option" wrapped
  | ESendRaw int request "cached_marker option" bool jsval "string option" wrapped
  | EInvalidate string "http_method option" jsval
  | EInvalidatePath string "http_method option"
  | EClear

text \<open>The request, marker and response of a send, and its result.\<close>

fun event_send ::
    "cache_config \<Rightarrow> (string \<Rightarrow> string) \<Rightarrow> serializer \<Rightarrow> plugin_event
       \<Rightarrow> (int \<times> request \<times> cached_marker option \<times> wrapped \<times> finish_result) option" where
  "event_send cg sha1 ser (ESend now req mk refr d msg w) =
     Some (now, req, mk, w, wr_send cg sha1 ser now req mk (is_request_eligible cg req) refr d msg w)"
| "event_send cg sha1 ser (ESendRaw now req mk refr d ct w) =
     Some (now, req, mk, w, wr_send_raw cg sha1 now req mk (is_request_eligible cg req) refr d ct w)"
| "event_send cg sha1 ser _ = None"

definition plugin_step ::
    "cache_config \<Rightarrow> 's cache_backend \<Rightarrow> (string \<Rightarrow> string) \<Rightarrow> serializer \<Rightarrow> plugin_event \<Rightarrow> 's cache_plugin \<Rightarrow> 's cache_plugin" where
  "plugin_step cg be sha1 ser ev pl =
     (case ev of
        ELookup ts req r \<Rightarrow> snd (cache_lookup cg be ts req r pl)
      | EInvalidate p m q \<Rightarrow> api_invalidate be p m q pl
      | EInvalidatePath p m \<Rightarrow> snd (api_invalidate_path be p m pl)
      | EClear \<Rightarrow> api_clear be pl
      | _ \<Rightarrow> (case event_send cg sha1 ser ev of
                Some (now, req, mk, w, fr) \<Rightarrow> apply_finish be now (request_cache_key req (cg_vary cg)) fr pl
              | None \<Rightarrow> pl))"

definition plugin_run ::
    "cache_config \<Rightarrow> 's cache_backend \<Rightarrow> (string \<Rightarrow> string) \<Rightarrow> serializer \<Rightarrow> plugin_event list \<Rightarrow> 's cache_plugin \<Rightarrow> 's cache_plugin" where
  "plugin_run cg be sha1 ser evs pl = fold (plugin_step cg be sha1 ser) evs pl"

text \<open>The key and entry an event writes, and the events that drop a key.\<close>

definition writes :: "cache_config \<Rightarrow> (string \<Rightarrow> string) \<Rightarrow> serializer \<Rightarrow> plugin_event \<Rightarrow> (string \<times> cache_entry) option" where
  "writes cg sha1 ser ev =
     (case event_send cg sha1 ser ev of
        Some (now, req, mk, w, fr) \<Rightarrow> map_option (\<lambda>(e, ttl). (request_cache_key req (cg_vary cg), e)) (fr_write fr)
      | None \<Rightarrow> None)"

fun invalidates :: "plugin_event \<Rightarrow> string \<Rightarrow> bool" where
  "invalidates EClear k = True"
| "invalidates (EInvalidatePath p m) k = list_ex (\<lambda>x. starts_with k (path_key_prefix (method_name x) p)) (api_methods m)"
| "invalidates (EInvalidate p m q) k = list_ex (\<lambda>x. k = build_cache_key (method_name x) p q []) (api_methods m)"
| "invalidates _ k = False"

definition originates ::
    "cache_config \<Rightarrow> (string \<Rightarrow> string) \<Rightarrow> serializer \<Rightarrow> plugin_event list \<Rightarrow> string \<Rightarrow> cache_entry \<Rightarrow> bool" where
  "originates cg sha1 ser evs k e \<longleftrightarrow>
     (\<exists>pre ev post. evs = pre @ ev # post \<and> writes cg sha1 ser ev = Some (k, e) \<and> (\<forall>ev' \<in> set post. \<not> invalidates ev' k))"

lemma originates_snoc:
  "writes cg sha1 ser ev = Some (k, e) \<or> (originates cg sha1 ser evs k e \<and> \<not> invalidates ev k)
   \<Longrightarrow> originates cg sha1 ser (evs @ [ev]) k e"
proof (elim disjE conjE)
  assume "writes cg sha1 ser ev = Some (k, e)"
  then show ?thesis unfolding originates_def by (intro exI[of _ evs] exI[of _ ev] exI[of _ "[]"]) auto
next
  assume "originates cg sha1 ser evs k e" "\<not> invalidates ev k"
  then obtain pre ev' post where "evs = pre @ ev' # post" "writes cg sha1 ser ev' = Some (k, e)"
    "\<forall>x \<in> set post. \<not> invalidates x k" by (auto simp: originates_def)
  with \<open>\<not> invalidates ev k\<close> show ?thesis
    unfolding originates_def by (intro exI[of _ pre] exI[of _ ev'] exI[of _ "post @ [ev]"]) auto
qed

definition make_backend ::
    "(int \<Rightarrow> string \<Rightarrow> 's \<Rightarrow> cache_entry option \<times> 's) \<Rightarrow> (int \<Rightarrow> string \<Rightarrow> cache_entry \<Rightarrow> int \<Rightarrow> 's \<Rightarrow> 's)
      \<Rightarrow> (string \<Rightarrow> 's \<Rightarrow> 's) \<Rightarrow> (string \<Rightarrow> 's \<Rightarrow> 's) \<Rightarrow> ('s \<Rightarrow> 's) \<Rightarrow> (int \<Rightarrow> string \<Rightarrow> int \<Rightarrow> 's \<Rightarrow> bool \<times> 's)
      \<Rightarrow> (string \<Rightarrow> 's \<Rightarrow> 's) \<Rightarrow> 's cache_backend" where
  "make_backend g st d dp c acq rel = \<lparr> cb_get = g, cb_set = st, cb_delete = d, cb_clear = c,
     cb_delete_prefix = Some dp, cb_acquire = Some acq, cb_release = Some rel \<rparr>"

context cache_store
begin

lemma fold_inv_holds:
  assumes "inv s" "\<And>x s. inv s \<Longrightarrow> inv (f x s)" "\<And>x s. inv s \<Longrightarrow> holds (f x s) k e \<Longrightarrow> holds s k e \<and> \<not> bad x"
  shows "inv (fold f xs s)" "holds (fold f xs s) k e \<Longrightarrow> holds s k e \<and> (\<forall>x \<in> set xs. \<not> bad x)"
  using assms(1)
proof (induction xs arbitrary: s)
  case (Cons x xs)
  { case 1 then show ?case using Cons.IH(1) assms(2) by simp }
  { case 2
    then show ?case using Cons.IH(2)[of "f x s"] assms(2,3)[of s x] by auto }
qed auto

lemma lookup_preserves:
  assumes "inv (pl_store pl)"
  shows "inv (pl_store (snd (cache_lookup cg (make_backend get set_entry del del_prefix clear acquire release) ts req r pl)))"
    and "holds (pl_store (snd (cache_lookup cg (make_backend get set_entry del del_prefix clear acquire release) ts req r pl))) k e
      \<Longrightarrow> holds (pl_store pl) k e"
proof -
  let ?be = "make_backend get set_entry del del_prefix clear acquire release"
  have cases: "\<exists>s. pl_store (snd (cache_lookup cg ?be ts req r pl)) = s \<and>
      (s = pl_store pl \<or> s = snd (get (lt_get ts) (request_cache_key req (cg_vary cg)) (pl_store pl))
       \<or> s = snd (acquire (lt_lock ts) (request_cache_key req (cg_vary cg)) (cg_lock_ttl cg)
                (snd (get (lt_get ts) (request_cache_key req (cg_vary cg)) (pl_store pl)))))"
    by (auto simp: cache_lookup_def make_backend_def acquire_refresh_def Let_def split: prod.splits option.splits)
  show "inv (pl_store (snd (cache_lookup cg ?be ts req r pl)))"
    using cases assms get_inv acquire_inv by metis
  show "holds (pl_store (snd (cache_lookup cg ?be ts req r pl))) k e \<Longrightarrow> holds (pl_store pl) k e"
    using cases assms get_inv get_keeps acquire_holds by metis
qed

lemma finish_preserves:
  assumes "inv (pl_store pl)"
  shows "inv (pl_store (apply_finish (make_backend get set_entry del del_prefix clear acquire release) now key fr pl))"
    and "holds (pl_store (apply_finish (make_backend get set_entry del del_prefix clear acquire release) now key fr pl)) k e
      \<Longrightarrow> (\<exists>ttl. fr_write fr = Some (e, ttl) \<and> k = key) \<or> holds (pl_store pl) k e"
proof -
  let ?be = "make_backend get set_entry del del_prefix clear acquire release"
  define s1 where "s1 = (case fr_write fr of Some (e, ttl) \<Rightarrow> set_entry now key e ttl (pl_store pl) | None \<Rightarrow> pl_store pl)"
  have s: "pl_store (apply_finish ?be now key fr pl) = (if fr_release fr then release key s1 else s1)"
    by (simp add: apply_finish_def release_refresh_def make_backend_def Let_def s1_def split: option.splits)
  have i1: "inv s1" using assms set_inv by (simp add: s1_def split: option.splits)
  have h1: "(\<exists>ttl. fr_write fr = Some (e, ttl) \<and> k = key) \<or> holds (pl_store pl) k e" if "holds s1 k e"
    using that assms set_holds unfolding s1_def by (auto split: option.splits) blast+
  show "inv (pl_store (apply_finish ?be now key fr pl))" using i1 release_inv by (simp add: s)
  show "holds (pl_store (apply_finish ?be now key fr pl)) k e
      \<Longrightarrow> (\<exists>ttl. fr_write fr = Some (e, ttl) \<and> k = key) \<or> holds (pl_store pl) k e"
    using h1 i1 release_holds unfolding s by (metis (full_types))
qed

lemma step_preserves:
  assumes i: "inv (pl_store pl)"
  shows "inv (pl_store (plugin_step cg (make_backend get set_entry del del_prefix clear acquire release) sha1 ser ev pl))"
    and "holds (pl_store (plugin_step cg (make_backend get set_entry del del_prefix clear acquire release) sha1 ser ev pl)) k e
      \<Longrightarrow> writes cg sha1 ser ev = Some (k, e) \<or> (holds (pl_store pl) k e \<and> \<not> invalidates ev k)"
proof -
  let ?be = "make_backend get set_entry del del_prefix clear acquire release"
  let ?s = "pl_store (plugin_step cg ?be sha1 ser ev pl)"
  have "inv ?s \<and> (holds ?s k e \<longrightarrow> writes cg sha1 ser ev = Some (k, e) \<or> (holds (pl_store pl) k e \<and> \<not> invalidates ev k))"
  proof (cases ev)
    case (ELookup ts req r)
    then show ?thesis using lookup_preserves[OF i] by (auto simp: plugin_step_def)
  next
    case (ESend now req mk refr d msg w)
    then show ?thesis using finish_preserves[OF i] by (fastforce simp: plugin_step_def writes_def)
  next
    case (ESendRaw now req mk refr d ct w)
    then show ?thesis using finish_preserves[OF i] by (fastforce simp: plugin_step_def writes_def)
  next
    case (EInvalidate p m q)
    have "inv (fold (\<lambda>x. del (build_cache_key (method_name x) p q [])) ms (pl_store pl))" for ms
      by (rule fold_inv_holds(1)[OF i]) (auto intro: del_inv dest: del_holds)
    moreover have "holds (fold (\<lambda>x. del (build_cache_key (method_name x) p q [])) ms (pl_store pl)) k e
        \<Longrightarrow> holds (pl_store pl) k e \<and> (\<forall>x \<in> set ms. \<not> k = build_cache_key (method_name x) p q [])" for ms
      by (rule fold_inv_holds(2)[OF i]) (auto intro: del_inv dest: del_holds)
    ultimately show ?thesis
      using EInvalidate by (auto simp: plugin_step_def api_invalidate_def make_backend_def list_ex_iff)
  next
    case (EInvalidatePath p m)
    have "inv (fold (\<lambda>x. del_prefix (path_key_prefix (method_name x) p)) ms (pl_store pl))" for ms
      by (rule fold_inv_holds(1)[OF i]) (auto intro: del_prefix_inv dest: del_prefix_holds)
    moreover have "holds (fold (\<lambda>x. del_prefix (path_key_prefix (method_name x) p)) ms (pl_store pl)) k e
        \<Longrightarrow> holds (pl_store pl) k e \<and> (\<forall>x \<in> set ms. \<not> starts_with k (path_key_prefix (method_name x) p))" for ms
      by (rule fold_inv_holds(2)[OF i]) (auto intro: del_prefix_inv dest: del_prefix_holds)
    ultimately show ?thesis
      using EInvalidatePath by (auto simp: plugin_step_def api_invalidate_path_def make_backend_def list_ex_iff)
  next
    case EClear
    then show ?thesis using clear_inv[OF i] clear_holds[OF i]
      by (auto simp: plugin_step_def api_clear_def make_backend_def)
  qed
  then show "inv ?s" "holds ?s k e \<Longrightarrow> writes cg sha1 ser ev = Some (k, e) \<or> (holds (pl_store pl) k e \<and> \<not> invalidates ev k)"
    by auto
qed

lemma run_originates:
  assumes "inv (pl_store pl)" "\<And>k e. \<not> holds (pl_store pl) k e"
  shows "inv (pl_store (plugin_run cg (make_backend get set_entry del del_prefix clear acquire release) sha1 ser evs pl))
    \<and> (holds (pl_store (plugin_run cg (make_backend get set_entry del del_prefix clear acquire release) sha1 ser evs pl)) k e
         \<longrightarrow> originates cg sha1 ser evs k e)"
proof (induction evs rule: rev_induct)
  case Nil
  show ?case using assms by (simp add: plugin_run_def)
next
  case (snoc ev evs)
  let ?be = "make_backend get set_entry del del_prefix clear acquire release"
  have r: "plugin_run cg ?be sha1 ser (evs @ [ev]) pl = plugin_step cg ?be sha1 ser ev (plugin_run cg ?be sha1 ser evs pl)"
    by (simp add: plugin_run_def)
  note st = step_preserves[OF conjunct1[OF snoc.IH], where cg = cg and ser = ser and ev = ev]
  show ?case unfolding r using st snoc.IH originates_snoc by metis
qed

lemma served_originates:
  assumes "inv (pl_store pl)" "\<And>k e. \<not> holds (pl_store pl) k e"
    and run: "pl' = plugin_run cg (make_backend get set_entry del del_prefix clear acquire release) sha1 ser evs pl"
    and served: "fst (cache_lookup cg (make_backend get set_entry del del_prefix clear acquire release) ts req r pl') = Served e kind age"
  shows "originates cg sha1 ser evs (request_cache_key req (cg_vary cg)) e
    \<and> is_request_eligible cg req \<and> vary_matches e req \<and> age = lt_age ts - ce_stored_at e
    \<and> age \<le> ce_ttl_ms e + (if kind = HIT then 0 else ce_swr_ms e)"
proof -
  let ?k = "request_cache_key req (cg_vary cg)"
  obtain found s where g: "get (lt_get ts) ?k (pl_store pl') = (found, s)" by force
  have f: "found = Some e" "is_request_eligible cg req" "vary_matches e req" "age = lt_age ts - ce_stored_at e"
    "age \<le> ce_ttl_ms e + (if kind = HIT then 0 else ce_swr_ms e)"
    using served g
    by (auto simp: cache_lookup_def make_backend_def Let_def split: if_splits option.splits prod.splits)
  have "inv (pl_store pl')" using run_originates[OF assms(1,2)] run by blast
  then have "holds (pl_store pl') ?k e" using get_holds g f(1) by blast
  then show ?thesis using run_originates[OF assms(1,2)] run f by blast
qed

end

subsection \<open>What a send may write\<close>








subsection \<open>The plugin over the memory store\<close>










subsection \<open>The header names\<close>

lemma should_store_irrelevant_header:
  assumes "h \<notin> {''set-cookie'', ''Set-Cookie'', ''Content-Encoding'', ''Cache-Control''}" "to_lower h \<noteq> ''set-cookie''"
  shows "should_store cg req mk el st (snd (wr_header h v w)) = should_store cg req mk el st w"
proof -
  have ne: "''Cache-Control'' \<noteq> h" "''Content-Encoding'' \<noteq> h" "''set-cookie'' \<noteq> h" "''Set-Cookie'' \<noteq> h"
    using assms(1) by auto
  then have g: "nr_get_header x (wr_res (snd (wr_header h v w))) = nr_get_header x (wr_res w)"
    if "x \<in> {''set-cookie'', ''Set-Cookie'', ''Content-Encoding'', ''Cache-Control''}" for x
    using that by (auto simp: wr_header_def on_wrapped_def nr_header_def nr_get_header_def update_conv' assms(2))
  have "wr_saw_set_cookie (snd (wr_header h v w)) = wr_saw_set_cookie w"
    using assms(2) by (simp add: wr_header_def on_wrapped_def nr_header_def)
  then show ?thesis by (simp add: should_store_def has_set_cookie_header_def g)
qed

text \<open>The response headers that forbid storing are looked up by their exact spelling, and the native
  adapter keeps the spelling the application used: a \<open>cache-control\<close> or \<open>content-encoding\<close> header in
  lower case has no influence on what is stored, whatever its value (\<open>no-store\<close>, \<open>private\<close>, \<open>gzip\<close>).\<close>

theorem lowercase_directives_ignored:
  "should_store cg req mk el st (snd (wr_header ''cache-control'' v w)) = should_store cg req mk el st w
   \<and> should_store cg req mk el st (snd (wr_header ''content-encoding'' v w)) = should_store cg req mk el st w"
  by (intro conjI should_store_irrelevant_header) (simp_all add: to_lower_def)

end
