(* ===== verification/Rate_Limit.thy ===== *)
theory Rate_Limit
  imports Native_Response
begin

text \<open>
  \<open>packages/rate-limit/src/index.ts\<close>: the two stores of sliding windows (\<open>MemoryStore\<close> and
  \<open>RedisStore\<close>) and the limiter built over any \<open>RateLimitStore\<close>. Times are milliseconds; each
  \<open>Date.now()\<close> of the source is an argument. The Redis client is a parameter of \<open>RedisStore\<close>.
\<close>

subsection \<open>MemoryStore\<close>

record hits_data =
  hd_timestamps :: "int list"
  hd_start :: nat
  hd_window :: int

record rl_memory =
  rm_hits :: "(string, hits_data) jsmap"
  rm_max_keys :: nat

definition rl_memory_new :: "nat option \<Rightarrow> rl_memory" where
  "rl_memory_new mk = \<lparr> rm_hits = [], rm_max_keys = (case mk of Some n \<Rightarrow> n | None \<Rightarrow> 50000) \<rparr>"

text \<open>The loop that moves \<open>start\<close> past the timestamps that have left the window.\<close>

function advance_start :: "int list \<Rightarrow> int \<Rightarrow> nat \<Rightarrow> nat" where
  "advance_start ts ws i = (if i < length ts \<and> ts ! i \<le> ws then advance_start ts ws (Suc i) else i)"
  by pat_completeness auto
termination by (relation "measure (\<lambda>(ts, ws, i). length ts - i)") auto

declare advance_start.simps [simp del]

definition slide :: "int \<Rightarrow> hits_data \<Rightarrow> hits_data" where
  "slide ws d = d\<lparr>hd_start := advance_start (hd_timestamps d) ws (hd_start d)\<rparr>"

definition compact_hits :: "hits_data \<Rightarrow> hits_data" where
  "compact_hits d =
     (if hd_start d > 1024 \<and> hd_start d * 2 > length (hd_timestamps d)
      then d\<lparr>hd_timestamps := drop (hd_start d) (hd_timestamps d), hd_start := 0\<rparr> else d)"

text \<open>One entry of \<open>prune\<close>: the object after the loop body, and whether its key stays.\<close>

definition prune_entry :: "int \<Rightarrow> hits_data \<Rightarrow> hits_data \<times> bool" where
  "prune_entry now d =
     (let d1 = slide (now - hd_window d) d
      in if hd_start d1 \<ge> length (hd_timestamps d1) then (d1, False) else (compact_hits d1, True))"

fun prune_hits :: "int \<Rightarrow> (string, hits_data) jsmap \<Rightarrow> (string, hits_data) jsmap" where
  "prune_hits now [] = []"
| "prune_hits now ((k, d) # hs) =
     (case prune_entry now d of (d', keep) \<Rightarrow> if keep then (k, d') # prune_hits now hs else prune_hits now hs)"

definition rl_prune :: "int \<Rightarrow> rl_memory \<Rightarrow> rl_memory" where
  "rl_prune now s = s\<lparr>rm_hits := prune_hits now (rm_hits s)\<rparr>"

fun drop_oldest_keys :: "nat \<Rightarrow> (string, hits_data) jsmap \<Rightarrow> (string, hits_data) jsmap" where
  "drop_oldest_keys n [] = []"
| "drop_oldest_keys n (h # hs) = (if length (h # hs) > n then drop_oldest_keys n hs else h # hs)"

definition ceil_seconds :: "int \<Rightarrow> int" where
  "ceil_seconds ms = - ((- ms) div 1000)"

text \<open>\<open>pnow\<close> is the clock as \<open>prune\<close> reads it. The object of the key is shared with the map, so what
  \<open>prune\<close> does to it shows in the count even when the key is dropped.\<close>

definition rl_increment :: "int \<Rightarrow> int \<Rightarrow> string \<Rightarrow> int \<Rightarrow> rl_memory \<Rightarrow> (int \<times> int) \<times> rl_memory" where
  "rl_increment now pnow key window s =
     (let d0 = (case map_of (rm_hits s) key of Some d \<Rightarrow> d
                | None \<Rightarrow> \<lparr> hd_timestamps = [], hd_start = 0, hd_window = window \<rparr>);
          d1 = slide (now - window) d0;
          d2 = compact_hits (d1\<lparr>hd_timestamps := hd_timestamps d1 @ [now]\<rparr>);
          hits = AList.update key d2 (rm_hits s);
          over = length hits > rm_max_keys s;
          s' = (if over then s\<lparr>rm_hits := drop_oldest_keys (rm_max_keys s) (prune_hits pnow hits)\<rparr>
                else s\<lparr>rm_hits := hits\<rparr>);
          d3 = (if over then fst (prune_entry pnow d2) else d2);
          count = int (length (hd_timestamps d3)) - int (hd_start d3);
          oldest = (if hd_start d3 < length (hd_timestamps d3) then hd_timestamps d3 ! hd_start d3 else now)
      in ((count, ceil_seconds (oldest + window)), s'))"

subsection \<open>RedisStore\<close>

datatype arg_style = ObjectStyle | VariadicStyle

datatype redis_command =
    Eval arg_style string int string
  | EvalSha arg_style string int string

text \<open>A client: which methods it has, and what a call does to it, the error's message or the result.
  A command carries the key, the window and the member; the script and its digest are fixed.\<close>

record 'c redis_client =
  rc_has_eval :: bool
  rc_has_evalsha :: bool
  rc_call :: "int \<Rightarrow> redis_command \<Rightarrow> 'c \<Rightarrow> (string + (int \<times> int)) \<times> 'c"

record redis_store =
  rs_script_loaded :: bool
  rs_eval_style :: "arg_style option"
  rs_sha_style :: "arg_style option"

definition redis_store_new :: redis_store where
  "redis_store_new = \<lparr> rs_script_loaded = False, rs_eval_style = None, rs_sha_style = None \<rparr>"

definition noscript :: "string \<Rightarrow> bool" where
  "noscript msg \<longleftrightarrow> str_includes msg ''NOSCRIPT''"

definition redis_eval ::
    "'c redis_client \<Rightarrow> int \<Rightarrow> string \<Rightarrow> int \<Rightarrow> string \<Rightarrow> redis_store \<times> 'c \<Rightarrow> (string + (int \<times> int)) \<times> redis_store \<times> 'c" where
  "redis_eval cl now key window member st =
     (case st of (s, c) \<Rightarrow>
        if \<not> rc_has_eval cl then (Inl ''[axiomify/rate-limit] RedisClient must implement eval()'', s, c)
        else
          case rs_eval_style s of
            Some sty \<Rightarrow> (let (res, c') = rc_call cl now (Eval sty key window member) c in (res, s, c'))
          | None \<Rightarrow>
              (case rc_call cl now (Eval ObjectStyle key window member) c of
                 (Inr v, c') \<Rightarrow> (Inr v, s\<lparr>rs_eval_style := Some ObjectStyle\<rparr>, c')
               | (Inl _, c') \<Rightarrow>
                   (case rc_call cl now (Eval VariadicStyle key window member) c' of
                      (Inr v, c'') \<Rightarrow> (Inr v, s\<lparr>rs_eval_style := Some VariadicStyle\<rparr>, c'')
                    | (Inl m, c'') \<Rightarrow> (Inl m, s, c''))))"

definition redis_eval_sha ::
    "'c redis_client \<Rightarrow> int \<Rightarrow> string \<Rightarrow> int \<Rightarrow> string \<Rightarrow> redis_store \<times> 'c \<Rightarrow> (string + (int \<times> int)) \<times> redis_store \<times> 'c" where
  "redis_eval_sha cl now key window member st =
     (case st of (s, c) \<Rightarrow>
        if \<not> rc_has_evalsha cl then (Inl ''NOSCRIPT'', s, c)
        else
          case rs_sha_style s of
            Some sty \<Rightarrow> (let (res, c') = rc_call cl now (EvalSha sty key window member) c in (res, s, c'))
          | None \<Rightarrow>
              (case rc_call cl now (EvalSha VariadicStyle key window member) c of
                 (Inr v, c') \<Rightarrow> (Inr v, s\<lparr>rs_sha_style := Some VariadicStyle\<rparr>, c')
               | (Inl m1, c') \<Rightarrow>
                   if noscript m1 then (Inl m1, s, c')
                   else
                     (case rc_call cl now (EvalSha ObjectStyle key window member) c' of
                        (Inr v, c'') \<Rightarrow> (Inr v, s\<lparr>rs_sha_style := Some ObjectStyle\<rparr>, c'')
                      | (Inl m2, c'') \<Rightarrow> (Inl (if noscript m2 then m2 else m1), s, c''))))"

definition load_and_eval ::
    "'c redis_client \<Rightarrow> int \<Rightarrow> string \<Rightarrow> int \<Rightarrow> string \<Rightarrow> redis_store \<times> 'c \<Rightarrow> (string + (int \<times> int)) \<times> redis_store \<times> 'c" where
  "load_and_eval cl now key window member st =
     (case redis_eval cl now key window member st of
        (Inr v, s, c) \<Rightarrow> (Inr v, s\<lparr>rs_script_loaded := True\<rparr>, c)
      | (Inl m, s, c) \<Rightarrow> (Inl m, s, c))"

definition redis_increment ::
    "'c redis_client \<Rightarrow> int \<Rightarrow> string \<Rightarrow> int \<Rightarrow> string \<Rightarrow> redis_store \<times> 'c \<Rightarrow> (string + (int \<times> int)) \<times> redis_store \<times> 'c" where
  "redis_increment cl now key window member st =
     (if rs_script_loaded (fst st) then
        (case redis_eval_sha cl now key window member st of
           (Inr v, st') \<Rightarrow> (Inr v, st')
         | (Inl m, s, c) \<Rightarrow>
             if noscript m then load_and_eval cl now key window member (s\<lparr>rs_script_loaded := False\<rparr>, c)
             else (Inl m, s, c))
      else load_and_eval cl now key window member st)"

subsection \<open>The limiter\<close>

text \<open>What \<open>buildLimiter\<close> captures. \<open>None\<close> as the value of a user function is an exception.\<close>

record 's limiter =
  lm_window :: int
  lm_max :: int
  lm_increment :: "int \<Rightarrow> string \<Rightarrow> int \<Rightarrow> 's \<Rightarrow> (string + (int \<times> int)) \<times> 's"
  lm_key :: "(request \<Rightarrow> string option) option"
  lm_skip :: "(request \<Rightarrow> bool option) option"

record rate_limit_options =
  ro_window :: "int option"
  ro_max :: "int option"
  ro_max_requests :: "int option"
  ro_allow_memory :: bool
  ro_memory_max_keys :: "nat option"

definition limiter_window :: "rate_limit_options \<Rightarrow> int" where
  "limiter_window o1 = (case ro_window o1 of Some w \<Rightarrow> w | None \<Rightarrow> 60000)"

definition limiter_max :: "rate_limit_options \<Rightarrow> int" where
  "limiter_max o1 = (case ro_max o1 of Some m \<Rightarrow> m | None \<Rightarrow> (case ro_max_requests o1 of Some m \<Rightarrow> m | None \<Rightarrow> 100))"

text \<open>\<open>createStore\<close> without a provided store: refused in production unless explicitly allowed, and
  then with one warning.\<close>

definition create_store :: "bool \<Rightarrow> rate_limit_options \<Rightarrow> bool \<Rightarrow> thrown + (rl_memory \<times> bool)" where
  "create_store production o1 store_emitted =
     (if production \<and> \<not> ro_allow_memory o1 then
        Inl (plain_error ''[axiomify/rate-limit] Refusing to use in-memory MemoryStore in production.'')
      else Inr (rl_memory_new (ro_memory_max_keys o1), store_emitted \<or> production))"

definition default_key :: "request \<Rightarrow> string" where
  "default_key req = (if rq_ip req = [] then ''unknown'' else rq_ip req)"

text \<open>The warning flag of the default key generator.\<close>

definition default_key_warns :: "request \<Rightarrow> bool \<Rightarrow> bool" where
  "default_key_warns req ip_emitted = (ip_emitted \<or> rq_ip req = [])"

definition limiter_skips :: "'s limiter \<Rightarrow> request \<Rightarrow> bool" where
  "limiter_skips lm req = (case lm_skip lm of None \<Rightarrow> False | Some f \<Rightarrow> f req = Some True)"

definition limiter_key :: "'s limiter \<Rightarrow> request \<Rightarrow> string" where
  "limiter_key lm req =
     (case lm_key lm of
        None \<Rightarrow> default_key req
      | Some f \<Rightarrow> (case f req of Some k \<Rightarrow> k | None \<Rightarrow> rq_ip req))"

definition limit_headers :: "int \<Rightarrow> int \<Rightarrow> int \<Rightarrow> native_response act" where
  "limit_headers mx count reset =
     seq_act (nr_header ''X-RateLimit-Limit'' (show_int mx))
     (seq_act (nr_header ''X-RateLimit-Remaining'' (show_int (max 0 (mx - count))))
       (nr_header ''X-RateLimit-Reset'' (show_int reset)))"

definition limiter_run ::
    "serializer \<Rightarrow> 's limiter \<Rightarrow> int \<Rightarrow> request \<Rightarrow> 's \<times> native_response \<Rightarrow> (thrown option \<times> native_response) \<times> 's" where
  "limiter_run ser lm now req sr =
     (case sr of (s, r) \<Rightarrow>
        if limiter_skips lm req then ((None, r), s)
        else
          case lm_increment lm now (limiter_key lm req) (lm_window lm) s of
            (Inl _, s') \<Rightarrow> (nr_send ser JNull (Some ''Rate limit service unavailable'') (nr_status 503 r), s')
          | (Inr (count, reset), s') \<Rightarrow>
              if count > lm_max lm then
                (seq_act (limit_headers (lm_max lm) count reset)
                  (seq_act (nr_header ''Retry-After'' (show_int (ceil_seconds (lm_window lm))))
                    (\<lambda>r. nr_send ser JNull (Some ''Too Many Requests'') (nr_status 429 r))) r, s')
              else (limit_headers (lm_max lm) count reset r, s'))"

text \<open>The store calls of a limiter over the memory store, which never fail.\<close>

definition memory_limiter :: "rate_limit_options \<Rightarrow> (request \<Rightarrow> string option) option \<Rightarrow> (request \<Rightarrow> bool option) option \<Rightarrow> rl_memory limiter" where
  "memory_limiter o1 key skip = \<lparr> lm_window = limiter_window o1, lm_max = limiter_max o1,
     lm_increment = (\<lambda>now k w s. let (cr, s') = rl_increment now now k w s in (Inr cr, s')),
     lm_key = key, lm_skip = skip \<rparr>"

end
