(* ===== verification/Rate_Limit_Props.thy ===== *)
theory Rate_Limit_Props
  imports Rate_Limit
begin

text \<open>
  What a store of sliding windows promises, as a locale; that the memory store keeps it; and what
  it means for a limiter. A history is the list of increments so far. A store may forget keys when
  more of them are active in one window than it has room for; the laws hold as long as they are not.
\<close>

type_synonym hit_history = "(int \<times> string) list"

definition times_of :: "string \<Rightarrow> hit_history \<Rightarrow> int list" where
  "times_of k hist = map fst (filter (\<lambda>h. snd h = k) hist)"

definition hits_in :: "int \<Rightarrow> hit_history \<Rightarrow> int \<Rightarrow> string \<Rightarrow> nat" where
  "hits_in w hist now k = length (filter (\<lambda>t. now - w < t) (times_of k hist))"

definition active_keys :: "int \<Rightarrow> hit_history \<Rightarrow> int \<Rightarrow> nat" where
  "active_keys w hist now = length (remdups (map snd (filter (\<lambda>h. now - w < fst h) hist)))"

lemma active_keys_card: "active_keys w hist now = card (snd ` {h \<in> set hist. now - w < fst h})"
  by (simp add: active_keys_def length_remdups_card_conv)

lemma times_of_simps [simp]:
  "times_of k [] = []" "times_of k (h1 @ h2) = times_of k h1 @ times_of k h2"
  "times_of k [(t, k')] = (if k' = k then [t] else [])"
  by (simp_all add: times_of_def)

lemma set_times_of: "t \<in> set (times_of k hist) \<longleftrightarrow> (t, k) \<in> set hist"
  by (force simp: times_of_def)

lemma sorted_times_of: "sorted (map fst hist) \<Longrightarrow> sorted (times_of k hist)"
  by (simp add: times_of_def sorted_filter)

lemma dropWhile_sorted: "sorted xs \<Longrightarrow> dropWhile (\<lambda>t. t \<le> c) xs = filter (\<lambda>t. (c::int) < t) xs"
proof (induction xs)
  case (Cons x xs)
  show ?case
  proof (cases "x \<le> c")
    case False
    then have "filter (\<lambda>t. c < t) (x # xs) = x # xs" using Cons.prems by (intro filter_True) auto
    with False show ?thesis by simp
  qed (use Cons in auto)
qed simp

subsection \<open>The contract\<close>

text \<open>\<open>rep w T hist s\<close>: the store \<open>s\<close> has counted \<open>hist\<close>, with windows of \<open>w\<close> ms, until the time \<open>T\<close>.\<close>

locale rate_store =
  fixes increment :: "int \<Rightarrow> string \<Rightarrow> int \<Rightarrow> 's \<Rightarrow> (int \<times> int) \<times> 's"
    and rep :: "int \<Rightarrow> int \<Rightarrow> hit_history \<Rightarrow> 's \<Rightarrow> bool"
    and room :: "'s \<Rightarrow> nat"
  assumes increment_counts: "rep w T hist s \<Longrightarrow> T \<le> now \<Longrightarrow> active_keys w (hist @ [(now, k)]) now \<le> room s
      \<Longrightarrow> increment now k w s = ((c, r), s')
      \<Longrightarrow> rep w now (hist @ [(now, k)]) s' \<and> room s' = room s \<and> c = int (hits_in w (hist @ [(now, k)]) now k)"

lemma sorted_start: "sorted ts \<Longrightarrow> \<exists>T :: int. sorted (T # ts)"
  by (cases ts) auto

text \<open>Which of a list of increments come back within the limit.\<close>

fun admits :: "(int \<Rightarrow> string \<Rightarrow> int \<Rightarrow> 's \<Rightarrow> (int \<times> int) \<times> 's) \<Rightarrow> int \<Rightarrow> int \<Rightarrow> hit_history \<Rightarrow> 's \<Rightarrow> bool list" where
  "admits inc mx w [] s = []"
| "admits inc mx w ((now, k) # es) s = (case inc now k w s of ((c, r), s') \<Rightarrow> (c \<le> mx) # admits inc mx w es s')"

fun increments :: "(int \<Rightarrow> string \<Rightarrow> int \<Rightarrow> 's \<Rightarrow> (int \<times> int) \<times> 's) \<Rightarrow> int \<Rightarrow> hit_history \<Rightarrow> 's \<Rightarrow> 's" where
  "increments inc w [] s = s"
| "increments inc w ((now, k) # es) s = increments inc w es (snd (inc now k w s))"

lemma admits_snoc:
  "admits inc mx w (es @ [(now, k)]) s = admits inc mx w es s @ [fst (fst (inc now k w (increments inc w es s))) \<le> mx]"
  by (induction es arbitrary: s) (auto split: prod.splits)

lemma increments_snoc: "increments inc w (es @ [(now, k)]) s = snd (inc now k w (increments inc w es s))"
  by (induction es arbitrary: s) auto

lemma length_admits: "length (admits inc mx w es s) = length es"
  by (induction es arbitrary: s) (auto split: prod.splits)

text \<open>A history the store has room for: at each increment, the keys active in its window fit.\<close>

definition fits :: "int \<Rightarrow> nat \<Rightarrow> hit_history \<Rightarrow> bool" where
  "fits w n es \<longleftrightarrow> list_all (\<lambda>i. active_keys w (take (Suc i) es) (fst (es ! i)) \<le> n) [0..<length es]"

lemma fits_snoc: "fits w n (es @ [e]) \<longleftrightarrow> fits w n es \<and> active_keys w (es @ [e]) (fst e) \<le> n"
  by (auto simp: fits_def list_all_iff nth_append less_Suc_eq)

text \<open>The admitted hits of a key with a time in the window of length \<open>w\<close> that opens at \<open>x\<close>.\<close>

definition admitted_in :: "int \<Rightarrow> int \<Rightarrow> string \<Rightarrow> hit_history \<Rightarrow> bool list \<Rightarrow> nat" where
  "admitted_in w x k es oks = length (filter (\<lambda>((t, k'), ok). ok \<and> k' = k \<and> x < t \<and> t \<le> x + w) (zip es oks))"

lemma admitted_in_snoc:
  "length oks = length es \<Longrightarrow> admitted_in w x k (es @ [(t, k')]) (oks @ [ok])
     = admitted_in w x k es oks + (if ok \<and> k' = k \<and> x < t \<and> t \<le> x + w then 1 else 0)"
  by (simp add: admitted_in_def)

lemma admitted_le_hits:
  assumes "length oks = length es" "t \<le> x + w"
  shows "admitted_in w x k es oks \<le> hits_in w es t k"
  using assms
proof (induction es oks rule: rev_induct2)
  case (4 e es ok oks)
  obtain t' k' where e: "e = (t', k')" by force
  show ?case using 4 by (auto simp: e admitted_in_snoc hits_in_def)
qed (simp_all add: admitted_in_def)

context rate_store
begin

lemma run_rep:
  assumes "rep w T [] s" "sorted (T # map fst es)" "fits w (room s) es"
  shows "\<exists>T' \<ge> T. rep w T' es (increments increment w es s) \<and> room (increments increment w es s) = room s
    \<and> (es \<noteq> [] \<longrightarrow> T' = fst (last es)) \<and> (es = [] \<longrightarrow> T' = T)"
  using assms(2,3)
proof (induction es rule: rev_induct)
  case Nil
  then show ?case using assms(1) by auto
next
  case (snoc e es)
  obtain now k where e: "e = (now, k)" by force
  have "sorted (T # map fst es)" "fits w (room s) es" using snoc.prems by (auto simp: sorted_append fits_snoc)
  from snoc.IH[OF this] obtain T' where T': "T \<le> T'" "rep w T' es (increments increment w es s)"
    "room (increments increment w es s) = room s" "es \<noteq> [] \<longrightarrow> T' = fst (last es)" "es = [] \<longrightarrow> T' = T" by blast
  have "T' \<le> now" using T'(4,5) snoc.prems(1) e by (cases "es = []") (auto simp: sorted_append)
  moreover obtain c r s' where i: "increment now k w (increments increment w es s) = ((c, r), s')" by (metis prod.exhaust)
  ultimately have "rep w now (es @ [(now, k)]) s' \<and> room s' = room s"
    using increment_counts[OF T'(2) _ _ i] T'(3) snoc.prems(2) e by (simp add: fits_snoc)
  moreover have "T \<le> now" using snoc.prems(1) e by simp
  ultimately show ?case by (intro exI[of _ now]) (simp add: e increments_snoc i)
qed

lemma increment_exact:
  assumes "rep w T [] s" "sorted (T # map fst (es @ [(now, k)]))" "fits w (room s) (es @ [(now, k)])"
  shows "fst (fst (increment now k w (increments increment w es s))) = int (hits_in w (es @ [(now, k)]) now k)"
proof -
  have "sorted (T # map fst es)" "fits w (room s) es" using assms(2,3) by (auto simp: sorted_append fits_snoc)
  from run_rep[OF assms(1) this] obtain T' where T': "T \<le> T'" "rep w T' es (increments increment w es s)"
    "room (increments increment w es s) = room s" "es \<noteq> [] \<longrightarrow> T' = fst (last es)" "es = [] \<longrightarrow> T' = T" by blast
  have "T' \<le> now" using T'(4,5) assms(2) by (cases "es = []") (auto simp: sorted_append)
  moreover obtain c r s' where "increment now k w (increments increment w es s) = ((c, r), s')" by (metis prod.exhaust)
  ultimately show ?thesis using increment_counts[OF T'(2)] T'(3) assms(3) by (simp add: fits_snoc)
qed

lemma window_limit:
  assumes "rep w T [] s" "sorted (T # map fst es)" "fits w (room s) es"
  shows "int (admitted_in w x k es (admits increment mx w es s)) \<le> max 0 mx"
  using assms(2,3)
proof (induction es rule: rev_induct)
  case Nil
  then show ?case by (simp add: admitted_in_def)
next
  case (snoc e es)
  obtain now k' where e: "e = (now, k')" by force
  let ?c = "fst (fst (increment now k' w (increments increment w es s)))"
  have IH: "int (admitted_in w x k es (admits increment mx w es s)) \<le> max 0 mx"
    by (rule snoc.IH) (use snoc.prems in \<open>auto simp: sorted_append fits_snoc\<close>)
  note ad = admitted_in_snoc[OF length_admits[of increment mx w es s], where ok = "?c \<le> mx" and t = now and k' = k']
  show ?case
  proof (cases "?c \<le> mx \<and> k' = k \<and> x < now \<and> now \<le> x + w")
    case True
    have "int (admitted_in w x k (es @ [e]) (admits increment mx w (es @ [e]) s)) \<le> int (hits_in w (es @ [e]) now k)"
      using True by (intro of_nat_mono admitted_le_hits) (simp_all add: length_admits)
    also have "\<dots> = ?c" using increment_exact[OF assms(1)] snoc.prems True e by simp
    finally show ?thesis using True by auto
  next
    case False
    then have "admitted_in w x k (es @ [e]) (admits increment mx w (es @ [e]) s) = admitted_in w x k es (admits increment mx w es s)"
      using ad by (auto simp: e admits_snoc)
    then show ?thesis using IH by simp
  qed
qed

end

subsection \<open>The memory store keeps the contract\<close>

definition live :: "hits_data \<Rightarrow> int list" where
  "live d = drop (hd_start d) (hd_timestamps d)"

definition live_of :: "(string, hits_data) jsmap \<Rightarrow> string \<Rightarrow> int list" where
  "live_of hits k = (case map_of hits k of None \<Rightarrow> [] | Some d \<Rightarrow> live d)"

lemma advance_start_drop: "drop (advance_start ts ws i) ts = dropWhile (\<lambda>t. t \<le> ws) (drop i ts)"
proof (induction ts ws i rule: advance_start.induct)
  case (1 ts ws i)
  show ?case
  proof (cases "i < length ts")
    case True
    then show ?thesis using 1 by (subst advance_start.simps) (simp add: Cons_nth_drop_Suc[symmetric])
  qed (subst advance_start.simps, simp)
qed

lemma advance_start_le: "i \<le> length ts \<Longrightarrow> advance_start ts ws i \<le> length ts"
  by (induction ts ws i rule: advance_start.induct) (subst advance_start.simps, auto)

lemma live_slide: "live (slide ws d) = dropWhile (\<lambda>t. t \<le> ws) (live d)"
  by (simp add: slide_def live_def advance_start_drop)

lemma live_compact [simp]: "live (compact_hits d) = live d" "hd_window (compact_hits d) = hd_window d"
  "hd_start d \<le> length (hd_timestamps d) \<Longrightarrow> hd_start (compact_hits d) \<le> length (hd_timestamps (compact_hits d))"
  by (simp_all add: compact_hits_def live_def)

lemma prune_entry_live:
  assumes "hd_start d \<le> length (hd_timestamps d)"
  shows "live (fst (prune_entry now d)) = dropWhile (\<lambda>t. t \<le> now - hd_window d) (live d)"
    and "snd (prune_entry now d) = (live (fst (prune_entry now d)) \<noteq> [])"
    and "hd_start (fst (prune_entry now d)) \<le> length (hd_timestamps (fst (prune_entry now d)))"
    and "hd_window (fst (prune_entry now d)) = hd_window d"
proof -
  have a: "advance_start (hd_timestamps d) (now - hd_window d) (hd_start d) \<le> length (hd_timestamps d)"
    by (rule advance_start_le[OF assms])
  then have ok: "hd_start (slide (now - hd_window d) d) \<le> length (hd_timestamps (slide (now - hd_window d) d))"
    by (simp add: slide_def)
  show "live (fst (prune_entry now d)) = dropWhile (\<lambda>t. t \<le> now - hd_window d) (live d)"
    by (simp add: prune_entry_def Let_def live_slide)
  show "snd (prune_entry now d) = (live (fst (prune_entry now d)) \<noteq> [])"
    by (simp add: prune_entry_def Let_def) (simp add: live_def)
  show "hd_start (fst (prune_entry now d)) \<le> length (hd_timestamps (fst (prune_entry now d)))"
    using ok by (simp add: prune_entry_def Let_def)
  show "hd_window (fst (prune_entry now d)) = hd_window d"
    by (simp add: prune_entry_def Let_def slide_def)
qed

lemma prune_hits_keys: "set (map fst (prune_hits now hs)) \<subseteq> set (map fst hs)"
  "distinct (map fst hs) \<Longrightarrow> distinct (map fst (prune_hits now hs))"
  "length (prune_hits now hs) \<le> length hs"
proof -
  show 1: "set (map fst (prune_hits now hs)) \<subseteq> set (map fst hs)" for hs
  proof (induction hs)
    case (Cons h hs)
    obtain k d where h: "h = (k, d)" by force
    show ?case using Cons by (cases "prune_entry now d"; cases "snd (prune_entry now d)") (auto simp: h)
  qed simp
  show "distinct (map fst hs) \<Longrightarrow> distinct (map fst (prune_hits now hs))"
  proof (induction hs)
    case (Cons h hs)
    obtain k d where h: "h = (k, d)" by force
    show ?case using 1[of hs] Cons by (cases "prune_entry now d"; cases "snd (prune_entry now d)") (auto simp: h)
  qed simp
  show "length (prune_hits now hs) \<le> length hs"
    by (induction hs) (auto split: prod.splits)
qed

lemma map_of_prune_hits:
  "distinct (map fst hs) \<Longrightarrow> map_of (prune_hits now hs) k =
     (case map_of hs k of None \<Rightarrow> None | Some d \<Rightarrow> if snd (prune_entry now d) then Some (fst (prune_entry now d)) else None)"
proof (induction hs)
  case (Cons h hs)
  obtain k' d where h: "h = (k', d)" by force
  have "map_of (prune_hits now hs) k' = None"
    using Cons.prems prune_hits_keys(1)[of now hs] by (auto simp: h map_of_eq_None_iff)
  moreover have "map_of hs k' = None" using Cons.prems by (auto simp: h map_of_eq_None_iff)
  ultimately show ?case using Cons by (auto simp: h split: prod.splits)
qed simp

lemma drop_oldest_keys: "drop_oldest_keys n hs = drop (length hs - n) hs"
  by (induction hs) (auto simp: Suc_diff_le)

lemma drop_oldest_keys_bound: "length (drop_oldest_keys n hs) \<le> n"
  by (induction hs) auto

lemma drop_oldest_keys_distinct: "distinct (map fst hs) \<Longrightarrow> distinct (map fst (drop_oldest_keys n hs))"
  by (induction hs) auto

definition hits_ok :: "int \<Rightarrow> int \<Rightarrow> hit_history \<Rightarrow> (string, hits_data) jsmap \<Rightarrow> bool" where
  "hits_ok w T hist hits \<longleftrightarrow> 0 < w \<and> sorted (map fst hist) \<and> (\<forall>h \<in> set hist. fst h \<le> T) \<and> distinct (map fst hits)
     \<and> (\<forall>k d. map_of hits k = Some d \<longrightarrow> hd_window d = w \<and> hd_start d \<le> length (hd_timestamps d))
     \<and> (\<forall>k. \<exists>ts0. times_of k hist = ts0 @ live_of hits k \<and> (\<forall>t \<in> set ts0. t \<le> T - w))"

definition mem_rep :: "int \<Rightarrow> int \<Rightarrow> hit_history \<Rightarrow> rl_memory \<Rightarrow> bool" where
  "mem_rep w T hist s \<longleftrightarrow> hits_ok w T hist (rm_hits s) \<and> length (rm_hits s) \<le> rm_max_keys s"

lemma live_of_prune:
  assumes "hits_ok w T hist hits"
  shows "live_of (prune_hits now hits) k = dropWhile (\<lambda>t. t \<le> now - w) (live_of hits k)"
proof (cases "map_of hits k")
  case None
  then show ?thesis using assms by (simp add: live_of_def map_of_prune_hits hits_ok_def)
next
  case (Some d)
  then have "hd_window d = w" "hd_start d \<le> length (hd_timestamps d)" using assms by (auto simp: hits_ok_def)
  note pe = prune_entry_live(1,2)[OF this(2), of now, unfolded this(1)]
  have dist: "distinct (map fst hits)" using assms by (simp add: hits_ok_def)
  show ?thesis using Some pe(2) unfolding live_of_def map_of_prune_hits[OF dist] pe(1)
    by (simp add: pe(1) del: dropWhile_eq_Nil_conv)
qed

lemma hits_ok_prune:
  assumes "hits_ok w T hist hits" "T \<le> now"
  shows "hits_ok w now hist (prune_hits now hits)"
proof -
  have d: "distinct (map fst hits)" and wf: "\<And>k d. map_of hits k = Some d \<Longrightarrow> hd_window d = w \<and> hd_start d \<le> length (hd_timestamps d)"
    using assms by (auto simp: hits_ok_def)
  note lv = live_of_prune[OF assms(1)]
  have "\<exists>ts0. times_of k hist = ts0 @ live_of (prune_hits now hits) k \<and> (\<forall>t \<in> set ts0. t \<le> now - w)" for k
  proof -
    from assms(1) obtain ts0 where t: "times_of k hist = ts0 @ live_of hits k" "\<forall>t \<in> set ts0. t \<le> T - w"
      unfolding hits_ok_def by blast
    then show ?thesis using assms(2)
      by (intro exI[of _ "ts0 @ takeWhile (\<lambda>t. t \<le> now - w) (live_of hits k)"]) (auto simp: lv dest: set_takeWhileD)
  qed
  moreover have "hd_window d' = w \<and> hd_start d' \<le> length (hd_timestamps d')" if "map_of (prune_hits now hits) k = Some d'" for k d'
    using that wf[of k] prune_entry_live[of _ now] by (auto simp: map_of_prune_hits[OF d] split: option.splits if_splits)
  ultimately show ?thesis using assms prune_hits_keys(2)[OF d, of now] by (force simp: hits_ok_def)
qed

text \<open>What is live for a key is what lies in the window.\<close>

lemma hits_ok_live:
  assumes "hits_ok w T hist hits" "T \<le> now"
  shows "filter (\<lambda>t. now - w < t) (times_of k hist) = dropWhile (\<lambda>t. t \<le> now - w) (live_of hits k)"
proof -
  from assms(1) obtain ts0 where t: "times_of k hist = ts0 @ live_of hits k" "\<forall>t \<in> set ts0. t \<le> T - w"
    unfolding hits_ok_def by blast
  have "sorted (times_of k hist)" using assms(1) sorted_times_of by (simp add: hits_ok_def)
  then have "sorted (live_of hits k)" by (simp add: t sorted_append)
  moreover have "filter (\<lambda>t. now - w < t) ts0 = []" using t(2) assms(2) by (auto simp: filter_empty_conv)
  ultimately show ?thesis by (simp add: t dropWhile_sorted)
qed

lemma prune_hits_nonempty:
  assumes "hits_ok w T hist hits" "map_of (prune_hits now hits) k = Some d'"
  shows "live_of (prune_hits now hits) k \<noteq> []"
proof -
  have dist: "distinct (map fst hits)" using assms by (simp add: hits_ok_def)
  then obtain d where d: "map_of hits k = Some d" "snd (prune_entry now d)" "d' = fst (prune_entry now d)"
    using assms(2) by (auto simp: map_of_prune_hits simp del: map_of_eq_Some_iff split: option.splits if_splits)
  then have "hd_start d \<le> length (hd_timestamps d)" using assms by (auto simp: hits_ok_def)
  from prune_entry_live(2)[OF this, of now] show ?thesis
    using d(2,3) assms(2) by (simp add: live_of_def del: map_of_eq_Some_iff)
qed

lemma prune_hits_active:
  assumes ok: "hits_ok w T hist hits" and T: "T \<le> now"
  shows "length (prune_hits now hits) \<le> active_keys w hist now"
proof -
  let ?A = "snd ` {h \<in> set hist. now - w < fst h}"
  have ok': "hits_ok w now hist (prune_hits now hits)" by (rule hits_ok_prune[OF assms])
  have "fst ` set (prune_hits now hits) \<subseteq> ?A"
  proof
    fix k assume "k \<in> fst ` set (prune_hits now hits)"
    then obtain d' where "map_of (prune_hits now hits) k = Some d'"
      by (metis map_of_eq_None_iff not_None_eq)
    then have "live_of (prune_hits now hits) k \<noteq> []" by (rule prune_hits_nonempty[OF ok])
    then have "dropWhile (\<lambda>t. t \<le> now - w) (live_of hits k) \<noteq> []" unfolding live_of_prune[OF ok] .
    then have "filter (\<lambda>t. now - w < t) (times_of k hist) \<noteq> []" unfolding hits_ok_live[OF assms] .
    then obtain t where "t \<in> set (times_of k hist)" "now - w < t" by (auto simp: filter_empty_conv)
    then have "(t, k) \<in> {h \<in> set hist. now - w < fst h}" by (simp add: set_times_of)
    then show "k \<in> ?A" by force
  qed
  then have "card (fst ` set (prune_hits now hits)) \<le> card ?A" by (intro card_mono) auto
  moreover have "card (fst ` set (prune_hits now hits)) = length (prune_hits now hits)"
    using ok' distinct_card[of "map fst (prune_hits now hits)"] by (simp add: hits_ok_def)
  ultimately show ?thesis by (simp add: active_keys_card)
qed

lemma live_of_update: "live_of (AList.update k d hits) k' = (if k' = k then live d else live_of hits k')"
  by (simp add: live_of_def update_conv')

text \<open>The object of the key once the new hit is in it, and the map that holds it.\<close>

definition hit_data :: "int \<Rightarrow> string \<Rightarrow> int \<Rightarrow> (string, hits_data) jsmap \<Rightarrow> hits_data" where
  "hit_data now key window hits =
     (let d1 = slide (now - window) (case map_of hits key of Some d \<Rightarrow> d
                | None \<Rightarrow> \<lparr> hd_timestamps = [], hd_start = 0, hd_window = window \<rparr>)
      in compact_hits (d1\<lparr>hd_timestamps := hd_timestamps d1 @ [now]\<rparr>))"

lemma hit_data_props:
  assumes "hits_ok w T hist hits"
  shows "live (hit_data now k w hits) = dropWhile (\<lambda>t. t \<le> now - w) (live_of hits k) @ [now]"
    and "hd_window (hit_data now k w hits) = w"
    and "hd_start (hit_data now k w hits) \<le> length (hd_timestamps (hit_data now k w hits))"
proof -
  let ?d = "case map_of hits k of Some d \<Rightarrow> d | None \<Rightarrow> \<lparr> hd_timestamps = [], hd_start = 0, hd_window = w \<rparr>"
  have d: "live ?d = live_of hits k" "hd_window ?d = w" "hd_start ?d \<le> length (hd_timestamps ?d)"
    using assms by (auto simp: live_of_def live_def hits_ok_def split: option.splits)
  let ?e = "(slide (now - w) ?d)\<lparr>hd_timestamps := hd_timestamps (slide (now - w) ?d) @ [now]\<rparr>"
  have st: "hd_start (slide (now - w) ?d) \<le> length (hd_timestamps (slide (now - w) ?d))"
    using advance_start_le[OF d(3), of "now - w"] by (simp add: slide_def)
  have "live ?e = live (slide (now - w) ?d) @ [now]" using st by (simp add: live_def)
  then show "live (hit_data now k w hits) = dropWhile (\<lambda>t. t \<le> now - w) (live_of hits k) @ [now]"
    by (simp add: hit_data_def Let_def live_slide d(1))
  show "hd_window (hit_data now k w hits) = w" using d(2) by (simp add: hit_data_def Let_def slide_def)
  show "hd_start (hit_data now k w hits) \<le> length (hd_timestamps (hit_data now k w hits))"
    unfolding hit_data_def Let_def using st by (intro live_compact(3)) simp
qed

lemma hits_ok_hit:
  assumes ok: "hits_ok w T hist hits" and T: "T \<le> now"
  shows "hits_ok w now (hist @ [(now, k)]) (AList.update k (hit_data now k w hits) hits)"
proof -
  note hd = hit_data_props[OF ok, of now k]
  have "\<exists>ts0. times_of k' (hist @ [(now, k)]) = ts0 @ live_of (AList.update k (hit_data now k w hits) hits) k'
      \<and> (\<forall>t \<in> set ts0. t \<le> now - w)" for k'
  proof -
    from ok obtain ts0 where t: "times_of k' hist = ts0 @ live_of hits k'" "\<forall>t \<in> set ts0. t \<le> T - w"
      unfolding hits_ok_def by blast
    have old: "\<forall>t \<in> set ts0. t \<le> now - w" using t(2) T by force
    show ?thesis
    proof (cases "k' = k")
      case True
      have "times_of k' (hist @ [(now, k)])
          = (ts0 @ takeWhile (\<lambda>t. t \<le> now - w) (live_of hits k)) @ (dropWhile (\<lambda>t. t \<le> now - w) (live_of hits k) @ [now])"
        using t True by simp
      then show ?thesis using old True
        by (intro exI[of _ "ts0 @ takeWhile (\<lambda>t. t \<le> now - w) (live_of hits k)"])
           (auto simp: live_of_update hd(1) dest: set_takeWhileD)
    qed (use t old in \<open>auto simp: live_of_update\<close>)
  qed
  moreover have "\<forall>h \<in> set (hist @ [(now, k)]). fst h \<le> now" "sorted (map fst (hist @ [(now, k)]))"
    using ok T by (force simp: hits_ok_def sorted_append)+
  moreover have "hd_window d = w \<and> hd_start d \<le> length (hd_timestamps d)"
    if "map_of (AList.update k (hit_data now k w hits) hits) k' = Some d" for k' d
    using that hd ok by (auto simp: update_conv' hits_ok_def simp del: map_of_eq_Some_iff split: if_splits)
  ultimately show ?thesis using ok distinct_update[of hits k] unfolding hits_ok_def by blast
qed

lemma hit_count:
  assumes ok: "hits_ok w T hist hits" and T: "T \<le> now"
  shows "length (live (hit_data now k w hits)) = hits_in w (hist @ [(now, k)]) now k"
    and "dropWhile (\<lambda>t. t \<le> now - w) (live (hit_data now k w hits)) = live (hit_data now k w hits)"
proof -
  have w: "0 < w" using ok by (simp add: hits_ok_def)
  note l = hit_data_props(1)[OF ok, of now k]
  have f: "filter (\<lambda>t. now - w < t) (times_of k hist) = dropWhile (\<lambda>t. t \<le> now - w) (live_of hits k)"
    by (rule hits_ok_live[OF assms])
  show "length (live (hit_data now k w hits)) = hits_in w (hist @ [(now, k)]) now k"
    using w by (simp add: hits_in_def l f)
  have "\<not> t \<le> now - w" if "t \<in> set (live (hit_data now k w hits))" for t
    using that w unfolding l f[symmetric] by auto
  then show "dropWhile (\<lambda>t. t \<le> now - w) (live (hit_data now k w hits)) = live (hit_data now k w hits)"
    by (cases "live (hit_data now k w hits)") auto
qed

lemma memory_increment:
  assumes rep: "mem_rep w T hist s" and T: "T \<le> now" and room: "active_keys w (hist @ [(now, k)]) now \<le> rm_max_keys s"
    and inc: "rl_increment now now k w s = ((c, r), s')"
  shows "mem_rep w now (hist @ [(now, k)]) s' \<and> rm_max_keys s' = rm_max_keys s \<and> c = int (hits_in w (hist @ [(now, k)]) now k)"
proof -
  let ?d = "hit_data now k w (rm_hits s)"
  let ?hits = "AList.update k ?d (rm_hits s)"
  have ok: "hits_ok w T hist (rm_hits s)" using rep by (simp add: mem_rep_def)
  have ok': "hits_ok w now (hist @ [(now, k)]) ?hits" by (rule hits_ok_hit[OF ok T])
  note cnt = hit_count[OF ok T, of k]
  note hd = hit_data_props[OF ok, of now k]
  let ?over = "length ?hits > rm_max_keys s"
  have s': "s' = s\<lparr>rm_hits := if ?over then drop_oldest_keys (rm_max_keys s) (prune_hits now ?hits) else ?hits\<rparr>"
    using inc by (auto simp: rl_increment_def Let_def hit_data_def)
  have c: "c = (let d3 = (if ?over then fst (prune_entry now ?d) else ?d) in int (length (hd_timestamps d3)) - int (hd_start d3))"
  proof -
    have "c = fst (fst (rl_increment now now k w s))" by (simp add: inc)
    then show ?thesis unfolding rl_increment_def hit_data_def Let_def fst_conv .
  qed
  have "live (fst (prune_entry now ?d)) = live ?d" using prune_entry_live(1)[OF hd(3), of now] cnt(2) by (simp add: hd(2))
  moreover have "int (length (hd_timestamps d)) - int (hd_start d) = int (length (live d))"
    if "hd_start d \<le> length (hd_timestamps d)" for d :: hits_data
    using that by (simp add: live_def of_nat_diff)
  ultimately have "c = int (length (live ?d))"
    using hd(3) prune_entry_live(3)[OF hd(3), of now] unfolding c Let_def by simp
  moreover have "length (prune_hits now ?hits) \<le> rm_max_keys s"
    using prune_hits_active[OF ok' order_refl] room by simp
  then have "hits_ok w now (hist @ [(now, k)]) (rm_hits s') \<and> length (rm_hits s') \<le> rm_max_keys s"
    using ok' hits_ok_prune[OF ok' order_refl] by (simp add: s' drop_oldest_keys)
  ultimately show ?thesis using cnt(1) by (simp add: mem_rep_def s')
qed

interpretation rl_mem: rate_store "\<lambda>now. rl_increment now now" mem_rep rm_max_keys
  by unfold_locales (rule memory_increment)

end
