(* ===== verification/Rate_Limiter.thy ===== *)
theory Rate_Limiter
  imports Rate_Limit_Props
begin

text \<open>
  The properties of the rate limiter: the memory store counts sliding windows exactly and keeps its
  bound on keys, a limiter lets at most \<open>max\<close> requests of a key through in any window and decides
  by the store alone, and the Redis store runs the script once per increment whatever the client's
  calling convention.
\<close>

subsection \<open>The memory store\<close>

datatype rl_op = OpIncrement int int string int | OpPrune int

fun rl_step :: "rl_op \<Rightarrow> rl_memory \<Rightarrow> rl_memory" where
  "rl_step (OpIncrement now pnow k w) s = snd (rl_increment now pnow k w s)"
| "rl_step (OpPrune now) s = rl_prune now s"

lemma rl_step_bounded:
  assumes "length (rm_hits s) \<le> rm_max_keys s" "distinct (map fst (rm_hits s))"
  shows "length (rm_hits (rl_step op s)) \<le> rm_max_keys (rl_step op s) \<and> distinct (map fst (rm_hits (rl_step op s)))
    \<and> rm_max_keys (rl_step op s) = rm_max_keys s"
proof (cases op)
  case (OpIncrement now pnow k w)
  have keep: "distinct (map fst (AList.update k d (rm_hits s)))" for d by (rule distinct_update[OF assms(2)])
  show ?thesis using OpIncrement assms keep drop_oldest_keys_distinct[OF prune_hits_keys(2)[OF keep]]
    by (simp add: rl_increment_def Let_def drop_oldest_keys_bound)
next
  case (OpPrune now)
  then show ?thesis using assms prune_hits_keys(2,3)[where hs = "rm_hits s" and now = now] le_trans by (auto simp: rl_prune_def)
qed

text \<open>The memory store never holds more than \<open>maxKeys\<close> keys, after any increments (of any keys,
  attacker-chosen ones included) and any runs of the pruning timer, and holds no key twice.\<close>

theorem rl_memory_bounded:
  "length (rm_hits (fold rl_step ops (rl_memory_new mk))) \<le> (case mk of Some n \<Rightarrow> n | None \<Rightarrow> 50000)
   \<and> distinct (map fst (rm_hits (fold rl_step ops (rl_memory_new mk))))"
proof -
  have "length (rm_hits (fold rl_step ops s)) \<le> rm_max_keys s \<and> distinct (map fst (rm_hits (fold rl_step ops s)))"
    if "length (rm_hits s) \<le> rm_max_keys s" "distinct (map fst (rm_hits s))" for s
    using that
  proof (induction ops arbitrary: s)
    case (Cons op ops)
    show ?case using Cons.IH[of "rl_step op s"] rl_step_bounded[OF Cons.prems, of op] by simp
  qed simp
  from this[of "rl_memory_new mk"] show ?thesis by (simp add: rl_memory_new_def)
qed

lemma rl_memory_new_rep: "0 < w \<Longrightarrow> mem_rep w T [] (rl_memory_new mk)"
  by (simp add: mem_rep_def hits_ok_def rl_memory_new_def live_of_def)

lemma rl_memory_new_room: "rm_max_keys (rl_memory_new mk) = (case mk of Some n \<Rightarrow> n | None \<Rightarrow> 50000)"
  by (simp add: rl_memory_new_def)



subsection \<open>The limiter\<close>

lemma limit_headers_ok:
  "\<exists>r'. limit_headers mx c t r = (None, r') \<and> nr_headers_sent r' = nr_headers_sent r \<and> nr_aborted r' = nr_aborted r"
proof -
  have n: "\<not> header_injection ''X-RateLimit-Limit''" "\<not> header_injection ''X-RateLimit-Remaining''"
    "\<not> header_injection ''X-RateLimit-Reset''"
    by code_simp+
  show ?thesis by (simp add: limit_headers_def seq_act_def nr_header_def n clean_show_int)
qed

lemma retry_header_ok: "\<exists>r'. nr_header ''Retry-After'' (show_int n) r = (None, r')
    \<and> nr_headers_sent r' = nr_headers_sent r \<and> nr_aborted r' = nr_aborted r"
proof -
  have "\<not> header_injection ''Retry-After''" by code_simp
  then show ?thesis by (simp add: nr_header_def clean_show_int)
qed

text \<open>Whether the request goes on to the handler: nothing was thrown and nothing was answered.\<close>

definition passes :: "(thrown option \<times> native_response) \<times> 's \<Rightarrow> bool" where
  "passes out \<longleftrightarrow> fst (fst out) = None \<and> \<not> nr_headers_sent (snd (fst out))"

definition within_limit :: "int \<Rightarrow> string + (int \<times> int) \<Rightarrow> bool" where
  "within_limit mx res = (case res of Inl _ \<Rightarrow> False | Inr (c, r) \<Rightarrow> c \<le> mx)"

lemma limiter_decides:
  assumes "\<not> nr_headers_sent r" "\<not> nr_aborted r"
  shows "passes (limiter_run ser lm now req (s, r)) =
      (limiter_skips lm req \<or> within_limit (lm_max lm) (fst (lm_increment lm now (limiter_key lm req) (lm_window lm) s)))
    \<and> snd (limiter_run ser lm now req (s, r)) =
      (if limiter_skips lm req then s else snd (lm_increment lm now (limiter_key lm req) (lm_window lm) s))"
proof (cases "limiter_skips lm req")
  case True
  then show ?thesis using assms by (simp add: limiter_run_def passes_def)
next
  case False
  obtain res s' where inc: "lm_increment lm now (limiter_key lm req) (lm_window lm) s = (res, s')" by force
  show ?thesis
  proof (cases res)
    case (Inl m)
    have "nr_headers_sent (snd (nr_send ser JNull (Some ''Rate limit service unavailable'') (nr_status 503 r)))"
      using assms by (intro nr_send_answers) (simp_all add: nr_status_def)
    then show ?thesis using False Inl by (simp add: limiter_run_def inc passes_def within_limit_def)
  next
    case (Inr v)
    obtain c t where v: "v = (c, t)" by force
    obtain r1 where r1: "limit_headers (lm_max lm) c t r = (None, r1)" "\<not> nr_headers_sent r1" "\<not> nr_aborted r1"
      using limit_headers_ok[of "lm_max lm" c t r] assms by auto
    obtain r2 where r2: "nr_header ''Retry-After'' (show_int (ceil_seconds (lm_window lm))) r1 = (None, r2)"
      "\<not> nr_headers_sent r2" "\<not> nr_aborted r2"
      using retry_header_ok[of "ceil_seconds (lm_window lm)" r1] r1 by auto
    have "nr_headers_sent (snd (nr_send ser JNull (Some ''Too Many Requests'') (nr_status 429 r2)))"
      using r2 by (intro nr_send_answers) (simp_all add: nr_status_def)
    then show ?thesis using False Inr v r1 r2 by (simp add: limiter_run_def inc passes_def within_limit_def)
  qed
qed

text \<open>In terms of the functions the application supplies, \<open>None\<close> being a throw: a request is skipped when
  \<open>skip\<close> returns true for it, and counted under what the key generator returns, under the address when that throws.\<close>

definition user_skips :: "'s limiter \<Rightarrow> request \<Rightarrow> bool" where
  "user_skips lm req \<longleftrightarrow> (\<exists>f. lm_skip lm = Some f \<and> f req = Some True)"

definition counted_as :: "'s limiter \<Rightarrow> request \<Rightarrow> string \<Rightarrow> bool" where
  "counted_as lm req k \<longleftrightarrow>
     (lm_key lm = None \<and> k = (if rq_ip req = [] then ''unknown'' else rq_ip req))
     \<or> (\<exists>f. lm_key lm = Some f \<and> (f req = Some k \<or> f req = None \<and> k = rq_ip req))"

definition answered_with :: "int \<Rightarrow> (thrown option \<times> native_response) \<times> 's \<Rightarrow> bool" where
  "answered_with st out \<longleftrightarrow> \<not> passes out \<and> nr_headers_sent (snd (fst out)) \<and> nr_status_code (snd (fst out)) = st"

lemma user_skips_iff: "limiter_skips lm req \<longleftrightarrow> user_skips lm req"
  by (auto simp: limiter_skips_def user_skips_def split: option.splits)

lemma counted_as_iff: "counted_as lm req k \<longleftrightarrow> k = limiter_key lm req"
  by (auto simp: limiter_key_def counted_as_def default_key_def split: option.splits)

lemma send_status: "nr_status_code (snd (nr_send ser d m r)) = nr_status_code r"
  by (auto simp: nr_send_def Let_def emit_def split: ser_result.splits)

lemma limiter_status:
  assumes "\<not> nr_headers_sent r" "\<not> nr_aborted r" "\<not> limiter_skips lm req"
    and "lm_increment lm now (limiter_key lm req) (lm_window lm) s = (res, s')"
  shows "case res of
      Inl _ \<Rightarrow> answered_with 503 (limiter_run ser lm now req (s, r))
    | Inr (c, t) \<Rightarrow> if c \<le> lm_max lm then passes (limiter_run ser lm now req (s, r))
                   else answered_with 429 (limiter_run ser lm now req (s, r))"
proof (cases res)
  case (Inl m)
  have "nr_headers_sent (snd (nr_send ser JNull (Some ''Rate limit service unavailable'') (nr_status 503 r)))"
    using assms by (intro nr_send_answers) (simp_all add: nr_status_def)
  then show ?thesis using assms Inl
    by (simp add: limiter_run_def answered_with_def passes_def send_status) (simp add: nr_status_def)
next
  case (Inr v)
  obtain c t where v: "v = (c, t)" by force
  obtain r1 where r1: "limit_headers (lm_max lm) c t r = (None, r1)" "\<not> nr_headers_sent r1" "\<not> nr_aborted r1"
    using limit_headers_ok[of "lm_max lm" c t r] assms by auto
  obtain r2 where r2: "nr_header ''Retry-After'' (show_int (ceil_seconds (lm_window lm))) r1 = (None, r2)"
    "\<not> nr_headers_sent r2" "\<not> nr_aborted r2"
    using retry_header_ok[of "ceil_seconds (lm_window lm)" r1] r1 by auto
  have "nr_headers_sent (snd (nr_send ser JNull (Some ''Too Many Requests'') (nr_status 429 r2)))"
    using r2 by (intro nr_send_answers) (simp_all add: nr_status_def)
  then have sent: "answered_with 429 (nr_send ser JNull (Some ''Too Many Requests'') (nr_status 429 r2), s')"
    by (simp add: answered_with_def passes_def send_status) (simp add: nr_status_def)
  then show ?thesis using assms Inr v r1 r2 by (simp add: limiter_run_def passes_def)
qed

text \<open>C38. The limiter fails closed. A request to a client that is still there goes on to the handler only when the
  \<open>skip\<close> function returns true for it, the store then being left alone, or when the store, asked once for
  the key the request is counted under, answers with a count within the limit. A store that fails means
  the status 503, a count over the limit 429, whatever the serializer does; a \<open>skip\<close> that throws does not
  skip, and under a key generator that throws the request is counted by its address.\<close>

theorem limiter_fails_closed:
  assumes "\<not> nr_headers_sent r" "\<not> nr_aborted r" "counted_as lm req k"
  shows "if user_skips lm req
     then passes (limiter_run ser lm now req (s, r)) \<and> snd (limiter_run ser lm now req (s, r)) = s
     else snd (limiter_run ser lm now req (s, r)) = snd (lm_increment lm now k (lm_window lm) s)
       \<and> (case fst (lm_increment lm now k (lm_window lm) s) of
            Inl _ \<Rightarrow> answered_with 503 (limiter_run ser lm now req (s, r))
          | Inr (c, t) \<Rightarrow> if c \<le> lm_max lm then passes (limiter_run ser lm now req (s, r))
                         else answered_with 429 (limiter_run ser lm now req (s, r)))"
proof -
  have k: "k = limiter_key lm req" using assms(3) by (simp add: counted_as_iff)
  note d = limiter_decides[OF assms(1,2), of ser lm now req s]
  show ?thesis
  proof (cases "user_skips lm req")
    case True
    then show ?thesis using d by (simp add: user_skips_iff)
  next
    case False
    then have n: "\<not> limiter_skips lm req" by (simp add: user_skips_iff)
    from limiter_status[OF assms(1,2) n surjective_pairing] show ?thesis
      using False d n by (simp add: k)
  qed
qed

text \<open>A list of requests through one limiter, each with its own fresh response.\<close>

fun limiter_history :: "serializer \<Rightarrow> 's limiter \<Rightarrow> (int \<times> request) list \<Rightarrow> 's \<Rightarrow> bool list" where
  "limiter_history ser lm [] s = []"
| "limiter_history ser lm ((now, req) # rs) s =
     (let out = limiter_run ser lm now req (s, nr_new (rq_method req) [])
      in passes out # limiter_history ser lm rs (snd out))"

lemma memory_limiter_simps:
  "lm_window (memory_limiter o1 key skip) = limiter_window o1" "lm_max (memory_limiter o1 key skip) = limiter_max o1"
  "lm_increment (memory_limiter o1 key skip) now k w s = (case rl_increment now now k w s of (cr, s') \<Rightarrow> (Inr cr, s'))"
  by (simp_all add: memory_limiter_def)

lemma limiter_history_admits:
  assumes "limiter_skips (memory_limiter o1 key skip) = (\<lambda>_. False)"
  shows "limiter_history ser (memory_limiter o1 key skip) rs s
    = admits (\<lambda>now. rl_increment now now) (limiter_max o1) (limiter_window o1)
        (map (\<lambda>(now, req). (now, limiter_key (memory_limiter o1 key skip) req)) rs) s"
proof (induction rs arbitrary: s)
  case (Cons x rs)
  obtain now req where x: "x = (now, req)" by force
  let ?lm = "memory_limiter o1 key skip"
  have new: "\<not> nr_headers_sent (nr_new (rq_method req) [])" "\<not> nr_aborted (nr_new (rq_method req) [])"
    by (simp_all add: nr_new_def)
  obtain c t s' where inc: "rl_increment now now (limiter_key ?lm req) (limiter_window o1) s = ((c, t), s')"
    by (metis prod.exhaust)
  have f: "lm_window ?lm = limiter_window o1" "lm_max ?lm = limiter_max o1" "\<not> limiter_skips ?lm req"
    "lm_increment ?lm now (limiter_key ?lm req) (limiter_window o1) s = (Inr (c, t), s')"
    using assms by (simp_all add: memory_limiter_simps inc)
  show ?case
    using limiter_decides[OF new, of ser ?lm now req s] Cons.IH[of s']
    by (simp add: x f within_limit_def Let_def inc)
qed simp

text \<open>C5. The rate limit. Take a limiter over a fresh memory store, requests whose times do not go back,
  and no more client keys active in one window than \<open>maxKeys\<close>, none of them skipped. Then for every key and every window
  of \<open>windowMs\<close> milliseconds, wherever it opens, at most \<open>max\<close> requests of that key in that window
  go on to the handler.\<close>

theorem limiter_window_limit:
  assumes "0 < limiter_window o1" "limiter_skips (memory_limiter o1 key skip) = (\<lambda>_. False)"
    and "es = map (\<lambda>(now, req). (now, limiter_key (memory_limiter o1 key skip) req)) rs"
    and "sorted (map fst es)" "fits (limiter_window o1) (rm_max_keys (rl_memory_new mk)) es"
  shows "int (admitted_in (limiter_window o1) x k es (limiter_history ser (memory_limiter o1 key skip) rs (rl_memory_new mk)))
    \<le> max 0 (limiter_max o1)"
  using sorted_start[OF assms(4)] rl_mem.window_limit[OF rl_memory_new_rep[OF assms(1)] _ assms(5)]
  by (auto simp: limiter_history_admits[OF assms(2)] assms(3)[symmetric])

definition demo_limits :: rate_limit_options where
  "demo_limits = \<lparr> ro_window = Some 1000, ro_max = Some 1, ro_max_requests = None, ro_allow_memory = False, ro_memory_max_keys = None \<rparr>"

definition demo_requests :: "(int \<times> request) list" where
  "demo_requests = [(100, demo_request GET ''/a''), (200, demo_request GET ''/a''), (1300, demo_request GET ''/a'')]"

theorem limiter_window_limit_witness:
  "int (admitted_in 1000 50 ''127.0.0.1'' [(100, ''127.0.0.1''), (200, ''127.0.0.1''), (1300, ''127.0.0.1'')]
     (limiter_history envelope (memory_limiter demo_limits None None) demo_requests (rl_memory_new (Some 5)))) \<le> 1"
proof -
  have w: "limiter_window demo_limits = 1000" "limiter_max demo_limits = 1"
    by (simp_all add: limiter_window_def limiter_max_def demo_limits_def)
  have es: "[(100, ''127.0.0.1''), (200, ''127.0.0.1''), (1300, ''127.0.0.1'')]
      = map (\<lambda>(now, req). (now, limiter_key (memory_limiter demo_limits None None) req)) demo_requests"
    by (simp add: demo_requests_def demo_request_def limiter_key_def memory_limiter_def default_key_def)
  have f: "fits (limiter_window demo_limits) (rm_max_keys (rl_memory_new (Some 5)))
      [(100, ''127.0.0.1''), (200, ''127.0.0.1''), (1300, ''127.0.0.1'')]"
    by code_simp
  show ?thesis
    using limiter_window_limit[OF _ _ es _ f, where x = 50 and k = "''127.0.0.1''" and ser = envelope] w
    by (simp add: fun_eq_iff limiter_skips_def memory_limiter_def)
qed

text \<open>A skip function and a key generator that both throw: the second request of the address is still refused.\<close>

definition throwing_limiter :: "rl_memory limiter" where
  "throwing_limiter = memory_limiter demo_limits (Some (\<lambda>_. None)) (Some (\<lambda>_. None))"

theorem limiter_fails_closed_witness:
  "nr_status_code (snd (fst (limiter_run envelope throwing_limiter 200 (demo_request GET ''/a'')
      (snd (rl_increment 100 100 ''127.0.0.1'' 1000 (rl_memory_new (Some 5))), nr_new GET [])))) = 429"
proof -
  let ?s = "snd (rl_increment 100 100 ''127.0.0.1'' 1000 (rl_memory_new (Some 5)))"
  have o: "\<not> nr_headers_sent (nr_new GET [])" "\<not> nr_aborted (nr_new GET [])" by (simp_all add: nr_new_def)
  have c: "counted_as throwing_limiter (demo_request GET ''/a'') ''127.0.0.1''"
    by (simp add: counted_as_def throwing_limiter_def memory_limiter_def demo_request_def)
  have u: "\<not> user_skips throwing_limiter (demo_request GET ''/a'')"
    by (simp add: user_skips_def throwing_limiter_def memory_limiter_def)
  have "case fst (lm_increment throwing_limiter 200 ''127.0.0.1'' (lm_window throwing_limiter) ?s) of Inr (n, t) \<Rightarrow> n = 2 | Inl _ \<Rightarrow> False"
    "lm_max throwing_limiter = 1"
    by code_simp+
  then obtain t where "fst (lm_increment throwing_limiter 200 ''127.0.0.1'' (lm_window throwing_limiter) ?s) = Inr (2, t)"
    "lm_max throwing_limiter = 1"
    by (auto split: sum.splits)
  then have "answered_with 429 (limiter_run envelope throwing_limiter 200 (demo_request GET ''/a'') (?s, nr_new GET []))"
    using limiter_fails_closed[OF o c, where ser = envelope and now = 200 and s = ?s] u by simp
  then show ?thesis by (simp add: answered_with_def)
qed

subsection \<open>The Redis store\<close>

text \<open>A client of one of the two conventions, as documented: it understands the calls of its own style
  only and rejects the others without an effect; \<open>EVALSHA\<close> answers \<open>NOSCRIPT\<close> exactly when the server
  does not know the script, also without an effect; otherwise the server runs the script.\<close>

definition redis_client_of ::
    "arg_style \<Rightarrow> (int \<Rightarrow> string \<Rightarrow> int \<Rightarrow> string \<Rightarrow> 'c \<Rightarrow> (int \<times> int) \<times> 'c) \<Rightarrow> ('c \<Rightarrow> bool) \<Rightarrow> 'c redis_client \<Rightarrow> bool" where
  "redis_client_of sty script loaded cl \<longleftrightarrow> rc_has_eval cl \<and>
     (\<forall>now k w m c. rc_call cl now (Eval sty k w m) c = (let (v, c') = script now k w m c in (Inr v, c'))) \<and>
     (\<forall>now k w m c. rc_call cl now (EvalSha sty k w m) c =
        (if loaded c then (let (v, c') = script now k w m c in (Inr v, c')) else (Inl ''NOSCRIPT No matching script'', c))) \<and>
     (\<forall>sty' now k w m c. sty' \<noteq> sty \<longrightarrow> (\<exists>e. \<not> noscript e \<and> rc_call cl now (Eval sty' k w m) c = (Inl e, c))) \<and>
     (\<forall>sty' now k w m c. sty' \<noteq> sty \<longrightarrow> (\<exists>e. \<not> noscript e \<and> rc_call cl now (EvalSha sty' k w m) c = (Inl e, c)))"

definition redis_store_ok :: "arg_style \<Rightarrow> redis_store \<Rightarrow> bool" where
  "redis_store_ok sty s \<longleftrightarrow> rs_eval_style s \<in> {None, Some sty} \<and> rs_sha_style s \<in> {None, Some sty}"

lemma redis_client_of_other:
  assumes "redis_client_of sty script loaded cl" "sty' \<noteq> sty"
  shows "\<exists>e. \<not> noscript e \<and> rc_call cl now (Eval sty' k w m) c = (Inl e, c)"
    and "\<exists>e. \<not> noscript e \<and> rc_call cl now (EvalSha sty' k w m) c = (Inl e, c)"
  using assms by (simp_all add: redis_client_of_def)

lemma redis_eval_of:
  assumes cl: "redis_client_of sty script loaded cl" and ok: "redis_store_ok sty s"
  shows "\<exists>s'. redis_eval cl now k w m (s, c) = (Inr (fst (script now k w m c)), s', snd (script now k w m c)) \<and> redis_store_ok sty s'"
proof -
  have run: "rc_call cl now (Eval sty k w m) c = (Inr (fst (script now k w m c)), snd (script now k w m c))" for c
    using cl by (simp add: redis_client_of_def split: prod.splits)
  have no: "\<exists>e. rc_call cl now (Eval sty' k w m) c = (Inl e, c)" if "sty' \<noteq> sty" for sty'
    using redis_client_of_other(1)[OF cl that, of now k w m c] by blast
  have ev: "rc_has_eval cl" using cl by (simp add: redis_client_of_def)
  show ?thesis
  proof (cases "rs_eval_style s")
    case (Some x)
    then show ?thesis using ok ev by (simp add: redis_eval_def redis_store_ok_def run)
  next
    case None
    then show ?thesis using ok ev no[of ObjectStyle] run[of c]
      by (cases sty) (auto simp: redis_eval_def redis_store_ok_def)
  qed
qed

lemma redis_eval_sha_of:
  assumes cl: "redis_client_of sty script loaded cl" and ok: "redis_store_ok sty s"
  obtains s' where "redis_store_ok sty s'"
    "redis_eval_sha cl now k w m (s, c) = (Inr (fst (script now k w m c)), s', snd (script now k w m c))"
  | s' e where "redis_store_ok sty s'" "noscript e" "redis_eval_sha cl now k w m (s, c) = (Inl e, s', c)"
proof -
  have run: "loaded c \<Longrightarrow> rc_call cl now (EvalSha sty k w m) c = (Inr (fst (script now k w m c)), snd (script now k w m c))"
    "\<not> loaded c \<Longrightarrow> rc_call cl now (EvalSha sty k w m) c = (Inl ''NOSCRIPT No matching script'', c)"
    using cl by (simp_all add: redis_client_of_def split: prod.splits)
  have no: "\<exists>e. \<not> noscript e \<and> rc_call cl now (EvalSha sty' k w m) c = (Inl e, c)" if "sty' \<noteq> sty" for sty'
    by (rule redis_client_of_other(2)[OF cl that])
  have ns: "noscript ''NOSCRIPT''" "noscript ''NOSCRIPT No matching script''" by code_simp+
  show ?thesis
  proof (cases "rc_has_evalsha cl \<and> loaded c")
    case True
    then have "\<exists>s'. redis_store_ok sty s' \<and>
        redis_eval_sha cl now k w m (s, c) = (Inr (fst (script now k w m c)), s', snd (script now k w m c))"
      using ok no[of VariadicStyle] run
      by (cases sty; cases "rs_sha_style s") (auto simp: redis_eval_sha_def redis_store_ok_def)
    then show ?thesis using that(1) by blast
  next
    case False
    then have "\<exists>s' e. redis_store_ok sty s' \<and> noscript e \<and> redis_eval_sha cl now k w m (s, c) = (Inl e, s', c)"
      using ok no[of VariadicStyle] run ns
      by (cases sty; cases "rs_sha_style s") (auto simp: redis_eval_sha_def redis_store_ok_def)
    then show ?thesis using that(2) by blast
  qed
qed

lemma load_and_eval_of:
  assumes "redis_client_of sty script loaded cl" "redis_store_ok sty s"
  shows "\<exists>s'. load_and_eval cl now k w m (s, c) = (Inr (fst (script now k w m c)), s', snd (script now k w m c)) \<and> redis_store_ok sty s'"
  using redis_eval_of[OF assms, of now k w m c] by (auto simp: load_and_eval_def redis_store_ok_def)

text \<open>Against a client of either calling convention (ioredis or redis@4), an increment of the Redis
  store runs the sliding-window script exactly once on the server and returns its result, whatever
  the store has learnt of the client so far and whether or not the server still has the script (a
  flush or a restart in between is answered by sending it again).\<close>

theorem redis_increment_once:
  assumes "redis_client_of sty script loaded cl" "redis_store_ok sty s"
  shows "\<exists>s'. redis_increment cl now k w m (s, c) = (Inr (fst (script now k w m c)), s', snd (script now k w m c))
    \<and> redis_store_ok sty s'"
proof (cases "rs_script_loaded s")
  case False
  then show ?thesis using load_and_eval_of[OF assms] by (simp add: redis_increment_def)
next
  case True
  show ?thesis
  proof (rule redis_eval_sha_of[OF assms, of now k w m c], goal_cases)
    case (1 s')
    then show ?thesis using True by (simp add: redis_increment_def)
  next
    case (2 s' e)
    have "redis_store_ok sty (s'\<lparr>rs_script_loaded := False\<rparr>)" using 2(1) by (simp add: redis_store_ok_def)
    from load_and_eval_of[OF assms(1) this, of now k w m c] show ?thesis using 2 True by (simp add: redis_increment_def)
  qed
qed

text \<open>A client of the ioredis kind over a server that counts, with the script known or not.\<close>

definition demo_script :: "int \<Rightarrow> string \<Rightarrow> int \<Rightarrow> string \<Rightarrow> bool \<times> nat \<Rightarrow> (int \<times> int) \<times> (bool \<times> nat)" where
  "demo_script now k w m c = ((int (Suc (snd c)), ceil_seconds (now + w)), (True, Suc (snd c)))"

definition demo_client :: "(bool \<times> nat) redis_client" where
  "demo_client = \<lparr> rc_has_eval = True, rc_has_evalsha = True,
     rc_call = (\<lambda>now cmd c. case cmd of
        Eval VariadicStyle k w m \<Rightarrow> (let (v, c') = demo_script now k w m c in (Inr v, c'))
      | EvalSha VariadicStyle k w m \<Rightarrow>
          (if fst c then (let (v, c') = demo_script now k w m c in (Inr v, c')) else (Inl ''NOSCRIPT No matching script'', c))
      | _ \<Rightarrow> (Inl ''ERR wrong number of arguments'', c)) \<rparr>"

lemma demo_client_of: "redis_client_of VariadicStyle demo_script fst demo_client"
proof -
  have "\<not> noscript ''ERR wrong number of arguments''" by code_simp
  then have e: "\<exists>e. \<not> noscript e \<and> (Inl ''ERR wrong number of arguments'' :: string + (int \<times> int), c) = (Inl e, c)"
    for c :: "bool \<times> nat" by blast
  have o: "sty' \<noteq> VariadicStyle \<Longrightarrow> sty' = ObjectStyle" for sty' by (cases sty') auto
  show ?thesis
    unfolding redis_client_of_def
  proof (intro conjI allI impI, goal_cases)
    case (4 sty') then show ?case using e o[OF 4] by (simp only: demo_client_def redis_client.simps redis_command.case arg_style.case)
  next
    case (5 sty') then show ?case using e o[OF 5] by (simp only: demo_client_def redis_client.simps redis_command.case arg_style.case)
  qed (simp_all add: demo_client_def)
qed

theorem redis_increment_once_witness:
  "\<exists>s'. redis_increment demo_client 5 ''k'' 1000 ''m'' (redis_store_new, (False, 7)) = (Inr (8, 2), s', (True, 8))
    \<and> redis_store_ok VariadicStyle s'"
proof -
  have "redis_store_ok VariadicStyle redis_store_new" by (simp add: redis_store_ok_def redis_store_new_def)
  from redis_increment_once[OF demo_client_of this, of 5 "''k''" 1000 "''m''" "(False, 7)"]
  show ?thesis by (simp add: demo_script_def ceil_seconds_def)
qed

end
