(* ===== verification/Jobs_Storage.thy ===== *)
theory Jobs_Storage
  imports Js_Value
begin

text \<open>
  \<open>packages/jobs/src/storage.ts\<close>: the \<open>Job\<close> record, \<open>MemoryJobStorage\<close>, and what the scheduler relies on of a
  \<open>JobStorage\<close>, as a locale. The memory storage hands out copies, so a job that was acquired does not
  change with the stored one.
\<close>

datatype job_status = Pending | Running | Completed | Failed

record job =
  jb_id :: string
  jb_queue :: string
  jb_name :: string
  jb_payload :: jsval
  jb_status :: job_status
  jb_priority :: int
  jb_run_at :: int
  jb_attempts :: int
  jb_max_attempts :: int
  jb_error :: "string option"
  jb_locked_at :: "int option"
  jb_lock_expires :: "int option"

type_synonym job_map = "(string, job) jsmap"

subsection \<open>MemoryJobStorage\<close>

definition mj_save :: "job \<Rightarrow> job_map \<Rightarrow> job_map" where
  "mj_save j jobs = AList.update (jb_id j) j jobs"

text \<open>The candidates in the order of the stable sort by descending priority.\<close>

definition mj_candidates :: "int \<Rightarrow> string \<Rightarrow> job_map \<Rightarrow> job list" where
  "mj_candidates now queue jobs =
     sort_key (\<lambda>j. - jb_priority j)
       (filter (\<lambda>j. jb_queue j = queue \<and> jb_status j = Pending \<and> jb_run_at j \<le> now) (map snd jobs))"

definition mj_acquire :: "int \<Rightarrow> string \<Rightarrow> int \<Rightarrow> job_map \<Rightarrow> job option \<times> job_map" where
  "mj_acquire now queue lock_ms jobs =
     (case mj_candidates now queue jobs of
        [] \<Rightarrow> (None, jobs)
      | j # _ \<Rightarrow>
          let j' = j\<lparr>jb_status := Running, jb_lock_expires := Some (now + lock_ms), jb_locked_at := Some (now + lock_ms)\<rparr>
          in (Some j', AList.update (jb_id j) j' jobs))"

definition mj_complete :: "string \<Rightarrow> job_map \<Rightarrow> job_map" where
  "mj_complete i jobs =
     (case map_of jobs i of None \<Rightarrow> jobs | Some j \<Rightarrow> AList.update i (j\<lparr>jb_status := Completed\<rparr>) jobs)"

definition failed_job :: "int \<Rightarrow> string \<Rightarrow> int option \<Rightarrow> job \<Rightarrow> job" where
  "failed_job now err retry j =
     (let j1 = j\<lparr>jb_attempts := jb_attempts j + 1, jb_error := Some err\<rparr>
      in case retry of
           Some ms \<Rightarrow> if jb_attempts j1 < jb_max_attempts j1 then j1\<lparr>jb_status := Pending, jb_run_at := now + ms\<rparr>
                      else j1\<lparr>jb_status := Failed\<rparr>
         | None \<Rightarrow> j1\<lparr>jb_status := Failed\<rparr>)"

definition mj_fail :: "int \<Rightarrow> string \<Rightarrow> string \<Rightarrow> int option \<Rightarrow> job_map \<Rightarrow> job_map" where
  "mj_fail now i err retry jobs =
     (case map_of jobs i of None \<Rightarrow> jobs | Some j \<Rightarrow> AList.update i (failed_job now err retry j) jobs)"

definition mj_get_jobs :: "string option \<Rightarrow> job_map \<Rightarrow> job list" where
  "mj_get_jobs queue jobs =
     (case queue of Some (c # q) \<Rightarrow> filter (\<lambda>j. jb_queue j = c # q) (map snd jobs) | _ \<Rightarrow> map snd jobs)"

definition mj_clear :: "job_map \<Rightarrow> job_map" where
  "mj_clear jobs = []"

definition purgeable :: "int \<Rightarrow> int option \<Rightarrow> job \<Rightarrow> bool" where
  "purgeable now older j \<longleftrightarrow> (jb_status j = Completed \<or> jb_status j = Failed)
     \<and> (case older of None \<Rightarrow> True | Some ms \<Rightarrow> now - jb_run_at j \<ge> ms)"

definition mj_purge :: "int \<Rightarrow> int option \<Rightarrow> job_map \<Rightarrow> nat \<times> job_map" where
  "mj_purge now older jobs =
     (length (filter (\<lambda>(i, j). purgeable now older j) jobs), filter (\<lambda>(i, j). \<not> purgeable now older j) jobs)"

subsection \<open>The storage as an interface\<close>

text \<open>What the scheduler relies on, in terms of what is stored under an identifier.\<close>

locale job_storage =
  fixes save :: "job \<Rightarrow> 's \<Rightarrow> 's"
    and acquire :: "int \<Rightarrow> string \<Rightarrow> int \<Rightarrow> 's \<Rightarrow> job option \<times> 's"
    and complete :: "string \<Rightarrow> 's \<Rightarrow> 's"
    and fail :: "int \<Rightarrow> string \<Rightarrow> string \<Rightarrow> int option \<Rightarrow> 's \<Rightarrow> 's"
    and stored :: "'s \<Rightarrow> string \<Rightarrow> job option"
    and inv :: "'s \<Rightarrow> bool"
  assumes save_inv: "inv s \<Longrightarrow> inv (save j s)"
    and acquire_inv: "inv s \<Longrightarrow> inv (snd (acquire now q l s))"
    and complete_inv: "inv s \<Longrightarrow> inv (complete i s)"
    and fail_inv: "inv s \<Longrightarrow> inv (fail now i e r s)"
    and save_stored: "inv s \<Longrightarrow> stored (save j s) = (stored s)(jb_id j \<mapsto> j)"
    and acquire_none: "inv s \<Longrightarrow> acquire now q l s = (None, s') \<Longrightarrow> stored s' = stored s"
    and acquire_some: "inv s \<Longrightarrow> acquire now q l s = (Some j, s') \<Longrightarrow>
        \<exists>j0. stored s (jb_id j) = Some j0 \<and> jb_status j0 = Pending \<and> jb_queue j0 = q \<and> jb_run_at j0 \<le> now
          \<and> jb_status j = Running \<and> jb_queue j = q \<and> jb_attempts j = jb_attempts j0 \<and> jb_max_attempts j = jb_max_attempts j0
          \<and> stored s' = (stored s)(jb_id j \<mapsto> j)"
    and complete_stored: "inv s \<Longrightarrow> stored (complete i s) =
        (stored s)(i := map_option (\<lambda>j. j\<lparr>jb_status := Completed\<rparr>) (stored s i))"
    and fail_stored: "inv s \<Longrightarrow> stored (fail now i e r s) = (stored s)(i := map_option (failed_job now e r) (stored s i))"
    and stored_id: "inv s \<Longrightarrow> stored s i = Some j \<Longrightarrow> jb_id j = i"

definition mj_inv :: "job_map \<Rightarrow> bool" where
  "mj_inv jobs \<longleftrightarrow> distinct_keys jobs \<and> (\<forall>(i, j) \<in> set jobs. jb_id j = i)"

lemma mj_inv_update: "mj_inv jobs \<Longrightarrow> jb_id j = i \<Longrightarrow> mj_inv (AList.update i j jobs)"
  using set_update_subset[of i j jobs] by (auto simp: mj_inv_def)

lemma mj_inv_stored: "mj_inv jobs \<Longrightarrow> map_of jobs i = Some j \<Longrightarrow> jb_id j = i"
  using map_of_SomeD by (fastforce simp: mj_inv_def)

lemma failed_job_id [simp]: "jb_id (failed_job now e r j) = jb_id j"
  by (simp add: failed_job_def Let_def split: option.splits)

lemma mj_candidates_mem:
  "mj_inv jobs \<Longrightarrow> j \<in> set (mj_candidates now q jobs) \<Longrightarrow>
     map_of jobs (jb_id j) = Some j \<and> jb_queue j = q \<and> jb_status j = Pending \<and> jb_run_at j \<le> now"
  by (auto simp: mj_candidates_def mj_inv_def)

lemma mj_acquire_some:
  assumes "mj_inv s" "mj_acquire now q l s = (Some j, s')"
  shows "\<exists>j0. map_of s (jb_id j) = Some j0 \<and> jb_status j0 = Pending \<and> jb_queue j0 = q \<and> jb_run_at j0 \<le> now
    \<and> j = j0\<lparr>jb_status := Running, jb_lock_expires := Some (now + l), jb_locked_at := Some (now + l)\<rparr>
    \<and> s' = AList.update (jb_id j) j s"
proof -
  obtain j0 js where c: "mj_candidates now q s = j0 # js"
    using assms(2) by (cases "mj_candidates now q s") (auto simp: mj_acquire_def)
  then have "map_of s (jb_id j0) = Some j0 \<and> jb_queue j0 = q \<and> jb_status j0 = Pending \<and> jb_run_at j0 \<le> now"
    using mj_candidates_mem[OF assms(1), of j0 now q] by simp
  then show ?thesis using assms(2) c
    by (intro exI[of _ j0]) (auto simp: mj_acquire_def Let_def simp del: map_of_eq_Some_iff)
qed

interpretation mj: job_storage mj_save mj_acquire mj_complete mj_fail map_of mj_inv
proof (unfold_locales, goal_cases)
  case (1 s j) then show ?case by (simp add: mj_save_def mj_inv_update)
next
  case (2 s now q l)
  show ?case
  proof (cases "mj_candidates now q s")
    case (Cons j js)
    then show ?thesis using 2 by (simp add: mj_acquire_def Let_def mj_inv_update)
  qed (simp add: mj_acquire_def 2)
next
  case (3 s i)
  then show ?case using mj_inv_stored[OF 3, of i]
    by (simp add: mj_complete_def mj_inv_update split: option.splits del: map_of_eq_Some_iff)
next
  case (4 s now i e r)
  then show ?case using mj_inv_stored[OF 4, of i]
    by (simp add: mj_fail_def mj_inv_update split: option.splits del: map_of_eq_Some_iff)
next
  case (5 s j) show ?case by (simp add: fun_eq_iff mj_save_def)
next
  case (6 s now q l s') then show ?case by (auto simp: mj_acquire_def Let_def split: list.splits)
next
  case (7 s now q l j s')
  from mj_acquire_some[OF this] show ?case by (fastforce simp: fun_eq_iff simp del: map_of_eq_Some_iff)
next
  case (8 s i) show ?case by (auto simp: fun_eq_iff mj_complete_def simp del: map_of_eq_Some_iff split: option.splits)
next
  case (9 s now i e r) show ?case by (auto simp: fun_eq_iff mj_fail_def simp del: map_of_eq_Some_iff split: option.splits)
next
  case (10 s i j) then show ?case by (rule mj_inv_stored)
qed

subsection \<open>Which job is next\<close>

definition due :: "int \<Rightarrow> string \<Rightarrow> job \<Rightarrow> bool" where
  "due now q j \<longleftrightarrow> jb_queue j = q \<and> jb_status j = Pending \<and> jb_run_at j \<le> now"

lemma sort_key_hd:
  "sort_key f (filter P (map snd kvs)) = y # ys \<Longrightarrow>
     \<exists>pre k post. kvs = pre @ (k, y) # post \<and> P y \<and> (\<forall>x \<in> snd ` set pre. P x \<longrightarrow> f y < f x) \<and> (\<forall>x \<in> snd ` set post. P x \<longrightarrow> f y \<le> f x)"
proof (induction kvs arbitrary: y ys)
  case (Cons kv kvs)
  obtain k v where kv: "kv = (k, v)" by force
  show ?case
  proof (cases "P v")
    case False
    then obtain pre k' post where "kvs = pre @ (k', y) # post" "P y" "\<forall>x \<in> snd ` set pre. P x \<longrightarrow> f y < f x"
      "\<forall>x \<in> snd ` set post. P x \<longrightarrow> f y \<le> f x"
      using Cons.IH[of y ys] Cons.prems kv by auto
    then show ?thesis using False kv by (intro exI[of _ "kv # pre"] exI[of _ k'] exI[of _ post]) auto
  next
    case True
    then have ins: "insort_key f v (sort_key f (filter P (map snd kvs))) = y # ys" using Cons.prems kv by simp
    show ?thesis
    proof (cases "sort_key f (filter P (map snd kvs))")
      case Nil
      then have "filter P (map snd kvs) = []" by (metis length_0_conv length_sort)
      then show ?thesis using ins Nil True kv
        by (intro exI[of _ "[]"] exI[of _ k] exI[of _ kvs]) (auto simp: filter_empty_conv)
    next
      case (Cons z zs)
      from Cons.IH[OF Cons] obtain pre k' post where d: "kvs = pre @ (k', z) # post" "P z"
        "\<forall>x \<in> snd ` set pre. P x \<longrightarrow> f z < f x" "\<forall>x \<in> snd ` set post. P x \<longrightarrow> f z \<le> f x" by blast
      show ?thesis
      proof (cases "f v \<le> f z")
        case True
        then have "y = v" using ins Cons by simp
        moreover have "\<forall>x \<in> snd ` set kvs. P x \<longrightarrow> f v \<le> f x" using True d by fastforce
        ultimately show ?thesis using \<open>P v\<close> kv by (intro exI[of _ "[]"] exI[of _ k] exI[of _ kvs]) simp
      next
        case False
        then have "y = z" using ins Cons by simp
        then show ?thesis using False d kv
          by (intro exI[of _ "kv # pre"] exI[of _ k'] exI[of _ post]) auto
      qed
    qed
  qed
qed simp

lemma update_middle: "k \<notin> fst ` set pre \<Longrightarrow> AList.update k v (pre @ (k, v0) # post) = pre @ (k, v) # post"
  by (induction pre) auto

text \<open>\<open>acquireNext\<close> of the memory storage returns nothing, and changes nothing, exactly when no job of the queue
  is pending and due. Otherwise it takes the job that was saved first among those of the highest
  priority, marks exactly that one as running with its lock set, and returns it.\<close>

theorem acquire_next_spec:
  assumes "mj_inv jobs"
  shows "case mj_acquire now q l jobs of
      (None, jobs') \<Rightarrow> jobs' = jobs \<and> filter (due now q) (map snd jobs) = []
    | (Some j, jobs') \<Rightarrow> (\<exists>pre j0 post. jobs = pre @ (jb_id j, j0) # post \<and> jobs' = pre @ (jb_id j, j) # post
        \<and> j = j0\<lparr>jb_status := Running, jb_lock_expires := Some (now + l), jb_locked_at := Some (now + l)\<rparr>
        \<and> due now q j0 \<and> list_all (\<lambda>(i, x). due now q x \<longrightarrow> jb_priority x < jb_priority j0) pre
        \<and> list_all (\<lambda>(i, x). due now q x \<longrightarrow> jb_priority x \<le> jb_priority j0) post)"
proof -
  have c: "mj_candidates now q jobs = sort_key (\<lambda>j. - jb_priority j) (filter (due now q) (map snd jobs))"
    by (simp add: mj_candidates_def due_def[abs_def])
  show ?thesis
  proof (cases "mj_candidates now q jobs")
    case Nil
    then have "filter (due now q) (map snd jobs) = []" unfolding c by (metis length_0_conv length_sort)
    then show ?thesis by (simp add: mj_acquire_def Nil)
  next
    case (Cons j0 js)
    let ?j = "j0\<lparr>jb_status := Running, jb_lock_expires := Some (now + l), jb_locked_at := Some (now + l)\<rparr>"
    from sort_key_hd[OF Cons[unfolded c]] obtain pre k post where d: "jobs = pre @ (k, j0) # post" "due now q j0"
      "\<forall>x \<in> snd ` set pre. due now q x \<longrightarrow> - jb_priority j0 < - jb_priority x"
      "\<forall>x \<in> snd ` set post. due now q x \<longrightarrow> - jb_priority j0 \<le> - jb_priority x" by blast
    have k: "k = jb_id j0" "k \<notin> fst ` set pre" using assms d(1) by (auto simp: mj_inv_def)
    then have "mj_acquire now q l jobs = (Some ?j, pre @ (k, ?j) # post)"
      using update_middle[OF k(2)] Cons by (simp add: mj_acquire_def Let_def d(1))
    moreover have "list_all (\<lambda>(i, x). due now q x \<longrightarrow> jb_priority x < jb_priority j0) pre"
      "list_all (\<lambda>(i, x). due now q x \<longrightarrow> jb_priority x \<le> jb_priority j0) post"
      using d(3,4) by (auto simp: list_all_iff)
    ultimately show ?thesis using d(1,2) k(1) by (simp, intro exI[of _ pre], intro exI[of _ j0], auto)
  qed
qed

definition demo_job :: "string \<Rightarrow> int \<Rightarrow> job" where
  "demo_job i p = \<lparr> jb_id = i, jb_queue = ''q'', jb_name = ''mail'', jb_payload = JUndef, jb_status = Pending, jb_priority = p,
     jb_run_at = 0, jb_attempts = 0, jb_max_attempts = 3, jb_error = None, jb_locked_at = None, jb_lock_expires = None \<rparr>"

theorem acquire_next_spec_witness:
  "case mj_acquire 10 ''q'' 5 [(''a'', demo_job ''a'' 1), (''b'', demo_job ''b'' 2)] of
      (None, jobs') \<Rightarrow> False | (Some j, jobs') \<Rightarrow> jb_id j = ''b''"
proof -
  have "mj_inv [(''a'', demo_job ''a'' 1), (''b'', demo_job ''b'' 2)]" by (simp add: mj_inv_def demo_job_def)
  from acquire_next_spec[OF this, of 10 "''q''" 5] show ?thesis
    by (auto simp: demo_job_def due_def Cons_eq_append_conv split: option.splits prod.splits)
qed

end
