(* ===== verification/Jobs_Cron.thy ===== *)
theory Jobs_Cron
  imports Prelude
begin

text \<open>
  The cron expressions of \<open>packages/jobs/src/scheduler.ts\<close>: \<open>parseInt\<close> in base ten, \<open>matchesCronField\<close>
  and \<open>matchesCronExpression\<close>, and what the fields of a pattern mean.
\<close>

subsection \<open>Numbers\<close>

definition is_digit :: "char \<Rightarrow> bool" where
  "is_digit c \<longleftrightarrow> 48 \<le> (of_char c :: nat) \<and> of_char c \<le> (57 :: nat)"

definition digits_value :: "string \<Rightarrow> int" where
  "digits_value ds = foldl (\<lambda>a c. a * 10 + (of_char c - 48)) 0 ds"

definition parse_int :: "string \<Rightarrow> int option" where
  "parse_int s =
     (let t = trim_start s;
          (neg, u) = (case t of
              c # r \<Rightarrow> if c = CHR ''-'' then (True, r) else if c = CHR ''+'' then (False, r) else (False, c # r)
            | [] \<Rightarrow> (False, []));
          ds = takeWhile is_digit u
      in if ds = [] then None else Some (if neg then - digits_value ds else digits_value ds))"

lemma digits_value_snoc: "digits_value (ds @ [c]) = digits_value ds * 10 + (of_char c - 48)"
  by (simp add: digits_value_def)

lemma of_char_digit: "m < 10 \<Longrightarrow> (of_char (char_of (48 + m) :: char) :: int) = 48 + int m"
proof -
  assume "m < 10"
  then have "(of_char (char_of (48 + m) :: char) :: nat) = 48 + m" by simp
  then show ?thesis by (metis of_nat_of_char of_nat_add of_nat_numeral)
qed

lemma digits_value_show_nat: "digits_value (show_nat n) = int n"
proof (induction n rule: show_nat.induct)
  case (1 n)
  show ?case
  proof (cases "n < 10")
    case True
    then show ?thesis by (subst show_nat.simps) (simp add: digits_value_def of_char_digit)
  next
    case False
    have "int (n div 10) * 10 + int (n mod 10) = int n" by presburger
    then show ?thesis using 1 False
      by (subst show_nat.simps) (simp add: digits_value_snoc of_char_digit)
  qed
qed

lemma show_nat_nonempty [simp]: "show_nat n \<noteq> []"
  by (subst show_nat.simps) simp

lemma show_nat_is_digit: "c \<in> set (show_nat n) \<Longrightarrow> is_digit c"
  using show_nat_digit by (simp add: is_digit_def)

lemma is_digit_not: "is_digit c \<Longrightarrow> c \<noteq> CHR ''-'' \<and> c \<noteq> CHR ''+'' \<and> c \<noteq> CHR '','' \<and> c \<noteq> CHR ''/'' \<and> c \<noteq> CHR ''*'' \<and> \<not> is_ws c"
  by (auto simp: is_digit_def is_ws_def)

lemma parse_int_show_nat:
  assumes "rest = [] \<or> \<not> is_digit (hd rest)"
  shows "parse_int (show_nat n @ rest) = Some (int n)"
proof -
  obtain c r where cr: "show_nat n = c # r" by (cases "show_nat n") auto
  then have c: "is_digit c" using show_nat_is_digit[of c n] by simp
  have tw: "takeWhile is_digit (show_nat n @ rest) = show_nat n"
    using assms show_nat_is_digit[of _ n] by (cases rest) (auto simp: takeWhile_append)
  have "trim_start (show_nat n @ rest) = show_nat n @ rest"
    using is_digit_not[OF c] by (simp add: cr trim_start_def)
  then show ?thesis
    using tw is_digit_not[OF c] digits_value_show_nat[of n] by (simp add: parse_int_def cr)
qed

subsection \<open>Fields\<close>

lemma length_trim: "length (trim s) \<le> length s"
  unfolding trim_def by (metis length_dropWhile_le length_rev le_trans)

lemma split_on_shorter: "c \<in> set s \<Longrightarrow> p \<in> set (split_on c s) \<Longrightarrow> length p < length s"
proof (induction s arbitrary: p)
  case (Cons x xs)
  have le: "length q \<le> length ys" if "q \<in> set (split_on c ys)" for q ys
    using that
  proof (induction ys arbitrary: q)
    case (Cons y ys)
    then show ?case by (cases "split_on c ys") (auto split: if_splits intro: le_SucI)
  qed simp
  show ?case
  proof (cases "x = c")
    case True
    then show ?thesis using Cons.prems le by (auto intro: le_imp_less_Suc)
  next
    case False
    then show ?thesis using Cons le[of _ xs] by (cases "split_on c xs") (auto simp: le_imp_less_Suc)
  qed
qed simp

function matches_cron_field :: "string \<Rightarrow> int \<Rightarrow> bool" where
  "matches_cron_field field v =
     (if field = ''*'' then True
      else if CHR ''/'' \<in> set field then
        (let parts = split_on (CHR ''/'') field
         in case parse_int (parts ! 1) of
              None \<Rightarrow> False
            | Some step \<Rightarrow>
                if step \<le> 0 then False
                else if parts ! 0 = ''*'' then v mod step = 0
                else (case parse_int (parts ! 0) of
                        None \<Rightarrow> False
                      | Some start \<Rightarrow> v \<ge> start \<and> (v - start) mod step = 0))
      else if CHR '','' \<in> set field then
        list_ex (\<lambda>item. matches_cron_field item v) (map trim (split_on (CHR '','') field))
      else if CHR ''-'' \<in> set field then
        (let parts = split_on (CHR ''-'') field
         in case (parse_int (parts ! 0), parse_int (parts ! 1)) of
              (Some start, Some stop) \<Rightarrow> v \<ge> start \<and> v \<le> stop
            | _ \<Rightarrow> False)
      else (case parse_int field of None \<Rightarrow> False | Some n \<Rightarrow> v = n))"
  by pat_completeness auto
termination
proof (relation "measure (\<lambda>(f, v). length f)", simp, goal_cases)
  case (1 field v item)
  then obtain p where "p \<in> set (split_on (CHR '','') field)" "item = trim p" by auto
  then show ?case using split_on_shorter[of "CHR '',''" field p] length_trim[of p] 1 by simp
qed

declare matches_cron_field.simps [simp del]

text \<open>\<open>split\<close> on runs of white space, after \<open>trim\<close>.\<close>

fun split_ws :: "string \<Rightarrow> string list" where
  "split_ws [] = [[]]"
| "split_ws [c] = (if is_ws c then [[], []] else [[c]])"
| "split_ws (c # d # s) =
     (if is_ws c then (if is_ws d then split_ws (d # s) else [] # split_ws (d # s))
      else (case split_ws (d # s) of [] \<Rightarrow> [[c]] | p # ps \<Rightarrow> (c # p) # ps))"

record cron_time =
  ct_minute :: int
  ct_hour :: int
  ct_dom :: int
  ct_month :: int
  ct_dow :: int

definition matches_cron_expression :: "string \<Rightarrow> cron_time \<Rightarrow> bool" where
  "matches_cron_expression pattern t =
     (case split_ws (trim pattern) of
        [mi, h, d, mo, w] \<Rightarrow>
          matches_cron_field mi (ct_minute t) \<and> matches_cron_field h (ct_hour t) \<and> matches_cron_field d (ct_dom t)
          \<and> matches_cron_field mo (ct_month t) \<and> matches_cron_field w (ct_dow t)
      | _ \<Rightarrow> False)"

subsection \<open>What fields mean\<close>

datatype cron_item = CronStar | CronNum nat | CronRange nat nat

fun print_item :: "cron_item \<Rightarrow> string" where
  "print_item CronStar = ''*''"
| "print_item (CronNum n) = show_nat n"
| "print_item (CronRange a b) = show_nat a @ ''-'' @ show_nat b"

fun item_matches :: "int \<Rightarrow> cron_item \<Rightarrow> bool" where
  "item_matches v CronStar = True"
| "item_matches v (CronNum n) = (v = int n)"
| "item_matches v (CronRange a b) = (int a \<le> v \<and> v \<le> int b)"

lemma show_nat_no [simp]: "CHR ''-'' \<notin> set (show_nat n)" "CHR '','' \<notin> set (show_nat n)" "CHR ''/'' \<notin> set (show_nat n)"
  "show_nat n \<noteq> ''*''"
proof -
  note d = is_digit_not[OF show_nat_is_digit]
  show "CHR ''-'' \<notin> set (show_nat n)" using d[of "CHR ''-''" n] by argo
  show "CHR '','' \<notin> set (show_nat n)" using d[of "CHR '',''" n] by argo
  show "CHR ''/'' \<notin> set (show_nat n)" using d[of "CHR ''/''" n] by argo
  show "show_nat n \<noteq> ''*''"
  proof
    assume "show_nat n = ''*''"
    then have "CHR ''*'' \<in> set (show_nat n)" by simp
    from d[OF this] show False by argo
  qed
qed

lemma print_item_no: "CHR '','' \<notin> set (print_item i)" "CHR ''/'' \<notin> set (print_item i)"
  by (cases i; simp)+

lemma show_nat_hd_last: "\<not> is_ws (hd (show_nat n))" "\<not> is_ws (last (show_nat n))"
  using is_digit_not show_nat_is_digit by (metis hd_in_set show_nat_nonempty, metis last_in_set show_nat_nonempty)

lemma trim_print_item: "trim (print_item i) = print_item i"
proof (rule trim_id, cases i)
  case CronStar
  have "\<not> is_ws CHR ''*''" by (simp add: is_ws_def)
  then show "print_item i = [] \<or> \<not> is_ws (hd (print_item i)) \<and> \<not> is_ws (last (print_item i))" by (simp add: CronStar)
qed (simp_all add: show_nat_hd_last)

lemma matches_item: "matches_cron_field (print_item i) v = item_matches v i"
proof (cases i)
  case CronStar
  then show ?thesis by (simp add: matches_cron_field.simps)
next
  case (CronNum n)
  have "parse_int (show_nat n) = Some (int n)" using parse_int_show_nat[of "[]" n] by simp
  then show ?thesis using CronNum by (simp add: matches_cron_field.simps)
next
  case (CronRange a b)
  have p: "parse_int (show_nat n) = Some (int n)" for n using parse_int_show_nat[of "[]" n] by simp
  have "split_on (CHR ''-'') (show_nat a @ CHR ''-'' # show_nat b) = [show_nat a, show_nat b]"
    by (simp add: split_on_append_sep split_on_no_sep)
  moreover have "show_nat a @ CHR ''-'' # show_nat b \<noteq> ''*''" by (cases "show_nat a") auto
  ultimately show ?thesis using CronRange p by (subst matches_cron_field.simps) simp
qed

lemma matches_list:
  assumes "CHR '','' \<in> set f" "CHR ''/'' \<notin> set f"
  shows "matches_cron_field f v = list_ex (\<lambda>item. matches_cron_field item v) (map trim (split_on (CHR '','') f))"
  using assms by (subst matches_cron_field.simps) auto

text \<open>A list of numbers, ranges and stars, printed the way a cron field is written, matches a value
  exactly when one of its items does.\<close>

theorem cron_list_spec:
  assumes "items \<noteq> []"
  shows "matches_cron_field (join_with '','' (map print_item items)) v = list_ex (item_matches v) items"
proof (cases "tl items = []")
  case True
  then obtain i where "items = [i]" using assms by (cases items) auto
  then show ?thesis by (simp add: matches_item)
next
  case False
  then obtain i j ks where items: "items = i # j # ks" using assms by (cases items; cases "tl items") auto
  let ?f = "join_with '','' (map print_item items)"
  have split: "split_on (CHR '','') ?f = map print_item items"
    by (rule split_join_with) (use assms print_item_no in auto)
  have "set (join_with '','' ss) \<subseteq> insert CHR '','' (\<Union> (set ` set ss))" for ss :: "string list"
    by (induction ss) (auto simp: join_with_Cons)
  then have ns: "CHR ''/'' \<notin> set ?f" using print_item_no(2) by fastforce
  have c: "CHR '','' \<in> set ?f" by (simp add: items join_with_Cons)
  note ml = matches_list[OF c ns, of v, unfolded split]
  show ?thesis unfolding ml by (simp add: list_ex_iff trim_print_item matches_item)
qed

theorem cron_list_spec_witness:
  "matches_cron_field (join_with '','' (map print_item [CronNum 5, CronRange 10 20])) 15"
  by (subst cron_list_spec) simp_all

lemma split_on_append: "c \<notin> set s \<Longrightarrow> split_on c (s @ t) = (s @ hd (split_on c t)) # tl (split_on c t)"
proof (induction s)
  case Nil
  then show ?case by (cases "split_on c t") (use split_on_nonempty in auto)
qed auto

lemma matches_step:
  assumes "CHR ''/'' \<notin> set a" "rest = [] \<or> \<not> is_digit (hd rest)" "CHR ''/'' \<notin> set rest \<or> hd rest \<noteq> CHR ''/''"
  shows "matches_cron_field (a @ ''/'' @ show_nat n @ rest) v =
     (0 < n \<and> (if a = ''*'' then v mod int n = 0
              else case parse_int a of None \<Rightarrow> False | Some start \<Rightarrow> start \<le> v \<and> (v - start) mod int n = 0))"
proof -
  let ?f = "a @ CHR ''/'' # show_nat n @ rest"
  have sp: "split_on (CHR ''/'') ?f
      = a # (show_nat n @ hd (split_on (CHR ''/'') rest)) # tl (split_on (CHR ''/'') rest)"
    using assms(1) by (simp add: split_on_append_sep split_on_append)
  have "hd (split_on (CHR ''/'') rest) = [] \<or> \<not> is_digit (hd (hd (split_on (CHR ''/'') rest)))"
    using assms(2) by (cases rest) (auto split: list.splits)
  then have p: "parse_int (show_nat n @ hd (split_on (CHR ''/'') rest)) = Some (int n)"
    by (rule parse_int_show_nat)
  have "?f \<noteq> ''*''" by (cases a) auto
  then have "matches_cron_field ?f v = (let parts = split_on (CHR ''/'') ?f
         in case parse_int (parts ! 1) of
              None \<Rightarrow> False
            | Some step \<Rightarrow>
                if step \<le> 0 then False
                else if parts ! 0 = ''*'' then v mod step = 0
                else (case parse_int (parts ! 0) of
                        None \<Rightarrow> False
                      | Some start \<Rightarrow> v \<ge> start \<and> (v - start) mod step = 0))"
    by (subst matches_cron_field.simps) simp
  then show ?thesis by (auto simp: sp p)
qed

text \<open>A step swallows what follows it: in a list that begins with a step the other items have no
  influence on what matches, and the upper bound of a range before a step has none either.\<close>

theorem cron_step_swallows:
  assumes "CHR ''/'' \<notin> set a"
  shows "matches_cron_field (a @ ''/'' @ show_nat n @ '','' @ rest) v = matches_cron_field (a @ ''/'' @ show_nat n) v
    \<and> matches_cron_field (show_nat lo @ ''-'' @ show_nat hi @ ''/'' @ show_nat n) v
        = (0 < n \<and> int lo \<le> v \<and> (v - int lo) mod int n = 0)"
proof
  have "\<not> is_digit CHR '',''" by (simp add: is_digit_def)
  then show "matches_cron_field (a @ ''/'' @ show_nat n @ '','' @ rest) v = matches_cron_field (a @ ''/'' @ show_nat n) v"
    using matches_step[OF assms, of "CHR '','' # rest" n v] matches_step[OF assms, of "[]" n v] by simp
  have "\<not> is_digit CHR ''-''" by (simp add: is_digit_def)
  then have "parse_int (show_nat lo @ CHR ''-'' # show_nat hi) = Some (int lo)" by (intro parse_int_show_nat) simp
  moreover have "show_nat lo @ CHR ''-'' # show_nat hi \<noteq> ''*''" by (cases "show_nat lo") auto
  ultimately show "matches_cron_field (show_nat lo @ ''-'' @ show_nat hi @ ''/'' @ show_nat n) v
        = (0 < n \<and> int lo \<le> v \<and> (v - int lo) mod int n = 0)"
    using matches_step[of "show_nat lo @ CHR ''-'' # show_nat hi" "[]" n v] by simp
qed

theorem cron_step_swallows_witness:
  "matches_cron_field (''*'' @ ''/'' @ show_nat 20 @ '','' @ ''7'') 7 = matches_cron_field (''*'' @ ''/'' @ show_nat 20) 7"
  using cron_step_swallows[of "''*''" 20 "''7''" 7] by simp

end
