(* ===== verification/Jobs_Scheduler.thy ===== *)
theory Jobs_Scheduler
  imports Jobs_Storage Jobs_Cron Hooks
begin

text \<open>
  \<open>JobScheduler\<close> and \<open>SagaCoordinator\<close> of \<open>packages/jobs/src/scheduler.ts\<close>. The storage is a record of
  operations; its calls take effect when they are issued and an \<open>acquireNext\<close> is in flight until its
  promise settles. The state counts the timers and immediates that will call \<open>tick\<close>, and logs the
  handler calls (\<open>sc_runs\<close>), which the source does not keep. \<open>randomUUID\<close>, the calendar of the local
  time zone and what handlers do are parameters; tracing is left out and event listeners do nothing.
\<close>

record 's storage_ops =
  st_save :: "job \<Rightarrow> 's \<Rightarrow> 's"
  st_acquire :: "int \<Rightarrow> string \<Rightarrow> int \<Rightarrow> 's \<Rightarrow> (string + job option) \<times> 's"
  st_complete :: "string \<Rightarrow> 's \<Rightarrow> 's"
  st_fail :: "int \<Rightarrow> string \<Rightarrow> string \<Rightarrow> int option \<Rightarrow> 's \<Rightarrow> 's"
  st_cron_lock :: "(int \<Rightarrow> string \<Rightarrow> int \<Rightarrow> 's \<Rightarrow> bool \<times> 's) option"

record scheduler_options =
  so_queue :: string
  so_max :: nat
  so_lock_ms :: int
  so_retry_ms :: int
  so_timeout_ms :: int
  so_dlq :: string

record cron_task =
  ck_pattern :: string
  ck_name :: string
  ck_payload :: jsval
  ck_last_run :: "int option"

record 's scheduler =
  sc_handlers :: "string list"
  sc_workers :: "(job \<times> bool) list"
  sc_pending :: "(string + job option) list"
  sc_running :: bool
  sc_timers :: nat
  sc_immediates :: nat
  sc_cron :: "cron_task list"
  sc_locks :: "(string, int) jsmap"
  sc_storage :: 's
  sc_next :: nat
  sc_runs :: "string list"

record 's sched_env =
  se_ops :: "'s storage_ops"
  se_opts :: scheduler_options
  se_uuid :: "nat \<Rightarrow> string"
  se_calendar :: "int \<Rightarrow> cron_time"

definition default_dlq :: "string option \<Rightarrow> string option \<Rightarrow> string" where
  "default_dlq dlq queue =
     (case dlq of Some d \<Rightarrow> d | None \<Rightarrow> (case queue of Some q \<Rightarrow> q | None \<Rightarrow> ''default'') @ '':dlq'')"

definition scheduler_new :: "int \<Rightarrow> int \<Rightarrow> 's \<Rightarrow> string + 's scheduler" where
  "scheduler_new max_concurrency poll_ms s =
     (if max_concurrency \<le> 0 then Inl ''[Axiomify Jobs] maxConcurrency must be greater than 0.''
      else if poll_ms \<le> 0 then Inl ''[Axiomify Jobs] pollIntervalMs must be greater than 0.''
      else Inr \<lparr> sc_handlers = [], sc_workers = [], sc_pending = [], sc_running = False, sc_timers = 0, sc_immediates = 0,
                 sc_cron = [], sc_locks = [], sc_storage = s, sc_next = 0, sc_runs = [] \<rparr>)"

definition sched_register :: "string \<Rightarrow> 's scheduler \<Rightarrow> 's scheduler" where
  "sched_register name st = st\<lparr>sc_handlers := set_add name (sc_handlers st)\<rparr>"

definition sched_schedule :: "string \<Rightarrow> string \<Rightarrow> jsval \<Rightarrow> 's scheduler \<Rightarrow> 's scheduler" where
  "sched_schedule pattern name payload st =
     st\<lparr>sc_cron := sc_cron st @ [\<lparr> ck_pattern = pattern, ck_name = name, ck_payload = payload, ck_last_run = None \<rparr>]\<rparr>"

subsection \<open>Enqueuing\<close>

record enqueue_options =
  eo_priority :: "int option"
  eo_delay :: "int option"
  eo_attempts :: "int option"

definition no_options :: enqueue_options where
  "no_options = \<lparr> eo_priority = None, eo_delay = None, eo_attempts = None \<rparr>"

definition default_to :: "'a \<Rightarrow> 'a option \<Rightarrow> 'a" where
  "default_to d x = (case x of Some v \<Rightarrow> v | None \<Rightarrow> d)"

definition new_job :: "'s sched_env \<Rightarrow> int \<Rightarrow> string \<Rightarrow> string \<Rightarrow> jsval \<Rightarrow> enqueue_options \<Rightarrow> job" where
  "new_job env now i name payload eo =
     \<lparr> jb_id = i, jb_queue = so_queue (se_opts env), jb_name = name, jb_payload = payload, jb_status = Pending,
       jb_priority = default_to 0 (eo_priority eo), jb_run_at = now + default_to 0 (eo_delay eo), jb_attempts = 0,
       jb_max_attempts = default_to 3 (eo_attempts eo), jb_error = None, jb_locked_at = None, jb_lock_expires = None \<rparr>"

definition sched_enqueue ::
    "'s sched_env \<Rightarrow> int \<Rightarrow> string \<Rightarrow> jsval \<Rightarrow> enqueue_options \<Rightarrow> 's scheduler \<Rightarrow> (string + string) \<times> 's scheduler" where
  "sched_enqueue env now name payload eo st =
     (if name = [] then (Inl ''[Axiomify Jobs] Job name must be a non-empty string.'', st)
      else
        let i = se_uuid env (sc_next st)
        in (Inr i, st\<lparr>sc_storage := st_save (se_ops env) (new_job env now i name payload eo) (sc_storage st),
                      sc_next := Suc (sc_next st)\<rparr>))"

subsection \<open>Cron schedules\<close>

definition acquire_local_cron_lock :: "int \<Rightarrow> string \<Rightarrow> int \<Rightarrow> 's scheduler \<Rightarrow> bool \<times> 's scheduler" where
  "acquire_local_cron_lock now pattern window st =
     (if now \<ge> default_to 0 (map_of (sc_locks st) pattern)
      then (True, st\<lparr>sc_locks := AList.update pattern (now + window) (sc_locks st)\<rparr>) else (False, st))"

definition try_acquire_cron_lock :: "'s sched_env \<Rightarrow> int \<Rightarrow> string \<Rightarrow> int \<Rightarrow> 's scheduler \<Rightarrow> bool \<times> 's scheduler" where
  "try_acquire_cron_lock env now pattern window st =
     (case st_cron_lock (se_ops env) of
        Some lock \<Rightarrow>
          (let (ok, s) = lock now (''axiomify:cron:lock:'' @ so_queue (se_opts env) @ '':'' @ pattern) window (sc_storage st)
           in (ok, st\<lparr>sc_storage := s\<rparr>))
      | None \<Rightarrow> acquire_local_cron_lock now pattern window st)"

text \<open>\<open>!task.lastRun\<close> holds of a time of zero too.\<close>

definition cron_due :: "(int \<Rightarrow> cron_time) \<Rightarrow> int \<Rightarrow> cron_task \<Rightarrow> bool" where
  "cron_due calendar now t =
     (let fresh = (ck_last_run t = None \<or> ck_last_run t = Some 0);
          last = default_to 0 (ck_last_run t);
          by_pattern = (matches_cron_expression (ck_pattern t) (calendar now) \<and> (fresh \<or> last < now - now mod 60000))
      in case parse_int (ck_pattern t) of
           Some secs \<Rightarrow> if show_int secs = trim (ck_pattern t) then fresh \<or> now - last \<ge> secs * 1000 else by_pattern
         | None \<Rightarrow> by_pattern)"

definition cron_lock_ms :: int where
  "cron_lock_ms = 5000"

text \<open>One task of the loop: the task afterwards, and whether \<open>enqueue\<close> threw, which ends the loop.\<close>

definition cron_fire :: "'s sched_env \<Rightarrow> int \<Rightarrow> cron_task \<Rightarrow> 's scheduler \<Rightarrow> (cron_task \<times> bool) \<times> 's scheduler" where
  "cron_fire env now t st =
     (if \<not> cron_due (se_calendar env) now t then ((t, False), st)
      else
        case try_acquire_cron_lock env now (ck_pattern t) cron_lock_ms st of
          (False, st1) \<Rightarrow> ((t, False), st1)
        | (True, st1) \<Rightarrow>
            (case sched_enqueue env now (ck_name t) (ck_payload t) no_options st1 of
               (res, st2) \<Rightarrow> ((t\<lparr>ck_last_run := Some now\<rparr>, (case res of Inl _ \<Rightarrow> True | Inr _ \<Rightarrow> False)), st2)))"

fun cron_loop :: "'s sched_env \<Rightarrow> int \<Rightarrow> cron_task list \<Rightarrow> 's scheduler \<Rightarrow> cron_task list \<times> 's scheduler" where
  "cron_loop env now [] st = ([], st)"
| "cron_loop env now (t # ts) st =
     (case cron_fire env now t st of
        ((t', stop), st1) \<Rightarrow>
          if stop then (t' # ts, st1)
          else (case cron_loop env now ts st1 of (ts', st2) \<Rightarrow> (t' # ts', st2)))"

definition check_cron :: "'s sched_env \<Rightarrow> int \<Rightarrow> 's scheduler \<Rightarrow> 's scheduler" where
  "check_cron env now st = (case cron_loop env now (sc_cron st) st of (ts, st') \<Rightarrow> st'\<lparr>sc_cron := ts\<rparr>)"

text \<open>What the cron check leaves alone.\<close>

definition same_slots :: "'s scheduler \<Rightarrow> 's scheduler \<Rightarrow> bool" where
  "same_slots st st' \<longleftrightarrow> sc_workers st' = sc_workers st \<and> sc_pending st' = sc_pending st \<and> sc_running st' = sc_running st
     \<and> sc_timers st' = sc_timers st \<and> sc_immediates st' = sc_immediates st \<and> sc_runs st' = sc_runs st
     \<and> sc_handlers st' = sc_handlers st"

lemma sched_enqueue_slots: "same_slots st (snd (sched_enqueue env now name payload eo st))"
  by (simp add: same_slots_def sched_enqueue_def Let_def)

lemma try_lock_slots: "same_slots st (snd (try_acquire_cron_lock env now p w st))"
  by (simp add: same_slots_def try_acquire_cron_lock_def acquire_local_cron_lock_def split: option.splits prod.splits)

lemma same_slots_trans: "same_slots a b \<Longrightarrow> same_slots b c \<Longrightarrow> same_slots a c"
  by (simp add: same_slots_def)

lemma cron_fire_slots: "same_slots st (snd (cron_fire env now t st))"
proof -
  obtain ok st1 where l: "try_acquire_cron_lock env now (ck_pattern t) cron_lock_ms st = (ok, st1)" by force
  obtain res st2 where e: "sched_enqueue env now (ck_name t) (ck_payload t) no_options st1 = (res, st2)" by force
  have "same_slots st st1" "same_slots st1 st2"
    using try_lock_slots[of st env now "ck_pattern t" cron_lock_ms]
      sched_enqueue_slots[of st1 env now "ck_name t" "ck_payload t" no_options] by (simp_all add: l e)
  then have "same_slots st st1" "same_slots st st2" using same_slots_trans by blast+
  moreover have "same_slots st st" by (simp add: same_slots_def)
  ultimately show ?thesis by (simp add: cron_fire_def l e split: bool.split)
qed

lemma cron_loop_slots: "same_slots st (snd (cron_loop env now ts st))"
proof (induction ts arbitrary: st)
  case (Cons t ts)
  obtain t' stop st1 where f: "cron_fire env now t st = ((t', stop), st1)" by (metis prod.exhaust)
  have "same_slots st st1" using cron_fire_slots[of st env now t] by (simp add: f)
  moreover have "same_slots st (snd (cron_loop env now ts st1))" by (rule same_slots_trans[OF calculation Cons.IH])
  ultimately show ?case by (cases "cron_loop env now ts st1") (simp add: f)
qed (simp add: same_slots_def)

lemma check_cron_slots: "same_slots st (check_cron env now st)"
  using cron_loop_slots[of st env now "sc_cron st"]
  by (cases "cron_loop env now (sc_cron st) st") (simp add: check_cron_def same_slots_def)

subsection \<open>The worker loop\<close>

function tick :: "'s sched_env \<Rightarrow> int \<Rightarrow> 's scheduler \<Rightarrow> 's scheduler" where
  "tick env now st =
     (if \<not> sc_running st then st
      else
        let st1 = check_cron env now st
        in if length (sc_workers st1) + length (sc_pending st1) \<ge> so_max (se_opts env) then
             (if sc_pending st1 = [] then st1\<lparr>sc_timers := Suc (sc_timers st1)\<rparr> else st1)
           else
             let (res, s) = st_acquire (se_ops env) now (so_queue (se_opts env)) (so_lock_ms (se_opts env)) (sc_storage st1)
             in tick env now (st1\<lparr>sc_pending := sc_pending st1 @ [res], sc_storage := s\<rparr>))"
  by pat_completeness auto
termination
proof (relation "measure (\<lambda>(env, now, st). so_max (se_opts env) - (length (sc_workers st) + length (sc_pending st)))", simp, goal_cases)
  case (1 env now st st1 p res s)
  then show ?case using check_cron_slots[of st env now] by (auto simp: same_slots_def)
qed

declare tick.simps [simp del]

text \<open>An \<open>acquireNext\<close> settles: with a job a worker starts, otherwise the next poll is scheduled.\<close>

definition settle :: "(string + job option) \<Rightarrow> 's scheduler \<Rightarrow> 's scheduler" where
  "settle res st =
     (case res of
        Inr (Some j) \<Rightarrow>
          let has = (jb_name j \<in> set (sc_handlers st))
          in st\<lparr>sc_workers := sc_workers st @ [(j, has)],
                sc_runs := (if has then sc_runs st @ [jb_id j] else sc_runs st)\<rparr>
      | _ \<Rightarrow> st\<lparr>sc_timers := Suc (sc_timers st)\<rparr>)"

definition handle_job_failure :: "'s sched_env \<Rightarrow> int \<Rightarrow> job \<Rightarrow> string \<Rightarrow> 's \<Rightarrow> 's" where
  "handle_job_failure env now j err s =
     (let next = jb_attempts j + 1
      in if next \<ge> jb_max_attempts j then
           (if so_dlq (se_opts env) \<noteq> [] then
              st_save (se_ops env) (j\<lparr>jb_attempts := next, jb_status := Failed, jb_error := Some err, jb_queue := so_dlq (se_opts env),
                                     jb_locked_at := None, jb_lock_expires := None\<rparr>) s
            else st_fail (se_ops env) now (jb_id j) err None s)
         else st_fail (se_ops env) now (jb_id j) err (Some (so_retry_ms (se_opts env))) s)"

text \<open>How a handler ends: it returns, it throws or rejects, or it is still not done after the time limit.\<close>

datatype job_outcome = HandlerOk | HandlerThrew string | HandlerTimedOut

definition run_with_timeout :: "'s sched_env \<Rightarrow> job \<Rightarrow> job_outcome \<Rightarrow> string option" where
  "run_with_timeout env j out =
     (case out of
        HandlerOk \<Rightarrow> None
      | HandlerThrew e \<Rightarrow> Some e
      | HandlerTimedOut \<Rightarrow> Some (''[Axiomify Jobs] Job \"'' @ jb_name j @ ''\" exceeded timeout of ''
          @ show_int (so_timeout_ms (se_opts env)) @ ''ms.''))"

definition execute_end :: "'s sched_env \<Rightarrow> int \<Rightarrow> job \<times> bool \<Rightarrow> job_outcome \<Rightarrow> 's \<Rightarrow> 's" where
  "execute_end env now w out s =
     (case w of (j, has) \<Rightarrow>
        if \<not> has then handle_job_failure env now j (''No handler registered for job \"'' @ jb_name j @ ''\"'') s
        else (case run_with_timeout env j out of None \<Rightarrow> st_complete (se_ops env) (jb_id j) s
                        | Some e \<Rightarrow> handle_job_failure env now j e s))"

text \<open>The steps of a scheduler: the calls of the application and the callbacks of the runtime. \<open>stop\<close>
  clears the timer set last, if it has not fired yet.\<close>

inductive sched_step :: "'s sched_env \<Rightarrow> 's scheduler \<Rightarrow> 's scheduler \<Rightarrow> bool" for env where
  step_start: "sched_step env st (if sc_running st then st else tick env now (st\<lparr>sc_running := True\<rparr>))"
| step_stop: "n \<le> 1 \<Longrightarrow> sched_step env st (st\<lparr>sc_running := False, sc_timers := sc_timers st - n\<rparr>)"
| step_timer: "0 < sc_timers st \<Longrightarrow> sched_step env st (tick env now (st\<lparr>sc_timers := sc_timers st - 1\<rparr>))"
| step_immediate: "0 < sc_immediates st \<Longrightarrow> sched_step env st (tick env now (st\<lparr>sc_immediates := sc_immediates st - 1\<rparr>))"
| step_settle: "sc_pending st = pre @ res # post \<Longrightarrow> sched_step env st (settle res (st\<lparr>sc_pending := pre @ post\<rparr>))"
| step_finish: "sc_workers st = pre @ w # post \<Longrightarrow>
     sched_step env st (st\<lparr>sc_workers := pre @ post, sc_storage := execute_end env now w out (sc_storage st),
                          sc_immediates := Suc (sc_immediates st)\<rparr>)"
| step_enqueue: "sched_step env st (snd (sched_enqueue env now name payload eo st))"
| step_register: "sched_step env st (sched_register name st)"
| step_schedule: "sched_step env st (sched_schedule pattern name payload st)"

inductive sched_reachable :: "'s sched_env \<Rightarrow> 's scheduler \<Rightarrow> 's scheduler \<Rightarrow> bool" for env st0 where
  reach_init: "sched_reachable env st0 st0"
| reach_step: "sched_reachable env st0 st \<Longrightarrow> sched_step env st st' \<Longrightarrow> sched_reachable env st0 st'"

inductive_cases sched_stepE: "sched_step env st st'"

subsection \<open>Sagas\<close>

text \<open>A step's \<open>run\<close> may throw; its result goes into the context under the step's name.\<close>

record saga_step =
  ss_name :: string
  ss_run :: "(string, jsval) jsmap \<Rightarrow> string + jsval"

definition saga_add_step :: "saga_step \<Rightarrow> saga_step list \<times> 's scheduler \<Rightarrow> saga_step list \<times> 's scheduler" where
  "saga_add_step step c = (case c of (steps, st) \<Rightarrow> (steps @ [step], sched_register (''compensate:'' @ ss_name step) st))"

text \<open>The compensations are enqueued from the last executed step back; one that cannot be is logged.\<close>

definition enqueue_compensation ::
    "'s sched_env \<Rightarrow> int \<Rightarrow> (string, jsval) jsmap \<Rightarrow> string \<times> jsval \<Rightarrow> 's scheduler \<Rightarrow> 's scheduler" where
  "enqueue_compensation env now ctx r st =
     snd (sched_enqueue env now (''compensate:'' @ fst r) (JObj [(''context'', JObj ctx), (''result'', snd r)]) no_options st)"

definition saga_compensate ::
    "'s sched_env \<Rightarrow> int \<Rightarrow> (string, jsval) jsmap \<Rightarrow> (string \<times> jsval) list \<Rightarrow> 's scheduler \<Rightarrow> 's scheduler" where
  "saga_compensate env now ctx executed st = fold (enqueue_compensation env now ctx) (rev executed) st"

fun saga_loop ::
    "'s sched_env \<Rightarrow> int \<Rightarrow> saga_step list \<Rightarrow> (string, jsval) jsmap \<Rightarrow> (string \<times> jsval) list \<Rightarrow> 's scheduler
       \<Rightarrow> (string option \<times> (string, jsval) jsmap) \<times> 's scheduler" where
  "saga_loop env now [] ctx executed st = ((None, ctx), st)"
| "saga_loop env now (p # ps) ctx executed st =
     (case ss_run p ctx of
        Inr v \<Rightarrow> saga_loop env now ps (AList.update (ss_name p) v ctx) (executed @ [(ss_name p, v)]) st
      | Inl err \<Rightarrow> ((Some err, ctx), saga_compensate env now ctx executed st))"

text \<open>\<open>execute\<close>: the error (\<open>None\<close> is success), the context and the scheduler.\<close>

definition saga_execute ::
    "'s sched_env \<Rightarrow> int \<Rightarrow> saga_step list \<Rightarrow> (string, jsval) jsmap \<Rightarrow> 's scheduler
       \<Rightarrow> (string option \<times> (string, jsval) jsmap) \<times> 's scheduler" where
  "saga_execute env now steps ctx st = saga_loop env now steps ctx [] st"

end
