(* ===== verification/Jobs_Props.thy ===== *)
theory Jobs_Props
  imports Jobs_Scheduler
begin

text \<open>
  What the scheduler guarantees: bounded concurrency without stalling (for any storage), and, over a
  storage that keeps the laws of \<open>job_storage\<close>, that a job is with at most one worker and its handler
  is called at most \<open>maxAttempts\<close> times; the order of a saga's compensations; the rate of a cron task.
\<close>

subsection \<open>Concurrency\<close>

definition slots_ok :: "'s sched_env \<Rightarrow> 's scheduler \<Rightarrow> bool" where
  "slots_ok env st \<longleftrightarrow> length (sc_workers st) + length (sc_pending st) \<le> so_max (se_opts env)"

definition not_stalled :: "'s scheduler \<Rightarrow> bool" where
  "not_stalled st \<longleftrightarrow> sc_running st \<longrightarrow> sc_workers st \<noteq> [] \<or> sc_pending st \<noteq> [] \<or> 0 < sc_timers st \<or> 0 < sc_immediates st"

lemma tick_slots:
  "slots_ok env st \<Longrightarrow> slots_ok env (tick env now st) \<and> (0 < so_max (se_opts env) \<longrightarrow> not_stalled (tick env now st))"
proof (induction env now st rule: tick.induct)
  case (1 env now st)
  let ?st1 = "check_cron env now st"
  have same: "same_slots st ?st1" by (rule check_cron_slots)
  show ?case
  proof (cases "sc_running st")
    case False
    then show ?thesis using 1(2) by (subst (1 2) tick.simps) (simp add: not_stalled_def)
  next
    case run: True
    show ?thesis
    proof (cases "length (sc_workers ?st1) + length (sc_pending ?st1) \<ge> so_max (se_opts env)")
      case True
      then have t: "tick env now st = (if sc_pending ?st1 = [] then ?st1\<lparr>sc_timers := Suc (sc_timers ?st1)\<rparr> else ?st1)"
        using run by (subst tick.simps) (simp add: Let_def)
      show ?thesis using 1(2) same unfolding t by (simp add: slots_ok_def not_stalled_def same_slots_def)
    next
      case False
      obtain res s where acq: "st_acquire (se_ops env) now (so_queue (se_opts env)) (so_lock_ms (se_opts env)) (sc_storage ?st1) = (res, s)"
        by force
      have t: "tick env now st = tick env now (?st1\<lparr>sc_pending := sc_pending ?st1 @ [res], sc_storage := s\<rparr>)"
        using run False by (subst tick.simps) (simp add: Let_def acq)
      have "slots_ok env (?st1\<lparr>sc_pending := sc_pending ?st1 @ [res], sc_storage := s\<rparr>)"
        using False by (simp add: slots_ok_def)
      then show ?thesis unfolding t using 1(1)[OF _ refl False refl acq[symmetric]] run by simp
    qed
  qed
qed

lemma settle_slots:
  assumes "slots_ok env st" "sc_pending st = pre @ res # post"
  shows "slots_ok env (settle res (st\<lparr>sc_pending := pre @ post\<rparr>)) \<and> not_stalled (settle res (st\<lparr>sc_pending := pre @ post\<rparr>))"
  using assms by (auto simp: slots_ok_def not_stalled_def settle_def Let_def split: sum.splits option.splits)

lemma step_slots:
  assumes "sched_step env st st'" "slots_ok env st" "not_stalled st" "0 < so_max (se_opts env)"
  shows "slots_ok env st' \<and> not_stalled st'"
  using assms(1)
proof (cases rule: sched_step.cases)
  case (step_start now)
  have "slots_ok env (st\<lparr>sc_running := True\<rparr>)" using assms(2) by (simp add: slots_ok_def)
  then show ?thesis using step_start tick_slots assms by (auto split: if_splits)
next
  case (step_stop n)
  then show ?thesis using assms(2) by (simp add: slots_ok_def not_stalled_def)
next
  case (step_timer now)
  have "slots_ok env (st\<lparr>sc_timers := sc_timers st - 1\<rparr>)" using assms(2) by (simp add: slots_ok_def)
  then show ?thesis using step_timer tick_slots assms(4) by blast
next
  case (step_immediate now)
  have "slots_ok env (st\<lparr>sc_immediates := sc_immediates st - 1\<rparr>)" using assms(2) by (simp add: slots_ok_def)
  then show ?thesis using step_immediate tick_slots assms(4) by blast
next
  case (step_settle pre res post)
  then show ?thesis using settle_slots[OF assms(2)] by blast
next
  case (step_finish pre w post now out)
  then show ?thesis using assms(2) by (simp add: slots_ok_def not_stalled_def)
next
  case (step_enqueue now name payload eo)
  then show ?thesis using assms(2,3) sched_enqueue_slots[of st env now name payload eo]
    by (simp add: slots_ok_def not_stalled_def same_slots_def)
next
  case (step_register name)
  then show ?thesis using assms(2,3) by (simp add: sched_register_def slots_ok_def not_stalled_def)
next
  case (step_schedule pattern name payload)
  then show ?thesis using assms(2,3) by (simp add: sched_schedule_def slots_ok_def not_stalled_def)
qed

lemma scheduler_new_slots:
  assumes "scheduler_new (int n) poll s = Inr st0"
  shows "0 < n \<and> sc_workers st0 = [] \<and> sc_pending st0 = [] \<and> \<not> sc_running st0 \<and> sc_runs st0 = [] \<and> sc_storage st0 = s \<and> sc_next st0 = 0"
  using assms by (auto simp: scheduler_new_def split: if_splits)

text \<open>C7. Whatever the storage answers, including errors, and in whatever order timers fire, storage calls
  settle and handlers end: the workers and the storage calls in flight together never exceed
  \<open>maxConcurrency\<close>, and a running scheduler never stalls, that is, a worker, a call in flight, a timer
  or an immediate that will look for work again is always left.\<close>

theorem scheduler_concurrency:
  assumes "scheduler_new (int (so_max (se_opts env))) poll s = Inr st0" "sched_reachable env st0 st"
  shows "length (sc_workers st) + length (sc_pending st) \<le> so_max (se_opts env)
    \<and> (sc_running st \<longrightarrow> sc_workers st \<noteq> [] \<or> sc_pending st \<noteq> [] \<or> 0 < sc_timers st \<or> 0 < sc_immediates st)"
proof -
  note new = scheduler_new_slots[OF assms(1)]
  have "slots_ok env st \<and> not_stalled st"
    using assms(2)
  proof (induction rule: sched_reachable.induct)
    case reach_init
    then show ?case using new by (simp add: slots_ok_def not_stalled_def)
  next
    case (reach_step st st')
    then show ?case using step_slots new by blast
  qed
  then show ?thesis by (simp add: slots_ok_def not_stalled_def)
qed

subsection \<open>Jobs and their workers\<close>

definition held_jobs :: "'s scheduler \<Rightarrow> job list" where
  "held_jobs st = map fst (sc_workers st) @ concat (map (\<lambda>r. case r of Inr (Some j) \<Rightarrow> [j] | _ \<Rightarrow> []) (sc_pending st))"

text \<open>The jobs whose handler is being called.\<close>

definition called :: "'s scheduler \<Rightarrow> string set" where
  "called st = {jb_id j |j. (j, True) \<in> set (sc_workers st)}"

definition runs_ok :: "string list \<Rightarrow> string set \<Rightarrow> string \<Rightarrow> job \<Rightarrow> bool" where
  "runs_ok runs cs i j \<longleftrightarrow>
     int (count_list runs i) \<le> jb_attempts j + (if i \<in> cs \<or> jb_status j = Completed then 1 else 0)
     \<and> (if jb_status j = Failed then jb_attempts j \<le> max 1 (jb_max_attempts j) else jb_attempts j < max 1 (jb_max_attempts j))"

definition owned :: "(string \<Rightarrow> job option) \<Rightarrow> job \<Rightarrow> bool" where
  "owned look j \<longleftrightarrow> (\<exists>j0. look (jb_id j) = Some j0 \<and> jb_status j0 = Running
     \<and> jb_attempts j0 = jb_attempts j \<and> jb_max_attempts j0 = jb_max_attempts j)"

definition jobs_ok :: "('s \<Rightarrow> string \<Rightarrow> job option) \<Rightarrow> 's sched_env \<Rightarrow> 's scheduler \<Rightarrow> bool" where
  "jobs_ok stored env st \<longleftrightarrow>
     distinct (map jb_id (held_jobs st)) \<and> (\<forall>j \<in> set (held_jobs st). owned (stored (sc_storage st)) j)
     \<and> (\<forall>i j. stored (sc_storage st) i = Some j \<longrightarrow> runs_ok (sc_runs st) (called st) i j)
     \<and> (\<forall>i. stored (sc_storage st) i \<noteq> None \<longrightarrow> (\<exists>n < sc_next st. i = se_uuid env n))
     \<and> (\<forall>i \<in> set (sc_runs st). stored (sc_storage st) i \<noteq> None)"

definition job_ops ::
    "(job \<Rightarrow> 's \<Rightarrow> 's) \<Rightarrow> (int \<Rightarrow> string \<Rightarrow> int \<Rightarrow> 's \<Rightarrow> job option \<times> 's) \<Rightarrow> (string \<Rightarrow> 's \<Rightarrow> 's)
       \<Rightarrow> (int \<Rightarrow> string \<Rightarrow> string \<Rightarrow> int option \<Rightarrow> 's \<Rightarrow> 's) \<Rightarrow> 's storage_ops" where
  "job_ops sv acq com fl = \<lparr> st_save = sv, st_acquire = (\<lambda>now q l s. case acq now q l s of (r, s') \<Rightarrow> (Inr r, s')),
     st_complete = com, st_fail = fl, st_cron_lock = None \<rparr>"

lemma count_notin: "i \<notin> set xs \<Longrightarrow> count_list xs i = 0"
  by (induction xs) auto

lemma held_called: "i \<in> called st \<Longrightarrow> i \<in> jb_id ` set (held_jobs st)"
  by (force simp: called_def held_jobs_def)

lemma runs_ok_cong: "(i \<in> cs \<longleftrightarrow> i \<in> cs') \<Longrightarrow> runs_ok runs cs i j = runs_ok runs cs' i j"
  by (simp add: runs_ok_def)

lemma distinct_middle:
  "distinct (map f (xs @ y # zs)) \<Longrightarrow> distinct (map f (xs @ zs))"
  "distinct (map f (xs @ y # zs)) \<Longrightarrow> f y \<notin> f ` set (xs @ zs)"
  by auto

context job_storage
begin

definition good :: "'s sched_env \<Rightarrow> 's scheduler \<Rightarrow> bool" where
  "good env st \<longleftrightarrow> inv (sc_storage st) \<and> jobs_ok stored env st"

text \<open>Only some fields matter.\<close>

lemma good_cong:
  "sc_storage st' = sc_storage st \<Longrightarrow> sc_workers st' = sc_workers st \<Longrightarrow> sc_pending st' = sc_pending st
   \<Longrightarrow> sc_runs st' = sc_runs st \<Longrightarrow> sc_next st' = sc_next st \<Longrightarrow> good env st' = good env st"
  by (simp add: good_def jobs_ok_def held_jobs_def called_def)

lemma good_enqueue:
  assumes g: "good env st" and ops: "se_ops env = job_ops save acquire complete fail" and inj: "inj (se_uuid env)"
  shows "good env (snd (sched_enqueue env now name payload eo st))"
proof (cases "name = []")
  case True
  then show ?thesis using g by (simp add: sched_enqueue_def)
next
  case False
  let ?i = "se_uuid env (sc_next st)" and ?s = "sc_storage st"
  let ?j = "new_job env now ?i name payload eo"
  let ?st' = "snd (sched_enqueue env now name payload eo st)"
  have ok: "inv ?s" "jobs_ok stored env st" using g by (simp_all add: good_def)
  have new: "stored ?s ?i = None"
  proof (rule ccontr)
    assume "stored ?s ?i \<noteq> None"
    then obtain n where "n < sc_next st" "?i = se_uuid env n" using ok(2) unfolding jobs_ok_def by blast
    with inj show False by (auto dest: injD)
  qed
  have st': "stored (sc_storage ?st') = (stored ?s)(?i \<mapsto> ?j)" "sc_next ?st' = Suc (sc_next st)"
    "sc_runs ?st' = sc_runs st" "held_jobs ?st' = held_jobs st" "called ?st' = called st"
    using False save_stored[OF ok(1), of ?j]
    by (simp_all add: sched_enqueue_def Let_def ops job_ops_def held_jobs_def called_def new_job_def)
  have "owned (stored (sc_storage ?st')) j" if "j \<in> set (held_jobs st)" for j
  proof -
    have o: "owned (stored ?s) j" using that ok(2) by (simp add: jobs_ok_def)
    then have "jb_id j \<noteq> ?i" using new by (auto simp: owned_def)
    then show ?thesis using o by (simp add: owned_def st')
  qed
  moreover have "runs_ok (sc_runs st) (called st) i j" if "((stored ?s)(?i \<mapsto> ?j)) i = Some j" for i j
  proof (cases "i = ?i")
    case True
    have "?i \<notin> set (sc_runs st)" using ok(2) new by (auto simp: jobs_ok_def)
    then show ?thesis using that True by (auto simp: runs_ok_def count_notin new_job_def)
  next
    case False
    then show ?thesis using that ok(2) by (simp add: jobs_ok_def)
  qed
  moreover have "\<exists>n < Suc (sc_next st). i = se_uuid env n" if "((stored ?s)(?i \<mapsto> ?j)) i \<noteq> None" for i
  proof (cases "i = ?i")
    case False
    then have "stored ?s i \<noteq> None" using that by simp
    then have "\<exists>n < sc_next st. i = se_uuid env n" using ok(2) unfolding jobs_ok_def by blast
    then show ?thesis using less_SucI by blast
  qed blast
  moreover have "inv (sc_storage ?st')" using False save_inv[OF ok(1)] by (simp add: sched_enqueue_def Let_def ops job_ops_def)
  moreover have "\<forall>i \<in> set (sc_runs st). ((stored ?s)(?i \<mapsto> ?j)) i \<noteq> None" "distinct (map jb_id (held_jobs st))"
    using ok(2) by (auto simp: jobs_ok_def)
  ultimately show ?thesis unfolding good_def jobs_ok_def st' by blast
qed

lemma good_cron_fire:
  assumes g: "good env st" and ops: "se_ops env = job_ops save acquire complete fail" and inj: "inj (se_uuid env)"
  shows "good env (snd (cron_fire env now t st))"
proof -
  obtain ok st1 where l: "try_acquire_cron_lock env now (ck_pattern t) cron_lock_ms st = (ok, st1)" by force
  have "good env st1 = good env st"
    using l by (intro good_cong) (auto simp: try_acquire_cron_lock_def ops job_ops_def acquire_local_cron_lock_def split: if_splits)
  then show ?thesis using g good_enqueue[OF _ ops inj, of st1 now "ck_name t" "ck_payload t" no_options]
    by (auto simp: cron_fire_def l split: bool.splits prod.splits)
qed

lemma good_check_cron:
  assumes "good env st" "se_ops env = job_ops save acquire complete fail" "inj (se_uuid env)"
  shows "good env (check_cron env now st)"
proof -
  have loop: "good env (snd (cron_loop env now ts st))" if "good env st" for ts st
    using that
  proof (induction ts arbitrary: st)
    case (Cons t ts)
    obtain t' stop st1 where f: "cron_fire env now t st = ((t', stop), st1)" by (metis prod.exhaust)
    have "good env st1" using good_cron_fire[OF Cons.prems assms(2,3), of now t] by (simp add: f)
    then show ?case using Cons.IH[of st1] by (cases "cron_loop env now ts st1") (simp add: f)
  qed simp
  obtain ts st1 where c: "cron_loop env now (sc_cron st) st = (ts, st1)" by force
  have "good env (check_cron env now st) = good env st1" by (intro good_cong) (simp_all add: check_cron_def c)
  then show ?thesis using loop[OF assms(1), of "sc_cron st"] by (simp add: c)
qed

lemma good_acquire:
  assumes g: "good env st" and acq: "acquire now q l (sc_storage st) = (r, s')"
  shows "good env (st\<lparr>sc_pending := sc_pending st @ [Inr r], sc_storage := s'\<rparr>)"
proof -
  let ?s = "sc_storage st" and ?st' = "st\<lparr>sc_pending := sc_pending st @ [Inr r], sc_storage := s'\<rparr>"
  have ok: "inv ?s" "jobs_ok stored env st" using g by (simp_all add: good_def)
  have i': "inv s'" using acquire_inv[OF ok(1), of now q l] by (simp add: acq)
  show ?thesis
  proof (cases r)
    case None
    have "held_jobs ?st' = held_jobs st" "called ?st' = called st" by (simp_all add: held_jobs_def called_def None)
    moreover have "stored s' = stored ?s" using acquire_none[OF ok(1)] acq None by blast
    ultimately show ?thesis using ok(2) i' by (simp add: good_def jobs_ok_def)
  next
    case (Some j)
    obtain j0 where j0: "stored ?s (jb_id j) = Some j0" "jb_status j0 = Pending" "jb_status j = Running"
      "jb_attempts j = jb_attempts j0" "jb_max_attempts j = jb_max_attempts j0" "stored s' = (stored ?s)(jb_id j \<mapsto> j)"
      using acquire_some[OF ok(1) acq[unfolded Some]] by blast
    have held: "held_jobs ?st' = held_jobs st @ [j]" and called: "called ?st' = called st"
      by (simp_all add: held_jobs_def called_def Some)
    have own: "\<forall>x \<in> set (held_jobs st). owned (stored ?s) x" using ok(2) by (simp add: jobs_ok_def)
    have free: "jb_id j \<notin> jb_id ` set (held_jobs st)"
    proof
      assume "jb_id j \<in> jb_id ` set (held_jobs st)"
      then obtain x where "x \<in> set (held_jobs st)" "jb_id x = jb_id j" by auto
      then show False using own j0(1,2) by (auto simp: owned_def)
    qed
    then have nc: "jb_id j \<notin> called st" using held_called by blast
    have "\<forall>x \<in> set (held_jobs st @ [j]). owned ((stored ?s)(jb_id j \<mapsto> j)) x"
    proof
      fix x assume x: "x \<in> set (held_jobs st @ [j])"
      show "owned ((stored ?s)(jb_id j \<mapsto> j)) x"
      proof (cases "x = j")
        case True
        then show ?thesis using j0(3) by (simp add: owned_def)
      next
        case False
        then have xin: "x \<in> set (held_jobs st)" using x by simp
        then have "jb_id x \<noteq> jb_id j" using free by (metis image_eqI)
        with xin show ?thesis using own by (simp add: owned_def)
      qed
    qed
    moreover have "runs_ok (sc_runs st) (called st) i x" if "((stored ?s)(jb_id j \<mapsto> j)) i = Some x" for i x
    proof (cases "i = jb_id j")
      case True
      have "runs_ok (sc_runs st) (called st) (jb_id j) j0" using ok(2) j0(1) by (simp add: jobs_ok_def)
      then show ?thesis using True that j0(2-5) nc by (simp add: runs_ok_def)
    next
      case False
      then show ?thesis using that ok(2) by (simp add: jobs_ok_def)
    qed
    moreover have "\<exists>n < sc_next st. i = se_uuid env n" if "((stored ?s)(jb_id j \<mapsto> j)) i \<noteq> None" for i
    proof -
      have "stored ?s i \<noteq> None" using that j0(1) by (cases "i = jb_id j") simp_all
      then show ?thesis using ok(2) unfolding jobs_ok_def by blast
    qed
    moreover have "distinct (map jb_id (held_jobs st @ [j]))" using ok(2) free by (simp add: jobs_ok_def)
    moreover have "\<forall>i \<in> set (sc_runs st). ((stored ?s)(jb_id j \<mapsto> j)) i \<noteq> None" using ok(2) by (simp add: jobs_ok_def)
    ultimately show ?thesis using i' unfolding good_def jobs_ok_def held called by (simp add: j0(6))
  qed
qed

lemma good_tick:
  assumes "good env st" "se_ops env = job_ops save acquire complete fail" "inj (se_uuid env)"
  shows "good env (tick env now st)"
  using assms
proof (induction env now st rule: tick.induct)
  case (1 env now st)
  let ?st1 = "check_cron env now st"
  have g1: "good env ?st1" by (rule good_check_cron[OF 1(2-4)])
  show ?case
  proof (cases "sc_running st")
    case False
    then show ?thesis using 1(2) by (subst tick.simps) simp
  next
    case run: True
    show ?thesis
    proof (cases "length (sc_workers ?st1) + length (sc_pending ?st1) \<ge> so_max (se_opts env)")
      case True
      have "good env (?st1\<lparr>sc_timers := Suc (sc_timers ?st1)\<rparr>) = good env ?st1" by (rule good_cong) simp_all
      then show ?thesis using True run g1 by (subst tick.simps) (simp add: Let_def)
    next
      case False
      obtain r s where a: "acquire now (so_queue (se_opts env)) (so_lock_ms (se_opts env)) (sc_storage ?st1) = (r, s)" by force
      then have acq: "st_acquire (se_ops env) now (so_queue (se_opts env)) (so_lock_ms (se_opts env)) (sc_storage ?st1) = (Inr r, s)"
        by (simp add: 1(3) job_ops_def)
      have t: "tick env now st = tick env now (?st1\<lparr>sc_pending := sc_pending ?st1 @ [Inr r], sc_storage := s\<rparr>)"
        using run False by (subst tick.simps) (simp add: Let_def acq)
      show ?thesis unfolding t
        by (rule 1(1)[OF _ refl False refl acq[symmetric] good_acquire[OF g1 a] 1(3,4)]) (simp add: run)
    qed
  qed
qed

lemma good_settle:
  assumes g: "good env st" and p: "sc_pending st = pre @ res # post"
  shows "good env (settle res (st\<lparr>sc_pending := pre @ post\<rparr>))"
proof (cases "\<exists>j. res = Inr (Some j)")
  case False
  then have s: "settle res (st\<lparr>sc_pending := pre @ post\<rparr>) = st\<lparr>sc_pending := pre @ post, sc_timers := Suc (sc_timers st)\<rparr>"
    by (auto simp: settle_def split: sum.splits option.splits)
  have "(case res of Inl _ \<Rightarrow> [] | Inr (Some j) \<Rightarrow> [j] | _ \<Rightarrow> []) = []" using False by (auto split: sum.splits option.splits)
  then have "held_jobs (st\<lparr>sc_pending := pre @ post, sc_timers := Suc (sc_timers st)\<rparr>) = held_jobs st"
    by (auto simp: held_jobs_def p split: sum.splits option.splits)
  then show ?thesis using g unfolding s by (simp add: good_def jobs_ok_def called_def)
next
  case True
  then obtain j where res: "res = Inr (Some j)" by blast
  let ?st' = "settle res (st\<lparr>sc_pending := pre @ post\<rparr>)" and ?s = "sc_storage st" and ?i = "jb_id j"
  define has where "has = (jb_name j \<in> set (sc_handlers st))"
  let ?f = "\<lambda>r. case r of Inr (Some j) \<Rightarrow> [j] | _ \<Rightarrow> []"
  have ok: "inv ?s" "jobs_ok stored env st" using g by (simp_all add: good_def)
  have held: "held_jobs st = map fst (sc_workers st) @ concat (map ?f pre) @ j # concat (map ?f post)"
    "held_jobs ?st' = map fst (sc_workers st) @ j # concat (map ?f pre) @ concat (map ?f post)"
    by (simp_all add: held_jobs_def p res settle_def Let_def)
  have st': "sc_storage ?st' = ?s" "sc_next ?st' = sc_next st"
    "sc_runs ?st' = (if has then sc_runs st @ [?i] else sc_runs st)" "called ?st' = (if has then insert ?i (called st) else called st)"
    by (auto simp: settle_def res Let_def has_def called_def)
  have same: "set (held_jobs ?st') = set (held_jobs st)" "distinct (map jb_id (held_jobs ?st')) = distinct (map jb_id (held_jobs st))"
    unfolding held by auto
  have nc: "?i \<notin> called st"
  proof
    assume "?i \<in> called st"
    then have "?i \<in> jb_id ` set (map fst (sc_workers st))" by (force simp: called_def)
    moreover have "distinct (map jb_id (held_jobs st))" using ok(2) by (simp add: jobs_ok_def)
    ultimately show False unfolding held(1) by auto
  qed
  have "j \<in> set (held_jobs st)" by (simp add: held)
  then obtain j0 where j0: "stored ?s ?i = Some j0" "jb_status j0 = Running" using ok(2) by (auto simp: jobs_ok_def owned_def)
  have "runs_ok (sc_runs ?st') (called ?st') i x" if "stored ?s i = Some x" for i x
  proof -
    have "runs_ok (sc_runs st) (called st) i x" using ok(2) that by (simp add: jobs_ok_def)
    then show ?thesis using nc j0 that by (cases has; cases "i = ?i") (simp_all add: runs_ok_def st' count_list_append)
  qed
  moreover have "\<forall>i \<in> set (sc_runs ?st'). stored ?s i \<noteq> None" using ok(2) j0(1) by (simp add: jobs_ok_def st')
  ultimately show ?thesis using ok unfolding good_def jobs_ok_def same st'(1,2) by blast
qed

lemma execute_end_stored:
  assumes ops: "se_ops env = job_ops save acquire complete fail" and i: "inv s"
    and j0: "stored s (jb_id j) = Some j0" "jb_status j0 = Running" "jb_attempts j0 = jb_attempts j" "jb_max_attempts j0 = jb_max_attempts j"
  shows "inv (execute_end env now (j, has) out s) \<and> (\<exists>j1. stored (execute_end env now (j, has) out s) = (stored s)(jb_id j \<mapsto> j1)
    \<and> jb_max_attempts j1 = jb_max_attempts j0
    \<and> ((has \<and> jb_status j1 = Completed \<and> jb_attempts j1 = jb_attempts j0)
       \<or> (jb_attempts j1 = jb_attempts j0 + 1 \<and> (jb_status j1 = Failed \<or> jb_status j1 = Pending \<and> jb_attempts j1 < jb_max_attempts j1))))"
proof -
  have failure: "inv (handle_job_failure env now j e s) \<and> (\<exists>j1. stored (handle_job_failure env now j e s) = (stored s)(jb_id j \<mapsto> j1)
    \<and> jb_max_attempts j1 = jb_max_attempts j0 \<and> jb_attempts j1 = jb_attempts j0 + 1
    \<and> (jb_status j1 = Failed \<or> jb_status j1 = Pending \<and> jb_attempts j1 < jb_max_attempts j1))" for e
  proof -
    have f: "\<exists>j1. stored (fail now (jb_id j) e r s) = (stored s)(jb_id j \<mapsto> j1)
      \<and> jb_max_attempts j1 = jb_max_attempts j0 \<and> jb_attempts j1 = jb_attempts j0 + 1
      \<and> (jb_status j1 = Failed \<or> jb_status j1 = Pending \<and> jb_attempts j1 < jb_max_attempts j1)" for r
      by (intro exI[of _ "failed_job now e r j0"]) (simp add: fail_stored[OF i] j0(1) failed_job_def Let_def split: option.split)
    show ?thesis using f fail_inv[OF i] save_inv[OF i] j0(3,4)
      by (auto simp: handle_job_failure_def Let_def ops job_ops_def save_stored[OF i])
  qed
  have compl: "inv (complete (jb_id j) s) \<and> stored (complete (jb_id j) s) = (stored s)(jb_id j \<mapsto> j0\<lparr>jb_status := Completed\<rparr>)"
    by (simp add: complete_inv[OF i] complete_stored[OF i] j0(1))
  show ?thesis
  proof (cases "has \<and> run_with_timeout env j out = None")
    case True
    then have e: "execute_end env now (j, has) out s = complete (jb_id j) s" by (simp add: execute_end_def ops job_ops_def)
    show ?thesis using compl True unfolding e by (intro conjI exI[of _ "j0\<lparr>jb_status := Completed\<rparr>"]) auto
  next
    case False
    then obtain e where "execute_end env now (j, has) out s = handle_job_failure env now j e s"
      by (cases has) (auto simp: execute_end_def)
    then show ?thesis using failure[of e] by metis
  qed
qed

lemma good_finish:
  assumes g: "good env st" and ops: "se_ops env = job_ops save acquire complete fail" and w: "sc_workers st = pre @ (j, has) # post"
  shows "good env (st\<lparr>sc_workers := pre @ post, sc_storage := execute_end env now (j, has) out (sc_storage st),
                      sc_immediates := Suc (sc_immediates st)\<rparr>)" (is "good env ?st'")
proof -
  let ?s = "sc_storage st" and ?i = "jb_id j"
  have ok: "inv ?s" "jobs_ok stored env st" using g by (simp_all add: good_def)
  define tl' where "tl' = map fst post @ concat (map (\<lambda>r. case r of Inr (Some j) \<Rightarrow> [j] | _ \<Rightarrow> []) (sc_pending st))"
  let ?rest = "map fst pre @ tl'"
  have held: "held_jobs ?st' = ?rest" by (simp add: held_jobs_def tl'_def)
  have held0: "held_jobs st = map fst pre @ j # tl'" by (simp add: held_jobs_def w tl'_def)
  have m: "set (held_jobs st) = insert j (set ?rest)" unfolding held0 by auto
  have "distinct (map jb_id (map fst pre @ j # tl'))" using ok(2) by (simp add: jobs_ok_def held0)
  note dist = distinct_middle[OF this]
  have "owned (stored ?s) j" using ok(2) m by (simp add: jobs_ok_def)
  then obtain j0 where j0: "stored ?s ?i = Some j0" "jb_status j0 = Running" "jb_attempts j0 = jb_attempts j"
    "jb_max_attempts j0 = jb_max_attempts j" unfolding owned_def by blast
  from execute_end_stored[OF ops ok(1) j0, of now has out] obtain j1 where
    e: "inv (execute_end env now (j, has) out ?s)" "stored (execute_end env now (j, has) out ?s) = (stored ?s)(?i \<mapsto> j1)"
    "jb_max_attempts j1 = jb_max_attempts j0"
    "(has \<and> jb_status j1 = Completed \<and> jb_attempts j1 = jb_attempts j0)
       \<or> (jb_attempts j1 = jb_attempts j0 + 1 \<and> (jb_status j1 = Failed \<or> jb_status j1 = Pending \<and> jb_attempts j1 < jb_max_attempts j1))"
    by blast
  have called: "called st = called ?st' \<union> (if has then {?i} else {})" by (auto simp: called_def w)
  have "runs_ok (sc_runs st) (called ?st') i x" if "((stored ?s)(?i \<mapsto> j1)) i = Some x" for i x
  proof (cases "i = ?i")
    case True
    have "runs_ok (sc_runs st) (called st) ?i j0" using ok(2) j0(1) by (simp add: jobs_ok_def)
    then have "int (count_list (sc_runs st) ?i) \<le> jb_attempts j0 + 1" "jb_attempts j0 < max 1 (jb_max_attempts j0)"
      by (auto simp: runs_ok_def j0(2) split: if_splits)
    moreover have "x = j1" using True that by simp
    ultimately show ?thesis using True e(3,4) by (elim disjE conjE) (simp_all add: runs_ok_def)
  next
    case False
    then have "runs_ok (sc_runs st) (called st) i x" using that ok(2) by (simp add: jobs_ok_def)
    moreover have "i \<in> called st \<longleftrightarrow> i \<in> called ?st'" using False unfolding called by simp
    ultimately show ?thesis by (metis runs_ok_cong)
  qed
  moreover have "\<forall>x \<in> set ?rest. owned ((stored ?s)(?i \<mapsto> j1)) x"
  proof
    fix x assume x: "x \<in> set ?rest"
    then have "jb_id x \<noteq> ?i" using dist(2) by (metis image_eqI)
    moreover have "owned (stored ?s) x" using ok(2) m x by (simp add: jobs_ok_def)
    ultimately show "owned ((stored ?s)(?i \<mapsto> j1)) x" by (simp add: owned_def)
  qed
  moreover have "\<exists>n < sc_next st. i = se_uuid env n" if "((stored ?s)(?i \<mapsto> j1)) i \<noteq> None" for i
  proof -
    have "stored ?s i \<noteq> None" using that j0(1) by (cases "i = ?i") simp_all
    then show ?thesis using ok(2) unfolding jobs_ok_def by blast
  qed
  moreover have "\<forall>i \<in> set (sc_runs st). ((stored ?s)(?i \<mapsto> j1)) i \<noteq> None" using ok(2) by (simp add: jobs_ok_def)
  ultimately show ?thesis using e(1) dist(1) unfolding good_def jobs_ok_def held by (simp add: e(2))
qed

lemma good_step:
  assumes "sched_step env st st'" "good env st" "se_ops env = job_ops save acquire complete fail" "inj (se_uuid env)"
  shows "good env st'"
  using assms(1)
proof (cases rule: sched_step.cases)
  case (step_start now)
  have "good env (st\<lparr>sc_running := True\<rparr>) = good env st" by (rule good_cong) simp_all
  then show ?thesis using step_start good_tick[OF _ assms(3,4)] assms(2) by simp
next
  case (step_stop n)
  have "good env st' = good env st" by (rule good_cong) (simp_all add: step_stop)
  then show ?thesis using assms(2) by simp
next
  case (step_timer now)
  have "good env (st\<lparr>sc_timers := sc_timers st - 1\<rparr>) = good env st" by (rule good_cong) simp_all
  then show ?thesis using step_timer good_tick[OF _ assms(3,4)] assms(2) by simp
next
  case (step_immediate now)
  have "good env (st\<lparr>sc_immediates := sc_immediates st - 1\<rparr>) = good env st" by (rule good_cong) simp_all
  then show ?thesis using step_immediate good_tick[OF _ assms(3,4)] assms(2) by simp
next
  case (step_settle pre res post)
  then show ?thesis using good_settle[OF assms(2)] by blast
next
  case (step_finish pre w post now out)
  then show ?thesis using good_finish[OF assms(2,3)] by (cases w) blast
next
  case (step_enqueue now name payload eo)
  then show ?thesis using good_enqueue[OF assms(2-4)] by blast
next
  case (step_register name)
  have "good env st' = good env st" by (rule good_cong) (simp_all add: step_register sched_register_def)
  then show ?thesis using assms(2) by simp
next
  case (step_schedule pattern name payload)
  have "good env st' = good env st" by (rule good_cong) (simp_all add: step_schedule sched_schedule_def)
  then show ?thesis using assms(2) by simp
qed

lemma reachable_good:
  assumes "sched_reachable env st0 st" "se_ops env = job_ops save acquire complete fail" "inj (se_uuid env)"
    and "scheduler_new n poll s = Inr st0" "inv s" "stored s = (\<lambda>_. None)"
  shows "good env st"
  using assms(1)
proof (induction rule: sched_reachable.induct)
  case reach_init
  show ?case using assms(4-6)
    by (auto simp: good_def jobs_ok_def held_jobs_def scheduler_new_def split: if_splits)
next
  case (reach_step st st')
  then show ?case using good_step assms(2,3) by blast
qed

end

subsection \<open>Over the memory storage\<close>

text \<open>C8. A job is with one worker at most. Over the memory storage, with identifiers that do not repeat, in every
  reachable state of a scheduler the jobs being executed and those in flight to a worker are
  pairwise different, and each of them is stored as running, with the attempts its worker knows.\<close>

theorem scheduler_exclusive:
  assumes "se_ops env = job_ops mj_save mj_acquire mj_complete mj_fail" "inj (se_uuid env)"
    and "scheduler_new n poll [] = Inr st0" "sched_reachable env st0 st"
  shows "distinct (map jb_id (held_jobs st))
    \<and> (\<forall>j \<in> set (held_jobs st). \<exists>j0. map_of (sc_storage st) (jb_id j) = Some j0 \<and> jb_status j0 = Running
          \<and> jb_attempts j0 = jb_attempts j \<and> jb_max_attempts j0 = jb_max_attempts j)"
proof -
  have "mj_inv []" "map_of [] = (\<lambda>_. None)" by (simp_all add: mj_inv_def fun_eq_iff)
  from mj.reachable_good[OF assms(4,1,2,3) this] show ?thesis by (simp add: mj.good_def jobs_ok_def owned_def)
qed

text \<open>C6. The number of attempts is bounded. Over the memory storage, whatever fails, times out or is retried,
  the handler of a job has been called at most \<open>maxAttempts\<close> times (and once at most if that is not
  positive); the attempts counted never exceed that number, and a job that may still run has fewer.\<close>

theorem scheduler_attempts:
  assumes "se_ops env = job_ops mj_save mj_acquire mj_complete mj_fail" "inj (se_uuid env)"
    and "scheduler_new n poll [] = Inr st0" "sched_reachable env st0 st"
    and "map_of (sc_storage st) i = Some j"
  shows "int (count_list (sc_runs st) i) \<le> max 1 (jb_max_attempts j) \<and> jb_attempts j \<le> max 1 (jb_max_attempts j)
    \<and> (jb_status j \<noteq> Failed \<longrightarrow> jb_attempts j < max 1 (jb_max_attempts j))"
proof -
  have "mj_inv []" "map_of [] = (\<lambda>_. None)" by (simp_all add: mj_inv_def fun_eq_iff)
  note g = mj.reachable_good[OF assms(4,1,2,3) this]
  have r: "runs_ok (sc_runs st) (called st) i j" using g assms(5) unfolding mj.good_def jobs_ok_def by blast
  have "jb_status j = Running" if c: "i \<in> called st"
  proof -
    obtain x where "x \<in> set (held_jobs st)" "i = jb_id x" using held_called[OF c] by auto
    then have "owned (map_of (sc_storage st)) x" "i = jb_id x" using g by (auto simp: mj.good_def jobs_ok_def)
    then show ?thesis using assms(5) unfolding owned_def by force
  qed
  then show ?thesis using r by (auto simp: runs_ok_def split: if_splits)
qed

text \<open>A concrete scheduler with one slot: a job is enqueued, the loop started, and the job is with a worker.\<close>

definition demo_env :: "job_map sched_env" where
  "demo_env = \<lparr> se_ops = job_ops mj_save mj_acquire mj_complete mj_fail,
     se_opts = \<lparr> so_queue = ''q'', so_max = 1, so_lock_ms = 30000, so_retry_ms = 5000, so_timeout_ms = 30000, so_dlq = ''q:dlq'' \<rparr>,
     se_uuid = (\<lambda>n. replicate n CHR ''i''),
     se_calendar = (\<lambda>now. \<lparr> ct_minute = 0, ct_hour = 0, ct_dom = 1, ct_month = 1, ct_dow = 4 \<rparr>) \<rparr>"

definition demo_idle :: "job_map scheduler" where
  "demo_idle = \<lparr> sc_handlers = [], sc_workers = [], sc_pending = [], sc_running = False, sc_timers = 0, sc_immediates = 0,
     sc_cron = [], sc_locks = [], sc_storage = [], sc_next = 0, sc_runs = [] \<rparr>"

definition demo_ready :: "job_map scheduler" where
  "demo_ready = snd (sched_enqueue demo_env 5 ''mail'' JUndef no_options (sched_register ''mail'' demo_idle))"

definition demo_started :: "job_map scheduler" where
  "demo_started = tick demo_env 10 (demo_ready\<lparr>sc_running := True\<rparr>)"

definition demo_working :: "job_map scheduler" where
  "demo_working = settle (hd (sc_pending demo_started)) (demo_started\<lparr>sc_pending := [] @ tl (sc_pending demo_started)\<rparr>)"

lemma demo_env_facts: "se_ops demo_env = job_ops mj_save mj_acquire mj_complete mj_fail" "inj (se_uuid demo_env)"
  "scheduler_new (int (so_max (se_opts demo_env))) 100 [] = Inr demo_idle"
  by (simp_all add: demo_env_def demo_idle_def scheduler_new_def inj_def)

lemma demo_working_facts: "sc_running demo_ready = False" "length (sc_pending demo_started) = 1"
  "map_of (sc_storage demo_working) [] = Some ((fst (hd (sc_workers demo_working))))" "count_list (sc_runs demo_working) [] = 1"
  "length (sc_workers demo_working) = 1" "jb_max_attempts (fst (hd (sc_workers demo_working))) = 3"
  by code_simp+

lemma demo_reachable: "sched_reachable demo_env demo_idle demo_working"
proof -
  have "sched_step demo_env demo_idle (sched_register ''mail'' demo_idle)" by (rule step_register)
  moreover have "sched_step demo_env (sched_register ''mail'' demo_idle) demo_ready"
    unfolding demo_ready_def by (rule step_enqueue)
  moreover have "sched_step demo_env demo_ready demo_started"
    using step_start[of demo_env demo_ready 10] by (simp add: demo_working_facts(1) demo_started_def)
  moreover have "sc_pending demo_started = [] @ hd (sc_pending demo_started) # tl (sc_pending demo_started)"
    using demo_working_facts(2) by (cases "sc_pending demo_started") auto
  then have "sched_step demo_env demo_started demo_working" unfolding demo_working_def by (rule step_settle)
  ultimately show ?thesis using reach_init reach_step by metis
qed

theorem scheduler_concurrency_witness:
  "length (sc_workers demo_working) + length (sc_pending demo_working) \<le> 1"
  using scheduler_concurrency[OF demo_env_facts(3) demo_reachable] by (simp add: demo_env_def)

theorem scheduler_exclusive_witness:
  "distinct (map jb_id (held_jobs demo_working)) \<and> length (sc_workers demo_working) = 1"
  using scheduler_exclusive[OF demo_env_facts demo_reachable] demo_working_facts(5) by simp

theorem scheduler_attempts_witness:
  "int (count_list (sc_runs demo_working) []) \<le> 3 \<and> count_list (sc_runs demo_working) [] = 1"
  using scheduler_attempts[OF demo_env_facts demo_reachable demo_working_facts(3)] demo_working_facts(4,6) by simp

subsection \<open>Sagas\<close>

definition saga_context :: "(string \<times> jsval) list \<Rightarrow> (string, jsval) jsmap \<Rightarrow> (string, jsval) jsmap" where
  "saga_context rs ctx = fold (\<lambda>(n, v). AList.update n v) rs ctx"

text \<open>\<open>rs\<close> are the results of running the steps in order, each in the context the earlier ones left.\<close>

fun saga_results :: "saga_step list \<Rightarrow> (string, jsval) jsmap \<Rightarrow> (string \<times> jsval) list \<Rightarrow> bool" where
  "saga_results [] ctx rs = (rs = [])"
| "saga_results (p # ps) ctx rs =
     (case rs of [] \<Rightarrow> False
      | (n, v) # rs' \<Rightarrow> n = ss_name p \<and> ss_run p ctx = Inr v \<and> saga_results ps (AList.update n v ctx) rs')"

lemma saga_loop_prefix:
  "saga_results ps ctx rs \<Longrightarrow> saga_loop env now (ps @ qs) ctx ex st = saga_loop env now qs (saga_context rs ctx) (ex @ rs) st"
proof (induction ps ctx rs arbitrary: ex rule: saga_results.induct)
  case (2 p ps ctx rs)
  then show ?case by (cases rs) (auto simp: saga_context_def)
qed (simp add: saga_context_def)

text \<open>The job of the \<open>k\<close>-th compensation.\<close>

definition compensation :: "'s sched_env \<Rightarrow> int \<Rightarrow> (string, jsval) jsmap \<Rightarrow> nat \<Rightarrow> string \<times> jsval \<Rightarrow> string \<times> job" where
  "compensation env now ctx k r = (se_uuid env k, new_job env now (se_uuid env k) (''compensate:'' @ fst r)
     (JObj [(''context'', JObj ctx), (''result'', snd r)]) no_options)"

lemma enqueue_compensation_new:
  assumes "se_ops env = job_ops mj_save mj_acquire mj_complete mj_fail" "se_uuid env (sc_next st) \<notin> set (keys (sc_storage st))"
  shows "sc_storage (enqueue_compensation env now ctx r st) = sc_storage st @ [compensation env now ctx (sc_next st) r]"
    and "sc_next (enqueue_compensation env now ctx r st) = Suc (sc_next st)"
  using assms(2)
  by (simp_all add: enqueue_compensation_def sched_enqueue_def Let_def assms(1) job_ops_def mj_save_def update_new
      compensation_def new_job_def)

lemma saga_compensate_storage:
  assumes ops: "se_ops env = job_ops mj_save mj_acquire mj_complete mj_fail" and inj: "inj (se_uuid env)"
  shows "\<forall>i \<in> set (keys (sc_storage st)). \<exists>n < sc_next st. i = se_uuid env n \<Longrightarrow>
    sc_storage (fold (enqueue_compensation env now ctx) rs st)
    = sc_storage st @ map (\<lambda>(k, r). compensation env now ctx k r) (List.enumerate (sc_next st) rs)"
proof (induction rs arbitrary: st)
  case (Cons r rs)
  have "se_uuid env (sc_next st) \<notin> set (keys (sc_storage st))"
  proof
    assume "se_uuid env (sc_next st) \<in> set (keys (sc_storage st))"
    then obtain m where "m < sc_next st" "se_uuid env (sc_next st) = se_uuid env m" using Cons.prems by blast
    then show False using inj by (auto dest: injD)
  qed
  note s = enqueue_compensation_new[OF ops this, of now ctx r]
  have "\<exists>n < Suc (sc_next st). i = se_uuid env n" if "i \<in> set (keys (sc_storage (enqueue_compensation env now ctx r st)))" for i
  proof -
    have "i \<in> set (keys (sc_storage st)) \<or> i = se_uuid env (sc_next st)" using that by (auto simp: s compensation_def)
    then show ?thesis using Cons.prems less_SucI by blast
  qed
  then show ?case using Cons.IH[of "enqueue_compensation env now ctx r st"] by (simp add: s)
qed simp

text \<open>Sagas. When every step runs, a saga succeeds with all results in the context and touches nothing else.
  When a step fails after others ran, it fails with that error and the context as it was, and over
  the memory storage exactly one compensation job for each executed step is appended, from the last
  executed step back to the first, each with its step's result.\<close>

theorem saga_compensates:
  assumes "se_ops env = job_ops mj_save mj_acquire mj_complete mj_fail" "inj (se_uuid env)"
    and "\<forall>i \<in> set (keys (sc_storage st)). \<exists>n < sc_next st. i = se_uuid env n"
    and "saga_results ps ctx rs" "ss_run p (saga_context rs ctx) = Inl err"
  shows "saga_execute env now ps ctx st = ((None, saga_context rs ctx), st)
    \<and> fst (saga_execute env now (ps @ p # qs) ctx st) = (Some err, saga_context rs ctx)
    \<and> sc_storage (snd (saga_execute env now (ps @ p # qs) ctx st))
      = sc_storage st @ map (\<lambda>(k, r). compensation env now (saga_context rs ctx) k r) (List.enumerate (sc_next st) (rev rs))"
  using saga_loop_prefix[OF assms(4), of env now "[]" "[]" st] saga_loop_prefix[OF assms(4), of env now "p # qs" "[]" st]
    saga_compensate_storage[OF assms(1-3), of now "saga_context rs ctx" "rev rs"]
  by (simp add: saga_execute_def assms(5) saga_compensate_def)

theorem saga_compensates_witness:
  "\<exists>st'. saga_execute demo_env 7 [\<lparr> ss_name = ''a'', ss_run = (\<lambda>_. Inr (JNum 1)) \<rparr>, \<lparr> ss_name = ''b'', ss_run = (\<lambda>_. Inr (JNum 2)) \<rparr>,
       \<lparr> ss_name = ''c'', ss_run = (\<lambda>_. Inl ''no'') \<rparr>] [] demo_idle = ((Some ''no'', [(''a'', JNum 1), (''b'', JNum 2)]), st')
     \<and> map (jb_name \<circ> snd) (sc_storage st') = [''compensate:b'', ''compensate:a'']"
proof -
  let ?ps = "[\<lparr> ss_name = ''a'', ss_run = (\<lambda>_. Inr (JNum 1)) \<rparr>, \<lparr> ss_name = ''b'', ss_run = (\<lambda>_. Inr (JNum 2)) \<rparr>]"
  have r: "saga_results ?ps [] [(''a'', JNum 1), (''b'', JNum 2)]" by simp
  have k: "\<forall>i \<in> set (keys (sc_storage demo_idle)). \<exists>n < sc_next demo_idle. i = se_uuid demo_env n" by (simp add: demo_idle_def)
  show ?thesis
    using saga_compensates[OF demo_env_facts(1,2) k r, of "\<lparr> ss_name = ''c'', ss_run = (\<lambda>_. Inl ''no'') \<rparr>" "''no''" 7 "[]"]
    by (cases "saga_execute demo_env 7 (?ps @ [\<lparr> ss_name = ''c'', ss_run = (\<lambda>_. Inl ''no'') \<rparr>]) [] demo_idle")
       (auto simp: saga_context_def compensation_def new_job_def demo_idle_def)
qed

end
