(* ===== verification/App_Registry.thy ===== *)
theory App_Registry
  imports Dispatcher Native_Response
begin

text \<open>
  \<open>packages/core/src/registry.ts\<close>: \<open>RouteRegistry\<close>, what registering a route does to the validator, the
  compiled states, the router and the list of routes, in the order of the code; and the deprecation
  middleware of \<open>deprecation.ts\<close>. A route definition is an object with an identity (\<open>rd_oid\<close>); user
  functions are numbers. Building a schema's validator never throws here.
\<close>

record 'z route_ext =
  rx_schema :: "'z route_schema option"
  rx_plugins :: "nat list option"
  rx_timeout :: "int option"
  rx_handler :: nat
  rx_ignore_schema :: bool

type_synonym 'z app_route = "'z route_ext route_def"

text \<open>A step of a compiled pipeline: a middleware, the validation, or the handler, called under a time
  limit and in a span when there are any.\<close>

datatype route_step =
    StepPlugin nat
  | StepValidate string
  | StepHandler nat "int option" bool

record compiled_route =
  ct_pipeline :: "route_step list"
  ct_has_response_schema :: bool

record 'z ws_route =
  wr_path :: string
  wr_schema :: "'z route_schema option"
  wr_message :: "'z option"
  wr_plugins :: "nat list option"

record registry_options =
  ro_timeout :: int
  ro_telemetry :: bool
  ro_strict_schema :: bool

record 'z registry =
  rg_validator :: validator
  rg_router :: "'z app_route router"
  rg_routes :: "'z app_route list"
  rg_ws_routes :: "'z ws_route list"
  rg_compiled :: "(nat, compiled_route) jsmap"
  rg_schema_less :: "string list"
  rg_warning_scheduled :: bool

definition new_registry :: "route_conflict option \<Rightarrow> 'z registry" where
  "new_registry mode = \<lparr> rg_validator = [], rg_router = new_router mode, rg_routes = [], rg_ws_routes = [],
     rg_compiled = [], rg_schema_less = [], rg_warning_scheduled = False \<rparr>"

definition route_label :: "'z app_route \<Rightarrow> string" where
  "route_label d = method_name (rt_method d) @ '' '' @ rt_path d"

definition schema_error :: "'z app_route \<Rightarrow> thrown" where
  "schema_error d = ThrowErr (axiomify_error (''AxiomifyError: Route \"'' @ route_label d
     @ ''\" has a typed handler but no schema defined. Enable a schema or set strictSchema: false to suppress.'') None)"

text \<open>The check for a missing schema: an error in strict mode, otherwise a note for the warning that is
  printed on the next tick.\<close>

definition check_schema :: "registry_options \<Rightarrow> 'z app_route \<Rightarrow> 'z registry \<Rightarrow> thrown option \<times> 'z registry" where
  "check_schema ro d rg =
     (if rx_schema (rd_ext d) = None \<and> \<not> rx_ignore_schema (rd_ext d) then
        (if ro_strict_schema ro then (Some (schema_error d), rg)
         else (None, rg\<lparr>rg_schema_less := rg_schema_less rg @ [route_label d], rg_warning_scheduled := True\<rparr>))
      else (None, rg))"

definition flush_warning :: "'z registry \<Rightarrow> string list \<times> 'z registry" where
  "flush_warning rg = (rg_schema_less rg, rg\<lparr>rg_schema_less := [], rg_warning_scheduled := False\<rparr>)"

definition handler_step :: "registry_options \<Rightarrow> 'z app_route \<Rightarrow> route_step" where
  "handler_step ro d =
     (let limit = (case rx_timeout (rd_ext d) of Some t \<Rightarrow> t | None \<Rightarrow> ro_timeout ro)
      in StepHandler (rx_handler (rd_ext d)) (if limit > 0 then Some limit else None) (ro_telemetry ro))"

definition compile_pipeline :: "registry_options \<Rightarrow> 'z app_route \<Rightarrow> route_step list" where
  "compile_pipeline ro d =
     (case rx_plugins (rd_ext d) of Some ps \<Rightarrow> map StepPlugin ps | None \<Rightarrow> [])
     @ (if rx_schema (rd_ext d) \<noteq> None then [StepValidate (route_id d)] else [])
     @ [handler_step ro d]"

text \<open>How a handler step ends: a handler that is not done within the limit is answered 408, and the span is
  closed in any case.\<close>

datatype handler_end = Finished "thrown option" | StillRunning

definition handler_result :: "int option \<Rightarrow> handler_end \<Rightarrow> thrown option" where
  "handler_result limit e =
     (case e of
        Finished t \<Rightarrow> t
      | StillRunning \<Rightarrow> (case limit of Some _ \<Rightarrow> Some (ThrowErr (mk_error (Some 408) ''Request timed out'')) | None \<Rightarrow> None))"

definition has_response_schema :: "'z app_route \<Rightarrow> bool" where
  "has_response_schema d = (case rx_schema (rd_ext d) of Some s \<Rightarrow> sc_response s \<noteq> None | None \<Rightarrow> False)"

definition router_thrown :: "router_error \<Rightarrow> thrown" where
  "router_thrown e =
     (case e of
        RouteConflict a b \<Rightarrow> ThrowErr (axiomify_error (''AxiomifyError: Conflicting parameterized routes: \"'' @ a @ ''\" and \"'' @ b
          @ ''\" resolve ambiguously. Use distinct path structures.'') None)
      | WildcardNotLast p \<Rightarrow> plain_error (''Invalid route \"'' @ p @ ''\": wildcard * must be the final path segment.'')
      | RouteCollision m p \<Rightarrow> plain_error (''Route collision: '' @ method_name m @ '' '' @ p @ '' is already registered.''))"

definition registry_register ::
    "('z \<Rightarrow> vsource \<Rightarrow> jsval \<Rightarrow> vresult) \<Rightarrow> registry_options \<Rightarrow> 'z app_route \<Rightarrow> 'z registry \<Rightarrow> thrown option \<times> 'z registry" where
  "registry_register build ro d rg =
     (case check_schema ro d rg of
        (Some t, rg1) \<Rightarrow> (Some t, rg1)
      | (None, rg1) \<Rightarrow>
          let rg2 = (case rx_schema (rd_ext d) of
                       Some s \<Rightarrow> rg1\<lparr>rg_validator := validation_compile build (route_id d) s (rg_validator rg1)\<rparr>
                     | None \<Rightarrow> rg1);
              rg3 = rg2\<lparr>rg_compiled := AList.update (rd_oid d)
                          \<lparr> ct_pipeline = compile_pipeline ro d, ct_has_response_schema = has_response_schema d \<rparr> (rg_compiled rg2)\<rparr>
          in case router_register d (rg_router rg3) of
               (Some e, R) \<Rightarrow> (Some (router_thrown e), rg3\<lparr>rg_router := R\<rparr>)
             | (None, R) \<Rightarrow> (None, rg3\<lparr>rg_router := R, rg_routes := rg_routes rg3 @ [d]\<rparr>))"

definition registry_register_ws ::
    "('z \<Rightarrow> vsource \<Rightarrow> jsval \<Rightarrow> vresult) \<Rightarrow> 'z ws_route \<Rightarrow> 'z registry \<Rightarrow> 'z registry" where
  "registry_register_ws build d rg =
     (let rg1 = (case (wr_schema d, wr_message d) of
                   (Some s, Some mz) \<Rightarrow> rg\<lparr>rg_validator := validation_compile build (''WS:'' @ wr_path d @ '':message'')
                        (s\<lparr>sc_body := Some mz\<rparr>) (rg_validator rg)\<rparr>
                 | _ \<Rightarrow> rg)
      in rg1\<lparr>rg_ws_routes := rg_ws_routes rg1 @ [d]\<rparr>)"

subsection \<open>Deprecation headers\<close>

text \<open>A date option as \<open>new Date\<close> reads it: absent, not a date, or a time in milliseconds with the text of
  \<open>toUTCString\<close>. A successor is absent, not an absolute URL, or its normal form.\<close>

datatype date_option = NoDate | BadDate | GoodDate int string
datatype url_option = NoUrl | BadUrl | GoodUrl string

definition deprecation_headers :: "date_option \<Rightarrow> date_option \<Rightarrow> url_option \<Rightarrow> thrown + (string \<times> string) list" where
  "deprecation_headers dep sun succ1 =
     sum_bind (case dep of NoDate \<Rightarrow> Inr ''?1'' | BadDate \<Rightarrow> Inl (plain_error ''[@axiomify/core] Invalid deprecatedAt date.'')
               | GoodDate ms _ \<Rightarrow> Inr (''@'' @ show_int (ms div 1000))) (\<lambda>d.
     sum_bind (case sun of NoDate \<Rightarrow> Inr [] | BadDate \<Rightarrow> Inl (plain_error ''[@axiomify/core] Invalid sunset date.'')
               | GoodDate _ t \<Rightarrow> Inr [(''Sunset'', t)]) (\<lambda>s.
     sum_bind (case succ1 of NoUrl \<Rightarrow> Inr [] | BadUrl \<Rightarrow> Inl (plain_error ''[@axiomify/core] Deprecation successor must be an absolute URL.'')
               | GoodUrl u \<Rightarrow> Inr [(''Link'', ''<'' @ u @ ''>; rel=\"successor-version\"'')]) (\<lambda>l.
     Inr ((''Deprecation'', d) # s @ l))))"

fun set_headers :: "(string \<times> string) list \<Rightarrow> native_response act" where
  "set_headers [] r = (None, r)"
| "set_headers ((k, v) # hs) r = seq_act (nr_header k v) (set_headers hs) r"

end
