(* ===== verification/App.thy ===== *)
theory App
  imports App_Registry
begin

text \<open>
  \<open>packages/core/src/app.ts\<close>: the application object. Paths of groups and the matcher of prefix-scoped
  hooks, route groups with their middleware and scoped hooks, the service container, modules and
  their dependencies, the locking of routes, the request identifier, the default serializer and the
  health check. Hooks and middleware are numbers; the member sets of groups are pairs of a group and
  the identity of a route definition; a copy of a definition gets an identity that was never used.
\<close>

subsection \<open>Paths\<close>

fun collapse_slashes :: "string \<Rightarrow> string" where
  "collapse_slashes (a # b # s) =
     (if a = CHR ''/'' \<and> b = CHR ''/'' then collapse_slashes (b # s) else a # collapse_slashes (b # s))"
| "collapse_slashes s = s"

definition join_route_path :: "string \<Rightarrow> string \<Rightarrow> string" where
  "join_route_path pre path =
     (let s = collapse_slashes (pre @ path);
          t = (if ends_with s ''/'' then butlast s else s)
      in if t = [] then ''/'' else t)"

definition merge_plugins :: "nat list option \<Rightarrow> nat list option \<Rightarrow> nat list option" where
  "merge_plugins inherited own =
     (case inherited of
        None \<Rightarrow> own | Some [] \<Rightarrow> own
      | Some xs \<Rightarrow> (case own of None \<Rightarrow> Some xs | Some [] \<Rightarrow> Some xs | Some ys \<Rightarrow> Some (xs @ ys)))"

text \<open>The regular expression of a prefix, run on a path: \<open>piece_rests\<close> are the places where the part for
  one segment may end. \<open>.\<close> does not match a line terminator.\<close>

definition line_terminator :: "char \<Rightarrow> bool" where
  "line_terminator c \<longleftrightarrow> c = CHR 0x0A \<or> c = CHR 0x0D"

fun rests_while :: "(char \<Rightarrow> bool) \<Rightarrow> string \<Rightarrow> string list" where
  "rests_while P [] = [[]]"
| "rests_while P (c # s) = (c # s) # (if P c then rests_while P s else [])"

definition piece_rests :: "string \<Rightarrow> string \<Rightarrow> string list" where
  "piece_rests seg s =
     (if seg = ''*'' then rests_while (\<lambda>c. \<not> line_terminator c) s
      else if starts_with seg '':'' then
        (case s of c # r \<Rightarrow> if c \<noteq> CHR ''/'' then rests_while (\<lambda>c. c \<noteq> CHR ''/'') r else [] | [] \<Rightarrow> [])
      else if starts_with s seg then [drop (length seg) s] else [])"

fun match_pieces :: "string list \<Rightarrow> string \<Rightarrow> bool" where
  "match_pieces [] s = (s = [] \<or> hd s = CHR ''/'')"
| "match_pieces [p] s = list_ex (\<lambda>r. r = [] \<or> hd r = CHR ''/'') (piece_rests p s)"
| "match_pieces (p # q # ps) s =
     list_ex (\<lambda>r. case r of c # r' \<Rightarrow> c = CHR ''/'' \<and> match_pieces (q # ps) r' | [] \<Rightarrow> False) (piece_rests p s)"

definition prefix_matches :: "string \<Rightarrow> string \<Rightarrow> bool" where
  "prefix_matches pre path =
     (if pre = ''/'' \<or> pre = [] then starts_with path ''/''
      else match_pieces (split_on (CHR ''/'') pre) path)"

subsection \<open>The application\<close>

datatype service = UndefinedService | Service nat | VaultService nat

text \<open>A hook of the application: as it was added, or scoped to a group by membership of the matched route
  or by the group's prefix.\<close>

datatype app_hook = PlainHook nat | MemberHook nat nat | PrefixHook string nat

record app_group =
  gp_prefix :: string
  gp_plugins :: "nat list"
  gp_scopes :: "nat list"

record 'z app =
  ap_registry :: "'z registry"
  ap_hooks :: "(hook_type \<times> app_hook) list"
  ap_services :: "(string, service) jsmap"
  ap_modules :: "string list"
  ap_locked :: bool
  ap_lock_reason :: "string option"
  ap_bootstrapped :: bool
  ap_vault_seals :: nat
  ap_groups :: "app_group list"
  ap_members :: "(nat \<times> nat) list"
  ap_next_oid :: nat
  ap_request_ids :: nat
  ap_serializer :: "nat option"
  ap_not_found :: "nat option"
  ap_method_not_allowed :: "nat option"

definition new_app :: "route_conflict option \<Rightarrow> 'z app" where
  "new_app mode = \<lparr> ap_registry = new_registry mode, ap_hooks = [], ap_services = [], ap_modules = [], ap_locked = False,
     ap_lock_reason = None, ap_bootstrapped = False, ap_vault_seals = 0, ap_groups = [], ap_members = [], ap_next_oid = 0,
     ap_request_ids = 0, ap_serializer = None, ap_not_found = None, ap_method_not_allowed = None \<rparr>"

record 'z app_env =
  ae_build :: "'z \<Rightarrow> vsource \<Rightarrow> jsval \<Rightarrow> vresult"
  ae_options :: registry_options

definition lock_suffix :: "'z app \<Rightarrow> string" where
  "lock_suffix a = (case ap_lock_reason a of Some (c # r) \<Rightarrow> '' ('' @ (c # r) @ '')'' | _ \<Rightarrow> [])"

definition app_route :: "'z app_env \<Rightarrow> 'z app_route \<Rightarrow> 'z app \<Rightarrow> thrown option \<times> 'z app" where
  "app_route env d a =
     (if ap_locked a then
        (Some (plain_error (''Cannot register route '' @ route_label d @ '' after adapter binding'' @ lock_suffix a
           @ ''. Register all routes before creating an adapter.'')), a)
      else case registry_register (ae_build env) (ae_options env) d (ap_registry a) of
             (e, rg) \<Rightarrow> (e, a\<lparr>ap_registry := rg, ap_next_oid := max (ap_next_oid a) (Suc (rd_oid d))\<rparr>))"

definition app_ws :: "'z app_env \<Rightarrow> 'z ws_route \<Rightarrow> 'z app \<Rightarrow> thrown option \<times> 'z app" where
  "app_ws env d a =
     (if ap_locked a then
        (Some (plain_error (''[Axiomify] Cannot register WS route \"'' @ wr_path d @ ''\" after the server has started. ''
           @ (case ap_lock_reason a of Some r \<Rightarrow> r | None \<Rightarrow> ''The routes array is locked.''))), a)
      else (None, a\<lparr>ap_registry := registry_register_ws (ae_build env) d (ap_registry a)\<rparr>))"

definition add_hook :: "hook_type \<Rightarrow> app_hook \<Rightarrow> 'z app \<Rightarrow> 'z app" where
  "add_hook t h a = a\<lparr>ap_hooks := ap_hooks a @ [(t, h)]\<rparr>"

subsection \<open>Services, locking\<close>

definition provide :: "string \<Rightarrow> service \<Rightarrow> 'z app \<Rightarrow> thrown option \<times> 'z app" where
  "provide token v a =
     (if ap_bootstrapped a then
        (Some (ThrowErr (axiomify_error ''AxiomifyError: DI container is sealed. Services cannot be registered after bootstrap.'' None)), a)
      else if map_of (ap_services a) token \<noteq> None then
        (Some (ThrowErr (axiomify_error (''AxiomifyError: Service token \"'' @ token @ ''\" is already registered. Use a unique token.'') None)), a)
      else (None, a\<lparr>ap_services := AList.update token v (ap_services a)\<rparr>))"

definition resolve_service :: "string \<Rightarrow> 'z app \<Rightarrow> thrown + service" where
  "resolve_service token a =
     (case map_of (ap_services a) token of
        Some (Service n) \<Rightarrow> Inr (Service n)
      | Some (VaultService n) \<Rightarrow> Inr (VaultService n)
      | _ \<Rightarrow> Inl (plain_error (''[Axiomify] DI Error: Cannot resolve unregistered service \"'' @ token @ ''\".'')))"

definition force_provide :: "string \<Rightarrow> service \<Rightarrow> 'z app \<Rightarrow> 'z app" where
  "force_provide token v a = a\<lparr>ap_services := AList.update token v (ap_services a)\<rparr>"

definition seal_vault :: "'z app \<Rightarrow> 'z app" where
  "seal_vault a = (case map_of (ap_services a) ''vault'' of
     Some (VaultService n) \<Rightarrow> a\<lparr>ap_vault_seals := Suc (ap_vault_seals a)\<rparr> | _ \<Rightarrow> a)"

text \<open>\<open>listen\<close> and \<open>build\<close>.\<close>

definition bootstrap :: "'z app \<Rightarrow> 'z app" where
  "bootstrap a = (seal_vault a)\<lparr>ap_bootstrapped := True\<rparr>"

definition lock_routes :: "bool \<Rightarrow> string option \<Rightarrow> 'z app \<Rightarrow> thrown option \<times> 'z app" where
  "lock_routes has_token reason a =
     (if \<not> has_token then
        (Some (plain_error ''[Axiomify] lockRoutes() requires the ADAPTER_LOCK_TOKEN imported from @axiomify/core. This API is reserved for adapter packages.''), a)
      else if ap_locked a then
        (Some (plain_error (''[Axiomify] lockRoutes() has already been called. Routes are locked''
           @ (case ap_lock_reason a of Some (c # r) \<Rightarrow> '' by '' @ (c # r) | _ \<Rightarrow> []) @ ''.'')), a)
      else (None, bootstrap (a\<lparr>ap_locked := True, ap_lock_reason := reason\<rparr>)))"

text \<open>The dash of a message (U+2014) as its bytes in UTF-8.\<close>

definition dash :: string where
  "dash = [CHR 0xE2, CHR 0x80, CHR 0x94]"

definition set_serializer :: "nat \<Rightarrow> 'z app \<Rightarrow> thrown option \<times> 'z app" where
  "set_serializer f a =
     (if ap_locked a then
        (Some (plain_error (''[Axiomify] Cannot replace serializer after adapter binding'' @ lock_suffix a @ ''. Call setSerializer() before constructing the adapter ''
           @ dash @ '' error payload caches are sealed at that point.'')), a)
      else (None, a\<lparr>ap_serializer := Some f\<rparr>))"

definition set_not_found_handler :: "nat \<Rightarrow> 'z app \<Rightarrow> 'z app" where
  "set_not_found_handler f a = a\<lparr>ap_not_found := Some f\<rparr>"

definition set_method_not_allowed_handler :: "nat \<Rightarrow> 'z app \<Rightarrow> 'z app" where
  "set_method_not_allowed_handler f a = a\<lparr>ap_method_not_allowed := Some f\<rparr>"

subsection \<open>Groups\<close>

definition group_of :: "nat \<Rightarrow> 'z app \<Rightarrow> app_group" where
  "group_of g a = (if g < length (ap_groups a) then ap_groups a ! g else \<lparr> gp_prefix = [], gp_plugins = [], gp_scopes = [] \<rparr>)"

text \<open>\<open>_createGroup\<close>: the new group's number is its own member set.\<close>

definition create_group :: "string \<Rightarrow> nat list option \<Rightarrow> nat list \<Rightarrow> 'z app \<Rightarrow> nat \<times> 'z app" where
  "create_group pre plugins ancestors a =
     (let g = length (ap_groups a)
      in (g, a\<lparr>ap_groups := ap_groups a @
             [\<lparr> gp_prefix = pre, gp_plugins = (case plugins of Some ps \<Rightarrow> ps | None \<Rightarrow> []), gp_scopes = ancestors @ [g] \<rparr>]\<rparr>))"

definition app_group_new :: "string \<Rightarrow> nat list option \<Rightarrow> 'z app \<Rightarrow> nat \<times> 'z app" where
  "app_group_new pre plugins a = create_group pre plugins [] a"

definition group_use :: "nat \<Rightarrow> nat \<Rightarrow> 'z app \<Rightarrow> 'z app" where
  "group_use g plugin a =
     a\<lparr>ap_groups := (ap_groups a)[g := (group_of g a)\<lparr>gp_plugins := gp_plugins (group_of g a) @ [plugin]\<rparr>]\<rparr>"

definition group_route_def :: "nat \<Rightarrow> 'z app_route \<Rightarrow> 'z app \<Rightarrow> 'z app_route" where
  "group_route_def g d a =
     d\<lparr>rt_path := join_route_path (gp_prefix (group_of g a)) (rt_path d), rd_oid := ap_next_oid a,
       rd_ext := (rd_ext d)\<lparr>rx_plugins := merge_plugins (Some (gp_plugins (group_of g a))) (rx_plugins (rd_ext d))\<rparr>\<rparr>"

definition group_route :: "'z app_env \<Rightarrow> nat \<Rightarrow> 'z app_route \<Rightarrow> 'z app \<Rightarrow> thrown option \<times> 'z app" where
  "group_route env g d a =
     (let d' = group_route_def g d a
      in app_route env d' (a\<lparr>ap_members := ap_members a @ map (\<lambda>s. (s, rd_oid d')) (gp_scopes (group_of g a)),
                             ap_next_oid := Suc (ap_next_oid a)\<rparr>))"

definition group_ws :: "'z app_env \<Rightarrow> nat \<Rightarrow> 'z ws_route \<Rightarrow> 'z app \<Rightarrow> thrown option \<times> 'z app" where
  "group_ws env g d a =
     app_ws env (d\<lparr>wr_path := join_route_path (gp_prefix (group_of g a)) (wr_path d),
                   wr_plugins := merge_plugins (Some (gp_plugins (group_of g a))) (wr_plugins d)\<rparr>) a"

definition group_group :: "nat \<Rightarrow> string \<Rightarrow> nat list option \<Rightarrow> 'z app \<Rightarrow> nat \<times> 'z app" where
  "group_group g sub plugins a =
     create_group (join_route_path (gp_prefix (group_of g a)) sub)
       (merge_plugins (Some (gp_plugins (group_of g a))) plugins) (gp_scopes (group_of g a)) a"

definition group_add_hook :: "nat \<Rightarrow> hook_type \<Rightarrow> nat \<Rightarrow> 'z app \<Rightarrow> 'z app" where
  "group_add_hook g t h a =
     add_hook t (if t = OnPreHandler \<or> t = OnPostHandler then MemberHook g h
                 else PrefixHook (gp_prefix (group_of g a)) h) a"

text \<open>Whether a hook calls its handler for a request path and a matched route.\<close>

definition hook_fires :: "'z app \<Rightarrow> string \<Rightarrow> nat option \<Rightarrow> app_hook \<Rightarrow> bool" where
  "hook_fires a path oid h =
     (case h of
        PlainHook _ \<Rightarrow> True
      | MemberHook g _ \<Rightarrow> (case oid of Some i \<Rightarrow> (g, i) \<in> set (ap_members a) | None \<Rightarrow> False)
      | PrefixHook pre _ \<Rightarrow> prefix_matches pre path)"

subsection \<open>Modules\<close>

record 'z app_module =
  am_name :: string
  am_deps :: "string list option"
  am_register :: "'z app \<Rightarrow> thrown option \<times> 'z app"

definition module_deps :: "'z app_module \<Rightarrow> string list" where
  "module_deps m = (case am_deps m of Some ds \<Rightarrow> ds | None \<Rightarrow> [])"

definition missing_dep :: "string \<Rightarrow> string \<Rightarrow> thrown" where
  "missing_dep name dep = plain_error (''[Axiomify] Module \"'' @ name @ ''\" declares dependency \"'' @ dep
     @ ''\", but no module with that name has been passed to app.use(). Pass the \"'' @ dep
     @ ''\" module to app.use() before or alongside \"'' @ name @ ''\".'')"

text \<open>The traversal over \<open>visit\<close>, which starts with the root and to which nothing is ever added.\<close>

fun collect_modules ::
    "string list \<Rightarrow> 'z app_module list \<Rightarrow> (string, 'z app_module) jsmap \<Rightarrow> thrown + (string, 'z app_module) jsmap" where
  "collect_modules registered [] by_name = Inr by_name"
| "collect_modules registered (m # visit) by_name =
     (if map_of by_name (am_name m) \<noteq> None then collect_modules registered visit by_name
      else
        let by_name' = AList.update (am_name m) m by_name
        in case filter (\<lambda>d. map_of by_name' d = None \<and> d \<notin> set registered) (module_deps m) of
             d # _ \<Rightarrow> Inl (missing_dep (am_name m) d)
           | [] \<Rightarrow> collect_modules registered visit by_name')"

type_synonym degrees = "(string, int) jsmap"
type_synonym edges = "(string, string list) jsmap"

definition get_or :: "'v \<Rightarrow> (string, 'v) jsmap \<Rightarrow> string \<Rightarrow> 'v" where
  "get_or d m k = (case map_of m k of Some v \<Rightarrow> v | None \<Rightarrow> d)"

definition add_edge :: "(string, 'z app_module) jsmap \<Rightarrow> string \<Rightarrow> string \<Rightarrow> degrees \<times> edges \<Rightarrow> degrees \<times> edges" where
  "add_edge by_name name dep de =
     (case de of (deg, adj) \<Rightarrow>
        if map_of by_name dep = None then (deg, adj)
        else (AList.update name (get_or 0 deg name + 1) deg, AList.update dep (get_or [] adj dep @ [name]) adj))"

definition build_graph :: "(string, 'z app_module) jsmap \<Rightarrow> degrees \<times> edges" where
  "build_graph by_name =
     fold (\<lambda>(name, m) de. fold (add_edge by_name name) (module_deps m) de) by_name
       (map (\<lambda>(name, m). (name, 0)) by_name, map (\<lambda>(name, m). (name, [])) by_name)"

definition release_deps :: "string list \<Rightarrow> string list \<times> degrees \<Rightarrow> string list \<times> degrees" where
  "release_deps deps rd = fold (\<lambda>dep (ready, deg).
     (let d = get_or 1 deg dep - 1
      in (if d = 0 then ready @ [dep] else ready, AList.update dep d deg))) deps rd"

fun kahn_loop :: "nat \<Rightarrow> edges \<Rightarrow> string list \<Rightarrow> degrees \<Rightarrow> string list \<Rightarrow> (string list \<times> degrees) option" where
  "kahn_loop fuel adj [] deg ordered = Some (ordered, deg)"
| "kahn_loop 0 adj (name # ready) deg ordered = None"
| "kahn_loop (Suc fuel) adj (name # ready) deg ordered =
     (case release_deps (get_or [] adj name) (ready, deg) of
        (ready', deg') \<Rightarrow> kahn_loop fuel adj ready' deg' (ordered @ [name]))"

definition cycle_error :: "string list \<Rightarrow> thrown" where
  "cycle_error names = plain_error (''[Axiomify] Circular dependency detected among modules: ['' @ join_with '', '' names @ '']. Break the cycle by extracting shared logic into a dependency-free module.'')"

text \<open>\<open>None\<close>: out of fuel.\<close>

definition resolve_module_deps :: "nat \<Rightarrow> string list \<Rightarrow> 'z app_module \<Rightarrow> (thrown + 'z app_module list) option" where
  "resolve_module_deps fuel registered m =
     (case collect_modules registered [m] [] of
        Inl e \<Rightarrow> Some (Inl e)
      | Inr by_name \<Rightarrow>
          (case build_graph by_name of (deg, adj) \<Rightarrow>
             (case kahn_loop fuel adj (map fst (filter (\<lambda>(n, d). d = 0) deg)) deg [] of
                None \<Rightarrow> None
              | Some (ordered, deg') \<Rightarrow>
                  Some (if length ordered \<noteq> length by_name
                        then Inl (cycle_error (filter (\<lambda>n. get_or 0 deg' n > 0) (map fst by_name)))
                        else Inr (map (\<lambda>n. the (map_of by_name n)) ordered)))))"

fun register_modules :: "'z app_module list \<Rightarrow> 'z app \<Rightarrow> thrown option \<times> 'z app" where
  "register_modules [] a = (None, a)"
| "register_modules (m # ms) a =
     (if am_name m \<in> set (ap_modules a) then register_modules ms a
      else case am_register m a of
             (Some t, a') \<Rightarrow> (Some t, a')
           | (None, a') \<Rightarrow> register_modules ms (a'\<lparr>ap_modules := set_add (am_name m) (ap_modules a')\<rparr>))"

definition use_module :: "'z app_module \<Rightarrow> 'z app \<Rightarrow> thrown option \<times> 'z app" where
  "use_module m a =
     (if am_name m \<in> set (ap_modules a) then (None, a)
      else case resolve_module_deps (Suc (length (module_deps m))) (ap_modules a) m of
             Some (Inr ms) \<Rightarrow> register_modules ms a
           | Some (Inl e) \<Rightarrow> (Some e, a)
           | None \<Rightarrow> (None, a))"

subsection \<open>Requests\<close>

text \<open>The \<open>X-Request-Id\<close> hook; \<open>fresh\<close> is the text of the next number of the process.\<close>

definition request_id_hook :: "(nat \<Rightarrow> string) \<Rightarrow> request \<Rightarrow> nat \<times> native_response \<Rightarrow> (thrown option \<times> native_response) \<times> nat" where
  "request_id_hook fresh req nr =
     (case nr of (n, r) \<Rightarrow>
        (case map_of (rq_headers req) ''x-request-id'' of
           Some vs \<Rightarrow> (nr_header ''X-Request-Id'' (join_with '','' vs) r, n)
         | None \<Rightarrow> (nr_header ''X-Request-Id'' (fresh (Suc n)) r, Suc n)))"

definition default_serializer :: serializer where
  "default_serializer i =
     (let bad = (si_is_error i \<or> si_status i \<ge> 400)
      in SerValue (JObj [(''status'', JStr (if bad then ''failed'' else ''success'')),
           (''message'', JStr (case si_message i of
               Some (c # m) \<Rightarrow> c # m
             | _ \<Rightarrow> if bad then ''Error'' else ''Operation successful'')),
           (''data'', si_data i)]))"

text \<open>A named check of \<open>healthCheck\<close>: its answer, or that it threw or took more than five seconds. The
  results are listed in the order of the checks, not of their completion.\<close>

datatype check_end = CheckResult bool | CheckFailed

definition health_response :: "jsval \<Rightarrow> (string \<times> check_end) list option \<Rightarrow> int \<times> jsval" where
  "health_response uptime checks =
     (case checks of
        None \<Rightarrow> (200, JObj [(''status'', JStr ''ok''), (''uptime'', uptime)])
      | Some cs \<Rightarrow>
          let results = map (\<lambda>(n, c). (n, JBool (c = CheckResult True))) cs;
              passed = list_all (\<lambda>(n, c). c = CheckResult True) cs
          in (if passed then 200 else 503,
              JObj [(''status'', JStr (if passed then ''ok'' else ''degraded'')), (''checks'', JObj results)]))"

text \<open>\<open>ensureRequestState\<close> for a request without a proper state: the entries it had are copied.\<close>

definition ensure_request_state :: "request_state option \<Rightarrow> (string \<times> jsval) list \<Rightarrow> request_state \<Rightarrow> request_state" where
  "ensure_request_state proper entries fresh =
     (case proper of Some s \<Rightarrow> s | None \<Rightarrow> fold (\<lambda>(k, v) s. snd (state_set k v s)) entries fresh)"

subsection \<open>What an application goes through\<close>

text \<open>The calls that change an application, from anywhere (the top level, modules, group callbacks).
  \<open>forceProvide\<close>, which bypasses the container on purpose, is left out.\<close>

inductive app_step :: "'z app_env \<Rightarrow> 'z app \<Rightarrow> 'z app \<Rightarrow> bool" for env where
  "app_step env a (snd (app_route env d a))"
| "app_step env a (snd (app_ws env w a))"
| "app_step env a (add_hook t h a)"
| "app_step env a (snd (provide token v a))"
| "app_step env a (bootstrap a)"
| "app_step env a (snd (lock_routes tok reason a))"
| "app_step env a (snd (set_serializer f a))"
| "app_step env a (set_not_found_handler f a)"
| "app_step env a (set_method_not_allowed_handler f a)"
| "app_step env a (snd (app_group_new pre plugins a))"
| "g < length (ap_groups a) \<Longrightarrow> app_step env a (group_use g p a)"
| "g < length (ap_groups a) \<Longrightarrow> app_step env a (snd (group_route env g d a))"
| "g < length (ap_groups a) \<Longrightarrow> app_step env a (snd (group_ws env g w a))"
| "g < length (ap_groups a) \<Longrightarrow> app_step env a (snd (group_group g sub plugins a))"
| "g < length (ap_groups a) \<Longrightarrow> app_step env a (group_add_hook g t h a)"
| "app_step env a (a\<lparr>ap_modules := set_add n (ap_modules a)\<rparr>)"

inductive app_steps :: "'z app_env \<Rightarrow> 'z app \<Rightarrow> 'z app \<Rightarrow> bool" for env a0 where
  steps_refl: "app_steps env a0 a0"
| steps_step: "app_steps env a0 a \<Longrightarrow> app_step env a a' \<Longrightarrow> app_steps env a0 a'"

end
