(* ===== verification/App_Props.thy ===== *)
theory App_Props
  imports App
begin

text \<open>
  What holds of an application: every route that lookup can return has been compiled and its schema is
  known to the validator; a registration that fails has already replaced the schema; services, the
  serializer and the routes are fixed by provision, bootstrap and lock; hooks of a group see exactly
  the routes of its subtree; and two places where the code does less than its comments say (module
  dependencies, prefixes with a trailing slash).
\<close>

subsection \<open>Registered routes are compiled\<close>

lemma set_trie_node: "set_trie node = \<Union> (set_trie ` snd ` set (children node)) \<union> \<Union> (set_trie ` snd ` set (param_children node))
    \<union> (case wildcard_child node of Some w \<Rightarrow> set_trie w | None \<Rightarrow> {}) \<union> snd ` set (routes node)"
  by (cases node) (auto simp: Basic_BNFs.snds.simps split: option.splits; force)

lemma set_trie_child:
  "map_of (children node) k = Some c \<Longrightarrow> set_trie c \<subseteq> set_trie node"
  "map_of (param_children node) k = Some c \<Longrightarrow> set_trie c \<subseteq> set_trie node"
  "wildcard_child node = Some c \<Longrightarrow> set_trie c \<subseteq> set_trie node"
  "map_of (routes node) m = Some p \<Longrightarrow> p \<in> set_trie node"
  by (auto simp: set_trie_node[of node] dest!: map_of_SomeD simp del: map_of_eq_Some_iff) force+

lemma set_trie_empty [simp]: "set_trie empty_node = {}"
  by (simp add: empty_node_def)

lemma set_trie_update:
  "\<Union> (set_trie ` snd ` set (AList.update k t m)) \<subseteq> set_trie t \<union> \<Union> (set_trie ` snd ` set m)"
  using set_update_subset[of k t m] by force

lemma Un_insert_mono: "D' \<subseteq> insert x D \<Longrightarrow> U \<union> D' \<subseteq> insert x (U \<union> D)"
  by blast

lemma Un_update:
  "A' \<subseteq> T \<union> A \<Longrightarrow> A' \<union> B \<union> C \<union> D \<subseteq> T \<union> (A \<union> B \<union> C \<union> D)"
  "B' \<subseteq> T \<union> B \<Longrightarrow> A \<union> B' \<union> C \<union> D \<subseteq> T \<union> (A \<union> B \<union> C \<union> D)"
  "A \<union> B \<union> T \<union> D \<subseteq> T \<union> (A \<union> B \<union> C \<union> D)"
  by blast+

lemma trie_node_updates:
  "set_trie (TrieNode (AList.update k t (children node)) (param_children node) (wildcard_child node) (routes node))
     \<subseteq> set_trie t \<union> set_trie node"
  "set_trie (TrieNode (children node) (AList.update k t (param_children node)) (wildcard_child node) (routes node))
     \<subseteq> set_trie t \<union> set_trie node"
  "set_trie (TrieNode (children node) (param_children node) (Some t) (routes node)) \<subseteq> set_trie t \<union> set_trie node"
  unfolding set_trie_node[of node] set_trie_node[of "TrieNode _ _ _ _"] trie.sel option.case
  by (rule Un_update set_trie_update)+

lemma trie_insert_payload:
  "set_trie (snd (trie_insert rt r node)) \<subseteq> (if fst (trie_insert rt r node) = None then {rt} else {}) \<union> set_trie node"
proof (induction rt r node rule: trie_insert.induct)
  case (1 rt node)
  have "snd ` set (AList.update (rt_method rt) rt (routes node)) \<subseteq> insert rt (snd ` set (routes node))"
    using set_update_subset[of "rt_method rt" rt "routes node"] by force
  let ?N = "TrieNode (children node) (param_children node) (wildcard_child node) (AList.update (rt_method rt) rt (routes node))"
  have "set_trie ?N \<subseteq> insert rt (set_trie node)"
    unfolding set_trie_node[of node] set_trie_node[of ?N] trie.sel by (rule Un_insert_mono[OF \<open>_ \<subseteq> insert rt _\<close>])
  then show ?case by (cases "map_of (routes node) (rt_method rt) = None") (simp_all del: map_of_eq_Some_iff)
next
  case (2 rt r node)
  let ?seg = "fst (next_seg r)" and ?nxt = "snd (next_seg r)"
  note up = trie_node_updates[where node = node]
  show ?case
  proof (cases "starts_with ?seg '':''")
    case True
    let ?c = "case map_of (param_children node) (drop 1 ?seg) of Some c \<Rightarrow> c | None \<Rightarrow> empty_node"
    obtain e t where i: "trie_insert rt ?nxt ?c = (e, t)" by force
    have c: "set_trie ?c \<subseteq> set_trie node" using set_trie_child(2)[of node "drop 1 ?seg"] by (auto split: option.splits)
    have "set_trie t \<subseteq> (if e = None then {rt} else {}) \<union> set_trie ?c"
      using "2.IH"(1)[OF refl refl True refl refl] by (simp only: i fst_conv snd_conv)
    moreover have "trie_insert rt (Some r) node = (e, TrieNode (children node) (AList.update (drop 1 ?seg) t (param_children node)) (wildcard_child node) (routes node))"
      using True i by (simp add: Let_def)
    ultimately show ?thesis using up(2)[where k = "drop 1 ?seg" and t = t] c by (simp only: fst_conv snd_conv) blast
  next
    case nc: False
    show ?thesis
    proof (cases "?seg = ''*''")
      case True
      let ?c = "case wildcard_child node of Some c \<Rightarrow> c | None \<Rightarrow> empty_node"
      obtain e t where i: "trie_insert rt ?nxt ?c = (e, t)" by force
      show ?thesis
      proof (cases "?nxt = None")
        case nn: True
        have c: "set_trie ?c \<subseteq> set_trie node" using set_trie_child(3)[of node] by (auto split: option.splits)
        have nnn: "\<not> ?nxt \<noteq> None" using nn by simp
        have "set_trie t \<subseteq> (if e = None then {rt} else {}) \<union> set_trie ?c"
          using "2.IH"(2)[OF refl refl nc True nnn refl] by (simp only: i fst_conv snd_conv)
        moreover have "trie_insert rt (Some r) node = (e, TrieNode (children node) (param_children node) (Some t) (routes node))"
          using True nc nn i by (simp add: Let_def)
        ultimately show ?thesis using up(3)[where t = t] c by (simp only: fst_conv snd_conv) blast
      qed (use True nc in \<open>simp add: Let_def\<close>)
    next
      case False
      let ?c = "case map_of (children node) ?seg of Some c \<Rightarrow> c | None \<Rightarrow> empty_node"
      obtain e t where i: "trie_insert rt ?nxt ?c = (e, t)" by force
      have c: "set_trie ?c \<subseteq> set_trie node" using set_trie_child(1)[of node ?seg] by (auto split: option.splits)
      have "set_trie t \<subseteq> (if e = None then {rt} else {}) \<union> set_trie ?c"
        using "2.IH"(3)[OF refl refl nc False refl] by (simp only: i fst_conv snd_conv)
      moreover have "trie_insert rt (Some r) node = (e, TrieNode (AList.update ?seg t (children node)) (param_children node) (wildcard_child node) (routes node))"
        using nc False i by (simp add: Let_def)
      ultimately show ?thesis using up(1)[where k = ?seg and t = t] c by (simp only: fst_conv snd_conv) blast
    qed
  qed
qed

lemma find_node_payload:
  "find_node node r meth = Some (p, b, ps) \<Longrightarrow> p \<in> set_trie node"
  "find_params kcs seg nxt meth = Some (p, b, ps) \<Longrightarrow> p \<in> \<Union> (set_trie ` snd ` set kcs)"
proof (induction node r meth and kcs seg nxt meth arbitrary: b ps and b ps rule: find_node_find_params.induct)
  case (1 node meth)
  then show ?case by (auto simp: leaf_payload_def intro: set_trie_child(4) simp del: map_of_eq_Some_iff split: option.splits if_splits)
next
  case (2 node r meth)
  let ?lit = "case map_of (children node) (fst (next_seg r)) of
              Some c \<Rightarrow> found_under (Lit (fst (next_seg r))) [] (find_node c (snd (next_seg r)) meth) | None \<Rightarrow> None"
  let ?par = "find_params (param_children node) (fst (next_seg r)) (snd (next_seg r)) meth"
  consider (lit) c b' ps' where "map_of (children node) (fst (next_seg r)) = Some c" "find_node c (snd (next_seg r)) meth = Some (p, b', ps')"
    | (par) "?par = Some (p, b, ps)" "?lit = None"
    | (wild) w where "wildcard_child node = Some w" "leaf_payload (routes w) meth = Some p"
    using "2.prems" unfolding find_node.simps(2)
    by (auto simp: found_under_def simp del: map_of_eq_Some_iff split: option.splits)
  then show ?case
  proof cases
    case lit
    then show ?thesis using "2.IH"(1)[OF lit] set_trie_child(1)[OF lit(1)] by blast
  next
    case par
    then show ?thesis using "2.IH"(2)[OF par(2,1)] unfolding set_trie_node[of node] by blast
  next
    case wild
    then have "p \<in> set_trie w"
      by (auto simp: leaf_payload_def intro: set_trie_child(4) simp del: map_of_eq_Some_iff split: option.splits if_splits)
    then show ?thesis using set_trie_child(3)[OF wild(1)] by blast
  qed
next
  case (3 seg nxt meth)
  then show ?case by simp
next
  case (4 kc kcs seg nxt meth)
  show ?case
  proof (cases "find_node (snd kc) nxt meth")
    case None
    then have f: "found_under (Par (fst kc)) [(fst kc, seg)] (find_node (snd kc) nxt meth) = None" by (simp add: found_under_def)
    then have "find_params kcs seg nxt meth = Some (p, b, ps)" using "4.prems" by simp
    then show ?thesis using "4.IH"(2)[OF f] by auto
  next
    case (Some x)
    obtain p' b' ps' where x: "x = (p', b', ps')" by (metis prod.exhaust)
    then have "p' = p" using "4.prems" Some by (simp add: found_under_def)
    then show ?thesis using "4.IH"(1) Some x by auto
  qed
qed

text \<open>The registry after any list of registrations, of which some may have failed.\<close>

definition registry_run ::
    "('z \<Rightarrow> vsource \<Rightarrow> jsval \<Rightarrow> vresult) \<Rightarrow> registry_options \<Rightarrow> 'z app_route list \<Rightarrow> 'z registry \<Rightarrow> 'z registry" where
  "registry_run build ro ds rg = fold (\<lambda>d rg. snd (registry_register build ro d rg)) ds rg"

definition known :: "'z registry \<Rightarrow> 'z app_route \<Rightarrow> bool" where
  "known rg r \<longleftrightarrow> r \<in> set (rg_routes rg) \<and> map_of (rg_compiled rg) (rd_oid r) \<noteq> None
     \<and> (rx_schema (rd_ext r) \<noteq> None \<longrightarrow> map_of (rg_validator rg) (route_id r) \<noteq> None)"

definition registry_ok :: "'z registry \<Rightarrow> bool" where
  "registry_ok rg \<longleftrightarrow> (\<forall>r \<in> set_trie (root (rg_router rg)). known rg r)"

lemma router_register_payload:
  "set_trie (root (snd (router_register d R))) \<subseteq> (if fst (router_register d R) = None then {d} else {}) \<union> set_trie (root R)"
  using trie_insert_payload[of d "start_rest (rt_path d)" "root R"]
  by (auto simp: router_register_def register_walk_def Let_def split: option.splits prod.splits if_splits)

lemma check_schema_same:
  "check_schema ro d rg = (t, rg1) \<Longrightarrow> rg_router rg1 = rg_router rg \<and> rg_routes rg1 = rg_routes rg \<and> rg_compiled rg1 = rg_compiled rg
     \<and> rg_validator rg1 = rg_validator rg"
  by (auto simp: check_schema_def split: if_splits)

lemma validation_compile_keeps:
  "map_of vs k \<noteq> None \<Longrightarrow> map_of (validation_compile build i s vs) k \<noteq> None"
  "map_of (validation_compile build i s vs) i \<noteq> None"
  by (simp_all add: validation_compile_def)

text \<open>What a registration changes besides the router and the routes.\<close>

definition compiled_with :: "('z \<Rightarrow> vsource \<Rightarrow> jsval \<Rightarrow> vresult) \<Rightarrow> registry_options \<Rightarrow> 'z app_route \<Rightarrow> 'z registry \<Rightarrow> 'z registry" where
  "compiled_with build ro d rg =
     (let rg2 = (case rx_schema (rd_ext d) of
                   Some s \<Rightarrow> rg\<lparr>rg_validator := validation_compile build (route_id d) s (rg_validator rg)\<rparr> | None \<Rightarrow> rg)
      in rg2\<lparr>rg_compiled := AList.update (rd_oid d)
               \<lparr> ct_pipeline = compile_pipeline ro d, ct_has_response_schema = has_response_schema d \<rparr> (rg_compiled rg2)\<rparr>)"

lemma registry_register_eq:
  "registry_register build ro d rg =
     (case check_schema ro d rg of
        (Some t, rg1) \<Rightarrow> (Some t, rg1)
      | (None, rg1) \<Rightarrow>
          (case router_register d (rg_router rg1) of
             (Some e, R) \<Rightarrow> (Some (router_thrown e), (compiled_with build ro d rg1)\<lparr>rg_router := R\<rparr>)
           | (None, R) \<Rightarrow> (None, (compiled_with build ro d rg1)\<lparr>rg_router := R, rg_routes := rg_routes rg1 @ [d]\<rparr>)))"
  by (simp add: registry_register_def compiled_with_def Let_def split: option.splits prod.splits)

lemma compiled_with_known:
  "map_of (rg_compiled rg) i \<noteq> None \<Longrightarrow> map_of (rg_compiled (compiled_with build ro d rg)) i \<noteq> None"
  "map_of (rg_compiled (compiled_with build ro d rg)) (rd_oid d) \<noteq> None"
  "map_of (rg_validator rg) k \<noteq> None \<Longrightarrow> map_of (rg_validator (compiled_with build ro d rg)) k \<noteq> None"
  "rx_schema (rd_ext d) \<noteq> None \<Longrightarrow> map_of (rg_validator (compiled_with build ro d rg)) (route_id d) \<noteq> None"
  "rg_routes (compiled_with build ro d rg) = rg_routes rg"
  by (auto simp: compiled_with_def validation_compile_def Let_def split: option.splits)

lemma registry_ok_register:
  assumes "registry_ok rg"
  shows "registry_ok (snd (registry_register build ro d rg))"
proof -
  obtain t rg1 where c: "check_schema ro d rg = (t, rg1)" by force
  note same = check_schema_same[OF c]
  have ok1: "registry_ok rg1" using assms same by (simp add: registry_ok_def known_def)
  obtain e R where r: "router_register d (rg_router rg1) = (e, R)" by force
  have pay: "set_trie (root R) \<subseteq> (if e = None then {d} else {}) \<union> set_trie (root (rg_router rg1))"
    using router_register_payload[of d "rg_router rg1"] by (simp add: r)
  have old: "known (rg'\<lparr>rg_router := R\<rparr>) x"
    if "x \<in> set_trie (root (rg_router rg1))" "rg' = compiled_with build ro d rg1 \<or> rg' = (compiled_with build ro d rg1)\<lparr>rg_routes := rg_routes rg1 @ [d]\<rparr>" for x rg'
  proof -
    have "known rg1 x" using ok1 that(1) by (simp add: registry_ok_def)
    then show ?thesis using that(2) compiled_with_known(1)[of rg1 "rd_oid x" build ro d]
        compiled_with_known(3)[of rg1 "route_id x" build ro d] compiled_with_known(5)[of build ro d rg1]
      unfolding known_def by (elim disjE conjE) simp_all
  qed
  show ?thesis
  proof (cases t)
    case (Some th)
    then show ?thesis using ok1 by (simp add: registry_register_eq c)
  next
    case None
    show ?thesis
    proof (cases e)
      case (Some er)
      then have "snd (registry_register build ro d rg) = (compiled_with build ro d rg1)\<lparr>rg_router := R\<rparr>"
        by (simp add: registry_register_eq c None r)
      then show ?thesis using pay old Some by (auto simp: registry_ok_def)
    next
      case no: None
      let ?rg' = "(compiled_with build ro d rg1)\<lparr>rg_router := R, rg_routes := rg_routes rg1 @ [d]\<rparr>"
      have s: "snd (registry_register build ro d rg) = ?rg'" by (simp add: registry_register_eq c None r no)
      have "known ?rg' d" using compiled_with_known(2)[of build ro d rg1] compiled_with_known(4)[of d build ro rg1]
        by (auto simp: known_def)
      moreover have "known ?rg' x" if "x \<in> set_trie (root (rg_router rg1))" for x
        using old[OF that disjI2[OF refl]] by (simp add: known_def)
      ultimately show ?thesis using pay no unfolding s registry_ok_def by auto
    qed
  qed
qed

text \<open>The framework bug of \<open>getCompiledState\<close> never occurs: after any registrations, failed ones included,
  every route that lookup can return is in the list of routes, has a compiled pipeline under its
  identity, and its schema, if it has one, is known to the validator under its route identifier.\<close>

theorem registered_routes_compiled:
  assumes "fst (router_lookup meth path out (rg_router (registry_run build ro ds (new_registry mode)))) = Matched r ps"
  shows "r \<in> set (rg_routes (registry_run build ro ds (new_registry mode)))
    \<and> map_of (rg_compiled (registry_run build ro ds (new_registry mode))) (rd_oid r) \<noteq> None
    \<and> (rx_schema (rd_ext r) \<noteq> None \<longrightarrow> map_of (rg_validator (registry_run build ro ds (new_registry mode))) (route_id r) \<noteq> None)"
proof -
  have "registry_ok (registry_run build ro ds rg)" if "registry_ok rg" for rg
    using that unfolding registry_run_def by (induction ds arbitrary: rg) (simp_all add: registry_ok_register)
  moreover have "registry_ok (new_registry mode)" by (simp add: registry_ok_def new_registry_def new_router_def)
  ultimately have ok: "registry_ok (registry_run build ro ds (new_registry mode))" by blast
  obtain b qs where "find_node (root (rg_router (registry_run build ro ds (new_registry mode)))) (start_rest path) meth = Some (r, b, qs)"
    using assms unfolding Matched_find by blast
  from find_node_payload(1)[OF this] ok show ?thesis by (simp add: registry_ok_def known_def)
qed

definition demo_app_route :: "nat \<Rightarrow> bool \<Rightarrow> bool app_route" where
  "demo_app_route i z = \<lparr> rt_method = GET, rt_path = ''/a'', rd_oid = i, rd_ext = \<lparr>
     rx_schema = Some \<lparr> sc_body = Some z, sc_query = None, sc_params = None, sc_response = None \<rparr>,
     rx_plugins = None, rx_timeout = None, rx_handler = 7, rx_ignore_schema = False \<rparr> \<rparr>"

definition demo_build :: "bool \<Rightarrow> vsource \<Rightarrow> jsval \<Rightarrow> vresult" where
  "demo_build z src x = (if z then Valid x else Invalid [(''body'', ''no'')])"

definition demo_options :: registry_options where
  "demo_options = \<lparr> ro_timeout = 0, ro_telemetry = False, ro_strict_schema = False \<rparr>"

definition demo_registry :: "bool registry" where
  "demo_registry = registry_run demo_build demo_options [demo_app_route 1 True] (new_registry None)"

theorem registered_routes_compiled_witness:
  "\<exists>r ps. fst (router_lookup GET ''/a'' [] (rg_router demo_registry)) = Matched r ps
     \<and> map_of (rg_compiled demo_registry) (rd_oid r) \<noteq> None"
proof -
  have "(case fst (router_lookup GET ''/a'' [] (rg_router demo_registry)) of Matched r ps \<Rightarrow> rd_oid r = 1 | _ \<Rightarrow> False)"
    by code_simp
  then obtain r ps where "fst (router_lookup GET ''/a'' [] (rg_router demo_registry)) = Matched r ps"
    by (auto split: lookup_result.splits)
  then show ?thesis using registered_routes_compiled[of GET "''/a''" "[]" demo_build demo_options "[demo_app_route 1 True]" None r ps]
    unfolding demo_registry_def by blast
qed

subsection \<open>A registration that fails\<close>

text \<open>A registration the router rejects leaves the routes as they are but has already replaced the schema
  under its route identifier: an existing route with the same method and path is validated by the
  schema of the rejected definition from then on.\<close>

theorem failed_registration_replaces_schema:
  assumes "rx_schema (rd_ext d) = Some z" "fst (router_register d (rg_router rg)) = Some e"
  shows "fst (registry_register build ro d rg) = Some (router_thrown e)
    \<and> rg_routes (snd (registry_register build ro d rg)) = rg_routes rg
    \<and> validation_execute (rg_validator (snd (registry_register build ro d rg))) (route_id d)
      = validation_execute (validation_compile build (route_id d) z []) (route_id d)"
proof -
  obtain R where r: "router_register d (rg_router rg) = (Some e, R)" using assms(2) by (cases "router_register d (rg_router rg)") auto
  have c: "check_schema ro d rg = (None, rg)" using assms(1) by (simp add: check_schema_def)
  show ?thesis
    by (simp add: registry_register_eq c r compiled_with_def assms(1) Let_def fun_eq_iff validation_execute_def validation_compile_def)
qed

theorem failed_registration_replaces_schema_witness:
  "rg_routes (snd (registry_register demo_build demo_options (demo_app_route 2 False) demo_registry)) = rg_routes demo_registry
   \<and> fst (validation_execute (rg_validator demo_registry) ''GET:/a'' (demo_request GET ''/a'')) = None
   \<and> fst (validation_execute (rg_validator (snd (registry_register demo_build demo_options (demo_app_route 2 False) demo_registry)))
       ''GET:/a'' (demo_request GET ''/a'')) \<noteq> None"
proof -
  have z: "rx_schema (rd_ext (demo_app_route 2 False)) = Some \<lparr> sc_body = Some False, sc_query = None, sc_params = None, sc_response = None \<rparr>"
    "route_id (demo_app_route 2 False) = ''GET:/a''"
    by (simp_all add: demo_app_route_def route_id_def method_name_def)
  have e: "(case fst (router_register (demo_app_route 2 False) (rg_router demo_registry)) of None \<Rightarrow> False | Some e \<Rightarrow> True)" by code_simp
  then obtain e where e': "fst (router_register (demo_app_route 2 False) (rg_router demo_registry)) = Some e"
    by (auto split: option.splits)
  have old: "(case fst (validation_execute (rg_validator demo_registry) ''GET:/a'' (demo_request GET ''/a'')) of None \<Rightarrow> True | Some _ \<Rightarrow> False)"
    by code_simp
  have new: "(case fst (validation_execute (validation_compile demo_build ''GET:/a''
      \<lparr> sc_body = Some False, sc_query = None, sc_params = None, sc_response = None \<rparr> []) ''GET:/a'' (demo_request GET ''/a'')) of None \<Rightarrow> False | Some _ \<Rightarrow> True)"
    by code_simp
  show ?thesis using failed_registration_replaces_schema[OF z(1) e', of demo_build demo_options] old new
    unfolding z(2) by (auto split: option.splits)
qed

subsection \<open>Module dependencies\<close>

lemma fold_self_edges:
  "list_all (\<lambda>d. d = n \<or> map_of [(n, m)] d = None) ds \<Longrightarrow>
   fold (add_edge [(n, m)] n) ds ([(n, int k)], [(n, replicate k n)])
     = ([(n, int (k + count_list ds n))], [(n, replicate (k + count_list ds n) n)])"
proof (induction ds arbitrary: k)
  case (Cons d ds)
  show ?case
  proof (cases "d = n")
    case True
    then have "fold (add_edge [(n, m)] n) (d # ds) ([(n, int k)], [(n, replicate k n)])
        = fold (add_edge [(n, m)] n) ds ([(n, int (Suc k))], [(n, replicate (Suc k) n)])"
      by (simp add: add_edge_def get_or_def replicate_append_same add.commute)
    then show ?thesis using Cons.IH[of "Suc k"] Cons.prems True by simp
  next
    case False
    then have "fold (add_edge [(n, m)] n) (d # ds) ([(n, int k)], [(n, replicate k n)])
        = fold (add_edge [(n, m)] n) ds ([(n, int k)], [(n, replicate k n)])"
      by (simp add: add_edge_def)
    then show ?thesis using Cons.IH[of k] Cons.prems False by simp
  qed
qed simp

text \<open>What the resolution of module dependencies does: the traversal only ever sees the module that was
  passed, so a dependency that is not registered yet is an error (the first such), a module that
  names itself is the only cycle that is found, and otherwise the result is the module alone.
  Nothing is ever ordered, and the sort needs no more than one round.\<close>

theorem resolve_module_deps_spec:
  "resolve_module_deps (Suc fuel) registered m =
     Some (case filter (\<lambda>d. d \<noteq> am_name m \<and> d \<notin> set registered) (module_deps m) of
             d # _ \<Rightarrow> Inl (missing_dep (am_name m) d)
           | [] \<Rightarrow> if am_name m \<in> set (module_deps m) then Inl (cycle_error [am_name m]) else Inr [m])"
proof -
  let ?n = "am_name m"
  have f: "filter (\<lambda>d. map_of [(?n, m)] d = None \<and> d \<notin> set registered) (module_deps m)
      = filter (\<lambda>d. d \<noteq> ?n \<and> d \<notin> set registered) (module_deps m)"
    by (intro filter_cong) auto
  show ?thesis
  proof (cases "filter (\<lambda>d. d \<noteq> ?n \<and> d \<notin> set registered) (module_deps m)")
    case (Cons d ds)
    then show ?thesis by (simp add: resolve_module_deps_def Let_def f del: map_of.simps)
  next
    case Nil
    have c: "collect_modules registered [m] [] = Inr [(?n, m)]" by (simp add: Let_def f Nil del: map_of.simps(2))
    have "list_all (\<lambda>d. d = ?n \<or> map_of [(?n, m)] d = None) (module_deps m)" by (simp add: list_all_iff)
    from fold_self_edges[OF this, of 0] have g: "build_graph [(?n, m)]
        = ([(?n, int (count_list (module_deps m) ?n))], [(?n, replicate (count_list (module_deps m) ?n) ?n)])"
      by (simp add: build_graph_def)
    show ?thesis
    proof (cases "?n \<in> set (module_deps m)")
      case True
      then have "count_list (module_deps m) ?n \<noteq> 0" by (simp add: count_list_0_iff)
      then show ?thesis using True Nil by (simp only: resolve_module_deps_def c g sum.case prod.case) (simp add: get_or_def)
    next
      case False
      then have "count_list (module_deps m) ?n = 0" by (simp add: count_list_0_iff)
      then show ?thesis using False Nil by (simp only: resolve_module_deps_def c g sum.case prod.case) (simp add: get_or_def release_deps_def)
    qed
  qed
qed

subsection \<open>Prefixes\<close>

lemma piece_rests_suffix: "r \<in> set (piece_rests p s) \<Longrightarrow> \<exists>x. s = x @ r"
proof -
  have w: "r \<in> set (rests_while P s) \<Longrightarrow> \<exists>x. s = x @ r" for P s r
  proof (induction s)
    case (Cons c s)
    then show ?case by (auto split: if_splits intro: exI[of _ "[]"]) (metis append_Cons)?
  qed simp
  show "r \<in> set (piece_rests p s) \<Longrightarrow> \<exists>x. s = x @ r"
    using w by (auto simp: piece_rests_def starts_with_def prefix_def split: if_splits list.splits)
      (metis append_Cons)
qed

lemma match_pieces_trailing:
  "match_pieces (ps @ [[]]) s \<Longrightarrow> ps \<noteq> [] \<Longrightarrow> \<exists>x r. s = x @ CHR ''/'' # r \<and> (r = [] \<or> hd r = CHR ''/'')"
proof (induction ps arbitrary: s)
  case (Cons p ps)
  obtain q qs where q: "ps @ [[]] = q # qs" by (cases "ps @ [[]]") auto
  then obtain r where r: "CHR ''/'' # r \<in> set (piece_rests p s)" "match_pieces (ps @ [[]]) r"
  proof -
    obtain y where y: "y \<in> set (piece_rests p s)" "case y of c # r' \<Rightarrow> c = CHR ''/'' \<and> match_pieces (q # qs) r' | [] \<Rightarrow> False"
      using Cons.prems(1) q by (auto simp: list_ex_iff)
    show thesis
    proof (cases y)
      case (Cons c r')
      then show thesis using y q by (intro that[of r']) auto
    qed (use y(2) in simp)
  qed
  obtain x where x: "s = x @ CHR ''/'' # r" using piece_rests_suffix[OF r(1)] by blast
  show ?case
  proof (cases "ps = []")
    case True
    then have "r = [] \<or> hd r = CHR ''/''" using r(2) by (auto simp: piece_rests_def starts_with_def split: if_splits)
    then show ?thesis using x by blast
  next
    case False
    from Cons.IH[OF r(2) False] obtain y t where "r = y @ CHR ''/'' # t" "t = [] \<or> hd t = CHR ''/''" by blast
    then show ?thesis using x by (intro exI[of _ "x @ CHR ''/'' # y"] exI[of _ t]) simp
  qed
qed simp

lemma collapse_no_double: "\<not> sublist ''//'' (collapse_slashes s)"
proof (induction s rule: collapse_slashes.induct)
  case (1 a b s)
  have h: "\<exists>t. collapse_slashes (b # s) = b # t" for b s
  proof (induction s arbitrary: b)
    case (Cons c s)
    then show ?case by (cases "b = CHR ''/'' \<and> c = CHR ''/''") auto
  qed simp
  obtain t where t: "collapse_slashes (b # s) = b # t" using h by blast
  show ?case using 1 t by (auto simp: sublist_Cons_right prefix_def)
qed (auto simp: sublist_Cons_right)

lemma join_route_path_normal:
  "\<not> sublist ''//'' (join_route_path p q) \<and> (join_route_path p q = ''/'' \<or> \<not> ends_with (join_route_path p q) ''/'')"
proof -
  let ?s = "collapse_slashes (p @ q)"
  have n: "\<not> sublist ''//'' ?s" by (rule collapse_no_double)
  show ?thesis
  proof (cases "ends_with ?s ''/''")
    case True
    then obtain x where x: "?s = x @ ''/''" by (auto simp: ends_with_def suffix_def)
    have "\<not> ends_with x ''/''"
    proof
      assume "ends_with x ''/''"
      then have "?s = butlast x @ ''//'' @ []" using x by (auto simp: ends_with_def suffix_def)
      then show False using n by (auto simp: sublist_def)
    qed
    moreover have "\<not> sublist ''//'' x" using n x by (auto simp: sublist_def) (metis append.assoc)
    moreover have "\<not> sublist ''//'' ''/''" by (auto simp: sublist_Cons_right)
    ultimately show ?thesis using True x by (simp add: join_route_path_def Let_def)
  next
    case False
    have "\<not> sublist ''//'' ''/''" by (auto simp: sublist_Cons_right)
    then show ?thesis using False n by (simp add: join_route_path_def Let_def)
  qed
qed

text \<open>A group whose prefix ends in a slash (other than the root) registers its routes under normal paths,
  without doubled or trailing slashes, and its prefix-scoped hooks (\<open>onRequest\<close>, \<open>onError\<close>, \<open>onClose\<close>)
  never run for such a path.\<close>

theorem trailing_slash_hooks_dead:
  assumes "p \<noteq> []" "join_route_path (p @ ''/'') q \<noteq> ''/''"
  shows "\<not> prefix_matches (p @ ''/'') (join_route_path (p @ ''/'') q)"
proof
  let ?s = "join_route_path (p @ ''/'') q"
  assume m: "prefix_matches (p @ ''/'') ?s"
  have "split_on (CHR ''/'') (p @ ''/'') = split_on (CHR ''/'') p @ [[]]"
  proof (induction p)
    case (Cons c p)
    obtain y ys where "split_on (CHR ''/'') p = y # ys" by (cases "split_on (CHR ''/'') p") (use split_on_nonempty in auto)
    then show ?case using Cons by auto
  qed simp
  then have "match_pieces (split_on (CHR ''/'') p @ [[]]) ?s" using m assms(1) by (simp add: prefix_matches_def split: if_splits)
  from match_pieces_trailing[OF this] obtain x r where s: "?s = x @ CHR ''/'' # r" "r = [] \<or> hd r = CHR ''/''" by auto
  show False
  proof (cases r)
    case Nil
    then have "ends_with ?s ''/''" using s(1) by (auto simp: ends_with_def suffix_def)
    then show False using join_route_path_normal[of "p @ ''/''" q] assms(2) by blast
  next
    case (Cons c t)
    then have "?s = x @ ''//'' @ t" using s by simp
    then have "sublist ''//'' ?s" unfolding sublist_def by blast
    then show False using join_route_path_normal[of "p @ ''/''" q] by blast
  qed
qed

theorem trailing_slash_hooks_dead_witness:
  "join_route_path ''/api/'' ''/users'' = ''/api/users'' \<and> \<not> prefix_matches ''/api/'' ''/api/users'' \<and> prefix_matches ''/api'' ''/api/users''"
proof -
  have j: "join_route_path ''/api/'' ''/users'' = ''/api/users''" by code_simp
  moreover have "prefix_matches ''/api'' ''/api/users''" by code_simp
  ultimately show ?thesis using trailing_slash_hooks_dead[of "''/api''" "''/users''"] by simp
qed

subsection \<open>Sealing\<close>

lemma bootstrap_same [simp]:
  "ap_services (bootstrap a) = ap_services a" "ap_registry (bootstrap a) = ap_registry a" "ap_serializer (bootstrap a) = ap_serializer a"
  "ap_locked (bootstrap a) = ap_locked a" "ap_bootstrapped (bootstrap a)" "ap_members (bootstrap a) = ap_members a"
  "ap_groups (bootstrap a) = ap_groups a" "ap_next_oid (bootstrap a) = ap_next_oid a"
  by (simp_all add: bootstrap_def seal_vault_def split: option.splits service.splits)

lemma app_route_same:
  "ap_services (snd (app_route env d a)) = ap_services a" "ap_bootstrapped (snd (app_route env d a)) = ap_bootstrapped a"
  "ap_serializer (snd (app_route env d a)) = ap_serializer a" "ap_locked (snd (app_route env d a)) = ap_locked a"
  "ap_locked a \<Longrightarrow> ap_registry (snd (app_route env d a)) = ap_registry a"
  "ap_members (snd (app_route env d a)) = ap_members a" "ap_groups (snd (app_route env d a)) = ap_groups a"
  "ap_next_oid a \<le> ap_next_oid (snd (app_route env d a))"
  "\<not> ap_locked a \<Longrightarrow> rd_oid d < ap_next_oid (snd (app_route env d a))"
  by (auto simp: app_route_def split: prod.splits)

lemmas app_op_defs = app_ws_def add_hook_def provide_def lock_routes_def set_serializer_def set_not_found_handler_def
  set_method_not_allowed_handler_def app_group_new_def create_group_def group_use_def group_route_def group_ws_def
  group_group_def group_add_hook_def Let_def

definition preserved :: "'z app \<Rightarrow> 'z app \<Rightarrow> bool" where
  "preserved a a' \<longleftrightarrow> (\<forall>t v. map_of (ap_services a) t = Some v \<longrightarrow> map_of (ap_services a') t = Some v)
     \<and> (ap_bootstrapped a \<longrightarrow> ap_services a' = ap_services a \<and> ap_bootstrapped a')
     \<and> (ap_locked a \<longrightarrow> ap_registry a' = ap_registry a \<and> ap_serializer a' = ap_serializer a \<and> ap_locked a')"

lemma step_preserved: "app_step env a a' \<Longrightarrow> preserved a a'"
  by (cases rule: app_step.cases, assumption)
     (auto simp: preserved_def app_op_defs app_route_same simp del: map_of_eq_Some_iff)

text \<open>Provision, bootstrap and lock are final. Whatever an application goes through: a service that was
  provided keeps its value, after \<open>listen\<close>, \<open>build\<close> or the adapter's lock no service is added, and
  after the lock the routes, their compiled pipelines, the router, the validator and the serializer stay
  as they are.\<close>

theorem app_sealing:
  assumes "app_steps env a a'"
  shows "(\<forall>t v. map_of (ap_services a) t = Some v \<longrightarrow> map_of (ap_services a') t = Some v)
    \<and> (ap_bootstrapped a \<longrightarrow> ap_services a' = ap_services a)
    \<and> (ap_locked a \<longrightarrow> ap_registry a' = ap_registry a \<and> ap_serializer a' = ap_serializer a)"
proof -
  have "preserved a a'"
    using assms
  proof (induction rule: app_steps.induct)
    case steps_refl
    then show ?case by (simp add: preserved_def)
  next
    case (steps_step b c)
    then show ?case using step_preserved[OF steps_step(2)] unfolding preserved_def by simp
  qed
  then show ?thesis unfolding preserved_def by blast
qed

definition demo_env :: "bool app_env" where
  "demo_env = \<lparr> ae_build = demo_build, ae_options = demo_options \<rparr>"

definition demo_app :: "bool app" where
  "demo_app = snd (lock_routes True None (snd (app_route demo_env (demo_app_route 1 True) (snd (provide ''db'' (Service 5) (new_app None))))))"

theorem app_sealing_witness:
  "map_of (ap_services demo_app) ''db'' = Some (Service 5)
     \<and> ap_registry (snd (app_route demo_env (demo_app_route 2 True) demo_app)) = ap_registry demo_app
     \<and> fst (provide ''x'' UndefinedService demo_app) \<noteq> None"
proof -
  let ?p = "snd (provide ''db'' (Service 5) (new_app None))"
  have s: "app_steps demo_env ?p demo_app"
    unfolding demo_app_def by (rule steps_step[OF steps_step[OF steps_refl app_step.intros(1)] app_step.intros(6)])
  have "map_of (ap_services ?p) ''db'' = Some (Service 5)" by code_simp
  then have 1: "map_of (ap_services demo_app) ''db'' = Some (Service 5)" using app_sealing[OF s] by blast
  have "ap_locked demo_app" "fst (provide ''x'' UndefinedService demo_app) \<noteq> None" by code_simp+
  moreover have "app_steps demo_env demo_app (snd (app_route demo_env (demo_app_route 2 True) demo_app))"
    by (rule steps_step[OF steps_refl app_step.intros(1)])
  ultimately show ?thesis using 1 app_sealing by blast
qed

subsection \<open>Hooks of groups\<close>

text \<open>Identities are not reused, and a group keeps the chain of its enclosing groups.\<close>

definition members_old :: "'z app \<Rightarrow> bool" where
  "members_old a \<longleftrightarrow> (\<forall>(g, i) \<in> set (ap_members a). i < ap_next_oid a)"

definition scope_stable :: "'z app \<Rightarrow> 'z app \<Rightarrow> bool" where
  "scope_stable a a' \<longleftrightarrow> ap_next_oid a \<le> ap_next_oid a' \<and> length (ap_groups a) \<le> length (ap_groups a')
     \<and> (\<forall>g < length (ap_groups a). gp_scopes (ap_groups a' ! g) = gp_scopes (ap_groups a ! g))
     \<and> (\<forall>g i. i < ap_next_oid a \<longrightarrow> (g, i) \<in> set (ap_members a') \<longleftrightarrow> (g, i) \<in> set (ap_members a))"

lemma step_scope: "app_step env a a' \<Longrightarrow> scope_stable a a'"
  by (cases rule: app_step.cases, assumption)
     (auto simp: scope_stable_def app_op_defs app_route_same group_route_def_def group_of_def nth_append nth_list_update
        intro: order_trans[OF _ app_route_same(8)] le_SucI)

lemma members_old_route: "members_old a \<Longrightarrow> members_old (snd (app_route env d a))"
  unfolding members_old_def app_route_same using less_le_trans[OF _ app_route_same(8)] by blast

lemma step_members_old: "app_step env a a' \<Longrightarrow> members_old a \<Longrightarrow> members_old a'"
proof (induction rule: app_step.cases)
  case (12 a g d)
  then show ?case unfolding group_route_def Let_def
    by (auto intro!: members_old_route) (force simp: members_old_def group_route_def_def)
qed (auto simp: members_old_route, auto simp: members_old_def app_op_defs)

lemma scope_stable_trans: "scope_stable a b \<Longrightarrow> scope_stable b c \<Longrightarrow> scope_stable a c"
  unfolding scope_stable_def by (intro conjI allI impI) (auto intro: order_trans less_le_trans)

lemma steps_scope: "app_steps env a a' \<Longrightarrow> scope_stable a a'"
proof (induction rule: app_steps.induct)
  case (steps_step b c)
  then show ?case using scope_stable_trans[OF steps_step(3) step_scope[OF steps_step(2)]] by simp
qed (simp add: scope_stable_def)

lemma steps_members_old: "app_steps env a a' \<Longrightarrow> members_old a \<Longrightarrow> members_old a'"
  by (induction rule: app_steps.induct) (auto intro: step_members_old)

text \<open>A handler hook of a group runs for exactly the routes of that group and of the groups within it.
  Take an application however it was assembled, register a route through a group, and go on in any
  way: a hook of a group \<open>h\<close> runs for that route exactly when \<open>h\<close> is the registering group or encloses it.\<close>

theorem group_hooks_scoped:
  assumes "app_steps env (new_app mode) a" "g < length (ap_groups a)"
    and "app_steps env (snd (group_route env g d a)) a'"
  shows "hook_fires a' path (Some (rd_oid (group_route_def g d a))) (MemberHook h f) \<longleftrightarrow> h \<in> set (gp_scopes (group_of g a))"
proof -
  let ?i = "ap_next_oid a" and ?b = "snd (group_route env g d a)"
  have "members_old (new_app mode)" by (simp add: members_old_def new_app_def)
  from steps_members_old[OF assms(1) this] have new: "(h, ?i) \<notin> set (ap_members a)"
    by (auto simp: members_old_def)
  have "Suc ?i \<le> ap_next_oid ?b"
    unfolding group_route_def Let_def by (rule order_trans[OF _ app_route_same(8)]) simp
  then have "(h, ?i) \<in> set (ap_members a') \<longleftrightarrow> (h, ?i) \<in> set (ap_members ?b)"
    using steps_scope[OF assms(3)] by (simp add: scope_stable_def)
  also have "\<dots> \<longleftrightarrow> h \<in> set (gp_scopes (group_of g a))"
    using new by (auto simp: group_route_def Let_def app_route_same group_route_def_def)
  finally show ?thesis by (simp add: hook_fires_def group_route_def_def)
qed

definition demo_groups :: "bool app" where
  "demo_groups = snd (group_group 0 ''/b'' None (snd (app_group_new ''/c'' None (snd (app_group_new ''/a'' None (new_app None))))))"

theorem group_hooks_scoped_witness:
  "let a = snd (group_route demo_env 2 (demo_app_route 0 True) demo_groups)
   in hook_fires a ''/a/b/a'' (Some 0) (MemberHook 0 7) \<and> \<not> hook_fires a ''/a/b/a'' (Some 0) (MemberHook 1 7)"
proof -
  have s: "app_steps demo_env (new_app None) demo_groups"
    unfolding demo_groups_def
    by (rule steps_step[OF steps_step[OF steps_step[OF steps_refl app_step.intros(10)] app_step.intros(10)] app_step.intros(14)])
       (simp add: app_op_defs)
  have "2 < length (ap_groups demo_groups)" "gp_scopes (group_of 2 demo_groups) = [0, 2]"
    "rd_oid (group_route_def 2 (demo_app_route 0 True) demo_groups) = 0" by code_simp+
  then show ?thesis
    using group_hooks_scoped[OF s _ steps_refl, of 2 "demo_app_route 0 True"] by (simp add: Let_def)
qed

end
