(* ===== verification/Jwt.thy ===== *)
theory Jwt
  imports Native_Response
begin

text \<open>
  \<open>packages/auth/src/jwt.ts\<close>: signing and verifying JSON Web Tokens, with the checks against algorithm
  confusion. Parameters: node's \<open>crypto\<close> functions (the record \<open>crypto\<close>; a key is an opaque object of
  which the code reads type, size and curve) and \<open>parse\<close>, the value \<open>JSON.parse\<close> gives for the UTF-8
  bytes of a text (\<open>None\<close>: it throws). Bytes are characters; the numbers in claims are integers.
\<close>

subsection \<open>Algorithms\<close>

datatype alg_family = Hmac | Rsa | Ec

record alg_spec =
  sp_family :: "alg_family option"
  sp_hash :: "string option"
  sp_curve :: "string option"

definition jwt_algorithms :: "(string, alg_spec) jsmap" where
  "jwt_algorithms =
     [(''HS256'', \<lparr> sp_family = Some Hmac, sp_hash = Some ''sha256'', sp_curve = None \<rparr>),
      (''HS384'', \<lparr> sp_family = Some Hmac, sp_hash = Some ''sha384'', sp_curve = None \<rparr>),
      (''HS512'', \<lparr> sp_family = Some Hmac, sp_hash = Some ''sha512'', sp_curve = None \<rparr>),
      (''RS256'', \<lparr> sp_family = Some Rsa, sp_hash = Some ''sha256'', sp_curve = None \<rparr>),
      (''RS384'', \<lparr> sp_family = Some Rsa, sp_hash = Some ''sha384'', sp_curve = None \<rparr>),
      (''RS512'', \<lparr> sp_family = Some Rsa, sp_hash = Some ''sha512'', sp_curve = None \<rparr>),
      (''ES256'', \<lparr> sp_family = Some Ec, sp_hash = Some ''sha256'', sp_curve = Some ''prime256v1'' \<rparr>),
      (''ES384'', \<lparr> sp_family = Some Ec, sp_hash = Some ''sha384'', sp_curve = Some ''secp384r1'' \<rparr>)]"

text \<open>The table is an object literal, so \<open>in\<close> and indexing also see what it inherits; those values have
  neither a family nor a hash nor a curve.\<close>

definition object_prototype :: "string list" where
  "object_prototype = [''constructor'', ''__defineGetter__'', ''__defineSetter__'', ''hasOwnProperty'',
     ''__lookupGetter__'', ''__lookupSetter__'', ''isPrototypeOf'', ''propertyIsEnumerable'', ''toString'',
     ''valueOf'', ''__proto__'', ''toLocaleString'']"

definition spec_of_alg :: "string \<Rightarrow> alg_spec option" where
  "spec_of_alg alg =
     (case map_of jwt_algorithms alg of
        Some s \<Rightarrow> Some s
      | None \<Rightarrow> if alg \<in> set object_prototype
                then Some \<lparr> sp_family = None, sp_hash = None, sp_curve = None \<rparr> else None)"

definition alg_is :: "alg_family \<Rightarrow> string \<Rightarrow> bool" where
  "alg_is f alg = (case spec_of_alg alg of Some s \<Rightarrow> sp_family s = Some f | None \<Rightarrow> False)"

text \<open>What is thrown: the three errors of this file, which the plugins answer with 401, or anything else.\<close>

datatype jwt_thrown = JwtError string | JwtExpired string int | JwtNotBefore string int | OtherThrown thrown

definition none_alg :: "string \<Rightarrow> bool" where
  "none_alg alg \<longleftrightarrow> to_lower alg = ''none''"

fun allowlist_loop :: "string list \<Rightarrow> string list \<Rightarrow> jwt_thrown + string list" where
  "allowlist_loop [] out = Inr out"
| "allowlist_loop (alg # algs) out =
     (if none_alg alg then
        Inl (OtherThrown (plain_error ''[axiomify/auth] The \"none\" algorithm is not permitted and cannot be allowlisted''))
      else if spec_of_alg alg = None then
        Inl (OtherThrown (plain_error (''[axiomify/auth] Unsupported JWT algorithm \"'' @ alg @ ''\"'')))
      else allowlist_loop algs (out @ [alg]))"

definition validate_algorithm_allowlist :: "string list \<Rightarrow> jwt_thrown + string list" where
  "validate_algorithm_allowlist algs =
     (if algs = [] then
        Inl (OtherThrown (plain_error ''[axiomify/auth] An explicit, non-empty algorithm allowlist is required''))
      else allowlist_loop algs [])"

subsection \<open>Encoding\<close>

text \<open>UTF-8 of the characters below 256.\<close>

definition utf8_char :: "char \<Rightarrow> string" where
  "utf8_char c = (let n = (of_char c :: nat)
                  in if n < 128 then [c] else [char_of (192 + n div 64), char_of (128 + n mod 64)])"

definition utf8 :: "string \<Rightarrow> string" where
  "utf8 s = concat (map utf8_char s)"

definition b64_char :: "nat \<Rightarrow> char" where
  "b64_char n = (if n < 26 then char_of (65 + n) else if n < 52 then char_of (71 + n)
                 else if n < 62 then char_of (n - 4) else if n = 62 then CHR ''-'' else CHR ''_'')"

definition b64_val :: "char \<Rightarrow> nat option" where
  "b64_val c =
     (let n = (of_char c :: nat)
      in if 65 \<le> n \<and> n \<le> 90 then Some (n - 65)
         else if 97 \<le> n \<and> n \<le> 122 then Some (n - 71)
         else if 48 \<le> n \<and> n \<le> 57 then Some (n + 4)
         else if n = 45 then Some 62 else if n = 95 then Some 63 else None)"

fun b64url_encode :: "string \<Rightarrow> string" where
  "b64url_encode [] = []"
| "b64url_encode [a] = (let x = (of_char a :: nat) in [b64_char (x div 4), b64_char (x mod 4 * 16)])"
| "b64url_encode [a, b] =
     (let x = (of_char a :: nat); y = of_char b
      in [b64_char (x div 4), b64_char (x mod 4 * 16 + y div 16), b64_char (y mod 16 * 4)])"
| "b64url_encode (a # b # c # s) =
     (let x = (of_char a :: nat); y = of_char b; z = of_char c
      in b64_char (x div 4) # b64_char (x mod 4 * 16 + y div 16) # b64_char (y mod 16 * 4 + z div 64)
         # b64_char (z mod 64) # b64url_encode s)"

fun b64_bytes :: "nat list \<Rightarrow> string" where
  "b64_bytes (w # x # y # z # r) =
     char_of (w * 4 + x div 16) # char_of (x mod 16 * 16 + y div 4) # char_of (y mod 4 * 64 + z) # b64_bytes r"
| "b64_bytes [w, x, y] = [char_of (w * 4 + x div 16), char_of (x mod 16 * 16 + y div 4)]"
| "b64_bytes [w, x] = [char_of (w * 4 + x div 16)]"
| "b64_bytes _ = []"

definition b64url_decode :: "string \<Rightarrow> string \<Rightarrow> jwt_thrown + string" where
  "b64url_decode segment what =
     (if segment = [] \<or> None \<in> set (map b64_val segment)
      then Inl (JwtError (''Invalid JWT: '' @ what @ '' is not valid base64url''))
      else Inr (b64_bytes (map (the \<circ> b64_val) segment)))"

type_synonym json_object = "(string, jsval) jsmap"
type_synonym json_parser = "string \<Rightarrow> jsval option"

definition decode_json :: "json_parser \<Rightarrow> string \<Rightarrow> string \<Rightarrow> jwt_thrown + json_object" where
  "decode_json parse segment what =
     sum_bind (b64url_decode segment what) (\<lambda>raw.
       case parse raw of
         None \<Rightarrow> Inl (JwtError (''Invalid JWT: '' @ what @ '' is not valid JSON''))
       | Some (JObj kvs) \<Rightarrow> Inr kvs
       | Some _ \<Rightarrow> Inl (JwtError (''Invalid JWT: '' @ what @ '' must be a JSON object'')))"

definition decode_jwt :: "json_parser \<Rightarrow> string \<Rightarrow> jwt_thrown + (json_object \<times> json_object)" where
  "decode_jwt parse token =
     (case split_on (CHR ''.'') token of
        [h, p, s] \<Rightarrow>
          if h = [] \<or> p = [] then Inl (JwtError ''Invalid JWT: expected three dot-separated segments'')
          else sum_bind (decode_json parse h ''header'') (\<lambda>header.
               sum_bind (decode_json parse p ''payload'') (\<lambda>payload. Inr (header, payload)))
      | _ \<Rightarrow> Inl (JwtError ''Invalid JWT: expected three dot-separated segments''))"

text \<open>A property of a parsed object; absent ones are undefined.\<close>

definition field :: "json_object \<Rightarrow> string \<Rightarrow> jsval" where
  "field kvs k = (case map_of kvs k of Some v \<Rightarrow> v | None \<Rightarrow> JUndef)"

subsection \<open>Keys\<close>

datatype key_kind = SecretKind | PublicKind | PrivateKind

record key_object =
  ko_kind :: key_kind
  ko_size :: nat
  ko_type :: "string option"
  ko_curve :: "string option"
  ko_material :: string

datatype key_input = KeyText string | KeyBuffer string | KeyObj key_object

record crypto =
  cr_private_key :: "string \<Rightarrow> thrown + key_object"
  cr_public_key :: "string \<Rightarrow> thrown + key_object"
  cr_public_of :: "key_object \<Rightarrow> key_object"
  cr_secret_key :: "string \<Rightarrow> key_object"
  cr_hmac :: "string option \<Rightarrow> key_object \<Rightarrow> string \<Rightarrow> string"
  cr_sign :: "string option \<Rightarrow> bool \<Rightarrow> key_object \<Rightarrow> string \<Rightarrow> thrown + string"
  cr_verify :: "string option \<Rightarrow> bool \<Rightarrow> key_object \<Rightarrow> string \<Rightarrow> string \<Rightarrow> bool option"

definition min_hmac_secret_bytes :: nat where
  "min_hmac_secret_bytes = 32"

definition looks_like_pem :: "string \<Rightarrow> bool" where
  "looks_like_pem s = str_includes s ''-----BEGIN''"

type_synonym resolved_key = "key_kind \<times> key_object"

definition lift_key :: "key_kind \<Rightarrow> thrown + key_object \<Rightarrow> jwt_thrown + resolved_key" where
  "lift_key kind r = (case r of Inl t \<Rightarrow> Inl (OtherThrown t) | Inr k \<Rightarrow> Inr (kind, k))"

definition resolve_key :: "crypto \<Rightarrow> key_input \<Rightarrow> bool \<Rightarrow> jwt_thrown + resolved_key" where
  "resolve_key cr inp for_signing =
     (case inp of
        KeyObj k \<Rightarrow> Inr (ko_kind k, k)
      | KeyText s \<Rightarrow>
          if looks_like_pem s then
            (if for_signing then
               (if str_includes s ''PRIVATE KEY'' then lift_key PrivateKind (cr_private_key cr s)
                else Inl (JwtError ''Signing requires a private key, got a public PEM''))
             else if str_includes s ''PRIVATE KEY'' then
               lift_key PublicKind (sum_bind (cr_private_key cr s) (\<lambda>k. Inr (cr_public_of cr k)))
             else lift_key PublicKind (cr_public_key cr s))
          else Inr (SecretKind, cr_secret_key cr (utf8 s))
      | KeyBuffer b \<Rightarrow> Inr (SecretKind, cr_secret_key cr b))"

fun kind_name :: "key_kind \<Rightarrow> string" where
  "kind_name SecretKind = ''secret''"
| "kind_name PublicKind = ''public''"
| "kind_name PrivateKind = ''private''"

definition or_undefined :: "string option \<Rightarrow> string" where
  "or_undefined x = (case x of Some s \<Rightarrow> s | None \<Rightarrow> ''undefined'')"

definition assert_key_compatible :: "string \<Rightarrow> alg_spec \<Rightarrow> resolved_key \<Rightarrow> bool \<Rightarrow> jwt_thrown option" where
  "assert_key_compatible alg spec rk for_signing =
     (let (kind, key) = rk
      in if sp_family spec = Some Hmac then
           (if kind \<noteq> SecretKind then
              Some (JwtError (''Algorithm confusion blocked: '' @ alg @ '' requires a symmetric secret, but ''
                @ kind_name kind @ '' key material was provided''))
            else if ko_size key < min_hmac_secret_bytes then
              Some (JwtError (alg @ '' secret is '' @ show_nat (ko_size key) @ '' bytes; RFC 7518 '' @ [CHR 0xA7]
                @ ''3.2 requires at least 32 bytes (256 bits)''))
            else None)
         else if kind = SecretKind then
           Some (JwtError (''Algorithm confusion blocked: '' @ alg
             @ '' requires an asymmetric key, but a symmetric secret was provided''))
         else if for_signing \<and> kind \<noteq> PrivateKind then
           Some (JwtError (''Signing with '' @ alg @ '' requires a private key''))
         else if sp_family spec = Some Rsa \<and> ko_type key \<noteq> Some ''rsa'' then
           Some (JwtError (''Key type mismatch: '' @ alg @ '' requires an RSA key, got '' @ or_undefined (ko_type key)))
         else if sp_family spec = Some Ec \<and> ko_type key \<noteq> Some ''ec'' then
           Some (JwtError (''Key type mismatch: '' @ alg @ '' requires an EC key, got '' @ or_undefined (ko_type key)))
         else if sp_family spec = Some Ec \<and> (case ko_curve key of Some (c # r) \<Rightarrow> sp_curve spec \<noteq> Some (c # r) | _ \<Rightarrow> False) then
           Some (JwtError (''Curve mismatch: '' @ alg @ '' requires '' @ or_undefined (sp_curve spec) @ '', got ''
             @ or_undefined (ko_curve key)))
         else None)"

subsection \<open>Signing\<close>

datatype str_or_list = OneStr string | ManyStr "string list"

fun to_string_array :: "str_or_list \<Rightarrow> string list" where
  "to_string_array (OneStr s) = [s]"
| "to_string_array (ManyStr ss) = ss"

fun str_or_list_value :: "str_or_list \<Rightarrow> jsval" where
  "str_or_list_value (OneStr s) = JStr s"
| "str_or_list_value (ManyStr ss) = JArr (map JStr ss)"

record sign_options =
  so_algorithm :: string
  so_secret :: "key_input option"
  so_private_key :: "key_input option"
  so_expires_in :: "int option"
  so_not_before :: "int option"
  so_issuer :: "string option"
  so_audience :: "str_or_list option"
  so_subject :: "string option"
  so_jwtid :: "string option"
  so_keyid :: "string option"
  so_no_timestamp :: bool
  so_header :: json_object

definition set_claim :: "string \<Rightarrow> jsval option \<Rightarrow> json_object \<Rightarrow> json_object" where
  "set_claim k v kvs = (case v of Some x \<Rightarrow> AList.update k x kvs | None \<Rightarrow> kvs)"

definition sign_claims :: "int \<Rightarrow> sign_options \<Rightarrow> json_object \<Rightarrow> json_object" where
  "sign_claims now opts payload =
     set_claim ''jti'' (map_option JStr (so_jwtid opts))
     (set_claim ''sub'' (map_option JStr (so_subject opts))
     (set_claim ''aud'' (map_option str_or_list_value (so_audience opts))
     (set_claim ''iss'' (map_option JStr (so_issuer opts))
     (set_claim ''nbf'' (map_option (\<lambda>n. JNum (now + n)) (so_not_before opts))
     (set_claim ''exp'' (map_option (\<lambda>n. JNum (now + n)) (so_expires_in opts))
     (if \<not> so_no_timestamp opts \<and> field payload ''iat'' = JUndef
      then AList.update ''iat'' (JNum now) payload else payload))))))"

definition sign_header :: "string \<Rightarrow> sign_options \<Rightarrow> json_object" where
  "sign_header alg opts =
     (let h = AList.update ''typ'' (JStr ''JWT'') (AList.update ''alg'' (JStr alg) (so_header opts))
      in case so_keyid opts of Some (c # r) \<Rightarrow> AList.update ''kid'' (JStr (c # r)) h | _ \<Rightarrow> h)"

definition signature_payload :: "crypto \<Rightarrow> alg_spec \<Rightarrow> string \<Rightarrow> key_object \<Rightarrow> jwt_thrown + string" where
  "signature_payload cr spec data key =
     (if sp_family spec = Some Hmac then Inr (cr_hmac cr (sp_hash spec) key data)
      else case cr_sign cr (sp_hash spec) (sp_family spec = Some Ec) key data of
             Inl t \<Rightarrow> Inl (OtherThrown t) | Inr s \<Rightarrow> Inr s)"

definition json_text :: "json_object \<Rightarrow> string" where
  "json_text kvs = the (json_stringify (JObj kvs))"

definition signing_input :: "json_object \<Rightarrow> json_object \<Rightarrow> string" where
  "signing_input header claims = b64url_encode (utf8 (json_text header)) @ ''.'' @ b64url_encode (utf8 (json_text claims))"

definition sign_jwt :: "crypto \<Rightarrow> int \<Rightarrow> json_object \<Rightarrow> sign_options \<Rightarrow> jwt_thrown + string" where
  "sign_jwt cr now_ms payload opts =
     sum_bind (validate_algorithm_allowlist [so_algorithm opts]) (\<lambda>_.
       let alg = so_algorithm opts; spec = the (spec_of_alg alg)
       in case (case so_private_key opts of Some k \<Rightarrow> Some k | None \<Rightarrow> so_secret opts) of
            None \<Rightarrow> Inl (OtherThrown (plain_error ''[axiomify/auth] signJwt requires `secret` (HS*) or `privateKey` (RS*/ES*)''))
          | Some inp \<Rightarrow>
              sum_bind (resolve_key cr inp True) (\<lambda>(kind, key).
                case assert_key_compatible alg spec (kind, key) True of
                  Some e \<Rightarrow> Inl e
                | None \<Rightarrow>
                    let si = signing_input (sign_header alg opts) (sign_claims (now_ms div 1000) opts payload)
                    in sum_bind (signature_payload cr spec (utf8 si) key) (\<lambda>signature.
                         Inr (si @ ''.'' @ b64url_encode signature))))"

subsection \<open>Verification\<close>

record verify_options =
  vo_algorithms :: "string list"
  vo_secret :: "key_input option"
  vo_public_key :: "key_input option"
  vo_resolver :: "(string option \<Rightarrow> string \<Rightarrow> jwt_thrown + key_object) option"
  vo_issuer :: "str_or_list option"
  vo_audience :: "str_or_list option"
  vo_tolerance :: "int option"
  vo_max_age :: "int option"

definition verify_signature :: "crypto \<Rightarrow> alg_spec \<Rightarrow> string \<Rightarrow> string \<Rightarrow> key_object \<Rightarrow> bool" where
  "verify_signature cr spec data signature key =
     (if sp_family spec = Some Hmac then cr_hmac cr (sp_hash spec) key data = signature
      else cr_verify cr (sp_hash spec) (sp_family spec = Some Ec) key data signature = Some True)"

definition numeric_or_absent :: "jsval \<Rightarrow> bool" where
  "numeric_or_absent v = (case v of JUndef \<Rightarrow> True | JNum _ \<Rightarrow> True | _ \<Rightarrow> False)"

text \<open>The claims as audiences: a missing one is no audience, one that is not an array stands for itself.\<close>

definition audiences :: "jsval \<Rightarrow> jsval list" where
  "audiences v = (case v of JUndef \<Rightarrow> [] | JArr vs \<Rightarrow> vs | _ \<Rightarrow> [v])"

definition check_times :: "int \<Rightarrow> verify_options \<Rightarrow> json_object \<Rightarrow> jwt_thrown option" where
  "check_times now_ms opts payload =
     (let tol = (case vo_tolerance opts of Some t \<Rightarrow> t | None \<Rightarrow> 0)
      in case filter (\<lambda>k. \<not> numeric_or_absent (field payload k)) [''exp'', ''nbf'', ''iat''] of
           k # _ \<Rightarrow> Some (JwtError (''Invalid JWT: \"'' @ k @ ''\" claim must be a number''))
         | [] \<Rightarrow>
             (case field payload ''nbf'' of
                JNum nbf \<Rightarrow> if now_ms < (nbf - tol) * 1000
                            then Some (JwtNotBefore ''JWT not active yet (nbf)'' (nbf * 1000)) else None
              | _ \<Rightarrow> None))"

definition check_expiry :: "int \<Rightarrow> verify_options \<Rightarrow> json_object \<Rightarrow> jwt_thrown option" where
  "check_expiry now_ms opts payload =
     (let tol = (case vo_tolerance opts of Some t \<Rightarrow> t | None \<Rightarrow> 0)
      in case field payload ''exp'' of
           JNum e \<Rightarrow> if now_ms \<ge> (e + tol) * 1000 then Some (JwtExpired ''JWT expired'' (e * 1000)) else None
         | _ \<Rightarrow> None)"

definition check_age :: "int \<Rightarrow> verify_options \<Rightarrow> json_object \<Rightarrow> jwt_thrown option" where
  "check_age now_ms opts payload =
     (let tol = (case vo_tolerance opts of Some t \<Rightarrow> t | None \<Rightarrow> 0)
      in case vo_max_age opts of
           None \<Rightarrow> None
         | Some age \<Rightarrow>
             (case field payload ''iat'' of
                JNum iat \<Rightarrow>
                  if now_ms - iat * 1000 > (age + tol) * 1000 then Some (JwtExpired ''JWT older than maxTokenAge'' ((iat + age) * 1000))
                  else if iat * 1000 > now_ms + tol * 1000 then Some (JwtError ''JWT \"iat\" claim is in the future'')
                  else None
              | _ \<Rightarrow> Some (JwtError ''JWT missing \"iat\" claim required by maxTokenAge'')))"

definition check_issuer :: "verify_options \<Rightarrow> json_object \<Rightarrow> jwt_thrown option" where
  "check_issuer opts payload =
     (case vo_issuer opts of
        None \<Rightarrow> None
      | Some iss \<Rightarrow>
          (let allowed = to_string_array iss
           in if (case field payload ''iss'' of JStr s \<Rightarrow> s \<in> set allowed | _ \<Rightarrow> False) then None
              else Some (JwtError (''JWT \"iss\" claim mismatch: expected '' @ join_with '' | '' allowed))))"

definition check_audience :: "verify_options \<Rightarrow> json_object \<Rightarrow> jwt_thrown option" where
  "check_audience opts payload =
     (case vo_audience opts of
        None \<Rightarrow> None
      | Some aud \<Rightarrow>
          (let expected = to_string_array aud
           in if list_ex (\<lambda>v. case v of JStr s \<Rightarrow> s \<in> set expected | _ \<Rightarrow> False) (audiences (field payload ''aud'')) then None
              else Some (JwtError (''JWT \"aud\" claim mismatch: expected '' @ join_with '' | '' expected))))"

definition or_else :: "'e option \<Rightarrow> 'e option \<Rightarrow> 'e option" where
  "or_else x y = (case x of None \<Rightarrow> y | Some e \<Rightarrow> Some e)"

definition validate_claims :: "int \<Rightarrow> verify_options \<Rightarrow> json_object \<Rightarrow> jwt_thrown option" where
  "validate_claims now_ms opts payload =
     or_else (check_times now_ms opts payload) (or_else (check_expiry now_ms opts payload)
       (or_else (check_age now_ms opts payload) (or_else (check_issuer opts payload) (check_audience opts payload))))"

definition some_count :: "bool list \<Rightarrow> nat" where
  "some_count bs = length (filter id bs)"

definition check_options :: "verify_options \<Rightarrow> string list \<Rightarrow> jwt_thrown option" where
  "check_options opts allow =
     (if some_count [vo_secret opts \<noteq> None, vo_public_key opts \<noteq> None, \<not> Option.is_none (vo_resolver opts)] \<noteq> 1 then
        Some (OtherThrown (plain_error ''[axiomify/auth] verifyJwt requires exactly one of `secret`, `publicKey`, `keyResolver`''))
      else if (vo_public_key opts \<noteq> None \<or> \<not> Option.is_none (vo_resolver opts)) \<and> list_ex (alg_is Hmac) allow then
        Some (OtherThrown (plain_error (''[axiomify/auth] HS* algorithms cannot be allowlisted when verifying ''
          @ ''with a public key or JWKS (algorithm-confusion defence)'')))
      else if vo_secret opts \<noteq> None \<and> list_ex (\<lambda>a. \<not> alg_is Hmac a) allow then
        Some (OtherThrown (plain_error (''[axiomify/auth] RS*/ES* algorithms cannot be allowlisted when ''
          @ ''verifying with a symmetric secret'')))
      else None)"

definition verify_key :: "crypto \<Rightarrow> verify_options \<Rightarrow> json_object \<Rightarrow> string \<Rightarrow> jwt_thrown + resolved_key" where
  "verify_key cr opts header alg =
     (case vo_resolver opts of
        Some get_key \<Rightarrow>
          sum_bind (get_key (case field header ''kid'' of JStr k \<Rightarrow> Some k | _ \<Rightarrow> None) alg) (\<lambda>k. Inr (PublicKind, k))
      | None \<Rightarrow> resolve_key cr (the (case vo_public_key opts of Some k \<Rightarrow> Some k | None \<Rightarrow> vo_secret opts)) False)"

definition verify_parts ::
    "crypto \<Rightarrow> json_parser \<Rightarrow> int \<Rightarrow> verify_options \<Rightarrow> string list \<Rightarrow> string \<Rightarrow> string \<Rightarrow> string \<Rightarrow> jwt_thrown + json_object" where
  "verify_parts cr parse now_ms opts allow h p s =
     sum_bind (decode_json parse h ''header'') (\<lambda>header.
       case field header ''alg'' of
         JStr alg \<Rightarrow>
           if none_alg alg then Inl (JwtError ''JWT rejected: unsigned (\"none\") tokens are forbidden'')
           else if alg \<notin> set allow then
             Inl (JwtError (''JWT rejected: header alg \"'' @ alg @ ''\" is not in the allowlist ['' @ join_with '', '' allow @ '']''))
           else
             let spec = the (spec_of_alg alg)
             in sum_bind (verify_key cr opts header alg) (\<lambda>rk.
                  case assert_key_compatible alg spec rk False of
                    Some e \<Rightarrow> Inl e
                  | None \<Rightarrow>
                      sum_bind (b64url_decode s ''signature'') (\<lambda>signature.
                        if \<not> verify_signature cr spec (utf8 (h @ ''.'' @ p)) signature (snd rk)
                        then Inl (JwtError ''JWT signature verification failed'')
                        else sum_bind (decode_json parse p ''payload'') (\<lambda>payload.
                               case validate_claims now_ms opts payload of
                                 Some e \<Rightarrow> Inl e | None \<Rightarrow> Inr payload)))
       | _ \<Rightarrow> Inl (JwtError ''JWT rejected: unsigned (\"none\") tokens are forbidden''))"

definition verify_jwt :: "crypto \<Rightarrow> json_parser \<Rightarrow> int \<Rightarrow> verify_options \<Rightarrow> string \<Rightarrow> jwt_thrown + json_object" where
  "verify_jwt cr parse now_ms opts token =
     (if token = [] then Inl (JwtError ''Invalid JWT: token must be a non-empty string'')
      else sum_bind (validate_algorithm_allowlist (vo_algorithms opts)) (\<lambda>allow.
        case check_options opts allow of
          Some e \<Rightarrow> Inl e
        | None \<Rightarrow>
            (case split_on (CHR ''.'') token of
               [h, p, s] \<Rightarrow>
                 if h = [] \<or> p = [] \<or> s = []
                 then Inl (JwtError ''Invalid JWT: expected three dot-separated segments'')
                 else verify_parts cr parse now_ms opts allow h p s
             | _ \<Rightarrow> Inl (JwtError ''Invalid JWT: expected three dot-separated segments''))))"

end
