(* ===== verification/Token_Auth.thy ===== *)
theory Token_Auth
  imports Jwt
begin

text \<open>
  \<open>packages/auth/src/index.ts\<close>: the token stores, the plugin that authenticates a request by its
  bearer token, and the handler that exchanges a refresh token. A store is a record of operations
  that may throw; \<open>jsonwebtoken\<close>, which signs and verifies the HS* tokens here, is the parameter
  \<open>jwt_lib\<close>. The refresh handler is cut at its \<open>await\<close>s, so that several of them can interleave.
\<close>

subsection \<open>Token stores\<close>

record 's token_port =
  tp_save :: "int \<Rightarrow> string \<Rightarrow> int \<Rightarrow> 's \<Rightarrow> thrown option \<times> 's"
  tp_exists :: "int \<Rightarrow> string \<Rightarrow> 's \<Rightarrow> (thrown + bool) \<times> 's"
  tp_revoke :: "string \<Rightarrow> 's \<Rightarrow> thrown option \<times> 's"

type_synonym token_map = "(string, int) jsmap"

text \<open>\<open>MemoryTokenStore\<close>. Its constructor: whether it throws, and whether it warns.\<close>

definition mts_clustered_message :: string where
  "mts_clustered_message = ''[axiomify/auth] MemoryTokenStore cannot be used in clustered mode. Since MemoryTokenStore is per-process, token revocation will not propagate to other workers, creating a security vulnerability where revoked tokens remain valid on other instances. Please use a distributed store (e.g. Redis) instead.''"

definition mts_new :: "bool \<Rightarrow> bool \<Rightarrow> thrown + (token_map \<times> bool)" where
  "mts_new clustered production =
     (if clustered then
        (if production then Inl (plain_error mts_clustered_message) else Inr ([], True))
      else Inr ([], production))"

definition mts_prune :: "int \<Rightarrow> token_map \<Rightarrow> token_map" where
  "mts_prune now ts = filter (\<lambda>(jti, expires). \<not> expires \<le> now) ts"

definition mts_save :: "int \<Rightarrow> string \<Rightarrow> int \<Rightarrow> token_map \<Rightarrow> token_map" where
  "mts_save now jti ttl ts = AList.update jti (now + ttl * 1000) ts"

definition mts_exists :: "int \<Rightarrow> string \<Rightarrow> token_map \<Rightarrow> bool \<times> token_map" where
  "mts_exists now jti ts =
     (case map_of ts jti of
        None \<Rightarrow> (False, ts)
      | Some expires \<Rightarrow>
          if expires = 0 then (False, ts)
          else if expires \<le> now then (False, AList.delete jti ts)
          else (True, ts))"

definition mts_revoke :: "string \<Rightarrow> token_map \<Rightarrow> token_map" where
  "mts_revoke jti ts = AList.delete jti ts"

definition memory_tokens :: "token_map token_port" where
  "memory_tokens = \<lparr> tp_save = (\<lambda>now j ttl ts. (None, mts_save now j ttl ts)),
     tp_exists = (\<lambda>now j ts. let (b, ts') = mts_exists now j ts in (Inr b, ts')),
     tp_revoke = (\<lambda>j ts. (None, mts_revoke j ts)) \<rparr>"

subsection \<open>Options\<close>

definition validate_algorithms :: "string list \<Rightarrow> thrown + string list" where
  "validate_algorithms algs =
     (let safe = filter (\<lambda>a. a \<notin> {''none'', ''NONE'', ''None''}) algs
      in if safe = [] then
           Inl (plain_error ''[axiomify/auth] Every provided algorithm was rejected. The \"none\" algorithm is not permitted.'')
         else Inr safe)"

text \<open>The pattern of a bearer header: blanks, the word in any case, blanks, one word, blanks.\<close>

definition extract_bearer :: "string \<Rightarrow> string option" where
  "extract_bearer header =
     (let t = trim header; rest = drop 6 t; tok = dropWhile is_ws rest
      in if to_lower (take 6 t) = ''bearer'' \<and> rest \<noteq> [] \<and> is_ws (hd rest) \<and> tok \<noteq> [] \<and> \<not> list_ex is_ws tok
         then Some tok else None)"

definition validate_secret :: "string \<Rightarrow> string \<Rightarrow> thrown option" where
  "validate_secret secret ctx =
     (let n = length (utf8 secret)
      in if n < 32 then
           Some (ThrowErr (axiomify_error (''[axiomify/auth] '' @ ctx @ '' is '' @ show_nat n
             @ '' bytes; the JWA spec (RFC 7518 '' @ [CHR 0xA7] @ ''3.2) requires at least 32 bytes (256 bits) for HS256. ''
             @ ''Generate one with: node -e \"console.log(require('' @ [CHR 0x27] @ ''crypto'' @ [CHR 0x27]
             @ '').randomBytes(48).toString('' @ [CHR 0x27] @ ''base64'' @ [CHR 0x27] @ ''))\"'') None))
         else None)"

record auth_options =
  ao_secret :: "string option"
  ao_public_key :: "key_input option"
  ao_jwks :: "(string option \<Rightarrow> string \<Rightarrow> jwt_thrown + key_object) option"
  ao_algorithms :: "string list option"
  ao_get_token :: "(request \<Rightarrow> string option) option"
  ao_issuer :: "string option"
  ao_audience :: "str_or_list option"
  ao_tolerance :: "int option"

definition auth_header :: "request \<Rightarrow> string option" where
  "auth_header req = (case map_of (rq_headers req) ''authorization'' of Some (v # _) \<Rightarrow> Some v | _ \<Rightarrow> None)"

definition bearer_of :: "request \<Rightarrow> string option" where
  "bearer_of req = (case auth_header req of Some (c # r) \<Rightarrow> extract_bearer (c # r) | _ \<Rightarrow> None)"

definition build_get_token :: "auth_options \<Rightarrow> request \<Rightarrow> string option" where
  "build_get_token opts req = (case ao_get_token opts of Some f \<Rightarrow> f req | None \<Rightarrow> bearer_of req)"

text \<open>An option is passed on when it is truthy.\<close>

definition given_str :: "string option \<Rightarrow> string option" where
  "given_str x = (case x of Some (c # r) \<Rightarrow> Some (c # r) | _ \<Rightarrow> None)"

definition given_audience :: "str_or_list option \<Rightarrow> str_or_list option" where
  "given_audience x = (case x of Some (OneStr []) \<Rightarrow> None | _ \<Rightarrow> x)"

record lib_verify_options =
  lv_algorithms :: "string list"
  lv_issuer :: "string option"
  lv_audience :: "str_or_list option"
  lv_tolerance :: "int option"

record lib_sign_options =
  ls_expires_in :: int
  ls_jwtid :: string
  ls_issuer :: "string option"
  ls_audience :: "str_or_list option"

record jwt_lib =
  jl_verify :: "int \<Rightarrow> string \<Rightarrow> string \<Rightarrow> lib_verify_options \<Rightarrow> jwt_thrown + jsval"
  jl_sign :: "int \<Rightarrow> json_object \<Rightarrow> string \<Rightarrow> lib_sign_options \<Rightarrow> thrown + string"

definition verify_async :: "jwt_lib \<Rightarrow> int \<Rightarrow> string \<Rightarrow> string \<Rightarrow> lib_verify_options \<Rightarrow> jwt_thrown + jsval" where
  "verify_async lib now token secret opts =
     sum_bind (jl_verify lib now token secret opts) (\<lambda>payload.
       if \<not> truthy payload \<or> (case payload of JStr _ \<Rightarrow> True | _ \<Rightarrow> False)
       then Inl (JwtError ''Invalid JWT payload type'') else Inr payload)"

definition prop_of :: "jsval \<Rightarrow> string \<Rightarrow> jsval" where
  "prop_of v k = (case v of JObj kvs \<Rightarrow> field kvs k | _ \<Rightarrow> JUndef)"

subsection \<open>The plugin\<close>

record 's auth_world =
  aw_response :: native_response
  aw_state :: request_state
  aw_store :: 's

definition answer :: "serializer \<Rightarrow> int \<Rightarrow> string \<Rightarrow> 's auth_world act" where
  "answer ser code msg w =
     (case nr_send ser JNull (Some msg) (nr_status code (aw_response w)) of
        (t, r) \<Rightarrow> (t, w\<lparr>aw_response := r\<rparr>))"

definition store_unavailable :: thrown where
  "store_unavailable = ThrowErr (mk_error (Some 503) ''Token store unavailable'')"

text \<open>The gate of the revocation store: what was thrown, whether the request was rejected. The two plugins
  differ in what they take for an identifier: a non-empty string, or any truthy value (the store
  holds strings, so it knows no other).\<close>

definition store_gate ::
    "serializer \<Rightarrow> bool \<Rightarrow> 's token_port \<Rightarrow> int \<Rightarrow> jsval \<Rightarrow> 's auth_world \<Rightarrow> (thrown option \<times> bool) \<times> 's auth_world" where
  "store_gate ser strings_only port now decoded w =
     (let jti = prop_of decoded ''jti'';
          reject = (\<lambda>msg w. case answer ser 401 msg w of (t, w') \<Rightarrow> ((t, True), w'))
      in if \<not> truthy jti \<or> (strings_only \<and> (case jti of JStr _ \<Rightarrow> False | _ \<Rightarrow> True))
         then reject ''Unauthorized: Token missing jti claim'' w
         else
           case jti of
             JStr j \<Rightarrow>
               (case tp_exists port now j (aw_store w) of
                  (Inl _, s) \<Rightarrow> ((Some store_unavailable, False), w\<lparr>aw_store := s\<rparr>)
                | (Inr active, s) \<Rightarrow>
                    if active then ((None, False), w\<lparr>aw_store := s\<rparr>)
                    else reject ''Unauthorized: Token has been revoked'' (w\<lparr>aw_store := s\<rparr>))
           | _ \<Rightarrow> reject ''Unauthorized: Token has been revoked'' w)"

definition state_thrown :: "state_error \<Rightarrow> thrown" where
  "state_thrown e = (case e of ImmutableKey k \<Rightarrow>
     ThrowErr (axiomify_error (''AxiomifyError: State key \"'' @ k @ ''\" is immutable once set.'') None))"

definition set_auth_user :: "jsval \<Rightarrow> 's auth_world act" where
  "set_auth_user user w =
     (case state_set ''user'' user (aw_state w) of
        (e, st) \<Rightarrow> (map_option state_thrown e, w\<lparr>aw_state := st\<rparr>))"

text \<open>The body both plugins share: token, verification, store, user; a verification error is a 401, anything
  else is thrown.\<close>

definition auth_run ::
    "serializer \<Rightarrow> (string \<Rightarrow> jwt_thrown + jsval) \<Rightarrow> bool \<Rightarrow> 's token_port option \<Rightarrow> string option \<Rightarrow> int \<Rightarrow> 's auth_world act" where
  "auth_run ser verify strings_only store token now w =
     (if token = None \<or> token = Some [] then answer ser 401 ''Unauthorized: Missing token'' w
      else
        case verify (the token) of
          Inl (OtherThrown t) \<Rightarrow> (Some t, w)
        | Inl _ \<Rightarrow> answer ser 401 ''Unauthorized: Invalid or expired token'' w
        | Inr decoded \<Rightarrow>
            (case store of
               None \<Rightarrow> set_auth_user decoded w
             | Some port \<Rightarrow>
                 (case store_gate ser strings_only port now decoded w of
                    ((Some t, _), w') \<Rightarrow> (Some t, w')
                  | ((None, True), w') \<Rightarrow> (None, w')
                  | ((None, False), w') \<Rightarrow> set_auth_user decoded w')))"

type_synonym 's middleware = "int \<Rightarrow> request \<Rightarrow> 's auth_world act"

definition thrown_of :: "jwt_thrown \<Rightarrow> thrown" where
  "thrown_of e = (case e of OtherThrown t \<Rightarrow> t | JwtError m \<Rightarrow> plain_error m | JwtExpired m _ \<Rightarrow> plain_error m
     | JwtNotBefore m _ \<Rightarrow> plain_error m)"

definition asymmetric_options :: "auth_options \<Rightarrow> string list \<Rightarrow> verify_options" where
  "asymmetric_options opts algs =
     \<lparr> vo_algorithms = algs, vo_secret = None,
       vo_public_key = (if Option.is_none (ao_jwks opts) then ao_public_key opts else None), vo_resolver = ao_jwks opts,
       vo_issuer = map_option OneStr (given_str (ao_issuer opts)), vo_audience = given_audience (ao_audience opts),
       vo_tolerance = ao_tolerance opts, vo_max_age = None \<rparr>"

text \<open>The test for \<open>HS\<close> is on the name.\<close>

definition create_asymmetric_auth_plugin ::
    "crypto \<Rightarrow> json_parser \<Rightarrow> serializer \<Rightarrow> 's token_port option \<Rightarrow> auth_options \<Rightarrow> thrown + 's middleware" where
  "create_asymmetric_auth_plugin cr parse ser store opts =
     (case validate_algorithm_allowlist (case ao_algorithms opts of Some a \<Rightarrow> a | None \<Rightarrow> [''RS256'']) of
        Inl e \<Rightarrow> Inl (thrown_of e)
      | Inr algs \<Rightarrow>
          if list_ex (\<lambda>a. starts_with a ''HS'') algs then
            Inl (plain_error (''[axiomify/auth] HS* algorithms cannot be allowlisted when verifying ''
              @ ''with a public key or JWKS (algorithm-confusion defence)''))
          else Inr (\<lambda>now req w.
            auth_run ser (\<lambda>token. map_sum id JObj (verify_jwt cr parse now (asymmetric_options opts algs) token))
              True store (build_get_token opts req) now w))"

definition create_auth_plugin ::
    "crypto \<Rightarrow> json_parser \<Rightarrow> jwt_lib \<Rightarrow> serializer \<Rightarrow> 's token_port option \<Rightarrow> auth_options \<Rightarrow> thrown + 's middleware" where
  "create_auth_plugin cr parse lib ser store opts =
     (if some_count [ao_secret opts \<noteq> None, ao_public_key opts \<noteq> None, \<not> Option.is_none (ao_jwks opts)] \<noteq> 1 then
        Inl (plain_error ''[axiomify/auth] createAuthPlugin requires exactly one of `secret`, `publicKey` or `jwks`'')
      else if ao_public_key opts \<noteq> None \<or> \<not> Option.is_none (ao_jwks opts) then
        create_asymmetric_auth_plugin cr parse ser store opts
      else
        let secret = the (ao_secret opts)
        in case validate_secret secret ''JWT secret'' of
             Some t \<Rightarrow> Inl t
           | None \<Rightarrow>
               sum_bind (validate_algorithms (case ao_algorithms opts of Some a \<Rightarrow> a | None \<Rightarrow> [''HS256''])) (\<lambda>algs.
                 Inr (\<lambda>now req w.
                   auth_run ser (\<lambda>token. verify_async lib now token secret
                       \<lparr> lv_algorithms = algs, lv_issuer = given_str (ao_issuer opts),
                         lv_audience = given_audience (ao_audience opts), lv_tolerance = ao_tolerance opts \<rparr>)
                     False store (build_get_token opts req) now w)))"

definition get_auth_user :: "request_state \<Rightarrow> jsval" where
  "get_auth_user st = state_get ''user'' st"

subsection \<open>The refresh handler\<close>

record refresh_options =
  rf_secret :: string
  rf_refresh_secret :: string
  rf_access_ttl :: int
  rf_refresh_ttl :: int
  rf_algorithms :: "string list"
  rf_issuer :: "string option"
  rf_audience :: "str_or_list option"

definition create_refresh ::
    "string \<Rightarrow> string \<Rightarrow> int option \<Rightarrow> int option \<Rightarrow> string list option \<Rightarrow> string option \<Rightarrow> str_or_list option \<Rightarrow> thrown + refresh_options" where
  "create_refresh secret refresh_secret access_ttl refresh_ttl algs issuer audience =
     (case validate_secret secret ''JWT access secret'' of
        Some t \<Rightarrow> Inl t
      | None \<Rightarrow>
          (case validate_secret refresh_secret ''JWT refresh secret'' of
             Some t \<Rightarrow> Inl t
           | None \<Rightarrow>
               sum_bind (validate_algorithms (case algs of Some a \<Rightarrow> a | None \<Rightarrow> [''HS256''])) (\<lambda>safe.
                 Inr \<lparr> rf_secret = secret, rf_refresh_secret = refresh_secret,
                       rf_access_ttl = (case access_ttl of Some t \<Rightarrow> t | None \<Rightarrow> 900),
                       rf_refresh_ttl = (case refresh_ttl of Some t \<Rightarrow> t | None \<Rightarrow> 604800), rf_algorithms = safe,
                       rf_issuer = given_str issuer, rf_audience = given_audience audience \<rparr>)))"

datatype refresh_answer = Refused int string | Issued string string string

text \<open>Where a handler is suspended: it has a token to verify; it is about to ask the store for \<open>jti\<close>; it is
  about to sign; about to save the new identifier; about to revoke the old one; or it has answered.\<close>

datatype refresh_phase =
    RStart "string option"
  | RAsk string string
  | RSign string string
  | RSave string string string string
  | RRevoke string string string string
  | RDone refresh_answer

record 's refresh_env =
  re_lib :: jwt_lib
  re_options :: refresh_options
  re_store :: "'s token_port option"

definition refresh_claims :: "jsval \<Rightarrow> (string \<times> string) option" where
  "refresh_claims decoded =
     (let i = prop_of decoded ''id'';
          i' = (if i = JUndef \<or> i = JNull then prop_of decoded ''sub'' else i)
      in case (i', prop_of decoded ''jti'') of
           (JStr (a # b), JStr (c # d)) \<Rightarrow> Some (c # d, a # b)
         | _ \<Rightarrow> None)"

definition sign_pair :: "jwt_lib \<Rightarrow> refresh_options \<Rightarrow> int \<Rightarrow> string \<Rightarrow> string \<Rightarrow> string \<Rightarrow> (string \<times> string) option" where
  "sign_pair lib opts now user access_jti next_jti =
     (case jl_sign lib now [(''id'', JStr user)] (rf_secret opts)
          \<lparr> ls_expires_in = rf_access_ttl opts, ls_jwtid = access_jti, ls_issuer = rf_issuer opts, ls_audience = rf_audience opts \<rparr> of
        Inl _ \<Rightarrow> None
      | Inr access \<Rightarrow>
          (case jl_sign lib now [(''id'', JStr user)] (rf_refresh_secret opts)
              \<lparr> ls_expires_in = rf_refresh_ttl opts, ls_jwtid = next_jti, ls_issuer = rf_issuer opts, ls_audience = rf_audience opts \<rparr> of
             Inl _ \<Rightarrow> None | Inr refresh \<Rightarrow> Some (access, refresh)))"

text \<open>One step at time \<open>now\<close>; \<open>access_jti\<close> and \<open>next_jti\<close> are the random identifiers it draws.\<close>

fun refresh_step :: "'s refresh_env \<Rightarrow> int \<Rightarrow> string \<Rightarrow> string \<Rightarrow> refresh_phase \<Rightarrow> 's \<Rightarrow> refresh_phase \<times> 's" where
  "refresh_step env now access_jti next_jti (RStart tok) s =
     (case tok of
        None \<Rightarrow> (RDone (Refused 401 ''Missing refresh token''), s)
      | Some t \<Rightarrow>
          (case verify_async (re_lib env) now t (rf_refresh_secret (re_options env))
                \<lparr> lv_algorithms = rf_algorithms (re_options env), lv_issuer = rf_issuer (re_options env),
                  lv_audience = rf_audience (re_options env), lv_tolerance = None \<rparr> of
             Inl _ \<Rightarrow> (RDone (Refused 401 ''Invalid refresh token''), s)
           | Inr decoded \<Rightarrow>
               (case refresh_claims decoded of
                  None \<Rightarrow> (RDone (Refused 401 ''Invalid refresh token payload''), s)
                | Some (jti, user) \<Rightarrow> (if Option.is_none (re_store env) then RSign jti user else RAsk jti user, s))))"
| "refresh_step env now access_jti next_jti (RAsk jti user) s =
     (case tp_exists (the (re_store env)) now jti s of
        (Inl _, s') \<Rightarrow> (RDone (Refused 503 ''Token store unavailable''), s')
      | (Inr False, s') \<Rightarrow> (RDone (Refused 401 ''Refresh token has been revoked''), s')
      | (Inr True, s') \<Rightarrow> (RSign jti user, s'))"
| "refresh_step env now access_jti next_jti (RSign jti user) s =
     (case sign_pair (re_lib env) (re_options env) now user access_jti next_jti of
        None \<Rightarrow> (RDone (Refused 500 ''Failed to issue tokens''), s)
      | Some (access, refresh) \<Rightarrow>
          (if Option.is_none (re_store env) then RDone (Issued access refresh next_jti) else RSave jti next_jti access refresh, s))"
| "refresh_step env now access_jti next_jti (RSave jti next access refresh) s =
     (case tp_save (the (re_store env)) now next (rf_refresh_ttl (re_options env)) s of
        (Some _, s') \<Rightarrow> (RDone (Refused 503 ''Token store unavailable''), s')
      | (None, s') \<Rightarrow> (RRevoke jti next access refresh, s'))"
| "refresh_step env now access_jti next_jti (RRevoke jti next access refresh) s =
     (case tp_revoke (the (re_store env)) jti s of (_, s') \<Rightarrow> (RDone (Issued access refresh next), s'))"
| "refresh_step env now access_jti next_jti (RDone a) s = (RDone a, s)"

text \<open>A handler that runs alone, with the times at which it resumes.\<close>

fun refresh_alone :: "'s refresh_env \<Rightarrow> int list \<Rightarrow> string \<Rightarrow> string \<Rightarrow> refresh_phase \<Rightarrow> 's \<Rightarrow> refresh_phase \<times> 's" where
  "refresh_alone env [] access_jti next_jti p s = (p, s)"
| "refresh_alone env (now # nows) access_jti next_jti p s =
     (case refresh_step env now access_jti next_jti p s of (p', s') \<Rightarrow> refresh_alone env nows access_jti next_jti p' s')"

text \<open>Several handlers over one store, resumed in the order of a schedule: which handler, when, and the
  identifiers it draws if it draws any.\<close>

record turn =
  tn_handler :: nat
  tn_now :: int
  tn_access :: string
  tn_next :: string

fun refresh_schedule :: "'s refresh_env \<Rightarrow> turn list \<Rightarrow> refresh_phase list \<times> 's \<Rightarrow> refresh_phase list \<times> 's" where
  "refresh_schedule env [] ps = ps"
| "refresh_schedule env (t # ts) ps =
     (case ps of (phases, s) \<Rightarrow>
        if tn_handler t < length phases then
          (case refresh_step env (tn_now t) (tn_access t) (tn_next t) (phases ! tn_handler t) s of
             (p', s') \<Rightarrow> refresh_schedule env ts (phases[tn_handler t := p'], s'))
        else refresh_schedule env ts ps)"

text \<open>What the client gets.\<close>

definition refresh_respond :: "serializer \<Rightarrow> refresh_options \<Rightarrow> refresh_answer \<Rightarrow> native_response act" where
  "refresh_respond ser opts a r =
     (case a of
        Refused code msg \<Rightarrow> nr_send ser JNull (Some msg) (nr_status code r)
      | Issued access refresh _ \<Rightarrow>
          nr_send ser (JObj [(''accessToken'', JStr access), (''refreshToken'', JStr refresh),
            (''expiresIn'', JNum (rf_access_ttl opts))]) None (nr_status 200 r))"

definition refresh_token_of :: "request \<Rightarrow> string option" where
  "refresh_token_of req = bearer_of req"

end
