(* ===== verification/Jwt_Props.thy ===== *)
theory Jwt_Props
  imports Jwt
begin

text \<open>
  Tokens: base64url decodes what it encodes; a token that verifies was authenticated with the key the
  caller configured, under an algorithm of that key's family, and its claims are current; a
  public key is never used as an HMAC secret; what \<open>sign_jwt\<close> produces verifies.
\<close>

subsection \<open>base64url\<close>

lemma of_char_256 [simp]: "(of_char c :: nat) < 256"
  by (rule of_char_less_256)

lemma b64_val_char [simp]: "n < 64 \<Longrightarrow> b64_val (b64_char n) = Some n"
  by (auto simp: b64_char_def b64_val_def Let_def)

lemma b64_char_dot: "n < 64 \<Longrightarrow> b64_char n \<noteq> CHR ''.''"
proof
  assume "n < 64" "b64_char n = CHR ''.''"
  then have "b64_val (CHR ''.'') = Some n" by (metis b64_val_char)
  then show False by (simp add: b64_val_def)
qed

lemma sextets: "x div 4 < 64" "x mod 4 * 16 + y div 16 < 64" "y mod 16 * 4 + z div 64 < 64" "z mod 64 < 64"
  "x mod 4 * 16 < 64" "y mod 16 * 4 < 64"
  if "x < 256" "y < 256" "z < 256" for x y z :: nat
proof -
  have "x mod 4 \<le> 3" "y mod 16 \<le> 15" "y div 16 < 16" "z div 64 < 4"
    using that by (auto simp: less_mult_imp_div_less) 
  then show "x div 4 < 64" "x mod 4 * 16 + y div 16 < 64" "y mod 16 * 4 + z div 64 < 64" "z mod 64 < 64"
    "x mod 4 * 16 < 64" "y mod 16 * 4 < 64"
    using that by (simp_all add: less_mult_imp_div_less)
qed

lemma octets: "x div 4 * 4 + (x mod 4 * 16 + y div 16) div 16 = x"
  "(x mod 4 * 16 + y div 16) mod 16 * 16 + (y mod 16 * 4 + z div 64) div 4 = y"
  "(y mod 16 * 4 + z div 64) mod 4 * 64 + z mod 64 = z"
  if "x < 256" "y < 256" "z < 256" for x y z :: nat
proof -
  have "y div 16 < 16" "z div 64 < 4" using that by (simp_all add: less_mult_imp_div_less)
  then have "(x mod 4 * 16 + y div 16) div 16 = x mod 4" "(x mod 4 * 16 + y div 16) mod 16 = y div 16"
    "(y mod 16 * 4 + z div 64) div 4 = y mod 16" "(y mod 16 * 4 + z div 64) mod 4 = z div 64"
    by simp_all
  then show "x div 4 * 4 + (x mod 4 * 16 + y div 16) div 16 = x"
    "(x mod 4 * 16 + y div 16) mod 16 * 16 + (y mod 16 * 4 + z div 64) div 4 = y"
    "(y mod 16 * 4 + z div 64) mod 4 * 64 + z mod 64 = z" by simp_all
qed

lemma b64_bytes_octets:
  assumes "x < 256" "y < 256" "z < 256"
  shows "b64_bytes ([x div 4, x mod 4 * 16 + y div 16, y mod 16 * 4 + z div 64, z mod 64] @ ns)
      = char_of x # char_of y # char_of z # b64_bytes ns"
    and "b64_bytes [x div 4, x mod 4 * 16 + y div 16, y mod 16 * 4] = [char_of x, char_of y]"
    and "b64_bytes [x div 4, x mod 4 * 16] = [char_of x]"
  using octets[of x y z] octets[of x y 0] octets[of x 0 0] assms
  by (simp_all only: append_Cons append_Nil b64_bytes.simps div_0 add_0_right)

lemma b64url_encode_chars: "\<exists>ns. b64url_encode s = map b64_char ns \<and> (\<forall>n \<in> set ns. n < 64) \<and> b64_bytes ns = s"
proof (induction s rule: b64url_encode.induct)
  case (2 a)
  let ?x = "of_char a :: nat"
  show ?case
    using sextets[of ?x 0 0] b64_bytes_octets(3)[of ?x 0 0]
    by (intro exI[of _ "[?x div 4, ?x mod 4 * 16]"]) (simp add: Let_def)
next
  case (3 a b)
  let ?x = "of_char a :: nat" and ?y = "of_char b :: nat"
  show ?case
    using sextets[of ?x ?y 0] b64_bytes_octets(2)[of ?x ?y 0]
    by (intro exI[of _ "[?x div 4, ?x mod 4 * 16 + ?y div 16, ?y mod 16 * 4]"]) (simp add: Let_def)
next
  case (4 a b c s)
  let ?x = "of_char a :: nat" and ?y = "of_char b :: nat" and ?z = "of_char c :: nat"
  obtain ns where ns: "b64url_encode s = map b64_char ns" "\<forall>n \<in> set ns. n < 64" "b64_bytes ns = s" using 4 by blast
  show ?case
    using sextets[of ?x ?y ?z] b64_bytes_octets(1)[of ?x ?y ?z ns] ns
    by (intro exI[of _ "[?x div 4, ?x mod 4 * 16 + ?y div 16, ?y mod 16 * 4 + ?z div 64, ?z mod 64] @ ns"])
       (simp add: Let_def del: b64_bytes.simps)
qed simp

lemma b64url_encode_Nil [simp]: "b64url_encode s = [] \<longleftrightarrow> s = []"
  by (cases s rule: b64url_encode.cases) (auto simp: Let_def)

lemma b64url_decode_encode [simp]: "s \<noteq> [] \<Longrightarrow> b64url_decode (b64url_encode s) what = Inr s"
proof -
  assume "s \<noteq> []"
  obtain ns where ns: "b64url_encode s = map b64_char ns" "\<forall>n \<in> set ns. n < 64" "b64_bytes ns = s"
    using b64url_encode_chars by blast
  have "map b64_val (map b64_char ns) = map Some ns" using ns(2) by simp
  moreover have "ns \<noteq> []" using ns \<open>s \<noteq> []\<close> by auto
  moreover have "map (the \<circ> b64_val) (map b64_char ns) = ns" using ns(2) by (simp add: map_idI)
  ultimately show ?thesis using ns by (auto simp: b64url_decode_def simp del: map_map)
qed

lemma b64url_encode_dot: "CHR ''.'' \<notin> set (b64url_encode s)"
  using b64url_encode_chars[of s] b64_char_dot by fastforce

subsection \<open>What verification accepts\<close>

definition tolerance :: "verify_options \<Rightarrow> int" where
  "tolerance vo = (case vo_tolerance vo of Some t \<Rightarrow> t | None \<Rightarrow> 0)"

definition claims_current :: "int \<Rightarrow> verify_options \<Rightarrow> json_object \<Rightarrow> bool" where
  "claims_current now vo c \<longleftrightarrow>
     (case field c ''nbf'' of JUndef \<Rightarrow> True | JNum n \<Rightarrow> (n - tolerance vo) * 1000 \<le> now | _ \<Rightarrow> False)
     \<and> (case field c ''exp'' of JUndef \<Rightarrow> True | JNum e \<Rightarrow> now < (e + tolerance vo) * 1000 | _ \<Rightarrow> False)
     \<and> (case field c ''iat'' of
          JUndef \<Rightarrow> vo_max_age vo = None
        | JNum i \<Rightarrow> (case vo_max_age vo of None \<Rightarrow> True
            | Some age \<Rightarrow> now - i * 1000 \<le> (age + tolerance vo) * 1000 \<and> i * 1000 \<le> now + tolerance vo * 1000)
        | _ \<Rightarrow> False)
     \<and> (case vo_issuer vo of None \<Rightarrow> True | Some iss \<Rightarrow> \<exists>s \<in> set (to_string_array iss). field c ''iss'' = JStr s)
     \<and> (case vo_audience vo of None \<Rightarrow> True
        | Some aud \<Rightarrow> \<exists>s \<in> set (to_string_array aud). JStr s \<in> set (audiences (field c ''aud'')))"

lemma or_else_None [simp]: "or_else x y = None \<longleftrightarrow> x = None \<and> y = None"
  by (auto simp: or_else_def split: option.splits)

lemma check_issuer_None: "check_issuer vo c = None \<longleftrightarrow>
    (case vo_issuer vo of None \<Rightarrow> True | Some iss \<Rightarrow> \<exists>s \<in> set (to_string_array iss). field c ''iss'' = JStr s)"
  by (auto simp: check_issuer_def Let_def split: option.splits jsval.splits)

lemma check_audience_None: "check_audience vo c = None \<longleftrightarrow>
    (case vo_audience vo of None \<Rightarrow> True
     | Some aud \<Rightarrow> \<exists>s \<in> set (to_string_array aud). JStr s \<in> set (audiences (field c ''aud'')))"
proof -
  have "list_ex (\<lambda>v. case v of JStr s \<Rightarrow> s \<in> S | _ \<Rightarrow> False) vs \<longleftrightarrow> (\<exists>s \<in> S. JStr s \<in> set vs)" for S vs
    by (induction vs) (auto split: jsval.splits)
  then show ?thesis by (auto simp: check_audience_def Let_def split: option.splits)
qed

lemma check_times_None: "check_times now vo c = None \<longleftrightarrow>
    numeric_or_absent (field c ''exp'') \<and> numeric_or_absent (field c ''nbf'') \<and> numeric_or_absent (field c ''iat'')
    \<and> (\<forall>n. field c ''nbf'' = JNum n \<longrightarrow> (n - tolerance vo) * 1000 \<le> now)"
  by (auto simp: check_times_def tolerance_def Let_def split: jsval.splits)

lemma check_expiry_None: "check_expiry now vo c = None \<longleftrightarrow> (\<forall>e. field c ''exp'' = JNum e \<longrightarrow> now < (e + tolerance vo) * 1000)"
  by (auto simp: check_expiry_def tolerance_def Let_def split: jsval.splits)

lemma check_age_None: "check_age now vo c = None \<longleftrightarrow>
    (case vo_max_age vo of None \<Rightarrow> True
     | Some age \<Rightarrow> \<exists>i. field c ''iat'' = JNum i \<and> now - i * 1000 \<le> (age + tolerance vo) * 1000
         \<and> i * 1000 \<le> now + tolerance vo * 1000)"
  by (auto simp: check_age_def tolerance_def Let_def not_less split: jsval.splits option.splits)

lemma validate_claims_None: "validate_claims now vo c = None \<longleftrightarrow> claims_current now vo c"
  unfolding validate_claims_def or_else_None check_issuer_None check_audience_None check_times_None check_expiry_None
    check_age_None claims_current_def numeric_or_absent_def
  by (auto split: jsval.splits option.splits)

lemma allowlist_loop_Inr: "allowlist_loop algs out = Inr r \<longleftrightarrow>
    r = out @ algs \<and> (\<forall>a \<in> set algs. \<not> none_alg a \<and> spec_of_alg a \<noteq> None)"
  by (induction algs arbitrary: out) auto

lemma allowlist_Inr: "validate_algorithm_allowlist algs = Inr r \<longleftrightarrow>
    r = algs \<and> algs \<noteq> [] \<and> (\<forall>a \<in> set algs. \<not> none_alg a \<and> spec_of_alg a \<noteq> None)"
  by (auto simp: validate_algorithm_allowlist_def allowlist_loop_Inr)

definition config_ok :: "verify_options \<Rightarrow> bool" where
  "config_ok vo \<longleftrightarrow> vo_algorithms vo \<noteq> [] \<and> (\<forall>a \<in> set (vo_algorithms vo). \<not> none_alg a \<and> spec_of_alg a \<noteq> None)
     \<and> (if vo_secret vo \<noteq> None
         then vo_public_key vo = None \<and> Option.is_none (vo_resolver vo) \<and> (\<forall>a \<in> set (vo_algorithms vo). alg_is Hmac a)
         else (vo_public_key vo = None \<longleftrightarrow> \<not> Option.is_none (vo_resolver vo))
           \<and> (\<forall>a \<in> set (vo_algorithms vo). \<not> alg_is Hmac a))"

lemma config_ok: "config_ok vo \<longleftrightarrow>
    validate_algorithm_allowlist (vo_algorithms vo) = Inr (vo_algorithms vo) \<and> check_options vo (vo_algorithms vo) = None"
  unfolding config_ok_def allowlist_Inr check_options_def some_count_def
  by (cases "vo_secret vo"; cases "vo_public_key vo"; cases "vo_resolver vo") (auto simp: list_ex_iff)

text \<open>The signature was made with the key the caller configured, which is of the algorithm's family.\<close>

definition authentic :: "crypto \<Rightarrow> verify_options \<Rightarrow> json_object \<Rightarrow> string \<Rightarrow> string \<Rightarrow> string \<Rightarrow> bool" where
  "authentic cr vo header alg data signature \<longleftrightarrow>
     (\<exists>spec kind key. spec_of_alg alg = Some spec \<and> verify_key cr vo header alg = Inr (kind, key) \<and>
        (if sp_family spec = Some Hmac
         then kind = SecretKind \<and> 32 \<le> ko_size key \<and> signature = cr_hmac cr (sp_hash spec) key data
         else kind \<noteq> SecretKind \<and> (sp_family spec = Some Rsa \<longrightarrow> ko_type key = Some ''rsa'')
           \<and> (sp_family spec = Some Ec \<longrightarrow> ko_type key = Some ''ec'' \<and> ko_curve key \<in> {None, Some [], sp_curve spec})
           \<and> cr_verify cr (sp_hash spec) (sp_family spec = Some Ec) key data signature = Some True))"

lemma assert_key_None: "assert_key_compatible alg spec (kind, key) False = None \<longleftrightarrow>
    (if sp_family spec = Some Hmac then kind = SecretKind \<and> 32 \<le> ko_size key
     else kind \<noteq> SecretKind \<and> (sp_family spec = Some Rsa \<longrightarrow> ko_type key = Some ''rsa'')
       \<and> (sp_family spec = Some Ec \<longrightarrow> ko_type key = Some ''ec'' \<and> ko_curve key \<in> {None, Some [], sp_curve spec}))"
  by (auto simp: assert_key_compatible_def min_hmac_secret_bytes_def split: option.splits list.splits)

lemma authentic_eq: "spec_of_alg alg = Some spec \<Longrightarrow>
    authentic cr vo header alg data signature \<longleftrightarrow>
      (\<exists>rk. verify_key cr vo header alg = Inr rk \<and> assert_key_compatible alg spec rk False = None
         \<and> verify_signature cr spec data signature (snd rk))"
  by (auto simp: authentic_def assert_key_None verify_signature_def split: if_splits)

lemma branches_Inr:
  "(case v of JStr a \<Rightarrow> f a | _ \<Rightarrow> Inl e) = Inr x \<longleftrightarrow> (\<exists>a. v = JStr a \<and> f a = Inr x)"
  "(if b then Inl e else r) = Inr x \<longleftrightarrow> \<not> b \<and> r = Inr x"
  "(case w of Some d \<Rightarrow> Inl (g d) | None \<Rightarrow> r) = Inr x \<longleftrightarrow> w = None \<and> r = Inr x"
  by (auto split: jsval.splits option.splits)

lemma verify_parts_Inr:
  assumes "\<forall>a \<in> set allow. \<not> none_alg a \<and> spec_of_alg a \<noteq> None"
  shows "verify_parts cr parse now vo allow h p s = Inr claims \<longleftrightarrow>
    (\<exists>header alg signature. decode_json parse h ''header'' = Inr header \<and> field header ''alg'' = JStr alg \<and> alg \<in> set allow
       \<and> b64url_decode s ''signature'' = Inr signature \<and> authentic cr vo header alg (utf8 (h @ ''.'' @ p)) signature
       \<and> decode_json parse p ''payload'' = Inr claims \<and> claims_current now vo claims)"
proof -
  have "verify_parts cr parse now vo allow h p s = Inr claims \<longleftrightarrow>
    (\<exists>header alg. decode_json parse h ''header'' = Inr header \<and> field header ''alg'' = JStr alg \<and> alg \<in> set allow \<and>
       (\<exists>rk. verify_key cr vo header alg = Inr rk \<and> assert_key_compatible alg (the (spec_of_alg alg)) rk False = None \<and>
         (\<exists>signature. b64url_decode s ''signature'' = Inr signature
            \<and> verify_signature cr (the (spec_of_alg alg)) (utf8 (h @ ''.'' @ p)) signature (snd rk)
            \<and> decode_json parse p ''payload'' = Inr claims \<and> claims_current now vo claims)))"
    using assms unfolding verify_parts_def Let_def sum_bind_Inr branches_Inr validate_claims_None
    by (intro iffI; elim exE conjE) auto
  also have "\<dots> \<longleftrightarrow> (\<exists>header alg signature. decode_json parse h ''header'' = Inr header \<and> field header ''alg'' = JStr alg
       \<and> alg \<in> set allow \<and> b64url_decode s ''signature'' = Inr signature \<and> authentic cr vo header alg (utf8 (h @ ''.'' @ p)) signature
       \<and> decode_json parse p ''payload'' = Inr claims \<and> claims_current now vo claims)"
    (is "?L \<longleftrightarrow> ?R")
  proof -
    have a: "alg \<in> set allow \<Longrightarrow> authentic cr vo header alg d sg \<longleftrightarrow>
        (\<exists>rk. verify_key cr vo header alg = Inr rk \<and> assert_key_compatible alg (the (spec_of_alg alg)) rk False = None
           \<and> verify_signature cr (the (spec_of_alg alg)) d sg (snd rk))" for alg header d sg
      using assms authentic_eq[of alg "the (spec_of_alg alg)"] by auto
    show ?thesis by (intro iffI; elim exE conjE) (auto simp: a)
  qed
  finally show ?thesis .
qed

lemma three_parts: "split_on c t = [h, p, s] \<longleftrightarrow> t = h @ [c] @ p @ [c] @ s \<and> c \<notin> set h \<and> c \<notin> set p \<and> c \<notin> set s"
proof
  assume s: "split_on c t = [h, p, s]"
  have "join_with [c] (split_on c t) = t" by simp
  moreover have "\<forall>q \<in> set (split_on c t). c \<notin> set q" using split_on_pieces by fastforce
  ultimately show "t = h @ [c] @ p @ [c] @ s \<and> c \<notin> set h \<and> c \<notin> set p \<and> c \<notin> set s" using s by simp
qed (simp add: split_on_append_sep split_on_no_sep)

lemma verify_jwt_Inr:
  "verify_jwt cr parse now vo token = Inr claims \<longleftrightarrow>
     config_ok vo \<and>
     (\<exists>h p s header alg signature.
        token = h @ ''.'' @ p @ ''.'' @ s \<and> CHR ''.'' \<notin> set h \<union> set p \<union> set s \<and>
        decode_json parse h ''header'' = Inr header \<and> field header ''alg'' = JStr alg \<and> alg \<in> set (vo_algorithms vo) \<and>
        b64url_decode s ''signature'' = Inr signature \<and> authentic cr vo header alg (utf8 (h @ ''.'' @ p)) signature \<and>
        decode_json parse p ''payload'' = Inr claims \<and> claims_current now vo claims)"
    (is "?L \<longleftrightarrow> config_ok vo \<and> (\<exists>h p s header alg signature. ?P h p s header alg signature)")
proof (cases "config_ok vo")
  case True
  then have v: "validate_algorithm_allowlist (vo_algorithms vo) = Inr (vo_algorithms vo)"
    "check_options vo (vo_algorithms vo) = None" "\<forall>a \<in> set (vo_algorithms vo). \<not> none_alg a \<and> spec_of_alg a \<noteq> None"
    unfolding config_ok allowlist_Inr by simp_all
  have ne: "decode_json parse [] w \<noteq> Inr x" "b64url_decode [] w \<noteq> Inr y" for w x y
    by (simp_all add: decode_json_def b64url_decode_def)
  have "?L \<longleftrightarrow> (\<exists>h p s. split_on (CHR ''.'') token = [h, p, s] \<and> verify_parts cr parse now vo (vo_algorithms vo) h p s = Inr claims)"
    using ne unfolding verify_jwt_def v(1) verify_parts_Inr[OF v(3)]
    by (auto simp: v(2) verify_parts_Inr[OF v(3)] split: list.splits)
  then show ?thesis
    unfolding verify_parts_Inr[OF v(3)] three_parts using True by auto
next
  case False
  then have "?L \<Longrightarrow> False"
    unfolding verify_jwt_def config_ok
    by (auto simp: sum_bind_Inr allowlist_Inr split: if_splits option.splits)
  then show ?thesis using False by blast
qed

text \<open>C9. A token is accepted exactly when the caller's configuration is consistent, its three parts are
  header, claims and signature, the header names an allowed algorithm, the signature over the first
  two parts was made with the configured key, which is of the algorithm's family, and the claims
  are current and meant for the verifier.\<close>

theorem verify_jwt_exact:
  "verify_jwt cr parse now vo token = Inr claims \<longleftrightarrow>
     config_ok vo \<and>
     (\<exists>h p s header alg signature.
        token = h @ ''.'' @ p @ ''.'' @ s \<and> CHR ''.'' \<notin> set h \<union> set p \<union> set s \<and>
        decode_json parse h ''header'' = Inr header \<and> field header ''alg'' = JStr alg \<and> alg \<in> set (vo_algorithms vo) \<and>
        b64url_decode s ''signature'' = Inr signature \<and> authentic cr vo header alg (utf8 (h @ ''.'' @ p)) signature \<and>
        decode_json parse p ''payload'' = Inr claims \<and> claims_current now vo claims)"
  by (rule verify_jwt_Inr)

subsection \<open>Algorithm confusion\<close>

lemma verify_parts_cong:
  assumes "\<And>inp. resolve_key cr' inp False = resolve_key cr inp False"
    and "\<And>alg. alg \<in> set allow \<Longrightarrow> verify_signature cr' (the (spec_of_alg alg)) = verify_signature cr (the (spec_of_alg alg))"
  shows "verify_parts cr' parse now vo allow h p s = verify_parts cr parse now vo allow h p s"
proof -
  have k: "verify_key cr' vo = verify_key cr vo"
    unfolding verify_key_def using assms(1) by (auto simp: fun_eq_iff split: option.splits)
  show ?thesis
    unfolding verify_parts_def k Let_def
  proof (rule arg_cong2[where f = sum_bind, OF refl], rule ext, goal_cases)
    case (1 header)
    show ?case
    proof (cases "\<exists>a. field header ''alg'' = JStr a \<and> a \<in> set allow")
      case True
      then obtain a where a: "field header ''alg'' = JStr a" "a \<in> set allow" by blast
      show ?thesis unfolding a(1) jsval.case assms(2)[OF a(2)] by (rule refl)
    qed (auto split: jsval.split)
  qed
qed

lemma alg_spec: "alg_is f alg \<Longrightarrow> sp_family (the (spec_of_alg alg)) = Some f"
  "spec_of_alg alg \<noteq> None \<Longrightarrow> \<not> alg_is f alg \<Longrightarrow> sp_family (the (spec_of_alg alg)) \<noteq> Some f"
  by (auto simp: alg_is_def split: option.splits)

lemma config_bad:
  assumes "\<not> config_ok vo"
  shows "verify_jwt cr' parse now vo token = verify_jwt cr parse now vo token"
proof (cases "validate_algorithm_allowlist (vo_algorithms vo)")
  case (Inr r)
  then have "r = vo_algorithms vo" by (simp add: allowlist_Inr)
  then show ?thesis using assms Inr by (auto simp: config_ok verify_jwt_def)
qed (simp add: verify_jwt_def)

text \<open>C10. No algorithm confusion. A verifier with a public key or a key set never computes an HMAC, so
  knowing the public key does not help to forge a token, whatever algorithm the token names; a
  verifier with a shared secret never runs the check of a public-key signature.\<close>

theorem jwt_no_confusion:
  "(vo_secret vo = None \<longrightarrow> verify_jwt (cr\<lparr>cr_hmac := f\<rparr>) parse now vo token = verify_jwt cr parse now vo token)
   \<and> (vo_secret vo \<noteq> None \<longrightarrow> verify_jwt (cr\<lparr>cr_verify := g\<rparr>) parse now vo token = verify_jwt cr parse now vo token)"
proof -
  have k: "resolve_key (cr\<lparr>cr_hmac := f\<rparr>) inp False = resolve_key cr inp False"
    "resolve_key (cr\<lparr>cr_verify := g\<rparr>) inp False = resolve_key cr inp False" for inp
    by (simp_all add: resolve_key_def split: key_input.splits)
  have s: "sp_family (the (spec_of_alg a)) \<noteq> Some Hmac \<Longrightarrow>
        verify_signature (cr\<lparr>cr_hmac := f\<rparr>) (the (spec_of_alg a)) = verify_signature cr (the (spec_of_alg a))"
    "sp_family (the (spec_of_alg a)) = Some Hmac \<Longrightarrow>
        verify_signature (cr\<lparr>cr_verify := g\<rparr>) (the (spec_of_alg a)) = verify_signature cr (the (spec_of_alg a))" for a
    by (simp_all add: verify_signature_def fun_eq_iff)
  have "verify_jwt (cr\<lparr>cr_hmac := f\<rparr>) parse now vo token = verify_jwt cr parse now vo token" if "vo_secret vo = None"
  proof (cases "config_ok vo")
    case True
    with that have "\<And>a. a \<in> set (vo_algorithms vo) \<Longrightarrow> sp_family (the (spec_of_alg a)) \<noteq> Some Hmac"
      unfolding config_ok_def by (intro alg_spec(2)) auto
    then have "verify_parts (cr\<lparr>cr_hmac := f\<rparr>) parse now vo (vo_algorithms vo) = verify_parts cr parse now vo (vo_algorithms vo)"
      by (intro ext verify_parts_cong k s)
    then show ?thesis using True unfolding config_ok verify_jwt_def by (auto split: list.splits)
  qed (rule config_bad)
  moreover have "verify_jwt (cr\<lparr>cr_verify := g\<rparr>) parse now vo token = verify_jwt cr parse now vo token" if "vo_secret vo \<noteq> None"
  proof (cases "config_ok vo")
    case True
    with that have "\<And>a. a \<in> set (vo_algorithms vo) \<Longrightarrow> sp_family (the (spec_of_alg a)) = Some Hmac"
      unfolding config_ok_def by (intro alg_spec(1)) auto
    then have "verify_parts (cr\<lparr>cr_verify := g\<rparr>) parse now vo (vo_algorithms vo) = verify_parts cr parse now vo (vo_algorithms vo)"
      by (intro ext verify_parts_cong k s)
    then show ?thesis using True unfolding config_ok verify_jwt_def by (auto split: list.splits)
  qed (rule config_bad)
  ultimately show ?thesis by blast
qed

subsection \<open>What is signed verifies\<close>

definition sign_key :: "sign_options \<Rightarrow> key_input option" where
  "sign_key so = (case so_private_key so of Some k \<Rightarrow> Some k | None \<Rightarrow> so_secret so)"

text \<open>A key to sign with and the key a verifier looks up belong together: what the first signs, the second
  verifies.\<close>

definition key_pair :: "crypto \<Rightarrow> sign_options \<Rightarrow> verify_options \<Rightarrow> bool" where
  "key_pair cr so vo \<longleftrightarrow>
     (let alg = so_algorithm so; spec = the (spec_of_alg alg)
      in case verify_key cr vo (sign_header alg so) alg of
           Inl _ \<Rightarrow> False
         | Inr vk \<Rightarrow> assert_key_compatible alg spec vk False = None \<and>
             (\<forall>inp kind key data signature. sign_key so = Some inp \<longrightarrow> resolve_key cr inp True = Inr (kind, key) \<longrightarrow>
                signature_payload cr spec data key = Inr signature \<longrightarrow>
                signature \<noteq> [] \<and> verify_signature cr spec data signature (snd vk)))"

lemma json_text_nonempty: "utf8 (json_text kvs) \<noteq> []"
  by (simp add: json_text_def utf8_def utf8_char_def Let_def)

lemma decode_json_encoded:
  "parse (utf8 (json_text kvs)) = Some (JObj kvs) \<Longrightarrow> decode_json parse (b64url_encode (utf8 (json_text kvs))) what = Inr kvs"
  by (simp add: decode_json_def json_text_nonempty)

lemma field_sign_header: "field (sign_header alg so) ''alg'' = JStr alg"
  by (simp add: field_def sign_header_def Let_def split: option.split list.split)

text \<open>C13. A token that \<open>signJwt\<close> issued is accepted by every verifier whose key belongs to the signing key,
  whose options allow its algorithm and whose demands its claims meet; the verifier gets back exactly
  the claims that were signed. \<open>JSON.parse\<close> must read back what \<open>JSON.stringify\<close> wrote for the two objects.\<close>

theorem sign_verify_round_trip:
  assumes "sign_jwt cr signed_at payload so = Inr token"
    and "config_ok vo" "so_algorithm so \<in> set (vo_algorithms vo)" "key_pair cr so vo"
    and "\<forall>kvs \<in> {sign_header (so_algorithm so) so, sign_claims (signed_at div 1000) so payload}.
           parse (utf8 (json_text kvs)) = Some (JObj kvs)"
    and "claims_current now vo (sign_claims (signed_at div 1000) so payload)"
  shows "verify_jwt cr parse now vo token = Inr (sign_claims (signed_at div 1000) so payload)"
proof -
  let ?alg = "so_algorithm so" and ?claims = "sign_claims (signed_at div 1000) so payload"
  let ?header = "sign_header ?alg so" and ?e = "\<lambda>kvs. b64url_encode (utf8 (json_text kvs))"
  let ?spec = "the (spec_of_alg ?alg)"
  obtain inp kind key signature where t: "sign_key so = Some inp" "resolve_key cr inp True = Inr (kind, key)"
    "signature_payload cr ?spec (utf8 (signing_input ?header ?claims)) key = Inr signature"
    "token = signing_input ?header ?claims @ ''.'' @ b64url_encode signature"
    using assms(1) unfolding sign_jwt_def sign_key_def[symmetric] Let_def
    by (auto simp: sum_bind_Inr split: option.splits)
  obtain vk where vk: "verify_key cr vo ?header ?alg = Inr vk" "assert_key_compatible ?alg ?spec vk False = None"
    "signature \<noteq> []" "verify_signature cr ?spec (utf8 (signing_input ?header ?claims)) signature (snd vk)"
    using assms(4) t unfolding key_pair_def Let_def by (auto split: sum.splits)
  have sp: "spec_of_alg ?alg = Some ?spec" using assms(2,3) by (auto simp: config_ok_def)
  have si: "signing_input ?header ?claims = ?e ?header @ ''.'' @ ?e ?claims" by (simp add: signing_input_def)
  have "token = ?e ?header @ ''.'' @ ?e ?claims @ ''.'' @ b64url_encode signature"
    "CHR ''.'' \<notin> set (?e ?header) \<union> set (?e ?claims) \<union> set (b64url_encode signature)"
    by (simp_all add: t(4) si b64url_encode_dot)
  moreover have "authentic cr vo ?header ?alg (utf8 (?e ?header @ ''.'' @ ?e ?claims)) signature"
    using authentic_eq[OF sp] vk unfolding si by blast
  moreover have "b64url_decode (b64url_encode signature) ''signature'' = Inr signature" using vk(3) by simp
  moreover have "decode_json parse (?e ?header) ''header'' = Inr ?header" "decode_json parse (?e ?claims) ''payload'' = Inr ?claims"
    using assms(5) by (simp_all add: decode_json_encoded)
  ultimately show ?thesis
    unfolding verify_jwt_Inr using assms(2,3,6) field_sign_header[of ?alg so] by blast
qed

definition demo_key :: key_object where
  "demo_key = \<lparr> ko_kind = SecretKind, ko_size = 32, ko_type = None, ko_curve = None, ko_material = ''k'' \<rparr>"

definition demo_crypto :: crypto where
  "demo_crypto = \<lparr> cr_private_key = (\<lambda>_. Inl (plain_error ''no'')), cr_public_key = (\<lambda>_. Inl (plain_error ''no'')),
     cr_public_of = (\<lambda>k. k), cr_secret_key = (\<lambda>b. demo_key\<lparr>ko_material := b\<rparr>),
     cr_hmac = (\<lambda>h k d. ko_material k @ show_nat (length d)),
     cr_sign = (\<lambda>h ec k d. Inl (plain_error ''no'')), cr_verify = (\<lambda>h ec k d s. Some False) \<rparr>"

definition demo_sign :: sign_options where
  "demo_sign = \<lparr> so_algorithm = ''HS256'', so_secret = Some (KeyObj demo_key), so_private_key = None, so_expires_in = Some 60,
     so_not_before = None, so_issuer = None, so_audience = None, so_subject = Some ''u'', so_jwtid = None, so_keyid = None,
     so_no_timestamp = True, so_header = [] \<rparr>"

definition demo_verify :: verify_options where
  "demo_verify = \<lparr> vo_algorithms = [''HS256''], vo_secret = Some (KeyObj demo_key), vo_public_key = None, vo_resolver = None,
     vo_issuer = None, vo_audience = None, vo_tolerance = None, vo_max_age = None \<rparr>"

definition demo_claims :: json_object where
  "demo_claims = [(''exp'', JNum 62), (''sub'', JStr ''u'')]"

definition demo_header :: json_object where
  "demo_header = [(''alg'', JStr ''HS256''), (''typ'', JStr ''JWT'')]"

definition demo_parse :: json_parser where
  "demo_parse t = (if t = utf8 (json_text demo_header) then Some (JObj demo_header)
     else if t = utf8 (json_text demo_claims) then Some (JObj demo_claims) else None)"

theorem sign_verify_round_trip_witness:
  "\<exists>token. sign_jwt demo_crypto 2500 [] demo_sign = Inr token
     \<and> verify_jwt demo_crypto demo_parse 61999 demo_verify token = Inr demo_claims"
proof -
  have "\<not> isl (sign_jwt demo_crypto 2500 [] demo_sign)" by code_simp
  then obtain token where t: "sign_jwt demo_crypto 2500 [] demo_sign = Inr token"
    by (cases "sign_jwt demo_crypto 2500 [] demo_sign") auto
  have c: "sign_claims (2500 div 1000) demo_sign [] = demo_claims" by code_simp
  have h: "sign_header (so_algorithm demo_sign) demo_sign = demo_header" by code_simp
  have "utf8 (json_text demo_claims) \<noteq> utf8 (json_text demo_header)" by code_simp
  then have p: "\<forall>kvs \<in> {demo_header, demo_claims}. demo_parse (utf8 (json_text kvs)) = Some (JObj kvs)"
    by (simp add: demo_parse_def)
  have "verify_key demo_crypto demo_verify demo_header ''HS256'' = Inr (SecretKind, demo_key)"
    "assert_key_compatible ''HS256'' (the (spec_of_alg ''HS256'')) (SecretKind, demo_key) False = None"
    "sp_family (the (spec_of_alg ''HS256'')) = Some Hmac" by code_simp+
  then have k: "key_pair demo_crypto demo_sign demo_verify"
    unfolding key_pair_def Let_def h
    by (auto simp: demo_sign_def sign_key_def resolve_key_def demo_key_def signature_payload_def verify_signature_def demo_crypto_def)
  have "config_ok demo_verify" "so_algorithm demo_sign \<in> set (vo_algorithms demo_verify)"
    "claims_current 61999 demo_verify demo_claims" by code_simp+
  with sign_verify_round_trip[OF t _ _ k, of demo_parse 61999] p t show ?thesis unfolding c h by blast
qed

definition demo_public :: verify_options where
  "demo_public = demo_verify\<lparr>vo_algorithms := [''RS256''], vo_secret := None, vo_public_key := Some (KeyText ''-----BEGIN PUBLIC KEY'')\<rparr>"

theorem jwt_no_confusion_witness:
  "vo_secret demo_public = None \<and> vo_secret demo_verify \<noteq> None
   \<and> verify_jwt (demo_crypto\<lparr>cr_hmac := \<lambda>_ _ _. ''forged''\<rparr>) demo_parse 0 demo_public ''e30.e30.Zm9yZ2Vk''
     = verify_jwt demo_crypto demo_parse 0 demo_public ''e30.e30.Zm9yZ2Vk''
   \<and> verify_jwt (demo_crypto\<lparr>cr_verify := \<lambda>_ _ _ _ _. Some True\<rparr>) demo_parse 0 demo_verify ''e30.e30.Zm9yZ2Vk''
     = verify_jwt demo_crypto demo_parse 0 demo_verify ''e30.e30.Zm9yZ2Vk''"
proof -
  have "vo_secret demo_public = None" "vo_secret demo_verify \<noteq> None" by (simp_all add: demo_public_def demo_verify_def)
  then show ?thesis using jwt_no_confusion by blast
qed

subsection \<open>Decoding UTF-8\<close>

text \<open>Decoding UTF-8: a character above 255 is outside the model and reads as \<open>?\<close>, as an invalid byte does.\<close>

fun utf8_decode :: "string \<Rightarrow> string" where
  "utf8_decode [] = []"
| "utf8_decode (a # s) =
     (let n = (of_char a :: nat)
      in if n < 128 then a # utf8_decode s
         else (case s of
                 b # t \<Rightarrow>
                   (let m = (of_char b :: nat)
                    in if (n = 194 \<or> n = 195) \<and> 128 \<le> m \<and> m < 192 then char_of ((n - 192) * 64 + (m - 128)) # utf8_decode t
                       else CHR ''?'' # utf8_decode s)
               | [] \<Rightarrow> [CHR ''?'']))"

lemma utf8_decode_char: "utf8_decode (utf8_char c @ s) = c # utf8_decode s"
proof (cases "(of_char c :: nat) < 128")
  case True
  then show ?thesis by (simp add: utf8_char_def)
next
  case False
  let ?n = "of_char c :: nat"
  have n: "?n < 256" by (rule of_char_less_256)
  have d: "?n div 64 = 2 \<or> ?n div 64 = 3" using False n by linarith
  have m: "?n mod 64 < 64" by simp
  have a: "(of_char (char_of (192 + ?n div 64) :: char) :: nat) = 192 + ?n div 64" using d by auto
  have b: "(of_char (char_of (128 + ?n mod 64) :: char) :: nat) = 128 + ?n mod 64" using m by simp
  have e: "?n = 64 * (?n div 64) + ?n mod 64" by (rule mult_div_mod_eq[symmetric])
  have c: "(char_of ?n :: char) = c" by simp
  have c2: "(char_of (128 + ?n mod 64) :: char) = c" if "?n div 64 = 2"
  proof -
    have "128 + ?n mod 64 = ?n" using e that by linarith
    then show ?thesis using c by (simp only:)
  qed
  have c3: "(char_of (192 + ?n mod 64) :: char) = c" if "?n div 64 = 3"
  proof -
    have "192 + ?n mod 64 = ?n" using e that by linarith
    then show ?thesis using c by (simp only:)
  qed
  show ?thesis using False d m by (auto simp: utf8_char_def Let_def a b c2 c3)
qed

lemma utf8_decode_encode [simp]: "utf8_decode (utf8 s) = s"
  by (induction s) (simp_all add: utf8_def utf8_decode_char)

end
