(* ===== verification/Api_Key.thy ===== *)
theory Api_Key
  imports Token_Auth Jwt_Props
begin

text \<open>
  \<open>packages/auth/src/apikey.ts\<close> (keys \<open>ax_<id>_<secret>\<close>, their hashes, the plugin) and
  \<open>packages/auth/src/jwks.ts\<close> (the cache of a key set behind a URL). PBKDF2 is the parameter \<open>kdf\<close>
  (secret, salt, iterations, length), \<open>crypto.createPublicKey\<close> of a JWK the parameter \<open>import_jwk\<close>; what
  the network returned is an argument. \<open>getKey\<close> runs in one piece: concurrent calls share one fetch.
\<close>

subsection \<open>Hashes of secrets\<close>

type_synonym kdf = "string \<Rightarrow> string \<Rightarrow> nat \<Rightarrow> nat \<Rightarrow> string"

record key_hash =
  kh_iterations :: nat
  kh_salt :: string
  kh_digest :: string

definition hex_text :: "string \<Rightarrow> string" where
  "hex_text bytes = concat (map (\<lambda>c. [hex_digit (of_char c div 16), hex_digit (of_char c mod 16)]) bytes)"

fun hex_bytes :: "string \<Rightarrow> string" where
  "hex_bytes (a # b # s) =
     (case (hex_val a, hex_val b) of (Some x, Some y) \<Rightarrow> char_of (16 * x + y) # hex_bytes s | _ \<Rightarrow> [])"
| "hex_bytes _ = []"

definition is_hex :: "char \<Rightarrow> bool" where
  "is_hex c \<longleftrightarrow> hex_val c \<noteq> None"

definition is_dec :: "char \<Rightarrow> bool" where
  "is_dec c \<longleftrightarrow> 48 \<le> (of_char c :: nat) \<and> of_char c \<le> (57 :: nat)"

definition decimal :: "string \<Rightarrow> nat" where
  "decimal s = fold (\<lambda>c n. 10 * n + (of_char c - 48)) s 0"

definition match_dollar :: "string \<Rightarrow> (string \<times> string \<times> string) option" where
  "match_dollar h =
     (case split_on (CHR ''$'') h of
        [p, i, s, d] \<Rightarrow>
          if to_lower p = ''pbkdf2'' \<and> i \<noteq> [] \<and> list_all is_dec i \<and> s \<noteq> [] \<and> list_all is_hex s \<and> d \<noteq> [] \<and> list_all is_hex d
          then Some (i, s, d) else None
      | _ \<Rightarrow> None)"

definition match_colon :: "string \<Rightarrow> (string \<times> string \<times> string) option" where
  "match_colon h =
     (case split_on (CHR '':'') h of
        [p, a, i, s, d] \<Rightarrow>
          if to_lower p = ''pbkdf2'' \<and> to_lower a = ''sha256'' \<and> i \<noteq> [] \<and> list_all is_dec i
            \<and> length s = 32 \<and> list_all is_hex s \<and> length d = 64 \<and> list_all is_hex d
          then Some (i, s, d) else None
      | _ \<Rightarrow> None)"

definition match_hash :: "string \<Rightarrow> (string \<times> string \<times> string) option" where
  "match_hash h = (case match_dollar h of Some m \<Rightarrow> Some m | None \<Rightarrow> match_colon h)"

definition pbkdf2_iterations :: nat where "pbkdf2_iterations = 10000"
definition pbkdf2_salt_bytes :: nat where "pbkdf2_salt_bytes = 16"
definition pbkdf2_keylen :: nat where "pbkdf2_keylen = 32"

definition hash_api_key_secret :: "kdf \<Rightarrow> string \<Rightarrow> string \<Rightarrow> string" where
  "hash_api_key_secret kdf secret salt =
     ''pbkdf2$'' @ show_nat pbkdf2_iterations @ ''$'' @ hex_text salt @ ''$''
       @ hex_text (kdf secret salt pbkdf2_iterations pbkdf2_keylen)"

definition hash_api_key_secret_pbkdf2 :: "kdf \<Rightarrow> string \<Rightarrow> nat option \<Rightarrow> string \<Rightarrow> string" where
  "hash_api_key_secret_pbkdf2 kdf secret iterations salt_hex =
     (let n = (case iterations of Some i \<Rightarrow> i | None \<Rightarrow> pbkdf2_iterations)
      in ''pbkdf2:sha256:'' @ show_nat n @ '':'' @ salt_hex @ '':'' @ hex_text (kdf secret (hex_bytes salt_hex) n pbkdf2_keylen))"

text \<open>Whether a secret matches, and how many PBKDF2 iterations that took.\<close>

definition secret_matches :: "kdf \<Rightarrow> string \<Rightarrow> string \<Rightarrow> bool \<times> nat" where
  "secret_matches kdf secret hashed =
     (case match_hash hashed of
        Some (i, s, d) \<Rightarrow>
          let n = decimal i; stored = hex_bytes d
          in if n = 0 then (False, 0)
             else (kdf secret (hex_bytes s) n (length stored) = stored, n)
      | None \<Rightarrow> (False, 1))"

subsection \<open>Keys\<close>

definition max_key_length :: nat where "max_key_length = 512"

definition parse_api_key :: "string \<Rightarrow> (string \<times> string) option" where
  "parse_api_key raw =
     (if raw = [] \<or> length raw > max_key_length \<or> \<not> starts_with raw ''ax_'' then None
      else
        let rest = drop 3 raw; i = takeWhile (\<lambda>c. c \<noteq> CHR ''_'') rest; s = drop (Suc (length i)) rest
        in if CHR ''_'' \<notin> set rest \<or> i = [] \<or> s = [] then None else Some (i, s))"

definition generate_api_key :: "kdf \<Rightarrow> string \<Rightarrow> string \<Rightarrow> string \<Rightarrow> thrown + (string \<times> string \<times> string)" where
  "generate_api_key kdf key_id random salt =
     (if CHR ''_'' \<in> set key_id then Inl (plain_error ''[axiomify/auth] API key ids must not contain \"_\"'')
      else
        let secret = b64url_encode random
        in Inr (''ax_'' @ key_id @ ''_'' @ secret, key_id, hash_api_key_secret kdf secret salt))"

record api_key_record =
  ak_hash :: string
  ak_scopes :: "string list option"
  ak_meta :: "jsval option"

datatype static_key = PlainKey string | RecordKey api_key_record

text \<open>The salts of the secrets hashed at startup are drawn in order.\<close>

fun normalize_static_keys :: "kdf \<Rightarrow> string list \<Rightarrow> (string, static_key) jsmap \<Rightarrow> (string, api_key_record) jsmap \<Rightarrow> thrown + (string, api_key_record) jsmap" where
  "normalize_static_keys kdf salts [] out = Inr out"
| "normalize_static_keys kdf salts ((i, v) # kvs) out =
     (if CHR ''_'' \<in> set i then
        Inl (plain_error (''[axiomify/auth] API key id \"'' @ i @ ''\" must not contain \"_\" (reserved as the key-format separator)''))
      else
        case v of
          PlainKey secret \<Rightarrow>
            normalize_static_keys kdf (tl salts) kvs
              (AList.update i \<lparr> ak_hash = hash_api_key_secret kdf secret (hd salts), ak_scopes = None, ak_meta = None \<rparr> out)
        | RecordKey r \<Rightarrow>
            if match_hash (ak_hash r) = None then
              Inl (plain_error (''[axiomify/auth] API key \"'' @ i @ ''\" hashedKey must be a valid PBKDF2 hash or 64-char hex SHA-256 digest. ''
                @ ''Generate one with hashApiKeySecret(secret).''))
            else normalize_static_keys kdf salts kvs (AList.update i r out))"

type_synonym key_lookup = "string \<Rightarrow> thrown + api_key_record option"

definition lookup_failed :: thrown where
  "lookup_failed = ThrowErr (mk_error (Some 503) ''API key lookup failed'')"

definition static_lookup :: "(string, api_key_record) jsmap \<Rightarrow> key_lookup" where
  "static_lookup ks i = Inr (map_of ks i)"

definition resolve_record :: "key_lookup \<Rightarrow> string \<Rightarrow> thrown + api_key_record option" where
  "resolve_record lookup i = (case lookup i of Inl _ \<Rightarrow> Inl lookup_failed | Inr r \<Rightarrow> Inr r)"

definition header_value :: "request \<Rightarrow> string \<Rightarrow> string option" where
  "header_value req name = (case map_of (rq_headers req) name of Some (v # _) \<Rightarrow> Some v | _ \<Rightarrow> None)"

record api_key_options =
  ko_header :: string
  ko_default_scopes :: "string list"
  ko_lookup :: key_lookup

definition create_api_key_plugin ::
    "kdf \<Rightarrow> string list \<Rightarrow> (string, static_key) jsmap option \<Rightarrow> key_lookup option \<Rightarrow> string option \<Rightarrow> string list option \<Rightarrow> thrown + api_key_options" where
  "create_api_key_plugin kdf salts static lookup header scopes =
     (let opts = \<lparr> ko_header = to_lower (case header of Some h \<Rightarrow> h | None \<Rightarrow> ''x-api-key''),
                   ko_default_scopes = (case scopes of Some s \<Rightarrow> s | None \<Rightarrow> []), ko_lookup = (\<lambda>_. Inr None) \<rparr>
      in case (static, lookup) of
           (None, None) \<Rightarrow> Inl (plain_error ''[axiomify/auth] createApiKeyPlugin requires `keys` or `lookup`'')
         | (Some _, Some _) \<Rightarrow> Inl (plain_error ''[axiomify/auth] createApiKeyPlugin accepts `keys` OR `lookup`, not both'')
         | (Some kvs, None) \<Rightarrow> sum_bind (normalize_static_keys kdf salts kvs []) (\<lambda>m. Inr (opts\<lparr>ko_lookup := static_lookup m\<rparr>))
         | (None, Some f) \<Rightarrow> Inr (opts\<lparr>ko_lookup := f\<rparr>))"

definition api_key_user :: "string \<Rightarrow> string list \<Rightarrow> jsval" where
  "api_key_user i scopes = JObj [(''id'', JStr i), (''scopes'', JArr (map JStr scopes)), (''authType'', JStr ''api-key'')]"

definition api_key_info :: "string \<Rightarrow> string list \<Rightarrow> jsval option \<Rightarrow> jsval" where
  "api_key_info i scopes meta = JObj ([(''id'', JStr i), (''scopes'', JArr (map JStr scopes))]
     @ (case meta of Some m \<Rightarrow> [(''meta'', m)] | None \<Rightarrow> []))"

definition set_state :: "string \<Rightarrow> jsval \<Rightarrow> 's auth_world act" where
  "set_state k v w = (case state_set k v (aw_state w) of (e, st) \<Rightarrow> (map_option state_thrown e, w\<lparr>aw_state := st\<rparr>))"

definition require_api_key ::
    "kdf \<Rightarrow> serializer \<Rightarrow> api_key_options \<Rightarrow> string list option \<Rightarrow> request \<Rightarrow> 's auth_world act" where
  "require_api_key kdf ser opts scopes req w =
     (let required = (case scopes of Some s \<Rightarrow> s | None \<Rightarrow> ko_default_scopes opts)
      in case header_value req (ko_header opts) of
           Some (c # raw) \<Rightarrow>
             (case parse_api_key (trim (c # raw)) of
                None \<Rightarrow> answer ser 401 ''Unauthorized: Malformed API key'' w
              | Some (i, secret) \<Rightarrow>
                  (case resolve_record (ko_lookup opts) i of
                     Inl t \<Rightarrow> (Some t, w)
                   | Inr rec \<Rightarrow>
                       (case rec of
                          None \<Rightarrow> answer ser 401 ''Unauthorized: Invalid API key'' w
                        | Some r \<Rightarrow>
                            if \<not> fst (secret_matches kdf secret (ak_hash r))
                            then answer ser 401 ''Unauthorized: Invalid API key'' w
                            else
                              let granted = (case ak_scopes r of Some s \<Rightarrow> s | None \<Rightarrow> []);
                                  missing = filter (\<lambda>s. s \<notin> set granted) required
                              in if missing \<noteq> [] then
                                   answer ser 403 (''Forbidden: API key missing required scope(s): '' @ join_with '', '' missing) w
                                 else seq_act (set_state ''user'' (api_key_user i granted))
                                        (set_state ''apiKey'' (api_key_info i granted (ak_meta r))) w)))
         | _ \<Rightarrow> answer ser 401 ''Unauthorized: Missing API key'' w)"

text \<open>What a request with a well-formed key costs: the hash compared for an unknown id is the empty text.\<close>

definition key_cost :: "kdf \<Rightarrow> api_key_record option \<Rightarrow> string \<Rightarrow> nat" where
  "key_cost kdf rec secret = snd (secret_matches kdf secret (case rec of Some r \<Rightarrow> ak_hash r | None \<Rightarrow> []))"

subsection \<open>Key sets\<close>

record cached_key =
  ck_key :: key_object
  ck_kty :: string
  ck_crv :: "string option"
  ck_alg :: "string option"

record jwks_options =
  jo_cache_ttl :: int
  jo_cooldown :: int
  jo_max_keys :: nat

definition min_cooldown_ms :: int where "min_cooldown_ms = 30000"

definition jwks_options_new :: "int option \<Rightarrow> int option \<Rightarrow> nat option \<Rightarrow> jwks_options" where
  "jwks_options_new ttl cooldown max_keys =
     \<lparr> jo_cache_ttl = (case ttl of Some t \<Rightarrow> t | None \<Rightarrow> 600000),
       jo_cooldown = max (case cooldown of Some c \<Rightarrow> c | None \<Rightarrow> min_cooldown_ms) min_cooldown_ms,
       jo_max_keys = (case max_keys of Some n \<Rightarrow> n | None \<Rightarrow> 32) \<rparr>"

record jwks =
  jw_keys :: "(string, cached_key) jsmap"
  jw_fetched_at :: int
  jw_last_attempt :: int

definition jwks_clear :: jwks where
  "jwks_clear = \<lparr> jw_keys = [], jw_fetched_at = 0, jw_last_attempt = 0 \<rparr>"

text \<open>What an algorithm needs; the table inherits from \<open>Object.prototype\<close> too.\<close>

definition alg_requirement :: "string \<Rightarrow> (string option \<times> string option) option" where
  "alg_requirement alg =
     (case map_of [(''RS256'', (Some ''RSA'', None)), (''RS384'', (Some ''RSA'', None)), (''RS512'', (Some ''RSA'', None)),
                   (''ES256'', (Some ''EC'', Some ''P-256'')), (''ES384'', (Some ''EC'', Some ''P-384''))] alg of
        Some r \<Rightarrow> Some r
      | None \<Rightarrow> if alg \<in> set object_prototype then Some (None, None) else None)"

definition key_compatible :: "string option \<times> string option \<Rightarrow> cached_key \<Rightarrow> bool" where
  "key_compatible req k \<longleftrightarrow> fst req = Some (ck_kty k) \<and> (snd req = None \<or> ck_crv k = snd req)"

definition jwks_lookup :: "string option \<Rightarrow> string option \<times> string option \<Rightarrow> jwks \<Rightarrow> cached_key option" where
  "jwks_lookup kid req j =
     (case kid of
        Some i \<Rightarrow> (case map_of (jw_keys j) i of Some k \<Rightarrow> if key_compatible req k then Some k else None | None \<Rightarrow> None)
      | None \<Rightarrow> (case filter (key_compatible req) (map snd (jw_keys j)) of [k] \<Rightarrow> Some k | _ \<Rightarrow> None))"

datatype fetched = FetchFailed string | FetchStatus int | FetchBadJson | FetchBody jsval

definition jwks_fetch_error :: "string \<Rightarrow> thrown" where
  "jwks_fetch_error msg = ThrowErr (mk_error (Some 503) msg)"

definition str_opt :: "jsval \<Rightarrow> string option" where
  "str_opt v = (case v of JStr s \<Rightarrow> Some s | _ \<Rightarrow> None)"

definition jwk_usable :: "jsval \<Rightarrow> bool" where
  "jwk_usable jwk \<longleftrightarrow> prop_of jwk ''kty'' \<in> {JStr ''RSA'', JStr ''EC''} \<and> prop_of jwk ''use'' \<in> {JUndef, JStr ''sig''}
     \<and> (case prop_of jwk ''key_ops'' of JArr ops \<Rightarrow> JStr ''verify'' \<in> set ops | _ \<Rightarrow> True)
     \<and> (case prop_of jwk ''kid'' of JStr (c # r) \<Rightarrow> True | _ \<Rightarrow> False)"

fun jwk_loop :: "(jsval \<Rightarrow> key_object option) \<Rightarrow> nat \<Rightarrow> jsval list \<Rightarrow> (string, cached_key) jsmap \<Rightarrow> (string, cached_key) jsmap" where
  "jwk_loop import_jwk max_keys [] next = next"
| "jwk_loop import_jwk max_keys (jwk # rest) next =
     (if length next \<ge> max_keys then next
      else if \<not> jwk_usable jwk then jwk_loop import_jwk max_keys rest next
      else
        case import_jwk jwk of
          None \<Rightarrow> jwk_loop import_jwk max_keys rest next
        | Some key \<Rightarrow>
            if ko_kind key \<noteq> PublicKind then jwk_loop import_jwk max_keys rest next
            else jwk_loop import_jwk max_keys rest
              (AList.update (the (str_opt (prop_of jwk ''kid'')))
                \<lparr> ck_key = key, ck_kty = the (str_opt (prop_of jwk ''kty'')), ck_crv = str_opt (prop_of jwk ''crv''),
                  ck_alg = str_opt (prop_of jwk ''alg'') \<rparr> next))"

text \<open>A fetch that starts at \<open>now\<close> and whose answer is there at \<open>done_at\<close>.\<close>

definition fetch_keys :: "jwks_options \<Rightarrow> (jsval \<Rightarrow> key_object option) \<Rightarrow> string \<Rightarrow> int \<Rightarrow> fetched \<Rightarrow> int \<Rightarrow> jwks \<Rightarrow> thrown option \<times> jwks" where
  "fetch_keys opts import_jwk url now got done_at j =
     (let j1 = j\<lparr>jw_last_attempt := now\<rparr>
      in case got of
           FetchFailed m \<Rightarrow> (Some (jwks_fetch_error (''JWKS fetch failed for '' @ url @ '': '' @ m)), j1)
         | FetchStatus code \<Rightarrow> (Some (jwks_fetch_error (''JWKS endpoint '' @ url @ '' responded '' @ show_int code)), j1)
         | FetchBadJson \<Rightarrow> (Some (jwks_fetch_error (''JWKS endpoint '' @ url @ '' returned invalid JSON'')), j1)
         | FetchBody body \<Rightarrow>
             (case prop_of body ''keys'' of
                JArr ks \<Rightarrow> (None, j1\<lparr>jw_keys := jwk_loop import_jwk (jo_max_keys opts) ks [], jw_fetched_at := done_at\<rparr>)
              | _ \<Rightarrow> (Some (jwks_fetch_error (''JWKS document from '' @ url @ '' has no \"keys\" array'')), j1)))"

definition key_not_found :: "string option \<Rightarrow> jwt_thrown" where
  "key_not_found kid = JwtError (case kid of
       Some (c # r) \<Rightarrow> ''JWT verification key \"'' @ (c # r) @ ''\" not found in JWKS''
     | _ \<Rightarrow> ''JWT has no \"kid\" and the JWKS has no single unambiguous compatible key'')"

text \<open>The third component tells whether the network was asked.\<close>

definition jwks_get_key ::
    "jwks_options \<Rightarrow> (jsval \<Rightarrow> key_object option) \<Rightarrow> string \<Rightarrow> string option \<Rightarrow> string \<Rightarrow> int \<Rightarrow> fetched \<Rightarrow> int \<Rightarrow> jwks
      \<Rightarrow> (jwt_thrown + key_object) \<times> jwks \<times> bool" where
  "jwks_get_key opts import_jwk url kid alg now got done_at j =
     (case alg_requirement alg of
        None \<Rightarrow> (Inl (JwtError (''JWKS cannot provide keys for algorithm \"'' @ alg @ ''\" '' @ [CHR 0xE2, CHR 0x80, CHR 0x94]
                  @ '' only RS*/ES* are supported'')), j, False)
      | Some req \<Rightarrow>
          let fresh = (jw_fetched_at j \<noteq> 0 \<and> now - jw_fetched_at j < jo_cache_ttl opts);
              finish = (\<lambda>j. case jwks_lookup kid req j of Some k \<Rightarrow> Inr (ck_key k) | None \<Rightarrow> Inl (key_not_found kid));
              refetch = (case fetch_keys opts import_jwk url now got done_at j of
                           (Some t, j') \<Rightarrow> (Inl (OtherThrown t), j', True)
                         | (None, j') \<Rightarrow> (finish j', j', True))
          in if \<not> fresh then refetch
             else if jwks_lookup kid req j = None \<and> now - jw_last_attempt j \<ge> jo_cooldown opts then refetch
             else (finish j, j, False))"

end
