(* ===== verification/Token_Auth_Props.thy ===== *)
theory Token_Auth_Props
  imports Token_Auth Jwt_Props
begin

text \<open>
  The contract of a token store (locale \<open>token_store\<close>), kept by \<open>MemoryTokenStore\<close>; what the plugin lets
  through; what a refresh does to the store on every outcome, that refreshes which do not overlap
  spend a token once, and that refreshes which overlap spend it twice.
\<close>

subsection \<open>What a store promises\<close>

text \<open>\<open>live t j s\<close>: the store answers at time \<open>t\<close> that it has the identifier. An operation that throws may
  still have had its effect.\<close>

locale token_store =
  fixes port :: "'s token_port" and live :: "int \<Rightarrow> string \<Rightarrow> 's \<Rightarrow> bool"
  assumes exists_says: "0 \<le> now \<Longrightarrow> tp_exists port now j s = (Inr b, s') \<Longrightarrow> b = live now j s"
    and exists_keeps: "0 \<le> now \<Longrightarrow> tp_exists port now j s = (r, s') \<Longrightarrow> now \<le> t \<Longrightarrow> live t k s' = live t k s"
    and save_adds: "tp_save port now j ttl s = (None, s') \<Longrightarrow> live t k s' = (if k = j then t < now + ttl * 1000 else live t k s)"
    and save_failed: "tp_save port now j ttl s = (Some e, s') \<Longrightarrow> k \<noteq> j \<Longrightarrow> live t k s' = live t k s"
    and revoke_removes: "tp_revoke port j s = (None, s') \<Longrightarrow> live t k s' = (k \<noteq> j \<and> live t k s)"
    and revoke_failed: "tp_revoke port j s = (Some e, s') \<Longrightarrow> k \<noteq> j \<Longrightarrow> live t k s' = live t k s"

definition open_world :: "'s auth_world \<Rightarrow> bool" where
  "open_world w \<longleftrightarrow> \<not> nr_headers_sent (aw_response w) \<and> \<not> nr_aborted (aw_response w) \<and> state_get ''user'' (aw_state w) = JUndef
     \<and> map_of (rs_data (aw_state w)) ''user'' = None"

text \<open>The request goes on: nothing thrown, nothing answered.\<close>

definition goes_on :: "thrown option \<times> 's auth_world \<Rightarrow> bool" where
  "goes_on out \<longleftrightarrow> fst out = None \<and> \<not> nr_headers_sent (aw_response (snd out))"

lemma answer_stops: "open_world w \<Longrightarrow> \<not> goes_on (answer ser code msg w)"
  "aw_state (snd (answer ser code msg w)) = aw_state w"
  using nr_send_answers[of "nr_status code (aw_response w)" ser JNull "Some msg"]
  by (auto simp: answer_def goes_on_def open_world_def nr_status_def split: prod.splits)

lemma open_world_store [simp]: "open_world (w\<lparr>aw_store := s\<rparr>) = open_world w"
  by (simp add: open_world_def)

lemma set_auth_user_open: "open_world w \<Longrightarrow> \<exists>st. set_auth_user d w = (None, w\<lparr>aw_state := st\<rparr>) \<and> get_auth_user st = d"
  by (auto simp: set_auth_user_def state_set_def open_world_def get_auth_user_def state_get_def)

context token_store
begin

definition admitted :: "int \<Rightarrow> (string \<Rightarrow> jwt_thrown + jsval) \<Rightarrow> string option \<Rightarrow> 's \<Rightarrow> jsval \<Rightarrow> bool" where
  "admitted now verify token s d \<longleftrightarrow>
     (\<exists>tok j. token = Some tok \<and> tok \<noteq> [] \<and> verify tok = Inr d \<and> prop_of d ''jti'' = JStr j \<and> j \<noteq> [] \<and> live now j s
        \<and> \<not> isl (fst (tp_exists port now j s)))"

lemma gate_reject:
  assumes "open_world w" "answer ser c m w = (t, w')"
  shows "aw_state w' = aw_state w \<and> \<not> goes_on (t, w')"
  using answer_stops(1)[OF assms(1), of ser c m] answer_stops(2)[of ser c m w] assms(2) by simp

lemma gate_admits:
  assumes "open_world w" "0 \<le> now" "store_gate ser strict port now d w = ((t, rejected), w')"
  shows "(t = None \<and> \<not> rejected \<longleftrightarrow> (\<exists>j. prop_of d ''jti'' = JStr j \<and> j \<noteq> [] \<and> live now j (aw_store w)
        \<and> \<not> isl (fst (tp_exists port now j (aw_store w)))))
    \<and> aw_state w' = aw_state w \<and> (t = None \<and> \<not> rejected \<longrightarrow> open_world w') \<and> (rejected \<longrightarrow> \<not> goes_on (t, w'))"
proof (cases "\<exists>j. prop_of d ''jti'' = JStr j \<and> j \<noteq> []")
  case True
  then obtain j where j: "prop_of d ''jti'' = JStr j" "j \<noteq> []" by blast
  obtain r s where e: "tp_exists port now j (aw_store w) = (r, s)" by force
  show ?thesis
  proof (cases r)
    case (Inl x)
    then show ?thesis using assms e j by (auto simp: store_gate_def truthy_def Let_def)
  next
    case (Inr b)
    then have b: "b = live now j (aw_store w)" using exists_says[OF assms(2)] e by simp
    obtain t1 w1 where a: "answer ser 401 ''Unauthorized: Token has been revoked'' (w\<lparr>aw_store := s\<rparr>) = (t1, w1)" by force
    show ?thesis using gate_reject[OF _ a] assms e j Inr b a
      by (auto simp: store_gate_def truthy_def Let_def split: if_splits)
  qed
next
  case False
  obtain m where "store_gate ser strict port now d w = (case answer ser 401 m w of (t, w') \<Rightarrow> ((t, True), w'))"
  proof -
    have "store_gate ser strict port now d w = (case answer ser 401 (if \<not> truthy (prop_of d ''jti'')
        \<or> strict \<and> (case prop_of d ''jti'' of JStr _ \<Rightarrow> False | _ \<Rightarrow> True) then ''Unauthorized: Token missing jti claim''
        else ''Unauthorized: Token has been revoked'') w of (t, w') \<Rightarrow> ((t, True), w'))"
      using False by (cases "prop_of d ''jti''") (auto simp: store_gate_def truthy_def Let_def)
    then show thesis by (rule that)
  qed
  then have "answer ser 401 m w = (t, w')" "rejected" using assms(3) by (auto split: prod.splits)
  from gate_reject[OF assms(1) this(1)] this(2) False show ?thesis by auto
qed

lemma auth_run_admits:
  assumes "open_world w" "0 \<le> now"
  shows "goes_on (auth_run ser verify strict (Some port) token now w) \<longleftrightarrow> (\<exists>d. admitted now verify token (aw_store w) d)"
    and "admitted now verify token (aw_store w) d \<Longrightarrow>
      get_auth_user (aw_state (snd (auth_run ser verify strict (Some port) token now w))) = d"
    and "\<forall>d. \<not> admitted now verify token (aw_store w) d \<Longrightarrow>
      aw_state (snd (auth_run ser verify strict (Some port) token now w)) = aw_state w"
proof -
  let ?run = "auth_run ser verify strict (Some port) token now w"
  let ?ok = "\<lambda>d. admitted now verify token (aw_store w) d"
  have "(goes_on ?run \<longleftrightarrow> (\<exists>d. ?ok d)) \<and> (\<forall>d. ?ok d \<longrightarrow> get_auth_user (aw_state (snd ?run)) = d)
      \<and> ((\<forall>d. \<not> ?ok d) \<longrightarrow> aw_state (snd ?run) = aw_state w)"
  proof (cases "\<exists>tok d. token = Some tok \<and> tok \<noteq> [] \<and> verify tok = Inr d")
    case none: False
    then have no: "\<not> ?ok d" for d by (auto simp: admitted_def)
    have "\<not> goes_on ?run \<and> aw_state (snd ?run) = aw_state w"
    proof (cases "token = None \<or> token = Some []")
      case True
      then have "?run = answer ser 401 ''Unauthorized: Missing token'' w" by (auto simp: auth_run_def)
      then show ?thesis using answer_stops(1)[OF assms(1)] answer_stops(2) by metis
    next
      case False
      then obtain tok where tok: "token = Some tok" "tok \<noteq> []" by auto
      then obtain e where e: "verify tok = Inl e" using none by (cases "verify tok") auto
      show ?thesis
      proof (cases e)
        case (OtherThrown t)
        then show ?thesis using tok e by (simp add: auth_run_def goes_on_def)
      qed (use tok e answer_stops(1)[OF assms(1)] answer_stops(2) in \<open>simp_all add: auth_run_def\<close>)
    qed
    then show ?thesis using no by blast
  next
    case True
    then obtain tok d where tok: "token = Some tok" "tok \<noteq> []" "verify tok = Inr d" by blast
    obtain t rejected w' where g: "store_gate ser strict port now d w = ((t, rejected), w')" by (metis prod.collapse)
    have ga: "t = None \<and> \<not> rejected \<longleftrightarrow> ?ok d" "aw_state w' = aw_state w" "t = None \<and> \<not> rejected \<longrightarrow> open_world w'"
      "rejected \<longrightarrow> \<not> goes_on (t, w')"
      using gate_admits[OF assms g] tok by (auto simp: admitted_def)
    have u: "?ok x \<Longrightarrow> x = d" for x using tok by (auto simp: admitted_def)
    have run: "?run = (case t of Some e \<Rightarrow> (Some e, w') | None \<Rightarrow> if rejected then (None, w') else set_auth_user d w')"
      using tok g by (auto simp: auth_run_def split: option.splits)
    show ?thesis
    proof (cases "t = None \<and> \<not> rejected")
      case True
      then obtain st where "set_auth_user d w' = (None, w'\<lparr>aw_state := st\<rparr>)" "get_auth_user st = d"
        using set_auth_user_open ga(3) by blast
      then have "goes_on ?run" "get_auth_user (aw_state (snd ?run)) = d"
        using True run ga(3) by (simp_all add: goes_on_def open_world_def)
      then show ?thesis using True ga(1) u by blast
    next
      case False
      then have "\<not> goes_on ?run" "aw_state (snd ?run) = aw_state w"
        using run ga(2,4) by (auto simp: goes_on_def split: option.splits)
      then show ?thesis using False ga(1) u by blast
    qed
  qed
  then show "goes_on ?run \<longleftrightarrow> (\<exists>d. ?ok d)" "?ok d \<Longrightarrow> get_auth_user (aw_state (snd ?run)) = d"
    "\<forall>d. \<not> ?ok d \<Longrightarrow> aw_state (snd ?run) = aw_state w" by blast+
qed

end

subsection \<open>Refreshing\<close>

definition presents :: "'s refresh_env \<Rightarrow> int \<Rightarrow> string option \<Rightarrow> string \<Rightarrow> bool" where
  "presents env now tok j \<longleftrightarrow>
     (\<exists>t d u. tok = Some t \<and> refresh_claims d = Some (j, u) \<and>
        verify_async (re_lib env) now t (rf_refresh_secret (re_options env))
          \<lparr> lv_algorithms = rf_algorithms (re_options env), lv_issuer = rf_issuer (re_options env),
            lv_audience = rf_audience (re_options env), lv_tolerance = None \<rparr> = Inr d)"

text \<open>What a refresh that ran alone did: when it was refused, nothing but the identifier it drew may have
  changed; when it issued a pair, the new identifier is there for its time to live, the one it was
  presented was there and is gone unless revoking it failed, and nothing else changed.\<close>

definition refresh_outcome ::
    "'s token_port \<Rightarrow> (int \<Rightarrow> string \<Rightarrow> 's \<Rightarrow> bool) \<Rightarrow> 's refresh_env \<Rightarrow> int \<times> int \<times> int \<times> int \<times> int \<Rightarrow> string option \<Rightarrow> string
      \<Rightarrow> 's \<Rightarrow> 's \<Rightarrow> refresh_answer \<Rightarrow> bool" where
  "refresh_outcome port live env ts tok nj s s' ans \<longleftrightarrow>
     (case ts of (t1, t2, t3, t4, t5) \<Rightarrow>
       case ans of
        Refused c m \<Rightarrow> \<forall>t k. t5 \<le> t \<longrightarrow> k \<noteq> nj \<longrightarrow> live t k s' = live t k s
      | Issued a r n \<Rightarrow> n = nj \<and>
          (\<exists>j. presents env t1 tok j \<and> live t2 j s
             \<and> (nj \<noteq> j \<longrightarrow> (\<forall>t. t5 \<le> t \<longrightarrow> live t nj s' = (t < t4 + rf_refresh_ttl (re_options env) * 1000)))
             \<and> (\<forall>t k. t5 \<le> t \<longrightarrow> k \<noteq> nj \<longrightarrow> k \<noteq> j \<longrightarrow> live t k s' = live t k s)
             \<and> ((\<forall>s. fst (tp_revoke port j s) = None) \<longrightarrow> (\<forall>t. \<not> live t j s'))))"

context token_store
begin

text \<open>A handler that runs alone from its start with a store: where each step leads.\<close>

lemma start_step:
  assumes "re_store env = Some port" "refresh_step env now aj nj (RStart tok) s = (ph, s')"
  shows "s' = s \<and> ((\<exists>c m. ph = RDone (Refused c m)) \<or> (\<exists>j u. ph = RAsk j u \<and> presents env now tok j))"
  using assms unfolding presents_def by (auto split: option.splits sum.splits)

lemma ask_step:
  assumes "re_store env = Some port" "0 \<le> now" "refresh_step env now aj nj (RAsk j u) s = (ph, s')"
  shows "(\<forall>t k. now \<le> t \<longrightarrow> live t k s' = live t k s)
    \<and> ((\<exists>c m. ph = RDone (Refused c m)) \<or> (ph = RSign j u \<and> live now j s))"
  using assms exists_keeps[OF assms(2)] exists_says[OF assms(2)] by (auto split: prod.splits sum.splits bool.splits)

lemma sign_step:
  assumes "re_store env = Some port" "refresh_step env now aj nj (RSign j u) s = (ph, s')"
  shows "s' = s \<and> ((\<exists>c m. ph = RDone (Refused c m)) \<or> (\<exists>a r. ph = RSave j nj a r))"
  using assms by (auto split: option.splits)

lemma save_step:
  assumes "re_store env = Some port" "refresh_step env now aj nj (RSave j n a r) s = (ph, s')"
  shows "(\<forall>t k. k \<noteq> n \<longrightarrow> live t k s' = live t k s)
    \<and> ((\<exists>c m. ph = RDone (Refused c m))
      \<or> (ph = RRevoke j n a r \<and> (\<forall>t. live t n s' = (t < now + rf_refresh_ttl (re_options env) * 1000))))"
  using assms save_adds save_failed by (auto split: prod.splits option.splits)

lemma revoke_step:
  assumes "re_store env = Some port" "refresh_step env now aj nj (RRevoke j n a r) s = (ph, s')"
  shows "ph = RDone (Issued a r n) \<and> (\<forall>t k. k \<noteq> j \<longrightarrow> live t k s' = live t k s)
    \<and> (fst (tp_revoke port j s) = None \<longrightarrow> (\<forall>t. \<not> live t j s'))"
proof -
  obtain e s1 where "tp_revoke port j s = (e, s1)" by force
  then show ?thesis using assms revoke_removes revoke_failed by (cases e) auto
qed

lemma refresh_alone_done: "refresh_alone env ts aj nj (RDone a) s = (RDone a, s)"
  by (induction ts) auto

lemma refresh_alone_outcome:
  assumes st: "re_store env = Some port" and ts: "0 \<le> t1" "t1 \<le> t2" "t2 \<le> t3" "t3 \<le> t4" "t4 \<le> t5"
    and run: "refresh_alone env [t1, t2, t3, t4, t5] aj nj (RStart tok) s = (p, s')"
  shows "\<exists>ans. p = RDone ans \<and> refresh_outcome port live env (t1, t2, t3, t4, t5) tok nj s s' ans"
proof -
  obtain p1 s1 where 1: "refresh_step env t1 aj nj (RStart tok) s = (p1, s1)" by force
  note S1 = start_step[OF st 1]
  show ?thesis
  proof (cases "\<exists>c m. p1 = RDone (Refused c m)")
    case True
    then show ?thesis using run 1 S1 refresh_alone_done by (auto simp: refresh_outcome_def)
  next
    case False
    then obtain j u where j: "p1 = RAsk j u" "presents env t1 tok j" "s1 = s" using S1 by blast
    obtain p2 s2 where 2: "refresh_step env t2 aj nj (RAsk j u) s = (p2, s2)" by force
    have t2: "0 \<le> t2" using ts by simp
    note S2 = ask_step[OF st t2 2]
    have r2: "refresh_alone env [t3, t4, t5] aj nj p2 s2 = (p, s')" using run 1 j 2 by simp
    show ?thesis
    proof (cases "\<exists>c m. p2 = RDone (Refused c m)")
      case True
      then show ?thesis using r2 S2 refresh_alone_done ts by (auto simp: refresh_outcome_def)
    next
      case False
      then have l: "p2 = RSign j u" "live t2 j s" using S2 by blast+
      obtain p3 s3 where 3: "refresh_step env t3 aj nj (RSign j u) s2 = (p3, s3)" by force
      note S3 = sign_step[OF st 3]
      have r3: "refresh_alone env [t4, t5] aj nj p3 s2 = (p, s')" using r2 l 3 S3 by simp
      show ?thesis
      proof (cases "\<exists>c m. p3 = RDone (Refused c m)")
        case True
        then show ?thesis using r3 S2 refresh_alone_done ts by (auto simp: refresh_outcome_def)
      next
        case False
        then obtain a r where k: "p3 = RSave j nj a r" using S3 by blast
        obtain p4 s4 where 4: "refresh_step env t4 aj nj (RSave j nj a r) s2 = (p4, s4)" by force
        note S4 = save_step[OF st 4]
        have r4: "refresh_alone env [t5] aj nj p4 s4 = (p, s')" using r3 k 4 by simp
        show ?thesis
        proof (cases "\<exists>c m. p4 = RDone (Refused c m)")
          case True
          then show ?thesis using r4 S2 S4 refresh_alone_done ts by (auto simp: refresh_outcome_def)
        next
          case False
          then have m: "p4 = RRevoke j nj a r" "\<forall>t. live t nj s4 = (t < t4 + rf_refresh_ttl (re_options env) * 1000)"
            using S4 by blast+
          obtain p5 s5 where 5: "refresh_step env t5 aj nj (RRevoke j nj a r) s4 = (p5, s5)" by force
          note S5 = revoke_step[OF st 5]
          have "p = RDone (Issued a r nj)" "s' = s5" using r4 m 5 S5 by auto
          moreover have "live t k s' = live t k s" if "t5 \<le> t" "k \<noteq> nj" "k \<noteq> j" for t k
            using that S2 S4 S5 ts \<open>s' = s5\<close> by simp
          ultimately show ?thesis using S5 m(2) j(2) l(2) unfolding refresh_outcome_def by auto
        qed
      qed
    qed
  qed
qed

end

text \<open>Refreshes one after the other, each with the times of its steps and the identifiers it draws.\<close>

record refresh_call =
  rc_token :: "string option"
  rc_times :: "int \<times> int \<times> int \<times> int \<times> int"
  rc_access :: string
  rc_next :: string

definition run_call :: "'s refresh_env \<Rightarrow> refresh_call \<Rightarrow> 's \<Rightarrow> refresh_phase \<times> 's" where
  "run_call env c s = (case rc_times c of (t1, t2, t3, t4, t5) \<Rightarrow>
     refresh_alone env [t1, t2, t3, t4, t5] (rc_access c) (rc_next c) (RStart (rc_token c)) s)"

fun refresh_serial :: "'s refresh_env \<Rightarrow> refresh_call list \<Rightarrow> 's \<Rightarrow> refresh_phase list \<times> 's" where
  "refresh_serial env [] s = ([], s)"
| "refresh_serial env (c # cs) s =
     (case run_call env c s of (p, s1) \<Rightarrow> case refresh_serial env cs s1 of (ps, s2) \<Rightarrow> (p # ps, s2))"

fun calls_from :: "int \<Rightarrow> refresh_call list \<Rightarrow> bool" where
  "calls_from T [] = True"
| "calls_from T (c # cs) = (case rc_times c of (t1, t2, t3, t4, t5) \<Rightarrow>
     T \<le> t1 \<and> t1 \<le> t2 \<and> t2 \<le> t3 \<and> t3 \<le> t4 \<and> t4 \<le> t5 \<and> calls_from t5 cs)"

definition spends :: "'s refresh_env \<Rightarrow> string \<Rightarrow> refresh_call \<times> refresh_phase \<Rightarrow> bool" where
  "spends env j cp \<longleftrightarrow> presents env (fst (rc_times (fst cp))) (rc_token (fst cp)) j
     \<and> (case snd cp of RDone (Issued _ _ _) \<Rightarrow> True | _ \<Rightarrow> False)"

lemma presents_unique: "presents env now tok j \<Longrightarrow> presents env now tok k \<Longrightarrow> j = k"
  by (auto simp: presents_def)

context token_store
begin

lemma run_call_outcome:
  assumes "re_store env = Some port" "0 \<le> T" "calls_from T (c # cs)" "run_call env c s = (p, s')"
  shows "\<exists>ans. p = RDone ans \<and> refresh_outcome port live env (rc_times c) (rc_token c) (rc_next c) s s' ans"
proof -
  obtain t1 t2 t3 t4 t5 where t: "rc_times c = (t1, t2, t3, t4, t5)" by (metis prod.collapse)
  have "0 \<le> t1" "t1 \<le> t2" "t2 \<le> t3" "t3 \<le> t4" "t4 \<le> t5" using assms(2,3) t by auto
  from refresh_alone_outcome[OF assms(1) this] assms(4) show ?thesis unfolding run_call_def t by simp
qed

lemma dead_stays:
  assumes "re_store env = Some port" "0 \<le> T" "calls_from T cs" "\<forall>c \<in> set cs. rc_next c \<noteq> j" "\<forall>t. T \<le> t \<longrightarrow> \<not> live t j s"
  shows "filter (spends env j) (zip cs (fst (refresh_serial env cs s))) = []"
  using assms(2-)
proof (induction cs arbitrary: T s)
  case (Cons c cs)
  obtain p s1 where r: "run_call env c s = (p, s1)" by force
  obtain t1 t2 t3 t4 t5 where t: "rc_times c = (t1, t2, t3, t4, t5)" by (metis prod.collapse)
  obtain ans where ans: "p = RDone ans" "refresh_outcome port live env (rc_times c) (rc_token c) (rc_next c) s s1 ans"
    using run_call_outcome[OF assms(1) Cons.prems(1,2) r] by blast
  have ts: "T \<le> t1" "T \<le> t2" "T \<le> t5" "calls_from t5 cs" using Cons.prems(2) t by auto
  have nj: "rc_next c \<noteq> j" using Cons.prems(3) by simp
  have no: "\<not> spends env j (c, p)"
    using ans Cons.prems(4) ts(2) t presents_unique unfolding spends_def refresh_outcome_def
    by (fastforce split: refresh_answer.splits)
  have "\<forall>t. t5 \<le> t \<longrightarrow> \<not> live t j s1"
    using ans(2) Cons.prems(4) ts nj t unfolding refresh_outcome_def
    by (auto split: refresh_answer.splits) (metis order_trans)+
  then have "filter (spends env j) (zip cs (fst (refresh_serial env cs s1))) = []"
    using Cons.IH[of t5 s1] ts Cons.prems(1,3) by simp
  then show ?case using r no by (auto split: prod.splits)
qed simp

lemma serial_single_use:
  assumes "re_store env = Some port" "\<forall>j s. fst (tp_revoke port j s) = None" "0 \<le> T" "calls_from T cs"
    and "\<forall>c \<in> set cs. rc_next c \<noteq> j"
  shows "length (filter (spends env j) (zip cs (fst (refresh_serial env cs s)))) \<le> 1"
  using assms(3-)
proof (induction cs arbitrary: T s)
  case (Cons c cs)
  obtain p s1 where r: "run_call env c s = (p, s1)" by force
  obtain t1 t2 t3 t4 t5 where t: "rc_times c = (t1, t2, t3, t4, t5)" by (metis prod.collapse)
  have ts: "0 \<le> t5" "calls_from t5 cs" using Cons.prems(1,2) t by auto
  have fs: "fst (refresh_serial env (c # cs) s) = p # fst (refresh_serial env cs s1)"
    using r by (simp split: prod.splits)
  show ?case
  proof (cases "spends env j (c, p)")
    case True
    obtain ans where ans: "p = RDone ans" "refresh_outcome port live env (rc_times c) (rc_token c) (rc_next c) s s1 ans"
      using run_call_outcome[OF assms(1) Cons.prems(1,2) r] by blast
    then have "\<forall>t. \<not> live t j s1"
      using True assms(2) presents_unique t unfolding spends_def refresh_outcome_def
      by (fastforce split: refresh_answer.splits)
    then have "filter (spends env j) (zip cs (fst (refresh_serial env cs s1))) = []"
      using dead_stays[OF assms(1) ts] Cons.prems(3) by simp
    then show ?thesis using True unfolding fs by simp
  next
    case False
    then show ?thesis using Cons.IH[OF ts] Cons.prems(3) unfolding fs by simp
  qed
qed simp

end

subsection \<open>The memory store keeps the contract\<close>

definition mts_live :: "int \<Rightarrow> string \<Rightarrow> token_map \<Rightarrow> bool" where
  "mts_live t j ts = (case map_of ts j of Some e \<Rightarrow> t < e | None \<Rightarrow> False)"

interpretation mem_tokens: token_store memory_tokens mts_live
proof (unfold_locales, goal_cases)
  case (1 now j s b s')
  then show ?case by (auto simp: memory_tokens_def mts_exists_def mts_live_def split: option.splits if_splits)
next
  case (2 now j s r s' t k)
  then show ?case by (auto simp: memory_tokens_def mts_exists_def mts_live_def split: option.splits if_splits)
qed (auto simp: memory_tokens_def mts_save_def mts_revoke_def mts_live_def split: option.splits if_splits)

subsection \<open>The properties\<close>

text \<open>The claims of a token, as the plugin verifies it in the mode of its options.\<close>

definition token_claims :: "crypto \<Rightarrow> json_parser \<Rightarrow> jwt_lib \<Rightarrow> auth_options \<Rightarrow> int \<Rightarrow> string \<Rightarrow> jwt_thrown + jsval" where
  "token_claims cr parse lib opts now token =
     (case ao_secret opts of
        None \<Rightarrow> map_sum id JObj (verify_jwt cr parse now
          (asymmetric_options opts (case ao_algorithms opts of Some a \<Rightarrow> a | None \<Rightarrow> [''RS256''])) token)
      | Some secret \<Rightarrow> verify_async lib now token secret
          \<lparr> lv_algorithms = filter (\<lambda>a. a \<notin> {''none'', ''NONE'', ''None''}) (case ao_algorithms opts of Some a \<Rightarrow> a | None \<Rightarrow> [''HS256'']),
            lv_issuer = given_str (ao_issuer opts), lv_audience = given_audience (ao_audience opts), lv_tolerance = ao_tolerance opts \<rparr>)"

definition token_admits ::
    "'s token_port \<Rightarrow> (int \<Rightarrow> string \<Rightarrow> 's \<Rightarrow> bool) \<Rightarrow> crypto \<Rightarrow> json_parser \<Rightarrow> jwt_lib \<Rightarrow> auth_options \<Rightarrow> int \<Rightarrow> request \<Rightarrow> 's \<Rightarrow> jsval \<Rightarrow> bool" where
  "token_admits port live cr parse lib opts now req s d \<longleftrightarrow>
     (\<exists>tok j. build_get_token opts req = Some tok \<and> tok \<noteq> [] \<and> token_claims cr parse lib opts now tok = Inr d
        \<and> prop_of d ''jti'' = JStr j \<and> j \<noteq> [] \<and> live now j s \<and> \<not> isl (fst (tp_exists port now j s)))"

lemma create_auth_plugin_run:
  assumes "create_auth_plugin cr parse lib ser (Some port) opts = Inr mw"
  shows "\<exists>strict. mw = (\<lambda>now req w. auth_run ser (token_claims cr parse lib opts now) strict (Some port) (build_get_token opts req) now w)"
proof (cases "ao_secret opts")
  case None
  then have "create_asymmetric_auth_plugin cr parse ser (Some port) opts = Inr mw"
    using assms by (auto simp: create_auth_plugin_def some_count_def split: if_splits)
  then have "mw = (\<lambda>now req w. auth_run ser (\<lambda>token. map_sum id JObj (verify_jwt cr parse now
      (asymmetric_options opts (case ao_algorithms opts of Some a \<Rightarrow> a | None \<Rightarrow> [''RS256''])) token))
        True (Some port) (build_get_token opts req) now w)"
    by (auto simp: create_asymmetric_auth_plugin_def allowlist_Inr split: sum.splits if_splits)
  moreover have "token_claims cr parse lib opts now = (\<lambda>token. map_sum id JObj (verify_jwt cr parse now
      (asymmetric_options opts (case ao_algorithms opts of Some a \<Rightarrow> a | None \<Rightarrow> [''RS256''])) token))" for now
    using None by (auto simp: token_claims_def)
  ultimately show ?thesis by auto
next
  case (Some secret)
  let ?algs = "filter (\<lambda>a. a \<notin> {''none'', ''NONE'', ''None''}) (case ao_algorithms opts of Some a \<Rightarrow> a | None \<Rightarrow> [''HS256''])"
  let ?run = "\<lambda>now token. verify_async lib now token secret \<lparr> lv_algorithms = ?algs, lv_issuer = given_str (ao_issuer opts),
    lv_audience = given_audience (ao_audience opts), lv_tolerance = ao_tolerance opts \<rparr>"
  have "mw = (\<lambda>now req w. auth_run ser (?run now) False (Some port) (build_get_token opts req) now w)"
    using assms Some unfolding create_auth_plugin_def validate_algorithms_def Let_def
    by (simp add: some_count_def sum_bind_def split: if_splits option.splits)
  moreover have "token_claims cr parse lib opts now = ?run now" for now
    using Some by (auto simp: token_claims_def)
  ultimately show ?thesis by auto
qed

text \<open>C12. With a revocation store the plugin lets a request through exactly when it carries a token that
  verifies, with an identifier the store has at that moment; then, and only then, the claims become
  the user of the request. A token that was revoked, was never saved or has none, and a store that
  fails, never let it through. Both modes, shared secret and public key, behave so.\<close>

theorem auth_admits_exact:
  assumes "token_store port live" "create_auth_plugin cr parse lib ser (Some port) opts = Inr mw" "open_world w" "0 \<le> now"
  shows "(goes_on (mw now req w) \<longleftrightarrow> (\<exists>d. token_admits port live cr parse lib opts now req (aw_store w) d))
    \<and> (\<forall>d. token_admits port live cr parse lib opts now req (aw_store w) d \<longrightarrow> get_auth_user (aw_state (snd (mw now req w))) = d)
    \<and> ((\<nexists>d. token_admits port live cr parse lib opts now req (aw_store w) d) \<longrightarrow> aw_state (snd (mw now req w)) = aw_state w)"
proof -
  obtain strict where mw: "mw = (\<lambda>now req w. auth_run ser (token_claims cr parse lib opts now) strict (Some port) (build_get_token opts req) now w)"
    using create_auth_plugin_run[OF assms(2)] by blast
  have a: "token_admits port live cr parse lib opts now req (aw_store w)
      = token_store.admitted port live now (token_claims cr parse lib opts now) (build_get_token opts req) (aw_store w)"
    by (auto simp: fun_eq_iff token_admits_def token_store.admitted_def[OF assms(1)])
  show ?thesis
    using token_store.auth_run_admits[OF assms(1,3,4)] unfolding a mw by blast
qed

text \<open>A refresh never costs a session. Over any store that keeps the contract, with any of its
  operations failing: a refresh that is not answered with a new pair leaves the presented token as
  good as it was; one that is answered has the new token in the store for its whole lifetime, was
  presented a token the store had, and leaves the other tokens alone.\<close>

theorem refresh_outcomes:
  assumes "token_store port live" "re_store env = Some port" "0 \<le> T" "calls_from T [c]" "run_call env c s = (p, s')"
  shows "\<exists>ans. p = RDone ans \<and> refresh_outcome port live env (rc_times c) (rc_token c) (rc_next c) s s' ans"
  using token_store.run_call_outcome[OF assms(1,2,3,4,5)] .

text \<open>C11. Refreshes that do not overlap rotate the token: among any number of them, at most one that
  presents a given identifier is answered with a new pair, provided revoking does not fail and the
  identifier is not drawn again.\<close>

theorem refresh_single_use:
  assumes "token_store port live" "re_store env = Some port" "\<forall>j s. fst (tp_revoke port j s) = None" "0 \<le> T" "calls_from T cs"
    and "\<forall>c \<in> set cs. rc_next c \<noteq> j"
  shows "length (filter (spends env j) (zip cs (fst (refresh_serial env cs s)))) \<le> 1"
  using token_store.serial_single_use[OF assms] .

subsection \<open>Refreshes that overlap\<close>

definition race :: "int \<Rightarrow> string \<Rightarrow> string \<Rightarrow> turn list" where
  "race now n0 n1 = map (\<lambda>i. \<lparr> tn_handler = i, tn_now = now, tn_access = ''a'', tn_next = (if i = 0 then n0 else n1) \<rparr>)
     [0, 1, 0, 1, 0, 1, 0, 1, 0, 1]"

text \<open>Two refreshes of the same token that run at the same time both succeed, over the memory store:
  each asks for the identifier before the other has revoked it. One token becomes two, and both new
  tokens are good.\<close>

theorem refresh_race:
  assumes "re_store env = Some memory_tokens" "presents env now tok j" "mts_live now j s" "0 \<le> now"
    and "\<And>u n. sign_pair (re_lib env) (re_options env) now u ''a'' n \<noteq> None"
    and "n0 \<noteq> n1" "n0 \<noteq> j" "n1 \<noteq> j" "0 < rf_refresh_ttl (re_options env)"
  shows "\<exists>x0 y0 x1 y1 s'. refresh_schedule env (race now n0 n1) ([RStart tok, RStart tok], s)
      = ([RDone (Issued x0 y0 n0), RDone (Issued x1 y1 n1)], s') \<and> mts_live now n0 s' \<and> mts_live now n1 s'"
proof -
  obtain t d u where t: "tok = Some t" "refresh_claims d = Some (j, u)"
    "verify_async (re_lib env) now t (rf_refresh_secret (re_options env))
       \<lparr> lv_algorithms = rf_algorithms (re_options env), lv_issuer = rf_issuer (re_options env),
         lv_audience = rf_audience (re_options env), lv_tolerance = None \<rparr> = Inr d"
    using assms(2) unfolding presents_def by blast
  obtain x0 y0 where 0: "sign_pair (re_lib env) (re_options env) now u ''a'' n0 = Some (x0, y0)" using assms(5) by fastforce
  obtain x1 y1 where 1: "sign_pair (re_lib env) (re_options env) now u ''a'' n1 = Some (x1, y1)" using assms(5) by fastforce
  obtain e where e: "map_of s j = Some e" "now < e" using assms(3) by (auto simp: mts_live_def split: option.splits)
  have ex: "tp_exists memory_tokens now j s = (Inr True, s)" using e assms(4) by (simp add: memory_tokens_def mts_exists_def)
  show ?thesis
    using t 0 1 ex assms(1,6-9) by (simp add: race_def memory_tokens_def mts_save_def mts_revoke_def mts_live_def)
qed

subsection \<open>Concrete tokens\<close>

text \<open>A token library for examples: a token is \<open>id:jti\<close> and is taken at its word.\<close>

definition demo_lib :: jwt_lib where
  "demo_lib = \<lparr> jl_verify = (\<lambda>now t secret opts. case split_on (CHR '':'') t of
       [i, j] \<Rightarrow> Inr (JObj [(''id'', JStr i), (''jti'', JStr j)]) | _ \<Rightarrow> Inl (JwtError ''jwt malformed'')),
     jl_sign = (\<lambda>now claims secret opts. Inr (''u:'' @ ls_jwtid opts)) \<rparr>"

definition demo_auth :: auth_options where
  "demo_auth = \<lparr> ao_secret = Some (replicate 32 (CHR ''s'')), ao_public_key = None, ao_jwks = None, ao_algorithms = None,
     ao_get_token = None, ao_issuer = None, ao_audience = None, ao_tolerance = None \<rparr>"

definition demo_bearer :: request where
  "demo_bearer = (demo_request GET ''/me'')\<lparr>rq_headers := [(''authorization'', [''Bearer u:t1''])]\<rparr>"

definition demo_auth_world :: "token_map \<Rightarrow> token_map auth_world" where
  "demo_auth_world ts = \<lparr> aw_response = nr_new GET [], aw_state = \<lparr> rs_data = [], rs_frozen = False \<rparr>, aw_store = ts \<rparr>"

theorem auth_admits_exact_witness:
  "\<exists>mw. create_auth_plugin demo_crypto demo_parse demo_lib envelope (Some memory_tokens) demo_auth = Inr mw
     \<and> goes_on (mw 5 demo_bearer (demo_auth_world [(''t1'', 9)])) \<and> \<not> goes_on (mw 5 demo_bearer (demo_auth_world []))"
proof -
  have v: "validate_secret (replicate 32 (CHR ''s'')) ''JWT secret'' = None" by code_simp
  have al: "validate_algorithms [''HS256''] = Inr [''HS256'']" by code_simp
  obtain mw where mw: "create_auth_plugin demo_crypto demo_parse demo_lib envelope (Some memory_tokens) demo_auth = Inr mw"
    by (simp add: create_auth_plugin_def demo_auth_def some_count_def v al Let_def)
  have o: "open_world (demo_auth_world ts)" for ts
    by (simp add: open_world_def demo_auth_world_def nr_new_def state_get_def)
  have tok: "build_get_token demo_auth demo_bearer = Some ''u:t1''" by code_simp
  have cl: "token_claims demo_crypto demo_parse demo_lib demo_auth 5 ''u:t1'' = Inr (JObj [(''id'', JStr ''u''), (''jti'', JStr ''t1'')])"
    by (simp add: token_claims_def demo_auth_def verify_async_def demo_lib_def truthy_def)
  have j: "prop_of (JObj [(''id'', JStr ''u''), (''jti'', JStr ''t1'')]) ''jti'' = JStr ''t1''" by (simp add: prop_of_def field_def)
  note ax = auth_admits_exact[OF mem_tokens.token_store_axioms mw o, of 5 demo_bearer]
  have "token_admits memory_tokens mts_live demo_crypto demo_parse demo_lib demo_auth 5 demo_bearer [(''t1'', 9)]
      (JObj [(''id'', JStr ''u''), (''jti'', JStr ''t1'')])"
    using tok cl j by (simp add: token_admits_def mts_live_def memory_tokens_def mts_exists_def)
  then have "goes_on (mw 5 demo_bearer (demo_auth_world [(''t1'', 9)]))"
    using ax[of "[(''t1'', 9)]"] by (auto simp: demo_auth_world_def)
  moreover have "\<not> token_admits memory_tokens mts_live demo_crypto demo_parse demo_lib demo_auth 5 demo_bearer [] d" for d
    by (simp add: token_admits_def mts_live_def)
  then have "\<not> goes_on (mw 5 demo_bearer (demo_auth_world []))"
    using ax[of "[]"] by (auto simp: demo_auth_world_def)
  ultimately show ?thesis using mw by blast
qed

definition demo_refresh :: "token_map refresh_env" where
  "demo_refresh = \<lparr> re_lib = demo_lib, re_options = \<lparr> rf_secret = ''s'', rf_refresh_secret = ''r'', rf_access_ttl = 900,
     rf_refresh_ttl = 60, rf_algorithms = [''HS256''], rf_issuer = None, rf_audience = None \<rparr>, re_store = Some memory_tokens \<rparr>"

definition demo_call :: "int \<Rightarrow> string \<Rightarrow> refresh_call" where
  "demo_call t n = \<lparr> rc_token = Some ''u:old'', rc_times = (t, t + 1, t + 2, t + 3, t + 4), rc_access = ''a'', rc_next = n \<rparr>"

lemma demo_presents: "presents demo_refresh now (Some ''u:old'') ''old''"
  unfolding presents_def
  by (intro exI[of _ "''u:old''"] exI[of _ "JObj [(''id'', JStr ''u''), (''jti'', JStr ''old'')]"] exI[of _ "''u''"])
     (simp add: demo_refresh_def demo_lib_def verify_async_def truthy_def refresh_claims_def prop_of_def field_def Let_def)

lemma demo_refresh_store: "re_store demo_refresh = Some memory_tokens"
  by (simp add: demo_refresh_def)

theorem refresh_outcomes_witness:
  "\<exists>a r. fst (run_call demo_refresh (demo_call 10 ''n1'') [(''old'', 5000)]) = RDone (Issued a r ''n1'')
     \<and> refresh_outcome memory_tokens mts_live demo_refresh (10, 11, 12, 13, 14) (Some ''u:old'') ''n1'' [(''old'', 5000)]
         (snd (run_call demo_refresh (demo_call 10 ''n1'') [(''old'', 5000)])) (Issued a r ''n1'')"
proof -
  have p: "fst (run_call demo_refresh (demo_call 10 ''n1'') [(''old'', 5000)]) = RDone (Issued ''u:a'' ''u:n1'' ''n1'')"
    by code_simp
  have "\<exists>ans. fst (run_call demo_refresh (demo_call 10 ''n1'') [(''old'', 5000)]) = RDone ans
      \<and> refresh_outcome memory_tokens mts_live demo_refresh (rc_times (demo_call 10 ''n1'')) (rc_token (demo_call 10 ''n1''))
          (rc_next (demo_call 10 ''n1'')) [(''old'', 5000)] (snd (run_call demo_refresh (demo_call 10 ''n1'') [(''old'', 5000)])) ans"
    by (rule refresh_outcomes[OF mem_tokens.token_store_axioms demo_refresh_store, of 0]) (simp_all add: demo_call_def)
  then show ?thesis unfolding p by (simp add: demo_call_def)
qed

theorem refresh_single_use_witness:
  "let cs = [demo_call 10 ''n1'', demo_call 20 ''n2'', demo_call 30 ''n3''];
       ps = fst (refresh_serial demo_refresh cs [(''old'', 5000)])
   in length (filter (spends demo_refresh ''old'') (zip cs ps)) \<le> 1 \<and> map (\<lambda>p. case p of RDone (Issued _ _ _) \<Rightarrow> True | _ \<Rightarrow> False) ps = [True, False, False]"
proof -
  have "map (\<lambda>p. case p of RDone (Issued _ _ _) \<Rightarrow> True | _ \<Rightarrow> False)
      (fst (refresh_serial demo_refresh [demo_call 10 ''n1'', demo_call 20 ''n2'', demo_call 30 ''n3''] [(''old'', 5000)])) = [True, False, False]"
    by code_simp
  moreover have "length (filter (spends demo_refresh ''old'') (zip [demo_call 10 ''n1'', demo_call 20 ''n2'', demo_call 30 ''n3'']
      (fst (refresh_serial demo_refresh [demo_call 10 ''n1'', demo_call 20 ''n2'', demo_call 30 ''n3''] [(''old'', 5000)])))) \<le> 1"
    by (rule refresh_single_use[OF mem_tokens.token_store_axioms demo_refresh_store, of 0])
       (simp_all add: demo_call_def memory_tokens_def)
  ultimately show ?thesis by (simp add: Let_def)
qed

theorem refresh_race_witness:
  "\<exists>x0 y0 x1 y1 s'. refresh_schedule demo_refresh (race 10 ''n0'' ''n1'') ([RStart (Some ''u:old''), RStart (Some ''u:old'')], [(''old'', 5000)])
      = ([RDone (Issued x0 y0 ''n0''), RDone (Issued x1 y1 ''n1'')], s') \<and> mts_live 10 ''n0'' s' \<and> mts_live 10 ''n1'' s'"
  by (rule refresh_race[OF demo_refresh_store demo_presents])
     (simp_all add: mts_live_def sign_pair_def demo_refresh_def demo_lib_def)

end
