(* ===== verification/Api_Key_Props.thy ===== *)
theory Api_Key_Props
  imports Api_Key Token_Auth_Props
begin

text \<open>
  API keys: a generated key authenticates against its own hash; an unknown id is answered ten thousand
  times cheaper than a wrong secret. Key sets: how often the network is asked.
\<close>

subsection \<open>Hexadecimal\<close>

lemma hex_digit_val: "n < 16 \<Longrightarrow> hex_val (hex_digit n) = Some n"
  by (auto simp: hex_digit_def hex_val_def Let_def)

lemma hex_bytes_text [simp]: "hex_bytes (hex_text bs) = bs"
proof (induction bs)
  case (Cons b bs)
  have "(of_char b :: nat) < 256" by simp
  then have "(of_char b :: nat) div 16 < 16" "(of_char b :: nat) mod 16 < 16" by (simp_all add: less_mult_imp_div_less)
  then show ?case using Cons by (simp add: hex_text_def hex_digit_val)
qed (simp add: hex_text_def)

lemma hex_text_chars: "list_all is_hex (hex_text bs)"
proof (induction bs)
  case (Cons b bs)
  have "(of_char b :: nat) < 256" by simp
  then have "(of_char b :: nat) div 16 < 16" "(of_char b :: nat) mod 16 < 16" by (simp_all add: less_mult_imp_div_less)
  then show ?case using Cons by (simp add: hex_text_def is_hex_def hex_digit_val)
qed (simp add: hex_text_def)

lemma hex_no: "\<not> is_hex c \<Longrightarrow> c \<notin> set (hex_text bs)"
  using hex_text_chars[of bs] by (auto simp: list_all_iff)

lemma hex_text_Nil [simp]: "hex_text bs = [] \<longleftrightarrow> bs = []"
  by (simp add: hex_text_def)

lemma match_hash_generated:
  assumes "salt \<noteq> []" "kdf secret salt pbkdf2_iterations pbkdf2_keylen \<noteq> []"
  shows "match_hash (hash_api_key_secret kdf secret salt)
    = Some (''10000'', hex_text salt, hex_text (kdf secret salt pbkdf2_iterations pbkdf2_keylen))"
proof -
  have n: "show_nat pbkdf2_iterations = ''10000''"
  proof -
    have "char_of (49 :: nat) = CHR ''1''" "char_of (48 :: nat) = CHR ''0''" by code_simp+
    then show ?thesis unfolding pbkdf2_iterations_def by (simp add: show_nat.simps)
  qed
  have d: "\<not> is_hex (CHR ''$'')" by code_simp
  have i: "is_dec (CHR ''1'')" "is_dec (CHR ''0'')" by code_simp+
  have p: "to_lower ''pbkdf2'' = ''pbkdf2''" by code_simp
  have "split_on (CHR ''$'') (hash_api_key_secret kdf secret salt)
      = [''pbkdf2'', ''10000'', hex_text salt, hex_text (kdf secret salt pbkdf2_iterations pbkdf2_keylen)]"
    (is "split_on _ ?h = ?ps")
  proof -
    have h: "?h = join_with [CHR ''$''] ?ps" by (simp add: hash_api_key_secret_def n)
    show ?thesis unfolding h by (rule split_join_with) (use hex_no[OF d] in simp_all)
  qed
  then show ?thesis using assms hex_text_chars unfolding match_hash_def match_dollar_def by (simp add: i p)
qed

lemma secret_matches_generated:
  assumes "salt \<noteq> []" "length (kdf secret salt pbkdf2_iterations pbkdf2_keylen) = pbkdf2_keylen"
  shows "secret_matches kdf s (hash_api_key_secret kdf secret salt)
    = (kdf s salt pbkdf2_iterations pbkdf2_keylen = kdf secret salt pbkdf2_iterations pbkdf2_keylen, 10000)"
proof -
  have k: "kdf secret salt pbkdf2_iterations pbkdf2_keylen \<noteq> []" using assms(2) by (auto simp: pbkdf2_keylen_def)
  have "decimal ''10000'' = 10000" by (simp add: decimal_def)
  then show ?thesis
    unfolding secret_matches_def match_hash_generated[of salt kdf secret, OF assms(1) k] using assms(2)
    by (simp add: Let_def pbkdf2_iterations_def pbkdf2_keylen_def)
qed

subsection \<open>Generated keys authenticate\<close>

lemma b64url_not_ws: "c \<in> set (b64url_encode s) \<Longrightarrow> \<not> is_ws c"
proof
  assume c: "c \<in> set (b64url_encode s)" "is_ws c"
  obtain ns where "b64url_encode s = map b64_char ns" "\<forall>n \<in> set ns. n < 64" using b64url_encode_chars by blast
  then obtain n where n: "b64_val c = Some n" using c(1) by auto
  have "list_all (\<lambda>c. b64_val c = None) [CHR '' '', CHR 0x09, CHR 0x0A, CHR 0x0B, CHR 0x0C, CHR 0x0D, CHR 0xA0]" by code_simp
  moreover have "c \<in> set [CHR '' '', CHR 0x09, CHR 0x0A, CHR 0x0B, CHR 0x0C, CHR 0x0D, CHR 0xA0]"
    using c(2) unfolding is_ws_def by (simp only: list.set)
  ultimately have "b64_val c = None" unfolding list_all_iff by blast
  with n show False by simp
qed

lemma parse_generated:
  assumes "CHR ''_'' \<notin> set i" "i \<noteq> []" "secret \<noteq> []" "length (''ax_'' @ i @ ''_'' @ secret) \<le> max_key_length"
  shows "parse_api_key (''ax_'' @ i @ ''_'' @ secret) = Some (i, secret)"
proof -
  have "takeWhile (\<lambda>c. c \<noteq> CHR ''_'') (i @ ''_'' @ secret) = i" using assms(1) 
    by (induction i) auto
  then show ?thesis using assms by (simp add: parse_api_key_def Let_def starts_with_def)
qed

definition scopes_of :: "api_key_record \<Rightarrow> string list" where
  "scopes_of r = (case ak_scopes r of Some s \<Rightarrow> s | None \<Rightarrow> [])"

text \<open>A key that \<open>generateApiKey\<close> hands out authenticates: a request that carries it, over any lookup that
  returns the record it was issued with, goes on when the record grants the required scopes, as the
  user of that id, and is refused when it does not. The random bytes, the salt and the derivation
  are arbitrary; the key must respect the length limit.\<close>

theorem api_key_round_trip:
  assumes "generate_api_key kdf key_id random salt = Inr (key, i, hash)"
    and "key_id \<noteq> []" "random \<noteq> []" "salt \<noteq> []" "length key \<le> max_key_length"
    and "\<And>s. length (kdf s salt pbkdf2_iterations pbkdf2_keylen) = pbkdf2_keylen"
    and "ko_lookup opts i = Inr (Some r)" "ak_hash r = hash" "header_value req (ko_header opts) = Some key"
    and "open_world w" "map_of (rs_data (aw_state w)) ''apiKey'' = None"
  shows "(goes_on (require_api_key kdf ser opts (Some required) req w) \<longleftrightarrow> set required \<subseteq> set (scopes_of r))
    \<and> (set required \<subseteq> set (scopes_of r) \<longrightarrow>
      get_auth_user (aw_state (snd (require_api_key kdf ser opts (Some required) req w))) = api_key_user key_id (scopes_of r))"
proof -
  let ?secret = "b64url_encode random"
  have g: "CHR ''_'' \<notin> set key_id" "key = ''ax_'' @ key_id @ ''_'' @ ?secret" "i = key_id"
    "hash = hash_api_key_secret kdf ?secret salt"
    using assms(1) by (auto simp: generate_api_key_def Let_def split: if_splits)
  have s: "?secret \<noteq> []" using assms(3) by simp
  have "last key = last ?secret" using s by (simp add: g(2))
  then have "\<not> is_ws (last key)" using b64url_not_ws[of "last ?secret" random] s by simp
  moreover have "\<not> is_ws (hd key)" by (simp add: g(2) is_ws_def)
  ultimately have t: "trim key = key" by (simp add: trim_id)
  have p: "parse_api_key key = Some (key_id, ?secret)"
    using parse_generated[OF g(1) assms(2) s] assms(5) by (simp add: g(2))
  have m: "fst (secret_matches kdf ?secret (ak_hash r))"
    using secret_matches_generated[of salt kdf ?secret ?secret, OF assms(4,6)] by (simp add: assms(8) g(4))
  obtain kt where kt: "key = CHR ''a'' # kt" by (simp add: g(2))
  have k: "header_value req (ko_header opts) = Some (CHR ''a'' # kt)" "parse_api_key (trim (CHR ''a'' # kt)) = Some (key_id, ?secret)"
    using assms(9) p t by (simp_all add: kt)
  have run: "require_api_key kdf ser opts (Some required) req w =
      (if filter (\<lambda>s. s \<notin> set (scopes_of r)) required \<noteq> [] then
         answer ser 403 (''Forbidden: API key missing required scope(s): ''
           @ join_with '', '' (filter (\<lambda>s. s \<notin> set (scopes_of r)) required)) w
       else seq_act (set_state ''user'' (api_key_user key_id (scopes_of r)))
              (set_state ''apiKey'' (api_key_info key_id (scopes_of r) (ak_meta r))) w)"
    using assms(7) m unfolding g(3) by (simp add: require_api_key_def k resolve_record_def scopes_of_def Let_def)
  have e: "filter (\<lambda>s. s \<notin> set (scopes_of r)) required = [] \<longleftrightarrow> set required \<subseteq> set (scopes_of r)"
    by (auto simp: filter_empty_conv)
  have ok: "goes_on (seq_act (set_state ''user'' u) (set_state ''apiKey'' v) w)
      \<and> get_auth_user (aw_state (snd (seq_act (set_state ''user'' u) (set_state ''apiKey'' v) w))) = u" for u v
    using assms(10,11)
    by (simp add: set_state_def state_set_def open_world_def goes_on_def get_auth_user_def state_get_def seq_act_def)
  show ?thesis unfolding run using ok answer_stops(1)[OF assms(10)] e by auto
qed

text \<open>The comparison with a dummy hash does not hide whether an id exists: a request with an unknown id
  is answered after one PBKDF2 iteration, one with a wrong secret for a key this file generated after
  ten thousand.\<close>

theorem api_key_timing:
  assumes "salt \<noteq> []" "length (kdf secret salt pbkdf2_iterations pbkdf2_keylen) = pbkdf2_keylen"
  shows "key_cost kdf None s = 1 \<and>
    key_cost kdf (Some \<lparr> ak_hash = hash_api_key_secret kdf secret salt, ak_scopes = sc, ak_meta = mt \<rparr>) s = 10000"
  using secret_matches_generated[of salt kdf secret s, OF assms]
  by (simp add: key_cost_def secret_matches_def match_hash_def match_dollar_def match_colon_def)

definition demo_kdf :: kdf where
  "demo_kdf secret salt n len = take len (secret @ salt @ replicate 32 (CHR ''k''))"

definition demo_hash :: string where
  "demo_hash = hash_api_key_secret demo_kdf (b64url_encode ''random'') ''salt''"

definition demo_key_options :: api_key_options where
  "demo_key_options = \<lparr> ko_header = ''x-api-key'', ko_default_scopes = [],
     ko_lookup = (\<lambda>i. Inr (if i = ''k1'' then Some \<lparr> ak_hash = demo_hash, ak_scopes = Some [''read''], ak_meta = None \<rparr> else None)) \<rparr>"

definition demo_key_request :: request where
  "demo_key_request = (demo_request GET ''/me'')\<lparr>rq_headers := [(''x-api-key'', [''ax_k1_'' @ b64url_encode ''random''])]\<rparr>"

lemma demo_kdf_length: "length (demo_kdf s ''salt'' pbkdf2_iterations pbkdf2_keylen) = pbkdf2_keylen"
  by (simp add: demo_kdf_def pbkdf2_keylen_def)

theorem api_key_round_trip_witness:
  "goes_on (require_api_key demo_kdf envelope demo_key_options (Some [''read'']) demo_key_request (demo_auth_world []))
   \<and> \<not> goes_on (require_api_key demo_kdf envelope demo_key_options (Some [''write'']) demo_key_request (demo_auth_world []))"
proof -
  let ?key = "''ax_k1_'' @ b64url_encode ''random''"
  have g: "generate_api_key demo_kdf ''k1'' ''random'' ''salt'' = Inr (?key, ''k1'', demo_hash)"
    by (simp add: generate_api_key_def demo_hash_def Let_def)
  have "length (b64url_encode ''random'') = 8" by code_simp
  then have l: "length ?key \<le> max_key_length" by (simp add: max_key_length_def)
  have r: "ko_lookup demo_key_options ''k1'' = Inr (Some \<lparr> ak_hash = demo_hash, ak_scopes = Some [''read''], ak_meta = None \<rparr>)"
    by (simp add: demo_key_options_def)
  have h: "header_value demo_key_request (ko_header demo_key_options) = Some ?key"
    by (simp add: header_value_def demo_key_request_def demo_key_options_def)
  have o: "open_world (demo_auth_world [])" "map_of (rs_data (aw_state (demo_auth_world []))) ''apiKey'' = None"
    by (simp_all add: open_world_def demo_auth_world_def nr_new_def state_get_def)
  note rt = api_key_round_trip[OF g _ _ _ l demo_kdf_length r _ h o]
  show ?thesis using rt[where required = "[''read'']" and ser = envelope] rt[where required = "[''write'']" and ser = envelope] by (simp add: scopes_of_def)
qed

theorem api_key_timing_witness:
  "key_cost demo_kdf None ''wrong'' = 1
   \<and> key_cost demo_kdf (Some \<lparr> ak_hash = demo_hash, ak_scopes = None, ak_meta = None \<rparr>) ''wrong'' = 10000"
  unfolding demo_hash_def using api_key_timing[of "''salt''" demo_kdf _ "''wrong''" None None] demo_kdf_length by simp

subsection \<open>How often a key set is fetched\<close>

text \<open>A call of \<open>getKey\<close>: when, what the network would return and when it would.\<close>

record key_call =
  kc_kid :: "string option"
  kc_alg :: string
  kc_now :: int
  kc_got :: fetched
  kc_done :: int

text \<open>The times at which a sequence of calls asks the network.\<close>

fun fetch_times :: "jwks_options \<Rightarrow> (jsval \<Rightarrow> key_object option) \<Rightarrow> string \<Rightarrow> key_call list \<Rightarrow> jwks \<Rightarrow> int list" where
  "fetch_times opts import_jwk url [] j = []"
| "fetch_times opts import_jwk url (c # cs) j =
     (case jwks_get_key opts import_jwk url (kc_kid c) (kc_alg c) (kc_now c) (kc_got c) (kc_done c) j of
        (_, j', asked) \<Rightarrow> (if asked then [kc_now c] else []) @ fetch_times opts import_jwk url cs j')"

fun calls_ordered :: "int \<Rightarrow> key_call list \<Rightarrow> bool" where
  "calls_ordered T [] = True"
| "calls_ordered T (c # cs) = (T \<le> kc_now c \<and> kc_now c \<le> kc_done c \<and> calls_ordered (kc_done c) cs)"

definition serves :: "key_call \<Rightarrow> bool" where
  "serves c \<longleftrightarrow> (case kc_got c of FetchBody b \<Rightarrow> (case prop_of b ''keys'' of JArr _ \<Rightarrow> True | _ \<Rightarrow> False) | _ \<Rightarrow> False)"

definition spacing :: "jwks_options \<Rightarrow> int" where
  "spacing opts = min (jo_cooldown opts) (jo_cache_ttl opts)"

lemma get_key_served:
  assumes "serves c"
    and "jwks_get_key opts im url (kc_kid c) (kc_alg c) (kc_now c) (kc_got c) (kc_done c) j = (r, j', asked)"
  shows "(asked \<longrightarrow> jw_last_attempt j' = kc_now c \<and> jw_fetched_at j' = kc_done c) \<and> (\<not> asked \<longrightarrow> j' = j)
    \<and> (asked \<and> jw_fetched_at j \<noteq> 0 \<longrightarrow> kc_now c - jw_fetched_at j \<ge> jo_cache_ttl opts \<or> kc_now c - jw_last_attempt j \<ge> jo_cooldown opts)"
proof -
  obtain b ks where b: "kc_got c = FetchBody b" "prop_of b ''keys'' = JArr ks"
    using assms(1) by (auto simp: serves_def split: fetched.splits jsval.splits)
  show ?thesis
    using assms(2) by (auto simp: jwks_get_key_def fetch_keys_def b Let_def split: option.splits if_splits)
qed

lemma fetch_times_spaced:
  assumes "\<forall>c \<in> set cs. serves c" "calls_ordered T cs" "0 < T" "0 \<le> spacing opts" "jw_fetched_at j \<noteq> 0"
    "jw_last_attempt j \<le> jw_fetched_at j"
  shows "sorted_wrt (\<lambda>a b. a + spacing opts \<le> b) (fetch_times opts im url cs j)
    \<and> (\<forall>t \<in> set (fetch_times opts im url cs j). jw_last_attempt j + spacing opts \<le> t)"
  using assms
proof (induction cs arbitrary: j T)
  case (Cons c cs)
  obtain r j' asked where g: "jwks_get_key opts im url (kc_kid c) (kc_alg c) (kc_now c) (kc_got c) (kc_done c) j = (r, j', asked)"
    by (metis prod.collapse)
  have s: "serves c" using Cons.prems(1) by simp
  note gs = get_key_served[OF s g]
  have o: "kc_now c \<le> kc_done c" "T \<le> kc_now c" "calls_ordered (kc_done c) cs" "0 < kc_done c" using Cons.prems by auto
  show ?case
  proof (cases asked)
    case True
    then have j': "jw_last_attempt j' = kc_now c" "jw_fetched_at j' = kc_done c" using gs by blast+
    have ih: "sorted_wrt (\<lambda>a b. a + spacing opts \<le> b) (fetch_times opts im url cs j')
      \<and> (\<forall>t \<in> set (fetch_times opts im url cs j'). kc_now c + spacing opts \<le> t)"
      using Cons.IH[of "kc_done c" j'] Cons.prems(1,4) o j' by simp
    have "jw_last_attempt j + spacing opts \<le> kc_now c"
      using gs True Cons.prems(5,6) by (auto simp: spacing_def)
    then show ?thesis using ih g True Cons.prems(4) by auto
  next
    case False
    then have "j' = j" using gs by blast
    moreover have "\<forall>c \<in> set cs. serves c" using Cons.prems(1) by simp
    ultimately show ?thesis
      using Cons.IH[of "kc_done c" j] o Cons.prems(4-6) g False by simp
  qed
qed simp

text \<open>While the endpoint answers, tokens with unknown key identifiers cannot make the client hammer it:
  from the start on, two fetches are at least the shorter of the cooldown (30 seconds or more) and the
  cache lifetime apart, whatever identifiers and algorithms the tokens name.\<close>

theorem jwks_fetches_spaced:
  assumes "\<forall>c \<in> set cs. serves c" "calls_ordered T cs" "0 < T" "0 \<le> spacing opts"
  shows "sorted_wrt (\<lambda>a b. a + spacing opts \<le> b) (fetch_times opts import_jwk url cs jwks_clear)"
  using assms
proof (induction cs arbitrary: T)
  case (Cons c cs)
  obtain r j' asked where g: "jwks_get_key opts import_jwk url (kc_kid c) (kc_alg c) (kc_now c) (kc_got c) (kc_done c) jwks_clear = (r, j', asked)"
    by (metis prod.collapse)
  have s: "serves c" using Cons.prems(1) by simp
  note gs = get_key_served[OF s g]
  have o: "kc_now c \<le> kc_done c" "calls_ordered (kc_done c) cs" "0 < kc_done c" using Cons.prems by auto
  show ?case
  proof (cases asked)
    case True
    then have "jw_last_attempt j' = kc_now c" "jw_fetched_at j' = kc_done c" using gs by blast+
    then show ?thesis
      using fetch_times_spaced[of cs "kc_done c" opts j' import_jwk url] o Cons.prems(1,4) g True by simp
  next
    case False
    then show ?thesis using gs Cons.IH[of "kc_done c"] Cons.prems(1,4) o g by simp
  qed
qed simp

text \<open>While the endpoint fails, nothing holds the client back: every call with a supported algorithm asks
  the network again, however soon, although the module promises that a flood of forged tokens cannot.\<close>

theorem jwks_outage_unbounded:
  assumes "\<forall>c \<in> set cs. kc_got c = FetchFailed m \<and> kc_alg c = ''RS256''" "jw_fetched_at j = 0"
  shows "fetch_times opts import_jwk url cs j = map kc_now cs"
  using assms
proof (induction cs arbitrary: j)
  case (Cons c cs)
  have "jwks_get_key opts import_jwk url (kc_kid c) (kc_alg c) (kc_now c) (kc_got c) (kc_done c) j
      = (Inl (OtherThrown (jwks_fetch_error (''JWKS fetch failed for '' @ url @ '': '' @ m))), j\<lparr>jw_last_attempt := kc_now c\<rparr>, True)"
    using Cons.prems by (simp add: jwks_get_key_def alg_requirement_def fetch_keys_def Let_def)
  then show ?case using Cons.IH[of "j\<lparr>jw_last_attempt := kc_now c\<rparr>"] Cons.prems by simp
qed simp

definition demo_key_call :: "int \<Rightarrow> fetched \<Rightarrow> key_call" where
  "demo_key_call t got = \<lparr> kc_kid = Some ''x'', kc_alg = ''RS256'', kc_now = t, kc_got = got, kc_done = t + 1 \<rparr>"

theorem jwks_fetches_spaced_witness:
  "let got = FetchBody (JObj [(''keys'', JArr [])]);
       ts = fetch_times (jwks_options_new None None None) (\<lambda>_. None) ''u'' [demo_key_call 1 got, demo_key_call 2000 got, demo_key_call 30001 got] jwks_clear
   in sorted_wrt (\<lambda>a b. a + 30000 \<le> b) ts \<and> ts = [1, 30001]"
proof -
  let ?got = "FetchBody (JObj [(''keys'', JArr [])])" and ?o = "jwks_options_new None None None"
  let ?cs = "[demo_key_call 1 ?got, demo_key_call 2000 ?got, demo_key_call 30001 ?got]"
  have "sorted_wrt (\<lambda>a b. a + spacing ?o \<le> b) (fetch_times ?o (\<lambda>_. None) ''u'' ?cs jwks_clear)"
    by (rule jwks_fetches_spaced[of _ 1])
       (simp_all add: demo_key_call_def serves_def prop_of_def field_def spacing_def jwks_options_new_def min_cooldown_ms_def)
  moreover have "spacing ?o = 30000" by (simp add: spacing_def jwks_options_new_def min_cooldown_ms_def)
  moreover have "fetch_times ?o (\<lambda>_. None) ''u'' ?cs jwks_clear = [1, 30001]" by code_simp
  ultimately show ?thesis by (simp add: Let_def)
qed

theorem jwks_outage_unbounded_witness:
  "fetch_times (jwks_options_new None None None) (\<lambda>_. None) ''u''
     (map (\<lambda>t. demo_key_call t (FetchFailed ''down'')) [10, 11, 12, 13]) jwks_clear = [10, 11, 12, 13]"
proof -
  have "fetch_times (jwks_options_new None None None) (\<lambda>_. None) ''u'' (map (\<lambda>t. demo_key_call t (FetchFailed ''down'')) [10, 11, 12, 13]) jwks_clear
      = map kc_now (map (\<lambda>t. demo_key_call t (FetchFailed ''down'')) [10, 11, 12, 13])"
    by (rule jwks_outage_unbounded[of _ "''down''"]) (simp_all add: demo_key_call_def jwks_clear_def)
  then show ?thesis by (simp add: demo_key_call_def)
qed

end
