(* ===== verification/Session.thy ===== *)
theory Session
  imports Token_Auth
begin

text \<open>
  \<open>packages/session/src\<close>: the session of a request (\<open>session.ts\<close>) and its two stores
  (\<open>stores.ts\<close>). A store is a record of operations that may throw; \<open>get\<close> answers any value, since
  what a network store holds need not be a session. HMAC-SHA256 is the parameter \<open>hmac\<close> of
  \<open>Cookies\<close>, and \<open>fresh n\<close> is the \<open>n\<close>-th identifier drawn from \<open>randomBytes\<close>.

  The data is an object literal or a parsed one, so \<open>in\<close> also sees what it inherits
  (\<open>object_prototype\<close>); assigning \<open>__proto__\<close> replaces the prototype, which has no own key to show for
  it. A stored record whose data is an array or a class instance counts as invalid here: no store of
  the package writes one.
\<close>

subsection \<open>Stores\<close>

record session_record =
  sr_data :: json_object
  sr_created :: int

definition record_value :: "session_record \<Rightarrow> jsval" where
  "record_value r = JObj [(''data'', JObj (sr_data r)), (''createdAt'', JNum (sr_created r))]"

definition valid_record :: "jsval \<Rightarrow> session_record option" where
  "valid_record v = (case v of
       JObj kvs \<Rightarrow> (case (field kvs ''createdAt'', field kvs ''data'') of
           (JNum t, JObj d) \<Rightarrow> Some \<lparr> sr_data = d, sr_created = t \<rparr>
         | _ \<Rightarrow> None)
     | _ \<Rightarrow> None)"

record 's session_port =
  sq_get :: "int \<Rightarrow> string \<Rightarrow> 's \<Rightarrow> (thrown + jsval) \<times> 's"
  sq_set :: "int \<Rightarrow> string \<Rightarrow> session_record \<Rightarrow> rat \<Rightarrow> 's \<Rightarrow> thrown option \<times> 's"
  sq_destroy :: "string \<Rightarrow> 's \<Rightarrow> thrown option \<times> 's"
  sq_touch :: "int \<Rightarrow> string \<Rightarrow> rat \<Rightarrow> 's \<Rightarrow> thrown option \<times> 's"

text \<open>\<open>MemorySessionStore\<close>: the map in insertion order, each record with its expiry time.\<close>

type_synonym session_map = "(string, session_record \<times> rat) jsmap"

definition mss_sweep :: "int \<Rightarrow> session_map \<Rightarrow> session_map" where
  "mss_sweep now m = filter (\<lambda>(sid, rec, e). \<not> e \<le> of_int now) m"

definition mss_get :: "int \<Rightarrow> string \<Rightarrow> session_map \<Rightarrow> session_record option \<times> session_map" where
  "mss_get now sid m =
     (case map_of m sid of
        None \<Rightarrow> (None, m)
      | Some (rec, e) \<Rightarrow> if e \<le> of_int now then (None, AList.delete sid m) else (Some rec, m))"

fun mss_evict :: "nat \<Rightarrow> session_map \<Rightarrow> session_map" where
  "mss_evict cap [] = []"
| "mss_evict cap (x # m) = (if cap < length (x # m) then mss_evict cap m else x # m)"

definition mss_set :: "nat \<Rightarrow> int \<Rightarrow> string \<Rightarrow> session_record \<Rightarrow> rat \<Rightarrow> session_map \<Rightarrow> session_map" where
  "mss_set cap now sid rec ttl m =
     (let m' = AList.update sid (rec, of_int now + ttl * 1000) (AList.delete sid m)
      in if cap < length m' then mss_evict cap (mss_sweep now m') else m')"

definition mss_destroy :: "string \<Rightarrow> session_map \<Rightarrow> session_map" where
  "mss_destroy sid m = AList.delete sid m"

definition mss_touch :: "int \<Rightarrow> string \<Rightarrow> rat \<Rightarrow> session_map \<Rightarrow> session_map" where
  "mss_touch now sid ttl m =
     (case map_of m sid of
        None \<Rightarrow> m
      | Some (rec, e) \<Rightarrow> AList.update sid (rec, of_int now + ttl * 1000) m)"

definition memory_sessions :: "nat \<Rightarrow> session_map session_port" where
  "memory_sessions cap = \<lparr>
     sq_get = (\<lambda>now sid m. case mss_get now sid m of
       (None, m') \<Rightarrow> (Inr JNull, m') | (Some rec, m') \<Rightarrow> (Inr (record_value rec), m')),
     sq_set = (\<lambda>now sid rec ttl m. (None, mss_set cap now sid rec ttl m)),
     sq_destroy = (\<lambda>sid m. (None, mss_destroy sid m)),
     sq_touch = (\<lambda>now sid ttl m. (None, mss_touch now sid ttl m)) \<rparr>"

text \<open>\<open>RedisSessionStore\<close>. The client is a parameter: its operations, and whether it has \<open>setex\<close> or
  \<open>setEx\<close>. The state of the store is the client's and the style of \<open>set\<close> settled on.\<close>

datatype set_style = Variadic | ObjectStyle

record 'c session_redis =
  sx_get :: "string \<Rightarrow> 'c \<Rightarrow> (thrown + string option) \<times> 'c"
  sx_set :: "set_style \<Rightarrow> string \<Rightarrow> string \<Rightarrow> int \<Rightarrow> 'c \<Rightarrow> thrown option \<times> 'c"
  sx_del :: "string \<Rightarrow> 'c \<Rightarrow> thrown option \<times> 'c"
  sx_expire :: "string \<Rightarrow> int \<Rightarrow> 'c \<Rightarrow> thrown option \<times> 'c"
  sx_has_setex :: bool
  sx_has_setEx :: bool

definition rss_style :: "'c session_redis \<Rightarrow> set_style option" where
  "rss_style c = (if sx_has_setex c then Some Variadic else if sx_has_setEx c then Some ObjectStyle else None)"

definition rss_prefix :: "string option \<Rightarrow> string" where
  "rss_prefix p = (case p of Some s \<Rightarrow> s | None \<Rightarrow> ''axiomify:sess:'')"

definition rss_ttl :: "rat \<Rightarrow> int" where
  "rss_ttl ttl = max 1 \<lceil>ttl\<rceil>"

definition rss_get ::
    "'c session_redis \<Rightarrow> string \<Rightarrow> json_parser \<Rightarrow> string \<Rightarrow> 'c \<times> set_style option
     \<Rightarrow> (thrown + jsval) \<times> 'c \<times> set_style option" where
  "rss_get c pre parse sid st =
     (case sx_get c (pre @ sid) (fst st) of
        (Inl e, s) \<Rightarrow> (Inl e, s, snd st)
      | (Inr None, s) \<Rightarrow> (Inr JNull, s, snd st)
      | (Inr (Some raw), s) \<Rightarrow> (Inr (case parse raw of Some v \<Rightarrow> v | None \<Rightarrow> JNull), s, snd st))"

definition rss_set ::
    "'c session_redis \<Rightarrow> string \<Rightarrow> string \<Rightarrow> session_record \<Rightarrow> rat \<Rightarrow> 'c \<times> set_style option
     \<Rightarrow> thrown option \<times> 'c \<times> set_style option" where
  "rss_set c pre sid rec ttl st =
     (let key = pre @ sid; json = the (json_stringify (record_value rec)); t = rss_ttl ttl
      in case st of
           (s, Some style) \<Rightarrow> (case sx_set c style key json t s of (e, s') \<Rightarrow> (e, s', Some style))
         | (s, None) \<Rightarrow>
             (case sx_set c Variadic key json t s of
                (None, s') \<Rightarrow> (None, s', Some Variadic)
              | (Some _, s') \<Rightarrow>
                  (case sx_set c ObjectStyle key json t s' of
                     (None, s'') \<Rightarrow> (None, s'', Some ObjectStyle)
                   | (Some e, s'') \<Rightarrow> (Some e, s'', None))))"

definition rss_destroy ::
    "'c session_redis \<Rightarrow> string \<Rightarrow> string \<Rightarrow> 'c \<times> set_style option \<Rightarrow> thrown option \<times> 'c \<times> set_style option" where
  "rss_destroy c pre sid st = (case sx_del c (pre @ sid) (fst st) of (e, s) \<Rightarrow> (e, s, snd st))"

definition rss_touch ::
    "'c session_redis \<Rightarrow> string \<Rightarrow> string \<Rightarrow> rat \<Rightarrow> 'c \<times> set_style option \<Rightarrow> thrown option \<times> 'c \<times> set_style option" where
  "rss_touch c pre sid ttl st =
     (case sx_expire c (pre @ sid) (rss_ttl ttl) (fst st) of (e, s) \<Rightarrow> (e, s, snd st))"

definition redis_sessions ::
    "'c session_redis \<Rightarrow> string \<Rightarrow> json_parser \<Rightarrow> ('c \<times> set_style option) session_port" where
  "redis_sessions c pre parse = \<lparr>
     sq_get = (\<lambda>now. rss_get c pre parse), sq_set = (\<lambda>now. rss_set c pre),
     sq_destroy = rss_destroy c pre, sq_touch = (\<lambda>now. rss_touch c pre) \<rparr>"

subsection \<open>Options\<close>

record session_config =
  sf_cookie_name :: string
  sf_secrets :: "string list"
  sf_cookie :: cookie_options
  sf_secure_auto :: bool
  sf_rolling :: bool
  sf_save_uninit :: bool
  sf_idle :: rat
  sf_absolute :: "rat option"

text \<open>The options as given; \<open>secure: 'auto'\<close> is a flag beside the cookie's own attributes.\<close>

record session_options =
  sn_secret :: "str_or_list option"
  sn_cookie_name :: "string option"
  sn_cookie :: "(cookie_options \<times> bool) option"
  sn_rolling :: "bool option"
  sn_save_uninit :: "bool option"
  sn_idle :: "js_num option"
  sn_absolute :: "js_num option"

definition session_error :: "string \<Rightarrow> thrown" where
  "session_error msg = ThrowErr (axiomify_error (''[axiomify/session] '' @ msg) None)"

definition short_secret :: "nat \<Rightarrow> string" where
  "short_secret n = ''Session secret is '' @ show_nat n @ '' bytes; at least 32 bytes (256 bits) are required for HMAC-SHA256 signing. ''
     @ ''Generate one with: node -e \"console.log(require('' @ [CHR 0x27] @ ''crypto'' @ [CHR 0x27]
     @ '').randomBytes(48).toString('' @ [CHR 0x27] @ ''base64'' @ [CHR 0x27] @ ''))\"'' "

definition validate_secrets :: "str_or_list option \<Rightarrow> thrown + string list" where
  "validate_secrets secret =
     (let ss = (case secret of None \<Rightarrow> [] | Some (OneStr s) \<Rightarrow> [s] | Some (ManyStr ss) \<Rightarrow> ss)
      in if ss = [] then
           Inl (session_error (''`secret` is required '' @ [CHR 0xE2, CHR 0x80, CHR 0x94]
             @ '' a string or a string[] (rotation: sign with the first, verify against all).''))
         else case find (\<lambda>s. length (utf8 s) < 32) ss of
                Some s \<Rightarrow> Inl (session_error (short_secret (length (utf8 s))))
              | None \<Rightarrow> Inr ss)"

definition positive_num :: "js_num \<Rightarrow> rat option" where
  "positive_num x = (case x of Finite q \<Rightarrow> if q \<le> 0 then None else Some q | NonFinite \<Rightarrow> None)"

text \<open>The configuration, and whether no store was given and a new \<open>MemorySessionStore\<close> is used.\<close>

definition build_plugin_context :: "session_options \<Rightarrow> bool \<Rightarrow> thrown + (session_config \<times> bool)" where
  "build_plugin_context opts has_store =
     sum_bind (validate_secrets (sn_secret opts)) (\<lambda>secrets.
       let name = (case sn_cookie_name opts of Some n \<Rightarrow> n | None \<Rightarrow> ''axiomify.sid'');
           (cookie, auto) = (case sn_cookie opts of Some c \<Rightarrow> c | None \<Rightarrow> (no_options, False));
           idle = (case sn_idle opts of Some n \<Rightarrow> n | None \<Rightarrow>
             (case co_max_age cookie of Some n \<Rightarrow> n | None \<Rightarrow> Finite 86400))
       in if \<not> cookie_name_ok name then
            Inl (session_error (''Invalid cookieName \"'' @ name @ ''\". Cookie names must be RFC 6265 tokens.''))
          else case positive_num idle of
            None \<Rightarrow> Inl (session_error ''`idleTimeout` must be a positive number of seconds.'')
          | Some q \<Rightarrow>
              if (case sn_absolute opts of None \<Rightarrow> False | Some n \<Rightarrow> positive_num n = None)
              then Inl (session_error ''`absoluteTimeout` must be a positive number of seconds.'')
              else Inr (\<lparr> sf_cookie_name = name, sf_secrets = secrets, sf_cookie = cookie, sf_secure_auto = auto,
                  sf_rolling = (sn_rolling opts = Some True), sf_save_uninit = (sn_save_uninit opts = Some True),
                  sf_idle = q, sf_absolute = Option.bind (sn_absolute opts) positive_num \<rparr>, \<not> has_store))"

subsection \<open>The session of a request\<close>

text \<open>\<open>SessionInternal\<close>, then what it works on: the request, its response and state, the store, the
  number of identifiers drawn so far.\<close>

record session_internal =
  si_id :: string
  si_new :: bool
  si_data :: json_object
  si_created :: int
  si_dirty :: bool
  si_touched :: bool
  si_destroyed :: bool
  si_persisted :: bool
  si_cookie_set :: bool
  si_warned :: bool

record 's session_world = session_internal +
  sw_req :: request
  sw_res :: native_response
  sw_state :: request_state
  sw_store :: 's
  sw_draws :: nat

record 's session_env =
  sv_cfg :: session_config
  sv_port :: "'s session_port"
  sv_hmac :: "string \<Rightarrow> string \<Rightarrow> string"
  sv_fresh :: "nat \<Rightarrow> string"

definition is_https_forwarded :: "request \<Rightarrow> bool" where
  "is_https_forwarded req =
     (case map_of (rq_headers req) ''x-forwarded-proto'' of
        Some (v # _) \<Rightarrow> to_lower (trim (hd (split_on (CHR '','') v))) = ''https''
      | _ \<Rightarrow> False)"

definition resolve_cookie_options :: "session_config \<Rightarrow> request \<Rightarrow> cookie_options" where
  "resolve_cookie_options cfg req =
     (let c = sf_cookie cfg; c' = c\<lparr> co_path := Some (case co_path c of Some p \<Rightarrow> p | None \<Rightarrow> ''/'') \<rparr>
      in if sf_secure_auto cfg then c'\<lparr> co_secure := Some (is_https_forwarded req) \<rparr> else c')"

definition native_cookies :: "native_response cookie_port" where
  "native_cookies = \<lparr> kp_cookie = Some nr_cookie, kp_clear_cookie = Some nr_clear_cookie,
     kp_get_header = nr_get_header, kp_header = nr_header \<rparr>"

definition set_cookie_now :: "'s session_env \<Rightarrow> 's session_world act" where
  "set_cookie_now env w =
     (if nr_headers_sent (sw_res w) then (None, w\<lparr>si_warned := True\<rparr>)
      else case sign_cookie_value (sv_hmac env) (si_id w) (hd (sf_secrets (sv_cfg env))) of
             Inl e \<Rightarrow> (Some (cookie_thrown e), w)
           | Inr v \<Rightarrow>
               (case set_cookie native_cookies (sf_cookie_name (sv_cfg env)) v
                       (resolve_cookie_options (sv_cfg env) (sw_req w)) (sw_res w) of
                  (Some e, r) \<Rightarrow> (Some e, w\<lparr>sw_res := r\<rparr>)
                | (None, r) \<Rightarrow> (None, w\<lparr>sw_res := r, si_cookie_set := True\<rparr>)))"

definition ensure_cookie :: "'s session_env \<Rightarrow> 's session_world act" where
  "ensure_cookie env w = (if si_cookie_set w then (None, w) else set_cookie_now env w)"

definition mark_dirty :: "'s session_env \<Rightarrow> 's session_world act" where
  "mark_dirty env w = ensure_cookie env (w\<lparr>si_dirty := True, si_persisted := False\<rparr>)"

definition current_record :: "'s session_world \<Rightarrow> session_record" where
  "current_record w = \<lparr> sr_data = si_data w, sr_created = si_created w \<rparr>"

definition persist :: "'s session_env \<Rightarrow> int \<Rightarrow> 's session_world act" where
  "persist env now w =
     (if si_destroyed w \<or> si_persisted w then (None, w)
      else
        let w1 = w\<lparr>si_persisted := True\<rparr>
        in if si_dirty w \<or> (si_new w \<and> sf_save_uninit (sv_cfg env)) then
             (case sq_set (sv_port env) now (si_id w) (current_record w) (sf_idle (sv_cfg env)) (sw_store w) of
                (Some e, s) \<Rightarrow> (Some e, w1\<lparr>sw_store := s\<rparr>)
              | (None, s) \<Rightarrow> (None, w1\<lparr>sw_store := s, si_dirty := False, si_new := False\<rparr>))
           else if \<not> si_new w \<and> (si_touched w \<or> sf_rolling (sv_cfg env)) then
             (case sq_touch (sv_port env) now (si_id w) (sf_idle (sv_cfg env)) (sw_store w) of
                (Some e, s) \<Rightarrow> (Some e, w1\<lparr>sw_store := s\<rparr>)
              | (None, s) \<Rightarrow> (None, w1\<lparr>sw_store := s, si_touched := False\<rparr>))
           else (None, w1))"

definition clearing_options :: "cookie_options \<Rightarrow> cookie_options" where
  "clearing_options c = no_options\<lparr> co_domain := co_domain c, co_path := co_path c, co_secure := co_secure c,
     co_same_site := co_same_site c \<rparr>"

definition destroy_session :: "'s session_env \<Rightarrow> 's session_world act" where
  "destroy_session env w =
     (case sq_destroy (sv_port env) (si_id w) (sw_store w) of
        (e, s) \<Rightarrow>
          (let w1 = w\<lparr>si_destroyed := True, si_data := [], sw_store := s\<rparr>
           in if e \<noteq> None then (e, w1)
              else if nr_headers_sent (sw_res w1) then (None, w1)
              else (case clear_cookie native_cookies (sf_cookie_name (sv_cfg env))
                        (clearing_options (resolve_cookie_options (sv_cfg env) (sw_req w1))) (sw_res w1) of
                      (e', r) \<Rightarrow> (e', w1\<lparr>sw_res := r\<rparr>))))"

definition regenerate_session :: "'s session_env \<Rightarrow> int \<Rightarrow> 's session_world act" where
  "regenerate_session env now w =
     (if si_destroyed w then (Some (session_error ''Cannot regenerate a destroyed session.''), w)
      else
        case set_cookie_now env (w\<lparr>si_id := sv_fresh env (sw_draws w), sw_draws := Suc (sw_draws w), si_created := now,
               si_dirty := True, si_persisted := False, si_cookie_set := False\<rparr>) of
          (Some e, w1) \<Rightarrow> (Some e, w1)
        | (None, w1) \<Rightarrow>
            if si_new w then (None, w1)
            else (case sq_destroy (sv_port env) (si_id w) (sw_store w1) of
                    (e, s) \<Rightarrow> (e, w1\<lparr>sw_store := s\<rparr>)))"

definition touch_session :: "'s session_env \<Rightarrow> 's session_world act" where
  "touch_session env w =
     (if si_destroyed w then (None, w)
      else ensure_cookie env (w\<lparr>si_touched := True, si_persisted := False\<rparr>))"

definition save_now :: "'s session_env \<Rightarrow> int \<Rightarrow> 's session_world act" where
  "save_now env now w =
     (if si_destroyed w then (Some (session_error ''Cannot save a destroyed session.''), w)
      else
        case ensure_cookie env w of
          (Some e, w1) \<Rightarrow> (Some e, w1)
        | (None, w1) \<Rightarrow>
            (case sq_set (sv_port env) now (si_id w1) (current_record w1) (sf_idle (sv_cfg env)) (sw_store w1) of
               (Some e, s) \<Rightarrow> (Some e, w1\<lparr>sw_store := s\<rparr>)
             | (None, s) \<Rightarrow>
                 (None, w1\<lparr>sw_store := s, si_dirty := False, si_touched := False, si_persisted := True, si_new := False\<rparr>)))"

subsection \<open>The proxy\<close>

definition reserved_keys :: "string list" where
  "reserved_keys = [''id'', ''isNew'', ''destroy'', ''regenerate'', ''touch'', ''save'']"

definition session_methods :: "string list" where
  "session_methods = [''destroy'', ''regenerate'', ''touch'', ''save'']"

definition in_data :: "string \<Rightarrow> json_object \<Rightarrow> bool" where
  "in_data k d \<longleftrightarrow> k \<in> set (keys d) \<or> k \<in> set object_prototype"

definition assign :: "string \<Rightarrow> jsval \<Rightarrow> json_object \<Rightarrow> json_object" where
  "assign k v d = (if k = ''__proto__'' then d else AList.update k v d)"

definition destroyed_error :: thrown where
  "destroyed_error = session_error ''Session has been destroyed; writes are no longer allowed.''"

text \<open>A read, by kind of answer. \<open>null\<close>-prototype target, methods and inherited functions included.\<close>

datatype session_read = ReadId string | ReadIsNew bool | ReadToJson json_object | ReadMethod string | ReadInherited string
  | ReadValue jsval

definition session_get :: "string \<Rightarrow> 's session_world \<Rightarrow> session_read" where
  "session_get k w =
     (if k = ''id'' then ReadId (si_id w)
      else if k = ''isNew'' then ReadIsNew (si_new w)
      else if k = ''toJSON'' then ReadToJson (si_data w)
      else if k \<in> set session_methods then ReadMethod k
      else case map_of (si_data w) k of
             Some v \<Rightarrow> ReadValue v
           | None \<Rightarrow> if k \<in> set object_prototype then ReadInherited k else ReadValue JUndef)"

definition session_has :: "string \<Rightarrow> 's session_world \<Rightarrow> bool" where
  "session_has k w \<longleftrightarrow> k \<in> set reserved_keys \<or> in_data k (si_data w)"

definition session_set :: "'s session_env \<Rightarrow> string \<Rightarrow> jsval \<Rightarrow> 's session_world act" where
  "session_set env k v w =
     (if k \<in> set reserved_keys then
        (Some (session_error (''Session key \"'' @ k @ ''\" is reserved and cannot be assigned.'')), w)
      else if si_destroyed w then (Some destroyed_error, w)
      else mark_dirty env (w\<lparr>si_data := assign k v (si_data w)\<rparr>))"

text \<open>A trap that answers \<open>false\<close> makes the \<open>delete\<close> throw a \<open>TypeError\<close>.\<close>

definition trap_error :: thrown where
  "trap_error = plain_error ''TypeError''"

definition session_delete :: "'s session_env \<Rightarrow> string \<Rightarrow> 's session_world act" where
  "session_delete env k w =
     (if k \<in> set reserved_keys then (Some trap_error, w)
      else if si_destroyed w then (None, w)
      else if in_data k (si_data w) then mark_dirty env (w\<lparr>si_data := AList.delete k (si_data w)\<rparr>)
      else (None, w))"

text \<open>Writes and deletions below the top level, through the proxies of \<open>trackNested\<close>: \<open>path\<close> leads from
  the value of the key \<open>k\<close> to a plain object or an array. An index beyond the end of an array leaves holes, which read
  as \<open>undefined\<close>; a key of an array that is no index is not part of its JSON (\<open>length\<close> is not
  modelled). A class instance is handed out untracked, so what is written into it goes unnoticed.\<close>

fun put_in :: "Js_Value.step \<Rightarrow> jsval \<Rightarrow> jsval \<Rightarrow> jsval" where
  "put_in (Key k) v (JObj kvs) = JObj (assign k v kvs)"
| "put_in (Index i) v (JObj kvs) = JObj (AList.update (show_nat i) v kvs)"
| "put_in (Index i) v (JArr vs) =
     JArr (if i < length vs then vs[i := v] else vs @ replicate (i - length vs) JUndef @ [v])"
| "put_in _ v c = c"

fun drop_in :: "Js_Value.step \<Rightarrow> jsval \<Rightarrow> jsval" where
  "drop_in (Key k) (JObj kvs) = JObj (AList.delete k kvs)"
| "drop_in (Index i) (JObj kvs) = JObj (AList.delete (show_nat i) kvs)"
| "drop_in (Index i) (JArr vs) = JArr (if i < length vs then vs[i := JUndef] else vs)"
| "drop_in _ c = c"

fun change_at :: "Js_Value.step list \<Rightarrow> (jsval \<Rightarrow> jsval) \<Rightarrow> jsval \<Rightarrow> jsval" where
  "change_at [] f v = f v"
| "change_at (Key k # p) f (JObj kvs) =
     (case map_of kvs k of Some v \<Rightarrow> JObj (AList.update k (change_at p f v) kvs) | None \<Rightarrow> JObj kvs)"
| "change_at (Index i # p) f (JArr vs) = (if i < length vs then JArr (vs[i := change_at p f (vs ! i)]) else JArr vs)"
| "change_at _ f v = v"

definition object_entries :: "jsval \<Rightarrow> json_object" where
  "object_entries v = (case v of JObj kvs \<Rightarrow> kvs | _ \<Rightarrow> [])"

definition nested_change ::
    "'s session_env \<Rightarrow> bool \<Rightarrow> string \<Rightarrow> Js_Value.step list \<Rightarrow> (jsval \<Rightarrow> jsval) \<Rightarrow> 's session_world act" where
  "nested_change env deleting k path f w =
     (case value_at (Key k # path) (JObj (si_data w)) of
        Some (JInst _) \<Rightarrow> (None, w)
      | Some c \<Rightarrow>
          if \<not> is_object c then (Some trap_error, w)
          else if si_destroyed w then (if deleting then None else Some destroyed_error, w)
          else mark_dirty env (w\<lparr>si_data := object_entries (change_at (Key k # path) f (JObj (si_data w)))\<rparr>)
      | None \<Rightarrow> (Some trap_error, w))"

definition nested_set :: "'s session_env \<Rightarrow> string \<Rightarrow> Js_Value.step list \<Rightarrow> Js_Value.step \<Rightarrow> jsval \<Rightarrow> 's session_world act" where
  "nested_set env k path p v = nested_change env False k path (put_in p v)"

definition nested_delete :: "'s session_env \<Rightarrow> string \<Rightarrow> Js_Value.step list \<Rightarrow> Js_Value.step \<Rightarrow> 's session_world act" where
  "nested_delete env k path p = nested_change env True k path (drop_in p)"

subsection \<open>The hooks\<close>

text \<open>The identifier a request proves to hold: the value of its session cookie, when the signature is one
  of ours and the value is not empty.\<close>

definition presented_id :: "'s session_env \<Rightarrow> request \<Rightarrow> string option" where
  "presented_id env req =
     (case map_of (parse_cookie_header (cookie_header req)) (sf_cookie_name (sv_cfg env)) of
        Some (c # raw) \<Rightarrow>
          (case unsign_cookie_value (sv_hmac env) (c # raw) (sf_secrets (sv_cfg env)) of
             Some (d # v) \<Rightarrow> Some (d # v)
           | _ \<Rightarrow> None)
      | _ \<Rightarrow> None)"

definition expired_absolutely :: "session_config \<Rightarrow> int \<Rightarrow> session_record \<Rightarrow> bool" where
  "expired_absolutely cfg now rec =
     (case sf_absolute cfg of Some t \<Rightarrow> t * 1000 \<le> of_int (now - sr_created rec) | None \<Rightarrow> False)"

text \<open>The session the request resumes, if any, or what the store threw.\<close>

definition resume :: "'s session_env \<Rightarrow> int \<Rightarrow> request \<Rightarrow> 's \<Rightarrow> (thrown + (string \<times> session_record) option) \<times> 's" where
  "resume env now req s =
     (case presented_id env req of
        None \<Rightarrow> (Inr None, s)
      | Some sid \<Rightarrow>
          (case sq_get (sv_port env) now sid s of
             (Inl e, s1) \<Rightarrow> (Inl e, s1)
           | (Inr v, s1) \<Rightarrow>
               (case valid_record v of
                  None \<Rightarrow> (Inr None, s1)
                | Some rec \<Rightarrow>
                    if expired_absolutely (sv_cfg env) now rec then
                      (case sq_destroy (sv_port env) sid s1 of
                         (Some e, s2) \<Rightarrow> (Inl e, s2) | (None, s2) \<Rightarrow> (Inr None, s2))
                    else (Inr (Some (sid, rec)), s1))))"

definition fresh_internal :: "string \<Rightarrow> bool \<Rightarrow> session_record \<Rightarrow> session_internal" where
  "fresh_internal sid new rec = \<lparr> si_id = sid, si_new = new, si_data = sr_data rec, si_created = sr_created rec,
     si_dirty = False, si_touched = False, si_destroyed = False, si_persisted = False, si_cookie_set = False,
     si_warned = False \<rparr>"

definition session_object :: jsval where
  "session_object = JInst ''session''"

definition open_session ::
    "session_internal \<Rightarrow> request \<Rightarrow> native_response \<Rightarrow> request_state \<Rightarrow> 's \<Rightarrow> nat \<Rightarrow> 's session_world" where
  "open_session i req res st s n = session_internal.extend i
     \<lparr> sw_req = req, sw_res = res, sw_state = st, sw_store = s, sw_draws = n \<rparr>"

datatype 's attached = AttachFailed thrown 's | Attached "thrown option" "'s session_world"

definition attach_session ::
    "'s session_env \<Rightarrow> int \<Rightarrow> request \<Rightarrow> native_response \<Rightarrow> request_state \<Rightarrow> 's \<Rightarrow> nat \<Rightarrow> 's attached" where
  "attach_session env now req res st s draws =
     (case resume env now req s of
        (Inl e, s1) \<Rightarrow> AttachFailed e s1
      | (Inr found, s1) \<Rightarrow>
          (let w = (case found of
                 Some (sid, rec) \<Rightarrow> open_session (fresh_internal sid False rec) req res st s1 draws
               | None \<Rightarrow> open_session (fresh_internal (sv_fresh env draws) True \<lparr> sr_data = [], sr_created = now \<rparr>)
                           req res st s1 (Suc draws))
           in case state_set ''session'' session_object (sw_state w) of
                (Some e, st') \<Rightarrow> Attached (Some (state_thrown e)) (w\<lparr>sw_state := st'\<rparr>)
              | (None, st') \<Rightarrow>
                  (let w1 = w\<lparr>sw_state := st'\<rparr>
                   in if (if si_new w1 then sf_save_uninit (sv_cfg env) else sf_rolling (sv_cfg env))
                      then (case set_cookie_now env w1 of (e, w2) \<Rightarrow> Attached e w2)
                      else Attached None w1)))"

text \<open>\<open>persistSession\<close> and \<open>getSession\<close> look the session up in the request's state.\<close>

definition persist_session :: "'s session_env \<Rightarrow> int \<Rightarrow> 's session_world act" where
  "persist_session env now w =
     (if \<not> truthy (state_get ''session'' (sw_state w)) then (None, w) else persist env now w)"

definition no_session :: thrown where
  "no_session = session_error ''No session found on this request. Did you register useSession(app, { secret })?''"

definition get_session :: "request_state \<Rightarrow> thrown + jsval" where
  "get_session st = (if truthy (state_get ''session'' st) then Inr (state_get ''session'' st) else Inl no_session)"

subsection \<open>What a handler can do\<close>

datatype session_op =
    SSet string jsval | SDelete string
  | SSetIn string "Js_Value.step list" Js_Value.step jsval | SDeleteIn string "Js_Value.step list" Js_Value.step
  | STouch | SSave | SRegenerate | SDestroy | SPersist

fun session_step :: "'s session_env \<Rightarrow> int \<Rightarrow> session_op \<Rightarrow> 's session_world act" where
  "session_step env now (SSet k v) w = session_set env k v w"
| "session_step env now (SDelete k) w = session_delete env k w"
| "session_step env now (SSetIn k p q v) w = nested_set env k p q v w"
| "session_step env now (SDeleteIn k p q) w = nested_delete env k p q w"
| "session_step env now STouch w = touch_session env w"
| "session_step env now SSave w = save_now env now w"
| "session_step env now SRegenerate w = regenerate_session env now w"
| "session_step env now SDestroy w = destroy_session env w"
| "session_step env now SPersist w = persist_session env now w"

text \<open>A sequence of them at given times; whatever one throws, the handler may go on.\<close>

fun session_run :: "'s session_env \<Rightarrow> (int \<times> session_op) list \<Rightarrow> 's session_world \<Rightarrow> 's session_world" where
  "session_run env [] w = w"
| "session_run env ((now, op) # ops) w = session_run env ops (snd (session_step env now op w))"

end
