(* ===== verification/Session_Props.thy ===== *)
theory Session_Props
  imports Session
begin

text \<open>
  The contract of a session store (locale \<open>session_store\<close>), kept by \<open>MemorySessionStore\<close>, and of one that
  does not fail (\<open>reliable_store\<close>). Over them: whose session a request gets, that a destroyed session
  stays destroyed, that what a handler leaves in the session is what the store holds afterwards, and a
  whole round through the browser. Also: what a failing store and overlapping requests cost.
\<close>

subsection \<open>What a store promises\<close>

text \<open>\<open>holds s sid\<close>: the record the store has for an identifier, expired or not. Stores may drop records at
  any time; they never change one or make one up. An operation that throws may still have had its effect.\<close>

locale session_store =
  fixes port :: "'s session_port" and ok :: "'s \<Rightarrow> bool" and holds :: "'s \<Rightarrow> string \<Rightarrow> session_record option"
  assumes get_law: "ok s \<Longrightarrow> sq_get port now sid s = (g, s') \<Longrightarrow>
      ok s' \<and> (\<forall>k. holds s' k = None \<or> holds s' k = holds s k)
      \<and> (\<forall>v rec. g = Inr v \<longrightarrow> valid_record v = Some rec \<longrightarrow> holds s' sid = Some rec)"
    and set_law: "ok s \<Longrightarrow> 0 < ttl \<Longrightarrow> sq_set port now sid rec ttl s = (e, s') \<Longrightarrow>
      ok s' \<and> (\<forall>k. k \<noteq> sid \<longrightarrow> holds s' k = None \<or> holds s' k = holds s k) \<and> (e = None \<longrightarrow> holds s' sid = Some rec)"
    and destroy_law: "ok s \<Longrightarrow> sq_destroy port sid s = (e, s') \<Longrightarrow>
      ok s' \<and> (\<forall>k. holds s' k = None \<or> holds s' k = holds s k) \<and> (e = None \<longrightarrow> holds s' sid = None)"
    and touch_law: "ok s \<Longrightarrow> sq_touch port now sid ttl s = (e, s') \<Longrightarrow>
      ok s' \<and> (\<forall>k. holds s' k = None \<or> holds s' k = holds s k)"

locale reliable_store = session_store port ok holds
  for port :: "'s session_port" and ok :: "'s \<Rightarrow> bool" and holds :: "'s \<Rightarrow> string \<Rightarrow> session_record option" +
  assumes set_works: "fst (sq_set port now sid rec ttl s) = None"
    and destroy_works: "fst (sq_destroy port sid s) = None"

subsection \<open>The memory store\<close>

definition mss_holds :: "session_map \<Rightarrow> string \<Rightarrow> session_record option" where
  "mss_holds m sid = map_option fst (map_of m sid)"

lemma valid_record_value [simp]: "valid_record (record_value r) = Some r"
  by (cases r) (simp add: valid_record_def record_value_def field_def)

lemma valid_record_null [simp]: "valid_record JNull = None"
  by (simp add: valid_record_def)

lemma mss_evict_suffix: "\<exists>p. m = p @ mss_evict cap m"
proof (induction m)
  case (Cons x m)
  then obtain p where "m = p @ mss_evict cap m" by blast
  then show ?case by (auto intro: exI[of _ "x # p"] exI[of _ "[]"])
qed simp

lemma mss_evict_length: "length (mss_evict cap m) \<le> cap"
  by (induction m) auto

lemma mss_evict_eq: "mss_evict cap m = drop (length m - cap) m"
  by (induction m) (auto simp: Suc_diff_le not_less)

lemma map_of_sublist:
  assumes "distinct_keys m" "set m' \<subseteq> set m"
  shows "map_of m' k = None \<or> map_of m' k = map_of m k"
proof (cases "map_of m' k")
  case (Some v)
  then have "(k, v) \<in> set m" using assms(2) by (auto dest: map_of_SomeD)
  then show ?thesis using Some assms(1) by simp
qed simp

lemma mss_set_subset:
  "set (mss_set cap now sid rec ttl m) \<subseteq> insert (sid, rec, of_int now + ttl * 1000) {p \<in> set m. fst p \<noteq> sid}"
proof -
  let ?u = "AList.update sid (rec, of_int now + ttl * 1000) (AList.delete sid m)"
  have "set (mss_evict cap x) \<subseteq> set x" for x
    unfolding mss_evict_eq by (rule set_drop_subset)
  moreover have "set (mss_sweep now ?u) \<subseteq> set ?u" by (auto simp: mss_sweep_def)
  ultimately have "set (mss_set cap now sid rec ttl m) \<subseteq> set ?u"
    unfolding mss_set_def Let_def by (simp split: if_split) blast
  moreover have "set ?u \<subseteq> insert (sid, rec, of_int now + ttl * 1000) {p \<in> set m. fst p \<noteq> sid}"
    by (subst update_new) (auto simp: set_delete)
  ultimately show ?thesis by (rule subset_trans)
qed

lemma distinct_keys_evict: "distinct_keys m \<Longrightarrow> distinct_keys (mss_evict cap m)"
  by (induction m) auto

lemma distinct_keys_set: "distinct_keys m \<Longrightarrow> distinct_keys (mss_set cap now sid rec ttl m)"
  by (auto simp: mss_set_def mss_sweep_def Let_def intro!: distinct_keys_evict)

lemma mss_set_last:
  assumes "0 < ttl" "0 < cap"
  shows "(sid, rec, of_int now + ttl * 1000) \<in> set (mss_set cap now sid rec ttl m)"
proof -
  define x where "x = (sid, rec, of_int now + ttl * 1000 :: rat)"
  have u: "AList.update sid (snd x) (AList.delete sid m) = AList.delete sid m @ [x]"
    by (subst update_new) (auto simp: x_def set_delete)
  have "mss_sweep now (AList.delete sid m @ [x]) = mss_sweep now (AList.delete sid m) @ [x]"
    using assms(1) by (auto simp: mss_sweep_def x_def)
  moreover have "x \<in> set (mss_evict cap (l @ [x]))" for l
    using assms(2) by (auto simp: mss_evict_eq)
  ultimately have "x \<in> set (mss_set cap now sid rec ttl m)"
    using u by (auto simp: mss_set_def Let_def x_def)
  then show ?thesis by (simp add: x_def)
qed

lemma mss_set_holds:
  assumes "distinct_keys m" "0 < ttl" "0 < cap"
  shows "map_of (mss_set cap now sid rec ttl m) sid = Some (rec, of_int now + ttl * 1000)"
  using mss_set_last[OF assms(2,3)] distinct_keys_set[OF assms(1)] by simp

lemma mss_set_others:
  assumes "distinct_keys m" "k \<noteq> sid"
  shows "map_of (mss_set cap now sid rec ttl m) k = None \<or> map_of (mss_set cap now sid rec ttl m) k = map_of m k"
proof (cases "map_of (mss_set cap now sid rec ttl m) k")
  case (Some v)
  then have "(k, v) \<in> set m" using mss_set_subset[of cap now sid rec ttl m] assms(2) by (auto dest!: map_of_SomeD)
  then show ?thesis using Some assms(1) by simp
qed simp

lemma mss_set_holds_others:
  "distinct_keys m \<Longrightarrow> k \<noteq> sid \<Longrightarrow>
   mss_holds (mss_set cap now sid rec ttl m) k = None \<or> mss_holds (mss_set cap now sid rec ttl m) k = mss_holds m k"
  using mss_set_others[of m k sid cap now rec ttl] unfolding mss_holds_def by auto

lemma mss_get_keeps:
  "mss_get now sid m = (r, m') \<Longrightarrow>
   (r = None \<and> (m' = m \<or> m' = AList.delete sid m)) \<or> (m' = m \<and> r \<noteq> None \<and> mss_holds m sid = r)"
  by (auto simp: mss_get_def mss_holds_def split: option.splits if_splits)

lemma mss_touch_holds: "mss_holds (mss_touch now sid ttl m) = mss_holds m"
  by (rule ext) (auto simp: mss_touch_def mss_holds_def split: option.splits)

lemma reliable_memory: "reliable_store (memory_sessions (Suc n)) distinct_keys mss_holds"
proof unfold_locales
  fix s s' :: session_map and now sid g
  assume ok: "distinct_keys s" and g: "sq_get (memory_sessions (Suc n)) now sid s = (g, s')"
  then obtain r where r: "mss_get now sid s = (r, s')" and gr: "g = (case r of None \<Rightarrow> Inr JNull | Some rec \<Rightarrow> Inr (record_value rec))"
    by (auto simp: memory_sessions_def split: prod.splits option.splits)
  show "distinct_keys s' \<and> (\<forall>k. mss_holds s' k = None \<or> mss_holds s' k = mss_holds s k)
      \<and> (\<forall>v rec. g = Inr v \<longrightarrow> valid_record v = Some rec \<longrightarrow> mss_holds s' sid = Some rec)"
    using mss_get_keeps[OF r] ok gr by (auto simp: mss_holds_def)
next
  fix s s' :: session_map and now sid rec e and ttl :: rat
  assume "distinct_keys s" "0 < ttl" "sq_set (memory_sessions (Suc n)) now sid rec ttl s = (e, s')"
  then show "distinct_keys s' \<and> (\<forall>k. k \<noteq> sid \<longrightarrow> mss_holds s' k = None \<or> mss_holds s' k = mss_holds s k)
      \<and> (e = None \<longrightarrow> mss_holds s' sid = Some rec)"
    using mss_set_holds_others[of s _ sid "Suc n" now rec ttl] mss_set_holds[of s ttl "Suc n" now sid rec]
      distinct_keys_set[of s "Suc n" now sid rec ttl]
    by (simp add: memory_sessions_def) (auto simp: mss_holds_def)
next
  fix s s' :: session_map and now sid e and ttl :: rat
  assume "distinct_keys s" "sq_touch (memory_sessions (Suc n)) now sid ttl s = (e, s')"
  then show "distinct_keys s' \<and> (\<forall>k. mss_holds s' k = None \<or> mss_holds s' k = mss_holds s k)"
    using mss_touch_holds[of now sid ttl s] by (auto simp: memory_sessions_def mss_touch_def split: option.splits)
qed (auto simp: memory_sessions_def mss_destroy_def mss_holds_def)

interpretation mem_sessions: reliable_store "memory_sessions (Suc n)" distinct_keys mss_holds
  by (rule reliable_memory)

subsection \<open>Dirty tracking\<close>

text \<open>What is true of the session whenever the handler runs: the identifier's record is the session's
  data unless a flag says otherwise, a session that was never written is empty, and unsaved changes
  are not taken for persisted.\<close>

lemma set_cookie_now_keeps [simp]:
  "si_id (snd (set_cookie_now env w)) = si_id w" "si_new (snd (set_cookie_now env w)) = si_new w"
  "si_data (snd (set_cookie_now env w)) = si_data w" "si_created (snd (set_cookie_now env w)) = si_created w"
  "si_dirty (snd (set_cookie_now env w)) = si_dirty w" "si_touched (snd (set_cookie_now env w)) = si_touched w"
  "si_destroyed (snd (set_cookie_now env w)) = si_destroyed w" "si_persisted (snd (set_cookie_now env w)) = si_persisted w"
  "sw_store (snd (set_cookie_now env w)) = sw_store w" "sw_state (snd (set_cookie_now env w)) = sw_state w"
  "sw_draws (snd (set_cookie_now env w)) = sw_draws w" "sw_req (snd (set_cookie_now env w)) = sw_req w"
  by (simp_all add: set_cookie_now_def split: sum.split prod.split option.split)

lemma ensure_cookie_keeps [simp]:
  "si_id (snd (ensure_cookie env w)) = si_id w" "si_new (snd (ensure_cookie env w)) = si_new w"
  "si_data (snd (ensure_cookie env w)) = si_data w" "si_created (snd (ensure_cookie env w)) = si_created w"
  "si_dirty (snd (ensure_cookie env w)) = si_dirty w" "si_touched (snd (ensure_cookie env w)) = si_touched w"
  "si_destroyed (snd (ensure_cookie env w)) = si_destroyed w" "si_persisted (snd (ensure_cookie env w)) = si_persisted w"
  "sw_store (snd (ensure_cookie env w)) = sw_store w" "sw_state (snd (ensure_cookie env w)) = sw_state w"
  "sw_draws (snd (ensure_cookie env w)) = sw_draws w" "sw_req (snd (ensure_cookie env w)) = sw_req w"
  by (simp_all add: ensure_cookie_def)

lemma current_record_eq:
  "si_data w = si_data w' \<Longrightarrow> si_created w = si_created w' \<Longrightarrow> current_record w = current_record w'"
  by (simp add: current_record_def)

text \<open>Whose session a request gets.\<close>

lemma attach_cases:
  assumes "attach_session env now req res st s draws = Attached e w"
  obtains (new) s' where "resume env now req s = (Inr None, s')" "si_new w" "si_id w = sv_fresh env draws"
      "si_data w = []" "si_created w = now" "sw_draws w = Suc draws" "sw_store w = s'" "\<not> si_dirty w" "\<not> si_persisted w"
      "\<not> si_destroyed w" "sf_save_uninit (sv_cfg env) \<or> \<not> si_cookie_set w \<and> sw_res w = res" "sw_req w = req"
    | (old) s' sid rec where "resume env now req s = (Inr (Some (sid, rec)), s')" "\<not> si_new w" "si_id w = sid"
      "current_record w = rec" "sw_draws w = draws" "sw_store w = s'" "\<not> si_dirty w" "\<not> si_persisted w"
      "\<not> si_destroyed w"
proof -
  obtain r s' where r: "resume env now req s = (r, s')" by force
  then obtain f where f: "r = Inr f" using assms by (cases r) (auto simp: attach_session_def)
  define w0 where "w0 = (case f of Some (sid, rec) \<Rightarrow> open_session (fresh_internal sid False rec) req res st s' draws
      | None \<Rightarrow> open_session (fresh_internal (sv_fresh env draws) True \<lparr> sr_data = [], sr_created = now \<rparr>) req res st s' (Suc draws))"
  obtain x st' where st: "state_set ''session'' session_object (sw_state w0) = (x, st')" by force
  have w: "w = w0\<lparr>sw_state := st'\<rparr> \<or> w = snd (set_cookie_now env (w0\<lparr>sw_state := st'\<rparr>))
      \<and> (if si_new w0 then sf_save_uninit (sv_cfg env) else sf_rolling (sv_cfg env))"
    using assms st unfolding attach_session_def r f w0_def[symmetric]
    by (auto simp: Let_def w0_def[symmetric] split: option.splits prod.splits if_splits)
  show thesis
  proof (cases f)
    case None
    have "si_id w0 = sv_fresh env draws" "si_new w0" "si_data w0 = []" "si_created w0 = now" "sw_draws w0 = Suc draws"
      "sw_store w0 = s'" "\<not> si_dirty w0" "\<not> si_persisted w0" "\<not> si_destroyed w0" "\<not> si_cookie_set w0 \<and> sw_res w0 = res" "sw_req w0 = req"
      by (simp_all add: w0_def None open_session_def fresh_internal_def session_internal.defs)
    with w show thesis by (intro new[of s']) (use r f None in auto)
  next
    case (Some p)
    obtain sid rec where p: "p = (sid, rec)" by force
    have "si_id w0 = sid" "\<not> si_new w0" "current_record w0 = rec" "sw_draws w0 = draws"
      "sw_store w0 = s'" "\<not> si_dirty w0" "\<not> si_persisted w0" "\<not> si_destroyed w0"
      by (simp_all add: w0_def Some p open_session_def fresh_internal_def session_internal.defs current_record_def)
    with w show thesis by (intro old[of sid rec s']) (use r f Some p in \<open>auto simp: current_record_def\<close>)
  qed
qed

lemma attach_succeeds:
  assumes "resume env now req s = (Inr f, s')"
  obtains e w where "attach_session env now req res st s draws = Attached e w"
  using assms by (cases "attach_session env now req res st s draws")
    (auto simp: attach_session_def Let_def split: option.splits prod.splits if_splits)

lemma resume_found:
  assumes "resume env now req s = (Inr (Some (sid, rec)), s')"
  obtains v where "presented_id env req = Some sid" "sq_get (sv_port env) now sid s = (Inr v, s')"
    "valid_record v = Some rec" "\<not> expired_absolutely (sv_cfg env) now rec"
  using assms by (auto simp: resume_def split: option.splits prod.splits sum.splits if_splits)

lemma presented_signed:
  assumes "presented_id env req = Some sid"
  obtains secret where "secret \<in> set (sf_secrets (sv_cfg env))"
    "map_of (parse_cookie_header (cookie_header req)) (sf_cookie_name (sv_cfg env)) = Some (''s:'' @ sid @ ''.'' @ sv_hmac env sid secret)"
proof -
  obtain raw where raw: "map_of (parse_cookie_header (cookie_header req)) (sf_cookie_name (sv_cfg env)) = Some raw"
      "unsign_cookie_value (sv_hmac env) raw (sf_secrets (sv_cfg env)) = Some sid"
    using assms by (auto simp: presented_id_def split: option.splits list.splits)
  then show thesis using that unfolding unsign_iff check_secrets_iff by auto
qed

text \<open>Once destroyed, the session lets nothing through but another \<open>destroy\<close>.\<close>

lemma destroyed_frozen:
  assumes "si_destroyed w" "op \<noteq> SDestroy"
  shows "snd (session_step env now op w) = w"
proof -
  have "snd (nested_change env del k p f w) = w" for del k p f
    using assms(1) by (simp add: nested_change_def split: option.split jsval.split)
  then show ?thesis
    using assms by (cases op) (simp_all add: session_set_def session_delete_def nested_set_def nested_delete_def
        touch_session_def save_now_def regenerate_session_def persist_session_def persist_def)
qed

context reliable_store
begin

definition tracked :: "'s session_world \<Rightarrow> bool" where
  "tracked w \<longleftrightarrow> ok (sw_store w)
     \<and> (if si_destroyed w then holds (sw_store w) (si_id w) = None \<and> si_data w = []
        else (if si_dirty w then \<not> si_persisted w
              else if si_new w then si_data w = []
              else holds (sw_store w) (si_id w) = None \<or> holds (sw_store w) (si_id w) = Some (current_record w)))"

lemma tracked_cong:
  assumes "sw_store w' = sw_store w" "si_id w' = si_id w" "si_destroyed w' = si_destroyed w" "si_dirty w' = si_dirty w"
    "si_new w' = si_new w" "si_persisted w' = si_persisted w" "si_data w' = si_data w" "si_created w' = si_created w"
  shows "tracked w' = tracked w"
  using assms by (simp add: tracked_def current_record_def)

lemma tracked_set_cookie [simp]: "tracked (snd (set_cookie_now env w)) = tracked w"
  by (rule tracked_cong) simp_all

lemma tracked_ensure [simp]: "tracked (snd (ensure_cookie env w)) = tracked w"
  by (rule tracked_cong) simp_all

lemma tracked_dirty:
  "ok (sw_store w) \<Longrightarrow> \<not> si_destroyed w \<Longrightarrow> tracked (snd (mark_dirty env w))"
  unfolding mark_dirty_def tracked_ensure by (simp add: tracked_def)

lemma tracked_ok: "tracked w \<Longrightarrow> ok (sw_store w)"
  by (simp add: tracked_def)

lemma tracked_write:
  assumes "tracked w"
  shows "tracked (snd (session_set env k v w))" "tracked (snd (session_delete env k w))"
    "tracked (snd (nested_change env del k p f w))"
  using assms tracked_ok[OF assms] tracked_dirty
  by (auto simp: session_set_def session_delete_def nested_change_def split: option.split jsval.split)

lemma tracked_touch:
  assumes "tracked w"
  shows "tracked (snd (touch_session env w))"
  using assms unfolding touch_session_def
  by (auto simp: tracked_def current_record_def)

lemma tracked_destroy:
  assumes env: "sv_port env = port" and t: "tracked w"
  shows "tracked (snd (destroy_session env w))" "si_destroyed (snd (destroy_session env w))"
    "si_id (snd (destroy_session env w)) = si_id w"
proof -
  obtain e s where d: "sq_destroy port (si_id w) (sw_store w) = (e, s)" by force
  have "e = None" using destroy_works[of "si_id w" "sw_store w"] d by simp
  then show "tracked (snd (destroy_session env w))" "si_destroyed (snd (destroy_session env w))"
      "si_id (snd (destroy_session env w)) = si_id w"
    using destroy_law[OF tracked_ok[OF t] d] d env
    by (auto simp: destroy_session_def tracked_def Let_def split: prod.split)
qed

lemma tracked_regenerate:
  assumes env: "sv_port env = port" and t: "tracked w"
  shows "tracked (snd (regenerate_session env now w))"
proof (cases "si_destroyed w")
  case False
  define w0 where "w0 = w\<lparr>si_id := sv_fresh env (sw_draws w), sw_draws := Suc (sw_draws w), si_created := now,
               si_dirty := True, si_persisted := False, si_cookie_set := False\<rparr>"
  obtain e1 w1 where w1: "set_cookie_now env w0 = (e1, w1)" by force
  have k: "sw_store w1 = sw_store w" "si_destroyed w1 = si_destroyed w" "si_dirty w1" "\<not> si_persisted w1"
    using set_cookie_now_keeps[of env w0] unfolding w1 by (simp_all add: w0_def)
  have t1: "tracked w1" using k False tracked_ok[OF t] by (simp add: tracked_def)
  obtain e s where d: "sq_destroy port (si_id w) (sw_store w1) = (e, s)" by force
  have "ok s" using destroy_law[OF tracked_ok[OF t1] d] by blast
  then have "tracked (w1\<lparr>sw_store := s\<rparr>)" using k False by (simp add: tracked_def)
  then show ?thesis
    using t1 False w1 d env by (auto simp: regenerate_session_def w0_def[symmetric] split: option.split prod.split)
qed (simp add: regenerate_session_def t)

lemma tracked_save:
  assumes env: "sv_port env = port" "0 < sf_idle (sv_cfg env)" and t: "tracked w"
  shows "tracked (snd (save_now env now w))"
proof (cases "si_destroyed w")
  case False
  obtain e1 w1 where w1: "ensure_cookie env w = (e1, w1)" by force
  have t1: "tracked w1" and d1: "\<not> si_destroyed w1"
    using tracked_ensure[of env w] t ensure_cookie_keeps(7)[of env w] False unfolding w1 by simp_all
  obtain e s where s: "sq_set port now (si_id w1) (current_record w1) (sf_idle (sv_cfg env)) (sw_store w1) = (e, s)" by force
  have "e = None" using set_works s by (metis fst_conv)
  moreover have "ok s \<and> (e = None \<longrightarrow> holds s (si_id w1) = Some (current_record w1))"
    using set_law[OF tracked_ok[OF t1] env(2) s] by blast
  ultimately show ?thesis
    using t1 d1 False w1 s env(1) by (auto simp: save_now_def tracked_def current_record_def split: option.split)
qed (simp add: save_now_def t)

lemma persist_works:
  assumes env: "sv_port env = port" "0 < sf_idle (sv_cfg env)" and t: "tracked w"
  shows "tracked (snd (persist env now w))" "\<not> si_destroyed w \<Longrightarrow> \<not> si_dirty (snd (persist env now w))"
    "\<not> si_destroyed w \<Longrightarrow> si_dirty w \<Longrightarrow>
       holds (sw_store (snd (persist env now w))) (si_id w) = Some (current_record w) \<and> \<not> si_new (snd (persist env now w))"
    "current_record (snd (persist env now w)) = current_record w" "si_id (snd (persist env now w)) = si_id w"
    "si_destroyed (snd (persist env now w)) = si_destroyed w"
proof -
  obtain e s where s: "sq_set port now (si_id w) (current_record w) (sf_idle (sv_cfg env)) (sw_store w) = (e, s)" by force
  have e: "e = None" using set_works s by (metis fst_conv)
  have sl: "ok s" "holds s (si_id w) = Some (current_record w)"
    using set_law[OF tracked_ok[OF t] env(2) s] e by blast+
  obtain e2 s2 where s2: "sq_touch port now (si_id w) (sf_idle (sv_cfg env)) (sw_store w) = (e2, s2)" by force
  have tl: "ok s2" "holds s2 (si_id w) = None \<or> holds s2 (si_id w) = holds (sw_store w) (si_id w)"
    using touch_law[OF tracked_ok[OF t] s2] by blast+
  have eqs: "persist env now w =
      (if si_destroyed w \<or> si_persisted w then (None, w)
       else if si_dirty w \<or> si_new w \<and> sf_save_uninit (sv_cfg env)
       then (None, w\<lparr>si_persisted := True, sw_store := s, si_dirty := False, si_new := False\<rparr>)
       else if \<not> si_new w \<and> (si_touched w \<or> sf_rolling (sv_cfg env))
       then (e2, if e2 = None then w\<lparr>si_persisted := True, sw_store := s2, si_touched := False\<rparr>
                 else w\<lparr>si_persisted := True, sw_store := s2\<rparr>)
       else (None, w\<lparr>si_persisted := True\<rparr>))"
    unfolding persist_def env(1) s s2 e Let_def by (simp split: option.split)
  show "current_record (snd (persist env now w)) = current_record w" "si_id (snd (persist env now w)) = si_id w"
    "si_destroyed (snd (persist env now w)) = si_destroyed w"
    unfolding eqs by (simp_all add: current_record_def)
  show "\<not> si_destroyed w \<Longrightarrow> \<not> si_dirty (snd (persist env now w))"
    unfolding eqs using t by (auto simp: tracked_def)
  show "\<not> si_destroyed w \<Longrightarrow> si_dirty w \<Longrightarrow>
       holds (sw_store (snd (persist env now w))) (si_id w) = Some (current_record w) \<and> \<not> si_new (snd (persist env now w))"
    unfolding eqs using t sl by (auto simp: tracked_def)
  show "tracked (snd (persist env now w))"
    unfolding eqs using t sl tl by (auto simp: tracked_def current_record_def)
qed

lemma tracked_step:
  assumes env: "sv_port env = port" "0 < sf_idle (sv_cfg env)" and t: "tracked w"
  shows "tracked (snd (session_step env now op w))"
  using tracked_write[OF t] tracked_touch[OF t] tracked_destroy[OF env(1) t] tracked_regenerate[OF env(1) t]
    tracked_save[OF env t] persist_works(1)[OF env t] t
  by (cases op) (auto simp: nested_set_def nested_delete_def persist_session_def)

lemma tracked_run:
  assumes "sv_port env = port" "0 < sf_idle (sv_cfg env)" "tracked w"
  shows "tracked (session_run env ops w)"
  using assms(3) by (induction ops arbitrary: w) (auto simp: tracked_step[OF assms(1,2)])

lemma resume_ok:
  assumes env: "sv_port env = port" and ok: "ok s" and r: "resume env now req s = (r, s')"
  shows "ok s'"
proof (cases "presented_id env req")
  case (Some sid)
  obtain g s1 where g: "sq_get port now sid s = (g, s1)" by force
  have ok1: "ok s1" using get_law[OF ok g] by blast
  obtain e s2 where d: "sq_destroy port sid s1 = (e, s2)" by force
  have ok2: "ok s2" using destroy_law[OF ok1 d] by blast
  show ?thesis using r Some g d env ok1 ok2
    by (auto simp: resume_def split: option.splits sum.splits if_splits)
qed (use r ok in \<open>simp add: resume_def\<close>)

lemma tracked_attach:
  assumes env: "sv_port env = port" and ok: "ok s" and a: "attach_session env now req res st s draws = Attached e w"
  shows "tracked w"
  using a
proof (cases rule: attach_cases)
  case (new s')
  have "ok s'" by (rule resume_ok[OF env ok new(1)])
  then show ?thesis using new by (simp add: tracked_def)
next
  case (old s' sid rec)
  obtain v where "sq_get port now sid s = (Inr v, s')" "valid_record v = Some rec"
    using resume_found[OF old(1)] env by metis
  then show ?thesis using get_law[OF ok] old by (simp add: tracked_def)
qed

lemma run_destroyed:
  assumes env: "sv_port env = port" "0 < sf_idle (sv_cfg env)" and "tracked w" "si_destroyed w"
  shows "si_destroyed (session_run env ops w) \<and> si_id (session_run env ops w) = si_id w"
  using assms(3,4)
proof (induction ops arbitrary: w)
  case (Cons p ops)
  obtain now op where p: "p = (now, op)" by force
  have "si_destroyed (snd (session_step env now op w)) \<and> si_id (snd (session_step env now op w)) = si_id w"
    using Cons.prems(2) tracked_destroy(2,3)[OF env(1) Cons.prems(1)] destroyed_frozen[of w op env now]
    by (cases "op = SDestroy") simp_all
  then show ?case using Cons.IH[OF tracked_step[OF env Cons.prems(1)]] by (simp add: p)
qed simp

lemma destroyed_stays:
  assumes env: "sv_port env = port" "0 < sf_idle (sv_cfg env)" and "tracked w"
  shows "holds (sw_store (session_run env ops (snd (destroy_session env w)))) (si_id w) = None"
proof -
  let ?w = "snd (destroy_session env w)"
  note d = tracked_destroy[OF env(1) assms(3)]
  show ?thesis
    using run_destroyed[OF env d(1,2)] tracked_run[OF env d(1), of ops] d(3) by (simp add: tracked_def)
qed

lemma saved_after:
  assumes env: "sv_port env = port" "0 < sf_idle (sv_cfg env)" and t: "tracked w"
    and there: "truthy (state_get ''session'' (sw_state w))"
    and w': "w' = snd (persist_session env now w)"
  shows "if si_destroyed w' then holds (sw_store w') (si_id w') = None
     else if si_new w' then si_data w' = []
     else (si_dirty w \<longrightarrow> holds (sw_store w') (si_id w') = Some (current_record w'))
        \<and> (holds (sw_store w') (si_id w') = None \<or> holds (sw_store w') (si_id w') = Some (current_record w'))"
  using persist_works[OF env t, of now] there unfolding w' persist_session_def
  by (auto simp: tracked_def)

end


subsection \<open>Sessions over the memory store\<close>



lemma attached_state:
  assumes "attach_session env now req res st s draws = Attached None w"
  shows "truthy (state_get ''session'' (sw_state w))"
proof -
  have k: "sw_state w1 = st1" if "set_cookie_now env (w0\<lparr>sw_state := st1\<rparr>) = (e, w1)" for w0 st1 e and w1 :: "'a session_world"
    using set_cookie_now_keeps(10)[of env "w0\<lparr>sw_state := st1\<rparr>"] that by simp
  have "truthy (state_get ''session'' st')" if "state_set ''session'' session_object x = (None, st')" for x st'
    using that by (auto simp: state_set_def state_get_def session_object_def truthy_def split: if_splits)
  then show ?thesis using assms unfolding attach_session_def
    by (auto simp: Let_def dest!: k split: option.splits prod.splits sum.splits if_splits)
qed

subsection \<open>Whose session it is\<close>

text \<open>C14. A request never gets an identifier of the client's choosing. The session attached to it is either
  new, empty and under an identifier drawn for it, or one whose identifier came in a cookie signed with
  one of our secrets and for which the store answered a valid record, not past the absolute timeout; the
  session then holds that record's data. This is so whatever the store does.\<close>

theorem session_identity:
  assumes "attach_session env now req res st s draws = Attached e w"
  shows "(si_new w \<and> si_id w = sv_fresh env draws \<and> si_data w = [])
     \<or> (\<not> si_new w \<and> (\<exists>secret v. secret \<in> set (sf_secrets (sv_cfg env))
          \<and> map_of (parse_cookie_header (cookie_header req)) (sf_cookie_name (sv_cfg env))
              = Some (''s:'' @ si_id w @ ''.'' @ sv_hmac env (si_id w) secret)
          \<and> fst (sq_get (sv_port env) now (si_id w) s) = Inr v \<and> valid_record v = Some (current_record w)
          \<and> \<not> expired_absolutely (sv_cfg env) now (current_record w)))"
  using assms
proof (cases rule: attach_cases)
  case (old s' sid rec)
  obtain v where v: "presented_id env req = Some sid" "sq_get (sv_port env) now sid s = (Inr v, s')"
      "valid_record v = Some rec" "\<not> expired_absolutely (sv_cfg env) now rec"
    using resume_found[OF old(1)] .
  obtain secret where "secret \<in> set (sf_secrets (sv_cfg env))"
    "map_of (parse_cookie_header (cookie_header req)) (sf_cookie_name (sv_cfg env)) = Some (''s:'' @ sid @ ''.'' @ sv_hmac env sid secret)"
    using presented_signed[OF v(1)] .
  then show ?thesis using old v by auto
qed simp

subsection \<open>What the store holds afterwards\<close>


text \<open>A destroyed session stays destroyed: nothing the request does afterwards, the closing hooks
  included, brings its record back.\<close>

theorem session_destroyed_final:
  assumes "sv_port env = memory_sessions (Suc n)" "0 < sf_idle (sv_cfg env)" "distinct_keys s"
    and "attach_session env now req res st s draws = Attached e w0" "w = session_run env before w0"
  shows "mss_holds (sw_store (session_run env after (snd (destroy_session env w)))) (si_id w) = None"
  unfolding assms(5)
  by (rule mem_sessions.destroyed_stays[OF assms(1,2) mem_sessions.tracked_run[OF assms(1,2)
        mem_sessions.tracked_attach[OF assms(1,3,4)]]])

subsection \<open>The memory store on its own\<close>

text \<open>After \<open>set\<close> the memory store answers with the record until its time to live is over and not
  after, holds at most \<open>maxSessions\<close> records, and when it had to make room dropped expired records and then
  those written longest ago: the records left are the last ones of those that remained.\<close>

theorem memory_sessions_spec:
  assumes "distinct_keys m" "0 < ttl" "0 < cap" "length m \<le> cap"
  shows "length (mss_set cap now sid rec ttl m) \<le> cap
     \<and> fst (mss_get t sid (mss_set cap now sid rec ttl m))
         = (if of_int t < of_int now + ttl * 1000 then Some rec else None)
     \<and> (\<exists>old. AList.delete sid m @ [(sid, rec, of_int now + ttl * 1000)] = mss_set cap now sid rec ttl m
         \<or> mss_sweep now (AList.delete sid m) @ [(sid, rec, of_int now + ttl * 1000)] = old @ mss_set cap now sid rec ttl m)"
proof -
  let ?x = "(sid, rec, of_int now + ttl * 1000)"
  have u: "AList.update sid (rec, of_int now + ttl * 1000) (AList.delete sid m) = AList.delete sid m @ [?x]"
    by (subst update_new) (auto simp: set_delete)
  have sw: "mss_sweep now (AList.delete sid m @ [?x]) = mss_sweep now (AList.delete sid m) @ [?x]"
    using assms(2) by (auto simp: mss_sweep_def)
  have set_eq: "mss_set cap now sid rec ttl m = (if cap < length (AList.delete sid m @ [?x])
      then mss_evict cap (mss_sweep now (AList.delete sid m) @ [?x]) else AList.delete sid m @ [?x])"
    unfolding mss_set_def Let_def u sw ..
  have "length (mss_set cap now sid rec ttl m) \<le> cap"
    unfolding set_eq using mss_evict_length by (auto simp: not_less)
  moreover have "fst (mss_get t sid (mss_set cap now sid rec ttl m))
         = (if of_int t < of_int now + ttl * 1000 then Some rec else None)"
    using mss_set_holds[OF assms(1-3), of now sid rec] by (simp add: mss_get_def not_le not_less del: map_of_eq_Some_iff)
  moreover have "\<exists>old. AList.delete sid m @ [?x] = mss_set cap now sid rec ttl m
         \<or> mss_sweep now (AList.delete sid m) @ [?x] = old @ mss_set cap now sid rec ttl m"
    unfolding set_eq using mss_evict_suffix[of "mss_sweep now (AList.delete sid m) @ [?x]" cap] by auto
  ultimately show ?thesis by blast
qed

subsection \<open>A failed save, and overlapping requests\<close>

lemma persist_final: "si_destroyed (snd (persist env now w)) \<or> si_persisted (snd (persist env now w))"
  by (simp add: persist_def Let_def split: option.split prod.split)

lemma persist_failed_dirty:
  assumes "persist env now w = (Some err, w')"
  shows "si_dirty w' = si_dirty w"
  using assms unfolding persist_def Let_def
  by (auto split: if_splits) (auto split: option.splits prod.splits)

text \<open>A save that fails at the end of the request is not tried again: the session counts as persisted
  before the store has answered, so the second closing hook does nothing, and the changes are lost
  though they are still marked as unsaved.\<close>

theorem failed_save_not_retried:
  assumes "fst (persist_session env now w) = Some err"
  shows "persist_session env t (snd (persist_session env now w)) = (None, snd (persist_session env now w))
     \<and> si_dirty (snd (persist_session env now w)) = si_dirty w"
proof -
  obtain w' where w': "persist_session env now w = (Some err, w')" using assms by (metis prod.collapse)
  then have p: "persist env now w = (Some err, w')" by (simp add: persist_session_def split: if_splits)
  have "persist env t w' = (None, w')" using persist_final[of env now w] p by (auto simp: persist_def)
  then show ?thesis using w' persist_failed_dirty[OF p] by (simp add: persist_session_def)
qed

text \<open>Destroying a session does not hold against a request of the same session that is under way: when
  that one writes to its session afterwards, its closing hook puts the record back, with the data it had
  loaded before, and the old identifier is good again.\<close>

theorem session_destroy_race:
  assumes "sv_port env = memory_sessions (Suc n)" "0 < sf_idle (sv_cfg env)" "distinct_keys s"
    and a: "attach_session env now req res st s draws = Attached None a" and k: "k \<notin> set reserved_keys" "k \<noteq> ''__proto__''"
    and b: "attach_session env now req' res' st' (sw_store a) draws' = Attached None b" "si_id b = si_id a"
    and sB: "sB = sw_store (snd (destroy_session env b))"
    and w: "w = snd (session_set env k v (a\<lparr>sw_store := sB\<rparr>))"
  shows "mss_holds sB (si_id a) = None
    \<and> mss_holds (sw_store (snd (persist_session env t w))) (si_id a)
        = Some \<lparr> sr_data = AList.update k v (si_data a), sr_created = si_created a \<rparr>"
proof -
  have ta: "mem_sessions.tracked a" by (rule mem_sessions.tracked_attach[OF assms(1,3) a])
  have tb: "mem_sessions.tracked b"
    by (rule mem_sessions.tracked_attach[OF assms(1) mem_sessions.tracked_ok[OF ta] b(1)])
  note d = mem_sessions.tracked_destroy[OF assms(1) tb]
  have ok: "distinct_keys sB" and none: "mss_holds sB (si_id a) = None"
    using d mem_sessions.tracked_ok[OF d(1)] b(2) unfolding sB mem_sessions.tracked_def by auto
  have nd: "\<not> si_destroyed a" using a by (cases rule: attach_cases) auto
  have ws: "w = snd (mark_dirty env (a\<lparr>sw_store := sB, si_data := AList.update k v (si_data a)\<rparr>))"
    using k nd by (simp add: w session_set_def assign_def)
  have tw: "mem_sessions.tracked w" unfolding ws by (rule mem_sessions.tracked_dirty) (use ok nd in simp_all)
  have cr: "current_record w = \<lparr> sr_data = AList.update k v (si_data a), sr_created = si_created a \<rparr>" "si_id w = si_id a"
      "si_dirty w" "\<not> si_destroyed w" "sw_state w = sw_state a"
    unfolding ws mark_dirty_def using nd by (simp_all add: current_record_def)
  then show ?thesis
    using mem_sessions.persist_works(3)[OF assms(1,2) tw cr(4,3), of t] attached_state[OF a] none
    by (simp add: persist_session_def)
qed

subsection \<open>A round through the browser\<close>

lemma parse_one_cookie:
  assumes "serialize_cookie n v opts = Inr line" "CHR ''%'' \<notin> set v"
  shows "map_of (parse_cookie_header (browser_header [line])) n = Some v"
proof -
  have "CHR '';'' \<notin> set (takeWhile (\<lambda>c. c \<noteq> CHR '';'') line)" by (auto dest: set_takeWhileD)
  then have "parse_cookie_header (browser_header [line]) = add_cookie ([] @ takeWhile (\<lambda>c. c \<noteq> CHR '';'') line) []"
    by (simp add: parse_cookie_header_def parse_cookie_loop_fold browser_header_def split_on_no_sep)
  also have "\<dots> = keep_first (n, v, opts) []"
    by (rule add_cookie_serialized[OF assms(1)]) simp
  finally show ?thesis using assms(2) by (simp add: map_of_keep_first_one comes_back_def)
qed

lemma presented_id_signed:
  assumes "serialize_cookie (sf_cookie_name (sv_cfg env)) (''s:'' @ sid @ ''.'' @ sv_hmac env sid secret) opts = Inr line"
    and "secret \<in> set (sf_secrets (sv_cfg env))" "secret \<noteq> []" "sid \<noteq> []"
    and "CHR ''%'' \<notin> set sid" "\<And>v s. CHR ''%'' \<notin> set (sv_hmac env v s)" "\<And>v s. CHR ''.'' \<notin> set (sv_hmac env v s)"
    and "cookie_header req = browser_header [line]"
  shows "presented_id env req = Some sid"
proof -
  have m: "map_of (parse_cookie_header (cookie_header req)) (sf_cookie_name (sv_cfg env))
      = Some (''s:'' @ sid @ ''.'' @ sv_hmac env sid secret)"
    unfolding assms(8) by (rule parse_one_cookie[OF assms(1)]) (use assms(5,6) in auto)
  have "unsign_cookie_value (sv_hmac env) (''s:'' @ sid @ ''.'' @ sv_hmac env sid secret) (sf_secrets (sv_cfg env)) = Some sid"
    unfolding unsign_iff check_secrets_iff using assms(2,3,7) by auto
  then show ?thesis using m assms(4) by (cases sid) (simp_all add: presented_id_def)
qed

lemma first_write:
  assumes a: "attach_session env now req res st s draws = Attached None w0"
    and fresh: "si_new w0" "\<not> sf_save_uninit (sv_cfg env)" "\<not> nr_headers_sent res" "nr_cookies res = []"
    and k: "k \<notin> set reserved_keys" "k \<noteq> ''__proto__''" and w1: "session_set env k v w0 = (None, w1)"
  obtains line where "nr_cookies (sw_res w1) = [line]"
    "serialize_cookie (sf_cookie_name (sv_cfg env)) (''s:'' @ sv_fresh env draws @ ''.'' @ sv_hmac env (sv_fresh env draws)
        (hd (sf_secrets (sv_cfg env)))) (resolve_cookie_options (sv_cfg env) req) = Inr line"
    "hd (sf_secrets (sv_cfg env)) \<noteq> []"
    "si_dirty w1" "\<not> si_persisted w1" "\<not> si_destroyed w1" "si_id w1 = sv_fresh env draws" "si_data w1 = [(k, v)]"
    "si_created w1 = now" "sw_state w1 = sw_state w0"
  using a
proof (cases rule: attach_cases)
  case (new s')
  let ?w = "w0\<lparr>si_data := [(k, v)], si_dirty := True, si_persisted := False\<rparr>"
  have w: "set_cookie_now env ?w = (None, w1)"
    using w1 k new fresh(2) by (simp add: session_set_def assign_def mark_dirty_def ensure_cookie_def)
  have keep: "si_dirty w1" "\<not> si_persisted w1" "\<not> si_destroyed w1" "si_id w1 = sv_fresh env draws" "si_data w1 = [(k, v)]"
    "si_created w1 = now" "sw_state w1 = sw_state w0"
    using set_cookie_now_keeps[of env ?w] new unfolding w by simp_all
  have "sw_res w0 = res" using new(11) fresh(2) by blast
  then show thesis
    using w new fresh(3,4) that[OF _ _ _ keep]
    by (auto simp: set_cookie_now_def sign_cookie_value_def set_cookie_def native_cookies_def nr_cookie_def
        split: if_splits sum.splits option.splits prod.splits)
qed (use fresh in simp)

text \<open>C16. A round through the browser, over the memory store with \<open>saveUninitialized\<close> off and a response that has
  not been sent and has no cookie yet. The first write to a new session sends exactly one cookie, the session
  cookie with the identifier signed by the first secret; when the browser returns it before the record has
  expired, the request gets the same session, with what was written and the time it was created.\<close>

theorem session_round_trip:
  assumes env: "sv_port env = memory_sessions (Suc n)" "0 < sf_idle (sv_cfg env)" "distinct_keys s"
    and a: "attach_session env now req res st s draws = Attached None w0"
    and fresh: "si_new w0" "\<not> sf_save_uninit (sv_cfg env)" "\<not> nr_headers_sent res" "nr_cookies res = []"
    and k: "k \<notin> set reserved_keys" "k \<noteq> ''__proto__''" and w1: "session_set env k v w0 = (None, w1)"
    and w2: "w2 = snd (persist_session env t w1)"
    and chars: "sv_fresh env draws \<noteq> []" "CHR ''%'' \<notin> set (sv_fresh env draws)" "\<And>v s. CHR ''%'' \<notin> set (sv_hmac env v s)"
      "\<And>v s. CHR ''.'' \<notin> set (sv_hmac env v s)" and secrets: "sf_secrets (sv_cfg env) \<noteq> []"
    and echoed: "cookie_header req' = browser_header (nr_cookies (sw_res w2))"
    and time: "of_int t' < of_int t + sf_idle (sv_cfg env) * 1000" "\<not> expired_absolutely (sv_cfg env) t' (current_record w1)"
  shows "(\<exists>line. nr_cookies (sw_res w2) = [line]
       \<and> serialize_cookie (sf_cookie_name (sv_cfg env)) (''s:'' @ si_id w0 @ ''.'' @ sv_hmac env (si_id w0) (hd (sf_secrets (sv_cfg env))))
           (resolve_cookie_options (sv_cfg env) req) = Inr line)
   \<and> (\<exists>e w. attach_session env t' req' res' st' (sw_store w2) draws' = Attached e w
     \<and> si_id w = si_id w0 \<and> \<not> si_new w \<and> si_data w = [(k, v)] \<and> si_created w = now)"
proof -
  obtain line where l: "nr_cookies (sw_res w1) = [line]"
      "serialize_cookie (sf_cookie_name (sv_cfg env)) (''s:'' @ sv_fresh env draws @ ''.'' @ sv_hmac env (sv_fresh env draws)
        (hd (sf_secrets (sv_cfg env)))) (resolve_cookie_options (sv_cfg env) req) = Inr line"
      "hd (sf_secrets (sv_cfg env)) \<noteq> []"
      and w: "si_dirty w1" "\<not> si_persisted w1" "\<not> si_destroyed w1" "si_id w1 = sv_fresh env draws" "si_data w1 = [(k, v)]"
        "si_created w1 = now" "sw_state w1 = sw_state w0"
    using first_write[OF a fresh k w1] .
  have id: "si_id w0 = sv_fresh env draws" using a fresh(1) by (cases rule: attach_cases) auto
  have ok: "distinct_keys (sw_store w1)"
    using mem_sessions.tracked_ok[OF mem_sessions.tracked_write(1)[OF mem_sessions.tracked_attach[OF env(1,3) a], of env k v]] w1 by simp
  have per: "w2 = w1\<lparr>si_persisted := True, sw_store := mss_set (Suc n) t (si_id w1) (current_record w1) (sf_idle (sv_cfg env)) (sw_store w1),
      si_dirty := False, si_new := False\<rparr>"
    using w attached_state[OF a] env(1) by (simp add: w2 persist_session_def persist_def memory_sessions_def)
  have pid: "presented_id env req' = Some (sv_fresh env draws)"
    by (rule presented_id_signed[OF l(2) _ l(3) chars]) (use secrets echoed l(1) per in auto)
  have get: "sq_get (sv_port env) t' (sv_fresh env draws) (sw_store w2) = (Inr (record_value (current_record w1)), sw_store w2)"
    using mss_set_holds[OF ok env(2), of "Suc n" t "si_id w1" "current_record w1"] time(1) w(4)
    by (simp add: env(1) per memory_sessions_def mss_get_def not_le del: map_of_eq_Some_iff)
  have res: "resume env t' req' (sw_store w2) = (Inr (Some (sv_fresh env draws, current_record w1)), sw_store w2)"
    using pid get time(2) by (simp add: resume_def)
  obtain e w' where att: "attach_session env t' req' res' st' (sw_store w2) draws' = Attached e w'"
    using attach_succeeds[OF res] .
  from att have "\<exists>e w. attach_session env t' req' res' st' (sw_store w2) draws' = Attached e w
     \<and> si_id w = si_id w0 \<and> \<not> si_new w \<and> si_data w = [(k, v)] \<and> si_created w = now"
  proof (cases rule: attach_cases)
    case (old s' sid rec)
    then show ?thesis using res att id w by (auto simp: current_record_def)
  qed (use res in simp)
  moreover have "nr_cookies (sw_res w2) = [line]" using l(1) by (simp add: per)
  ultimately show ?thesis using l(2) by (auto simp: id)
qed

subsection \<open>Witnesses\<close>

definition sess_env :: "session_map session_env" where
  "sess_env = \<lparr> sv_cfg = \<lparr> sf_cookie_name = ''sid'', sf_secrets = [replicate 32 (CHR ''k'')], sf_cookie = no_options,
       sf_secure_auto = False, sf_rolling = False, sf_save_uninit = False, sf_idle = 60, sf_absolute = None \<rparr>,
     sv_port = memory_sessions (Suc 9), sv_hmac = (\<lambda>v s. ''mac''), sv_fresh = (\<lambda>n. ''id'' @ show_nat n) \<rparr>"

definition cookie_request :: "string \<Rightarrow> request" where
  "cookie_request cookie = (demo_request GET ''/'')\<lparr> rq_headers := [(''cookie'', [cookie])] \<rparr>"

definition sess_state :: request_state where
  "sess_state = \<lparr> rs_data = [], rs_frozen = False \<rparr>"

definition sess_attach :: "int \<Rightarrow> string \<Rightarrow> session_map \<Rightarrow> nat \<Rightarrow> session_map session_world" where
  "sess_attach now cookie s n =
     (case attach_session sess_env now (cookie_request cookie) (nr_new GET []) sess_state s n of Attached e w \<Rightarrow> w)"

lemma sess_env_sv [simp]: "sv_port sess_env = memory_sessions (Suc 9)" "sf_idle (sv_cfg sess_env) = 60"
  by (simp_all add: sess_env_def)

lemma sess_attached: "attach_session sess_env 0 (cookie_request []) (nr_new GET []) sess_state [] 0 = Attached None (sess_attach 0 [] [] 0)"
  by code_simp

lemma sess_hyps: "distinct_keys ([] :: session_map)" "(0::rat) < sf_idle (sv_cfg sess_env)"
  by simp_all

definition sess_writes :: "(int \<times> session_op) list" where
  "sess_writes = [(5, SSet ''user'' (JObj [(''id'', JNum 7)])), (6, SSetIn ''user'' [] (Key ''admin'') (JBool False))]"

definition sess_written :: "session_map session_world" where
  "sess_written = session_run sess_env sess_writes (sess_attach 0 [] [] 0)"

definition sess_closed :: "session_map session_world" where
  "sess_closed = snd (persist_session sess_env 9 sess_written)"

definition sess_cookie :: string where
  "sess_cookie = browser_header (nr_cookies (sw_res sess_closed))"


lemma sess_resumed:
  "attach_session sess_env 100 (cookie_request sess_cookie) (nr_new GET []) sess_state (sw_store sess_closed) 1
   = Attached None (sess_attach 100 sess_cookie (sw_store sess_closed) 1)"
  by code_simp

theorem session_identity_witness:
  "si_id (sess_attach 100 sess_cookie (sw_store sess_closed) 1) = ''id0''
   \<and> (\<exists>v. fst (sq_get (memory_sessions (Suc 9)) 100 ''id0'' (sw_store sess_closed)) = Inr v
        \<and> valid_record v = Some (current_record (sess_attach 100 sess_cookie (sw_store sess_closed) 1)))"
proof -
  have "\<not> si_new (sess_attach 100 sess_cookie (sw_store sess_closed) 1)"
    "si_id (sess_attach 100 sess_cookie (sw_store sess_closed) 1) = ''id0''"
    by code_simp+
  then show ?thesis using session_identity[OF sess_resumed] by auto
qed

theorem session_destroyed_final_witness:
  "mss_holds (sw_store (session_run sess_env [(20, SSave), (21, SPersist)] (snd (destroy_session sess_env sess_written)))) ''id0'' = None"
proof -
  have "si_id sess_written = ''id0''" by code_simp
  then show ?thesis
    using session_destroyed_final[OF sess_env_sv(1) sess_hyps(2,1) sess_attached sess_written_def,
        of "[(20, SSave), (21, SPersist)]"] by simp
qed

theorem memory_sessions_spec_witness:
  "fst (mss_get 1500 ''a'' (mss_set 1 1000 ''a'' \<lparr> sr_data = [], sr_created = 1 \<rparr> 1 [(''b'', \<lparr> sr_data = [], sr_created = 0 \<rparr>, 9000)]))
     = Some \<lparr> sr_data = [], sr_created = 1 \<rparr>"
  using memory_sessions_spec[of "[(''b'', \<lparr> sr_data = [], sr_created = 0 \<rparr>, 9000)]" 1 1 1000 "''a''" "\<lparr> sr_data = [], sr_created = 1 \<rparr>" 1500]
  by simp

theorem session_destroy_race_witness:
  "mss_holds (sw_store (snd (persist_session sess_env 200 (snd (session_set sess_env ''cart'' (JNum 1)
     ((sess_attach 100 sess_cookie (sw_store sess_closed) 1)\<lparr> sw_store :=
        sw_store (snd (destroy_session sess_env (sess_attach 100 sess_cookie (sw_store sess_closed) 1)))\<rparr>)))))) ''id0'' \<noteq> None"
proof -
  let ?a = "sess_attach 100 sess_cookie (sw_store sess_closed) 1"
  have "si_id ?a = ''id0''" by code_simp
  have same: "sw_store ?a = sw_store sess_closed" by code_simp
  have b: "attach_session sess_env 100 (cookie_request sess_cookie) (nr_new GET []) sess_state (sw_store ?a) 1 = Attached None ?a"
    unfolding same by (rule sess_resumed)
  have d: "distinct_keys (sw_store sess_closed)" by code_simp
  have k: "''cart'' \<notin> set reserved_keys" "''cart'' \<noteq> ''__proto__''" by code_simp+
  show ?thesis
    using session_destroy_race[OF sess_env_sv(1) sess_hyps(2) d sess_resumed k b refl refl refl, of 200 "JNum 1"]
      \<open>si_id ?a = ''id0''\<close> by simp
qed

theorem session_round_trip_witness:
  "length (nr_cookies (sw_res (snd (persist_session sess_env 9 (snd (session_set sess_env ''user'' (JNum 7) (sess_attach 0 [] [] 0))))))) = 1
   \<and> (\<exists>e w. attach_session sess_env 100 (cookie_request ''sid=s:id0.mac'') (nr_new GET []) sess_state
       (sw_store (snd (persist_session sess_env 9 (snd (session_set sess_env ''user'' (JNum 7) (sess_attach 0 [] [] 0)))))) 1
       = Attached e w \<and> si_id w = ''id0'' \<and> si_data w = [(''user'', JNum 7)])"
proof -
  let ?w1 = "snd (session_set sess_env ''user'' (JNum 7) (sess_attach 0 [] [] 0))"
  have w1: "session_set sess_env ''user'' (JNum 7) (sess_attach 0 [] [] 0) = (None, ?w1)" by code_simp
  have w0: "si_new (sess_attach 0 [] [] 0)" "si_id (sess_attach 0 [] [] 0) = ''id0''" by code_simp+
  have k: "''user'' \<notin> set reserved_keys" "''user'' \<noteq> ''__proto__''" by code_simp+
  have c: "cookie_header (cookie_request ''sid=s:id0.mac'') = browser_header (nr_cookies (sw_res (snd (persist_session sess_env 9 ?w1))))"
    by code_simp
  have f: "sv_fresh sess_env 0 \<noteq> []" "CHR ''%'' \<notin> set (sv_fresh sess_env 0)" "sf_secrets (sv_cfg sess_env) \<noteq> []"
    "\<not> sf_save_uninit (sv_cfg sess_env)" "\<not> nr_headers_sent (nr_new GET [])" "nr_cookies (nr_new GET []) = []"
    by code_simp+
  have h: "CHR ''%'' \<notin> set (sv_hmac sess_env v s)" "CHR ''.'' \<notin> set (sv_hmac sess_env v s)" for v s
    by (simp_all add: sess_env_def)
  have t: "of_int 100 < of_int 9 + sf_idle (sv_cfg sess_env) * 1000"
    "\<not> expired_absolutely (sv_cfg sess_env) 100 (current_record ?w1)"
    by (simp_all add: expired_absolutely_def) (simp add: sess_env_def)
  show ?thesis
    using session_round_trip[OF sess_env_sv(1) sess_hyps(2,1) sess_attached w0(1) f(4-6) k w1 refl f(1,2) h f(3) c t,
        of "nr_new GET []" sess_state 1] w0(2) by auto
qed

end
