(* ===== verification/Sdk_Core.thy ===== *)
theory Sdk_Core
  imports Native_Response
begin

text \<open>
  The parts of \<open>packages/sdk-runtime/src\<close> that keep state of their own: the circuit breaker, the retry
  loop, the response cache, the interceptors, the token provider, the offline queue, the paginator and
  the environment switcher. Numbers a caller may leave out of a configuration are options: comparing
  with \<open>undefined\<close> is false.
\<close>

subsection \<open>Errors\<close>

text \<open>What the runtime reads of a thrown value.\<close>

record client_error =
  ce_name :: string
  ce_message :: string
  ce_status :: "int option"
  ce_response_status :: "int option"

definition js_error_named :: "string \<Rightarrow> string \<Rightarrow> client_error" where
  "js_error_named name msg = \<lparr> ce_name = name, ce_message = msg, ce_status = None, ce_response_status = None \<rparr>"

definition sdk_error :: "string \<Rightarrow> int \<Rightarrow> client_error" where
  "sdk_error msg status = \<lparr> ce_name = ''SdkError'', ce_message = msg, ce_status = Some status, ce_response_status = Some status \<rparr>"

text \<open>\<open>err.status || err.response?.status\<close>; \<open>None\<close> when that is falsy.\<close>

definition thrown_status :: "client_error \<Rightarrow> int option" where
  "thrown_status e =
     (case ce_status e of
        Some s \<Rightarrow> if s \<noteq> 0 then Some s else (case ce_response_status e of Some r \<Rightarrow> if r = 0 then None else Some r | None \<Rightarrow> None)
      | None \<Rightarrow> (case ce_response_status e of Some r \<Rightarrow> if r = 0 then None else Some r | None \<Rightarrow> None))"

subsection \<open>Circuit breaker\<close>

datatype breaker_state = Closed | Open | HalfOpen

record breaker_config =
  bc_threshold :: "int option"
  bc_cooldown :: "int option"
  bc_probes :: "int option"

record breaker =
  br_config :: breaker_config
  br_state :: breaker_state
  br_failures :: int
  br_changed :: int
  br_successes :: int

definition default_breaker_config :: breaker_config where
  "default_breaker_config = \<lparr> bc_threshold = Some 5, bc_cooldown = Some 10000, bc_probes = Some 3 \<rparr>"

definition breaker_new :: "int \<Rightarrow> breaker_config option \<Rightarrow> breaker" where
  "breaker_new now cfg = \<lparr> br_config = (case cfg of Some c \<Rightarrow> c | None \<Rightarrow> default_breaker_config), br_state = Closed,
     br_failures = 0, br_changed = now, br_successes = 0 \<rparr>"

definition at_least :: "int \<Rightarrow> int option \<Rightarrow> bool" where
  "at_least x bound = (case bound of Some b \<Rightarrow> b \<le> x | None \<Rightarrow> False)"

definition more_than :: "int \<Rightarrow> int option \<Rightarrow> bool" where
  "more_than x bound = (case bound of Some b \<Rightarrow> b < x | None \<Rightarrow> False)"

definition transition_to :: "int \<Rightarrow> breaker_state \<Rightarrow> breaker \<Rightarrow> breaker" where
  "transition_to now st b =
     (let b' = b\<lparr>br_state := st, br_changed := now\<rparr>
      in case st of Closed \<Rightarrow> b'\<lparr>br_failures := 0\<rparr> | HalfOpen \<Rightarrow> b'\<lparr>br_successes := 0\<rparr> | Open \<Rightarrow> b')"

definition check_state :: "int \<Rightarrow> breaker \<Rightarrow> breaker" where
  "check_state now b =
     (if br_state b = Open \<and> more_than (now - br_changed b) (bc_cooldown (br_config b))
      then transition_to now HalfOpen b else b)"

definition on_success :: "int \<Rightarrow> breaker \<Rightarrow> breaker" where
  "on_success now b =
     (case br_state b of
        HalfOpen \<Rightarrow>
          (let b' = b\<lparr>br_successes := br_successes b + 1\<rparr>
           in if at_least (br_successes b') (bc_probes (br_config b)) then transition_to now Closed b' else b')
      | Closed \<Rightarrow> b\<lparr>br_failures := 0\<rparr>
      | Open \<Rightarrow> b)"

definition on_failure :: "int \<Rightarrow> breaker \<Rightarrow> breaker" where
  "on_failure now b =
     (let b' = b\<lparr>br_failures := br_failures b + 1\<rparr>
      in if br_state b = HalfOpen \<or> at_least (br_failures b') (bc_threshold (br_config b))
         then transition_to now Open b' else b')"

definition circuit_open_error :: client_error where
  "circuit_open_error = js_error_named ''CircuitBreakerError'' ''Circuit breaker is OPEN. Requests blocked.''"

text \<open>\<open>run\<close> is cut at its \<open>await\<close>: a call is let in or rejected, and settles later.\<close>

definition breaker_enter :: "int \<Rightarrow> breaker \<Rightarrow> client_error option \<times> breaker" where
  "breaker_enter now b =
     (let b' = check_state now b in (if br_state b' = Open then Some circuit_open_error else None, b'))"

definition breaker_settle :: "int \<Rightarrow> bool \<Rightarrow> breaker \<Rightarrow> breaker" where
  "breaker_settle now ok b = (if ok then on_success now b else on_failure now b)"

datatype breaker_event = Enter int | Settle int bool

text \<open>The answers of a sequence of events to the calls in it: was each let in?\<close>

fun breaker_trace :: "breaker_event list \<Rightarrow> breaker \<Rightarrow> bool list \<times> breaker" where
  "breaker_trace [] b = ([], b)"
| "breaker_trace (Enter now # es) b =
     (case breaker_enter now b of (r, b') \<Rightarrow> (case breaker_trace es b' of (as, b'') \<Rightarrow> ((r = None) # as, b'')))"
| "breaker_trace (Settle now ok # es) b = breaker_trace es (breaker_settle now ok b)"

subsection \<open>Retries\<close>

text \<open>A property of a \<open>Partial\<close> object: left out, present with the value \<open>undefined\<close>, or given. The spread
  \<open>{ ...DEFAULT_RETRY_CONFIG, ...config }\<close> copies an explicit \<open>undefined\<close> over the default.\<close>

datatype 'a given = Absent | Undefined | Given 'a

definition spread_over :: "'a option \<Rightarrow> 'a given \<Rightarrow> 'a option" where
  "spread_over d g = (case g of Absent \<Rightarrow> d | Undefined \<Rightarrow> None | Given x \<Rightarrow> Some x)"

record retry_config =
  rc_max :: "nat option"
  rc_base :: "nat option"
  rc_max_delay :: "nat option"
  rc_codes :: "int list option"

record retry_partial =
  rp_max :: "nat given"
  rp_base :: "nat given"
  rp_max_delay :: "nat given"
  rp_codes :: "int list given"

definition default_retry :: retry_config where
  "default_retry = \<lparr> rc_max = Some 3, rc_base = Some 500, rc_max_delay = Some 5000,
     rc_codes = Some [408, 409, 429, 500, 502, 503, 504] \<rparr>"

definition merge_retry :: "retry_partial \<Rightarrow> retry_config" where
  "merge_retry p = \<lparr> rc_max = spread_over (rc_max default_retry) (rp_max p),
     rc_base = spread_over (rc_base default_retry) (rp_base p),
     rc_max_delay = spread_over (rc_max_delay default_retry) (rp_max_delay p),
     rc_codes = spread_over (rc_codes default_retry) (rp_codes p) \<rparr>"

text \<open>The bound of the random delay after the given number of failures; \<open>None\<close> is \<open>NaN\<close>.\<close>

definition retry_delay :: "retry_config \<Rightarrow> nat \<Rightarrow> nat option" where
  "retry_delay cfg attempts =
     (case (rc_max_delay cfg, rc_base cfg) of
        (Some m, Some d) \<Rightarrow> Some (min m (d * 2 ^ (attempts - 1)))
      | _ \<Rightarrow> None)"

definition retryable :: "retry_config \<Rightarrow> client_error \<Rightarrow> bool" where
  "retryable cfg e =
     (case thrown_status e of
        Some s \<Rightarrow> (case rc_codes cfg of Some cs \<Rightarrow> s \<in> set cs | None \<Rightarrow> False)
      | None \<Rightarrow> True)"

text \<open>What is thrown for a failure that is not retried: the failure, or what \<open>includes\<close> throws on \<open>undefined\<close>.\<close>

definition not_retried :: "retry_config \<Rightarrow> client_error \<Rightarrow> client_error" where
  "not_retried cfg e =
     (if rc_codes cfg = None
      then js_error_named ''TypeError'' ''Cannot read properties of undefined (reading 'includes')'' else e)"

text \<open>The loop of \<open>withRetry\<close>, which need not end. The request works on a world and may throw; \<open>sleep\<close> lets
  the time pass.\<close>

partial_function (option) retry_loop ::
    "('w \<Rightarrow> (client_error + 'a) \<times> 'w) \<Rightarrow> (nat option \<Rightarrow> 'w \<Rightarrow> 'w) \<Rightarrow> retry_config \<Rightarrow> nat \<Rightarrow> 'w
     \<Rightarrow> ((client_error + 'a) \<times> 'w) option" where
  "retry_loop request sleep cfg attempts w =
     (case request w of
        (Inr x, w') \<Rightarrow> Some (Inr x, w')
      | (Inl e, w') \<Rightarrow>
          if (case rc_max cfg of Some m \<Rightarrow> m < Suc attempts | None \<Rightarrow> False) then Some (Inl e, w')
          else if \<not> retryable cfg e then Some (Inl (not_retried cfg e), w')
          else retry_loop request sleep cfg (Suc attempts) (sleep (retry_delay cfg (Suc attempts)) w'))"

definition with_retry ::
    "('w \<Rightarrow> (client_error + 'a) \<times> 'w) \<Rightarrow> (nat option \<Rightarrow> 'w \<Rightarrow> 'w) \<Rightarrow> retry_partial \<Rightarrow> 'w
     \<Rightarrow> ((client_error + 'a) \<times> 'w) option" where
  "with_retry request sleep p w = retry_loop request sleep (merge_retry p) 0 w"

subsection \<open>Response cache\<close>

type_synonym 'v lru_map = "(string, 'v \<times> int) jsmap"

record 'v lru_cache =
  lr_entries :: "'v lru_map"
  lr_max :: nat
  lr_ttl :: int

definition lru_new :: "nat \<Rightarrow> int \<Rightarrow> 'v lru_cache" where
  "lru_new n ttl = \<lparr> lr_entries = [], lr_max = n, lr_ttl = ttl \<rparr>"

definition lru_get :: "int \<Rightarrow> string \<Rightarrow> 'v lru_cache \<Rightarrow> 'v option \<times> 'v lru_cache" where
  "lru_get now k c =
     (case map_of (lr_entries c) k of
        None \<Rightarrow> (None, c)
      | Some (v, expires) \<Rightarrow>
          if expires < now then (None, c\<lparr>lr_entries := AList.delete k (lr_entries c)\<rparr>)
          else (Some v, c\<lparr>lr_entries := AList.update k (v, expires) (AList.delete k (lr_entries c))\<rparr>))"

definition lru_set :: "int \<Rightarrow> string \<Rightarrow> 'v \<Rightarrow> int option \<Rightarrow> 'v lru_cache \<Rightarrow> 'v lru_cache" where
  "lru_set now k v ttl c =
     (let expires = now + (case ttl of Some t \<Rightarrow> t | None \<Rightarrow> lr_ttl c);
          m = (if k \<in> set (keys (lr_entries c)) then AList.delete k (lr_entries c)
               else if lr_max c \<le> length (lr_entries c)
               then (case lr_entries c of [] \<Rightarrow> [] | (old, _) # _ \<Rightarrow> AList.delete old (lr_entries c))
               else lr_entries c)
      in c\<lparr>lr_entries := AList.update k (v, expires) m\<rparr>)"

definition lru_delete :: "string \<Rightarrow> 'v lru_cache \<Rightarrow> 'v lru_cache" where
  "lru_delete k c = c\<lparr>lr_entries := AList.delete k (lr_entries c)\<rparr>"

definition lru_clear :: "'v lru_cache \<Rightarrow> 'v lru_cache" where
  "lru_clear c = c\<lparr>lr_entries := []\<rparr>"

subsection \<open>Interceptors\<close>

text \<open>An interceptor works on a world and may throw; error interceptors answer or throw the next error.\<close>

record ('req, 'res, 'err, 'w) interceptors =
  ic_request :: "('req \<Rightarrow> 'w \<Rightarrow> ('err + 'req) \<times> 'w) list"
  ic_response :: "('res \<Rightarrow> 'w \<Rightarrow> ('err + 'res) \<times> 'w) list"
  ic_error :: "('err \<Rightarrow> 'w \<Rightarrow> ('err + 'err) \<times> 'w) list"

definition use_request :: "('req \<Rightarrow> 'w \<Rightarrow> ('err + 'req) \<times> 'w) \<Rightarrow> ('req, 'res, 'err, 'w) interceptors \<Rightarrow> ('req, 'res, 'err, 'w) interceptors" where
  "use_request f ic = ic\<lparr>ic_request := ic_request ic @ [f]\<rparr>"

definition use_response :: "('res \<Rightarrow> 'w \<Rightarrow> ('err + 'res) \<times> 'w) \<Rightarrow> ('req, 'res, 'err, 'w) interceptors \<Rightarrow> ('req, 'res, 'err, 'w) interceptors" where
  "use_response f ic = ic\<lparr>ic_response := ic_response ic @ [f]\<rparr>"

definition use_error :: "('err \<Rightarrow> 'w \<Rightarrow> ('err + 'err) \<times> 'w) \<Rightarrow> ('req, 'res, 'err, 'w) interceptors \<Rightarrow> ('req, 'res, 'err, 'w) interceptors" where
  "use_error f ic = ic\<lparr>ic_error := ic_error ic @ [f]\<rparr>"

fun run_chain :: "('a \<Rightarrow> 'w \<Rightarrow> ('err + 'a) \<times> 'w) list \<Rightarrow> 'a \<Rightarrow> 'w \<Rightarrow> ('err + 'a) \<times> 'w" where
  "run_chain [] x w = (Inr x, w)"
| "run_chain (f # fs) x w =
     (case f x w of (Inl e, w') \<Rightarrow> (Inl e, w') | (Inr y, w') \<Rightarrow> run_chain fs y w')"

text \<open>\<open>runErrorInterceptors\<close> never returns: the error at the end of the chain is thrown.\<close>

fun run_errors :: "('err \<Rightarrow> 'w \<Rightarrow> ('err + 'err) \<times> 'w) list \<Rightarrow> 'err \<Rightarrow> 'w \<Rightarrow> 'err \<times> 'w" where
  "run_errors [] e w = (e, w)"
| "run_errors (f # fs) e w =
     (case f e w of (Inl e', w') \<Rightarrow> run_errors fs e' w' | (Inr e', w') \<Rightarrow> run_errors fs e' w')"

subsection \<open>Token providers\<close>

definition static_token :: "string \<Rightarrow> string" where
  "static_token token = token"

record token_provider =
  op_token :: "string option"
  op_expires :: int

definition provider_new :: token_provider where
  "provider_new = \<lparr> op_token = None, op_expires = 0 \<rparr>"

text \<open>The answer of the token endpoint: an HTTP failure, or a token with its lifetime. \<open>getToken\<close> is cut
  at the fetch.\<close>

datatype token_answer = TokenHttp int | TokenData string "int option"

definition cached_token :: "int \<Rightarrow> token_provider \<Rightarrow> string option" where
  "cached_token now p =
     (case op_token p of
        Some (c # t) \<Rightarrow> if now < op_expires p then Some (''Bearer '' @ c # t) else None
      | _ \<Rightarrow> None)"

definition take_token :: "int \<Rightarrow> token_answer \<Rightarrow> token_provider \<Rightarrow> (client_error + string) \<times> token_provider" where
  "take_token now ans p =
     (case ans of
        TokenHttp status \<Rightarrow> (Inl (js_error_named ''Error'' (''Failed to fetch OAuth2 token: '' @ show_int status)), p)
      | TokenData tok lifetime \<Rightarrow>
          (let secs = (case lifetime of Some n \<Rightarrow> if n = 0 then 3600 else n | None \<Rightarrow> 3600)
           in (Inr (''Bearer '' @ tok), \<lparr> op_token = Some tok, op_expires = now + secs * 1000 - 10000 \<rparr>)))"

definition provider_get :: "int \<Rightarrow> (int \<times> token_answer) \<Rightarrow> token_provider \<Rightarrow> (client_error + string) \<times> token_provider" where
  "provider_get now fetched p =
     (case cached_token now p of Some t \<Rightarrow> (Inr t, p) | None \<Rightarrow> take_token (fst fetched) (snd fetched) p)"

subsection \<open>Offline queue\<close>

record queued_request =
  oq_id :: string
  oq_path :: string
  oq_method :: string
  oq_body :: jsval
  oq_headers :: "(string, string) jsmap"
  oq_timestamp :: int

definition offline_enqueue :: "queued_request \<Rightarrow> queued_request list \<Rightarrow> queued_request list" where
  "offline_enqueue r q = q @ [r]"

text \<open>The loop of \<open>flush\<close>. A processor says whether it succeeded and may change the queue while it is
  awaited; without one nothing is done with the request.\<close>

type_synonym processor = "queued_request \<Rightarrow> queued_request list \<Rightarrow> bool \<times> queued_request list"

fun flush_requests :: "processor option \<Rightarrow> queued_request list \<Rightarrow> queued_request list \<Rightarrow> queued_request list" where
  "flush_requests p [] q = q"
| "flush_requests p (r # rs) q =
     (case p of
        None \<Rightarrow> flush_requests p rs q
      | Some f \<Rightarrow> (case f r q of (ok, q') \<Rightarrow> flush_requests p rs (if ok then q' else q' @ [r])))"

text \<open>\<open>online\<close>: what \<open>navigator.onLine\<close> says, if there is a navigator.\<close>

definition offline_flush :: "bool option \<Rightarrow> processor option \<Rightarrow> queued_request list \<Rightarrow> queued_request list" where
  "offline_flush online p q = (if q = [] then q else if online = Some False then q else flush_requests p q [])"

definition on_online :: "queued_request list \<Rightarrow> queued_request list" where
  "on_online q = offline_flush (Some True) None q"

definition offline_clear :: "queued_request list \<Rightarrow> queued_request list" where
  "offline_clear q = []"

subsection \<open>Pagination\<close>

record 'a page =
  pg_items :: "'a list"
  pg_next :: "string option"
  pg_more :: "bool option"

record paginator =
  pa_params :: "(string, jsval) jsmap"
  pa_cursor_name :: string
  pa_cursor :: "string option"
  pa_more :: bool

definition paginator_new :: "(string, jsval) jsmap \<Rightarrow> string \<Rightarrow> paginator" where
  "paginator_new params name = \<lparr> pa_params = params, pa_cursor_name = name, pa_cursor = None, pa_more = True \<rparr>"

definition truthy_string :: "string option \<Rightarrow> string option" where
  "truthy_string s = (case s of Some [] \<Rightarrow> None | _ \<Rightarrow> s)"

definition next_params :: "paginator \<Rightarrow> (string, jsval) jsmap" where
  "next_params p = (case truthy_string (pa_cursor p) of
     Some c \<Rightarrow> AList.update (pa_cursor_name p) (JStr c) (pa_params p) | None \<Rightarrow> pa_params p)"

definition next_page ::
    "((string, jsval) jsmap \<Rightarrow> 'w \<Rightarrow> ('e + 'a page) \<times> 'w) \<Rightarrow> paginator \<Rightarrow> 'w \<Rightarrow> ('e + 'a list) \<times> paginator \<times> 'w" where
  "next_page fetch p w =
     (if \<not> pa_more p then (Inr [], p, w)
      else
        let p1 = p\<lparr>pa_params := next_params p\<rparr>
        in case fetch (pa_params p1) w of
             (Inl e, w') \<Rightarrow> (Inl e, p1, w')
           | (Inr r, w') \<Rightarrow>
               (Inr (pg_items r),
                p1\<lparr>pa_cursor := truthy_string (pg_next r),
                   pa_more := (case pg_more r of Some b \<Rightarrow> b | None \<Rightarrow> truthy_string (pg_next r) \<noteq> None)\<rparr>, w'))"

subsection \<open>Environments\<close>

record environments =
  en_urls :: "(string, string) jsmap"
  en_current :: string

definition env_new :: "(string, string) jsmap \<Rightarrow> string option \<Rightarrow> environments" where
  "env_new urls e = \<lparr> en_urls = urls, en_current = (case e of Some x \<Rightarrow> x | None \<Rightarrow> ''production'') \<rparr>"

definition set_environment :: "string \<Rightarrow> environments \<Rightarrow> client_error option \<times> environments" where
  "set_environment e s =
     (if truthy_string (map_of (en_urls s) e) = None
      then (Some (js_error_named ''Error'' (''Environment \"'' @ e @ ''\" is not configured.'')), s)
      else (None, s\<lparr>en_current := e\<rparr>))"

definition env_url :: "environments \<Rightarrow> string option" where
  "env_url s = map_of (en_urls s) (en_current s)"

end
