(* ===== verification/Sdk_Client.thy ===== *)
theory Sdk_Client
  imports Sdk_Core
begin

text \<open>
  \<open>BaseClient\<close> of \<open>packages/sdk-runtime/src/client.ts\<close>: headers and cache key of a request, one attempt and the
  retries around it, and the state the requests of a client share: the response cache, the requests
  in flight, the circuit breaker. \<open>fetch\<close>, the interceptors, the telemetry hooks and the token provider
  are parameters that work on a world of their own. A \<open>Headers\<close> object is a map from lower-case
  names; \<open>collate\<close> is the sort by \<open>localeCompare\<close>. Names and values a \<open>Headers\<close> object refuses are left out.
\<close>

subsection \<open>Requests\<close>

record client_request =
  cq_method :: string
  cq_path :: string
  cq_query :: "(string, jsval) jsmap"
  cq_body :: jsval
  cq_headers :: "(string, string) jsmap"

record client_response =
  cs_data :: jsval
  cs_status :: int
  cs_headers :: "(string, string) jsmap"
  cs_request :: client_request

record client_config =
  cf_base_url :: string
  cf_headers :: "(string, string) jsmap"
  cf_timeout :: "int option"
  cf_retry :: retry_partial
  cf_breaker :: "breaker_config option"
  cf_enable_cache :: bool
  cf_cache_ttl :: "int option"

definition headers_set :: "string \<Rightarrow> string \<Rightarrow> (string, string) jsmap \<Rightarrow> (string, string) jsmap" where
  "headers_set k v h = AList.update (to_lower k) (trim v) h"

definition set_all_headers :: "(string, string) jsmap \<Rightarrow> (string, string) jsmap \<Rightarrow> (string, string) jsmap" where
  "set_all_headers kvs h = fold (\<lambda>(k, v). headers_set k v) kvs h"

text \<open>\<open>createHeaders\<close>, with what the token provider answered, if there is one.\<close>

definition create_headers :: "client_config \<Rightarrow> client_request \<Rightarrow> string option \<Rightarrow> (string, string) jsmap" where
  "create_headers cfg req token =
     (let h = set_all_headers (cq_headers req) (set_all_headers (cf_headers cfg) [])
      in case token of Some (c # t) \<Rightarrow> headers_set ''Authorization'' (c # t) h | _ \<Rightarrow> h)"

definition entry_value :: "string \<times> jsval \<Rightarrow> jsval" where
  "entry_value kv = JArr [JStr (fst kv), snd kv]"

definition cache_key_value ::
    "((string \<times> jsval) list \<Rightarrow> (string \<times> jsval) list) \<Rightarrow> client_request \<Rightarrow> (string, string) jsmap \<Rightarrow> jsval" where
  "cache_key_value collate req headers =
     JArr [JStr (cq_method req), JStr (cq_path req), JArr (map entry_value (collate (cq_query req))),
           JArr (map entry_value (collate (map (\<lambda>(k, v). (k, JStr v)) headers)))]"

definition create_cache_key ::
    "((string \<times> jsval) list \<Rightarrow> (string \<times> jsval) list) \<Rightarrow> client_request \<Rightarrow> (string, string) jsmap \<Rightarrow> string" where
  "create_cache_key collate req headers = the (json_stringify (cache_key_value collate req headers))"

text \<open>The query parameters that are appended to the URL.\<close>

definition search_params :: "client_request \<Rightarrow> (string \<times> string) list" where
  "search_params req = map (\<lambda>(k, v). (k, js_string v)) (filter (\<lambda>(k, v). v \<noteq> JUndef \<and> v \<noteq> JNull) (cq_query req))"

text \<open>The body and the headers it adds. Binary data and forms are class instances here, told apart by
  \<open>binary\<close> and \<open>form\<close>.\<close>

datatype fetch_body = NoBody | RawBody jsval | TextBody string

definition encode_body ::
    "(jsval \<Rightarrow> bool) \<Rightarrow> (jsval \<Rightarrow> bool) \<Rightarrow> jsval \<Rightarrow> (string, string) jsmap \<Rightarrow> fetch_body \<times> (string, string) jsmap" where
  "encode_body binary form body headers =
     (if body = JUndef then (NoBody, headers)
      else if binary body then (RawBody body, headers_set ''Content-Type'' ''application/octet-stream'' headers)
      else if form body then (RawBody body, headers)
      else (TextBody (the (json_stringify body)), headers_set ''Content-Type'' ''application/json'' headers))"

subsection \<open>One attempt\<close>

record raw_response =
  rw_status :: int
  rw_ok :: bool
  rw_headers :: "(string, string) jsmap"
  rw_json :: "client_error + jsval"
  rw_text :: "client_error + string"

definition response_data :: "raw_response \<Rightarrow> client_error + jsval" where
  "response_data raw =
     (if rw_status raw = 204 then Inr JNull
      else case map_of (rw_headers raw) ''content-type'' of
             Some ct \<Rightarrow> if str_includes ct ''application/json'' then rw_json raw else map_sum id JStr (rw_text raw)
           | None \<Rightarrow> map_sum id JStr (rw_text raw))"

record 'w client_env =
  cv_fetch :: "client_request \<Rightarrow> fetch_body \<Rightarrow> (string, string) jsmap \<Rightarrow> 'w \<Rightarrow> (client_error + raw_response) \<times> 'w"
  cv_interceptors :: "(client_request, client_response, client_error, 'w) interceptors"
  cv_before :: "client_request \<Rightarrow> 'w \<Rightarrow> client_error option \<times> 'w"
  cv_after :: "client_response \<Rightarrow> 'w \<Rightarrow> client_error option \<times> 'w"
  cv_on_error :: "client_error \<Rightarrow> 'w \<Rightarrow> client_error option \<times> 'w"
  cv_sleep :: "nat option \<Rightarrow> 'w \<Rightarrow> 'w"

definition api_error :: "int \<Rightarrow> client_error" where
  "api_error status = sdk_error (''API Error: '' @ show_int status) status"

text \<open>The \<open>catch\<close> clause of an attempt: telemetry, then the error interceptors. An error of the telemetry hook
  itself leaves the clause.\<close>

definition attempt_failed :: "'w client_env \<Rightarrow> client_error \<Rightarrow> 'w \<Rightarrow> client_error \<times> 'w" where
  "attempt_failed env e w =
     (case cv_on_error env e w of
        (Some e', w1) \<Rightarrow> (e', w1)
      | (None, w1) \<Rightarrow> run_errors (ic_error (cv_interceptors env)) e w1)"

definition attempt_body ::
    "'w client_env \<Rightarrow> client_request \<Rightarrow> fetch_body \<Rightarrow> (string, string) jsmap \<Rightarrow> 'w \<Rightarrow> (client_error + client_response) \<times> 'w" where
  "attempt_body env req body headers w =
     (case cv_fetch env req body headers w of
        (Inl e, w1) \<Rightarrow> (Inl e, w1)
      | (Inr raw, w1) \<Rightarrow>
          (case response_data raw of
             Inl e \<Rightarrow> (Inl e, w1)
           | Inr data \<Rightarrow>
               (case run_chain (ic_response (cv_interceptors env))
                       \<lparr> cs_data = data, cs_status = rw_status raw, cs_headers = rw_headers raw, cs_request = req \<rparr> w1 of
                  (Inl e, w2) \<Rightarrow> (Inl e, w2)
                | (Inr res, w2) \<Rightarrow>
                    (case cv_after env res w2 of
                       (Some e, w3) \<Rightarrow> (Inl e, w3)
                     | (None, w3) \<Rightarrow> if rw_ok raw then (Inr res, w3) else (Inl (api_error (rw_status raw)), w3)))))"

definition attempt ::
    "'w client_env \<Rightarrow> client_request \<Rightarrow> fetch_body \<Rightarrow> (string, string) jsmap \<Rightarrow> 'w \<Rightarrow> (client_error + client_response) \<times> 'w" where
  "attempt env req body headers w =
     (case attempt_body env req body headers w of
        (Inl e, w1) \<Rightarrow> (case attempt_failed env e w1 of (e', w2) \<Rightarrow> (Inl e', w2))
      | (Inr res, w1) \<Rightarrow> (Inr res, w1))"

text \<open>What runs inside the circuit breaker; \<open>None\<close> when its retries never end.\<close>

definition execute_request ::
    "'w client_env \<Rightarrow> client_config \<Rightarrow> (jsval \<Rightarrow> bool) \<Rightarrow> (jsval \<Rightarrow> bool) \<Rightarrow> client_request \<Rightarrow> (string, string) jsmap
     \<Rightarrow> 'w \<Rightarrow> ((client_error + client_response) \<times> 'w) option" where
  "execute_request env cfg binary form req headers w =
     (case encode_body binary form (cq_body req) headers of
        (body, h) \<Rightarrow>
          (case cv_before env req w of
             (Some e, w1) \<Rightarrow> Some (Inl e, w1)
           | (None, w1) \<Rightarrow> with_retry (attempt env req body h) (cv_sleep env) (cf_retry cfg) w1))"

subsection \<open>The client\<close>

text \<open>A request in flight, by the number of its execution.\<close>

record pending_request =
  pq_request :: client_request
  pq_headers :: "(string, string) jsmap"
  pq_key :: string

record base_client =
  bl_config :: client_config
  bl_cache :: "client_response lru_cache"
  bl_breaker :: breaker
  bl_in_flight :: "(string, nat) jsmap"
  bl_pending :: "(nat, pending_request) jsmap"
  bl_next :: nat

definition client_new :: "int \<Rightarrow> client_config \<Rightarrow> base_client" where
  "client_new now cfg = \<lparr> bl_config = cfg, bl_cache = lru_new 100 (case cf_cache_ttl cfg of Some t \<Rightarrow> if t = 0 then 60000 else t | None \<Rightarrow> 60000),
     bl_breaker = breaker_new now (cf_breaker cfg), bl_in_flight = [], bl_pending = [], bl_next = 0 \<rparr>"

definition is_get :: "client_request \<Rightarrow> bool" where
  "is_get req \<longleftrightarrow> cq_method req = ''GET''"

datatype begin_outcome = FromCache jsval | JoinedRequest nat | RejectedRequest client_error | StartedRequest nat

text \<open>\<open>request\<close> from the cache check to its \<open>await\<close>: interceptors and headers have run.\<close>

definition client_begin ::
    "((string \<times> jsval) list \<Rightarrow> (string \<times> jsval) list) \<Rightarrow> int \<Rightarrow> client_request \<Rightarrow> (string, string) jsmap
     \<Rightarrow> base_client \<Rightarrow> begin_outcome \<times> base_client" where
  "client_begin collate now req headers c =
     (let key = create_cache_key collate req headers;
          (hit, cache) = (if cf_enable_cache (bl_config c) \<and> is_get req then lru_get now key (bl_cache c) else (None, bl_cache c));
          c1 = c\<lparr>bl_cache := cache\<rparr>
      in case hit of
           Some res \<Rightarrow> (FromCache (cs_data res), c1)
         | None \<Rightarrow>
             (case (if is_get req then map_of (bl_in_flight c1) key else None) of
                Some n \<Rightarrow> (JoinedRequest n, c1)
              | None \<Rightarrow>
                  (case breaker_enter now (bl_breaker c1) of
                     (Some e, b) \<Rightarrow> (RejectedRequest e, c1\<lparr>bl_breaker := b\<rparr>)
                   | (None, b) \<Rightarrow>
                       (let n = bl_next c1
                        in (StartedRequest n, c1\<lparr>bl_breaker := b, bl_next := Suc n,
                              bl_pending := AList.update n \<lparr> pq_request = req, pq_headers = headers, pq_key = key \<rparr> (bl_pending c1),
                              bl_in_flight := (if is_get req then AList.update key n (bl_in_flight c1) else bl_in_flight c1)\<rparr>)))))"

text \<open>An execution is over, with the outcome \<open>execute_request\<close> gives: a success is cached, the breaker learns of
  it, and the entry in flight is removed.\<close>

definition client_finish :: "int \<Rightarrow> nat \<Rightarrow> client_error + client_response \<Rightarrow> base_client \<Rightarrow> base_client" where
  "client_finish now n outcome c =
     (case map_of (bl_pending c) n of
        None \<Rightarrow> c
      | Some p \<Rightarrow>
          c\<lparr>bl_cache := (case outcome of
                Inr res \<Rightarrow> if cf_enable_cache (bl_config c) \<and> is_get (pq_request p)
                           then lru_set now (pq_key p) res None (bl_cache c) else bl_cache c
              | Inl _ \<Rightarrow> bl_cache c),
            bl_breaker := breaker_settle now (\<not> isl outcome) (bl_breaker c),
            bl_pending := AList.delete n (bl_pending c),
            bl_in_flight := (if is_get (pq_request p) then AList.delete (pq_key p) (bl_in_flight c) else bl_in_flight c)\<rparr>)"

datatype client_event =
    Begin int client_request "(string, string) jsmap"
  | Finish int nat "client_error + client_response"

fun client_step :: "((string \<times> jsval) list \<Rightarrow> (string \<times> jsval) list) \<Rightarrow> client_event \<Rightarrow> base_client \<Rightarrow> base_client" where
  "client_step collate (Begin now req h) c = snd (client_begin collate now req h c)"
| "client_step collate (Finish now n r) c = client_finish now n r c"

definition client_run ::
    "((string \<times> jsval) list \<Rightarrow> (string \<times> jsval) list) \<Rightarrow> client_event list \<Rightarrow> base_client \<Rightarrow> base_client" where
  "client_run collate es c = fold (client_step collate) es c"

end
