(* ===== verification/Sdk_Core_Props.thy ===== *)
theory Sdk_Core_Props
  imports Sdk_Core
begin

text \<open>
  The circuit breaker (when it trips, what it blocks, what it lets through while half open), the retry
  loop, the response cache, the offline queue and the paginator.
\<close>

subsection \<open>Circuit breaker\<close>

definition event_time :: "breaker_event \<Rightarrow> int" where
  "event_time e = (case e of Enter t \<Rightarrow> t | Settle t _ \<Rightarrow> t)"

lemma open_settle:
  assumes "br_state b = Open"
  shows "br_state (breaker_settle t ok b) = Open" "br_config (breaker_settle t ok b) = br_config b"
    "br_changed (breaker_settle t ok b) = br_changed b \<or> br_changed (breaker_settle t ok b) = t"
  using assms by (auto simp: breaker_settle_def on_success_def on_failure_def transition_to_def Let_def)

lemma more_than_mono: "\<not> more_than x c \<Longrightarrow> y \<le> x \<Longrightarrow> \<not> more_than y c"
  by (auto simp: more_than_def split: option.splits)

lemma breaker_blocks_trace:
  assumes "br_state b = Open" "\<forall>e \<in> set es. t0 \<le> event_time e \<and> \<not> more_than (event_time e - t0) (bc_cooldown (br_config b))"
    and "t0 \<le> br_changed b"
  shows "list_all Not (fst (breaker_trace es b)) \<and> br_state (snd (breaker_trace es b)) = Open"
  using assms
proof (induction es b rule: breaker_trace.induct)
  case (2 now es b)
  have "\<not> more_than (now - br_changed b) (bc_cooldown (br_config b))"
    using 2(3) 2(4) more_than_mono[of "now - t0" _ "now - br_changed b"] by (auto simp: event_time_def)
  then have e: "breaker_enter now b = (Some circuit_open_error, b)"
    using 2(2) by (simp add: breaker_enter_def check_state_def)
  have "list_all Not (fst (breaker_trace es b)) \<and> br_state (snd (breaker_trace es b)) = Open"
    by (rule 2(1)[OF e[symmetric]]) (use 2 in auto)
  then show ?case by (simp add: e case_prod_beta)
next
  case (3 now ok es b)
  have "br_changed (breaker_settle now ok b) \<ge> t0"
    using open_settle(3)[OF 3(2), of now ok] 3(3,4) by (auto simp: event_time_def)
  then show ?case using 3 open_settle[OF 3(2), of now ok] by (simp add: event_time_def)
qed simp

text \<open>An open breaker lets no call through before its cooldown is over: whatever calls that were already
  under way do, no call made within \<open>cooldownPeriodMs\<close> of the moment it opened is let in.\<close>

theorem breaker_blocks:
  assumes "br_state b = Open" "bc_cooldown (br_config b) = Some c"
    and "\<forall>e \<in> set es. br_changed b \<le> event_time e \<and> event_time e \<le> br_changed b + c"
  shows "list_all Not (fst (breaker_trace es b)) \<and> br_state (snd (breaker_trace es b)) = Open"
  by (rule breaker_blocks_trace[of b es "br_changed b"]) (use assms in \<open>auto simp: more_than_def\<close>)

theorem breaker_blocks_witness:
  "fst (breaker_trace [Enter 6, Settle 7 True, Settle 8 False, Enter 9]
     \<lparr> br_config = \<lparr> bc_threshold = Some 2, bc_cooldown = Some 5, bc_probes = Some 1 \<rparr>, br_state = Open, br_failures = 2,
        br_changed = 5, br_successes = 0 \<rparr>) = [False, False]"
proof -
  let ?b = "\<lparr> br_config = \<lparr> bc_threshold = Some 2, bc_cooldown = Some 5, bc_probes = Some 1 \<rparr>, br_state = Open, br_failures = 2,
        br_changed = 5, br_successes = 0 \<rparr>"
  let ?es = "[Enter 6, Settle 7 True, Settle 8 False, Enter 9]"
  have "list_all Not (fst (breaker_trace ?es ?b))"
    using breaker_blocks[of ?b 5 ?es] by (simp add: event_time_def)
  moreover have "length (fst (breaker_trace ?es ?b)) = 2" by code_simp
  ultimately show ?thesis by (cases "fst (breaker_trace ?es ?b)"; cases "tl (fst (breaker_trace ?es ?b))") auto
qed

text \<open>A configuration that leaves the cooldown out replaces the defaults as a whole, and the breaker never
  closes again.\<close>

theorem breaker_partial_config_stuck:
  assumes "br_state b = Open" "bc_cooldown (br_config b) = None"
  shows "list_all Not (fst (breaker_trace es b))"
proof -
  have "\<exists>t0. (\<forall>e \<in> set es. t0 \<le> event_time e) \<and> t0 \<le> br_changed b"
    by (rule exI[of _ "Min (insert (br_changed b) (event_time ` set es))"]) auto
  then show ?thesis
    using breaker_blocks_trace[OF assms(1), of es] assms(2) by (auto simp: more_than_def)
qed

text \<open>What a breaker went through, from its construction: the state after a history of calls made and
  settled, and the number of failures at its end with no success between them.\<close>

definition after_history :: "breaker_config \<Rightarrow> int \<Rightarrow> breaker_event list \<Rightarrow> breaker" where
  "after_history cfg now es = snd (breaker_trace es (breaker_new now (Some cfg)))"

definition outcomes :: "breaker_event list \<Rightarrow> bool list" where
  "outcomes es = concat (map (\<lambda>e. case e of Enter _ \<Rightarrow> [] | Settle _ ok \<Rightarrow> [ok]) es)"

definition fails_in_a_row :: "breaker_event list \<Rightarrow> nat" where
  "fails_in_a_row es = length (takeWhile Not (rev (outcomes es)))"

lemma outcomes_append [simp]: "outcomes (es @ es') = outcomes es @ outcomes es'"
  by (simp add: outcomes_def)

lemma fails_in_a_row_snoc [simp]:
  "fails_in_a_row [] = 0"
  "fails_in_a_row (es @ [Enter t]) = fails_in_a_row es"
  "fails_in_a_row (es @ [Settle t True]) = 0"
  "fails_in_a_row (es @ [Settle t False]) = Suc (fails_in_a_row es)"
  by (simp_all add: fails_in_a_row_def outcomes_def)

lemma breaker_trace_snd_append:
  "snd (breaker_trace (es @ es') b) = snd (breaker_trace es' (snd (breaker_trace es b)))"
proof (induction es arbitrary: b)
  case (Cons e es)
  then show ?case by (cases e) (simp_all add: case_prod_beta)
qed simp

lemma after_history_simps [simp]:
  "after_history cfg now [] = breaker_new now (Some cfg)"
  "after_history cfg now (es @ [Enter t]) = check_state t (after_history cfg now es)"
  "after_history cfg now (es @ [Settle t ok]) = breaker_settle t ok (after_history cfg now es)"
  by (simp_all add: after_history_def breaker_trace_snd_append breaker_enter_def case_prod_beta Let_def)

lemmas breaker_step_defs = check_state_def breaker_settle_def on_success_def on_failure_def transition_to_def Let_def

lemma breaker_step_config [simp]:
  "br_config (check_state t b) = br_config b" "br_config (breaker_settle t ok b) = br_config b"
  by (simp_all add: breaker_step_defs split: breaker_state.splits)

lemma history_config [simp]: "br_config (after_history cfg now es) = cfg"
proof (induction es rule: rev_induct)
  case (snoc e es)
  then show ?case by (cases e) simp_all
qed (simp add: breaker_new_def)

text \<open>Closed, the breaker counts the failures in a row at the end of all that happened: it closes on a
  success, and every success since started the count again.\<close>

lemma closed_counts:
  "br_state (after_history cfg now es) = Closed \<Longrightarrow> br_failures (after_history cfg now es) = int (fails_in_a_row es)"
proof (induction es rule: rev_induct)
  case (snoc e es)
  let ?b = "after_history cfg now es"
  show ?case
  proof (cases e)
    case (Enter t)
    then show ?thesis using snoc by (simp add: breaker_step_defs split: if_splits)
  next
    case (Settle t ok)
    then show ?thesis using snoc
      by (cases ok; cases "br_state ?b") (simp_all add: breaker_step_defs split: if_splits)
  qed
qed (simp add: breaker_new_def)

text \<open>C18. When the breaker opens, whatever calls were made, let in, rejected and settled since it was
  made, in whatever order: a breaker that is not open opens at an event exactly when the event is a failure
  and the breaker is half open or that failure is the \<open>failureThreshold\<close>-th in a row, with no
  success between them. An open breaker leaves that state only at a call, to become half open.\<close>

theorem breaker_trips_exactly:
  assumes "bc_threshold cfg = Some n"
  shows "if br_state (after_history cfg now es) = Open
    then br_state (after_history cfg now (es @ [e])) = Open
      \<or> (\<exists>t. e = Enter t) \<and> br_state (after_history cfg now (es @ [e])) = HalfOpen
    else br_state (after_history cfg now (es @ [e])) = Open \<longleftrightarrow>
      (\<exists>t. e = Settle t False)
      \<and> (br_state (after_history cfg now es) = HalfOpen \<or> n \<le> int (fails_in_a_row (es @ [e])))"
proof (cases e)
  case (Settle t ok)
  then show ?thesis using assms closed_counts[of cfg now es]
    by (cases ok; cases "br_state (after_history cfg now es)") (simp_all add: breaker_step_defs at_least_def)
qed (simp add: breaker_step_defs)

text \<open>Two failures around a success leave a breaker of threshold 2 closed, the next one opens it; half open
  after the cooldown, one failure is enough.\<close>

theorem breaker_trips_exactly_witness:
  "br_state (after_history \<lparr> bc_threshold = Some 2, bc_cooldown = Some 5, bc_probes = Some 1 \<rparr> 0
     ([Settle 1 False, Settle 1 True, Settle 1 False] @ [Settle 2 False])) = Open
   \<and> br_state (after_history \<lparr> bc_threshold = Some 2, bc_cooldown = Some 5, bc_probes = Some 1 \<rparr> 0
     ([Settle 1 False, Settle 1 True, Settle 1 False, Settle 2 False, Enter 8] @ [Settle 9 False])) = Open"
proof -
  let ?cfg = "\<lparr> bc_threshold = Some 2, bc_cooldown = Some 5, bc_probes = Some 1 \<rparr>"
  have "br_state (after_history ?cfg 0 [Settle 1 False, Settle 1 True, Settle 1 False]) = Closed" by code_simp
  moreover have "fails_in_a_row ([Settle 1 False, Settle 1 True, Settle 1 False] @ [Settle 2 False]) = 2" by code_simp
  moreover have "br_state (after_history ?cfg 0 [Settle 1 False, Settle 1 True, Settle 1 False, Settle 2 False, Enter 8])
    = HalfOpen" by code_simp
  ultimately show ?thesis
    using breaker_trips_exactly[of ?cfg 2 0 "[Settle 1 False, Settle 1 True, Settle 1 False]" "Settle 2 False"]
      breaker_trips_exactly[of ?cfg 2 0
        "[Settle 1 False, Settle 1 True, Settle 1 False, Settle 2 False, Enter 8]" "Settle 9 False"]
    by (simp del: after_history_simps)
qed

text \<open>Half open, as many successes as \<open>halfOpenMaxProbeRequests\<close> close it again, and fewer leave it
  half open, however many calls are made meanwhile.\<close>

lemma half_open_closes:
  assumes "br_state b = HalfOpen" "bc_probes (br_config b) = Some (int p)" "br_successes b = int k" "k < p"
    "\<forall>ok\<in>set (outcomes es). ok" "k + length (outcomes es) \<le> p"
  shows "br_state (snd (breaker_trace es b)) = (if k + length (outcomes es) < p then HalfOpen else Closed)"
  using assms
proof (induction es arbitrary: b k)
  case (Cons e es)
  show ?case
  proof (cases e)
    case (Enter t)
    then show ?thesis using Cons
      by (simp add: outcomes_def breaker_enter_def check_state_def case_prod_beta)
  next
    case (Settle t ok)
    then have ok: ok using Cons.prems(5) by (simp add: outcomes_def)
    have closed: "br_state (snd (breaker_trace es b')) = Closed" if "br_state b' = Closed" "outcomes es = []" for b'
      using that
    proof (induction es arbitrary: b')
      case (Cons e es)
      then show ?case by (cases e) (simp_all add: outcomes_def breaker_enter_def check_state_def case_prod_beta)
    qed simp
    show ?thesis
    proof (cases "Suc k < p")
      case True
      then show ?thesis using Settle ok Cons.prems Cons.IH[of "b\<lparr>br_successes := int k + 1\<rparr>" "Suc k"]
        by (simp add: outcomes_def breaker_settle_def on_success_def Let_def at_least_def)
    next
      case False
      moreover have "outcomes (e # es) = ok # outcomes es" using Settle by (simp add: outcomes_def)
      ultimately have "k + Suc (length (outcomes es)) \<le> p" "\<not> Suc k < p" using Cons.prems(6) by simp_all
      then have "length (outcomes es) = 0" "Suc k = p" using Cons.prems(4) by linarith+
      then have "outcomes es = []" "Suc k = p" by simp_all
      moreover have "outcomes (e # es) = ok # outcomes es" using Settle by (simp add: outcomes_def)
      ultimately show ?thesis using Settle ok Cons.prems(1-4) closed
        by (simp add: breaker_settle_def on_success_def Let_def at_least_def transition_to_def)
    qed
  qed
qed (simp add: outcomes_def)

text \<open>Half open, the breaker lets any number of calls through at once, whatever
  \<open>halfOpenMaxProbeRequests\<close> says: that bound counts the successes needed to close it.\<close>

theorem breaker_probes_unbounded:
  assumes "br_state b = Open" "bc_cooldown (br_config b) = Some c" "br_changed b + c < now"
  shows "fst (breaker_trace (replicate n (Enter now)) b) = replicate n True"
proof -
  have half: "fst (breaker_trace (replicate n (Enter now)) b) = replicate n True" if "br_state b = HalfOpen" for n b
    using that by (induction n) (simp_all add: breaker_enter_def check_state_def case_prod_beta)
  have "breaker_enter now b = (None, transition_to now HalfOpen b)"
    using assms by (simp add: breaker_enter_def check_state_def more_than_def transition_to_def Let_def)
  then show ?thesis
    using half[of "transition_to now HalfOpen b"]
    by (cases n) (simp_all add: transition_to_def case_prod_beta)
qed

subsection \<open>Retries\<close>

lemma retry_step:
  assumes "\<And>w. request w = (outcome w, Suc w)" "\<And>d w. sleep d w = w"
  shows "retry_loop request sleep cfg a a =
    (case outcome a of
       Inr x \<Rightarrow> Some (outcome a, Suc a)
     | Inl e \<Rightarrow> if (case rc_max cfg of Some m \<Rightarrow> m < Suc a | None \<Rightarrow> False) then Some (outcome a, Suc a)
                else if \<not> retryable cfg e then Some (Inl (not_retried cfg e), Suc a)
                else retry_loop request sleep cfg (Suc a) (Suc a))"
  by (subst retry_loop.simps) (simp add: assms(1) assms(2) split: sum.split)

lemma retry_loop_exact:
  assumes "\<And>w. request w = (outcome w, Suc w)" "\<And>d w. sleep d w = w" "rc_max cfg = Some m" "rc_codes cfg \<noteq> None" "a \<le> m"
  shows "\<exists>k. retry_loop request sleep cfg a a = Some (outcome k, Suc k) \<and> a \<le> k \<and> k \<le> m
     \<and> (\<forall>i. a \<le> i \<longrightarrow> i < k \<longrightarrow> (\<exists>e. outcome i = Inl e \<and> retryable cfg e))
     \<and> (k = m \<or> (\<forall>e. outcome k = Inl e \<longrightarrow> \<not> retryable cfg e))"
  using assms(5)
proof (induction "m - a" arbitrary: a)
  case 0
  then have "a = m" by simp
  then show ?case by (intro exI[of _ a]) (simp add: retry_step[OF assms(1,2)] assms(3) split: sum.split)
next
  case (Suc d)
  show ?case
  proof (cases "\<exists>e. outcome a = Inl e \<and> retryable cfg e")
    case True
    then obtain e where e: "outcome a = Inl e" "retryable cfg e" by blast
    have "d = m - Suc a" "Suc a \<le> m" using Suc.hyps(2) by linarith+
    from Suc.hyps(1)[OF this] obtain k where k: "retry_loop request sleep cfg (Suc a) (Suc a) = Some (outcome k, Suc k)" "Suc a \<le> k" "k \<le> m"
        "\<forall>i. Suc a \<le> i \<longrightarrow> i < k \<longrightarrow> (\<exists>e. outcome i = Inl e \<and> retryable cfg e)"
        "k = m \<or> (\<forall>e. outcome k = Inl e \<longrightarrow> \<not> retryable cfg e)"
      by blast
    have "retry_loop request sleep cfg a a = retry_loop request sleep cfg (Suc a) (Suc a)"
      using e \<open>Suc a \<le> m\<close> assms(3) by (subst retry_step[OF assms(1,2)]) simp
    then show ?thesis using k e by (intro exI[of _ k]) (auto dest: le_neq_implies_less)
  next
    case False
    then show ?thesis using Suc.prems assms(3,4)
      by (intro exI[of _ a]) (auto simp: retry_step[OF assms(1,2)] not_retried_def split: sum.split)
  qed
qed

lemma merged_given:
  "rp_max p \<noteq> Undefined \<Longrightarrow> \<exists>m. rc_max (merge_retry p) = Some m"
  "rp_codes p \<noteq> Undefined \<Longrightarrow> rc_codes (merge_retry p) \<noteq> None"
  by (cases "rp_max p"; cases "rp_codes p"; simp add: merge_retry_def spread_over_def default_retry_def)+

text \<open>C19. What \<open>withRetry\<close> returns or throws is the outcome of its last call; it makes at most
  \<open>maxRetries + 1\<close> calls, repeats only after failures that may be retried (no HTTP status, or one of the
  configured codes), and stops early only at a success or at a failure that may not be retried. Each of
  \<open>maxRetries\<close> and \<open>retryableStatusCodes\<close> may be left out of the configuration, but not given as \<open>undefined\<close>.\<close>

theorem with_retry_exact:
  assumes "\<And>w. request w = (outcome w, Suc w)" "\<And>d w. sleep d w = w"
    and "rp_max p \<noteq> Undefined" "rp_codes p \<noteq> Undefined"
  shows "\<exists>k \<le> the (rc_max (merge_retry p)). with_retry request sleep p 0 = Some (outcome k, Suc k)
     \<and> (\<forall>i < k. \<exists>e. outcome i = Inl e \<and> retryable (merge_retry p) e)
     \<and> (k = the (rc_max (merge_retry p)) \<or> (\<forall>e. outcome k = Inl e \<longrightarrow> \<not> retryable (merge_retry p) e))"
proof -
  obtain m where m: "rc_max (merge_retry p) = Some m" using merged_given(1)[OF assms(3)] by blast
  show ?thesis
    using retry_loop_exact[of request outcome sleep, OF assms(1,2) m merged_given(2)[OF assms(4)], of 0] m
    unfolding with_retry_def by auto
qed

theorem with_retry_exact_witness:
  "\<exists>k \<le> 2. with_retry (\<lambda>w. (if w < 1 then Inl (sdk_error ''x'' 503) else Inr (7 :: int), Suc w)) (\<lambda>d w. w)
     \<lparr> rp_max = Given 2, rp_base = Absent, rp_max_delay = Undefined, rp_codes = Absent \<rparr> 0
     = Some (if k < 1 then Inl (sdk_error ''x'' 503) else Inr 7, Suc k)"
proof -
  let ?p = "\<lparr> rp_max = Given 2, rp_base = Absent, rp_max_delay = Undefined, rp_codes = Absent \<rparr>"
  have "rc_max (merge_retry ?p) = Some 2" by (simp add: merge_retry_def spread_over_def)
  then show ?thesis
    using with_retry_exact[of "\<lambda>w. (if w < 1 then Inl (sdk_error ''x'' 503) else Inr (7 :: int), Suc w)"
        "\<lambda>w. if w < 1 then Inl (sdk_error ''x'' 503) else Inr 7" "\<lambda>d w. w" ?p] by auto
qed

text \<open>With \<open>maxRetries: undefined\<close> no count of failures is more than the limit: while every call fails in a way
  that may be retried, \<open>withRetry\<close> does not return.\<close>

theorem retry_undefined_endless:
  assumes "rp_max p = Undefined" "\<And>w. \<exists>e w'. request w = (Inl e, w') \<and> retryable (merge_retry p) e"
  shows "with_retry request sleep p w = None"
proof -
  have m: "rc_max (merge_retry p) = None" using assms(1) by (simp add: merge_retry_def spread_over_def)
  have never: "rc_max cfg \<noteq> None \<or> (\<exists>w. \<forall>e w'. request w = (Inl e, w') \<longrightarrow> \<not> retryable cfg e)"
    if "retry_loop request sleep cfg a w = Some r" for request :: "'a \<Rightarrow> (client_error + 'b) \<times> 'a" and sleep cfg a w r
  proof (rule retry_loop.raw_induct[where P = "\<lambda>request sleep cfg a w r.
      rc_max cfg \<noteq> None \<or> (\<exists>w. \<forall>e w'. request w = (Inl e, w') \<longrightarrow> \<not> retryable cfg e)", OF _ that])
    fix loop :: "('a \<Rightarrow> (client_error + 'b) \<times> 'a) \<Rightarrow> (nat option \<Rightarrow> 'a \<Rightarrow> 'a) \<Rightarrow> retry_config \<Rightarrow> nat \<Rightarrow> 'a
      \<Rightarrow> ((client_error + 'b) \<times> 'a) option"
      and request :: "'a \<Rightarrow> (client_error + 'b) \<times> 'a" and sleep cfg a w r
    assume ih: "\<And>request sleep cfg a w r. loop request sleep cfg a w = Some r \<Longrightarrow>
        rc_max cfg \<noteq> None \<or> (\<exists>w. \<forall>e w'. request w = (Inl e, w') \<longrightarrow> \<not> retryable cfg e)"
      and step: "(case request w of (Inr x, w') \<Rightarrow> Some (Inr x, w')
        | (Inl e, w') \<Rightarrow>
          if (case rc_max cfg of Some m \<Rightarrow> m < Suc a | None \<Rightarrow> False) then Some (Inl e, w')
          else if \<not> retryable cfg e then Some (Inl (not_retried cfg e), w')
          else loop request sleep cfg (Suc a) (sleep (retry_delay cfg (Suc a)) w')) = Some r"
    obtain o' w' where q: "request w = (o', w')" by fastforce
    show "rc_max cfg \<noteq> None \<or> (\<exists>w. \<forall>e w'. request w = (Inl e, w') \<longrightarrow> \<not> retryable cfg e)"
    proof (cases "rc_max cfg = None \<and> (\<exists>e. o' = Inl e \<and> retryable cfg e)")
      case True
      then have "loop request sleep cfg (Suc a) (sleep (retry_delay cfg (Suc a)) w') = Some r" using step q by auto
      then show ?thesis by (rule ih)
    next
      case False
      then show ?thesis using q by (auto intro!: exI[of _ w])
    qed
  qed
  have "\<exists>e. fst (request w) = Inl e \<and> retryable (merge_retry p) e" for w using assms(2)[of w] by auto
  then show ?thesis
    using never[of request sleep "merge_retry p" 0 w] m assms(2) unfolding with_retry_def
    by (cases "retry_loop request sleep (merge_retry p) 0 w") fastforce+
qed

theorem retry_undefined_endless_witness:
  "with_retry (\<lambda>w. (Inl (sdk_error ''x'' 503) :: client_error + int, Suc w)) (\<lambda>d w. w)
     \<lparr> rp_max = Undefined, rp_base = Absent, rp_max_delay = Absent, rp_codes = Absent \<rparr> 0 = None"
proof (rule retry_undefined_endless)
  fix w
  have "retryable (merge_retry \<lparr> rp_max = Undefined, rp_base = Absent, rp_max_delay = Absent, rp_codes = Absent \<rparr>)
    (sdk_error ''x'' 503)" by code_simp
  then show "\<exists>e w'. (Inl (sdk_error ''x'' 503) :: client_error + int, Suc w) = (Inl e, w')
    \<and> retryable (merge_retry \<lparr> rp_max = Undefined, rp_base = Absent, rp_max_delay = Absent, rp_codes = Absent \<rparr>) e" by simp
qed simp

subsection \<open>Response cache\<close>

text \<open>The cache keeps distinct keys, and at most \<open>maxKeys\<close> of them (one, if that is zero).\<close>

definition lru_ok :: "'v lru_cache \<Rightarrow> bool" where
  "lru_ok c \<longleftrightarrow> distinct_keys (lr_entries c) \<and> length (lr_entries c) \<le> max 1 (lr_max c)"

lemma lru_ok_new: "lru_ok (lru_new n ttl)"
  by (simp add: lru_ok_def lru_new_def)

lemma lru_ok_delete: "lru_ok c \<Longrightarrow> lru_ok (lru_delete k c)"
  by (auto simp: lru_ok_def lru_delete_def delete_as_filter intro: le_trans[OF length_filter_le])

lemma update_deleted: "AList.update k v (AList.delete k m) = AList.delete k m @ [(k, v)]"
  by (subst update_new) (auto simp: set_delete)

lemma lru_get_entries:
  assumes "map_of (lr_entries c) k = Some (v, e)" "now \<le> e"
  shows "lru_get now k c = (Some v, c\<lparr>lr_entries := AList.delete k (lr_entries c) @ [(k, v, e)]\<rparr>)"
  using assms by (simp add: lru_get_def update_deleted del: map_of_eq_Some_iff)

lemma length_delete_key: "k \<in> set (keys m) \<Longrightarrow> Suc (length (AList.delete k m)) \<le> length m"
  by (induction m) (auto simp: delete_as_filter le_imp_less_Suc)

lemma lru_ok_get: "lru_ok c \<Longrightarrow> lru_ok (snd (lru_get now k c))"
proof (cases "map_of (lr_entries c) k")
  case (Some ve)
  assume c: "lru_ok c"
  obtain v e where ve: "ve = (v, e)" by force
  have k: "k \<in> set (keys (lr_entries c))" using Some by (metis domI dom_map_of_conv_image_fst list.set_map)
  have "length (AList.delete k (lr_entries c) @ [(k, v, e)]) \<le> length (lr_entries c)"
    using length_delete_key[OF k] by simp
  moreover have "distinct_keys (AList.delete k (lr_entries c) @ [(k, v, e)])"
    using c by (auto simp: lru_ok_def set_delete)
  ultimately show ?thesis
    using c Some ve lru_get_entries[of c k v e now] lru_ok_delete[OF c, of k]
    by (cases "now \<le> e") (auto simp: lru_ok_def lru_get_def lru_delete_def not_le)
qed (simp add: lru_get_def)

lemma lru_set_entries:
  assumes "lru_ok c"
  shows "lr_entries (lru_set now k v ttl c) =
     (if k \<in> set (keys (lr_entries c)) then AList.delete k (lr_entries c)
      else if lr_max c \<le> length (lr_entries c) then tl (lr_entries c) else lr_entries c)
     @ [(k, v, now + (case ttl of Some t \<Rightarrow> t | None \<Rightarrow> lr_ttl c))]"
proof (cases "k \<in> set (keys (lr_entries c))")
  case False
  have tl: "(case lr_entries c of [] \<Rightarrow> [] | (old, _) # _ \<Rightarrow> AList.delete old (lr_entries c)) = tl (lr_entries c)"
    using assms by (cases "lr_entries c") (auto simp: lru_ok_def delete_notin)
  have "k \<notin> set (keys (tl (lr_entries c)))" using False by (cases "lr_entries c") auto
  then show ?thesis using False by (simp add: lru_set_def Let_def tl update_new)
qed (simp add: lru_set_def Let_def update_deleted)

lemma lru_ok_set: "lru_ok c \<Longrightarrow> lru_ok (lru_set now k v ttl c)"
proof -
  assume c: "lru_ok c"
  have m: "lr_max (lru_set now k v ttl c) = lr_max c" by (simp add: lru_set_def)
  have "distinct_keys (tl (lr_entries c))" "set (keys (tl (lr_entries c))) \<subseteq> set (keys (lr_entries c))"
    using c by (cases "lr_entries c"; auto simp: lru_ok_def)+
  moreover have "k \<in> set (keys (lr_entries c)) \<Longrightarrow> Suc (length (AList.delete k (lr_entries c))) \<le> max 1 (lr_max c)"
    using length_delete_key[of k "lr_entries c"] c unfolding lru_ok_def by linarith
  ultimately show ?thesis
    using c unfolding lru_ok_def lru_set_entries[OF c] m
    by (cases "k \<in> set (keys (lr_entries c))") (auto simp: set_delete)
qed

lemma lru_ok_clear: "lru_ok (lru_clear c)"
  by (simp add: lru_ok_def lru_clear_def)

datatype 'v lru_op = LGet int string | LSet int string 'v "int option" | LDelete string | LClear

fun lru_step :: "'v lru_op \<Rightarrow> 'v lru_cache \<Rightarrow> 'v lru_cache" where
  "lru_step (LGet now k) c = snd (lru_get now k c)"
| "lru_step (LSet now k v ttl) c = lru_set now k v ttl c"
| "lru_step (LDelete k) c = lru_delete k c"
| "lru_step LClear c = lru_clear c"

lemma lru_ok_run: "lru_ok c \<Longrightarrow> lru_ok (fold lru_step ops c)"
proof (induction ops arbitrary: c)
  case (Cons op ops)
  have "lru_ok (lru_step op c)"
    using Cons.prems by (cases op) (simp_all add: lru_ok_get lru_ok_set lru_ok_delete lru_ok_clear)
  then show ?case using Cons.IH by simp
qed simp

text \<open>The response cache: after any operations it holds at most \<open>maxKeys\<close> responses (one, if that is zero);
  what \<open>set\<close> stored is answered until its time to live_sockets is over and not after; and a \<open>set\<close> of a new key into a full
  cache drops the key used longest ago and no other.\<close>

theorem lru_cache_spec:
  assumes "c = fold lru_step ops (lru_new n ttl)"
  shows "length (lr_entries c) \<le> max 1 n
     \<and> fst (lru_get t k (lru_set now k v (Some life) c)) = (if t \<le> now + life then Some v else None)
     \<and> (k \<notin> set (keys (lr_entries c)) \<and> n \<le> length (lr_entries c) \<longrightarrow>
          lr_entries (lru_set now k v (Some life) c) = tl (lr_entries c) @ [(k, v, now + life)])"
proof -
  have ok: "lru_ok c" unfolding assms by (rule lru_ok_run[OF lru_ok_new])
  have m: "lr_max c = n"
  proof -
    have "lr_max (lru_step op x) = lr_max x" for op and x :: "'a lru_cache"
      by (cases op) (auto simp: lru_get_def lru_set_def lru_delete_def lru_clear_def split: option.split)
    then have "lr_max (fold lru_step ops x) = lr_max x" for x :: "'a lru_cache" by (induction ops arbitrary: x) auto
    then show ?thesis by (simp add: assms lru_new_def)
  qed
  have "(k, v, now + life) \<in> set (lr_entries (lru_set now k v (Some life) c))"
    by (simp add: lru_set_entries[OF ok])
  then have "map_of (lr_entries (lru_set now k v (Some life) c)) k = Some (v, now + life)"
    using lru_ok_set[OF ok, of now k v "Some life"] by (simp add: lru_ok_def)
  then have "fst (lru_get t k (lru_set now k v (Some life) c)) = (if t \<le> now + life then Some v else None)"
    by (simp add: lru_get_def not_le del: map_of_eq_Some_iff)
  then show ?thesis using ok m by (simp add: lru_ok_def lru_set_entries[OF ok])
qed

theorem lru_cache_spec_witness:
  "length (lr_entries (fold lru_step [LSet 0 ''a'' (1::int) None, LSet 1 ''b'' 2 None] (lru_new 1 10))) \<le> 1
   \<and> fst (lru_get 5 ''c'' (lru_set 2 ''c'' 3 (Some 4) (fold lru_step [LSet 0 ''a'' (1::int) None, LSet 1 ''b'' 2 None] (lru_new 1 10)))) = Some 3"
  using lru_cache_spec[OF refl, of "[LSet 0 ''a'' (1::int) None, LSet 1 ''b'' 2 None]" 1 10 5 "''c''" 2 3 4] by simp

subsection \<open>Offline queue\<close>

lemma flush_requests_exact:
  assumes "\<And>r q. f r q = (ok r, q @ news r)"
  shows "flush_requests (Some f) rs q = q @ concat (map (\<lambda>r. news r @ (if ok r then [] else [r])) rs)"
  by (induction rs arbitrary: q) (auto simp: assms)

text \<open>A flush with a processor loses nothing: the requests that failed stay, and those queued meanwhile
  join them, in the order in which that happened. The listener for \<open>online\<close> events flushes
  without a processor, and the whole queue is gone.\<close>

theorem offline_flush_exact:
  assumes "\<And>r q. f r q = (ok r, q @ news r)" "online \<noteq> Some False"
  shows "offline_flush online (Some f) q = concat (map (\<lambda>r. news r @ (if ok r then [] else [r])) q)
     \<and> on_online q = []"
proof -
  have "flush_requests None rs [] = []" for rs by (induction rs) auto
  then show ?thesis
    using assms(2) flush_requests_exact[of f ok news q "[]", OF assms(1)] by (auto simp: offline_flush_def on_online_def)
qed

theorem offline_flush_exact_witness:
  "offline_flush None (Some (\<lambda>r q. (oq_id r = ''b'', q)))
     (map (\<lambda>i. \<lparr> oq_id = i, oq_path = ''/'', oq_method = ''GET'', oq_body = JUndef, oq_headers = [], oq_timestamp = 0 \<rparr>) [''a'', ''b''])
   = [\<lparr> oq_id = ''a'', oq_path = ''/'', oq_method = ''GET'', oq_body = JUndef, oq_headers = [], oq_timestamp = 0 \<rparr>]"
  using offline_flush_exact[of "\<lambda>r q. (oq_id r = ''b'', q)" "\<lambda>r. oq_id r = ''b''" "\<lambda>r. []" None
      "map (\<lambda>i. \<lparr> oq_id = i, oq_path = ''/'', oq_method = ''GET'', oq_body = JUndef, oq_headers = [], oq_timestamp = 0 \<rparr>) [''a'', ''b'']"]
  by simp

end
