(* ===== verification/Sdk_Client_Props.thy ===== *)
theory Sdk_Client_Props
  imports Sdk_Client Sdk_Core_Props "HOL-Library.Multiset"
begin

text \<open>
  The cache key tells requests apart (\<open>JSON.stringify\<close> is injective on what the key is made of), so an answer
  from the cache came from a request with the same method, path, query and headers; at most one execution
  per key is in flight.
\<close>

subsection \<open>JSON texts can be told apart\<close>

text \<open>Reading back one character of a JSON string.\<close>

definition short_escape :: "char \<Rightarrow> char" where
  "short_escape c = (if c = CHR ''b'' then CHR 0x08 else if c = CHR ''f'' then CHR 0x0C else if c = CHR ''n'' then CHR 0x0A
     else if c = CHR ''r'' then CHR 0x0D else if c = CHR ''t'' then CHR 0x09 else c)"

fun json_unchar :: "string \<Rightarrow> char \<times> string" where
  "json_unchar (c # d # s) =
     (if c \<noteq> CHR 0x5C then (c, d # s)
      else if d \<noteq> CHR ''u'' then (short_escape d, s)
      else (char_of (16 * (case hex_val (s ! 2) of Some n \<Rightarrow> n | None \<Rightarrow> 0) + (case hex_val (s ! 3) of Some n \<Rightarrow> n | None \<Rightarrow> 0)), drop 4 s))"
| "json_unchar [c] = (c, [])"
| "json_unchar [] = (CHR 0x00, [])"

lemma hex_val_digit: "n < 16 \<Longrightarrow> hex_val (hex_digit n) = Some n"
  by (auto simp: hex_val_def hex_digit_def Let_def)

lemma json_unchar: "json_unchar (json_char c @ x) = (c, x)"
proof -
  have u: "json_unchar (CHR 0x5C # ''u00'' @ [hex_digit (of_char c div 16), hex_digit (of_char c mod 16)] @ x) = (c, x)"
    if "(of_char c :: nat) < 32"
  proof -
    have "(of_char c :: nat) div 16 < 16" using that by simp
    then show ?thesis by (simp add: hex_val_digit numeral_2_eq_2 numeral_3_eq_3)
  qed
  have p: "json_unchar (c # x) = (c, x)" if "c \<noteq> CHR 0x5C" using that by (cases x) auto
  show ?thesis
    unfolding json_char_def using u p
    by (simp add: short_escape_def split: if_split)
qed

lemma json_char_cancel: "json_char c @ x = json_char d @ y \<longleftrightarrow> c = d \<and> x = y"
  by (metis json_unchar prod.inject)

lemma json_char_quote: "json_char c @ x \<noteq> CHR 0x22 # y"
proof
  assume e: "json_char c @ x = CHR 0x22 # y"
  have "json_unchar (CHR 0x22 # y) = (CHR 0x22, y)" by (cases y) simp_all
  then have "c = CHR 0x22" using json_unchar[of c x] unfolding e by simp
  then show False using e by (simp add: json_char_def)
qed

lemma json_string_cancel: "json_string s @ x = json_string t @ y \<longleftrightarrow> s = t \<and> x = y"
proof -
  have "concat (map json_char s) @ CHR 0x22 # x = concat (map json_char t) @ CHR 0x22 # y \<longleftrightarrow> s = t \<and> x = y"
  proof (induction s arbitrary: t)
    case Nil
    then show ?case using json_char_quote by (cases t) (auto dest: sym)
  next
    case (Cons c s)
    then show ?case using json_char_quote by (cases t) (auto simp: json_char_cancel)
  qed
  then show ?thesis by (simp add: json_string_def)
qed

text \<open>Values without objects; an \<open>undefined\<close> in an array prints as \<open>null\<close>.\<close>

fun plain_value :: "jsval \<Rightarrow> bool" where
  "plain_value (JArr vs) = (\<forall>v \<in> set vs. plain_value v)"
| "plain_value (JObj kvs) = False"
| "plain_value (JInst s) = False"
| "plain_value v = True"

fun nullish :: "jsval \<Rightarrow> jsval" where
  "nullish JUndef = JNull"
| "nullish (JArr vs) = JArr (map nullish vs)"
| "nullish v = v"

definition value_text :: "jsval \<Rightarrow> string" where
  "value_text v = (case json_stringify v of Some s \<Rightarrow> s | None \<Rightarrow> ''null'')"

definition delimited :: "string \<Rightarrow> bool" where
  "delimited r \<longleftrightarrow> r = [] \<or> hd r = CHR '','' \<or> hd r = CHR '']''"

fun array_tail :: "jsval list \<Rightarrow> string" where
  "array_tail [] = '']''"
| "array_tail (v # vs) = '','' @ value_text v @ array_tail vs"

lemma value_text_array: "value_text (JArr vs) = (case vs of [] \<Rightarrow> ''[]'' | v # ws \<Rightarrow> ''['' @ value_text v @ array_tail ws)"
proof -
  have "value_text v @ concat (map (Cons (CHR '','')) (map value_text ws)) @ '']'' = value_text v @ array_tail ws" for v ws
    by (induction ws) auto
  then show ?thesis
    by (cases vs) (auto simp: value_text_def[of "JArr _"] join_with_concat value_text_def[symmetric, abs_def])
qed

text \<open>The characters of a decimal number.\<close>

definition num_char :: "char \<Rightarrow> bool" where
  "num_char c \<longleftrightarrow> c = CHR ''-'' \<or> (48 \<le> (of_char c :: nat) \<and> of_char c \<le> (57 :: nat))"

definition read_nat :: "string \<Rightarrow> nat" where
  "read_nat s = foldl (\<lambda>a c. 10 * a + (of_char c - 48)) 0 s"

lemma read_show_nat: "read_nat (show_nat n) = n"
proof (induction n rule: show_nat.induct)
  case (1 n)
  show ?case
  proof (cases "n < 10")
    case True
    then show ?thesis by (subst show_nat.simps) (simp add: read_nat_def)
  next
    case False
    then have "read_nat (show_nat (n div 10) @ [char_of (48 + n mod 10)]) = 10 * (n div 10) + n mod 10"
      using 1 by (simp add: read_nat_def)
    then show ?thesis using False by (subst show_nat.simps) simp
  qed
qed

lemma show_nat_inject: "show_nat m = show_nat n \<longleftrightarrow> m = n"
  by (metis read_show_nat)

lemma show_nat_not_empty: "show_nat n \<noteq> []"
  by (subst show_nat.simps) simp

lemma minus_no_digit: "show_nat n \<noteq> CHR ''-'' # s"
  using show_nat_digit[of "CHR ''-''" n] by auto

lemma show_int_inject: "show_int i = show_int j \<longleftrightarrow> i = j"
  using minus_no_digit minus_no_digit[symmetric] by (auto simp: show_int_def show_nat_inject)

lemma show_int_nonempty: "show_int i \<noteq> []"
  by (simp add: show_int_def show_nat_not_empty)

lemma num_char_show_int: "\<forall>c \<in> set (show_int i). num_char c"
  using show_int_digit by (auto simp: num_char_def)

lemma delimited_no_num: "delimited r \<Longrightarrow> r = [] \<or> \<not> num_char (hd r)"
  by (auto simp: delimited_def num_char_def)

lemma takeWhile_show_int: "delimited r \<Longrightarrow> takeWhile num_char (show_int i @ r) = show_int i"
  using num_char_show_int[of i] delimited_no_num[of r]
  by (cases r) (auto simp: takeWhile_append2)

lemma show_int_cancel:
  "delimited r \<Longrightarrow> delimited r' \<Longrightarrow> show_int i @ r = show_int j @ r' \<Longrightarrow> i = j \<and> r = r'"
  using takeWhile_show_int[of r i] takeWhile_show_int[of r' j] by (auto simp: show_int_inject)

text \<open>The first character tells what kind of value follows.\<close>

definition char_kind :: "char \<Rightarrow> nat" where
  "char_kind c = (if c = CHR ''n'' then 0 else if c = CHR ''t'' then 1 else if c = CHR ''f'' then 2
     else if c = CHR 0x22 then 3 else if c = CHR ''['' then 4 else if num_char c then 5 else 6)"

definition value_kind :: "jsval \<Rightarrow> nat" where
  "value_kind v = (case v of JBool True \<Rightarrow> 1 | JBool False \<Rightarrow> 2 | JStr _ \<Rightarrow> 3 | JArr _ \<Rightarrow> 4 | JNum _ \<Rightarrow> 5 | _ \<Rightarrow> 0)"

lemma char_kind_num:
  assumes "num_char c"
  shows "char_kind c = 5"
proof -
  have e: "c = d \<longleftrightarrow> (of_char c :: nat) = of_char d" for d by simp
  have "(of_char c :: nat) = 45 \<or> 48 \<le> (of_char c :: nat) \<and> of_char c \<le> (57 :: nat)"
    using assms unfolding num_char_def by auto
  then show ?thesis unfolding char_kind_def e using assms by auto
qed

lemma value_text_simps:
  "value_text JUndef = ''null''" "value_text JNull = ''null''" "value_text (JBool b) = (if b then ''true'' else ''false'')"
  "value_text (JNum i) = show_int i" "value_text (JStr s) = json_string s"
  by (simp_all add: value_text_def)

lemma hd_value_text:
  assumes "plain_value v"
  shows "value_text v \<noteq> [] \<and> char_kind (hd (value_text v @ r)) = value_kind v"
proof (cases v)
  case (JNum i)
  have "num_char (hd (show_int i))" using num_char_show_int show_int_nonempty hd_in_set by blast
  then show ?thesis using JNum show_int_nonempty[of i] char_kind_num
    by (simp add: value_text_simps value_kind_def)
next
  case (JArr vs)
  then show ?thesis by (cases vs) (simp_all add: value_text_array value_kind_def char_kind_def)
qed (use assms in \<open>auto simp: value_text_simps value_kind_def char_kind_def json_string_def\<close>)

lemma value_kind_eq:
  assumes "plain_value v" "plain_value w" "value_text v @ r = value_text w @ r'"
  shows "value_kind v = value_kind w"
  using hd_value_text[OF assms(1), of r, THEN conjunct2] hd_value_text[OF assms(2), of r', THEN conjunct2]
  unfolding assms(3) by (rule trans[OF sym])

lemma delimited_tail: "delimited (array_tail vs @ r)"
  by (cases vs) (simp_all add: delimited_def)

lemma tail_cancel:
  assumes "\<And>v w r r'. v \<in> set vs \<Longrightarrow> plain_value w \<Longrightarrow> delimited r \<Longrightarrow> delimited r' \<Longrightarrow> value_text v @ r = value_text w @ r'
      \<Longrightarrow> nullish v = nullish w \<and> r = r'"
    and "\<forall>w \<in> set ws. plain_value w" "array_tail vs @ r = array_tail ws @ r'"
  shows "map nullish vs = map nullish ws \<and> r = r'"
  using assms
proof (induction vs arbitrary: ws)
  case Nil
  then show ?case by (cases ws) auto
next
  case (Cons v vs)
  from Cons.prems(3) obtain w ws' where ws: "ws = w # ws'" by (cases ws) auto
  have e: "value_text v @ (array_tail vs @ r) = value_text w @ (array_tail ws' @ r')" using Cons.prems(3) ws by simp
  have "nullish v = nullish w \<and> array_tail vs @ r = array_tail ws' @ r'"
    by (rule Cons.prems(1)[OF _ _ delimited_tail delimited_tail e]) (use Cons.prems(2) ws in auto)
  moreover from this have "map nullish vs = map nullish ws' \<and> r = r'"
    by (intro Cons.IH) (use Cons.prems ws in auto)
  ultimately show ?case by (simp add: ws)
qed

lemma value_text_cancel:
  "plain_value v \<Longrightarrow> plain_value w \<Longrightarrow> delimited r \<Longrightarrow> delimited r' \<Longrightarrow> value_text v @ r = value_text w @ r'
   \<Longrightarrow> nullish v = nullish w \<and> r = r'"
proof (induction v arbitrary: w r r')
  case (JNum i)
  have "value_kind w = 5" using value_kind_eq[OF JNum(1,2,5)] by (simp add: value_kind_def)
  then obtain j where "w = JNum j" by (cases w) (auto simp: value_kind_def split: bool.splits)
  then show ?case using JNum show_int_cancel[of r r' i j] by (simp add: value_text_simps)
next
  case (JStr s)
  have "value_kind w = 3" using value_kind_eq[OF JStr(1,2,5)] by (simp add: value_kind_def)
  then obtain t where "w = JStr t" by (cases w) (auto simp: value_kind_def split: bool.splits)
  then show ?case using JStr json_string_cancel[of s r t r'] by (simp add: value_text_simps)
next
  case (JArr vs)
  have "value_kind w = 4" using value_kind_eq[OF JArr(2,3,6)] by (simp add: value_kind_def)
  then obtain ws where w: "w = JArr ws" by (cases w) (auto simp: value_kind_def split: bool.splits)
  have no: "value_text x @ y \<noteq> CHR '']'' # z" if "plain_value x" for x y z
  proof
    assume "value_text x @ y = CHR '']'' # z"
    then have "value_kind x = char_kind (CHR '']'')" using hd_value_text[OF that, of y] by simp
    then show False by (cases x) (auto simp: value_kind_def char_kind_def num_char_def split: bool.splits)
  qed
  show ?case
  proof (cases vs)
    case Nil
    then show ?thesis using JArr(3,6) w no[symmetric] no by (cases ws) (auto simp: value_text_array)
  next
    case (Cons x xs)
    then obtain y ys where ws: "ws = y # ys" using JArr(2,6) w no by (cases ws) (auto simp: value_text_array)
    have "array_tail vs @ r = array_tail ws @ r'" using JArr(6) Cons ws w by (simp add: value_text_array)
    then have "map nullish vs = map nullish ws \<and> r = r'"
      by (intro tail_cancel[OF JArr(1)]) (use JArr(2,3) w in auto)
    then show ?thesis by (simp add: w)
  qed
next
  case (JBool b)
  have "value_kind w = value_kind (JBool b)" using value_kind_eq[OF JBool(1,2,5)] by simp
  then have "w = JBool b" by (cases w; cases b) (auto simp: value_kind_def split: bool.splits)
  then show ?case using JBool by simp
next
  case JUndef
  have "value_kind w = 0" using value_kind_eq[OF JUndef(1,2,5)] by (simp add: value_kind_def)
  then show ?case using JUndef by (cases w) (auto simp: value_kind_def value_text_simps split: bool.splits)
next
  case JNull
  have "value_kind w = 0" using value_kind_eq[OF JNull(1,2,5)] by (simp add: value_kind_def)
  then show ?case using JNull by (cases w) (auto simp: value_kind_def value_text_simps split: bool.splits)
qed simp_all

lemma json_stringify_inject:
  assumes "plain_value v" "plain_value w" "v \<noteq> JUndef" "w \<noteq> JUndef" "json_stringify v = json_stringify w"
  shows "nullish v = nullish w"
  using value_text_cancel[OF assms(1,2), of "[]" "[]"] assms(5) by (simp add: value_text_def delimited_def)

subsection \<open>Cache keys\<close>

text \<open>Query values are primitive; a \<open>Headers\<close> object has each name once.\<close>

definition query_ok :: "client_request \<Rightarrow> bool" where
  "query_ok req \<longleftrightarrow> distinct_keys (cq_query req) \<and> list_all (\<lambda>(k, v). plain_value v) (cq_query req)"

lemma map_of_permuted:
  assumes "mset xs = mset ys" "distinct_keys xs"
  shows "map_of xs = map_of ys"
proof -
  have "set xs = set ys" using assms(1) by (rule mset_eq_setD)
  moreover have "distinct_keys ys" using assms mset_eq_imp_distinct_iff[of "map fst xs" "map fst ys"] by (metis mset_map)
  ultimately show ?thesis using assms(2) map_of_inject_set by blast
qed

lemma nullish_entries:
  "map nullish (map entry_value xs) = map nullish (map entry_value ys) \<longleftrightarrow>
   map (\<lambda>(k, v). (k, nullish v)) xs = map (\<lambda>(k, v). (k, nullish v)) ys"
proof (induction xs arbitrary: ys)
  case (Cons x xs)
  then show ?case by (cases x; cases ys) (auto simp: entry_value_def)
qed (simp add: eq_commute[of "[]"])

lemma map_of_nullish: "map_of (map (\<lambda>(k, v). (k, nullish v)) xs) k = map_option nullish (map_of xs k)"
  by (induction xs) auto

lemma entries_determined:
  assumes c: "\<And>xs. mset (collate xs) = mset xs" and d: "distinct_keys xs" "distinct_keys ys"
    and e: "map nullish (map entry_value (collate xs)) = map nullish (map entry_value (collate ys))"
  shows "map_option nullish (map_of xs k) = map_option nullish (map_of ys k)"
proof -
  have x: "map_of (collate zs) = map_of zs" if "distinct_keys zs" for zs :: "(string \<times> jsval) list"
    using map_of_permuted[OF c[of zs, symmetric] that] by simp
  have "map_of (map (\<lambda>(k, v). (k, nullish v)) (collate xs)) k = map_of (map (\<lambda>(k, v). (k, nullish v)) (collate ys)) k"
    using e unfolding nullish_entries by simp
  then show ?thesis unfolding map_of_nullish x[OF d(1)] x[OF d(2)] .
qed

lemma cache_key_determines:
  assumes c: "\<And>xs. mset (collate xs) = mset xs"
    and q: "query_ok req" "query_ok req'" and h: "distinct_keys h" "distinct_keys h'"
    and key: "create_cache_key collate req h = create_cache_key collate req' h'"
  shows "cq_method req = cq_method req' \<and> cq_path req = cq_path req'
     \<and> (\<forall>k. map_option nullish (map_of (cq_query req) k) = map_option nullish (map_of (cq_query req') k))
     \<and> map_of h = map_of h'"
proof -
  have plain: "plain_value (cache_key_value collate r g)" if "query_ok r" for r and g :: "(string, string) jsmap"
  proof -
    have "set (collate (cq_query r)) = set (cq_query r)"
      "set (collate (map (\<lambda>(k, v). (k, JStr v)) g)) = set (map (\<lambda>(k, v). (k, JStr v)) g)"
      by (rule mset_eq_setD[OF c])+
    then show ?thesis using that by (auto simp: cache_key_value_def entry_value_def query_ok_def list_all_iff)
  qed
  obtain s s' where s: "json_stringify (cache_key_value collate req h) = Some s" "json_stringify (cache_key_value collate req' h') = Some s'"
    by (simp add: cache_key_value_def)
  then have "s = s'" using key by (simp add: create_cache_key_def)
  then have "nullish (cache_key_value collate req h) = nullish (cache_key_value collate req' h')"
    by (intro json_stringify_inject plain q) (use s in \<open>auto simp: cache_key_value_def\<close>)
  then have e: "cq_method req = cq_method req'" "cq_path req = cq_path req'"
      "map nullish (map entry_value (collate (cq_query req))) = map nullish (map entry_value (collate (cq_query req')))"
      "map nullish (map entry_value (collate (map (\<lambda>(k, v). (k, JStr v)) h)))
        = map nullish (map entry_value (collate (map (\<lambda>(k, v). (k, JStr v)) h')))"
    by (simp_all add: cache_key_value_def)
  have m: "map_of (map (\<lambda>(k, v). (k, JStr v)) g) k = map_option JStr (map_of g k)" for g :: "(string, string) jsmap" and k
    by (induction g) auto
  have "map_of h k = map_of h' k" for k
  proof -
    have "map_option nullish (map_of (map (\<lambda>(k, v). (k, JStr v)) h) k) = map_option nullish (map_of (map (\<lambda>(k, v). (k, JStr v)) h') k)"
      by (rule entries_determined[OF c _ _ e(4)]) (use h in \<open>auto simp: comp_def case_prod_beta\<close>)
    then show ?thesis unfolding m by (cases "map_of h k"; cases "map_of h' k") (simp_all del: map_of_eq_Some_iff)
  qed
  then show ?thesis using e(1,2) entries_determined[OF c _ _ e(3)] q by (auto simp: query_ok_def)
qed

subsection \<open>Runs of a client\<close>

lemma client_run_snoc: "client_run collate (es @ [e]) c = client_step collate e (client_run collate es c)"
  by (simp add: client_run_def)

text \<open>Execution \<open>n\<close> was started in the run for this request and these headers.\<close>

definition started :: "((string \<times> jsval) list \<Rightarrow> (string \<times> jsval) list) \<Rightarrow> client_event list \<Rightarrow> base_client
    \<Rightarrow> nat \<Rightarrow> client_request \<Rightarrow> (string, string) jsmap \<Rightarrow> bool" where
  "started collate es c n req h \<longleftrightarrow> (\<exists>pre suf now. es = pre @ Begin now req h # suf
     \<and> fst (client_begin collate now req h (client_run collate pre c)) = StartedRequest n)"

lemma started_snoc: "started collate es c n req h \<Longrightarrow> started collate (es @ [e]) c n req h"
  unfolding started_def by (metis append.assoc append_Cons)

definition answered :: "client_event list \<Rightarrow> nat \<Rightarrow> client_response \<Rightarrow> bool" where
  "answered es n res \<longleftrightarrow> (\<exists>now. Finish now n (Inr res) \<in> set es)"

definition client_inv ::
    "((string \<times> jsval) list \<Rightarrow> (string \<times> jsval) list) \<Rightarrow> client_event list \<Rightarrow> base_client \<Rightarrow> base_client \<Rightarrow> bool" where
  "client_inv collate es c0 c \<longleftrightarrow>
     (\<forall>n p. map_of (bl_pending c) n = Some p \<longrightarrow> n < bl_next c \<and> started collate es c0 n (pq_request p) (pq_headers p)
        \<and> pq_key p = create_cache_key collate (pq_request p) (pq_headers p)
        \<and> (is_get (pq_request p) \<longrightarrow> map_of (bl_in_flight c) (pq_key p) = Some n))
     \<and> (\<forall>k res t. (k, res, t) \<in> set (lr_entries (bl_cache c)) \<longrightarrow> (\<exists>n req h. started collate es c0 n req h
        \<and> k = create_cache_key collate req h \<and> answered es n res))"

lemma lru_get_subset: "set (lr_entries (snd (lru_get now k c))) \<subseteq> set (lr_entries c)"
proof (cases "map_of (lr_entries c) k")
  case (Some ve)
  obtain v e where ve: "ve = (v, e)" by force
  have "(k, v, e) \<in> set (lr_entries c)" using Some ve by (blast dest: map_of_SomeD)
  then show ?thesis using Some ve by (auto simp: lru_get_def update_deleted set_delete)
qed (simp add: lru_get_def)

lemma lru_set_subset: "set (lr_entries (lru_set now k v ttl c)) \<subseteq>
    insert (k, v, now + (case ttl of Some t \<Rightarrow> t | None \<Rightarrow> lr_ttl c)) (set (lr_entries c))"
proof -
  let ?m = "if k \<in> set (keys (lr_entries c)) then AList.delete k (lr_entries c)
      else if lr_max c \<le> length (lr_entries c)
      then (case lr_entries c of [] \<Rightarrow> [] | (old, _) # _ \<Rightarrow> AList.delete old (lr_entries c)) else lr_entries c"
  have d: "set (AList.delete x m) \<subseteq> set m" for x and m :: "'a lru_map" by (auto simp: set_delete)
  have "set ?m \<subseteq> set (lr_entries c)" using d by (auto split: list.split)
  then have "set (AList.update k (v, now + (case ttl of Some t \<Rightarrow> t | None \<Rightarrow> lr_ttl c)) ?m)
      \<subseteq> insert (k, v, now + (case ttl of Some t \<Rightarrow> t | None \<Rightarrow> lr_ttl c)) (set (lr_entries c))"
    using set_update_subset[of k "(v, now + (case ttl of Some t \<Rightarrow> t | None \<Rightarrow> lr_ttl c))" ?m] by blast
  then show ?thesis by (simp add: lru_set_def Let_def)
qed

lemma lru_get_hit:
  assumes "fst (lru_get now k c) = Some v"
  shows "\<exists>e. (k, v, e) \<in> set (lr_entries c)"
proof -
  obtain e where "map_of (lr_entries c) k = Some (v, e)"
    using assms by (auto simp: lru_get_def simp del: map_of_eq_Some_iff split: option.splits if_splits)
  then show ?thesis by (blast dest: map_of_SomeD)
qed

lemma client_begin_cases:
  obtains (other) out c1 where "client_begin collate now req h c = (out, c1)" "\<forall>n. out \<noteq> StartedRequest n"
      "bl_pending c1 = bl_pending c" "bl_in_flight c1 = bl_in_flight c" "bl_next c1 = bl_next c"
      "set (lr_entries (bl_cache c1)) \<subseteq> set (lr_entries (bl_cache c))"
    | (start) c1 where "client_begin collate now req h c = (StartedRequest (bl_next c), c1)"
      "bl_next c1 = Suc (bl_next c)" "set (lr_entries (bl_cache c1)) \<subseteq> set (lr_entries (bl_cache c))"
      "bl_pending c1 = AList.update (bl_next c) \<lparr> pq_request = req, pq_headers = h, pq_key = create_cache_key collate req h \<rparr> (bl_pending c)"
      "bl_in_flight c1 = (if is_get req then AList.update (create_cache_key collate req h) (bl_next c) (bl_in_flight c) else bl_in_flight c)"
      "is_get req \<Longrightarrow> map_of (bl_in_flight c) (create_cache_key collate req h) = None"
proof -
  let ?k = "create_cache_key collate req h"
  obtain hit cache where g: "(if cf_enable_cache (bl_config c) \<and> is_get req then lru_get now ?k (bl_cache c) else (None, bl_cache c))
      = (hit, cache)" by force
  then have sub: "set (lr_entries cache) \<subseteq> set (lr_entries (bl_cache c))"
    using lru_get_subset[of now ?k "bl_cache c"] by (auto split: if_splits)
  obtain r b where b: "breaker_enter now (bl_breaker c) = (r, b)" by force
  show thesis
  proof (cases "\<exists>n. fst (client_begin collate now req h c) = StartedRequest n")
    case True
    then show thesis using sub g b
      by (intro start[of "snd (client_begin collate now req h c)"])
        (auto simp: client_begin_def Let_def split: option.splits if_splits)
  next
    case False
    then show thesis using sub g b
      by (intro other[of "fst (client_begin collate now req h c)" "snd (client_begin collate now req h c)"])
        (auto simp: client_begin_def Let_def split: option.splits if_splits)
  qed
qed

lemma answered_snoc: "answered es n res \<Longrightarrow> answered (es @ [e]) n res"
  by (auto simp: answered_def)

lemma client_inv_mono:
  assumes "client_inv collate es c0 c" "bl_pending c1 = bl_pending c" "bl_in_flight c1 = bl_in_flight c" "bl_next c1 = bl_next c"
    "set (lr_entries (bl_cache c1)) \<subseteq> set (lr_entries (bl_cache c))"
  shows "client_inv collate (es @ [e]) c0 c1"
  unfolding client_inv_def assms(2-4)
proof (intro conjI allI impI)
  fix n p assume "map_of (bl_pending c) n = Some p"
  then show "n < bl_next c" "started collate (es @ [e]) c0 n (pq_request p) (pq_headers p)"
      "pq_key p = create_cache_key collate (pq_request p) (pq_headers p)"
      "is_get (pq_request p) \<Longrightarrow> map_of (bl_in_flight c) (pq_key p) = Some n"
    using assms(1) started_snoc unfolding client_inv_def by blast+
next
  fix k res t assume "(k, res, t) \<in> set (lr_entries (bl_cache c1))"
  then show "\<exists>n req h. started collate (es @ [e]) c0 n req h \<and> k = create_cache_key collate req h \<and> answered (es @ [e]) n res"
    using assms(1,5) started_snoc answered_snoc unfolding client_inv_def by (meson subsetD)
qed

lemma client_inv_begin:
  assumes inv: "client_inv collate es c0 c" and c: "c = client_run collate es c0"
  shows "client_inv collate (es @ [Begin now req h]) c0 (snd (client_begin collate now req h c))"
proof (cases rule: client_begin_cases[of collate now req h c])
  case (other out c1)
  then show ?thesis using client_inv_mono[OF inv, of c1] by simp
next
  case (start c1)
  let ?es = "es @ [Begin now req h]" and ?k = "create_cache_key collate req h"
  have new: "started collate ?es c0 (bl_next c) req h"
    unfolding started_def using start(1) c by (intro exI[of _ es] exI[of _ "[]"] exI[of _ now]) simp
  have c1: "client_inv collate ?es c0 c1"
    unfolding client_inv_def
  proof (rule conjI; intro allI impI)
    fix n p assume p: "map_of (bl_pending c1) n = Some p"
    show "n < bl_next c1 \<and> started collate ?es c0 n (pq_request p) (pq_headers p)
        \<and> pq_key p = create_cache_key collate (pq_request p) (pq_headers p)
        \<and> (is_get (pq_request p) \<longrightarrow> map_of (bl_in_flight c1) (pq_key p) = Some n)"
    proof (cases "n = bl_next c")
      case True
      then have "p = \<lparr> pq_request = req, pq_headers = h, pq_key = ?k \<rparr>" using p by (simp add: start(4))
      then show ?thesis using True new start(2,5) by simp
    next
      case False
      then have "map_of (bl_pending c) n = Some p" using p by (simp add: start(4) del: map_of_eq_Some_iff)
      then have o: "n < bl_next c" "started collate es c0 n (pq_request p) (pq_headers p)"
          "pq_key p = create_cache_key collate (pq_request p) (pq_headers p)"
          "is_get (pq_request p) \<Longrightarrow> map_of (bl_in_flight c) (pq_key p) = Some n"
        using inv unfolding client_inv_def by blast+
      have "map_of (bl_in_flight c1) (pq_key p) = Some n" if "is_get (pq_request p)"
        using o(4)[OF that] start(6) unfolding start(5) by (cases "pq_key p = ?k") (auto simp del: map_of_eq_Some_iff)
      then show ?thesis using o start(2) started_snoc by auto
    qed
  next
    fix k res t assume "(k, res, t) \<in> set (lr_entries (bl_cache c1))"
    then show "\<exists>n req' h'. started collate ?es c0 n req' h' \<and> k = create_cache_key collate req' h' \<and> answered ?es n res"
      using inv start(3) started_snoc answered_snoc unfolding client_inv_def by (meson subsetD)
  qed
  then show ?thesis using start(1) by simp
qed

lemma client_inv_finish:
  assumes inv: "client_inv collate es c0 c"
  shows "client_inv collate (es @ [Finish now n r]) c0 (client_finish now n r c)"
proof (cases "map_of (bl_pending c) n")
  case None
  then show ?thesis using client_inv_mono[OF inv] by (simp add: client_finish_def)
next
  case (Some p)
  let ?es = "es @ [Finish now n r]" and ?c1 = "client_finish now n r c"
  have p: "started collate es c0 n (pq_request p) (pq_headers p)" "pq_key p = create_cache_key collate (pq_request p) (pq_headers p)"
      "is_get (pq_request p) \<Longrightarrow> map_of (bl_in_flight c) (pq_key p) = Some n"
    using inv Some unfolding client_inv_def by blast+
  have pend: "bl_pending ?c1 = AList.delete n (bl_pending c)" "bl_next ?c1 = bl_next c"
      "bl_in_flight ?c1 = (if is_get (pq_request p) then AList.delete (pq_key p) (bl_in_flight c) else bl_in_flight c)"
    using Some by (simp_all add: client_finish_def)
  show ?thesis
    unfolding client_inv_def
  proof (rule conjI; intro allI impI)
    fix m q assume q: "map_of (bl_pending ?c1) m = Some q"
    then have m: "m \<noteq> n" "map_of (bl_pending c) m = Some q"
      unfolding pend(1) by (cases "m = n"; simp del: map_of_eq_Some_iff)+
    then have o: "m < bl_next c" "started collate es c0 m (pq_request q) (pq_headers q)"
        "pq_key q = create_cache_key collate (pq_request q) (pq_headers q)"
        "is_get (pq_request q) \<Longrightarrow> map_of (bl_in_flight c) (pq_key q) = Some m"
      using inv unfolding client_inv_def by blast+
    have "map_of (bl_in_flight ?c1) (pq_key q) = Some m" if "is_get (pq_request q)"
      using o(4)[OF that] p(3) m(1) unfolding pend(3)
      by (cases "pq_key q = pq_key p") (auto simp del: map_of_eq_Some_iff)
    then show "m < bl_next ?c1 \<and> started collate ?es c0 m (pq_request q) (pq_headers q)
        \<and> pq_key q = create_cache_key collate (pq_request q) (pq_headers q)
        \<and> (is_get (pq_request q) \<longrightarrow> map_of (bl_in_flight ?c1) (pq_key q) = Some m)"
      using o pend(2) started_snoc by auto
  next
    fix k res t assume e: "(k, res, t) \<in> set (lr_entries (bl_cache ?c1))"
    have "(k, res, t) \<in> set (lr_entries (bl_cache c)) \<or> k = pq_key p \<and> r = Inr res"
      using e Some lru_set_subset[of now "pq_key p" _ None "bl_cache c"]
      by (auto simp: client_finish_def split: sum.splits if_splits dest!: subsetD[OF lru_set_subset])
    then show "\<exists>n req h. started collate ?es c0 n req h \<and> k = create_cache_key collate req h \<and> answered ?es n res"
    proof
      assume "(k, res, t) \<in> set (lr_entries (bl_cache c))"
      then show ?thesis using inv started_snoc answered_snoc unfolding client_inv_def by meson
    next
      assume kr: "k = pq_key p \<and> r = Inr res"
      have "answered ?es n res" using kr by (auto simp: answered_def)
      then show ?thesis using kr p started_snoc by blast
    qed
  qed
qed

lemma client_inv_run: "client_inv collate es (client_new now cfg) (client_run collate es (client_new now cfg))"
proof (induction es rule: rev_induct)
  case Nil
  show ?case by (simp add: client_inv_def client_run_def client_new_def lru_new_def)
next
  case (snoc e es)
  then show ?case
    unfolding client_run_snoc using client_inv_begin[OF snoc refl] client_inv_finish[OF snoc] by (cases e) simp_all
qed

text \<open>C17. A cached answer never crosses a boundary of authorization, tenant or locale: whatever requests a client
  made, when one is answered from the cache, the answer is the response to an earlier request with the
  same method, path and query and the very same headers, the \<open>Authorization\<close> header included.\<close>

theorem client_cache_no_leak:
  assumes c: "\<And>xs. mset (collate xs) = mset xs"
    and run: "fst (client_begin collate t req h (client_run collate es (client_new now cfg))) = FromCache d"
    and ok: "query_ok req" "distinct_keys h" "\<forall>t' req' h'. Begin t' req' h' \<in> set es \<longrightarrow> query_ok req' \<and> distinct_keys h'"
  shows "\<exists>n req' h' res. started collate es (client_new now cfg) n req' h' \<and> answered es n res \<and> d = cs_data res
     \<and> cq_method req' = cq_method req \<and> cq_path req' = cq_path req \<and> map_of h' = map_of h
     \<and> (\<forall>k. map_option nullish (map_of (cq_query req') k) = map_option nullish (map_of (cq_query req) k))"
proof -
  let ?c = "client_run collate es (client_new now cfg)" and ?k = "create_cache_key collate req h"
  obtain res where res: "fst (lru_get t ?k (bl_cache ?c)) = Some res" "d = cs_data res"
    using run by (auto simp: client_begin_def Let_def split: option.splits prod.splits if_splits)
  obtain e where "(?k, res, e) \<in> set (lr_entries (bl_cache ?c))" using lru_get_hit[OF res(1)] ..
  then obtain n req' h' where n: "started collate es (client_new now cfg) n req' h'" "?k = create_cache_key collate req' h'"
      "answered es n res"
    using client_inv_run[of collate es now cfg] unfolding client_inv_def by blast
  obtain t' where "Begin t' req' h' \<in> set es" using n(1) unfolding started_def by (metis in_set_conv_decomp)
  then have "query_ok req' \<and> distinct_keys h'" using ok(3) by blast
  then have "cq_method req = cq_method req' \<and> cq_path req = cq_path req'
     \<and> (\<forall>k. map_option nullish (map_of (cq_query req) k) = map_option nullish (map_of (cq_query req') k)) \<and> map_of h = map_of h'"
    using cache_key_determines[OF c ok(1) _ ok(2) _ n(2)] by blast
  then show ?thesis using n(1,3) res(2) by auto
qed

text \<open>Of several identical GET requests at most one is executed at a time: two executions in flight for GET
  requests with the same key are one.\<close>

theorem client_single_flight:
  assumes "c = client_run collate es (client_new now cfg)"
    and "map_of (bl_pending c) m = Some p" "map_of (bl_pending c) n = Some q"
    and "is_get (pq_request p)" "is_get (pq_request q)" "pq_key p = pq_key q"
  shows "m = n"
proof -
  have "client_inv collate es (client_new now cfg) c" unfolding assms(1) by (rule client_inv_run)
  then have "map_of (bl_in_flight c) (pq_key p) = Some m" "map_of (bl_in_flight c) (pq_key q) = Some n"
    using assms(2-5) unfolding client_inv_def by blast+
  then show ?thesis using assms(6) by (simp del: map_of_eq_Some_iff)
qed

subsection \<open>Witnesses\<close>

definition sdk_demo_config :: client_config where
  "sdk_demo_config = \<lparr> cf_base_url = ''https://x'', cf_headers = [], cf_timeout = None,
     cf_retry = \<lparr> rp_max = Absent, rp_base = Absent, rp_max_delay = Absent, rp_codes = Absent \<rparr>, cf_breaker = None,
     cf_enable_cache = True, cf_cache_ttl = None \<rparr>"

definition sdk_demo_get :: client_request where
  "sdk_demo_get = \<lparr> cq_method = ''GET'', cq_path = ''/a'', cq_query = [(''q'', JNum 1)], cq_body = JUndef, cq_headers = [] \<rparr>"

definition sdk_demo_events :: "client_event list" where
  "sdk_demo_events = [Begin 1 sdk_demo_get [(''authorization'', ''A'')],
     Finish 2 0 (Inr \<lparr> cs_data = JStr ''secret'', cs_status = 200, cs_headers = [], cs_request = sdk_demo_get \<rparr>)]"

lemma sdk_demo_events_ok: "Begin t req h \<in> set sdk_demo_events \<Longrightarrow> query_ok req \<and> distinct_keys h"
  by (auto simp: sdk_demo_events_def sdk_demo_get_def query_ok_def)

theorem client_cache_no_leak_witness:
  "fst (client_begin id 3 sdk_demo_get [(''authorization'', ''A'')] (client_run id sdk_demo_events (client_new 0 sdk_demo_config))) = FromCache (JStr ''secret'')
   \<and> (\<exists>n req' h' res. started id sdk_demo_events (client_new 0 sdk_demo_config) n req' h' \<and> answered sdk_demo_events n res
        \<and> JStr ''secret'' = cs_data res \<and> map_of h' = map_of [(''authorization'', ''A'')])"
proof -
  have f: "fst (client_begin id 3 sdk_demo_get [(''authorization'', ''A'')] (client_run id sdk_demo_events (client_new 0 sdk_demo_config))) = FromCache (JStr ''secret'')"
    by code_simp
  have q: "query_ok sdk_demo_get" "distinct_keys [(''authorization'', ''A'')]" by code_simp+
  have c: "mset (id xs) = mset xs" for xs :: "(string \<times> jsval) list" by simp
  have ev: "\<forall>t' req' h'. Begin t' req' h' \<in> set sdk_demo_events \<longrightarrow> query_ok req' \<and> distinct_keys h'"
    using sdk_demo_events_ok by blast
  obtain n req' h' res where "started id sdk_demo_events (client_new 0 sdk_demo_config) n req' h'" "answered sdk_demo_events n res"
      "JStr ''secret'' = cs_data res" "map_of h' = map_of [(''authorization'', ''A'')]"
    using client_cache_no_leak[OF c f q ev] by blast
  then show ?thesis using f by blast
qed

theorem client_single_flight_witness:
  "\<exists>m n p q. map_of (bl_pending (client_run id [Begin 1 sdk_demo_get [], Begin 2 sdk_demo_get []] (client_new 0 sdk_demo_config))) m = Some p
     \<and> map_of (bl_pending (client_run id [Begin 1 sdk_demo_get [], Begin 2 sdk_demo_get []] (client_new 0 sdk_demo_config))) n = Some q
     \<and> is_get (pq_request p) \<and> is_get (pq_request q) \<and> pq_key p = pq_key q \<and> m = n"
proof -
  let ?c = "client_run id [Begin 1 sdk_demo_get [], Begin 2 sdk_demo_get []] (client_new 0 sdk_demo_config)"
  let ?p = "\<lparr> pq_request = sdk_demo_get, pq_headers = [], pq_key = create_cache_key id sdk_demo_get [] \<rparr>"
  have m: "map_of (bl_pending ?c) 0 = Some ?p" by code_simp
  have g: "is_get (pq_request ?p)" by code_simp
  have "(0 :: nat) = 0" by (rule client_single_flight[OF refl m m g g refl])
  then show ?thesis using m g by blast
qed

end
