(* ===== verification/Sdk_Stream.thy ===== *)
theory Sdk_Stream
  imports Sdk_Core
begin

text \<open>
  The streaming clients of \<open>packages/sdk-runtime/src\<close>: the server-sent events client (\<open>sse.ts\<close>) and the
  WebSocket client (\<open>websocket.ts\<close>). The runtime's callbacks (a fetch that settles, a chunk, a timer, a
  socket's events) are steps. \<open>TextDecoder\<close> is left out: a chunk is the text it decodes to.
\<close>

subsection \<open>Reading an event stream\<close>

type_synonym sse_event = "string \<times> string"

text \<open>What the loop over the lines of a chunk keeps: \<open>currentEvent\<close> and \<open>currentData\<close>.\<close>

definition sse_start :: "string \<times> string" where
  "sse_start = (''message'', [])"

definition sse_field :: "string \<Rightarrow> string \<times> string \<Rightarrow> string \<times> string" where
  "sse_field t st =
     (if starts_with t '':'' \<or> CHR '':'' \<notin> set t then st
      else
        let key = trim (takeWhile (\<lambda>c. c \<noteq> CHR '':'') t);
            val = trim (tl (dropWhile (\<lambda>c. c \<noteq> CHR '':'') t))
        in if key = ''event'' then (val, snd st)
           else if key = ''data'' then (fst st, snd st @ val @ nl) else st)"

definition sse_line :: "string \<Rightarrow> string \<times> string \<Rightarrow> sse_event list \<times> string \<times> string" where
  "sse_line line st =
     (let t = trim line
      in if t = [] then (if snd st = [] then ([], st) else ([(fst st, trim (snd st))], sse_start))
         else ([], sse_field t st))"

fun sse_lines :: "string list \<Rightarrow> string \<times> string \<Rightarrow> sse_event list \<times> string \<times> string" where
  "sse_lines [] st = ([], st)"
| "sse_lines (l # ls) st =
     (case sse_line l st of (es, st') \<Rightarrow> (case sse_lines ls st' of (es', st'') \<Rightarrow> (es @ es', st'')))"

text \<open>One chunk: the complete lines are read, from a fresh state, and the rest is kept.\<close>

definition sse_chunk :: "string \<Rightarrow> string \<Rightarrow> sse_event list \<times> string" where
  "sse_chunk buffer chunk =
     (let lines = split_on (CHR 0x0A) (buffer @ chunk)
      in (fst (sse_lines (butlast lines) sse_start), last lines))"

fun sse_feed :: "string list \<Rightarrow> string \<Rightarrow> sse_event list \<times> string" where
  "sse_feed [] buffer = ([], buffer)"
| "sse_feed (c # cs) buffer =
     (case sse_chunk buffer c of (es, b) \<Rightarrow> (case sse_feed cs b of (es', b') \<Rightarrow> (es @ es', b')))"

subsection \<open>The connection of an event stream\<close>

text \<open>Every call of \<open>startStream\<close> is a loop; \<open>Fetching n\<close> and \<open>Reading n\<close> wait under the abort controller \<open>n\<close>.\<close>

datatype sse_loop = Fetching nat | Reading nat string | Sleeping | Ended

record sse_client =
  sl_active :: bool
  sl_retries :: nat
  sl_controller :: "nat option"
  sl_aborted :: "nat list"
  sl_next :: nat
  sl_loops :: "sse_loop list"
  sl_events :: "sse_event list"
  sl_errors :: nat

record sse_options =
  sp_max_retries :: "nat option"
  sp_base_delay :: "nat option"

definition sse_new :: sse_client where
  "sse_new = \<lparr> sl_active = False, sl_retries = 0, sl_controller = None, sl_aborted = [], sl_next = 0,
     sl_loops = [], sl_events = [], sl_errors = 0 \<rparr>"

definition sse_max :: "sse_options \<Rightarrow> nat" where
  "sse_max opts = (case sp_max_retries opts of Some n \<Rightarrow> n | None \<Rightarrow> 5)"

definition sse_delay :: "sse_options \<Rightarrow> nat \<Rightarrow> nat" where
  "sse_delay opts retries = (case sp_base_delay opts of Some n \<Rightarrow> n | None \<Rightarrow> 1000) * 2 ^ (retries - 1)"

text \<open>The head of the loop: with the client active, a new controller and a fetch.\<close>

definition loop_head :: "sse_client \<Rightarrow> sse_loop \<times> sse_client" where
  "loop_head c =
     (if sl_active c then
        (Fetching (sl_next c), c\<lparr>sl_controller := Some (sl_next c), sl_next := Suc (sl_next c)\<rparr>)
      else (Ended, c))"

definition set_loop :: "nat \<Rightarrow> sse_loop \<times> sse_client \<Rightarrow> sse_client" where
  "set_loop i lc = (snd lc)\<lparr>sl_loops := (sl_loops (snd lc))[i := fst lc]\<rparr>"

definition sse_connect :: "sse_client \<Rightarrow> sse_client" where
  "sse_connect c =
     (if sl_active c then c
      else case loop_head (c\<lparr>sl_active := True, sl_retries := 0\<rparr>) of
             (l, c') \<Rightarrow> c'\<lparr>sl_loops := sl_loops c' @ [l]\<rparr>)"

definition sse_disconnect :: "sse_client \<Rightarrow> sse_client" where
  "sse_disconnect c =
     (case sl_controller c of
        None \<Rightarrow> c\<lparr>sl_active := False\<rparr>
      | Some n \<Rightarrow> c\<lparr>sl_active := False, sl_controller := None, sl_aborted := n # sl_aborted c\<rparr>)"

text \<open>The \<open>catch\<close> clause.\<close>

definition sse_failed :: "sse_options \<Rightarrow> sse_client \<Rightarrow> sse_loop \<times> sse_client" where
  "sse_failed opts c =
     (let c' = c\<lparr>sl_retries := Suc (sl_retries c), sl_errors := Suc (sl_errors c)\<rparr>
      in if sse_max opts < sl_retries c' then (Ended, c'\<lparr>sl_active := False, sl_errors := Suc (sl_errors c')\<rparr>)
         else (Sleeping, c'))"

datatype fetch_outcome = FetchOk | FetchNoBody | FetchFailed
datatype read_outcome = Chunk string | StreamDone | StreamFailed

definition sse_fetched :: "sse_options \<Rightarrow> nat \<Rightarrow> fetch_outcome \<Rightarrow> sse_client \<Rightarrow> sse_loop \<times> sse_client" where
  "sse_fetched opts n r c =
     (if n \<in> set (sl_aborted c) then (Ended, c)
      else case r of
             FetchFailed \<Rightarrow> sse_failed opts c
           | FetchNoBody \<Rightarrow> sse_failed opts (c\<lparr>sl_retries := 0\<rparr>)
           | FetchOk \<Rightarrow> (if sl_active c then (Reading n [], c\<lparr>sl_retries := 0\<rparr>) else loop_head (c\<lparr>sl_retries := 0\<rparr>)))"

definition sse_read :: "sse_options \<Rightarrow> nat \<Rightarrow> string \<Rightarrow> read_outcome \<Rightarrow> sse_client \<Rightarrow> sse_loop \<times> sse_client" where
  "sse_read opts n buffer r c =
     (if n \<in> set (sl_aborted c) then (Ended, c)
      else case r of
             StreamFailed \<Rightarrow> sse_failed opts c
           | StreamDone \<Rightarrow> loop_head c
           | Chunk s \<Rightarrow>
               (case sse_chunk buffer s of (es, b) \<Rightarrow>
                  (let c' = c\<lparr>sl_events := sl_events c @ es\<rparr>
                   in if sl_active c' then (Reading n b, c') else loop_head c')))"

datatype sse_input = SseConnect | SseDisconnect | SseFetched nat fetch_outcome | SseRead nat read_outcome | SseWake nat

text \<open>One callback. An input for a loop that does not wait for it changes nothing.\<close>

definition sse_step :: "sse_options \<Rightarrow> sse_input \<Rightarrow> sse_client \<Rightarrow> sse_client" where
  "sse_step opts i c =
     (case i of
        SseConnect \<Rightarrow> sse_connect c
      | SseDisconnect \<Rightarrow> sse_disconnect c
      | SseFetched k r \<Rightarrow>
          (if k < length (sl_loops c)
           then (case sl_loops c ! k of Fetching n \<Rightarrow> set_loop k (sse_fetched opts n r c) | _ \<Rightarrow> c) else c)
      | SseRead k r \<Rightarrow>
          (if k < length (sl_loops c)
           then (case sl_loops c ! k of Reading n b \<Rightarrow> set_loop k (sse_read opts n b r c) | _ \<Rightarrow> c) else c)
      | SseWake k \<Rightarrow>
          (if k < length (sl_loops c)
           then (case sl_loops c ! k of Sleeping \<Rightarrow> set_loop k (loop_head c) | _ \<Rightarrow> c) else c))"

definition sse_run :: "sse_options \<Rightarrow> sse_input list \<Rightarrow> sse_client \<Rightarrow> sse_client" where
  "sse_run opts ins c = fold (sse_step opts) ins c"

subsection \<open>WebSocket client\<close>

datatype sock_state = Connecting | Opened | Closing | Shut

record ws_client =
  wc_active :: bool
  wc_retries :: nat
  wc_ws :: "nat option"
  wc_heartbeat :: bool
  wc_timers :: nat
  wc_sockets :: "sock_state list"
  wc_sent :: "(nat \<times> string) list"
  wc_opened :: nat
  wc_closed :: nat
  wc_errors :: nat

definition ws_new :: ws_client where
  "ws_new = \<lparr> wc_active = False, wc_retries = 0, wc_ws = None, wc_heartbeat = False, wc_timers = 0, wc_sockets = [],
     wc_sent = [], wc_opened = 0, wc_closed = 0, wc_errors = 0 \<rparr>"

definition ws_reconnect :: "nat \<Rightarrow> ws_client \<Rightarrow> ws_client" where
  "ws_reconnect max_retries c =
     (if \<not> wc_active c then c
      else
        let c' = c\<lparr>wc_retries := Suc (wc_retries c)\<rparr>
        in if max_retries < wc_retries c' then c'\<lparr>wc_active := False, wc_errors := Suc (wc_errors c')\<rparr>
           else c'\<lparr>wc_timers := Suc (wc_timers c')\<rparr>)"

text \<open>How an attempt to open a socket goes: there is one, its constructor throws inside the \<open>try\<close>, or the
  runtime has no \<open>WebSocket\<close> and \<open>require('ws')\<close>, which stands before the \<open>try\<close>, throws out of
  \<open>establishConnection\<close> and of its caller.\<close>

datatype ws_attempt = SocketMade | ConstructorThrows | NoSocketClass

definition ws_establish :: "nat \<Rightarrow> ws_attempt \<Rightarrow> ws_client \<Rightarrow> ws_client" where
  "ws_establish max_retries attempt c =
     (if \<not> wc_active c then c
      else case attempt of
          NoSocketClass \<Rightarrow> c
        | ConstructorThrows \<Rightarrow> ws_reconnect max_retries (c\<lparr>wc_errors := Suc (wc_errors c)\<rparr>)
        | SocketMade \<Rightarrow> c\<lparr>wc_ws := Some (length (wc_sockets c)), wc_sockets := wc_sockets c @ [Connecting]\<rparr>)"

definition ws_connect :: "nat \<Rightarrow> ws_attempt \<Rightarrow> ws_client \<Rightarrow> ws_client" where
  "ws_connect max_retries attempt c =
     (if wc_active c then c else ws_establish max_retries attempt (c\<lparr>wc_active := True, wc_retries := 0\<rparr>))"

text \<open>Closing a socket; its \<open>close\<close> event comes later.\<close>

definition close_socket :: "nat \<Rightarrow> ws_client \<Rightarrow> ws_client" where
  "close_socket i c =
     (if i < length (wc_sockets c) \<and> wc_sockets c ! i \<noteq> Shut then c\<lparr>wc_sockets := (wc_sockets c)[i := Closing]\<rparr> else c)"

definition ws_disconnect :: "ws_client \<Rightarrow> ws_client" where
  "ws_disconnect c =
     (let c' = c\<lparr>wc_active := False, wc_heartbeat := False\<rparr>
      in case wc_ws c' of None \<Rightarrow> c' | Some i \<Rightarrow> (close_socket i c')\<lparr>wc_ws := None\<rparr>)"

definition ws_can_send :: "ws_client \<Rightarrow> bool" where
  "ws_can_send c = (case wc_ws c of Some i \<Rightarrow> i < length (wc_sockets c) \<and> wc_sockets c ! i = Opened | None \<Rightarrow> False)"

definition ws_send :: "string \<Rightarrow> ws_client \<Rightarrow> client_error option \<times> ws_client" where
  "ws_send data c =
     (case (wc_ws c, ws_can_send c) of
        (Some i, True) \<Rightarrow> (None, c\<lparr>wc_sent := wc_sent c @ [(i, data)]\<rparr>)
      | _ \<Rightarrow> (Some (js_error_named ''Error'' ''WebSocket is not open''), c))"

definition ws_opened :: "nat \<Rightarrow> ws_client \<Rightarrow> ws_client" where
  "ws_opened i c = c\<lparr>wc_sockets := (wc_sockets c)[i := Opened], wc_retries := 0, wc_heartbeat := True,
     wc_opened := Suc (wc_opened c)\<rparr>"

definition ws_closed :: "nat \<Rightarrow> nat \<Rightarrow> ws_client \<Rightarrow> ws_client" where
  "ws_closed max_retries i c =
     ws_reconnect max_retries (c\<lparr>wc_sockets := (wc_sockets c)[i := Shut], wc_heartbeat := False, wc_closed := Suc (wc_closed c)\<rparr>)"

definition ws_beat :: "ws_client \<Rightarrow> ws_client" where
  "ws_beat c =
     (case ws_send ''ping'' c of
        (None, c') \<Rightarrow> c'
      | (Some _, c') \<Rightarrow> (case wc_ws c' of Some i \<Rightarrow> close_socket i c' | None \<Rightarrow> c'))"

datatype ws_event =
    WsConnect ws_attempt | WsDisconnect | WsSend string | WsOpened nat | WsClosed nat | WsError nat | WsTimer ws_attempt | WsBeat

text \<open>The steps: calls of the user at any time, a socket's events while it lives, a timer that is pending,
  the heartbeat while it runs.\<close>

inductive ws_step :: "nat \<Rightarrow> ws_client \<Rightarrow> ws_event \<Rightarrow> ws_client \<Rightarrow> bool" for max_retries where
  step_connect: "ws_step max_retries c (WsConnect attempt) (ws_connect max_retries attempt c)"
| step_disconnect: "ws_step max_retries c WsDisconnect (ws_disconnect c)"
| step_send: "ws_step max_retries c (WsSend data) (snd (ws_send data c))"
| step_opened: "i < length (wc_sockets c) \<Longrightarrow> wc_sockets c ! i = Connecting \<Longrightarrow> ws_step max_retries c (WsOpened i) (ws_opened i c)"
| step_closed: "i < length (wc_sockets c) \<Longrightarrow> wc_sockets c ! i \<noteq> Shut \<Longrightarrow>
    ws_step max_retries c (WsClosed i) (ws_closed max_retries i c)"
| step_error: "i < length (wc_sockets c) \<Longrightarrow> wc_sockets c ! i \<noteq> Shut \<Longrightarrow>
    ws_step max_retries c (WsError i) (c\<lparr>wc_errors := Suc (wc_errors c)\<rparr>)"
| step_timer: "0 < wc_timers c \<Longrightarrow>
    ws_step max_retries c (WsTimer attempt) (ws_establish max_retries attempt (c\<lparr>wc_timers := wc_timers c - 1\<rparr>))"
| step_beat: "wc_heartbeat c \<Longrightarrow> ws_step max_retries c WsBeat (ws_beat c)"

inductive ws_run :: "nat \<Rightarrow> ws_client \<Rightarrow> ws_event list \<Rightarrow> ws_client \<Rightarrow> bool" for max_retries where
  run_nil: "ws_run max_retries c [] c"
| run_cons: "ws_step max_retries c e c' \<Longrightarrow> ws_run max_retries c' es c'' \<Longrightarrow> ws_run max_retries c (e # es) c''"

end
