(* ===== verification/Sdk_Stream_Props.thy ===== *)
theory Sdk_Stream_Props
  imports Sdk_Stream
begin

text \<open>
  The event stream client reads what the server's \<open>sseSend\<close> prints, as long as no event is cut between two
  chunks; what is lost when one is; the number of connections a WebSocket client keeps.
\<close>

subsection \<open>Chunks\<close>

lemma split_on_join:
  "split_on c (p @ x) = butlast (split_on c p) @ split_on c (last (split_on c p) @ x)"
proof (induction p)
  case (Cons a p)
  show ?case
  proof (cases "a = c")
    case False
    obtain l ls where s: "split_on c p = l # ls" by (cases "split_on c p") auto
    have "split_on c (a # l @ x) = (a # hd (split_on c (l @ x))) # tl (split_on c (l @ x))"
      using False by (cases "split_on c (l @ x)") (auto split: list.split)
    then show ?thesis using Cons False s
      by (cases ls; cases "split_on c (l @ x)"; cases "split_on c (last ls @ x)") (auto split: list.split)
  qed (use Cons in auto)
qed simp

lemma sse_lines_append:
  "sse_lines (a @ b) st = (fst (sse_lines a st) @ fst (sse_lines b (snd (sse_lines a st))), snd (sse_lines b (snd (sse_lines a st))))"
  by (induction a arbitrary: st) (auto simp: case_prod_beta)

text \<open>Nothing of an event is pending after the complete lines of a text.\<close>

definition between_events :: "string \<Rightarrow> bool" where
  "between_events s \<longleftrightarrow> snd (sse_lines (butlast (split_on (CHR 0x0A) s)) sse_start) = sse_start"

lemma sse_chunk_append:
  assumes "between_events p"
  shows "sse_chunk [] (p @ x) =
    (fst (sse_chunk [] p) @ fst (sse_chunk (snd (sse_chunk [] p)) x), snd (sse_chunk (snd (sse_chunk [] p)) x))"
proof -
  let ?s = "split_on (CHR 0x0A)"
  have "?s (p @ x) = butlast (?s p) @ ?s (last (?s p) @ x)" by (rule split_on_join)
  then have "butlast (?s (p @ x)) = butlast (?s p) @ butlast (?s (last (?s p) @ x))"
    "last (?s (p @ x)) = last (?s (last (?s p) @ x))"
    by (simp_all add: butlast_append)
  then show ?thesis using assms
    by (simp add: sse_chunk_def Let_def sse_lines_append between_events_def)
qed

lemma sse_feed_from:
  assumes "\<forall>i \<le> length cs. between_events (p @ concat (take i cs))"
  shows "sse_chunk [] (p @ concat cs) =
    (fst (sse_chunk [] p) @ fst (sse_feed cs (snd (sse_chunk [] p))), snd (sse_feed cs (snd (sse_chunk [] p))))"
  using assms
proof (induction cs arbitrary: p)
  case (Cons c cs)
  have "between_events p" using Cons.prems[rule_format, of 0] by simp
  note one = sse_chunk_append[OF this, of c]
  have "\<forall>i \<le> length cs. between_events ((p @ c) @ concat (take i cs))"
  proof (intro allI impI)
    fix i assume "i \<le> length cs"
    then show "between_events ((p @ c) @ concat (take i cs))" using Cons.prems[rule_format, of "Suc i"] by simp
  qed
  from Cons.IH[OF this] show ?case by (simp add: one case_prod_beta)
qed simp

text \<open>How the network cuts an event stream into chunks does not matter as long as no cut comes between the
  complete lines of one event: the chunks give the events of the whole text.\<close>

theorem sse_chunking:
  assumes "\<forall>i \<le> length cs. between_events (concat (take i cs))"
  shows "sse_feed cs [] = sse_chunk [] (concat cs)"
proof -
  have "sse_chunk [] [] = ([], [])" by (simp add: sse_chunk_def)
  then show ?thesis using sse_feed_from[of cs "[]"] assms by simp
qed

theorem sse_chunking_witness:
  "fst (sse_feed [''data: a'', nl @ nl @ ''da'', ''ta: b'' @ nl @ nl] []) = [(''message'', ''a''), (''message'', ''b'')]"
proof -
  let ?cs = "[''data: a'', nl @ nl @ ''da'', ''ta: b'' @ nl @ nl]"
  have "list_all (\<lambda>i. between_events (concat (take i ?cs))) [0..<4]" by code_simp
  then have "\<forall>i \<le> length ?cs. between_events (concat (take i ?cs))" by (auto simp: list_all_iff)
  moreover have "fst (sse_chunk [] (concat ?cs)) = [(''message'', ''a''), (''message'', ''b'')]" by code_simp
  ultimately show ?thesis using sse_chunking[of ?cs] by simp
qed

subsection \<open>From the server's \<open>sseSend\<close> to the client\<close>

definition trimmed :: "string \<Rightarrow> bool" where
  "trimmed s \<longleftrightarrow> s = [] \<or> \<not> is_ws (hd s) \<and> \<not> is_ws (last s)"

lemma trim_trimmed: "trimmed s \<Longrightarrow> trim s = s"
  unfolding trimmed_def by (rule trim_id)

lemma trim_Cons_ws: "is_ws c \<Longrightarrow> trim (c # s) = trim s"
  by (simp add: trim_def)

lemma ws_chars: "is_ws (CHR 0x0A)" "is_ws (CHR '' '')" "\<not> is_ws (CHR ''e'')" "\<not> is_ws (CHR ''d'')"
  by (simp_all add: is_ws_def)

lemma trim_newline: "trimmed s \<Longrightarrow> trim (s @ nl) = s"
  by (cases "s = []") (auto simp: trimmed_def trim_def nl_def ws_chars dropWhile_append dropWhile_id hd_rev rev_swap)

lemma event_line:
  assumes "trimmed e" "e \<noteq> []"
  shows "sse_line (''event: '' @ e) st = ([], e, snd st)"
proof -
  have "trim (''event: '' @ e) = ''event: '' @ e"
    by (rule trim_id) (use assms in \<open>auto simp: trimmed_def ws_chars\<close>)
  moreover have "trim ('' '' @ e) = e" using trim_trimmed[OF assms(1)] by (simp add: trim_Cons_ws ws_chars)
  moreover have "trim ''event'' = ''event''" by code_simp
  ultimately show ?thesis by (simp add: sse_line_def sse_field_def starts_with_def Let_def)
qed

lemma data_line:
  assumes "trimmed l"
  shows "sse_line (''data: '' @ l) st = ([], fst st, snd st @ l @ nl)"
proof (cases "l = []")
  case True
  have "trim ''data: '' = ''data:''" "trim ''data'' = ''data''" by code_simp+
  then show ?thesis using True by (simp add: sse_line_def sse_field_def starts_with_def Let_def)
next
  case False
  have "trim (''data: '' @ l) = ''data: '' @ l"
    by (rule trim_id) (use assms False in \<open>auto simp: trimmed_def ws_chars\<close>)
  moreover have "trim ('' '' @ l) = l" using trim_trimmed[OF assms(1)] by (simp add: trim_Cons_ws ws_chars)
  moreover have "trim ''data'' = ''data''" by code_simp
  ultimately show ?thesis by (simp add: sse_line_def sse_field_def starts_with_def Let_def)
qed

lemma data_lines:
  assumes "list_all trimmed ls"
  shows "sse_lines (map (\<lambda>l. ''data: '' @ l) ls) st = ([], fst st, snd st @ concat (map (\<lambda>l. l @ nl) ls))"
  using assms
proof (induction ls arbitrary: st)
  case (Cons l ls)
  then show ?case using data_line[of l st] by (simp del: append_Cons append.simps)
qed simp

text \<open>What the client can be sent: the text of the data, not missing, with no blank at either end of a line
  or of the whole, and an event name in one line without blanks at its ends.\<close>

definition sse_text :: "jsval \<Rightarrow> string" where
  "sse_text data = (case data of JStr s \<Rightarrow> s | _ \<Rightarrow> the (json_stringify data))"

definition sse_name :: "string option \<Rightarrow> string" where
  "sse_name event = (case event of Some (c # e) \<Rightarrow> c # e | _ \<Rightarrow> ''message'')"

definition sendable :: "jsval \<times> string option \<Rightarrow> bool" where
  "sendable de \<longleftrightarrow> fst de \<noteq> JUndef \<and> fst de \<noteq> JNull \<and> trimmed (sse_text (fst de))
     \<and> list_all trimmed (split_on (CHR 0x0A) (sse_text (fst de)))
     \<and> trimmed (sse_name (snd de)) \<and> CHR 0x0A \<notin> set (sse_name (snd de))"

lemma lines_join: "concat (map (\<lambda>l. l @ nl) (split_on (CHR 0x0A) s)) = s @ nl"
proof -
  have "concat (map (\<lambda>l. l @ [c]) ls) = join_with [c] ls @ [c]" if "ls \<noteq> []" for ls :: "string list" and c
    using that by (induction ls) (auto simp: join_with_Cons)
  then show ?thesis unfolding nl_def by (metis join_split_on split_on_nonempty)
qed

definition event_lines :: "jsval \<times> string option \<Rightarrow> string list" where
  "event_lines de = (if snd de = None \<or> snd de = Some [] then [] else [''event: '' @ sse_name (snd de)])
     @ map (\<lambda>l. ''data: '' @ l) (split_on (CHR 0x0A) (sse_text (fst de))) @ [[]]"

lemma payload_lines:
  assumes "sendable (d, e)"
  shows "sse_payload d e = concat (map (\<lambda>l. l @ nl) (event_lines (d, e)))"
  using assms
  by (auto simp: sse_payload_def sendable_def sse_text_def sse_name_def event_lines_def Let_def comp_def
      split: option.split list.split jsval.split)

lemma event_lines_read:
  assumes "sendable de"
  shows "sse_lines (event_lines de) sse_start = ([(sse_name (snd de), sse_text (fst de))], sse_start)"
proof -
  let ?t = "sse_text (fst de)" and ?n = "sse_name (snd de)"
  have n: "?n \<noteq> []" by (simp add: sse_name_def split: option.split list.split)
  have ev: "sse_lines (if snd de = None \<or> snd de = Some [] then [] else [''event: '' @ ?n]) sse_start = ([], ?n, [])"
  proof (cases "snd de = None \<or> snd de = Some []")
    case True
    then show ?thesis by (auto simp: sse_name_def sse_start_def)
  next
    case False
    have "sse_lines [''event: '' @ ?n] sse_start = ([], ?n, [])"
      using event_line[OF _ n, of sse_start] assms by (simp add: sendable_def sse_start_def del: append_Cons append.simps)
    then show ?thesis unfolding if_not_P[OF False] .
  qed
  have da: "sse_lines (map (\<lambda>l. ''data: '' @ l) (split_on (CHR 0x0A) ?t)) (?n, []) = ([], ?n, ?t @ nl)"
    using data_lines[of "split_on (CHR 0x0A) ?t" "(?n, [])"] assms lines_join[of ?t] by (simp add: sendable_def)
  have bl: "sse_lines [[]] (?n, ?t @ nl) = ([(?n, ?t)], sse_start)"
    using trim_newline[of ?t] assms by (simp add: sse_line_def sendable_def nl_def)
  show ?thesis unfolding event_lines_def sse_lines_append ev
    by (simp only: sse_lines_append da bl fst_conv snd_conv append_Nil)
qed

lemma event_lines_plain:
  assumes "sendable de" "l \<in> set (event_lines de)"
  shows "CHR 0x0A \<notin> set l"
  using assms split_on_pieces[of _ "CHR 0x0A"] by (auto simp: event_lines_def sendable_def split: if_splits)

lemma split_lines:
  "\<forall>l \<in> set ls. CHR 0x0A \<notin> set l \<Longrightarrow> split_on (CHR 0x0A) (concat (map (\<lambda>l. l @ nl) ls)) = ls @ [[]]"
  by (induction ls) (auto simp: nl_def split_on_append_sep)

lemma sse_lines_events:
  assumes "\<forall>de \<in> set g. sendable de"
  shows "sse_lines (concat (map event_lines g)) sse_start = (map (\<lambda>de. (sse_name (snd de), sse_text (fst de))) g, sse_start)"
  using assms by (induction g) (auto simp: sse_lines_append event_lines_read)

lemma sse_chunk_events:
  assumes "\<forall>de \<in> set g. sendable de"
  shows "sse_chunk [] (concat (map (\<lambda>(d, e). sse_payload d e) g))
    = (map (\<lambda>de. (sse_name (snd de), sse_text (fst de))) g, [])"
proof -
  have "concat (map (\<lambda>(d, e). sse_payload d e) g) = concat (map (\<lambda>l. l @ nl) (concat (map event_lines g)))"
    using assms by (induction g) (auto simp: payload_lines)
  moreover have "split_on (CHR 0x0A) (concat (map (\<lambda>l. l @ nl) (concat (map event_lines g)))) = concat (map event_lines g) @ [[]]"
    by (rule split_lines) (use assms event_lines_plain in auto)
  ultimately show ?thesis by (simp add: sse_chunk_def sse_lines_events[OF assms])
qed

text \<open>What the server prints for a sequence of events, and a beginning of that text after which the
  network may cut: whole events, then at most a part of the first line of the next one.\<close>

definition sse_stream :: "(jsval \<times> string option) list \<Rightarrow> string" where
  "sse_stream des = concat (map (\<lambda>(d, e). sse_payload d e) des)"

definition clean_cut :: "(jsval \<times> string option) list \<Rightarrow> string \<Rightarrow> bool" where
  "clean_cut des s \<longleftrightarrow> (\<exists>k q. s = sse_stream (take k des) @ q \<and> CHR 0x0A \<notin> set q)"

lemma clean_cut_between:
  assumes "\<forall>de \<in> set des. sendable de" "clean_cut des s"
  shows "between_events s"
proof -
  obtain k q where s: "s = sse_stream (take k des) @ q" "CHR 0x0A \<notin> set q" using assms(2) by (auto simp: clean_cut_def)
  define g where "g = take k des"
  have g: "\<forall>de \<in> set g. sendable de" using assms(1) set_take_subset[of k des] by (auto simp: g_def)
  then have "sse_stream g = concat (map (\<lambda>l. l @ nl) (concat (map event_lines g)))"
    by (induction g) (auto simp: sse_stream_def payload_lines)
  moreover have "split_on (CHR 0x0A) (concat (map (\<lambda>l. l @ nl) (concat (map event_lines g)))) = concat (map event_lines g) @ [[]]"
    by (rule split_lines) (use g event_lines_plain in auto)
  moreover have "split_on (CHR 0x0A) q = [q]" using s(2) by (induction q) auto
  ultimately have "butlast (split_on (CHR 0x0A) s) = concat (map event_lines g)"
    using s(1) split_on_join[of "CHR 0x0A" "sse_stream g" q] by (simp add: g_def)
  then show ?thesis by (simp add: between_events_def sse_lines_events[OF g])
qed

text \<open>C20. What the server's \<open>sseSend\<close> prints, the client of the SDK reads: events with a text and a name without
  blanks at the ends of their lines arrive with that name and that text, in order, none lost and none
  twice, as long as the network cuts the stream into chunks between two events or within the first
  line of one. A cut between the lines of an event loses it, as the next theorem shows.\<close>

theorem sse_server_client:
  assumes "\<forall>de \<in> set des. sendable de" "concat chunks = sse_stream des"
    and "\<forall>i \<le> length chunks. clean_cut des (concat (take i chunks))"
  shows "sse_feed chunks [] = (map (\<lambda>de. (sse_name (snd de), sse_text (fst de))) des, [])"
proof -
  have "sse_feed chunks [] = sse_chunk [] (concat chunks)"
    using assms(1,3) sse_feed_from[of chunks "[]"] clean_cut_between
    by (simp add: sse_chunk_def)
  then show ?thesis using assms(1,2) sse_chunk_events by (simp add: sse_stream_def)
qed

theorem sse_server_client_witness:
  "fst (sse_feed [sse_payload (JNum 1) (Some ''tick'') @ ''da'', ''ta: a b'' @ nl @ nl] []) = [(''tick'', ''1''), (''message'', ''a b'')]"
proof -
  let ?g = "[(JNum 1, Some ''tick''), (JStr ''a b'', None)]"
  let ?c = "[sse_payload (JNum 1) (Some ''tick'') @ ''da'', ''ta: a b'' @ nl @ nl]"
  have "list_all sendable ?g" by code_simp
  moreover have all: "concat ?c = sse_stream ?g" by code_simp
  moreover have "clean_cut ?g (concat (take i ?c))" if "i \<le> 2" for i
  proof -
    have "clean_cut ?g []" unfolding clean_cut_def by (rule exI[of _ 0]) (simp add: sse_stream_def)
    moreover have "clean_cut ?g (concat (take 1 ?c))"
      unfolding clean_cut_def by (rule exI[of _ 1], rule exI[of _ "''da''"]) (simp add: sse_stream_def)
    moreover have "clean_cut ?g (sse_stream ?g)" unfolding clean_cut_def by (rule exI[of _ 2], rule exI[of _ "[]"]) simp
    moreover have "i = 0 \<or> i = 1 \<or> i = 2" using that by auto
    moreover have "concat (take 2 ?c) = sse_stream ?g" using all by simp
    ultimately show ?thesis by auto
  qed
  moreover have "map (\<lambda>de. (sse_name (snd de), sse_text (fst de))) ?g = [(''tick'', ''1''), (''message'', ''a b'')]" by code_simp
  ultimately show ?thesis using sse_server_client[of ?g ?c] by (simp add: list_all_iff)
qed

text \<open>An event whose lines come in two chunks is lost: the client starts every chunk with no event pending,
  so the data line of the first chunk is forgotten when the blank line of the second one comes.\<close>

theorem sse_split_event_lost:
  assumes "trimmed l" "CHR 0x0A \<notin> set l"
  shows "sse_feed [''data: '' @ l @ nl, nl] [] = ([], [])
    \<and> sse_feed [''data: '' @ l @ nl @ nl] [] = ([(''message'', l)], [])"
proof -
  have s: "split_on (CHR 0x0A) (''data: '' @ l @ nl @ nl) = [''data: '' @ l, [], []]"
    "split_on (CHR 0x0A) (''data: '' @ l @ nl) = [''data: '' @ l, []]"
    using split_lines[of "[''data: '' @ l, []]"] split_lines[of "[''data: '' @ l]"] assms(2) by auto
  have one: "sse_lines [''data: '' @ l] sse_start = ([], ''message'', l @ nl)"
    using data_line[OF assms(1), of sse_start] by (simp add: sse_start_def)
  have two: "sse_lines [''data: '' @ l, []] sse_start = ([(''message'', l)], sse_start)"
    using sse_lines_append[of "[''data: '' @ l]" "[[]]" sse_start] one trim_newline[OF assms(1)]
    by (simp add: sse_line_def nl_def)
  have "sse_chunk [] (''data: '' @ l @ nl) = ([], [])" "sse_chunk [] nl = ([], [])"
    "sse_chunk [] (''data: '' @ l @ nl @ nl) = ([(''message'', l)], [])"
    using s one two by (simp_all add: sse_chunk_def nl_def sse_line_def sse_start_def)
  then show ?thesis by simp
qed

theorem sse_split_event_lost_witness:
  "sse_feed [''data: x'' @ nl, nl] [] = ([], []) \<and> sse_feed [''data: x'' @ nl @ nl] [] = ([(''message'', ''x'')], [])"
proof -
  have "trimmed ''x''" "CHR 0x0A \<notin> set ''x''" by code_simp+
  from sse_split_event_lost[OF this] show ?thesis by simp
qed

text \<open>Two loops for one client: a reconnection delay is running when the user disconnects and connects again;
  when it is over the old loop finds the client active and goes on.\<close>

theorem sse_two_loops:
  "map (\<lambda>l. l = Fetching 1 \<or> l = Fetching 2)
     (sl_loops (sse_run \<lparr> sp_max_retries = None, sp_base_delay = None \<rparr>
        [SseConnect, SseFetched 0 FetchFailed, SseDisconnect, SseConnect, SseWake 0] sse_new)) = [True, True]"
  by code_simp

subsection \<open>One connection\<close>

definition live_sockets :: "ws_client \<Rightarrow> nat" where
  "live_sockets c = length (filter (\<lambda>s. s \<noteq> Shut) (wc_sockets c))"

definition single :: "ws_client \<Rightarrow> bool" where
  "single c \<longleftrightarrow> live_sockets c + wc_timers c = (if wc_active c then 1 else 0)"

lemma filter_update:
  assumes "i < length xs"
  shows "length (filter P (xs[i := y])) + (if P (xs ! i) then 1 else 0) = length (filter P xs) + (if P y then 1 else 0)"
  using assms
proof (induction xs arbitrary: i)
  case (Cons x xs)
  then show ?case by (cases i) auto
qed simp

lemma live_update:
  assumes "i < length (wc_sockets c)" "wc_sockets c ! i \<noteq> Shut"
  shows "length (filter (\<lambda>s. s \<noteq> Shut) ((wc_sockets c)[i := s])) = (if s = Shut then live_sockets c - 1 else live_sockets c)"
  using filter_update[OF assms(1), of "\<lambda>s. s \<noteq> Shut" s] assms(2) by (auto simp: live_sockets_def)

lemma live_pos: "i < length (wc_sockets c) \<Longrightarrow> wc_sockets c ! i \<noteq> Shut \<Longrightarrow> 0 < live_sockets c"
  by (auto simp: live_sockets_def length_greater_0_conv filter_empty_conv simp del: length_greater_0_conv intro!: bexI[of _ "wc_sockets c ! i"])

lemma single_reconnect:
  assumes "live_sockets c + wc_timers c = 0"
  shows "single (ws_reconnect m c)"
  using assms by (auto simp: ws_reconnect_def single_def live_sockets_def Let_def)

lemma single_establish:
  assumes "live_sockets c + wc_timers c = 0" "attempt \<noteq> NoSocketClass"
  shows "single (ws_establish m attempt c)"
  using assms single_reconnect[of "c\<lparr>wc_errors := Suc (wc_errors c)\<rparr>" m]
  by (cases attempt) (auto simp: ws_establish_def single_def live_sockets_def)

lemma single_step:
  assumes "ws_step m c e c'" "single c" "e \<notin> {WsDisconnect, WsConnect NoSocketClass, WsTimer NoSocketClass}"
  shows "single c'"
  using assms(1)
proof (cases rule: ws_step.cases)
  case (step_connect attempt)
  then show ?thesis using assms(2,3) single_establish[of "c\<lparr>wc_active := True, wc_retries := 0\<rparr>" attempt m]
    by (auto simp: ws_connect_def single_def live_sockets_def split: if_splits)
next
  case (step_opened i)
  then show ?thesis using assms(2) live_update[of i c Opened] by (simp add: ws_opened_def single_def live_sockets_def)
next
  case (step_closed i)
  then have "live_sockets c = 1" "wc_timers c = 0" using assms(2) live_pos[of i c] by (auto simp: single_def split: if_splits)
  then have "live_sockets (c\<lparr>wc_sockets := (wc_sockets c)[i := Shut], wc_heartbeat := False, wc_closed := Suc (wc_closed c)\<rparr>) = 0"
    using live_update[of i c Shut] step_closed by (simp add: live_sockets_def)
  then show ?thesis using single_reconnect \<open>wc_timers c = 0\<close> step_closed by (simp add: ws_closed_def)
next
  case (step_timer attempt)
  then have "live_sockets c = 0" "wc_timers c = 1" using assms(2) by (auto simp: single_def split: if_splits)
  then show ?thesis using single_establish[of "c\<lparr>wc_timers := wc_timers c - 1\<rparr>" attempt m] step_timer assms(3) by (simp add: live_sockets_def)
next
  case step_beat
  have "single (close_socket i c)" for i
    using assms(2) live_update[of i c Closing] by (auto simp: close_socket_def single_def live_sockets_def)
  moreover have "single (c\<lparr>wc_sent := x\<rparr>)" for x using assms(2) by (simp add: single_def live_sockets_def)
  ultimately show ?thesis using assms(2) step_beat by (auto simp: ws_beat_def ws_send_def split: option.split bool.split)
qed (use assms in \<open>auto simp: ws_send_def single_def live_sockets_def split: option.split bool.split\<close>)

lemma single_run:
  assumes "ws_run m c es c'" "single c" "WsDisconnect \<notin> set es"
    "WsConnect NoSocketClass \<notin> set es" "WsTimer NoSocketClass \<notin> set es"
  shows "single c'"
  using assms by (induction rule: ws_run.induct) (auto intro: single_step)

text \<open>C21. One connection at a time: in a runtime with a \<open>WebSocket\<close> class, global or of the package \<open>ws\<close>, as
  long as the user does not disconnect, an active client has exactly one socket that is not shut or exactly
  one reconnection timer, whatever fails and however often; a client that gave up has neither.\<close>

theorem ws_single_connection:
  assumes "ws_run m ws_new es c" "WsDisconnect \<notin> set es"
    and "WsConnect NoSocketClass \<notin> set es" "WsTimer NoSocketClass \<notin> set es"
  shows "length (filter (\<lambda>s. s \<noteq> Shut) (wc_sockets c)) + wc_timers c = (if wc_active c then 1 else 0)"
  using single_run[OF assms(1) _ assms(2-4)] by (simp add: single_def live_sockets_def ws_new_def)

lemma ws_new_connect: "ws_step m ws_new (WsConnect SocketMade) (ws_connect m SocketMade ws_new)"
  by (rule step_connect)

theorem ws_single_connection_witness:
  "\<exists>c. ws_run 5 ws_new [WsConnect SocketMade, WsOpened 0, WsClosed 0, WsTimer ConstructorThrows] c
     \<and> length (filter (\<lambda>s. s \<noteq> Shut) (wc_sockets c)) + wc_timers c = 1"
proof -
  let ?c1 = "ws_connect 5 SocketMade ws_new"
  let ?c2 = "ws_opened 0 ?c1"
  let ?c3 = "ws_closed 5 0 ?c2"
  let ?c4 = "ws_establish 5 ConstructorThrows (?c3\<lparr>wc_timers := wc_timers ?c3 - 1\<rparr>)"
  have h: "0 < length (wc_sockets ?c1)" "wc_sockets ?c1 ! 0 = Connecting" "0 < length (wc_sockets ?c2)"
    "wc_sockets ?c2 ! 0 \<noteq> Shut" "0 < wc_timers ?c3" "wc_active ?c4"
    by code_simp+
  have run: "ws_run 5 ws_new [WsConnect SocketMade, WsOpened 0, WsClosed 0, WsTimer ConstructorThrows] ?c4"
    by (rule run_cons[OF step_connect run_cons[OF step_opened[OF h(1,2)] run_cons[OF step_closed[OF h(3,4)]
          run_cons[OF step_timer[OF h(5)] run_nil]]]])
  show ?thesis using ws_single_connection[OF run] run h(6) by auto
qed

text \<open>Without such a class \<open>connect()\<close> throws and leaves the client active with no socket and no timer: every
  later call of \<open>connect()\<close> returns at once, also when the class has been installed meanwhile.\<close>

theorem ws_connect_stuck:
  "wc_active (ws_connect m NoSocketClass ws_new) \<and> wc_sockets (ws_connect m NoSocketClass ws_new) = []
   \<and> wc_timers (ws_connect m NoSocketClass ws_new) = 0
   \<and> ws_connect m attempt (ws_connect m NoSocketClass ws_new) = ws_connect m NoSocketClass ws_new"
  by (simp add: ws_connect_def ws_establish_def ws_new_def)

text \<open>After a disconnect and a connect the client can have two sockets: the close event of the old socket
  comes when the client is active again, and starts a reconnection beside the connection there is.\<close>

theorem ws_two_connections:
  assumes "0 < m"
  shows "\<exists>c. ws_run m ws_new [WsConnect SocketMade, WsOpened 0, WsDisconnect, WsConnect SocketMade, WsClosed 0, WsTimer SocketMade] c
     \<and> length (filter (\<lambda>s. s \<noteq> Shut) (wc_sockets c)) = 2"
proof -
  let ?c1 = "ws_connect m SocketMade ws_new"
  let ?c2 = "ws_opened 0 ?c1"
  let ?c3 = "ws_disconnect ?c2"
  let ?c4 = "ws_connect m SocketMade ?c3"
  let ?c5 = "ws_closed m 0 ?c4"
  let ?c6 = "ws_establish m SocketMade (?c5\<lparr>wc_timers := wc_timers ?c5 - 1\<rparr>)"
  note defs = ws_connect_def ws_opened_def ws_disconnect_def ws_closed_def ws_establish_def ws_new_def ws_reconnect_def
    close_socket_def Let_def
  have h: "0 < length (wc_sockets ?c1)" "wc_sockets ?c1 ! 0 = Connecting" "0 < length (wc_sockets ?c4)"
    "wc_sockets ?c4 ! 0 \<noteq> Shut" "0 < wc_timers ?c5" "length (filter (\<lambda>s. s \<noteq> Shut) (wc_sockets ?c6)) = 2"
    using assms by (simp_all add: defs)
  have "ws_run m ws_new [WsConnect SocketMade, WsOpened 0, WsDisconnect, WsConnect SocketMade, WsClosed 0, WsTimer SocketMade] ?c6"
    by (rule run_cons[OF step_connect run_cons[OF step_opened[OF h(1,2)] run_cons[OF step_disconnect
          run_cons[OF step_connect run_cons[OF step_closed[OF h(3,4)] run_cons[OF step_timer[OF h(5)] run_nil]]]]]])
  then show ?thesis using h(6) by blast
qed

theorem ws_two_connections_witness:
  "\<exists>c. ws_run 5 ws_new [WsConnect SocketMade, WsOpened 0, WsDisconnect, WsConnect SocketMade, WsClosed 0, WsTimer SocketMade] c
     \<and> length (filter (\<lambda>s. s \<noteq> Shut) (wc_sockets c)) = 2"
  by (rule ws_two_connections) simp

end
