(* ===== verification/Security.thy ===== *)
theory Security
  imports Native_Response Jobs_Cron
begin

text \<open>
  \<open>packages/security/src\<close>: the sanitizer of request data (\<open>utils/sanitizer.ts\<close>), the detectors of operator
  keys and scanners (\<open>utils/detector.ts\<close>) and the \<open>onRequest\<close> hook \<open>useSecurity\<close> (\<open>index.ts\<close>). A regular expression is
  a function from a position (the character before it and the text after it) to the text after the
  match; patterns that an application supplies are tests on strings. An instance of a class has no
  enumerable property of its own.
\<close>

subsection \<open>Regular expressions\<close>

type_synonym matcher = "char option \<Rightarrow> string \<Rightarrow> string option"

definition word_char :: "char \<Rightarrow> bool" where
  "word_char c \<longleftrightarrow> is_alnum c \<or> c = CHR ''_''"

definition at_word_end :: "string \<Rightarrow> bool" where
  "at_word_end s = (case s of [] \<Rightarrow> True | c # _ \<Rightarrow> \<not> word_char c)"

fun strip_ci :: "string \<Rightarrow> string \<Rightarrow> string option" where
  "strip_ci [] s = Some s"
| "strip_ci (w # ws) [] = None"
| "strip_ci (w # ws) (c # s) = (if to_lower_char c = w then strip_ci ws s else None)"

definition after_gt :: "string \<Rightarrow> string option" where
  "after_gt s = (case dropWhile (\<lambda>c. c \<noteq> CHR ''>'') s of [] \<Rightarrow> None | _ # r \<Rightarrow> Some r)"

text \<open>\<open>s.replace(pattern, '')\<close> with the global flag. \<open>p\<close> is the character before the position.\<close>

function replace_all :: "matcher \<Rightarrow> char option \<Rightarrow> string \<Rightarrow> string" where
  "replace_all m p [] = []"
| "replace_all m p (c # cs) =
     (case m p (c # cs) of
        Some rest \<Rightarrow>
          (if length rest < length (c # cs)
           then replace_all m (Some (last (take (length (c # cs) - length rest) (c # cs)))) rest
           else c # replace_all m (Some c) cs)
      | None \<Rightarrow> c # replace_all m (Some c) cs)"
  by pat_completeness auto
termination by (relation "measure (\<lambda>(m, p, s). length s)") auto

subsection \<open>The sanitizer\<close>

definition max_sanitize_iterations :: nat where
  "max_sanitize_iterations = 10"

fun replace_rounds :: "nat \<Rightarrow> matcher \<Rightarrow> string \<Rightarrow> string" where
  "replace_rounds 0 m s = s"
| "replace_rounds (Suc n) m s = (let t = replace_all m None s in if t = s then t else replace_rounds n m t)"

definition replace_until_stable :: "matcher \<Rightarrow> string \<Rightarrow> string" where
  "replace_until_stable m s = replace_rounds max_sanitize_iterations m s"

definition close_script :: "string \<Rightarrow> string option" where
  "close_script s = (case strip_ci ''</script'' s of Some t \<Rightarrow> after_gt t | None \<Rightarrow> None)"

fun skip_to_close :: "string \<Rightarrow> string option" where
  "skip_to_close [] = None"
| "skip_to_close (c # cs) = (case close_script (c # cs) of Some r \<Rightarrow> Some r | None \<Rightarrow> skip_to_close cs)"

definition match_script :: matcher where
  "match_script p s =
     (case strip_ci ''<script'' s of Some t \<Rightarrow> (if at_word_end t then skip_to_close t else None) | None \<Rightarrow> None)"

text \<open>Letters with any white space between them.\<close>

fun spaced :: "string \<Rightarrow> string \<Rightarrow> string option" where
  "spaced [] s = Some s"
| "spaced (w # ws) s = (case dropWhile is_ws s of c # cs \<Rightarrow> (if to_lower_char c = w then spaced ws cs else None) | [] \<Rightarrow> None)"

definition match_spaced :: "string \<Rightarrow> matcher" where
  "match_spaced ws p s =
     (case s of c # cs \<Rightarrow> (if to_lower_char c = hd ws then spaced (tl ws) cs else None) | [] \<Rightarrow> None)"

definition match_on_handler :: matcher where
  "match_on_handler p s =
     (if (case p of Some c \<Rightarrow> word_char c | None \<Rightarrow> False) then None
      else case strip_ci ''on'' s of
             None \<Rightarrow> None
           | Some t \<Rightarrow>
               (let u = dropWhile word_char t
                in if u = t then None
                   else case dropWhile is_ws u of c # r \<Rightarrow> (if c = CHR ''='' then Some r else None) | [] \<Rightarrow> None))"

fun strip_word :: "string list \<Rightarrow> string \<Rightarrow> string option" where
  "strip_word [] s = None"
| "strip_word (w # ws) s = (case strip_ci w s of Some u \<Rightarrow> (if at_word_end u then Some u else strip_word ws s) | None \<Rightarrow> strip_word ws s)"

definition skip_slash :: "string \<Rightarrow> string" where
  "skip_slash s = (case s of c # cs \<Rightarrow> (if c = CHR ''/'' then cs else s) | [] \<Rightarrow> s)"

definition match_tag :: "string list \<Rightarrow> matcher" where
  "match_tag names p s =
     (case s of
        [] \<Rightarrow> None
      | c # cs \<Rightarrow>
          (if c \<noteq> CHR ''<'' then None
           else case strip_word names (dropWhile is_ws (skip_slash (dropWhile is_ws cs))) of
                  Some r \<Rightarrow> after_gt r | None \<Rightarrow> None))"

definition xss_passes :: "matcher list" where
  "xss_passes = [match_script, match_spaced ''javascript:'', match_spaced ''data:'', match_on_handler,
     match_tag [''iframe'', ''object'', ''embed'', ''base''], match_tag [''svg'']]"

definition sanitize_xss :: "string \<Rightarrow> string" where
  "sanitize_xss s = fold replace_until_stable xss_passes s"

record sanitizer_options =
  sn_xss :: bool
  sn_proto :: bool
  sn_nul :: bool
  sn_depth :: "nat option"

definition default_sanitizer :: sanitizer_options where
  "default_sanitizer = \<lparr> sn_xss = True, sn_proto = True, sn_nul = True, sn_depth = Some 64 \<rparr>"

definition san_limit :: "sanitizer_options \<Rightarrow> nat" where
  "san_limit o1 = (case sn_depth o1 of Some n \<Rightarrow> n | None \<Rightarrow> 64)"

definition sanitize_text :: "sanitizer_options \<Rightarrow> string \<Rightarrow> string" where
  "sanitize_text o1 s =
     (let t = (if sn_nul o1 then filter (\<lambda>c. c \<noteq> CHR 0x00) s else s) in if sn_xss o1 then sanitize_xss t else t)"

fun deep_sanitize :: "sanitizer_options \<Rightarrow> nat \<Rightarrow> jsval \<Rightarrow> jsval" where
  "deep_sanitize o1 d (JStr s) = (if san_limit o1 < d then JUndef else JStr (sanitize_text o1 s))"
| "deep_sanitize o1 d (JArr vs) = (if san_limit o1 < d then JUndef else JArr (map (deep_sanitize o1 (Suc d)) vs))"
| "deep_sanitize o1 d (JObj kvs) =
     (if san_limit o1 < d then JUndef
      else JObj (map (\<lambda>(k, v). (k, deep_sanitize o1 (Suc d) v)) (filter (\<lambda>(k, v). \<not> (sn_proto o1 \<and> polluting k)) kvs)))"
| "deep_sanitize o1 d v = (if san_limit o1 < d then JUndef else v)"

definition last_value :: "jsval \<Rightarrow> jsval" where
  "last_value v = (case v of JArr vs \<Rightarrow> (if vs = [] then JUndef else last vs) | _ \<Rightarrow> v)"

definition normalize_hpp :: "jsval \<Rightarrow> jsval" where
  "normalize_hpp v =
     (case v of
        JObj kvs \<Rightarrow> JObj (map (\<lambda>(k, x). (k, last_value x)) kvs)
      | JArr vs \<Rightarrow> JObj (map (\<lambda>(i, x). (show_nat i, last_value x)) (enumerate 0 vs))
      | JInst s \<Rightarrow> JObj []
      | _ \<Rightarrow> v)"

subsection \<open>The detectors\<close>

type_synonym pattern_test = "string \<Rightarrow> bool"

definition operator_names :: "string list" where
  "operator_names = [''ne'', ''gt'', ''gte'', ''lt'', ''lte'', ''regex'', ''where'', ''expr'', ''jsonschema'', ''elemmatch'', ''slice'',
     ''pull'', ''lookup'']"

definition operator_pattern :: pattern_test where
  "operator_pattern s \<longleftrightarrow>
     list_ex (\<lambda>t. case t of c # cs \<Rightarrow> c = CHR ''$'' \<and> strip_word operator_names cs \<noteq> None | [] \<Rightarrow> False) (suffixes s)"

definition where_pattern :: pattern_test where
  "where_pattern s \<longleftrightarrow>
     list_ex (\<lambda>t. case t of c # cs \<Rightarrow> c = CHR ''{'' \<and> strip_ci ''$where'' (dropWhile is_ws cs) \<noteq> None | [] \<Rightarrow> False) (suffixes s)"

definition default_nosql_patterns :: "pattern_test list" where
  "default_nosql_patterns = [operator_pattern, where_pattern]"

definition default_blocked_ua_patterns :: "pattern_test list" where
  "default_blocked_ua_patterns =
     map (\<lambda>w s. str_includes (to_lower s) w) [''sqlmap'', ''nikto'', ''acunetix'', ''nessus'', ''nmap'', ''masscan'', ''zgrab'']"

definition some_pattern :: "pattern_test list \<Rightarrow> string \<Rightarrow> bool" where
  "some_pattern ps s \<longleftrightarrow> list_ex (\<lambda>p. p s) ps"

fun has_pattern_match :: "pattern_test list \<Rightarrow> nat \<Rightarrow> jsval \<Rightarrow> bool" where
  "has_pattern_match ps d (JStr s) = (d \<le> 64 \<and> some_pattern ps s)"
| "has_pattern_match ps d (JArr vs) = (d \<le> 64 \<and> list_ex (has_pattern_match ps (Suc d)) vs)"
| "has_pattern_match ps d (JObj kvs) = (d \<le> 64 \<and> list_ex (\<lambda>(k, v). some_pattern ps k \<or> has_pattern_match ps (Suc d) v) kvs)"
| "has_pattern_match ps d v = False"

definition detect_nosql_injection :: "pattern_test list \<Rightarrow> jsval \<Rightarrow> bool" where
  "detect_nosql_injection ps v = has_pattern_match ps 0 v"

definition is_suspicious_user_agent :: "pattern_test list \<Rightarrow> string \<Rightarrow> bool" where
  "is_suspicious_user_agent ps ua = some_pattern ps ua"

subsection \<open>useSecurity\<close>

record security_options =
  so_xss :: bool
  so_hpp :: bool
  so_max_body :: int
  so_nosql :: bool
  so_proto :: bool
  so_nul :: bool
  so_bots :: bool
  so_ua_patterns :: "pattern_test list"
  so_nosql_patterns :: "pattern_test list"
  so_depth :: nat

definition security_defaults :: security_options where
  "security_defaults = \<lparr> so_xss = True, so_hpp = True, so_max_body = 1048576, so_nosql = False, so_proto = True, so_nul = True,
     so_bots = True, so_ua_patterns = default_blocked_ua_patterns, so_nosql_patterns = default_nosql_patterns, so_depth = 64 \<rparr>"

definition content_length :: "request \<Rightarrow> int option" where
  "content_length req = (case map_of (rq_headers req) ''content-length'' of Some [v] \<Rightarrow> parse_int v | _ \<Rightarrow> None)"

definition user_agent :: "request \<Rightarrow> string" where
  "user_agent req = (case map_of (rq_headers req) ''user-agent'' of Some vs \<Rightarrow> join_with '','' vs | None \<Rightarrow> [])"

definition too_large :: "security_options \<Rightarrow> request \<Rightarrow> bool" where
  "too_large o1 req = (case content_length req of Some n \<Rightarrow> so_max_body o1 < n | None \<Rightarrow> False)"

definition injection_found :: "security_options \<Rightarrow> request \<Rightarrow> bool" where
  "injection_found o1 req \<longleftrightarrow> so_nosql o1
     \<and> (detect_nosql_injection (so_nosql_patterns o1) (rq_query req) \<or> detect_nosql_injection (so_nosql_patterns o1) (rq_params req)
        \<or> detect_nosql_injection (so_nosql_patterns o1) (rq_body req))"

definition request_sanitizer :: "security_options \<Rightarrow> sanitizer_options" where
  "request_sanitizer o1 = \<lparr> sn_xss = so_xss o1, sn_proto = so_proto o1, sn_nul = so_nul o1, sn_depth = Some (so_depth o1) \<rparr>"

definition sanitize_part :: "security_options \<Rightarrow> jsval \<Rightarrow> jsval" where
  "sanitize_part o1 v = (if truthy v then deep_sanitize (request_sanitizer o1) 0 v else v)"

definition clean_request :: "security_options \<Rightarrow> request \<Rightarrow> request" where
  "clean_request o1 req =
     (let req1 = (if so_hpp o1 \<and> is_object (rq_query req) then req\<lparr>rq_query := normalize_hpp (rq_query req)\<rparr> else req)
      in if so_xss o1 \<or> so_proto o1 \<or> so_nul o1
         then req1\<lparr>rq_body := sanitize_part o1 (rq_body req1), rq_query := sanitize_part o1 (rq_query req1),
                   rq_params := sanitize_part o1 (rq_params req1)\<rparr>
         else req1)"

definition security_hook :: "serializer \<Rightarrow> security_options \<Rightarrow> (request \<times> native_response) act" where
  "security_hook ser o1 w =
     (case w of (req, r) \<Rightarrow>
        if too_large o1 req then map_prod id (Pair req) (nr_send ser JNull (Some ''Payload Too Large'') (nr_status 413 r))
        else if so_bots o1 \<and> is_suspicious_user_agent (so_ua_patterns o1) (user_agent req) \<or> injection_found o1 req
        then map_prod id (Pair req) (nr_send ser JNull (Some ''Forbidden'') (nr_status 403 r))
        else (None, clean_request o1 req, r))"

subsection \<open>What the sanitizer does to text\<close>

definition shrinking :: "matcher \<Rightarrow> bool" where
  "shrinking m \<longleftrightarrow> (\<forall>p s r. m p s = Some r \<longrightarrow> suffix r s)"

lemma strip_ci_suffix: "strip_ci w s = Some r \<Longrightarrow> suffix r s"
  by (induction w s rule: strip_ci.induct) (auto split: if_splits intro: suffix_ConsI)

lemma dropWhile_suffix_trans: "suffix r (dropWhile P s) \<Longrightarrow> suffix r s"
  by (meson suffix_dropWhile suffix_order.trans)

lemma after_gt_suffix: "after_gt s = Some r \<Longrightarrow> suffix r s"
proof -
  assume "after_gt s = Some r"
  then obtain c where "dropWhile (\<lambda>c. c \<noteq> CHR ''>'') s = c # r" by (auto simp: after_gt_def split: list.splits)
  then show ?thesis by (metis dropWhile_suffix_trans suffix_ConsI suffix_order.refl)
qed

lemma close_script_suffix: "close_script s = Some r \<Longrightarrow> suffix r s"
  by (auto simp: close_script_def split: option.splits dest!: strip_ci_suffix after_gt_suffix intro: suffix_order.trans)

lemma skip_to_close_suffix: "skip_to_close s = Some r \<Longrightarrow> suffix r s"
  by (induction s) (auto split: option.splits dest: close_script_suffix intro: suffix_ConsI)

lemma spaced_suffix: "spaced w s = Some r \<Longrightarrow> suffix r s"
proof (induction w arbitrary: s)
  case (Cons w ws)
  then obtain c cs where d: "dropWhile is_ws s = c # cs" "spaced ws cs = Some r"
    by (auto split: list.splits if_splits)
  then show ?case using Cons.IH[of cs] by (metis dropWhile_suffix_trans suffix_ConsI)
qed simp

lemma strip_word_suffix: "strip_word ws s = Some r \<Longrightarrow> suffix r s"
  by (induction ws) (auto split: option.splits if_splits dest: strip_ci_suffix)

lemma shrinking_script: "shrinking match_script"
  by (auto simp: shrinking_def match_script_def split: option.splits if_splits
      dest!: strip_ci_suffix skip_to_close_suffix intro: suffix_order.trans)

lemma shrinking_spaced: "shrinking (match_spaced w)"
  by (auto simp: shrinking_def match_spaced_def split: list.splits if_splits dest!: spaced_suffix intro: suffix_ConsI)

lemma shrinking_on: "shrinking match_on_handler"
  unfolding shrinking_def
proof (intro allI impI)
  fix p s r assume "match_on_handler p s = Some r"
  then obtain t where t: "strip_ci ''on'' s = Some t" "dropWhile is_ws (dropWhile word_char t) = CHR ''='' # r"
    by (auto simp: match_on_handler_def Let_def split: if_splits option.splits list.splits)
  then have "suffix r t" by (metis dropWhile_suffix_trans suffix_ConsI suffix_order.refl)
  then show "suffix r s" using strip_ci_suffix[OF t(1)] by (rule suffix_order.trans)
qed

lemma shrinking_tag: "shrinking (match_tag names)"
  unfolding shrinking_def
proof (intro allI impI)
  fix p s r assume a: "match_tag names p s = Some r"
  then obtain c cs where s: "s = c # cs" "c = CHR ''<''" by (auto simp: match_tag_def split: list.splits if_splits)
  let ?t = "dropWhile is_ws cs"
  from a s obtain q where q: "strip_word names (dropWhile is_ws (skip_slash ?t)) = Some q" "after_gt q = Some r"
    by (auto simp: match_tag_def split: option.splits)
  have "suffix (skip_slash ?t) ?t" by (auto simp: skip_slash_def split: list.splits intro: suffix_ConsI)
  moreover have "suffix ?t cs" by (simp add: suffix_dropWhile)
  moreover have "suffix r (skip_slash ?t)"
    using q strip_word_suffix after_gt_suffix by (meson dropWhile_suffix_trans suffix_order.trans)
  ultimately show "suffix r s" using s by (metis suffix_ConsI suffix_order.trans)
qed

lemma replace_all_subseq: "shrinking m \<Longrightarrow> subseq (replace_all m p s) s"
proof (induction m p s rule: replace_all.induct)
  case (2 m p c cs)
  show ?case
  proof (cases "m p (c # cs)")
    case None
    then show ?thesis using 2 by simp
  next
    case (Some rest)
    have "suffix rest (c # cs)" using 2(4) Some by (auto simp: shrinking_def)
    then have "subseq rest (c # cs)" by (rule subseq_order.trans[OF _ suffix_imp_subseq, OF subseq_order.refl])
    with 2 Some show ?thesis by (auto intro: subseq_order.trans)
  qed
qed simp

lemma replace_rounds_subseq: "shrinking m \<Longrightarrow> subseq (replace_rounds n m s) s"
  by (induction n arbitrary: s) (auto simp: Let_def intro: subseq_order.trans replace_all_subseq)

lemma sanitize_xss_subseq: "subseq (sanitize_xss s) s"
proof -
  have sub: "\<forall>m \<in> set ms. shrinking m \<Longrightarrow> subseq (fold replace_until_stable ms s) s" for ms
  proof (induction ms arbitrary: s)
    case (Cons m ms)
    then have "subseq (replace_until_stable m s) s" by (simp add: replace_until_stable_def replace_rounds_subseq)
    with Cons show ?case by (auto intro: subseq_order.trans)
  qed simp
  show ?thesis
    unfolding sanitize_xss_def
    by (rule sub) (simp add: xss_passes_def shrinking_script shrinking_spaced shrinking_on shrinking_tag)
qed

lemma sanitize_text_subseq: "subseq (sanitize_text o1 s) s"
  by (auto simp: sanitize_text_def Let_def intro: sanitize_xss_subseq subseq_order.trans[OF sanitize_xss_subseq] subseq_filter_left)

lemma sanitize_text_nul: "sn_nul o1 \<Longrightarrow> CHR 0x00 \<notin> set (sanitize_text o1 s)"
proof
  assume n: "sn_nul o1" and i: "CHR 0x00 \<in> set (sanitize_text o1 s)"
  let ?t = "filter (\<lambda>c. c \<noteq> CHR 0x00) s"
  have "subseq (sanitize_text o1 s) ?t" using n by (auto simp: sanitize_text_def Let_def sanitize_xss_subseq)
  with i show False by (elim list_emb_set) auto
qed

end
