(* ===== verification/Security_Props.thy ===== *)
theory Security_Props
  imports Security
begin

text \<open>
  What passes the \<open>useSecurity\<close> hook: the outcome of every request, what the sanitizer leaves of a
  value, and that no operator key reaches a handler; with the ways around the script filter.
\<close>

subsection \<open>Values\<close>

lemma deep_sanitize_beyond: "san_limit o1 < d \<Longrightarrow> deep_sanitize o1 d v = JUndef"
  by (cases v) simp_all

lemma map_of_kept:
  "P k \<Longrightarrow> map_of (map (\<lambda>(k, v). (k, f v)) (filter (\<lambda>(k, v). P k) kvs)) k = map_option f (map_of kvs k)"
  by (induction kvs) auto

lemma value_at_deep:
  "clean_path p \<Longrightarrow> d + length p \<le> san_limit o1 \<Longrightarrow>
   value_at p (deep_sanitize o1 d v) = map_option (deep_sanitize o1 (d + length p)) (value_at p v)"
proof (induction p v arbitrary: d rule: value_at.induct)
  case (2 k p kvs)
  then have "\<not> (sn_proto o1 \<and> polluting k)" "clean_path p" by (auto simp: clean_path_def)
  then have "map_of (map (\<lambda>(k, v). (k, deep_sanitize o1 (Suc d) v)) (filter (\<lambda>(k, v). \<not> (sn_proto o1 \<and> polluting k)) kvs)) k
      = map_option (deep_sanitize o1 (Suc d)) (map_of kvs k)"
    by (intro map_of_kept)
  with 2 \<open>clean_path p\<close> show ?case by (simp split: option.splits)
next
  case (3 i p vs)
  then show ?case by (auto simp: clean_path_def)
qed (auto simp: clean_path_def)

lemma deep_sanitize_pollution_free: "sn_proto o1 \<Longrightarrow> pollution_free (deep_sanitize o1 d v)"
  by (induction o1 d v rule: deep_sanitize.induct) auto

text \<open>Every string in a value with the depth it is at.\<close>

fun strings_in :: "jsval \<Rightarrow> string set" where
  "strings_in (JStr s) = {s}"
| "strings_in (JArr vs) = (\<Union>v \<in> set vs. strings_in v)"
| "strings_in (JObj kvs) = (\<Union>(k, v) \<in> set kvs. strings_in v)"
| "strings_in v = {}"

fun keys_in :: "jsval \<Rightarrow> string set" where
  "keys_in (JArr vs) = (\<Union>v \<in> set vs. keys_in v)"
| "keys_in (JObj kvs) = (\<Union>(k, v) \<in> set kvs. insert k (keys_in v))"
| "keys_in v = {}"

lemma strings_deep: "t \<in> strings_in (deep_sanitize o1 d v) \<Longrightarrow> \<exists>s \<in> strings_in v. t = sanitize_text o1 s"
  by (induction o1 d v rule: deep_sanitize.induct) (fastforce split: if_splits)+

text \<open>Sanitizing never adds a character: every string of the result is one of the request's with
  characters left out, none of them has a NUL, no polluting key is left at any depth, and a value
  within the depth limit that is reached without one is where it was.\<close>

theorem deep_sanitize_spec:
  assumes "sn_proto o1" "sn_nul o1"
  shows "pollution_free (deep_sanitize o1 0 v)
    \<and> (\<forall>t \<in> strings_in (deep_sanitize o1 0 v). CHR 0x00 \<notin> set t \<and> (\<exists>s \<in> strings_in v. subseq t s \<and> t = sanitize_text o1 s))
    \<and> (\<forall>p. clean_path p \<and> length p \<le> san_limit o1 \<longrightarrow>
         value_at p (deep_sanitize o1 0 v) = map_option (deep_sanitize o1 (length p)) (value_at p v))"
proof (intro conjI ballI allI impI)
  show "pollution_free (deep_sanitize o1 0 v)" using assms(1) by (rule deep_sanitize_pollution_free)
next
  fix t assume "t \<in> strings_in (deep_sanitize o1 0 v)"
  from strings_deep[OF this] obtain s where s: "s \<in> strings_in v" "t = sanitize_text o1 s" by blast
  show "CHR 0x00 \<notin> set t" unfolding s(2) using assms(2) by (rule sanitize_text_nul)
  show "\<exists>s \<in> strings_in v. subseq t s \<and> t = sanitize_text o1 s" using s sanitize_text_subseq by auto
next
  fix p assume "clean_path p \<and> length p \<le> san_limit o1"
  then show "value_at p (deep_sanitize o1 0 v) = map_option (deep_sanitize o1 (length p)) (value_at p v)"
    using value_at_deep[of p 0 o1 v] by simp
qed

theorem deep_sanitize_spec_witness:
  "value_at [Key ''q'', Index 0] (deep_sanitize default_sanitizer 0
     (JObj [(''__proto__'', JNull), (''q'', JArr [JStr ''a<svg onload=x>b''])])) = Some (JStr ''ab'')"
proof -
  let ?v = "JObj [(''__proto__'', JNull), (''q'', JArr [JStr ''a<svg onload=x>b''])]"
  have "clean_path [Key ''q'', Index 0] \<and> length [Key ''q'', Index 0] \<le> san_limit default_sanitizer"
    by (simp add: clean_path_def polluting_def san_limit_def default_sanitizer_def)
  moreover have "sn_proto default_sanitizer" "sn_nul default_sanitizer" by (simp_all add: default_sanitizer_def)
  ultimately have "value_at [Key ''q'', Index 0] (deep_sanitize default_sanitizer 0 ?v)
      = map_option (deep_sanitize default_sanitizer 2) (value_at [Key ''q'', Index 0] ?v)"
    using deep_sanitize_spec[of default_sanitizer ?v] by (metis length_Cons list.size(3) numeral_2_eq_2)
  moreover have "deep_sanitize default_sanitizer 2 (JStr ''a<svg onload=x>b'') = JStr ''ab''" by code_simp
  ultimately show ?thesis by simp
qed

text \<open>The passes run one after the other, each until it is stable: what a later pass takes out can put
  together what an earlier one was looking for, and one pattern nested eleven times outlasts the ten rounds.\<close>

theorem script_filter_bypassed:
  "sanitize_text default_sanitizer ''<scrdata:ipt>alert(1)</script>'' = ''<script>alert(1)</script>''
   \<and> sanitize_text default_sanitizer (concat (replicate 10 ''data'') @ ''data:'' @ concat (replicate 10 '':'') @ ''x'') = ''data:x''"
  by code_simp

subsection \<open>Operator keys\<close>

lemma keys_deep:
  "k \<in> keys_in (deep_sanitize o1 d v) \<Longrightarrow> san_limit o1 + e \<le> 64 \<Longrightarrow> some_pattern ps k \<Longrightarrow> has_pattern_match ps (d + e) v"
proof (induction o1 d v rule: deep_sanitize.induct)
  case (2 o1 d vs)
  then show ?case by (fastforce simp: list_ex_iff split: if_splits)
next
  case (3 o1 d kvs)
  then obtain k' v' where kv: "(k', v') \<in> set kvs" "\<not> (sn_proto o1 \<and> polluting k')" "k = k' \<or> k \<in> keys_in (deep_sanitize o1 (Suc d) v')" "\<not> san_limit o1 < d"
    by (auto split: if_splits)
  then have "some_pattern ps k' \<or> has_pattern_match ps (Suc d + e) v'"
    using 3 by auto
  with kv 3(3) show ?case by (auto simp: list_ex_iff)
qed (auto split: if_splits)

lemma keys_hpp:
  assumes "k \<in> keys_in (deep_sanitize o1 0 (normalize_hpp (JObj q)))" "san_limit o1 < 64" "some_pattern ps k"
  shows "has_pattern_match ps 0 (JObj q)"
proof -
  from assms obtain k' v where kv: "(k', v) \<in> set q" "k = k' \<or> k \<in> keys_in (deep_sanitize o1 (Suc 0) (last_value v))"
    by (auto simp: normalize_hpp_def)
  have "some_pattern ps k' \<or> has_pattern_match ps (Suc 0) v"
  proof (cases "k = k'")
    case False
    with kv have k: "k \<in> keys_in (deep_sanitize o1 (Suc 0) (last_value v))" by simp
    show ?thesis
    proof (cases "\<exists>vs. v = JArr vs")
      case True
      then obtain vs where v: "v = JArr vs" by blast
      with k have "vs \<noteq> []" by (auto simp: last_value_def split: if_splits)
      moreover have "has_pattern_match ps (Suc 0 + 1) (last_value v)" using keys_deep[OF k, of 1 ps] assms by simp
      ultimately have "\<exists>x \<in> set vs. has_pattern_match ps (Suc (Suc 0)) x"
        using v by (auto simp: last_value_def intro!: bexI[of _ "last vs"])
      with v show ?thesis by (auto simp: list_ex_iff)
    next
      case False
      then have "last_value v = v" by (auto simp: last_value_def split: jsval.splits)
      with keys_deep[OF k, of 0 ps] assms show ?thesis by simp
    qed
  qed (use assms in auto)
  with kv show ?thesis by (auto simp: list_ex_iff)
qed

text \<open>What the hook has to do with a request: the status it is answered with, if it is answered. Neither the
  code's tests nor its order of them are used here.\<close>

definition over_limit :: "security_options \<Rightarrow> request \<Rightarrow> bool" where
  "over_limit o1 req \<longleftrightarrow> (\<exists>v n. map_of (rq_headers req) ''content-length'' = Some [v] \<and> parse_int v = Some n \<and> so_max_body o1 < n)"

definition blocked_agent :: "security_options \<Rightarrow> request \<Rightarrow> bool" where
  "blocked_agent o1 req \<longleftrightarrow> so_bots o1 \<and> (\<exists>p \<in> set (so_ua_patterns o1). p (user_agent req))"

definition operator_sent :: "security_options \<Rightarrow> request \<Rightarrow> bool" where
  "operator_sent o1 req \<longleftrightarrow> so_nosql o1
     \<and> (\<exists>v \<in> {rq_query req, rq_params req, rq_body req}. has_pattern_match (so_nosql_patterns o1) 0 v)"

definition refused_with :: "serializer \<Rightarrow> int \<Rightarrow> string \<Rightarrow> request \<times> native_response
    \<Rightarrow> thrown option \<times> request \<times> native_response \<Rightarrow> bool" where
  "refused_with ser st m before after \<longleftrightarrow>
     (case (before, after) of ((req, r), (e, req', r')) \<Rightarrow>
        req' = req \<and> nr_headers_sent r' \<and> nr_status_code r' = st
        \<and> (if \<exists>x. ser \<lparr> si_data = JNull, si_message = Some m, si_status = st, si_is_error = True \<rparr> = SerThrow x
           then e \<noteq> None \<and> nr_wire r' = nr_wire r
           else e = None \<and> (\<exists>rest. nr_wire r' = nr_wire r @ WStatus (status_line st) # rest)))"

lemma send_refuses:
  assumes "\<not> nr_headers_sent r" "\<not> nr_aborted r" "400 \<le> st"
  shows "refused_with ser st m (req, r) (map_prod id (Pair req) (nr_send ser JNull (Some m) (nr_status st r)))"
  using assms
  by (auto simp: refused_with_def nr_send_def nr_status_def Let_def emit_def head_of_def split: ser_result.splits)

lemma hook_cases:
  assumes "\<not> nr_headers_sent r" "\<not> nr_aborted r"
  shows "if over_limit o1 req then refused_with ser 413 ''Payload Too Large'' (req, r) (security_hook ser o1 (req, r))
    else if blocked_agent o1 req \<or> operator_sent o1 req then refused_with ser 403 ''Forbidden'' (req, r) (security_hook ser o1 (req, r))
    else security_hook ser o1 (req, r) = (None, clean_request o1 req, r)"
proof -
  have "too_large o1 req \<longleftrightarrow> over_limit o1 req"
    by (auto simp: too_large_def content_length_def over_limit_def split: option.splits list.splits)
  moreover have "so_bots o1 \<and> is_suspicious_user_agent (so_ua_patterns o1) (user_agent req) \<longleftrightarrow> blocked_agent o1 req"
    by (auto simp: blocked_agent_def is_suspicious_user_agent_def some_pattern_def list_ex_iff)
  moreover have "injection_found o1 req \<longleftrightarrow> operator_sent o1 req"
    by (auto simp: injection_found_def operator_sent_def detect_nosql_injection_def)
  ultimately show ?thesis
    using send_refuses[OF assms, of 413 ser "''Payload Too Large''" req] send_refuses[OF assms, of 403 ser "''Forbidden''" req]
    by (simp add: security_hook_def)
qed

lemma clean_parts:
  assumes "so_xss o1 \<or> so_proto o1 \<or> so_nul o1"
  shows "rq_body (clean_request o1 req) = sanitize_part o1 (rq_body req)"
    "rq_params (clean_request o1 req) = sanitize_part o1 (rq_params req)"
    "rq_query (clean_request o1 req) = sanitize_part o1 (if so_hpp o1 \<and> is_object (rq_query req) then normalize_hpp (rq_query req) else rq_query req)"
  using assms by (auto simp: clean_request_def Let_def)

lemma part_keys:
  assumes "k \<in> keys_in (sanitize_part o1 v)" "\<not> has_pattern_match ps 0 v" "so_depth o1 \<le> 64"
  shows "\<not> some_pattern ps k"
proof
  assume s: "some_pattern ps k"
  have "keys_in v = {}" if "\<not> truthy v" using that by (cases v) (auto simp: truthy_def)
  with assms(1) have "k \<in> keys_in (deep_sanitize (request_sanitizer o1) 0 v)" by (auto simp: sanitize_part_def split: if_splits)
  from keys_deep[OF this, of 0 ps] assms(2,3) s show False by (simp add: san_limit_def request_sanitizer_def)
qed

text \<open>C35. The hook decides every request that has not been answered yet: one with a declared length over the
  limit is answered with the status 413, else one of a blocked user agent, or with an operator where the
  operator check is on, with 403, and any other goes on, its response untouched. When that check and one
  of the sanitizer's passes are on, no key of the body or of the parameters of a request that goes on matches
  an operator pattern, at any depth, if the sanitizer's depth limit is at most 64, and no key of its query
  if the limit is below 64, the level that parameter pollution removes.\<close>

theorem security_hook_exact:
  assumes "\<not> nr_headers_sent r" "\<not> nr_aborted r" "security_hook ser o1 (req, r) = (e, req', r')"
  shows "if over_limit o1 req then refused_with ser 413 ''Payload Too Large'' (req, r) (e, req', r')
    else if blocked_agent o1 req \<or> operator_sent o1 req then refused_with ser 403 ''Forbidden'' (req, r) (e, req', r')
    else e = None \<and> r' = r \<and> req' = clean_request o1 req
      \<and> (so_nosql o1 \<and> (so_xss o1 \<or> so_proto o1 \<or> so_nul o1) \<and> so_depth o1 \<le> 64 \<longrightarrow>
          (\<forall>k \<in> keys_in (rq_body req') \<union> keys_in (rq_params req'). \<not> some_pattern (so_nosql_patterns o1) k)
          \<and> (so_depth o1 < 64 \<and> (\<exists>q. rq_query req = JObj q) \<longrightarrow>
              (\<forall>k \<in> keys_in (rq_query req'). \<not> some_pattern (so_nosql_patterns o1) k)))"
proof (cases "over_limit o1 req \<or> blocked_agent o1 req \<or> operator_sent o1 req")
  case True
  then show ?thesis using hook_cases[OF assms(1,2), of o1 req ser] assms(3) by auto
next
  case False
  then have r: "e = None" "r' = r" "req' = clean_request o1 req"
    using hook_cases[OF assms(1,2), of o1 req ser] assms(3) by auto
  have keys: "(\<forall>k \<in> keys_in (rq_body req') \<union> keys_in (rq_params req'). \<not> some_pattern (so_nosql_patterns o1) k)
          \<and> (so_depth o1 < 64 \<and> (\<exists>q. rq_query req = JObj q) \<longrightarrow>
              (\<forall>k \<in> keys_in (rq_query req'). \<not> some_pattern (so_nosql_patterns o1) k))"
    if on: "so_nosql o1" "so_xss o1 \<or> so_proto o1 \<or> so_nul o1" "so_depth o1 \<le> 64"
  proof -
    let ?ps = "so_nosql_patterns o1"
    have no: "\<not> has_pattern_match ?ps 0 (rq_query req)" "\<not> has_pattern_match ?ps 0 (rq_params req)" "\<not> has_pattern_match ?ps 0 (rq_body req)"
      using False on(1) by (auto simp: operator_sent_def)
    have "\<not> some_pattern ?ps k" if "k \<in> keys_in (rq_query req')" "so_depth o1 < 64" "rq_query req = JObj q" for k q
    proof (cases "so_hpp o1")
      case True
      with that clean_parts(3)[OF on(2), of req] r(3) have "k \<in> keys_in (deep_sanitize (request_sanitizer o1) 0 (normalize_hpp (JObj q)))"
        by (auto simp: sanitize_part_def normalize_hpp_def truthy_def is_object_def)
      from keys_hpp[OF this, of ?ps] no(1) that(2,3) show ?thesis by (auto simp: san_limit_def request_sanitizer_def)
    next
      case False
      with that(1) clean_parts(3)[OF on(2), of req] r(3) have "k \<in> keys_in (sanitize_part o1 (rq_query req))" by simp
      from part_keys[OF this no(1) on(3)] show ?thesis .
    qed
    moreover have "\<not> some_pattern ?ps k" if "k \<in> keys_in (rq_body req') \<union> keys_in (rq_params req')" for k
      using that part_keys[of k o1 _ ?ps] no(2,3) on(3) unfolding r(3) clean_parts(1,2)[OF on(2)] by blast
    ultimately show ?thesis by blast
  qed
  have "\<not> over_limit o1 req" "\<not> (blocked_agent o1 req \<or> operator_sent o1 req)" using False by simp_all
  then show ?thesis using r keys by (simp only: if_False simp_thms) metis
qed

definition strict_security :: security_options where
  "strict_security = security_defaults\<lparr>so_nosql := True, so_depth := 10\<rparr>"

text \<open>An operator in the body is answered 403 on the wire, and also where the same request declares a length
  over the limit the answer is 413.\<close>

definition operator_request :: request where
  "operator_request = (demo_request POST ''/login'')\<lparr>rq_query := JObj [], rq_body := JObj [(''user'', JObj [(''$NE'', JNull)])]\<rparr>"

theorem security_hook_exact_witness:
  "nr_status_code (snd (snd (security_hook envelope strict_security (operator_request, nr_new POST [])))) = 403
   \<and> nr_status_code (snd (snd (security_hook envelope strict_security
        (operator_request\<lparr>rq_headers := [(''content-length'', [''2000000''])]\<rparr>, nr_new POST [])))) = 413"
proof -
  let ?big = "operator_request\<lparr>rq_headers := [(''content-length'', [''2000000''])]\<rparr>"
  have n: "\<not> nr_headers_sent (nr_new POST [])" "\<not> nr_aborted (nr_new POST [])" by (simp_all add: nr_new_def)
  have small: "\<not> over_limit strict_security operator_request"
    by (simp add: over_limit_def operator_request_def demo_request_def)
  have "has_pattern_match (so_nosql_patterns strict_security) 0 (rq_body operator_request)" "so_nosql strict_security" by code_simp+
  then have i: "operator_sent strict_security operator_request" by (simp add: operator_sent_def)
  have "parse_int ''2000000'' = Some 2000000" "so_max_body strict_security < 2000000" by code_simp+
  then have big: "over_limit strict_security ?big" by (simp add: over_limit_def)
  obtain e req' r' where h: "security_hook envelope strict_security (operator_request, nr_new POST []) = (e, req', r')"
    by (metis prod.exhaust)
  obtain e2 req2 r2 where h2: "security_hook envelope strict_security (?big, nr_new POST []) = (e2, req2, r2)"
    by (metis prod.exhaust)
  from security_hook_exact[OF n h] small i have "refused_with envelope 403 ''Forbidden'' (operator_request, nr_new POST []) (e, req', r')"
    by simp
  moreover from security_hook_exact[OF n h2] big have "refused_with envelope 413 ''Payload Too Large'' (?big, nr_new POST []) (e2, req2, r2)"
    by simp
  ultimately show ?thesis using h h2 by (simp add: refused_with_def)
qed

end
