(* ===== verification/Json.thy ===== *)
theory Json
  imports Cookies Jobs_Cron
begin

text \<open>
  \<open>JSON.parse\<close> of the standard library, on texts whose numbers are integers, and the fact that it reads
  back what \<open>JSON.stringify\<close> prints. \<open>None\<close> is the syntax error it throws.
\<close>

definition json_ws :: "char \<Rightarrow> bool" where
  "json_ws c \<longleftrightarrow> (of_char c :: nat) \<in> {32, 9, 10, 13}"

definition skip :: "string \<Rightarrow> string" where
  "skip s = dropWhile json_ws s"

definition unescape :: "char \<Rightarrow> char option" where
  "unescape c =
     (if c = CHR 0x22 \<or> c = CHR 0x5C \<or> c = CHR ''/'' then Some c
      else if c = CHR ''b'' then Some (CHR 0x08) else if c = CHR ''f'' then Some (CHR 0x0C)
      else if c = CHR ''n'' then Some (CHR 0x0A) else if c = CHR ''r'' then Some (CHR 0x0D)
      else if c = CHR ''t'' then Some (CHR 0x09) else None)"

definition hex4 :: "string \<Rightarrow> nat option" where
  "hex4 s = fold (\<lambda>c acc. case (acc, hex_val c) of (Some n, Some d) \<Rightarrow> Some (16 * n + d) | _ \<Rightarrow> None) s (Some 0)"

definition eat :: "char \<Rightarrow> string \<Rightarrow> string option" where
  "eat x s = (case s of c # r \<Rightarrow> (if c = x then Some r else None) | [] \<Rightarrow> None)"

text \<open>The rest of a string literal; code units above 255 are outside the model.\<close>

fun parse_chars :: "string \<Rightarrow> (string \<times> string) option" where
  "parse_chars [] = None"
| "parse_chars (c # cs) =
     (if c = CHR 0x22 then Some ([], cs)
      else if c = CHR 0x5C then
        (case cs of
           [] \<Rightarrow> None
         | e # r \<Rightarrow>
             (if e = CHR ''u'' then
                (case r of
                   h1 # h2 # h3 # h4 # t \<Rightarrow>
                     (case hex4 [h1, h2, h3, h4] of
                        Some n \<Rightarrow> (if n < 256 then map_option (map_prod (Cons (char_of n)) id) (parse_chars t) else None)
                      | None \<Rightarrow> None)
                 | _ \<Rightarrow> None)
              else (case unescape e of Some x \<Rightarrow> map_option (map_prod (Cons x) id) (parse_chars r) | None \<Rightarrow> None)))
      else if (of_char c :: nat) < 32 then None
      else map_option (map_prod (Cons c) id) (parse_chars cs))"

definition minus_sign :: "string \<Rightarrow> bool \<times> string" where
  "minus_sign s = (case eat (CHR ''-'') s of Some r \<Rightarrow> (True, r) | None \<Rightarrow> (False, s))"

definition parse_number :: "string \<Rightarrow> (int \<times> string) option" where
  "parse_number s =
     (case minus_sign s of (neg, u) \<Rightarrow>
        (let ds = takeWhile is_digit u; r = drop (length ds) u
         in if ds = [] \<or> (hd ds = CHR ''0'' \<and> tl ds \<noteq> []) \<or> (r \<noteq> [] \<and> (hd r = CHR ''.'' \<or> hd r = CHR ''e'' \<or> hd r = CHR ''E''))
            then None else Some (if neg then - digits_value ds else digits_value ds, r)))"

definition strip_lit :: "string \<Rightarrow> 'a \<Rightarrow> string \<Rightarrow> ('a \<times> string) option" where
  "strip_lit w v s = (if prefix w s then Some (v, drop (length w) s) else None)"

text \<open>A later member replaces an earlier one of the same name, where it stands.\<close>

fun parse_value :: "nat \<Rightarrow> string \<Rightarrow> (jsval \<times> string) option"
  and parse_items :: "nat \<Rightarrow> jsval list \<Rightarrow> string \<Rightarrow> (jsval \<times> string) option"
  and parse_members :: "nat \<Rightarrow> (string \<times> jsval) list \<Rightarrow> string \<Rightarrow> (jsval \<times> string) option" where
  "parse_value 0 s = None"
| "parse_value (Suc n) s =
     (case skip s of
        [] \<Rightarrow> None
      | c # cs \<Rightarrow>
          (if c = CHR 0x22 then map_option (map_prod JStr id) (parse_chars cs)
           else if c = CHR ''['' then
             (case eat (CHR '']'') (skip cs) of Some r \<Rightarrow> Some (JArr [], r) | None \<Rightarrow> parse_items n [] cs)
           else if c = CHR ''{'' then
             (case eat (CHR ''}'') (skip cs) of Some r \<Rightarrow> Some (JObj [], r) | None \<Rightarrow> parse_members n [] cs)
           else if c = CHR ''n'' then strip_lit ''null'' JNull (c # cs)
           else if c = CHR ''t'' then strip_lit ''true'' (JBool True) (c # cs)
           else if c = CHR ''f'' then strip_lit ''false'' (JBool False) (c # cs)
           else map_option (map_prod JNum id) (parse_number (c # cs))))"
| "parse_items 0 acc s = None"
| "parse_items (Suc n) acc s =
     (case parse_value n s of
        None \<Rightarrow> None
      | Some (v, r) \<Rightarrow>
          (case eat (CHR '','') (skip r) of
             Some t \<Rightarrow> parse_items n (acc @ [v]) t
           | None \<Rightarrow> map_option (Pair (JArr (acc @ [v]))) (eat (CHR '']'') (skip r))))"
| "parse_members 0 acc s = None"
| "parse_members (Suc n) acc s =
     (case eat (CHR 0x22) (skip s) of
        None \<Rightarrow> None
      | Some cs \<Rightarrow>
          (case parse_chars cs of
             None \<Rightarrow> None
           | Some (k, r) \<Rightarrow>
               (case eat (CHR '':'') (skip r) of
                  None \<Rightarrow> None
                | Some t \<Rightarrow>
                    (case parse_value n t of
                       None \<Rightarrow> None
                     | Some (v, u) \<Rightarrow>
                         (case eat (CHR '','') (skip u) of
                            Some w \<Rightarrow> parse_members n (AList.update k v acc) w
                          | None \<Rightarrow> map_option (Pair (JObj (AList.update k v acc))) (eat (CHR ''}'') (skip u)))))))"

definition json_parse :: "string \<Rightarrow> jsval option" where
  "json_parse s = (case parse_value (2 * length s + 2) s of Some (v, r) \<Rightarrow> (if skip r = [] then Some v else None) | None \<Rightarrow> None)"

subsection \<open>It reads what JSON.stringify prints\<close>

lemma hex_val_hex_digit: "n < 16 \<Longrightarrow> hex_val (hex_digit n) = Some n"
  by (auto simp: hex_val_def hex_digit_def Let_def)

lemma parse_json_char: "parse_chars (json_char c @ s) = map_option (map_prod (Cons c) id) (parse_chars s)"
proof -
  consider (q) "c = CHR 0x22" | (b) "c = CHR 0x5C" | (b8) "c = CHR 0x08" | (f) "c = CHR 0x0C" | (n) "c = CHR 0x0A"
    | (r) "c = CHR 0x0D" | (t) "c = CHR 0x09"
    | (other) "c \<noteq> CHR 0x22" "c \<noteq> CHR 0x5C" "c \<noteq> CHR 0x08" "c \<noteq> CHR 0x0C" "c \<noteq> CHR 0x0A" "c \<noteq> CHR 0x0D" "c \<noteq> CHR 0x09"
    by metis
  then show ?thesis
  proof cases
    case other
    let ?n = "of_char c :: nat"
    show ?thesis
    proof (cases "?n < 32")
      case True
      have z: "hex_val (CHR ''0'') = Some 0" by (simp add: hex_val_def)
      have "hex4 [CHR ''0'', CHR ''0'', hex_digit (?n div 16), hex_digit (?n mod 16)] = Some ?n"
        using True by (simp add: hex4_def hex_val_hex_digit z)
      then show ?thesis using True by (simp add: json_char_def other)
    next
      case False
      then show ?thesis by (simp add: json_char_def other)
    qed
  qed (simp_all add: json_char_def unescape_def)
qed

lemma parse_json_string: "parse_chars (concat (map json_char s) @ CHR 0x22 # r) = Some (s, r)"
  by (induction s) (simp_all add: parse_json_char del: parse_chars.simps(2), simp)

fun json_plain :: "jsval \<Rightarrow> bool" where
  "json_plain JUndef = False"
| "json_plain (JInst s) = False"
| "json_plain (JArr vs) = (\<forall>v \<in> set vs. json_plain v)"
| "json_plain (JObj kvs) = (distinct_keys kvs \<and> (\<forall>(k, v) \<in> set kvs. json_plain v))"
| "json_plain v = True"

definition json_text_of :: "jsval \<Rightarrow> string" where
  "json_text_of v = the (json_stringify v)"

lemma plain_stringify: "json_plain v \<Longrightarrow> json_stringify v = Some (json_text_of v)"
  by (cases v) (auto simp: json_text_of_def)

lemma text_arr:
  assumes "json_plain (JArr vs)"
  shows "json_text_of (JArr vs) = CHR ''['' # join_with '','' (map json_text_of vs) @ '']''"
proof -
  have "map (\<lambda>v. case json_stringify v of Some s \<Rightarrow> s | None \<Rightarrow> ''null'') vs = map json_text_of vs"
    using assms by (induction vs) (simp_all add: plain_stringify)
  then have "json_stringify (JArr vs) = Some (''['' @ join_with '','' (map json_text_of vs) @ '']'')"
    unfolding json_stringify.simps by (rule arg_cong)
  then show ?thesis by (simp add: json_text_of_def)
qed

lemma text_obj:
  assumes "json_plain (JObj kvs)"
  shows "json_text_of (JObj kvs) = CHR ''{'' # join_with '','' (map (\<lambda>(k, v). json_string k @ CHR '':'' # json_text_of v) kvs) @ ''}''"
proof -
  have "map (\<lambda>(k, s). json_string k @ '':'' @ the s) (filter (\<lambda>(k, s). s \<noteq> None) (map (\<lambda>(k, v). (k, json_stringify v)) kvs))
      = map (\<lambda>(k, v). json_string k @ CHR '':'' # json_text_of v) kvs"
    using assms by (induction kvs) (auto simp: plain_stringify)
  then show ?thesis by (simp add: json_text_of_def)
qed

definition json_delim :: "string \<Rightarrow> bool" where
  "json_delim r \<longleftrightarrow> r = [] \<or> hd r = CHR '','' \<or> hd r = CHR '']'' \<or> hd r = CHR ''}''"

lemma delim_simps [simp]: "json_delim []" "json_delim (CHR '','' # r)" "json_delim (CHR '']'' # r)" "json_delim (CHR ''}'' # r)"
  by (simp_all add: json_delim_def)

lemma skip_delim: "json_delim r \<Longrightarrow> skip r = r"
  by (cases r) (auto simp: json_delim_def skip_def json_ws_def)

lemma show_nat_first: "0 < n \<Longrightarrow> hd (show_nat n) \<noteq> CHR ''0''"
proof (induction n rule: show_nat.induct)
  case (1 n)
  show ?case
  proof (cases "n < 10")
    case True
    have "(of_char (hd (show_nat n)) :: nat) = 48 + n" using True by (subst show_nat.simps) simp
    moreover have "(of_char (CHR ''0'') :: nat) = 48" by simp
    ultimately show ?thesis using 1(2) by (metis add_cancel_left_right less_numeral_extra(3))
  next
    case False
    then show ?thesis using 1 by (subst show_nat.simps) (simp add: div_greater_zero_iff)
  qed
qed

text \<open>The first character of a printed value tells which kind it is.\<close>

lemma skip_cons: "\<not> json_ws c \<Longrightarrow> skip (c # s) = c # s"
  by (simp add: skip_def)

lemma takeWhile_digits: "json_delim r \<Longrightarrow> takeWhile is_digit (show_nat n @ r) = show_nat n \<and> dropWhile is_digit (show_nat n @ r) = r"
proof -
  assume d: "json_delim r"
  have "r = [] \<or> \<not> is_digit (hd r)" using d by (auto simp: json_delim_def is_digit_def)
  then have r: "takeWhile is_digit r = []" "dropWhile is_digit r = r" by (cases r; simp)+
  have "\<forall>c \<in> set (show_nat n). is_digit c" using show_nat_is_digit by blast
  then show ?thesis by (simp add: takeWhile_append2 dropWhile_append2 r)
qed

lemma show_nat_zero: "hd (show_nat n) = CHR ''0'' \<Longrightarrow> tl (show_nat n) = []"
  using show_nat_first[of n] by (cases "n = 0") (auto simp: show_nat.simps)

lemma delim_not_fraction: "json_delim r \<Longrightarrow> r \<noteq> [] \<Longrightarrow> hd r \<noteq> CHR ''.'' \<and> hd r \<noteq> CHR ''e'' \<and> hd r \<noteq> CHR ''E''"
  unfolding json_delim_def by (elim disjE) simp_all

lemma show_nat_cons: obtains c cs where "show_nat n = c # cs" "is_digit c"
  using show_nat_is_digit[of _ n] by (cases "show_nat n") auto

lemma parse_number_show: "json_delim r \<Longrightarrow> parse_number (show_int i @ r) = Some (i, r)"
proof -
  assume d: "json_delim r"
  note tw = takeWhile_digits[OF d]
  have z: "\<not> (hd (show_nat n) = CHR ''0'' \<and> tl (show_nat n) \<noteq> [])" for n using show_nat_zero by blast
  have f: "\<not> (r \<noteq> [] \<and> (hd r = CHR ''.'' \<or> hd r = CHR ''e'' \<or> hd r = CHR ''E''))" using delim_not_fraction[OF d] by blast
  have m: "minus_sign (show_int i @ r) = (i < 0, show_nat (nat (abs i)) @ r)"
  proof (cases "i < 0")
    case False
    obtain c cs where c: "show_nat (nat i) = c # cs" "is_digit c" by (rule show_nat_cons)
    then have "c \<noteq> CHR ''-''" by (auto simp: is_digit_def)
    with c False show ?thesis by (simp add: minus_sign_def eat_def show_int_def)
  qed (simp add: minus_sign_def eat_def show_int_def)
  show ?thesis
    using z f by (auto simp: parse_number_def m tw digits_value_show_nat Let_def)
qed

lemma show_int_cons: obtains c cs where "show_int i = c # cs" "c = CHR ''-'' \<or> is_digit c"
proof (cases "i < 0")
  case True
  then show ?thesis using that by (simp add: show_int_def)
next
  case False
  then show ?thesis using that show_nat_cons[of "nat i"] by (metis show_int_def)
qed

lemma json_text_first:
  assumes "json_plain v"
  obtains c cs where "json_text_of v = c # cs" "\<not> json_ws c" "c \<noteq> CHR '']''" "c \<noteq> CHR ''}''"
proof (cases v)
  case (JNum i)
  obtain c cs where c: "show_int i = c # cs" "c = CHR ''-'' \<or> is_digit c" by (rule show_int_cons)
  moreover from c(2) have "\<not> json_ws c \<and> c \<noteq> CHR '']'' \<and> c \<noteq> CHR ''}''" by (auto simp: json_ws_def is_digit_def)
  ultimately show ?thesis using that JNum by (simp add: json_text_of_def)
next
  case (JBool b)
  then show ?thesis using that by (cases b) (simp_all add: json_text_of_def json_ws_def)
qed (use assms in \<open>simp_all add: that json_text_of_def json_ws_def json_string_def\<close>)

lemma eat_simps [simp]: "eat x [] = None" "eat x (c # r) = (if c = x then Some r else None)"
  by (simp_all add: eat_def)

lemma skip_string [simp]: "skip (json_string k @ r) = json_string k @ r"
  by (simp add: json_string_def skip_def json_ws_def)

lemma skip_token [simp]: "skip (CHR '','' # r) = CHR '','' # r" "skip (CHR '']'' # r) = CHR '']'' # r" "skip (CHR ''}'' # r) = CHR ''}'' # r"
  "skip (CHR '':'' # r) = CHR '':'' # r" "skip (CHR ''['' # r) = CHR ''['' # r" "skip (CHR ''{'' # r) = CHR ''{'' # r"
  "skip (CHR 0x22 # r) = CHR 0x22 # r"
  by (simp_all add: skip_def json_ws_def)

text \<open>\<open>reads v\<close>: printed, a value is read back wherever it stands.\<close>

definition reads :: "jsval \<Rightarrow> bool" where
  "reads v \<longleftrightarrow> (\<forall>n r. json_delim r \<longrightarrow> 2 * length (json_text_of v) < n \<longrightarrow> parse_value n (json_text_of v @ r) = Some (v, r))"

lemma parse_items_text:
  "vs \<noteq> [] \<Longrightarrow> \<forall>v \<in> set vs. reads v \<and> json_plain v \<Longrightarrow> 2 * length (join_with '','' (map json_text_of vs)) + 1 < n \<Longrightarrow>
   parse_items n acc (join_with '','' (map json_text_of vs) @ CHR '']'' # r) = Some (JArr (acc @ vs), r)"
proof (induction vs arbitrary: n acc)
  case (Cons v vs)
  from Cons.prems(3) obtain m where n: "n = Suc m" by (cases n) auto
  have len: "2 * length (json_text_of v) < m" using Cons.prems(3) n by (simp add: join_with_Cons split: if_splits)
  show ?case
  proof (cases "vs = []")
    case True
    have "parse_value m (json_text_of v @ CHR '']'' # r) = Some (v, CHR '']'' # r)"
      using Cons.prems(2) len by (simp add: reads_def)
    then show ?thesis by (simp add: n True)
  next
    case False
    let ?rest = "join_with '','' (map json_text_of vs) @ CHR '']'' # r"
    have "parse_value m (json_text_of v @ CHR '','' # ?rest) = Some (v, CHR '','' # ?rest)"
      using Cons.prems(2) len by (simp add: reads_def)
    moreover have "2 * length (join_with '','' (map json_text_of vs)) + 1 < m"
      using Cons.prems(3) n False by (simp add: join_with_Cons)
    ultimately show ?thesis
      using Cons.IH[OF False, of m "acc @ [v]"] Cons.prems(2) False by (simp add: n join_with_Cons)
  qed
qed simp

abbreviation member_text :: "string \<times> jsval \<Rightarrow> string" where
  "member_text \<equiv> \<lambda>(k, v). json_string k @ CHR '':'' # json_text_of v"

lemma parse_members_text:
  "kvs \<noteq> [] \<Longrightarrow> \<forall>(k, v) \<in> set kvs. reads v \<and> json_plain v \<Longrightarrow> 2 * length (join_with '','' (map member_text kvs)) + 1 < n \<Longrightarrow>
   distinct_keys (acc @ kvs) \<Longrightarrow>
   parse_members n acc (join_with '','' (map member_text kvs) @ CHR ''}'' # r) = Some (JObj (acc @ kvs), r)"
proof (induction kvs arbitrary: n acc)
  case (Cons p kvs)
  obtain k v where p: "p = (k, v)" by force
  from Cons.prems(3) obtain m where n: "n = Suc m" by (cases n) auto
  have len: "2 * length (json_text_of v) < m" using Cons.prems(3) n p by (simp add: join_with_Cons split: if_splits)
  have new: "AList.update k v acc = acc @ [(k, v)]" using Cons.prems(4) p by (intro update_new) auto
  have head: "eat (CHR 0x22) (skip (json_string k @ s)) = Some (concat (map json_char k) @ CHR 0x22 # s)" for s
    by (simp add: json_string_def)
  show ?case
  proof (cases "kvs = []")
    case True
    have "parse_value m (json_text_of v @ CHR ''}'' # r) = Some (v, CHR ''}'' # r)"
      using Cons.prems(2) len p by (simp add: reads_def)
    then show ?thesis by (simp add: n True p head parse_json_string new del: skip_string)
  next
    case False
    let ?rest = "join_with '','' (map member_text kvs) @ CHR ''}'' # r"
    have "parse_value m (json_text_of v @ CHR '','' # ?rest) = Some (v, CHR '','' # ?rest)"
      using Cons.prems(2) len p by (simp add: reads_def)
    moreover have "2 * length (join_with '','' (map member_text kvs)) + 1 < m"
      using Cons.prems(3) n False p by (simp add: join_with_Cons)
    moreover have "distinct_keys ((acc @ [(k, v)]) @ kvs)" using Cons.prems(4) p by simp
    ultimately show ?thesis
      using Cons.IH[OF False, of m "acc @ [(k, v)]"] Cons.prems(2) False
      by (simp add: n p head parse_json_string new join_with_Cons del: skip_string)
  qed
qed simp

lemma parse_text: "json_plain v \<Longrightarrow> reads v"
proof (induction v)
  case (JNum i)
  show ?case unfolding reads_def
  proof (intro allI impI)
    fix n r assume d: "json_delim r" and len: "2 * length (json_text_of (JNum i)) < n"
    then obtain m where n: "n = Suc m" by (cases n) auto
    obtain c cs where c: "show_int i = c # cs" "c = CHR ''-'' \<or> is_digit c" by (rule show_int_cons)
    from c(2) have "\<not> json_ws c" "c \<noteq> CHR 0x22" "c \<noteq> CHR ''[''" "c \<noteq> CHR ''{''" "c \<noteq> CHR ''n''" "c \<noteq> CHR ''t''" "c \<noteq> CHR ''f''"
      by (auto simp: json_ws_def is_digit_def)
    then show "parse_value n (json_text_of (JNum i) @ r) = Some (JNum i, r)"
      using parse_number_show[OF d, of i] c(1) by (simp add: n json_text_of_def skip_cons)
  qed
next
  case (JArr vs)
  show ?case unfolding reads_def
  proof (intro allI impI)
    fix n r assume len: "2 * length (json_text_of (JArr vs)) < n"
    then obtain m where n: "n = Suc m" by (cases n) auto
    note t = text_arr[OF JArr.prems]
    show "parse_value n (json_text_of (JArr vs) @ r) = Some (JArr vs, r)"
    proof (cases vs)
      case Nil
      then show ?thesis by (simp add: n json_text_of_def)
    next
      case (Cons v ws)
      then have v: "json_plain v" using JArr.prems by simp
      obtain c cs where c: "json_text_of v = c # cs" "\<not> json_ws c" "c \<noteq> CHR '']''" using json_text_first[OF v] by metis
      let ?s = "join_with '','' (map json_text_of vs) @ CHR '']'' # r"
      have "eat (CHR '']'') (skip ?s) = None" using c by (simp add: Cons join_with_Cons skip_cons)
      moreover have "parse_items m [] ?s = Some (JArr vs, r)"
        using parse_items_text[of vs m "[]" r] JArr Cons len n t by auto
      ultimately show ?thesis by (simp add: n t)
    qed
  qed
next
  case (JObj kvs)
  show ?case unfolding reads_def
  proof (intro allI impI)
    fix n r assume len: "2 * length (json_text_of (JObj kvs)) < n"
    then obtain m where n: "n = Suc m" by (cases n) auto
    note t = text_obj[OF JObj.prems]
    show "parse_value n (json_text_of (JObj kvs) @ r) = Some (JObj kvs, r)"
    proof (cases kvs)
      case Nil
      then show ?thesis by (simp add: n json_text_of_def)
    next
      case (Cons p ps)
      let ?s = "join_with '','' (map member_text kvs) @ CHR ''}'' # r"
      have "eat (CHR ''}'') (skip ?s) = None" by (simp add: Cons join_with_Cons json_string_def split: prod.splits)
      moreover have "\<forall>(k, v) \<in> set kvs. reads v \<and> json_plain v" using JObj by fastforce
      then have "parse_members m [] ?s = Some (JObj kvs, r)"
        using parse_members_text[of kvs m "[]" r] JObj.prems Cons len n t by auto
      ultimately show ?thesis by (simp add: n t)
    qed
  qed
next
  case (JStr s)
  show ?case unfolding reads_def
  proof (intro allI impI)
    fix n r assume len: "2 * length (json_text_of (JStr s)) < n"
    then obtain m where n: "n = Suc m" by (cases n) auto
    show "parse_value n (json_text_of (JStr s) @ r) = Some (JStr s, r)"
      by (simp add: n json_text_of_def json_string_def parse_json_string)
  qed
next
  case (JBool b)
  show ?case unfolding reads_def
  proof (intro allI impI)
    fix n r assume len: "2 * length (json_text_of (JBool b)) < n"
    then obtain m where n: "n = Suc m" by (cases n) auto
    show "parse_value n (json_text_of (JBool b) @ r) = Some (JBool b, r)"
      by (cases b) (simp_all add: n json_text_of_def skip_def json_ws_def strip_lit_def)
  qed
next
  case JNull
  show ?case unfolding reads_def
  proof (intro allI impI)
    fix n r assume len: "2 * length (json_text_of JNull) < n"
    then obtain m where n: "n = Suc m" by (cases n) auto
    show "parse_value n (json_text_of JNull @ r) = Some (JNull, r)"
      by (simp add: n json_text_of_def skip_def json_ws_def strip_lit_def)
  qed
qed simp_all

theorem json_round_trip:
  assumes "json_plain v" shows "json_stringify v = Some (json_text_of v) \<and> json_parse (json_text_of v) = Some v"
proof -
  have "parse_value (2 * length (json_text_of v) + 2) (json_text_of v @ []) = Some (v, [])"
    using parse_text[OF assms, unfolded reads_def, rule_format, of "[]" "2 * length (json_text_of v) + 2"] by (simp del: parse_value.simps)
  then have "json_parse (json_text_of v) = Some v" by (simp add: json_parse_def skip_def del: parse_value.simps)
  then show ?thesis using plain_stringify[OF assms] by blast
qed

end
