(* ===== verification/Ws_Rooms.thy ===== *)
theory Ws_Rooms
  imports Json Security Jwt_Props
begin

text \<open>
  Rooms of WebSocket clients: \<open>packages/ws/src/room.ts\<close>, \<open>room-manager.ts\<close> and the client object that
  \<open>packages/native/src/index.ts\<close> hands to a route. uWebSockets.js is the list of sockets: what each is
  subscribed to and what it was sent; topics are global to the server. Calls on a closed socket do
  nothing (the native client swallows that error). A value that is an instance of a class has no enumerable
  property. The handlers of the manager's events are a log; the
  calls to the broker are a list of calls issued, whose failure comes back later as \<open>broker_failure\<close>.
\<close>

subsection \<open>Sockets\<close>

datatype payload = TextFrame string | BytesFrame string

type_synonym frame = "payload \<times> bool option"

text \<open>\<open>wk_client\<close>: the entry of \<open>wsInternals\<close> for the state of the connection.\<close>

record ws_socket =
  wk_open :: bool
  wk_client :: "string option"
  wk_state :: jsval
  wk_topics :: "string list"
  wk_inbox :: "frame list"

definition socket_new :: "jsval \<Rightarrow> ws_socket" where
  "socket_new st = \<lparr> wk_open = True, wk_client = None, wk_state = st, wk_topics = [], wk_inbox = [] \<rparr>"

definition on_socket :: "nat \<Rightarrow> (ws_socket \<Rightarrow> ws_socket) \<Rightarrow> ws_socket list \<Rightarrow> ws_socket list" where
  "on_socket k f ts = (if k < length ts \<and> wk_open (ts ! k) then ts[k := f (ts ! k)] else ts)"

definition sock_send :: "nat \<Rightarrow> frame \<Rightarrow> ws_socket list \<Rightarrow> ws_socket list" where
  "sock_send k f = on_socket k (\<lambda>s. s\<lparr>wk_inbox := wk_inbox s @ [f]\<rparr>)"

definition sock_subscribe :: "nat \<Rightarrow> string \<Rightarrow> ws_socket list \<Rightarrow> ws_socket list" where
  "sock_subscribe k topic = on_socket k (\<lambda>s. s\<lparr>wk_topics := set_add topic (wk_topics s)\<rparr>)"

definition sock_unsubscribe :: "nat \<Rightarrow> string \<Rightarrow> ws_socket list \<Rightarrow> ws_socket list" where
  "sock_unsubscribe k topic = on_socket k (\<lambda>s. s\<lparr>wk_topics := removeAll topic (wk_topics s)\<rparr>)"

definition is_open :: "nat \<Rightarrow> ws_socket list \<Rightarrow> bool" where
  "is_open k ts \<longleftrightarrow> k < length ts \<and> wk_open (ts ! k)"

text \<open>\<open>ws.publish\<close>: every other open socket subscribed to the topic.\<close>

definition sock_publish :: "nat \<Rightarrow> string \<Rightarrow> frame \<Rightarrow> ws_socket list \<Rightarrow> ws_socket list" where
  "sock_publish k topic f ts =
     (if is_open k ts
      then map (\<lambda>(j, s). if j \<noteq> k \<and> wk_open s \<and> topic \<in> set (wk_topics s) then s\<lparr>wk_inbox := wk_inbox s @ [f]\<rparr> else s)
             (enumerate 0 ts)
      else ts)"

text \<open>Closing a socket ends its subscriptions; uWebSockets.js then calls the \<open>close\<close> handler.\<close>

definition sock_close :: "nat \<Rightarrow> ws_socket list \<Rightarrow> ws_socket list" where
  "sock_close k = on_socket k (\<lambda>s. s\<lparr>wk_open := False, wk_topics := []\<rparr>)"

subsection \<open>The manager\<close>

text \<open>What a route's message handler is given: a buffer (here the text it decodes to), or the value that
  the adapter has parsed and validated when the route has a schema.\<close>

datatype ws_data = WsBuffer string | WsValue jsval

datatype room_event =
    EvJoin string string | EvLeave string string | EvRoomCreate string | EvRoomDelete string
  | EvMessage string ws_data | EvError | EvConnect string | EvDisconnect string "string list"

datatype broker_call = CallPublish string string | CallSubscribe string | CallUnsubscribe string | CallClose

text \<open>A member is a client with its socket, and the time it joined.\<close>

record room =
  ro_name :: string
  ro_created :: int
  ro_members :: "(string, nat \<times> int) jsmap"

record room_manager =
  rm_max_rooms :: "nat option"
  rm_before_join :: bool
  rm_allowlist :: "(string \<Rightarrow> bool) option"
  rm_node :: "string option"
  rm_rooms :: "(string, room) jsmap"
  rm_clients :: "(string, nat) jsmap"
  rm_ws :: "(string, nat) jsmap"
  rm_client_rooms :: "(string, string list) jsmap"
  rm_received :: nat
  rm_sent :: nat
  rm_dropped :: nat
  rm_ctl :: bool
  rm_waiters :: "(string, (jsval, nat) jsmap) jsmap"
  rm_pending :: "(string \<times> nat \<times> string) list"
  rm_events :: "room_event list"
  rm_calls :: "broker_call list"

type_synonym ws_state = "room_manager \<times> ws_socket list"

definition log_event :: "room_event \<Rightarrow> room_manager \<Rightarrow> room_manager" where
  "log_event e m = m\<lparr>rm_events := rm_events m @ [e]\<rparr>"

definition broker_call :: "broker_call \<Rightarrow> room_manager \<Rightarrow> room_manager" where
  "broker_call c m = (if rm_node m = None then m else m\<lparr>rm_calls := rm_calls m @ [c]\<rparr>)"

definition ws_ctl_channel :: string where
  "ws_ctl_channel = ''axiomify:ws:ctl''"

definition ws_room_channel :: "string \<Rightarrow> string" where
  "ws_room_channel r = ''axiomify:ws:room:'' @ r"

text \<open>The constructor subscribes to the control channel when there is a broker.\<close>

definition manager_new :: "nat option \<Rightarrow> bool \<Rightarrow> (string \<Rightarrow> bool) option \<Rightarrow> string option \<Rightarrow> room_manager" where
  "manager_new max_rooms before allow node =
     broker_call (CallSubscribe ws_ctl_channel)
       \<lparr> rm_max_rooms = max_rooms, rm_before_join = before, rm_allowlist = allow, rm_node = node, rm_rooms = [], rm_clients = [],
         rm_ws = [], rm_client_rooms = [], rm_received = 0, rm_sent = 0, rm_dropped = 0, rm_ctl = (node \<noteq> None), rm_waiters = [],
         rm_pending = [], rm_events = [], rm_calls = [] \<rparr>"

definition room_char :: "char \<Rightarrow> bool" where
  "room_char c \<longleftrightarrow> is_alnum c \<or> c \<in> set ''_-.:/@#''"

definition room_name_error :: "string \<Rightarrow> string option" where
  "room_name_error n =
     (if n = [] \<or> 256 < length n then Some ''Invalid room name: must be a non-empty string up to 256 characters''
      else if \<not> list_all room_char n then Some ''Invalid room name: contains illegal characters'' else None)"

definition room_size :: "room \<Rightarrow> nat" where
  "room_size r = length (ro_members r)"

definition room_has :: "string \<Rightarrow> room \<Rightarrow> bool" where
  "room_has cid r \<longleftrightarrow> cid \<in> set (keys (ro_members r))"

definition get_or_create_room :: "int \<Rightarrow> string \<Rightarrow> room_manager \<Rightarrow> string option \<times> room_manager" where
  "get_or_create_room now n m =
     (case room_name_error n of
        Some e \<Rightarrow> (Some e, m)
      | None \<Rightarrow>
          (None, if map_of (rm_rooms m) n = None
                 then log_event (EvRoomCreate n)
                        (m\<lparr>rm_rooms := AList.update n \<lparr> ro_name = n, ro_created = now, ro_members = [] \<rparr> (rm_rooms m)\<rparr>)
                 else m))"

definition room_limit_error :: "string \<Rightarrow> nat \<Rightarrow> nat \<Rightarrow> string" where
  "room_limit_error cid k n = ''Room limit exceeded: client '' @ cid @ '' is already in '' @ show_nat k @ '' rooms (max: '' @ show_nat n
     @ ''). Leave a room before joining a new one.''"

definition over_limit :: "nat \<Rightarrow> nat option \<Rightarrow> bool" where
  "over_limit k bound = (case bound of Some n \<Rightarrow> n \<le> k | None \<Rightarrow> False)"

text \<open>\<open>_joinRoom\<close>: the message of what it throws.\<close>

definition join_room :: "int \<Rightarrow> string \<Rightarrow> string \<Rightarrow> ws_state \<Rightarrow> string option \<times> ws_state" where
  "join_room now cid n s =
     (case s of (m, ts) \<Rightarrow>
        case room_name_error n of
          Some e \<Rightarrow> (Some e, m, ts)
        | None \<Rightarrow>
            (case map_of (rm_client_rooms m) cid of
               None \<Rightarrow> (Some (''Client '' @ cid @ '' is not connected''), m, ts)
             | Some rs \<Rightarrow>
                 if n \<in> set rs then (None, m, ts)
                 else if over_limit (length rs) (rm_max_rooms m) then (Some (room_limit_error cid (length rs) (the (rm_max_rooms m))), m, ts)
                 else
                   let k = (case map_of (rm_clients m) cid of Some j \<Rightarrow> j | None \<Rightarrow> length ts);
                       ts1 = (case map_of (rm_ws m) cid of Some j \<Rightarrow> sock_subscribe j n ts | None \<Rightarrow> ts);
                       m1 = snd (get_or_create_room now n m);
                       room = (case map_of (rm_rooms m1) n of Some r \<Rightarrow> r | None \<Rightarrow> \<lparr> ro_name = n, ro_created = now, ro_members = [] \<rparr>);
                       room1 = room\<lparr>ro_members := AList.update cid (k, now) (ro_members room)\<rparr>;
                       m2 = m1\<lparr>rm_rooms := AList.update n room1 (rm_rooms m1),
                               rm_client_rooms := AList.update cid (rs @ [n]) (rm_client_rooms m1)\<rparr>;
                       m3 = (if room_size room1 = 1 then broker_call (CallSubscribe (ws_room_channel n)) m2 else m2)
                   in (None, log_event (EvJoin n cid) m3, ts1)))"

definition leave_room :: "string \<Rightarrow> string \<Rightarrow> ws_state \<Rightarrow> ws_state" where
  "leave_room cid n s =
     (case s of (m, ts) \<Rightarrow>
        case map_of (rm_client_rooms m) cid of
          None \<Rightarrow> (m, ts)
        | Some rs \<Rightarrow>
            if n \<notin> set rs then (m, ts)
            else
              let ts1 = (case map_of (rm_ws m) cid of Some j \<Rightarrow> sock_unsubscribe j n ts | None \<Rightarrow> ts);
                  m1 = m\<lparr>rm_client_rooms := AList.update cid (removeAll n rs) (rm_client_rooms m)\<rparr>
              in case map_of (rm_rooms m1) n of
                   None \<Rightarrow> (m1, ts1)
                 | Some room \<Rightarrow>
                     (let room1 = room\<lparr>ro_members := AList.delete cid (ro_members room)\<rparr>;
                          m2 = log_event (EvLeave n cid) (m1\<lparr>rm_rooms := AList.update n room1 (rm_rooms m1)\<rparr>)
                      in if ro_members room1 = []
                         then (log_event (EvRoomDelete n) (broker_call (CallUnsubscribe (ws_room_channel n))
                                 (m2\<lparr>rm_rooms := AList.delete n (rm_rooms m2)\<rparr>)), ts1)
                         else (m2, ts1)))"

definition leave_all :: "string \<Rightarrow> ws_state \<Rightarrow> ws_state" where
  "leave_all cid s = fold (leave_room cid) (case map_of (rm_client_rooms (fst s)) cid of Some rs \<Rightarrow> rs | None \<Rightarrow> []) s"

text \<open>\<open>_onOpen\<close> with the identifier drawn, for the socket that has just been opened.\<close>

definition on_open :: "string \<Rightarrow> nat \<Rightarrow> room_manager \<Rightarrow> room_manager" where
  "on_open cid k m = m\<lparr>rm_client_rooms := AList.update cid [] (rm_client_rooms m), rm_ws := AList.update cid k (rm_ws m),
     rm_clients := AList.update cid k (rm_clients m)\<rparr>"

definition on_close :: "string \<Rightarrow> ws_state \<Rightarrow> ws_state" where
  "on_close cid s =
     (if map_of (rm_clients (fst s)) cid = None then s
      else
        case leave_all cid s of (m, ts) \<Rightarrow>
          (m\<lparr>rm_clients := AList.delete cid (rm_clients m), rm_ws := AList.delete cid (rm_ws m),
             rm_client_rooms := AList.delete cid (rm_client_rooms m)\<rparr>, ts))"

text \<open>Sending through a \<open>RoomClient\<close>, and the \<open>publish\<close> that the manager wraps to count.\<close>

definition client_send :: "nat \<Rightarrow> frame \<Rightarrow> ws_state \<Rightarrow> ws_state" where
  "client_send k f s = (case s of (m, ts) \<Rightarrow> (m\<lparr>rm_sent := Suc (rm_sent m)\<rparr>, sock_send k f ts))"

definition counted_publish :: "nat \<Rightarrow> string \<Rightarrow> frame \<Rightarrow> ws_state \<Rightarrow> ws_state" where
  "counted_publish k topic f s =
     (case s of (m, ts) \<Rightarrow>
        (m\<lparr>rm_sent := rm_sent m + (case map_of (rm_rooms m) topic of Some r \<Rightarrow> room_size r | None \<Rightarrow> 1)\<rparr>, sock_publish k topic f ts))"

definition object_frame :: "jsval \<Rightarrow> frame" where
  "object_frame v = (TextFrame (the (json_stringify v)), None)"

subsection \<open>Rooms\<close>

definition local_broadcast :: "string \<Rightarrow> frame \<Rightarrow> ws_state \<Rightarrow> ws_state" where
  "local_broadcast n f s =
     (case map_of (rm_rooms (fst s)) n of
        None \<Rightarrow> s
      | Some room \<Rightarrow>
          (case ro_members room of
             [] \<Rightarrow> s
           | (cid, k, _) # _ \<Rightarrow> client_send k f (counted_publish k n f s)))"

text \<open>\<open>toString('base64')\<close> and \<open>Buffer.from(s, 'base64')\<close>.\<close>

definition base64_encode :: "string \<Rightarrow> string" where
  "base64_encode s =
     (let t = map (\<lambda>c. if c = CHR ''-'' then CHR ''+'' else if c = CHR ''_'' then CHR ''/'' else c) (b64url_encode s)
      in t @ replicate ((4 - length t mod 4) mod 4) (CHR ''=''))"

definition base64_decode :: "string \<Rightarrow> string" where
  "base64_decode s = b64_bytes (List.map_filter (\<lambda>c. if c = CHR ''+'' then Some 62 else if c = CHR ''/'' then Some 63 else b64_val c) s)"

definition payload_fields :: "frame \<Rightarrow> (string \<times> jsval) list" where
  "payload_fields f =
     (case fst f of
        TextFrame t \<Rightarrow> [(''data'', JStr t)] | BytesFrame b \<Rightarrow> [(''data'', JStr (base64_encode b)), (''binary'', JBool True)])
     @ (case snd f of Some b \<Rightarrow> [(''isBinary'', JBool b)] | None \<Rightarrow> [])"

definition room_envelope :: "string \<Rightarrow> string \<Rightarrow> frame \<Rightarrow> jsval" where
  "room_envelope node n f =
     JObj ([(''nodeId'', JStr node), (''room'', JStr n), (''event'', JStr ''broadcast'')] @ payload_fields f)"

definition forward_to_broker :: "string \<Rightarrow> frame \<Rightarrow> room_manager \<Rightarrow> room_manager" where
  "forward_to_broker n f m =
     (case rm_node m of None \<Rightarrow> m | Some node \<Rightarrow> broker_call (CallPublish (ws_room_channel n) (json_text_of (room_envelope node n f))) m)"

definition broadcast :: "string \<Rightarrow> frame \<Rightarrow> ws_state \<Rightarrow> ws_state" where
  "broadcast n f s =
     (case local_broadcast n f s of (m, ts) \<Rightarrow> (if map_of (rm_rooms m) n = None then m else forward_to_broker n f m, ts))"

definition broadcast_except :: "string \<Rightarrow> string \<Rightarrow> frame \<Rightarrow> ws_state \<Rightarrow> ws_state" where
  "broadcast_except n excluded f s =
     (case map_of (rm_rooms (fst s)) n of
        None \<Rightarrow> s
      | Some room \<Rightarrow>
          (case (case map_of (ro_members room) excluded of
                   Some (k, _) \<Rightarrow> counted_publish k n f s
                 | None \<Rightarrow> fold (\<lambda>(cid, k, _). client_send k f) (ro_members room) s) of
             (m, ts) \<Rightarrow> (forward_to_broker n f m, ts)))"

text \<open>\<open>getPresence\<close> strips what looks like a credential from the state of the members.\<close>

definition secret_key :: "string \<Rightarrow> bool" where
  "secret_key k \<longleftrightarrow>
     (let l = to_lower k
      in list_ex (\<lambda>w. str_includes l w) [''token'', ''secret'', ''password'', ''cookie'', ''session'', ''auth'', ''jti'']
         \<or> l = ''iat'' \<or> l = ''exp'' \<or> l = ''nbf'')"

fun sanitize_state :: "jsval \<Rightarrow> jsval" where
  "sanitize_state (JArr vs) = JArr (map sanitize_state vs)"
| "sanitize_state (JObj kvs) = JObj (map (\<lambda>(k, v). (k, sanitize_state v)) (filter (\<lambda>(k, v). \<not> secret_key k) kvs))"
| "sanitize_state (JInst s) = JObj []"
| "sanitize_state v = v"

definition get_presence :: "room \<Rightarrow> ws_socket list \<Rightarrow> jsval list" where
  "get_presence room ts =
     map (\<lambda>(cid, k, t). JObj [(''id'', JStr cid),
            (''state'', sanitize_state (if k < length ts then wk_state (ts ! k) else JUndef)), (''joinedAt'', JNum t)])
       (ro_members room)"

text \<open>The route's \<open>close\<close> handler, and \<open>disconnect\<close>: uWebSockets.js closes the socket and calls it at once.\<close>

definition rooms_close :: "nat \<Rightarrow> ws_state \<Rightarrow> ws_state" where
  "rooms_close k s =
     (if length (snd s) \<le> k then s
      else case wk_client (snd s ! k) of
             None \<Rightarrow> s
           | Some cid \<Rightarrow>
               on_close cid (case map_of (rm_clients (fst s)) cid of
                               None \<Rightarrow> s
                             | Some _ \<Rightarrow>
                                 (log_event (EvDisconnect cid (case map_of (rm_client_rooms (fst s)) cid of Some rs \<Rightarrow> rs | None \<Rightarrow> [])) (fst s), snd s)))"

definition disconnect :: "nat \<Rightarrow> ws_state \<Rightarrow> ws_state" where
  "disconnect k s = (if is_open k (snd s) then rooms_close k (fst s, sock_close k (snd s)) else s)"

definition room_kick :: "string \<Rightarrow> string \<Rightarrow> string option \<Rightarrow> bool \<Rightarrow> ws_state \<Rightarrow> bool \<times> ws_state" where
  "room_kick n cid reason disc s =
     (case map_of (rm_rooms (fst s)) n of
        None \<Rightarrow> (False, s)
      | Some room \<Rightarrow>
          (case map_of (ro_members room) cid of
             None \<Rightarrow> (False, s)
           | Some (k, _) \<Rightarrow>
               (let s1 = leave_room cid n (client_send k (object_frame (JObj [(''event'', JStr ''kicked''), (''room'', JStr n),
                           (''reason'', JStr (case reason of Some r \<Rightarrow> r | None \<Rightarrow> ''Kicked from room''))])) s)
                in (True, if disc then disconnect k s1 else s1))))"

definition broadcast_all_message :: "string \<Rightarrow> string \<Rightarrow> frame \<Rightarrow> jsval" where
  "broadcast_all_message node rid f =
     JObj ([(''nodeId'', JStr node), (''type'', JStr ''broadcast:all''), (''id'', JStr rid)] @ payload_fields f)"

definition send_each :: "frame \<Rightarrow> ws_state \<Rightarrow> ws_state" where
  "send_each f s = fold (\<lambda>(cid, k). client_send k f) (rm_clients (fst s)) s"

definition broadcast_all :: "string \<Rightarrow> frame \<Rightarrow> ws_state \<Rightarrow> ws_state" where
  "broadcast_all rid f s =
     (case send_each f s of
        (m, ts) \<Rightarrow>
          (case rm_node m of
             None \<Rightarrow> (m, ts)
           | Some node \<Rightarrow> (broker_call (CallPublish ws_ctl_channel (json_text_of (broadcast_all_message node rid f))) m, ts)))"

subsection \<open>The wire protocol\<close>

definition msg_field :: "string \<Rightarrow> jsval \<Rightarrow> jsval" where
  "msg_field k v = (case v of JObj kvs \<Rightarrow> (case map_of kvs k of Some x \<Rightarrow> x | None \<Rightarrow> JUndef) | _ \<Rightarrow> JUndef)"

definition msg_string :: "string \<Rightarrow> jsval \<Rightarrow> string option" where
  "msg_string k v = (case msg_field k v of JStr s \<Rightarrow> Some s | _ \<Rightarrow> None)"

definition error_frame :: "string \<Rightarrow> string \<Rightarrow> frame" where
  "error_frame msg code = object_frame (JObj [(''event'', JStr ''error''), (''message'', JStr msg), (''code'', JStr code)])"

definition forbidden_frame :: frame where
  "forbidden_frame = object_frame (JObj [(''error'', JStr ''Unauthorized''), (''code'', JStr ''ROOM_JOIN_FORBIDDEN'')])"

text \<open>What follows the decision on a join, which for \<open>beforeJoin\<close> comes later; \<open>None\<close>: it threw. The value
  that came back counts by its truthiness.\<close>

definition admitted :: "jsval option \<Rightarrow> bool" where
  "admitted allowed = (case allowed of Some v \<Rightarrow> truthy v | None \<Rightarrow> False)"

definition finish_join :: "int \<Rightarrow> string \<Rightarrow> nat \<Rightarrow> string \<Rightarrow> jsval option \<Rightarrow> ws_state \<Rightarrow> ws_state" where
  "finish_join now cid k n allowed s =
     (if \<not> admitted allowed then client_send k forbidden_frame s
      else case join_room now cid n s of
             (Some e, s') \<Rightarrow> client_send k (error_frame e ''JOIN_FAILED'') s'
           | (None, s') \<Rightarrow> client_send k (object_frame (JObj [(''event'', JStr ''joined''), (''room'', JStr n)])) s')"

definition run_join :: "int \<Rightarrow> string \<Rightarrow> nat \<Rightarrow> string \<Rightarrow> ws_state \<Rightarrow> ws_state" where
  "run_join now cid k n s =
     (if map_of (rm_ws (fst s)) cid = None then client_send k (error_frame ''Client not found'' ''JOIN_FAILED'') s
      else if rm_before_join (fst s) then ((fst s)\<lparr>rm_pending := rm_pending (fst s) @ [(cid, k, n)]\<rparr>, snd s)
      else finish_join now cid k n (Some (JBool (case rm_allowlist (fst s) of Some test \<Rightarrow> test n | None \<Rightarrow> False))) s)"

definition join_decided :: "int \<Rightarrow> nat \<Rightarrow> jsval option \<Rightarrow> ws_state \<Rightarrow> ws_state" where
  "join_decided now i allowed s =
     (if length (rm_pending (fst s)) \<le> i then s
      else case rm_pending (fst s) ! i of
             (cid, k, n) \<Rightarrow>
               finish_join now cid k n allowed
                 ((fst s)\<lparr>rm_pending := take i (rm_pending (fst s)) @ drop (Suc i) (rm_pending (fst s))\<rparr>, snd s))"

text \<open>The room that an action names, for members only; the answer otherwise.\<close>

definition member_room :: "string \<Rightarrow> string \<Rightarrow> room_manager \<Rightarrow> frame + room" where
  "member_room cid n m =
     (case map_of (rm_rooms m) n of
        None \<Rightarrow> Inl (error_frame ''Room does not exist'' ''ROOM_NOT_FOUND'')
      | Some room \<Rightarrow> (if room_has cid room then Inr room else Inl (error_frame ''Not a member of this room'' ''NOT_MEMBER'')))"

definition post_message :: "string \<Rightarrow> nat \<Rightarrow> string \<Rightarrow> jsval \<Rightarrow> ws_state \<Rightarrow> ws_state" where
  "post_message cid k n payload s =
     (let f = object_frame (JObj [(''event'', JStr ''message''), (''room'', JStr n), (''from'', JStr cid), (''data'', payload)]);
          s1 = (case map_of (rm_ws (fst s)) cid of
                  Some j \<Rightarrow> client_send k f (counted_publish j n f s)
                | None \<Rightarrow> local_broadcast n f s)
      in (forward_to_broker n f (fst s1), snd s1))"

definition parsed_action :: "ws_data \<Rightarrow> jsval option" where
  "parsed_action d =
     (case (case d of WsBuffer b \<Rightarrow> json_parse b | WsValue (JStr t) \<Rightarrow> json_parse t | WsValue v \<Rightarrow> Some v) of
        Some v \<Rightarrow> (if is_object v then Some v else None)
      | None \<Rightarrow> None)"

definition process_action :: "int \<Rightarrow> string \<Rightarrow> ws_data \<Rightarrow> ws_state \<Rightarrow> bool \<times> ws_state" where
  "process_action now cid d s0 =
     (let s = ((fst s0)\<lparr>rm_received := Suc (rm_received (fst s0))\<rparr>, snd s0)
      in case parsed_action d of
           None \<Rightarrow> (False, s)
         | Some v \<Rightarrow>
             (case (msg_string ''action'' v, map_of (rm_clients (fst s)) cid) of
                (Some act, Some k) \<Rightarrow>
                  (let invalid = (True, client_send k (error_frame ''Invalid room name'' ''INVALID_ROOM'') s)
                   in if act \<notin> {''join'', ''leave'', ''message'', ''presence''} then (False, s)
                      else case msg_string ''room'' v of
                             None \<Rightarrow> invalid
                           | Some n \<Rightarrow>
                               if act = ''join'' then (if n = [] then invalid else (True, run_join now cid k n s))
                               else if act = ''leave''
                               then (True, client_send k (object_frame (JObj [(''event'', JStr ''left''), (''room'', JStr n)])) (leave_room cid n s))
                               else case member_room cid n (fst s) of
                                      Inl f \<Rightarrow> (True, client_send k f s)
                                    | Inr room \<Rightarrow>
                                        if act = ''message'' then (True, post_message cid k n (msg_field ''data'' v) s)
                                        else (True, client_send k (object_frame (JObj [(''event'', JStr ''presence''), (''room'', JStr n),
                                               (''clients'', JArr (get_presence room (snd s)))])) s))
              | _ \<Rightarrow> (False, s)))"

subsection \<open>The route of \<open>wsRooms\<close>\<close>

definition rooms_open :: "string \<Rightarrow> nat \<Rightarrow> ws_state \<Rightarrow> ws_state" where
  "rooms_open cid k s =
     (log_event (EvConnect cid) (on_open cid k (fst s)),
      if k < length (snd s) then (snd s)[k := (snd s ! k)\<lparr>wk_client := Some cid\<rparr>] else snd s)"

text \<open>\<open>None\<close>: \<open>sanitize: false\<close>, or the package is not installed. A buffer is an instance of a class to
  the sanitizer, which hands it back as it is.\<close>

definition sanitize_data :: "sanitizer_options option \<Rightarrow> ws_data \<Rightarrow> ws_data" where
  "sanitize_data san d =
     (case san of None \<Rightarrow> d | Some o1 \<Rightarrow> (case d of WsBuffer b \<Rightarrow> d | WsValue v \<Rightarrow> WsValue (deep_sanitize o1 0 v)))"

definition rooms_message :: "sanitizer_options option \<Rightarrow> int \<Rightarrow> nat \<Rightarrow> ws_data \<Rightarrow> ws_state \<Rightarrow> ws_state" where
  "rooms_message san now k d s =
     (if length (snd s) \<le> k then s
      else case wk_client (snd s ! k) of
             None \<Rightarrow> s
           | Some cid \<Rightarrow>
               (let d1 = sanitize_data san d; s1 = snd (process_action now cid d1 s)
                in if map_of (rm_clients (fst s1)) cid = None then s1 else (log_event (EvMessage cid d1) (fst s1), snd s1)))"

subsection \<open>Messages from the broker\<close>

definition broker_failure :: "room_manager \<Rightarrow> room_manager" where
  "broker_failure m = log_event EvError (m\<lparr>rm_dropped := Suc (rm_dropped m)\<rparr>)"

definition payload_of :: "string \<Rightarrow> jsval \<Rightarrow> frame" where
  "payload_of d v =
     (if truthy (msg_field ''binary'' v) then BytesFrame (base64_decode d) else TextFrame d,
      if msg_field ''isBinary'' v = JUndef then None else Some (truthy (msg_field ''isBinary'' v)))"

definition on_broker_room_message :: "string \<Rightarrow> ws_state \<Rightarrow> ws_state" where
  "on_broker_room_message raw s =
     (case rm_node (fst s) of
        None \<Rightarrow> s
      | Some node \<Rightarrow>
          (case json_parse raw of
             None \<Rightarrow> (broker_failure (fst s), snd s)
           | Some v \<Rightarrow>
               (case (msg_field ''event'' v = JStr ''broadcast'', msg_string ''room'' v, msg_string ''data'' v) of
                  (True, Some n, Some d) \<Rightarrow> (if msg_field ''nodeId'' v = JStr node then s else local_broadcast n (payload_of d v) s)
                | _ \<Rightarrow> s)))"

definition presence_query :: "string \<Rightarrow> string \<Rightarrow> string \<Rightarrow> jsval" where
  "presence_query node rid n =
     JObj [(''nodeId'', JStr node), (''type'', JStr ''presence:query''), (''id'', JStr rid), (''room'', JStr n)]"

definition local_presence :: "string \<Rightarrow> ws_state \<Rightarrow> jsval list" where
  "local_presence n s = (case map_of (rm_rooms (fst s)) n of Some room \<Rightarrow> get_presence room (snd s) | None \<Rightarrow> [])"

definition presence_reply :: "string \<Rightarrow> string \<Rightarrow> string \<Rightarrow> jsval list \<Rightarrow> jsval" where
  "presence_reply node rid n cs =
     JObj [(''nodeId'', JStr node), (''type'', JStr ''presence:reply''), (''id'', JStr rid), (''room'', JStr n), (''clients'', JArr cs)]"

definition record_reply :: "string \<Rightarrow> jsval \<Rightarrow> nat \<Rightarrow> room_manager \<Rightarrow> room_manager" where
  "record_reply rid node n m =
     (case map_of (rm_waiters m) rid of
        None \<Rightarrow> m
      | Some w \<Rightarrow> m\<lparr>rm_waiters := AList.update rid (AList.update node n w) (rm_waiters m)\<rparr>)"

definition on_ctl_message :: "string \<Rightarrow> ws_state \<Rightarrow> ws_state" where
  "on_ctl_message raw s =
     (case rm_node (fst s) of
        None \<Rightarrow> s
      | Some node \<Rightarrow>
          (case json_parse raw of
             None \<Rightarrow> (broker_failure (fst s), snd s)
           | Some v \<Rightarrow>
               (case msg_string ''id'' v of
                  None \<Rightarrow> s
                | Some rid \<Rightarrow>
                    (let kind = msg_field ''type'' v
                     in if kind = JStr ''presence:query'' then
                          (case msg_string ''room'' v of
                             None \<Rightarrow> s
                           | Some n \<Rightarrow>
                               (broker_call (CallPublish ws_ctl_channel (json_text_of (presence_reply node rid n (local_presence n s)))) (fst s), snd s))
                        else if kind = JStr ''presence:reply'' then
                          (record_reply rid (msg_field ''nodeId'' v) (case msg_field ''clients'' v of JArr cs \<Rightarrow> length cs | _ \<Rightarrow> 0) (fst s), snd s)
                        else if kind = JStr ''broadcast:all'' then
                          (if msg_field ''nodeId'' v = JStr node then s
                           else case msg_string ''data'' v of None \<Rightarrow> s | Some d \<Rightarrow> send_each (payload_of d v) s)
                        else s))))"

subsection \<open>Presence over the cluster, shutdown, statistics\<close>

text \<open>\<open>getGlobalPresence\<close>, cut at its awaits; the local count is what falls back.\<close>

definition local_count :: "string \<Rightarrow> room_manager \<Rightarrow> nat" where
  "local_count n m = (case map_of (rm_rooms m) n of Some room \<Rightarrow> room_size room | None \<Rightarrow> 0)"

definition ensure_ctl :: "room_manager \<Rightarrow> room_manager" where
  "ensure_ctl m = (if rm_ctl m then m else broker_call (CallSubscribe ws_ctl_channel) (m\<lparr>rm_ctl := rm_node m \<noteq> None\<rparr>))"

definition ctl_failed :: "room_manager \<Rightarrow> room_manager" where
  "ctl_failed m = broker_failure (m\<lparr>rm_ctl := False\<rparr>)"

definition presence_ask :: "string \<Rightarrow> string \<Rightarrow> room_manager \<Rightarrow> room_manager" where
  "presence_ask rid n m =
     (case rm_node m of
        None \<Rightarrow> m
      | Some node \<Rightarrow>
          broker_call (CallPublish ws_ctl_channel (json_text_of (presence_query node rid n)))
            ((ensure_ctl m)\<lparr>rm_waiters := AList.update rid [] (rm_waiters m)\<rparr>))"

definition presence_collect :: "string \<Rightarrow> nat \<Rightarrow> room_manager \<Rightarrow> (nat \<times> nat) \<times> room_manager" where
  "presence_collect rid local m =
     (case map_of (rm_waiters m) rid of
        None \<Rightarrow> ((1, local), m)
      | Some w \<Rightarrow>
          (if w = [] then (1, local) else (length w, sum_list (map snd w)), m\<lparr>rm_waiters := AList.delete rid (rm_waiters m)\<rparr>))"

definition presence_failed :: "string \<Rightarrow> nat \<Rightarrow> room_manager \<Rightarrow> (nat \<times> nat) \<times> room_manager" where
  "presence_failed rid local m = ((1, local), broker_failure (m\<lparr>rm_waiters := AList.delete rid (rm_waiters m)\<rparr>))"

definition close_manager :: "ws_state \<Rightarrow> ws_state" where
  "close_manager s =
     (case fold (\<lambda>(cid, k). disconnect k) (rm_clients (fst s)) s of
        (m, ts) \<Rightarrow>
          ((broker_call CallClose (m\<lparr>rm_clients := [], rm_ws := [], rm_client_rooms := [], rm_rooms := [], rm_waiters := []\<rparr>))
             \<lparr>rm_ctl := False\<rparr>, ts))"

definition get_stats :: "room_manager \<Rightarrow> nat \<times> (string, nat) jsmap \<times> nat \<times> nat \<times> nat" where
  "get_stats m = (length (rm_clients m), map (\<lambda>(n, r). (n, room_size r)) (rm_rooms m), rm_received m, rm_sent m, rm_dropped m)"

subsection \<open>One callback\<close>

datatype room_input =
    Accept jsval string | Receive nat ws_data | Closed nat | JoinDecided nat "jsval option"
  | ApiCreateRoom string | ApiJoin string string | ApiLeave string string | ApiLeaveAll string | ApiBroadcast string frame
  | ApiBroadcastExcept string string frame | ApiBroadcastAll string frame | ApiKick string string "string option" bool
  | ApiDisconnect nat | FromBrokerRoom string | FromBrokerCtl string | BrokerFailed | Shutdown

fun room_step :: "sanitizer_options option \<Rightarrow> int \<Rightarrow> room_input \<Rightarrow> ws_state \<Rightarrow> ws_state" where
  "room_step san now (Accept st cid) s = rooms_open cid (length (snd s)) (fst s, snd s @ [socket_new st])"
| "room_step san now (Receive k d) s = (if is_open k (snd s) then rooms_message san now k d s else s)"
| "room_step san now (Closed k) s = disconnect k s"
| "room_step san now (JoinDecided i a) s = join_decided now i a s"
| "room_step san now (ApiCreateRoom n) s = (snd (get_or_create_room now n (fst s)), snd s)"
| "room_step san now (ApiJoin cid n) s = snd (join_room now cid n s)"
| "room_step san now (ApiLeave cid n) s = leave_room cid n s"
| "room_step san now (ApiLeaveAll cid) s = leave_all cid s"
| "room_step san now (ApiBroadcast n f) s = broadcast n f s"
| "room_step san now (ApiBroadcastExcept n cid f) s = broadcast_except n cid f s"
| "room_step san now (ApiBroadcastAll rid f) s = broadcast_all rid f s"
| "room_step san now (ApiKick n cid r disc) s = snd (room_kick n cid r disc s)"
| "room_step san now (ApiDisconnect k) s = disconnect k s"
| "room_step san now (FromBrokerRoom raw) s = on_broker_room_message raw s"
| "room_step san now (FromBrokerCtl raw) s = on_ctl_message raw s"
| "room_step san now BrokerFailed s = (broker_failure (fst s), snd s)"
| "room_step san now Shutdown s = close_manager s"

definition room_run :: "sanitizer_options option \<Rightarrow> (int \<times> room_input) list \<Rightarrow> ws_state \<Rightarrow> ws_state" where
  "room_run san ins s = fold (\<lambda>(now, i). room_step san now i) ins s"

subsection \<open>Base64\<close>

lemma b64_standard:
  "n < 64 \<Longrightarrow> (let c = b64_char n; d = (if c = CHR ''-'' then CHR ''+'' else if c = CHR ''_'' then CHR ''/'' else c)
     in if d = CHR ''+'' then Some 62 else if d = CHR ''/'' then Some 63 else b64_val d) = Some n"
proof -
  assume n: "n < 64"
  let ?c = "b64_char n"
  have v: "b64_val ?c = Some n" using n by simp
  have codes: "b64_val (CHR ''-'') = Some 62" "b64_val (CHR ''_'') = Some 63" "b64_val (CHR ''+'') = None" "b64_val (CHR ''/'') = None"
    by (simp_all add: b64_val_def)
  have "?c \<noteq> CHR ''+''" "?c \<noteq> CHR ''/''" using v codes by auto
  moreover have "n = 62" if "?c = CHR ''-''" using v codes that by simp
  moreover have "n = 63" if "?c = CHR ''_''" using v codes that by simp
  ultimately show ?thesis using v by (simp add: Let_def)
qed

lemma base64_round_trip: "base64_decode (base64_encode s) = s"
proof -
  obtain ns where ns: "b64url_encode s = map b64_char ns" "\<forall>n \<in> set ns. n < 64" "b64_bytes ns = s"
    using b64url_encode_chars[of s] by blast
  let ?d = "\<lambda>c. if c = CHR ''+'' then Some 62 else if c = CHR ''/'' then Some 63 else b64_val c"
  let ?g = "\<lambda>c. if c = CHR ''-'' then CHR ''+'' else if c = CHR ''_'' then CHR ''/'' else c"
  have ok: "?d (?g (b64_char n)) = Some n" if "n < 64" for n using b64_standard[OF that] by (simp only: Let_def)
  have "List.map_filter ?d (map ?g (map b64_char ms)) = ms" if "\<forall>n \<in> set ms. n < 64" for ms
    using that
  proof (induction ms)
    case (Cons n ms)
    then have "?d (?g (b64_char n)) = Some n" by (intro ok) simp
    with Cons show ?case by (simp only: list.map map_filter_simps option.simps) simp
  qed (simp add: map_filter_simps)
  moreover have "List.map_filter ?d (replicate k (CHR ''='')) = []" for k
  proof -
    have "?d (CHR ''='') = None" by code_simp
    then show ?thesis by (induction k) (simp_all only: replicate.simps map_filter_simps option.simps)
  qed
  moreover have "List.map_filter f (xs @ ys) = List.map_filter f xs @ List.map_filter f ys" for f :: "char \<Rightarrow> nat option" and xs ys
    by (simp add: map_filter_def)
  ultimately show ?thesis using ns by (simp only: base64_decode_def base64_encode_def Let_def append_Nil2)
qed

end
