(* ===== verification/Ws_Rooms_Props.thy ===== *)
theory Ws_Rooms_Props
  imports Ws_Rooms
begin

text \<open>
  What the rooms keep true whatever happens: the three places that hold memberships (the rooms, the
  set of each client, the topics of each socket) agree, in every state that callbacks can lead to;
  a broadcast reaches every member once and nobody else; only an authorised client enters a room.
\<close>

subsection \<open>Sockets\<close>

lemma length_on_socket [simp]: "length (on_socket k f ts) = length ts"
  by (simp add: on_socket_def)

lemma nth_on_socket: "j < length ts \<Longrightarrow> on_socket k f ts ! j = (if j = k \<and> wk_open (ts ! k) then f (ts ! k) else ts ! j)"
  by (auto simp: on_socket_def nth_list_update)

lemma nth_publish:
  "j < length ts \<Longrightarrow> sock_publish k topic f ts ! j =
     (if is_open k ts \<and> j \<noteq> k \<and> wk_open (ts ! j) \<and> topic \<in> set (wk_topics (ts ! j))
      then (ts ! j)\<lparr>wk_inbox := wk_inbox (ts ! j) @ [f]\<rparr> else ts ! j)"
  by (simp add: sock_publish_def nth_enumerate_eq)

lemma length_publish [simp]: "length (sock_publish k topic f ts) = length ts"
  by (simp add: sock_publish_def)

text \<open>All of a state that memberships depend on.\<close>

definition sock_view :: "ws_socket list \<Rightarrow> (bool \<times> string option \<times> string list) list" where
  "sock_view ts = map (\<lambda>w. (wk_open w, wk_client w, wk_topics w)) ts"

definition room_view :: "ws_state \<Rightarrow> (string \<times> nat \<times> string) list \<times> string option \<times> nat option \<times> (string, room) jsmap \<times> (string, nat) jsmap \<times> (string, nat) jsmap
    \<times> (string, string list) jsmap \<times> (bool \<times> string option \<times> string list) list" where
  "room_view s = (rm_pending (fst s), rm_node (fst s), rm_max_rooms (fst s), rm_rooms (fst s), rm_clients (fst s), rm_ws (fst s), rm_client_rooms (fst s), sock_view (snd s))"

lemma sock_view_send [simp]: "sock_view (sock_send k f ts) = sock_view ts"
  by (rule nth_equalityI) (auto simp: sock_view_def sock_send_def nth_on_socket)

lemma sock_view_publish [simp]: "sock_view (sock_publish k topic f ts) = sock_view ts"
  by (rule nth_equalityI) (auto simp: sock_view_def nth_publish)

lemma view_log [simp]: "room_view (log_event e m, ts) = room_view (m, ts)"
  by (simp add: room_view_def log_event_def)

lemma view_call [simp]: "room_view (broker_call c m, ts) = room_view (m, ts)"
  by (simp add: room_view_def broker_call_def)

lemma view_failure [simp]: "room_view (broker_failure m, ts) = room_view (m, ts)"
  by (simp add: room_view_def broker_failure_def log_event_def)

lemma view_client_send [simp]: "room_view (client_send k f s) = room_view s"
  by (cases s) (simp add: room_view_def client_send_def)

lemma view_counted_publish [simp]: "room_view (counted_publish k n f s) = room_view s"
  by (cases s) (simp add: room_view_def counted_publish_def)

lemma view_local_broadcast [simp]: "room_view (local_broadcast n f s) = room_view s"
  by (simp add: local_broadcast_def split: option.splits list.splits prod.splits)

lemma view_forward [simp]: "room_view (forward_to_broker n f m, ts) = room_view (m, ts)"
  by (simp add: forward_to_broker_def split: option.splits)

lemma view_fold: "(\<And>x s. room_view (g x s) = room_view s) \<Longrightarrow> room_view (fold g xs s) = room_view s"
  by (induction xs arbitrary: s) simp_all

lemma view_post_message [simp]: "room_view (post_message cid k n v s) = room_view s"
  by (simp add: post_message_def Let_def split: option.splits)

lemma view_broadcast [simp]: "room_view (broadcast n f s) = room_view s"
  by (simp add: broadcast_def split: prod.splits) (metis view_forward view_local_broadcast)

lemma view_broadcast_except [simp]: "room_view (broadcast_except n cid f s) = room_view s"
proof -
  have "room_view (fold (\<lambda>(cid, k, _). client_send k f) ms s) = room_view s" for ms :: "(string \<times> nat \<times> int) list"
    by (rule view_fold) (simp split: prod.splits)
  moreover have "room_view (case t of (m, ts) \<Rightarrow> (forward_to_broker n f m, ts)) = room_view t" for t by (cases t) simp
  ultimately show ?thesis
    by (simp add: broadcast_except_def split: option.splits prod.splits)
qed

lemma view_send_each [simp]: "room_view (send_each f s) = room_view s"
  unfolding send_each_def by (rule view_fold) (simp split: prod.splits)

lemma view_broadcast_all [simp]: "room_view (broadcast_all rid f s) = room_view s"
  by (simp add: broadcast_all_def split: prod.splits option.splits) (metis view_send_each view_call)

lemma view_broker_room [simp]: "room_view (on_broker_room_message raw s) = room_view s"
  by (cases s) (simp add: on_broker_room_message_def split: option.splits bool.splits)

lemma view_record_reply [simp]: "room_view (record_reply rid v n m, ts) = room_view (m, ts)"
  by (simp add: record_reply_def room_view_def split: option.splits)

lemma view_ctl [simp]: "room_view (on_ctl_message raw s) = room_view s"
proof (cases s)
  case (Pair m ts)
  show ?thesis
  proof (cases "json_parse raw")
    case None
    then show ?thesis by (simp add: Pair on_ctl_message_def split: option.splits)
  next
    case (Some v)
    then show ?thesis by (simp add: Pair on_ctl_message_def Let_def split: option.splits)
  qed
qed

subsection \<open>The invariant\<close>

definition members_of :: "room_manager \<Rightarrow> string \<Rightarrow> (string, nat \<times> int) jsmap" where
  "members_of m n = (case map_of (rm_rooms m) n of Some r \<Rightarrow> ro_members r | None \<Rightarrow> [])"

definition rooms_of :: "room_manager \<Rightarrow> string \<Rightarrow> string list" where
  "rooms_of m cid = (case map_of (rm_client_rooms m) cid of Some rs \<Rightarrow> rs | None \<Rightarrow> [])"

text \<open>Clients in \<open>C\<close> are about to be removed: their socket may be closed already.\<close>

definition clients_wf :: "string set \<Rightarrow> ws_state \<Rightarrow> bool" where
  "clients_wf C s \<longleftrightarrow>
     (case s of (m, ts) \<Rightarrow>
        distinct_keys (rm_clients m) \<and> rm_ws m = rm_clients m
        \<and> (\<forall>cid. map_of (rm_client_rooms m) cid = None \<longleftrightarrow> map_of (rm_clients m) cid = None)
        \<and> (\<forall>cid k. map_of (rm_clients m) cid = Some k \<longrightarrow> k < length ts \<and> wk_client (ts ! k) = Some cid \<and> (cid \<notin> C \<longrightarrow> wk_open (ts ! k)))
        \<and> (\<forall>k < length ts. \<exists>cid. wk_client (ts ! k) = Some cid \<and> (wk_open (ts ! k) \<longrightarrow> map_of (rm_clients m) cid = Some k))
        \<and> (\<forall>j < length ts. \<forall>k < length ts. wk_client (ts ! j) = wk_client (ts ! k) \<longrightarrow> j = k))"

definition room_ok :: "room_manager \<Rightarrow> string \<Rightarrow> room \<Rightarrow> bool" where
  "room_ok m n r \<longleftrightarrow> ro_name r = n \<and> room_name_error n = None \<and> distinct_keys (ro_members r)
     \<and> (\<forall>cid k t. map_of (ro_members r) cid = Some (k, t) \<longrightarrow> map_of (rm_clients m) cid = Some k)"

definition memberships_wf :: "room_manager \<Rightarrow> bool" where
  "memberships_wf m \<longleftrightarrow> distinct_keys (rm_rooms m) \<and> (\<forall>n r. map_of (rm_rooms m) n = Some r \<longrightarrow> room_ok m n r)
     \<and> (\<forall>cid. distinct (rooms_of m cid) \<and> (\<forall>n. n \<in> set (rooms_of m cid) \<longleftrightarrow> map_of (members_of m n) cid \<noteq> None)
          \<and> (\<forall>b. rm_max_rooms m = Some b \<longrightarrow> length (rooms_of m cid) \<le> b))"

definition topics_wf :: "ws_state \<Rightarrow> bool" where
  "topics_wf s \<longleftrightarrow>
     (case s of (m, ts) \<Rightarrow>
        \<forall>k < length ts. set (wk_topics (ts ! k)) = (if wk_open (ts ! k) then set (rooms_of m (the (wk_client (ts ! k)))) else {}))"

definition rooms_wf :: "string set \<Rightarrow> ws_state \<Rightarrow> bool" where
  "rooms_wf C s \<longleftrightarrow> clients_wf C s \<and> memberships_wf (fst s) \<and> topics_wf s"

lemma rooms_wf_cong: "room_view s = room_view s' \<Longrightarrow> rooms_wf C s = rooms_wf C s'"
proof -
  assume v: "room_view s = room_view s'"
  obtain m ts m' ts' where s: "s = (m, ts)" "s' = (m', ts')" by (metis prod.exhaust)
  from v s have e: "rm_max_rooms m = rm_max_rooms m'" "rm_rooms m = rm_rooms m'" "rm_clients m = rm_clients m'" "rm_ws m = rm_ws m'"
    "rm_client_rooms m = rm_client_rooms m'" "sock_view ts = sock_view ts'"
    by (simp_all add: room_view_def)
  have len: "length ts = length ts'" using e(6) by (metis length_map sock_view_def)
  have "(wk_open (ts ! k), wk_client (ts ! k), wk_topics (ts ! k)) = (wk_open (ts' ! k), wk_client (ts' ! k), wk_topics (ts' ! k))"
    if "k < length ts" for k
    using arg_cong[OF e(6), of "\<lambda>l. l ! k"] that len by (simp add: sock_view_def)
  then have k: "wk_open (ts ! k) = wk_open (ts' ! k)" "wk_client (ts ! k) = wk_client (ts' ! k)" "wk_topics (ts ! k) = wk_topics (ts' ! k)"
    if "k < length ts'" for k using that len by simp_all
  have r: "rooms_of m = rooms_of m'" "members_of m = members_of m'" "room_ok m = room_ok m'"
    by (simp_all add: rooms_of_def members_of_def room_ok_def e fun_eq_iff)
  have "clients_wf C s \<longleftrightarrow> clients_wf C s'"
    by (simp add: clients_wf_def s e len k cong: conj_cong)
  moreover have "memberships_wf m \<longleftrightarrow> memberships_wf m'" by (simp add: memberships_wf_def r e)
  moreover have "topics_wf s \<longleftrightarrow> topics_wf s'" using k by (auto simp: topics_wf_def s r len)
  ultimately show ?thesis by (simp add: rooms_wf_def s)
qed

subsection \<open>Leaving\<close>

lemma rooms_wfD:
  assumes "rooms_wf C (m, ts)"
  shows "clients_wf C (m, ts)" "memberships_wf m" "topics_wf (m, ts)" "rm_ws m = rm_clients m" "distinct_keys (rm_rooms m)"
    "map_of (rm_rooms m) n = Some r \<Longrightarrow> room_ok m n r"
    "n \<in> set (rooms_of m cid) \<longleftrightarrow> map_of (members_of m n) cid \<noteq> None"
    "map_of (rm_clients m) cid = Some k \<Longrightarrow> k < length ts \<and> wk_client (ts ! k) = Some cid"
    "(map_of (rm_client_rooms m) cid = None) = (map_of (rm_clients m) cid = None)"
  using assms by (auto simp: rooms_wf_def clients_wf_def memberships_wf_def)

lemma leave_absent: "n \<notin> set (rooms_of (fst s) cid) \<Longrightarrow> leave_room cid n s = s"
  by (cases s) (auto simp: leave_room_def rooms_of_def split: option.splits)

text \<open>What a leave that takes place changes.\<close>

definition left_state :: "string \<Rightarrow> string \<Rightarrow> ws_state \<Rightarrow> ws_state \<Rightarrow> bool" where
  "left_state cid n s s' \<longleftrightarrow>
     (case (s, s') of ((m, ts), (m', ts')) \<Rightarrow>
        \<exists>k r. map_of (rm_clients m) cid = Some k \<and> map_of (rm_rooms m) n = Some r
          \<and> ts' = sock_unsubscribe k n ts \<and> rm_clients m' = rm_clients m \<and> rm_ws m' = rm_ws m \<and> rm_max_rooms m' = rm_max_rooms m
          \<and> rm_client_rooms m' = AList.update cid (removeAll n (rooms_of m cid)) (rm_client_rooms m)
          \<and> distinct_keys (rm_rooms m')
          \<and> (\<forall>x. map_of (rm_rooms m') x = (if x = n then (if AList.delete cid (ro_members r) = [] then None
                      else Some (r\<lparr>ro_members := AList.delete cid (ro_members r)\<rparr>)) else map_of (rm_rooms m) x)))"

lemma leave_effect:
  assumes wf: "rooms_wf C s" and n: "n \<in> set (rooms_of (fst s) cid)"
  shows "left_state cid n s (leave_room cid n s)"
proof -
  obtain m ts where s: "s = (m, ts)" by force
  note W = rooms_wfD[OF wf[unfolded s]]
  from n obtain rs where rs: "map_of (rm_client_rooms m) cid = Some rs" "n \<in> set rs" "rooms_of m cid = rs"
    by (cases "map_of (rm_client_rooms m) cid") (auto simp: s rooms_of_def)
  from W(7) n obtain p where p: "map_of (members_of m n) cid = Some p" by (auto simp: s)
  then obtain r where r: "map_of (rm_rooms m) n = Some r" "map_of (ro_members r) cid = Some p"
    by (auto simp: members_of_def split: option.splits)
  then have k: "map_of (rm_clients m) cid = Some (fst p)" using W(6)[OF r(1)] by (cases p) (auto simp: room_ok_def)
  show ?thesis
    using W(4,5) by (simp add: left_state_def leave_room_def s rs r k Let_def log_event_def broker_call_def)
qed

lemma removeAll_rooms: "left_state cid n (m, ts) (m', ts') \<Longrightarrow> rooms_of m' c = (if c = cid then removeAll n (rooms_of m cid) else rooms_of m c)"
  by (auto simp: left_state_def rooms_of_def)

lemma delete_members:
  "left_state cid n (m, ts) (m', ts') \<Longrightarrow> map_of (members_of m' x) c = (if x = n \<and> c = cid then None else map_of (members_of m x) c)"
proof -
  assume "left_state cid n (m, ts) (m', ts')"
  then obtain r where r: "map_of (rm_rooms m) n = Some r"
    "\<And>x. map_of (rm_rooms m') x = (if x = n then (if AList.delete cid (ro_members r) = [] then None
                      else Some (r\<lparr>ro_members := AList.delete cid (ro_members r)\<rparr>)) else map_of (rm_rooms m) x)"
    by (auto simp: left_state_def)
  show ?thesis
  proof (cases "x = n \<and> AList.delete cid (ro_members r) = []")
    case True
    then have "map_of (AList.delete cid (ro_members r)) c = None" by (metis map_of.simps(1))
    then have "c \<noteq> cid \<Longrightarrow> map_of (ro_members r) c = None" by (simp del: map_of_eq_None_iff)
    then show ?thesis using True r by (auto simp: members_of_def)
  next
    case False
    then show ?thesis using r by (auto simp: members_of_def)
  qed
qed

lemma leave_room_wf:
  assumes wf: "rooms_wf C s" shows "rooms_wf C (leave_room cid n s)"
proof (cases "n \<in> set (rooms_of (fst s) cid)")
  case True
  obtain m ts where s: "s = (m, ts)" by force
  obtain m' ts' where s': "leave_room cid n s = (m', ts')" by force
  note W = rooms_wfD[OF wf[unfolded s]]
  have L: "left_state cid n (m, ts) (m', ts')" using leave_effect[OF wf True] by (simp only: s s'[unfolded s])
  then obtain k r where k: "map_of (rm_clients m) cid = Some k" "map_of (rm_rooms m) n = Some r"
      "ts' = sock_unsubscribe k n ts" "rm_clients m' = rm_clients m" "rm_ws m' = rm_ws m" "rm_max_rooms m' = rm_max_rooms m"
      "rm_client_rooms m' = AList.update cid (removeAll n (rooms_of m cid)) (rm_client_rooms m)" "distinct_keys (rm_rooms m')"
    and rooms: "\<And>x. map_of (rm_rooms m') x = (if x = n then (if AList.delete cid (ro_members r) = [] then None
                      else Some (r\<lparr>ro_members := AList.delete cid (ro_members r)\<rparr>)) else map_of (rm_rooms m) x)"
    by (auto simp: left_state_def)
  have sock: "length ts' = length ts" "\<And>j. j < length ts \<Longrightarrow> wk_open (ts' ! j) = wk_open (ts ! j) \<and> wk_client (ts' ! j) = wk_client (ts ! j)
      \<and> set (wk_topics (ts' ! j)) = set (wk_topics (ts ! j)) - (if j = k \<and> wk_open (ts ! k) then {n} else {})"
    by (auto simp: k(3) sock_unsubscribe_def nth_on_socket)
  have "clients_wf C (m', ts')"
    using W(1) sock k by (simp add: clients_wf_def cong: conj_cong)
  moreover have "memberships_wf m'"
    unfolding memberships_wf_def
  proof (intro conjI allI impI)
    fix x q assume q: "map_of (rm_rooms m') x = Some q"
    show "room_ok m' x q"
    proof (cases "x = n")
      case True
      then have "q = r\<lparr>ro_members := AList.delete cid (ro_members r)\<rparr>" "AList.delete cid (ro_members r) \<noteq> []"
        using q rooms[of n] by (auto split: if_splits)
      then show ?thesis using W(6)[OF k(2)] True by (auto simp: room_ok_def k(4) split: if_splits)
    next
      case False
      then show ?thesis using q rooms[of x] W(6)[of x q] by (simp add: room_ok_def k(4))
    qed
  next
    fix c x
    have "x \<in> set (rooms_of m c) \<longleftrightarrow> map_of (members_of m x) c \<noteq> None" by (rule W(7))
    then show "x \<in> set (rooms_of m' c) \<longleftrightarrow> map_of (members_of m' x) c \<noteq> None"
      by (auto simp: removeAll_rooms[OF L] delete_members[OF L])
  next
    fix c b assume "rm_max_rooms m' = Some b"
    then have "length (rooms_of m c) \<le> b" "length (rooms_of m cid) \<le> b" using W(2) k(6) by (auto simp: memberships_wf_def)
    then show "length (rooms_of m' c) \<le> b"
      using le_trans[OF length_removeAll_less_eq[of n "rooms_of m cid"]] by (auto simp: removeAll_rooms[OF L])
  next
    fix c show "distinct (rooms_of m' c)" using W(2) by (auto simp: removeAll_rooms[OF L] memberships_wf_def distinct_removeAll)
  qed (fact k(8))
  moreover have "topics_wf (m', ts')"
    unfolding topics_wf_def prod.case
  proof (intro allI impI)
    fix j assume j: "j < length ts'"
    then have jl: "j < length ts" by (simp add: sock(1))
    obtain c where c: "wk_client (ts ! j) = Some c" using W(1) jl by (auto simp: clients_wf_def)
    have kc: "k < length ts" "wk_client (ts ! k) = Some cid" using W(8)[OF k(1)] by auto
    have eq: "c = cid \<longleftrightarrow> j = k" using W(1) jl kc c by (auto simp: clients_wf_def)
    have "set (wk_topics (ts ! j)) = (if wk_open (ts ! j) then set (rooms_of m (the (wk_client (ts ! j)))) else {})"
      using W(3) jl by (auto simp: topics_wf_def)
    then show "set (wk_topics (ts' ! j)) = (if wk_open (ts' ! j) then set (rooms_of m' (the (wk_client (ts' ! j)))) else {})"
      using sock(2)[OF jl] c eq by (auto simp: removeAll_rooms[OF L])
  qed
  ultimately show ?thesis by (simp add: rooms_wf_def s')
qed (use wf in \<open>simp add: leave_absent\<close>)

lemma leave_many_wf: "rooms_wf C s \<Longrightarrow> rooms_wf C (fold (leave_room cid) ns s)"
  by (induction ns arbitrary: s) (simp_all add: leave_room_wf)

lemma leave_all_wf: "rooms_wf C s \<Longrightarrow> rooms_wf C (leave_all cid s)"
  by (simp add: leave_all_def leave_many_wf)

lemma leave_rooms_of:
  assumes "rooms_wf C s"
  shows "rooms_of (fst (leave_room cid n s)) c = (if c = cid then removeAll n (rooms_of (fst s) c) else rooms_of (fst s) c)"
    "rm_clients (fst (leave_room cid n s)) = rm_clients (fst s)"
proof -
  obtain m ts where s: "s = (m, ts)" by force
  obtain m' ts' where s': "leave_room cid n s = (m', ts')" by force
  show "rooms_of (fst (leave_room cid n s)) c = (if c = cid then removeAll n (rooms_of (fst s) c) else rooms_of (fst s) c)"
    "rm_clients (fst (leave_room cid n s)) = rm_clients (fst s)"
  proof (atomize(full), cases "n \<in> set (rooms_of (fst s) cid)")
    case True
    from leave_effect[OF assms this] have L: "left_state cid n (m, ts) (m', ts')" by (simp only: s s'[unfolded s])
    then have "rm_clients m' = rm_clients m" by (auto simp: left_state_def)
    then show "rooms_of (fst (leave_room cid n s)) c = (if c = cid then removeAll n (rooms_of (fst s) c) else rooms_of (fst s) c)
      \<and> rm_clients (fst (leave_room cid n s)) = rm_clients (fst s)"
      using removeAll_rooms[OF L] unfolding s' by (simp add: s)
  next
    case False
    then show "rooms_of (fst (leave_room cid n s)) c = (if c = cid then removeAll n (rooms_of (fst s) c) else rooms_of (fst s) c)
      \<and> rm_clients (fst (leave_room cid n s)) = rm_clients (fst s)"
      by (auto simp: leave_absent)
  qed
qed

lemma leave_many_rooms:
  "rooms_wf C s \<Longrightarrow> rooms_of (fst (fold (leave_room cid) ns s)) c =
     (if c = cid then filter (\<lambda>x. x \<notin> set ns) (rooms_of (fst s) c) else rooms_of (fst s) c)
   \<and> rm_clients (fst (fold (leave_room cid) ns s)) = rm_clients (fst s)"
proof (induction ns arbitrary: s)
  case (Cons n ns)
  from Cons.IH[OF leave_room_wf[OF Cons.prems]] leave_rooms_of[OF Cons.prems, of cid n]
  show ?case by (auto simp: removeAll_filter_not_eq intro!: filter_cong)
qed simp

lemma leave_all_rooms:
  assumes "rooms_wf C s"
  shows "rooms_of (fst (leave_all cid s)) c = (if c = cid then [] else rooms_of (fst s) c)"
    "rm_clients (fst (leave_all cid s)) = rm_clients (fst s)"
proof -
  have "leave_all cid s = fold (leave_room cid) (rooms_of (fst s) cid) s" by (simp add: leave_all_def rooms_of_def)
  then show "rooms_of (fst (leave_all cid s)) c = (if c = cid then [] else rooms_of (fst s) c)"
    "rm_clients (fst (leave_all cid s)) = rm_clients (fst s)"
    using leave_many_rooms[OF assms, of cid "rooms_of (fst s) cid" c] by auto
qed

subsection \<open>Joining\<close>

definition joined_state :: "int \<Rightarrow> string \<Rightarrow> string \<Rightarrow> ws_state \<Rightarrow> ws_state \<Rightarrow> bool" where
  "joined_state now cid n s s' \<longleftrightarrow>
     (case (s, s') of ((m, ts), (m', ts')) \<Rightarrow>
        room_name_error n = None \<and> n \<notin> set (rooms_of m cid) \<and> \<not> over_limit (length (rooms_of m cid)) (rm_max_rooms m)
        \<and> (\<exists>k r. map_of (rm_clients m) cid = Some k \<and> ts' = sock_subscribe k n ts \<and> rm_clients m' = rm_clients m \<and> rm_ws m' = rm_ws m
          \<and> rm_max_rooms m' = rm_max_rooms m \<and> rm_client_rooms m' = AList.update cid (rooms_of m cid @ [n]) (rm_client_rooms m)
          \<and> distinct_keys (rm_rooms m') \<and> ro_name r = n \<and> ro_members r = AList.update cid (k, now) (members_of m n)
          \<and> (\<forall>x. map_of (rm_rooms m') x = (if x = n then Some r else map_of (rm_rooms m) x))))"

lemma join_refused:
  assumes "room_name_error n \<noteq> None \<or> map_of (rm_client_rooms m) cid = None \<or> n \<in> set (rooms_of m cid)
      \<or> over_limit (length (rooms_of m cid)) (rm_max_rooms m)"
  shows "snd (join_room now cid n (m, ts)) = (m, ts)"
proof (cases "room_name_error n = None \<and> map_of (rm_client_rooms m) cid \<noteq> None")
  case True
  then obtain rs where "map_of (rm_client_rooms m) cid = Some rs" "rooms_of m cid = rs" by (auto simp: rooms_of_def)
  with True assms show ?thesis by (cases "n \<in> set rs") (simp_all add: join_room_def)
next
  case False
  then show ?thesis by (cases "room_name_error n") (auto simp: join_room_def)
qed

lemma join_new_room:
  assumes "room_name_error n = None" "map_of (rm_client_rooms m) cid = Some rs" "n \<notin> set rs" "\<not> over_limit (length rs) (rm_max_rooms m)"
    and "map_of (rm_clients m) cid = Some k" "rm_ws m = rm_clients m" "distinct_keys (rm_rooms m)" "map_of (rm_rooms m) n = None"
  shows "\<exists>s'. join_room now cid n (m, ts) = (None, s') \<and> joined_state now cid n (m, ts) s'"
proof -
  have rs: "rooms_of m cid = rs" "members_of m n = []" using assms(2,8) by (simp_all add: rooms_of_def members_of_def)
  show ?thesis
    unfolding join_room_def get_or_create_room_def log_event_def broker_call_def
    using assms by (simp add: Let_def joined_state_def rs)
qed

lemma broker_call_keeps:
  "rm_rooms (if b then broker_call c m else m) = rm_rooms m" "rm_clients (if b then broker_call c m else m) = rm_clients m"
  "rm_ws (if b then broker_call c m else m) = rm_ws m" "rm_max_rooms (if b then broker_call c m else m) = rm_max_rooms m"
  "rm_client_rooms (if b then broker_call c m else m) = rm_client_rooms m" "rm_node (if b then broker_call c m else m) = rm_node m"
  by (simp_all add: broker_call_def)

lemma log_event_keeps:
  "rm_rooms (log_event e m) = rm_rooms m" "rm_clients (log_event e m) = rm_clients m" "rm_ws (log_event e m) = rm_ws m"
  "rm_max_rooms (log_event e m) = rm_max_rooms m" "rm_node (log_event e m) = rm_node m" "rm_client_rooms (log_event e m) = rm_client_rooms m"
  by (simp_all add: log_event_def)

lemma join_old_room:
  assumes "room_name_error n = None" "map_of (rm_client_rooms m) cid = Some rs" "n \<notin> set rs" "\<not> over_limit (length rs) (rm_max_rooms m)"
    and "map_of (rm_clients m) cid = Some k" "rm_ws m = rm_clients m" "distinct_keys (rm_rooms m)" "map_of (rm_rooms m) n = Some r" "ro_name r = n"
  shows "\<exists>s'. join_room now cid n (m, ts) = (None, s') \<and> joined_state now cid n (m, ts) s'"
proof -
  have rs: "rooms_of m cid = rs" "members_of m n = ro_members r" using assms(2,8) by (simp_all add: rooms_of_def members_of_def)
  let ?r = "r\<lparr>ro_members := AList.update cid (k, now) (ro_members r)\<rparr>"
  let ?m = "m\<lparr>rm_rooms := AList.update n ?r (rm_rooms m), rm_client_rooms := AList.update cid (rs @ [n]) (rm_client_rooms m)\<rparr>"
  let ?M = "log_event (EvJoin n cid) (if room_size ?r = 1 then broker_call (CallSubscribe (ws_room_channel n)) ?m else ?m)"
  have room: "snd (get_or_create_room now n m) = m" using assms(1,8) by (simp add: get_or_create_room_def del: map_of_eq_Some_iff)
  have "join_room now cid n (m, ts) = (None, ?M, sock_subscribe k n ts)"
    unfolding join_room_def prod.case room Let_def using assms(1-6) by (simp add: assms(8) del: map_of_eq_Some_iff)
  moreover have "joined_state now cid n (m, ts) (?M, sock_subscribe k n ts)"
    unfolding joined_state_def prod.case log_event_keeps broker_call_keeps rs
    using assms(1-7) by (intro conjI exI[of _ k] exI[of _ ?r]) (simp_all add: assms(9))
  ultimately show ?thesis by (intro exI conjI)
qed

lemma join_effect:
  assumes wf: "rooms_wf {} s" and j: "join_room now cid n s = (e, s')"
  shows "s' = s \<or> e = None \<and> joined_state now cid n s s'"
proof -
  obtain m ts where s: "s = (m, ts)" by force
  note W = rooms_wfD[OF wf[unfolded s]]
  consider (no) "room_name_error n \<noteq> None \<or> map_of (rm_client_rooms m) cid = None \<or> n \<in> set (rooms_of m cid)
      \<or> over_limit (length (rooms_of m cid)) (rm_max_rooms m)"
    | (yes) rs where "room_name_error n = None" "map_of (rm_client_rooms m) cid = Some rs" "n \<notin> set rs" "\<not> over_limit (length rs) (rm_max_rooms m)"
    by (cases "map_of (rm_client_rooms m) cid") (auto simp: rooms_of_def)
  then show ?thesis
  proof cases
    case no
    from join_refused[OF this, of now ts] j show ?thesis by (simp add: s)
  next
    case yes
    obtain k where k: "map_of (rm_clients m) cid = Some k"
      using W(9)[of cid] yes(2) by (cases "map_of (rm_clients m) cid") (simp_all del: map_of_eq_None_iff)
    show ?thesis
    proof (cases "map_of (rm_rooms m) n")
      case None
      from join_new_room[OF yes k W(4,5) None, of now ts] j show ?thesis by (auto simp: s)
    next
      case (Some r)
      have "ro_name r = n" using W(6)[OF Some] by (simp add: room_ok_def)
      from join_old_room[OF yes k W(4,5) Some this, of now ts] j show ?thesis by (auto simp: s)
    qed
  qed
qed

lemma joined_rooms: "joined_state now cid n (m, ts) (m', ts') \<Longrightarrow>
    rooms_of m' c = (if c = cid then rooms_of m cid @ [n] else rooms_of m c)"
  by (auto simp: joined_state_def rooms_of_def)

lemma joined_members: "joined_state now cid n (m, ts) (m', ts') \<Longrightarrow>
    map_of (members_of m' x) c = (if x = n \<and> c = cid then map_option (\<lambda>k. (k, now)) (map_of (rm_clients m) cid) else map_of (members_of m x) c)"
  by (auto simp: joined_state_def members_of_def)

lemma joined_wf:
  assumes wf: "rooms_wf {} (m, ts)" and L: "joined_state now cid n (m, ts) (m', ts')"
  shows "rooms_wf {} (m', ts')"
proof -
  note W = rooms_wfD[OF wf]
  from L obtain k r where k: "map_of (rm_clients m) cid = Some k" "ts' = sock_subscribe k n ts" "rm_clients m' = rm_clients m"
      "rm_ws m' = rm_ws m" "rm_max_rooms m' = rm_max_rooms m"
      "rm_client_rooms m' = AList.update cid (rooms_of m cid @ [n]) (rm_client_rooms m)" "distinct_keys (rm_rooms m')"
      "ro_name r = n" "ro_members r = AList.update cid (k, now) (members_of m n)"
    and rooms: "\<And>x. map_of (rm_rooms m') x = (if x = n then Some r else map_of (rm_rooms m) x)"
    and new: "room_name_error n = None" "n \<notin> set (rooms_of m cid)" "\<not> over_limit (length (rooms_of m cid)) (rm_max_rooms m)"
    by (auto simp: joined_state_def)
  have kc: "k < length ts" "wk_client (ts ! k) = Some cid" "wk_open (ts ! k)" using W(1) k(1) by (auto simp: clients_wf_def)
  have sock: "length ts' = length ts" "\<And>j. j < length ts \<Longrightarrow> wk_open (ts' ! j) = wk_open (ts ! j) \<and> wk_client (ts' ! j) = wk_client (ts ! j)
      \<and> set (wk_topics (ts' ! j)) = set (wk_topics (ts ! j)) \<union> (if j = k then {n} else {})"
    using kc(3) by (auto simp: k(2) sock_subscribe_def nth_on_socket)
  have old: "distinct_keys (members_of m n)" "map_of (members_of m n) c = Some (j, t) \<Longrightarrow> map_of (rm_clients m) c = Some j" for c j t
    using W(6)[of n] by (cases "map_of (rm_rooms m) n"; simp add: members_of_def room_ok_def)+
  have "clients_wf {} (m', ts')"
    using W(1) sock k by (simp add: clients_wf_def cong: conj_cong)
  moreover have "memberships_wf m'"
    unfolding memberships_wf_def
  proof (intro conjI allI impI)
    fix x q assume q: "map_of (rm_rooms m') x = Some q"
    show "room_ok m' x q"
    proof (cases "x = n")
      case True
      then have "q = r" using q rooms[of n] by simp
      then show ?thesis using old k new(1) True
        by (auto simp: room_ok_def update_nonempty split: if_splits)
    next
      case False
      then show ?thesis using q rooms[of x] W(6)[of x q] by (simp add: room_ok_def k(3))
    qed
  next
    fix c x
    have "x \<in> set (rooms_of m c) \<longleftrightarrow> map_of (members_of m x) c \<noteq> None" by (rule W(7))
    then show "x \<in> set (rooms_of m' c) \<longleftrightarrow> map_of (members_of m' x) c \<noteq> None"
      using k(1) by (auto simp: joined_rooms[OF L] joined_members[OF L])
  next
    fix c b assume b: "rm_max_rooms m' = Some b"
    then have "length (rooms_of m c) \<le> b" using W(2) k(5) by (auto simp: memberships_wf_def)
    then show "length (rooms_of m' c) \<le> b" using new(3) b k(5) by (auto simp: joined_rooms[OF L] over_limit_def)
  next
    fix c show "distinct (rooms_of m' c)" using W(2) new(2) by (auto simp: joined_rooms[OF L] memberships_wf_def)
  qed (fact k(7))
  moreover have "topics_wf (m', ts')"
    unfolding topics_wf_def prod.case
  proof (intro allI impI)
    fix j assume j: "j < length ts'"
    then have jl: "j < length ts" by (simp add: sock(1))
    obtain c where c: "wk_client (ts ! j) = Some c" using W(1) jl by (auto simp: clients_wf_def)
    have eq: "c = cid \<longleftrightarrow> j = k" using W(1) jl kc c by (auto simp: clients_wf_def)
    have "set (wk_topics (ts ! j)) = (if wk_open (ts ! j) then set (rooms_of m (the (wk_client (ts ! j)))) else {})"
      using W(3) jl by (auto simp: topics_wf_def)
    then show "set (wk_topics (ts' ! j)) = (if wk_open (ts' ! j) then set (rooms_of m' (the (wk_client (ts' ! j)))) else {})"
      using sock(2)[OF jl] c eq kc by (auto simp: joined_rooms[OF L])
  qed
  ultimately show ?thesis by (simp add: rooms_wf_def)
qed

lemma join_room_wf: "rooms_wf {} s \<Longrightarrow> rooms_wf {} (snd (join_room now cid n s))"
  using join_effect[of s now cid n] joined_wf by (metis prod.collapse)

subsection \<open>Arriving and going\<close>

lemma opened_clients:
  assumes wf: "clients_wf {} (m, ts)" and new: "\<forall>k < length ts. wk_client (ts ! k) \<noteq> Some cid"
    and m': "rm_clients m' = AList.update cid (length ts) (rm_clients m)" "rm_ws m' = rm_clients m'"
      "\<forall>x. (map_of (rm_client_rooms m') x = None) = (x \<noteq> cid \<and> map_of (rm_client_rooms m) x = None)"
    and w: "wk_client w = Some cid" "wk_open w"
  shows "clients_wf {} (m', ts @ [w])"
proof -
  have cl: "map_of (rm_clients m') x = (if x = cid then Some (length ts) else map_of (rm_clients m) x)" for x by (simp add: m')
  have old: "map_of (rm_clients m) x = Some k \<Longrightarrow> k < length ts \<and> wk_client (ts ! k) = Some x \<and> wk_open (ts ! k)" for x k
    using wf by (auto simp: clients_wf_def)
  have sk: "k < length ts \<Longrightarrow> \<exists>x. wk_client (ts ! k) = Some x \<and> (wk_open (ts ! k) \<longrightarrow> map_of (rm_clients m) x = Some k)" for k
    using wf by (auto simp: clients_wf_def)
  have dist: "j < length ts \<Longrightarrow> k < length ts \<Longrightarrow> wk_client (ts ! j) = wk_client (ts ! k) \<Longrightarrow> j = k" for j k
    using wf by (auto simp: clients_wf_def)
  show ?thesis
    unfolding clients_wf_def prod.case
  proof (intro conjI allI impI)
    show "distinct_keys (rm_clients m')" using wf by (simp add: m'(1) clients_wf_def)
  next
    fix x show "(map_of (rm_client_rooms m') x = None) = (map_of (rm_clients m') x = None)"
      using wf by (simp add: m'(3) cl clients_wf_def)
  next
    fix x k assume k: "map_of (rm_clients m') x = Some k"
    show "k < length (ts @ [w])" "wk_client ((ts @ [w]) ! k) = Some x" "wk_open ((ts @ [w]) ! k)"
      using k old[of x k] w by (auto simp: cl nth_append split: if_splits)
  next
    fix k assume "k < length (ts @ [w])"
    then show "\<exists>x. wk_client ((ts @ [w]) ! k) = Some x \<and> (wk_open ((ts @ [w]) ! k) \<longrightarrow> map_of (rm_clients m') x = Some k)"
    proof (cases "k = length ts")
      case True
      with w show ?thesis by (auto simp: cl)
    next
      case False
      with \<open>k < length (ts @ [w])\<close> have kl: "k < length ts" by simp
      then obtain x where x: "wk_client (ts ! k) = Some x" "wk_open (ts ! k) \<longrightarrow> map_of (rm_clients m) x = Some k"
        using sk by blast
      then have "x \<noteq> cid" using new kl by auto
      with x kl show ?thesis by (intro exI[of _ x]) (simp add: nth_append cl)
    qed
  next
    fix j k assume "j < length (ts @ [w])" "k < length (ts @ [w])" "wk_client ((ts @ [w]) ! j) = wk_client ((ts @ [w]) ! k)"
    moreover have "wk_client (ts ! i) \<noteq> Some cid" if "i < length ts" for i using new that by blast
    ultimately show "j = k" using dist[of j k] w
      by (cases "j = length ts"; cases "k = length ts") (simp_all add: nth_append, metis less_SucE)
  qed (simp add: m'(2))
qed

lemma rooms_open_wf:
  assumes wf: "rooms_wf {} (m, ts)" and new: "\<forall>k < length ts. wk_client (ts ! k) \<noteq> Some cid"
  shows "rooms_wf {} (rooms_open cid (length ts) (m, ts @ [socket_new st]))"
proof -
  note W = rooms_wfD[OF wf]
  have c: "map_of (rm_clients m) cid = None"
    using W(8)[of cid] new by (cases "map_of (rm_clients m) cid") auto
  then have c2: "map_of (rm_client_rooms m) cid = None" using W(1) unfolding clients_wf_def by simp
  define w where "w = (socket_new st)\<lparr>wk_client := Some cid\<rparr>"
  define m' where "m' = log_event (EvConnect cid) (on_open cid (length ts) m)"
  have w: "wk_client w = Some cid" "wk_open w" "wk_topics w = []" by (simp_all add: w_def socket_new_def)
  have s: "rooms_open cid (length ts) (m, ts @ [socket_new st]) = (m', ts @ [w])" by (simp add: rooms_open_def m'_def w_def)
  have m: "rm_clients m' = AList.update cid (length ts) (rm_clients m)" "rm_ws m' = AList.update cid (length ts) (rm_ws m)"
    "rm_client_rooms m' = AList.update cid [] (rm_client_rooms m)" "rm_rooms m' = rm_rooms m" "rm_max_rooms m' = rm_max_rooms m"
    by (simp_all add: m'_def log_event_def on_open_def)
  have r: "rooms_of m' = rooms_of m" "members_of m' = members_of m"
    using c2 by (auto simp: rooms_of_def members_of_def m fun_eq_iff)
  have "clients_wf {} (m', ts @ [w])"
    using W(4) by (intro opened_clients[OF W(1) new m(1) _ _ w(1,2)]) (simp_all add: m)
  moreover have "room_ok m' n q" if "map_of (rm_rooms m) n = Some q" for n q
    using W(6)[OF that] c by (auto simp: room_ok_def m)
  then have "memberships_wf m'" using W(2) by (simp add: memberships_wf_def r m)
  moreover have "topics_wf (m', ts @ [w])"
    unfolding topics_wf_def prod.case r
  proof (intro allI impI)
    fix k assume k: "k < length (ts @ [w])"
    have "rooms_of m cid = []" using c2 by (simp add: rooms_of_def)
    then show "set (wk_topics ((ts @ [w]) ! k)) =
        (if wk_open ((ts @ [w]) ! k) then set (rooms_of m (the (wk_client ((ts @ [w]) ! k)))) else {})"
      using W(3) k w by (cases "k = length ts") (auto simp: topics_wf_def nth_append)
  qed
  ultimately show ?thesis by (simp add: s rooms_wf_def)
qed

lemma closed_wf:
  assumes wf: "rooms_wf {} (m, ts)" and k: "is_open k ts" "wk_client (ts ! k) = Some cid"
  shows "rooms_wf {cid} (m, sock_close k ts)"
proof -
  note W = rooms_wfD[OF wf]
  have kl: "k < length ts" "wk_open (ts ! k)" using k(1) by (simp_all add: is_open_def)
  have sock: "length (sock_close k ts) = length ts" "\<And>j. j < length ts \<Longrightarrow> sock_close k ts ! j = (if j = k then (ts ! k)\<lparr>wk_open := False, wk_topics := []\<rparr> else ts ! j)"
    using kl by (auto simp: sock_close_def nth_on_socket)
  have cl: "wk_client (sock_close k ts ! j) = wk_client (ts ! j)" "wk_open (sock_close k ts ! j) = (j \<noteq> k \<and> wk_open (ts ! j))"
    if "j < length ts" for j using sock(2)[OF that] by auto
  have at: "map_of (rm_clients m) x = Some j \<Longrightarrow> x \<noteq> cid \<Longrightarrow> j \<noteq> k" for x j using W(8)[of x j] k(2) by auto
  have "clients_wf {cid} (m, sock_close k ts)"
    using W(1) at by (auto simp: clients_wf_def sock(1) cl)
  moreover have "topics_wf (m, sock_close k ts)"
    using W(3) by (auto simp: topics_wf_def sock)
  ultimately show ?thesis using W(2) by (simp add: rooms_wf_def)
qed

lemma forget_wf:
  assumes wf: "rooms_wf {cid} (m, ts)" and rs: "rooms_of m cid = []" and k: "map_of (rm_clients m) cid = Some k" "\<not> wk_open (ts ! k)"
  shows "rooms_wf {} (m\<lparr>rm_clients := AList.delete cid (rm_clients m), rm_ws := AList.delete cid (rm_ws m),
     rm_client_rooms := AList.delete cid (rm_client_rooms m)\<rparr>, ts)"
    (is "rooms_wf {} (?m, ts)")
proof -
  note W = rooms_wfD[OF wf]
  have r: "rooms_of ?m = rooms_of m" "members_of ?m = members_of m"
    using rs by (auto simp: rooms_of_def members_of_def fun_eq_iff)
  have "clients_wf {} (?m, ts)"
    unfolding clients_wf_def prod.case
  proof (intro conjI allI impI)
    fix j assume j: "j < length ts"
    then obtain c where c: "wk_client (ts ! j) = Some c" "wk_open (ts ! j) \<longrightarrow> map_of (rm_clients m) c = Some j"
      using W(1) by (auto simp: clients_wf_def)
    then have "wk_open (ts ! j) \<Longrightarrow> c \<noteq> cid" using k by auto
    with c show "\<exists>c. wk_client (ts ! j) = Some c \<and> (wk_open (ts ! j) \<longrightarrow> map_of (rm_clients ?m) c = Some j)" by auto
  qed (use W(1) in \<open>auto simp: clients_wf_def split: if_splits\<close>)
  moreover have "memberships_wf ?m"
    unfolding memberships_wf_def r
  proof (intro conjI allI impI)
    fix n q assume "map_of (rm_rooms ?m) n = Some q"
    then have q: "map_of (rm_rooms m) n = Some q" by simp
    have "map_of (ro_members q) cid = None"
    proof (cases "map_of (ro_members q) cid")
      case (Some p)
      then have "n \<in> set (rooms_of m cid)" using W(7)[of n cid] q by (simp add: members_of_def)
      with rs show ?thesis by simp
    qed
    then show "room_ok ?m n q" using W(6)[OF q] by (auto simp: room_ok_def split: if_splits)
  qed (use W(2) in \<open>auto simp: memberships_wf_def\<close>)
  moreover have "topics_wf (?m, ts)"
    using W(3) by (simp add: topics_wf_def r)
  ultimately show ?thesis by (simp add: rooms_wf_def)
qed

lemma leave_room_open:
  "length (snd (leave_room cid n s)) = length (snd s)"
  "j < length (snd s) \<Longrightarrow> wk_open (snd (leave_room cid n s) ! j) = wk_open (snd s ! j)"
  by (cases s; auto simp: leave_room_def Let_def sock_unsubscribe_def nth_on_socket split: option.splits)+

lemma leave_all_open:
  "length (snd (leave_all cid s)) = length (snd s) \<and> (\<forall>j < length (snd s). wk_open (snd (leave_all cid s) ! j) = wk_open (snd s ! j))"
proof -
  have "length (snd (fold (leave_room cid) ns s)) = length (snd s)
      \<and> (\<forall>j < length (snd s). wk_open (snd (fold (leave_room cid) ns s) ! j) = wk_open (snd s ! j))" for ns
    by (induction ns arbitrary: s) (simp_all add: leave_room_open)
  then show ?thesis by (simp add: leave_all_def)
qed

lemma on_close_wf:
  assumes wf: "rooms_wf {cid} (m, ts)" and k: "map_of (rm_clients m) cid = Some k" "\<not> wk_open (ts ! k)"
  shows "rooms_wf {} (on_close cid (m, ts)) \<and> rm_clients (fst (on_close cid (m, ts))) = AList.delete cid (rm_clients m)"
proof -
  obtain m' ts' where l: "leave_all cid (m, ts) = (m', ts')" by force
  have kl: "k < length ts" using rooms_wfD(8)[OF wf k(1)] by simp
  have "rooms_wf {cid} (m', ts')" using leave_all_wf[OF wf, of cid] by (simp add: l)
  moreover have "rooms_of m' cid = []" "rm_clients m' = rm_clients m"
    using leave_all_rooms[OF wf, of cid] by (simp_all add: l)
  moreover have "\<not> wk_open (ts' ! k)" using leave_all_open[of cid "(m, ts)"] kl k(2) by (simp add: l)
  ultimately show ?thesis
    using forget_wf[of cid m' ts' k] k(1) by (simp add: on_close_def l del: map_of_eq_None_iff)
qed

lemma disconnect_effect:
  assumes wf: "rooms_wf {} s" and k: "map_of (rm_clients (fst s)) cid = Some k"
  shows "rooms_wf {} (disconnect k s) \<and> rm_clients (fst (disconnect k s)) = AList.delete cid (rm_clients (fst s))"
proof -
  obtain m ts where s: "s = (m, ts)" by force
  have c: "k < length ts" "wk_client (ts ! k) = Some cid" "wk_open (ts ! k)"
    using rooms_wfD(1)[OF wf[unfolded s]] k by (auto simp: clients_wf_def s)
  then have op: "is_open k ts" by (simp add: is_open_def)
  let ?m = "log_event (EvDisconnect cid (rooms_of m cid)) m" and ?ts = "sock_close k ts"
  have ts: "length ?ts = length ts" "wk_client (?ts ! k) = Some cid" "\<not> wk_open (?ts ! k)"
    using c by (simp_all add: sock_close_def nth_on_socket)
  have "rooms_wf {cid} (?m, ?ts)"
    using closed_wf[OF wf[unfolded s] op c(2)] rooms_wf_cong[of "(?m, ?ts)" "(m, ?ts)" "{cid}"] by simp
  moreover have "map_of (rm_clients ?m) cid = Some k" using k by (simp add: log_event_keeps s)
  ultimately have "rooms_wf {} (on_close cid (?m, ?ts)) \<and> rm_clients (fst (on_close cid (?m, ?ts))) = AList.delete cid (rm_clients m)"
    using on_close_wf[of cid ?m ?ts k] ts by (simp add: log_event_keeps)
  moreover have "disconnect k s = on_close cid (?m, ?ts)"
    using op ts c k by (simp add: disconnect_def rooms_close_def s rooms_of_def)
  ultimately show ?thesis by (simp add: s)
qed

lemma disconnect_wf: assumes wf: "rooms_wf {} s" shows "rooms_wf {} (disconnect k s)"
proof (cases "is_open k (snd s)")
  case True
  obtain m ts where s: "s = (m, ts)" by force
  from True rooms_wfD(1)[OF wf[unfolded s]] obtain cid where "map_of (rm_clients m) cid = Some k"
    by (auto simp: clients_wf_def is_open_def s)
  with disconnect_effect[OF wf] show ?thesis by (simp add: s)
qed (use wf in \<open>simp add: disconnect_def\<close>)

lemma wf_send [simp]: "rooms_wf C (client_send k f s) = rooms_wf C s"
  by (rule rooms_wf_cong) simp

lemma room_kick_wf: "rooms_wf {} s \<Longrightarrow> rooms_wf {} (snd (room_kick n cid reason disc s))"
  by (simp add: room_kick_def Let_def disconnect_wf leave_room_wf split: option.splits)

lemma finish_join_wf: "rooms_wf {} s \<Longrightarrow> rooms_wf {} (finish_join now cid k n a s)"
  using join_room_wf[of s now cid n] by (auto simp: finish_join_def split: prod.splits option.splits)

lemma wf_pending: "rooms_wf C (m\<lparr>rm_pending := p\<rparr>, ts) = rooms_wf C (m, ts)" "rooms_wf C (m\<lparr>rm_received := r\<rparr>, ts) = rooms_wf C (m, ts)"
  by (simp_all add: rooms_wf_def clients_wf_def memberships_wf_def topics_wf_def room_ok_def rooms_of_def members_of_def)

lemma run_join_wf: "rooms_wf {} s \<Longrightarrow> rooms_wf {} (run_join now cid k n s)"
  by (cases s) (simp add: run_join_def finish_join_wf wf_pending)

lemma join_decided_wf: "rooms_wf {} s \<Longrightarrow> rooms_wf {} (join_decided now i a s)"
  by (cases s) (simp add: join_decided_def finish_join_wf wf_pending split: prod.splits)

lemma post_message_wf: "rooms_wf {} s \<Longrightarrow> rooms_wf {} (post_message cid k n v s)"
  using rooms_wf_cong[OF view_post_message] by blast

lemma process_action_wf: "rooms_wf {} s \<Longrightarrow> rooms_wf {} (snd (process_action now cid d s))"
  by (cases s) (simp add: process_action_def Let_def wf_pending run_join_wf leave_room_wf post_message_wf split: option.splits sum.splits)

lemma rooms_message_wf: "rooms_wf {} s \<Longrightarrow> rooms_wf {} (rooms_message san now k d s)"
proof -
  assume wf: "rooms_wf {} s"
  have "rooms_wf {} (log_event e (fst t), snd t)" if "rooms_wf {} t" for e t
    using that rooms_wf_cong[OF view_log[of e "fst t" "snd t"]] by simp
  then show ?thesis using wf by (simp add: rooms_message_def Let_def process_action_wf split: option.splits)
qed

lemma disconnect_clients:
  "rooms_wf {} s \<Longrightarrow> rm_clients (fst s) = cs \<Longrightarrow>
   rooms_wf {} (fold (\<lambda>(cid, k). disconnect k) cs s) \<and> rm_clients (fst (fold (\<lambda>(cid, k). disconnect k) cs s)) = []"
proof (induction cs arbitrary: s)
  case (Cons p cs)
  obtain cid k where p: "p = (cid, k)" by force
  have "distinct_keys (rm_clients (fst s))" using Cons.prems(1) by (cases s) (auto simp: rooms_wf_def clients_wf_def)
  then have "AList.delete cid (rm_clients (fst s)) = cs" using Cons.prems(2) p by (simp add: delete_notin)
  with disconnect_effect[OF Cons.prems(1), of cid k] Cons.prems(2) p Cons.IH[of "disconnect k s"] show ?case by simp
qed simp

lemma close_manager_wf: assumes wf: "rooms_wf {} s" shows "rooms_wf {} (close_manager s)"
proof -
  let ?t = "fold (\<lambda>(cid, k). disconnect k) (rm_clients (fst s)) s"
  have t: "rooms_wf {} ?t" "rm_clients (fst ?t) = []" using disconnect_clients[OF wf refl] by auto
  obtain m ts where m: "?t = (m, ts)" by force
  have w: "clients_wf {} (m, ts)" "topics_wf (m, ts)" "rm_clients m = []" using t unfolding m rooms_wf_def fst_conv by blast+
  have c: "\<forall>k < length ts. \<not> wk_open (ts ! k) \<and> (\<exists>cid. wk_client (ts ! k) = Some cid) \<and> set (wk_topics (ts ! k)) = {}"
    using w by (auto simp: clients_wf_def topics_wf_def)
  obtain m' where m': "close_manager s = (m', ts)" "rm_clients m' = []" "rm_ws m' = []" "rm_client_rooms m' = []" "rm_rooms m' = []"
    by (simp add: close_manager_def m broker_call_def)
  have "clients_wf {} (m', ts)" using w(1) c by (simp add: clients_wf_def m'(2-4))
  then show ?thesis using c by (simp add: m' rooms_wf_def memberships_wf_def topics_wf_def rooms_of_def members_of_def)
qed

lemma created_room_wf: assumes wf: "rooms_wf {} s" shows "rooms_wf {} (snd (get_or_create_room now n (fst s)), snd s)"
proof (cases "room_name_error n = None \<and> map_of (rm_rooms (fst s)) n = None")
  case True
  obtain m ts where s: "s = (m, ts)" by force
  note W = rooms_wfD[OF wf[unfolded s]]
  let ?r = "\<lparr>ro_name = n, ro_created = now, ro_members = []\<rparr>"
  let ?m = "m\<lparr>rm_rooms := AList.update n ?r (rm_rooms m)\<rparr>"
  have e: "rooms_of ?m = rooms_of m" "members_of ?m = members_of m"
    using True by (auto simp: rooms_of_def members_of_def s fun_eq_iff)
  have "room_ok ?m x q" if "map_of (rm_rooms ?m) x = Some q" for x q
    using that True W(6)[of x q] by (auto simp: room_ok_def split: if_splits)
  then have "memberships_wf ?m" using W(2) by (auto simp: memberships_wf_def e)
  moreover have "clients_wf {} (?m, ts)" "topics_wf (?m, ts)" using W(1,3) by (simp_all add: clients_wf_def topics_wf_def e cong: conj_cong)
  ultimately have "rooms_wf {} (?m, ts)" by (simp add: rooms_wf_def)
  moreover have "snd (get_or_create_room now n m) = log_event (EvRoomCreate n) ?m" using True by (simp add: get_or_create_room_def s)
  ultimately show ?thesis using rooms_wf_cong[OF view_log[of "EvRoomCreate n" ?m ts]] by (simp add: s)
next
  case False
  then have "snd (get_or_create_room now n (fst s)) = fst s" by (auto simp: get_or_create_room_def split: option.splits)
  with wf show ?thesis by simp
qed

subsection \<open>Reachable states\<close>

text \<open>The identifiers of clients are random UUIDs: a new one is not that of an earlier connection.\<close>

definition fresh_input :: "room_input \<Rightarrow> ws_state \<Rightarrow> bool" where
  "fresh_input i s = (case i of Accept st cid \<Rightarrow> \<forall>w \<in> set (snd s). wk_client w \<noteq> Some cid | _ \<Rightarrow> True)"

inductive rooms_reach :: "sanitizer_options option \<Rightarrow> room_manager \<Rightarrow> ws_state \<Rightarrow> bool" for san m0 where
  start: "rooms_reach san m0 (m0, [])"
| step: "rooms_reach san m0 s \<Longrightarrow> fresh_input i s \<Longrightarrow> rooms_reach san m0 (room_step san now i s)"

lemma room_step_wf:
  assumes wf: "rooms_wf {} s" and f: "fresh_input i s"
  shows "rooms_wf {} (room_step san now i s)"
proof -
  have cong: "rooms_wf {} t" if "room_view t = room_view s" for t using rooms_wf_cong[OF that] wf by simp
  show ?thesis
  proof (cases i)
    case (Accept st cid)
    then have "\<forall>k < length (snd s). wk_client (snd s ! k) \<noteq> Some cid" using f by (simp add: fresh_input_def)
    with rooms_open_wf[of "fst s" "snd s" cid st] wf Accept show ?thesis by simp
  next
    case BrokerFailed
    have "room_view (broker_failure (fst s), snd s) = room_view s" by simp
    with BrokerFailed cong show ?thesis by simp
  qed (simp_all add: wf rooms_message_wf disconnect_wf join_decided_wf created_room_wf join_room_wf leave_room_wf leave_all_wf room_kick_wf close_manager_wf cong)
qed

lemma manager_new_wf: "rooms_wf {} (manager_new mx before allow node, [])"
  by (simp add: rooms_wf_def clients_wf_def memberships_wf_def topics_wf_def manager_new_def broker_call_def rooms_of_def members_of_def)

lemma rooms_reach_wf: "rooms_reach san (manager_new mx before allow node) s \<Longrightarrow> rooms_wf {} s"
  by (induction rule: rooms_reach.induct) (simp_all add: manager_new_wf room_step_wf)

end
