(* ===== verification/Ws_Steps.thy ===== *)
theory Ws_Steps
  imports Ws_Rooms_Props
begin

text \<open>
  What one callback of a room manager can change: the limit and the identifier never, the joins that wait for
  \<open>beforeJoin\<close> only by a request or its decision, a room without members only by \<open>getOrCreateRoom\<close>.
\<close>

subsection \<open>The limit and the identifier never change\<close>

lemma max_of_view: "room_view t = room_view s \<Longrightarrow> rm_max_rooms (fst t) = rm_max_rooms (fst s) \<and> rm_node (fst t) = rm_node (fst s)"
  by (simp add: room_view_def)

lemma max_join: "rm_max_rooms (fst (snd (join_room now cid n s))) = rm_max_rooms (fst s) \<and> rm_node (fst (snd (join_room now cid n s))) = rm_node (fst s)"
  by (cases s) (simp add: join_room_def get_or_create_room_def Let_def log_event_keeps broker_call_keeps split: option.splits)

lemma max_leave: "rm_max_rooms (fst (leave_room cid n s)) = rm_max_rooms (fst s) \<and> rm_node (fst (leave_room cid n s)) = rm_node (fst s)"
  by (cases s) (simp add: leave_room_def Let_def log_event_def broker_call_def split: option.splits)

lemma max_leave_all: "rm_max_rooms (fst (leave_all cid s)) = rm_max_rooms (fst s) \<and> rm_node (fst (leave_all cid s)) = rm_node (fst s)"
proof -
  have "rm_max_rooms (fst (fold (leave_room cid) ns s)) = rm_max_rooms (fst s) \<and> rm_node (fst (fold (leave_room cid) ns s)) = rm_node (fst s)" for ns
    by (induction ns arbitrary: s) (simp_all add: max_leave)
  then show ?thesis by (simp add: leave_all_def)
qed

lemma max_on_close: "rm_max_rooms (fst (on_close cid s)) = rm_max_rooms (fst s) \<and> rm_node (fst (on_close cid s)) = rm_node (fst s)"
  using max_leave_all[of cid s] by (simp add: on_close_def case_prod_beta)

lemma max_disconnect: "rm_max_rooms (fst (disconnect k s)) = rm_max_rooms (fst s) \<and> rm_node (fst (disconnect k s)) = rm_node (fst s)"
  by (simp add: disconnect_def rooms_close_def max_on_close log_event_keeps split: option.splits)

lemma max_send: "rm_max_rooms (fst (client_send k f s)) = rm_max_rooms (fst s) \<and> rm_node (fst (client_send k f s)) = rm_node (fst s)"
  by (cases s) (simp add: client_send_def)

lemma max_finish_join: "rm_max_rooms (fst (finish_join now cid k n a s)) = rm_max_rooms (fst s) \<and> rm_node (fst (finish_join now cid k n a s)) = rm_node (fst s)"
  using max_join[of now cid n s] by (auto simp: finish_join_def max_send split: prod.splits option.splits)

lemma max_process_action: "rm_max_rooms (fst (snd (process_action now cid d s))) = rm_max_rooms (fst s) \<and> rm_node (fst (snd (process_action now cid d s))) = rm_node (fst s)"
  by (simp add: process_action_def Let_def run_join_def max_send max_finish_join max_leave max_of_view[OF view_post_message]
      split: option.splits sum.splits)

lemma max_close_manager: "rm_max_rooms (fst (close_manager s)) = rm_max_rooms (fst s) \<and> rm_node (fst (close_manager s)) = rm_node (fst s)"
proof -
  have "rm_max_rooms (fst (fold (\<lambda>(cid, k). disconnect k) cs s)) = rm_max_rooms (fst s) \<and> rm_node (fst (fold (\<lambda>(cid, k). disconnect k) cs s)) = rm_node (fst s)" for cs :: "(string \<times> nat) list"
    by (induction cs arbitrary: s) (auto simp: max_disconnect)
  from this[of "rm_clients (fst s)"] show ?thesis by (simp add: close_manager_def broker_call_def case_prod_beta)
qed

lemma max_rooms_message: "rm_max_rooms (fst (rooms_message san now k d s)) = rm_max_rooms (fst s) \<and> rm_node (fst (rooms_message san now k d s)) = rm_node (fst s)"
  by (simp add: rooms_message_def Let_def log_event_keeps max_process_action split: option.splits)

lemma max_join_decided: "rm_max_rooms (fst (join_decided now i a s)) = rm_max_rooms (fst s) \<and> rm_node (fst (join_decided now i a s)) = rm_node (fst s)"
  by (simp add: join_decided_def max_finish_join case_prod_beta)

lemma max_room_kick: "rm_max_rooms (fst (snd (room_kick n cid r disc s))) = rm_max_rooms (fst s) \<and> rm_node (fst (snd (room_kick n cid r disc s))) = rm_node (fst s)"
  by (simp add: room_kick_def Let_def max_disconnect max_leave max_send split: option.splits)

lemma max_created: "rm_max_rooms (snd (get_or_create_room now n m)) = rm_max_rooms m \<and> rm_node (snd (get_or_create_room now n m)) = rm_node m"
  by (simp add: get_or_create_room_def log_event_keeps split: option.splits)

lemma max_step: "rm_max_rooms (fst (room_step san now i s)) = rm_max_rooms (fst s) \<and> rm_node (fst (room_step san now i s)) = rm_node (fst s)"
proof (cases i)
  case (Accept st cid)
  then show ?thesis by (simp add: rooms_open_def log_event_keeps on_open_def)
next
  case BrokerFailed
  then show ?thesis by (simp add: broker_failure_def log_event_keeps)
qed (simp_all add: max_created max_join max_leave max_leave_all max_disconnect max_close_manager max_rooms_message max_join_decided max_room_kick
    max_of_view[OF view_broadcast] max_of_view[OF view_broadcast_except] max_of_view[OF view_broadcast_all]
    max_of_view[OF view_broker_room] max_of_view[OF view_ctl])

lemma reach_max: "rooms_reach san (manager_new mx before allow node) s \<Longrightarrow> rm_max_rooms (fst s) = mx \<and> rm_node (fst s) = node"
  by (induction rule: rooms_reach.induct) (simp_all add: max_step manager_new_def broker_call_def)

subsection \<open>Joins that wait\<close>

lemma pending_view: "room_view t = room_view s \<Longrightarrow> rm_pending (fst t) = rm_pending (fst s)"
  by (simp add: room_view_def)

lemma pending_log: "rm_pending (log_event e m) = rm_pending m" "rm_pending (if b then broker_call c m else m) = rm_pending m"
    "rm_pending (broker_call c m) = rm_pending m"
  by (simp_all add: log_event_def broker_call_def)

lemma pending_created: "rm_pending (snd (get_or_create_room now n m)) = rm_pending m"
  by (simp add: get_or_create_room_def pending_log split: option.splits)

lemma pending_join: "rm_pending (fst (snd (join_room now cid n s))) = rm_pending (fst s)"
  by (cases s) (simp add: join_room_def Let_def pending_log pending_created split: option.splits)

lemma pending_leave: "rm_pending (fst (leave_room cid n s)) = rm_pending (fst s)"
  by (cases s) (simp add: leave_room_def Let_def pending_log split: option.splits)

lemma pending_leave_all: "rm_pending (fst (leave_all cid s)) = rm_pending (fst s)"
proof -
  have "rm_pending (fst (fold (leave_room cid) ns s)) = rm_pending (fst s)" for ns
    by (induction ns arbitrary: s) (simp_all add: pending_leave)
  then show ?thesis by (simp add: leave_all_def)
qed

lemma pending_disconnect: "rm_pending (fst (disconnect k s)) = rm_pending (fst s)"
proof -
  have "rm_pending (fst (on_close cid s)) = rm_pending (fst s)" for cid s
    using pending_leave_all[of cid s] by (simp add: on_close_def case_prod_beta)
  then show ?thesis by (simp add: disconnect_def rooms_close_def pending_log split: option.splits)
qed

lemma pending_send: "rm_pending (fst (client_send k f s)) = rm_pending (fst s)"
  by (cases s) (simp add: client_send_def)

lemma pending_kick: "rm_pending (fst (snd (room_kick n cid r disc s))) = rm_pending (fst s)"
  by (simp add: room_kick_def Let_def pending_disconnect pending_leave pending_send split: option.splits)

lemma pending_finish: "rm_pending (fst (finish_join now cid k n a s)) = rm_pending (fst s)"
  using pending_join[of now cid n s] by (auto simp: finish_join_def pending_send split: prod.splits option.splits)

lemma pending_close: "rm_pending (fst (close_manager s)) = rm_pending (fst s)"
proof -
  have "rm_pending (fst (fold (\<lambda>(cid, k). disconnect k) cs s)) = rm_pending (fst s)" for cs :: "(string \<times> nat) list"
    by (induction cs arbitrary: s) (auto simp: pending_disconnect)
  from this[of "rm_clients (fst s)"] show ?thesis by (simp add: close_manager_def pending_log case_prod_beta)
qed

text \<open>The message \<open>d\<close> asks to join the room \<open>n\<close>.\<close>

definition asks_to_join :: "ws_data \<Rightarrow> string \<Rightarrow> bool" where
  "asks_to_join d n \<longleftrightarrow> (\<exists>v. parsed_action d = Some v \<and> msg_string ''action'' v = Some ''join'' \<and> msg_string ''room'' v = Some n)"

lemma pending_action:
  "set (rm_pending (fst (snd (process_action now cid d s)))) \<subseteq> set (rm_pending (fst s)) \<union> {(cid, k, n) | k n. asks_to_join d n}"
proof -
  have run: "set (rm_pending (fst (run_join now cid k n s))) \<subseteq> insert (cid, k, n) (set (rm_pending (fst s)))" for k n s
    by (simp add: run_join_def pending_send pending_finish) blast
  show ?thesis
  proof (cases "\<exists>v k n. parsed_action d = Some v \<and> msg_string ''action'' v = Some ''join'' \<and> map_of (rm_clients (fst s)) cid = Some k
      \<and> msg_string ''room'' v = Some n \<and> n \<noteq> []")
    case True
    then obtain v k n where v: "parsed_action d = Some v" "msg_string ''action'' v = Some ''join''" "map_of (rm_clients (fst s)) cid = Some k"
      "msg_string ''room'' v = Some n" "n \<noteq> []" by blast
    then have e: "snd (process_action now cid d s) = run_join now cid k n ((fst s)\<lparr>rm_received := Suc (rm_received (fst s))\<rparr>, snd s)"
      by (simp add: process_action_def Let_def)
    have "asks_to_join d n" using v by (simp add: asks_to_join_def)
    then show ?thesis using run[of k n "((fst s)\<lparr>rm_received := Suc (rm_received (fst s))\<rparr>, snd s)"] unfolding e by auto
  next
    case False
    then have "rm_pending (fst (snd (process_action now cid d s))) = rm_pending (fst s)"
      by (auto simp: process_action_def Let_def pending_send pending_leave pending_view[OF view_post_message] split: option.splits sum.splits)
    then show ?thesis by simp
  qed
qed

text \<open>A join that waits after a step waited before it, or the step is the message of that client that asks for it.\<close>

lemma pending_step:
  assumes "(cid, k, n) \<in> set (rm_pending (fst (room_step san now i s)))"
  shows "(cid, k, n) \<in> set (rm_pending (fst s))
    \<or> (\<exists>j d. i = Receive j d \<and> wk_client (snd s ! j) = Some cid \<and> asks_to_join (sanitize_data san d) n)"
proof (cases i)
  case (Accept st c)
  then show ?thesis using assms by (simp add: rooms_open_def on_open_def pending_log)
next
  case (Receive j d)
  then show ?thesis
    using assms pending_action[of now _ "sanitize_data san d" s]
    by (auto simp: rooms_message_def Let_def pending_log split: option.splits if_splits)
next
  case (JoinDecided j a)
  then show ?thesis
    using assms by (auto simp: join_decided_def pending_finish split: prod.splits if_splits dest: in_set_takeD in_set_dropD)
next
  case BrokerFailed
  then show ?thesis using assms by (simp add: broker_failure_def pending_log)
qed (use assms in \<open>simp_all add: pending_created pending_join pending_leave pending_leave_all pending_disconnect pending_kick pending_close
      pending_view[OF view_broadcast] pending_view[OF view_broadcast_except] pending_view[OF view_broadcast_all]
      pending_view[OF view_broker_room] pending_view[OF view_ctl]\<close>)

subsection \<open>Rooms without members\<close>

definition empty_room :: "ws_state \<Rightarrow> string \<Rightarrow> bool" where
  "empty_room s n \<longleftrightarrow> (\<exists>r. map_of (rm_rooms (fst s)) n = Some r \<and> ro_members r = [])"

definition no_new_empty :: "ws_state \<Rightarrow> ws_state \<Rightarrow> bool" where
  "no_new_empty s t \<longleftrightarrow> (\<forall>n. empty_room t n \<longrightarrow> empty_room s n)"

lemma empty_same: "rm_rooms (fst t) = rm_rooms (fst s) \<Longrightarrow> no_new_empty s t"
  by (simp add: no_new_empty_def empty_room_def)

lemma empty_view: "room_view t = room_view s \<Longrightarrow> no_new_empty s t"
  by (rule empty_same) (simp add: room_view_def)

lemma empty_trans: "no_new_empty s t \<Longrightarrow> no_new_empty t u \<Longrightarrow> no_new_empty s u"
  by (simp add: no_new_empty_def)

lemma empty_leave: "no_new_empty s (leave_room cid n s)"
proof -
  obtain m ts where s: "s = (m, ts)" by force
  show ?thesis
  proof (cases "n \<in> set (rooms_of m cid) \<and> map_of (rm_rooms m) n \<noteq> None")
    case True
    then obtain rs r where rs: "map_of (rm_client_rooms m) cid = Some rs" "n \<in> set rs" "map_of (rm_rooms m) n = Some r"
      by (cases "map_of (rm_client_rooms m) cid") (auto simp: rooms_of_def)
    then have "map_of (rm_rooms (fst (leave_room cid n s))) x = (if x = n then (if AList.delete cid (ro_members r) = [] then None
        else Some (r\<lparr>ro_members := AList.delete cid (ro_members r)\<rparr>)) else map_of (rm_rooms m) x)" for x
      by (simp add: s leave_room_def Let_def log_event_def broker_call_def)
    then show ?thesis by (auto simp: no_new_empty_def empty_room_def s split: if_splits)
  next
    case False
    then have "rm_rooms (fst (leave_room cid n s)) = rm_rooms m"
      by (cases "map_of (rm_client_rooms m) cid") (auto simp: s leave_room_def rooms_of_def Let_def)
    then show ?thesis by (intro empty_same) (simp add: s)
  qed
qed

lemma empty_fold: "(\<And>x s. no_new_empty s (g x s)) \<Longrightarrow> no_new_empty s (fold g xs s)"
proof (induction xs arbitrary: s)
  case (Cons x xs)
  from empty_trans[OF Cons.prems Cons.IH[OF Cons.prems]] show ?case by simp
qed (simp add: empty_same)

lemma empty_leave_all: "no_new_empty s (leave_all cid s)"
  unfolding leave_all_def by (rule empty_fold) (rule empty_leave)

lemma empty_on_close: "no_new_empty s (on_close cid s)"
  using empty_leave_all[of s cid] by (simp add: on_close_def no_new_empty_def empty_room_def case_prod_beta)

lemma empty_disconnect: "no_new_empty s (disconnect k s)"
proof -
  have "no_new_empty (m, ts) (on_close cid (if b then (log_event e m, ts') else (m, ts')))" for m ts ts' cid b e
    by (rule empty_trans[OF empty_same empty_on_close]) (simp add: log_event_keeps)
  from this[where b = True] this[where b = False] show ?thesis
    by (cases s) (auto simp: disconnect_def rooms_close_def intro: empty_same split: option.splits)
qed

lemma empty_send: "no_new_empty s (client_send k f s)"
  by (rule empty_view) simp

lemma empty_kick: "no_new_empty s (snd (room_kick n cid r disc s))"
  by (auto simp: room_kick_def Let_def intro: empty_same empty_trans[OF empty_send] empty_leave empty_trans[OF empty_leave empty_disconnect]
      empty_trans[OF empty_trans[OF empty_send empty_leave] empty_disconnect] split: option.splits)

lemma empty_close_manager: "no_new_empty s (close_manager s)"
  by (simp add: close_manager_def no_new_empty_def empty_room_def broker_call_def case_prod_beta)

lemma empty_join: "no_new_empty s (snd (join_room now cid n s))"
proof -
  obtain m ts where s: "s = (m, ts)" by force
  show ?thesis
  proof (cases "snd (join_room now cid n s) = s")
    case False
    then have c: "room_name_error n = None" "n \<notin> set (rooms_of m cid)" "\<not> over_limit (length (rooms_of m cid)) (rm_max_rooms m)"
      "map_of (rm_client_rooms m) cid \<noteq> None"
      using join_refused[of n m cid now ts] unfolding s by argo+
    then obtain rs where rs: "map_of (rm_client_rooms m) cid = Some rs" "rooms_of m cid = rs" by (auto simp: rooms_of_def)
    have "\<exists>r. ro_members r \<noteq> [] \<and> (\<forall>x. map_of (rm_rooms (fst (snd (join_room now cid n s)))) x = (if x = n then Some r else map_of (rm_rooms m) x))"
    proof (cases "map_of (rm_rooms m) n")
      case None
      then show ?thesis using c rs
        by (intro exI[of _ "\<lparr>ro_name = n, ro_created = now, ro_members = [(cid, case map_of (rm_clients m) cid of Some j \<Rightarrow> j | None \<Rightarrow> length ts, now)]\<rparr>"])
           (auto simp: s join_room_def get_or_create_room_def Let_def log_event_keeps broker_call_keeps)
    next
      case (Some r)
      then show ?thesis using c rs
        by (intro exI[of _ "r\<lparr>ro_members := AList.update cid (case map_of (rm_clients m) cid of Some j \<Rightarrow> j | None \<Rightarrow> length ts, now) (ro_members r)\<rparr>"])
           (auto simp: s join_room_def get_or_create_room_def Let_def log_event_keeps broker_call_keeps update_nonempty simp del: map_of_eq_Some_iff)
    qed
    then obtain r where r: "ro_members r \<noteq> []"
      "\<And>x. map_of (rm_rooms (fst (snd (join_room now cid n s)))) x = (if x = n then Some r else map_of (rm_rooms m) x)" by blast
    show ?thesis
      unfolding no_new_empty_def empty_room_def r(2) using r(1) by (auto simp: s)
  qed (simp add: empty_same)
qed

lemma empty_finish: "no_new_empty s (finish_join now cid k n a s)"
proof -
  obtain e t where j: "join_room now cid n s = (e, t)" by (metis prod.exhaust)
  have "no_new_empty s t" using empty_join[of s now cid n] by (simp add: j)
  then show ?thesis using empty_trans[OF _ empty_send] by (auto simp: finish_join_def j empty_send split: option.splits)
qed

lemma empty_action: "no_new_empty s (snd (process_action now cid d s))"
proof -
  let ?s = "((fst s)\<lparr>rm_received := Suc (rm_received (fst s))\<rparr>, snd s)"
  have r: "no_new_empty s ?s" by (rule empty_same) simp
  have pend: "no_new_empty ?s ((fst ?s)\<lparr>rm_pending := p\<rparr>, snd ?s)" for p by (rule empty_same) simp
  have "no_new_empty ?s (run_join now cid k n ?s)" for k n
    unfolding run_join_def using empty_send empty_finish pend by (auto split: if_splits)
  moreover have "no_new_empty ?s (post_message cid k n v ?s)" for k n v by (rule empty_view) simp
  moreover have "no_new_empty ?s (client_send k f (leave_room cid n ?s))" for k f n by (rule empty_trans[OF empty_leave empty_send])
  ultimately have "no_new_empty ?s (snd (process_action now cid d s))"
    by (simp add: process_action_def Let_def empty_same empty_send split: option.splits sum.splits)
  then show ?thesis by (rule empty_trans[OF r])
qed

lemma empty_step: "empty_room (room_step san now i s) n \<Longrightarrow> empty_room s n \<or> i = ApiCreateRoom n"
proof (cases "\<exists>x. i = ApiCreateRoom x")
  case True
  assume e: "empty_room (room_step san now i s) n"
  from True obtain x where i: "i = ApiCreateRoom x" by blast
  show ?thesis
    using e by (auto simp: i empty_room_def get_or_create_room_def log_event_keeps split: option.splits if_splits)
next
  case False
  assume e: "empty_room (room_step san now i s) n"
  have "no_new_empty s (room_step san now i s)"
  proof (cases i)
    case (Accept st c)
    show ?thesis unfolding Accept by (rule empty_same) (simp add: rooms_open_def log_event_keeps on_open_def)
  next
    case (Receive k d)
    have "no_new_empty s (log_event e (fst t), snd t)" if "no_new_empty s t" for e t
      using that by (simp add: no_new_empty_def empty_room_def log_event_keeps)
    then show ?thesis by (simp add: Receive rooms_message_def Let_def empty_action empty_same split: option.splits)
  next
    case (JoinDecided j a)
    have "no_new_empty s (finish_join now c k x a ((fst s)\<lparr>rm_pending := p\<rparr>, snd s))" for c k x p
      by (rule empty_trans[OF empty_same empty_finish]) simp
    then show ?thesis by (simp add: JoinDecided join_decided_def empty_same split: prod.splits)
  next
    case BrokerFailed
    show ?thesis unfolding BrokerFailed by (rule empty_same) (simp add: broker_failure_def log_event_keeps)
  qed (use False in \<open>simp_all add: empty_join empty_leave empty_leave_all empty_kick empty_disconnect empty_close_manager empty_view\<close>)
  with e show ?thesis by (simp add: no_new_empty_def)
qed

end
