(* ===== verification/Ws_Delivery.thy ===== *)
theory Ws_Delivery
  imports Ws_Steps
begin

text \<open>
  What the consistency of the rooms gives: the reach of a broadcast and of a client's message, who can
  come into a room, what presence shows, and two managers on one server.
\<close>

subsection \<open>Memberships agree\<close>

text \<open>The callbacks of a run, each client with an identifier that is new.\<close>

fun fresh_trace :: "sanitizer_options option \<Rightarrow> (int \<times> room_input) list \<Rightarrow> ws_state \<Rightarrow> bool" where
  "fresh_trace san [] s = True"
| "fresh_trace san ((now, i) # ins) s \<longleftrightarrow> fresh_input i s \<and> fresh_trace san ins (room_step san now i s)"

lemma trace_reach: "fresh_trace san ins s \<Longrightarrow> rooms_reach san m0 s \<Longrightarrow> rooms_reach san m0 (room_run san ins s)"
proof (induction ins arbitrary: s)
  case (Cons p ins)
  obtain now i where p: "p = (now, i)" by force
  have "rooms_reach san m0 (room_step san now i s)" using Cons.prems rooms_reach.step by (simp add: p)
  then show ?case using Cons.IH[of "room_step san now i s"] Cons.prems(1) by (simp add: room_run_def p)
qed (simp add: room_run_def)

lemma empty_run: "empty_room (room_run san ins s) n \<Longrightarrow> empty_room s n \<or> (\<exists>t. (t, ApiCreateRoom n) \<in> set ins)"
proof (induction ins arbitrary: s)
  case (Cons p ins)
  obtain now i where p: "p = (now, i)" by force
  have "empty_room (room_run san ins (room_step san now i s)) n" using Cons.prems by (simp add: room_run_def p)
  with Cons.IH[of "room_step san now i s"] empty_step[of san now i s n] show ?case by (auto simp: p)
qed (simp add: room_run_def)

text \<open>C22. In every state that a run of callbacks and calls of one manager leads to, the three records of
  memberships agree: a client is in a room's list, has the room in its own set and is subscribed to its topic,
  or none of the three; a socket that is open belongs to a client; no client is over the limit; and a room
  without members is one that the application has made with \<open>getOrCreateRoom\<close>.\<close>

theorem rooms_consistent:
  assumes run: "fresh_trace san ins (manager_new mx before allow node, [])" "room_run san ins (manager_new mx before allow node, []) = (m, ts)"
  shows "(\<forall>cid k. map_of (rm_clients m) cid = Some k \<longrightarrow>
           k < length ts \<and> wk_open (ts ! k)
           \<and> (\<forall>n. (n \<in> set (wk_topics (ts ! k)) \<longleftrightarrow> map_of (members_of m n) cid \<noteq> None)
                \<and> (n \<in> set (rooms_of m cid) \<longleftrightarrow> map_of (members_of m n) cid \<noteq> None))
           \<and> (case mx of Some b \<Rightarrow> length (rooms_of m cid) \<le> b | None \<Rightarrow> True))
    \<and> (\<forall>n r. map_of (rm_rooms m) n = Some r \<longrightarrow>
           (ro_members r = [] \<longrightarrow> (\<exists>t. (t, ApiCreateRoom n) \<in> set ins))
           \<and> (\<forall>cid k t. map_of (ro_members r) cid = Some (k, t) \<longrightarrow> map_of (rm_clients m) cid = Some k))
    \<and> (\<forall>k < length ts. wk_open (ts ! k) \<longrightarrow> (\<exists>cid. map_of (rm_clients m) cid = Some k))"
proof -
  have reach: "rooms_reach san (manager_new mx before allow node) (m, ts)"
    using trace_reach[OF run(1) rooms_reach.start] by (simp add: run(2))
  note wf = rooms_reach_wf[OF reach]
  note W = rooms_wfD[OF wf]
  have mx: "rm_max_rooms m = mx" using reach_max[OF reach] by simp
  have lim: "case mx of Some b \<Rightarrow> length (rooms_of m cid) \<le> b | None \<Rightarrow> True" for cid
    using W(2) mx by (cases mx) (auto simp: memberships_wf_def)
  have op: "map_of (rm_clients m) cid = Some k \<Longrightarrow> k < length ts \<and> wk_client (ts ! k) = Some cid \<and> wk_open (ts ! k)" for cid k
    using W(1) by (auto simp: clients_wf_def)
  have top: "map_of (rm_clients m) cid = Some k \<Longrightarrow> set (wk_topics (ts ! k)) = set (rooms_of m cid)" for cid k
    using W(3) op[of cid k] by (auto simp: topics_wf_def)
  have sk: "k < length ts \<Longrightarrow> wk_open (ts ! k) \<Longrightarrow> \<exists>cid. map_of (rm_clients m) cid = Some k" for k
    using W(1) unfolding clients_wf_def prod.case by blast
  have "\<not> empty_room (manager_new mx before allow node, []) n" for n
    by (simp add: empty_room_def manager_new_def broker_call_def)
  then have made: "\<exists>t. (t, ApiCreateRoom n) \<in> set ins" if "map_of (rm_rooms m) n = Some r" "ro_members r = []" for n r
    using empty_run[of san ins "(manager_new mx before allow node, [])" n] that by (auto simp: run(2) empty_room_def)
  show ?thesis
    using op top W(7) lim sk W(6) made by (simp add: room_ok_def)
qed

subsection \<open>Deliveries\<close>

text \<open>Exactly the sockets of \<open>K\<close> got the frame, once, after everything they got before.\<close>

definition delivered :: "frame \<Rightarrow> nat set \<Rightarrow> ws_socket list \<Rightarrow> ws_socket list \<Rightarrow> bool" where
  "delivered f K ts ts' \<longleftrightarrow> length ts' = length ts
     \<and> (\<forall>k < length ts. ts' ! k = (if k \<in> K then (ts ! k)\<lparr>wk_inbox := wk_inbox (ts ! k) @ [f]\<rparr> else ts ! k))"

definition member_sockets :: "room_manager \<Rightarrow> string \<Rightarrow> nat set" where
  "member_sockets m n = (fst \<circ> snd) ` set (members_of m n)"

lemma member_socket_iff:
  assumes wf: "rooms_wf {} (m, ts)"
  shows "k \<in> member_sockets m n \<longleftrightarrow> k < length ts \<and> wk_open (ts ! k) \<and> n \<in> set (wk_topics (ts ! k))"
proof -
  note W = rooms_wfD[OF wf]
  have mem: "\<exists>t. map_of (members_of m n) c = Some (k, t)" if "(c, k, t) \<in> set (members_of m n)" for c t
    using that W(6)[of n] by (auto simp: members_of_def room_ok_def split: option.splits)
  have cl: "map_of (members_of m n) c = Some (k, t) \<Longrightarrow> map_of (rm_clients m) c = Some k" for c t
    using W(6)[of n] by (cases "map_of (rm_rooms m) n") (auto simp: members_of_def room_ok_def)
  show ?thesis
  proof
    assume "k \<in> member_sockets m n"
    then obtain c t where "(c, k, t) \<in> set (members_of m n)" by (auto simp: member_sockets_def)
    then obtain t where t: "map_of (members_of m n) c = Some (k, t)" using mem by blast
    then have c: "map_of (rm_clients m) c = Some k" by (rule cl)
    then have "k < length ts \<and> wk_client (ts ! k) = Some c \<and> wk_open (ts ! k)" using W(1) by (auto simp: clients_wf_def)
    moreover have "n \<in> set (rooms_of m c)" using W(7) t by simp
    ultimately show "k < length ts \<and> wk_open (ts ! k) \<and> n \<in> set (wk_topics (ts ! k))" using W(3) by (auto simp: topics_wf_def)
  next
    assume k: "k < length ts \<and> wk_open (ts ! k) \<and> n \<in> set (wk_topics (ts ! k))"
    then obtain c where c: "wk_client (ts ! k) = Some c" "map_of (rm_clients m) c = Some k" using W(1) by (auto simp: clients_wf_def)
    with k have "n \<in> set (rooms_of m c)" using W(3) by (auto simp: topics_wf_def)
    then obtain j t where "map_of (members_of m n) c = Some (j, t)" using W(7)[of n c] by auto
    moreover from this have "j = k" using W(6)[of n] c by (cases "map_of (rm_rooms m) n") (auto simp: members_of_def room_ok_def)
    ultimately have "(c, k, t) \<in> set (members_of m n)" by (auto dest: map_of_SomeD)
    then show "k \<in> member_sockets m n" by (force simp: member_sockets_def)
  qed
qed

lemma publish_and_send:
  assumes wf: "rooms_wf {} (m, ts)" and k: "k \<in> member_sockets m n"
  shows "delivered f (member_sockets m n) ts (snd (client_send k f (counted_publish k n f (m, ts))))"
proof -
  from k have op: "k < length ts" "wk_open (ts ! k)" using member_socket_iff[OF wf] by auto
  show ?thesis
    using k op member_socket_iff[OF wf, of _ n]
    by (auto simp: delivered_def client_send_def counted_publish_def sock_send_def nth_on_socket nth_publish is_open_def)
qed

lemma nobody: "delivered f {} ts ts"
  by (simp add: delivered_def)

lemma local_broadcast_delivers:
  assumes wf: "rooms_wf {} s" shows "delivered f (member_sockets (fst s) n) (snd s) (snd (local_broadcast n f s))"
proof -
  obtain m ts where s: "s = (m, ts)" by force
  show ?thesis
  proof (cases "map_of (rm_rooms m) n")
    case None
    then show ?thesis by (simp add: s local_broadcast_def member_sockets_def members_of_def nobody)
  next
    case (Some r)
    show ?thesis
    proof (cases "ro_members r")
      case Nil
      then show ?thesis using Some by (simp add: s local_broadcast_def member_sockets_def members_of_def nobody)
    next
      case (Cons p ps)
      then obtain c k t where r: "ro_members r = (c, k, t) # ps" by (cases p) simp
      then have "k \<in> member_sockets m n" using Some by (simp add: member_sockets_def members_of_def)
      from publish_and_send[OF wf[unfolded s] this] show ?thesis by (simp add: s local_broadcast_def Some r)
    qed
  qed
qed

lemma publish_others:
  assumes wf: "rooms_wf {} (m, ts)" and k: "k \<in> member_sockets m n"
  shows "delivered f (member_sockets m n - {k}) ts (snd (counted_publish k n f (m, ts)))"
proof -
  from k have op: "k < length ts" "wk_open (ts ! k)" using member_socket_iff[OF wf] by auto
  show ?thesis
    using k op member_socket_iff[OF wf, of _ n]
    by (auto simp: delivered_def counted_publish_def nth_publish is_open_def)
qed

lemma sends_delivered:
  "distinct ks \<Longrightarrow> \<forall>k \<in> set ks. is_open k ts \<Longrightarrow>
   delivered f (set ks) ts (snd (fold (\<lambda>k. client_send k f) ks (m, ts)))"
proof (induction ks arbitrary: m ts)
  case (Cons k ks)
  let ?ts = "sock_send k f ts"
  have "\<forall>j \<in> set ks. is_open j ?ts" using Cons.prems by (auto simp: is_open_def sock_send_def nth_on_socket)
  then have "delivered f (set ks) ?ts (snd (fold (\<lambda>k. client_send k f) ks (m\<lparr>rm_sent := Suc (rm_sent m)\<rparr>, ?ts)))"
    using Cons.IH[of ?ts] Cons.prems(1) by simp
  moreover have "fold (\<lambda>k. client_send k f) (k # ks) (m, ts) = fold (\<lambda>k. client_send k f) ks (m\<lparr>rm_sent := Suc (rm_sent m)\<rparr>, ?ts)"
    by (simp add: client_send_def)
  ultimately have "delivered f (set ks) ?ts (snd (fold (\<lambda>k. client_send k f) (k # ks) (m, ts)))" by simp
  then show ?case using Cons.prems by (auto simp: delivered_def sock_send_def nth_on_socket is_open_def)
qed (simp add: nobody)

lemma member_client:
  assumes wf: "rooms_wf C (m, ts)" and "(c, k, t) \<in> set (members_of m n)"
  shows "map_of (rm_clients m) c = Some k"
  using assms(2) rooms_wfD(6)[OF wf, of n] by (cases "map_of (rm_rooms m) n") (simp_all add: members_of_def room_ok_def)

lemma members_keys: "rooms_wf C (m, ts) \<Longrightarrow> distinct_keys (members_of m n)"
  using rooms_wfD(6)[of C m ts n] by (cases "map_of (rm_rooms m) n") (simp_all add: members_of_def room_ok_def)

lemma members_distinct:
  assumes wf: "rooms_wf {} (m, ts)"
  shows "distinct (map (fst \<circ> snd) (members_of m n))" "\<forall>k \<in> member_sockets m n. is_open k ts"
proof -
  note W = rooms_wfD[OF wf]
  have inj: "c = d" if "(c, k, t) \<in> set (members_of m n)" "(d, k, u) \<in> set (members_of m n)" for c d k t u
  proof -
    from that member_client[OF wf] have "map_of (rm_clients m) c = Some k" "map_of (rm_clients m) d = Some k" by blast+
    then show ?thesis using W(8) by (metis option.inject)
  qed
  have "distinct_keys (members_of m n)" using members_keys[OF wf] .
  then have "distinct (members_of m n)" by (simp add: distinct_map)
  moreover have "inj_on (fst \<circ> snd) (set (members_of m n))"
  proof (rule inj_onI)
    fix x y assume x: "x \<in> set (members_of m n)" and y: "y \<in> set (members_of m n)" and e: "(fst \<circ> snd) x = (fst \<circ> snd) y"
    obtain c k t where xe: "x = (c, k, t)" by (metis prod.exhaust)
    obtain d u where ye: "y = (d, k, u)" using e xe by (cases y) auto
    have "c = d" using inj x y xe ye by blast
    with x y xe ye \<open>distinct_keys (members_of m n)\<close> show "x = y" by (metis eq_key_imp_eq_value)
  qed
  ultimately show "distinct (map (fst \<circ> snd) (members_of m n))" by (simp add: distinct_map)
  show "\<forall>k \<in> member_sockets m n. is_open k ts" using member_socket_iff[OF wf] by (simp add: is_open_def)
qed

lemma broadcast_except_delivers:
  assumes wf: "rooms_wf {} s"
  shows "delivered f (case map_of (members_of (fst s) n) cid of Some (k, t) \<Rightarrow> member_sockets (fst s) n - {k} | None \<Rightarrow> member_sockets (fst s) n)
    (snd s) (snd (broadcast_except n cid f s))"
proof -
  obtain m ts where s: "s = (m, ts)" by force
  show ?thesis
  proof (cases "map_of (rm_rooms m) n")
    case None
    then show ?thesis by (simp add: s broadcast_except_def member_sockets_def members_of_def nobody)
  next
    case (Some r)
    then have mem: "members_of m n = ro_members r" by (simp add: members_of_def)
    show ?thesis
    proof (cases "map_of (ro_members r) cid")
      case None
      have fold: "fold (\<lambda>(cid, k, _). client_send k f) ms st = fold (\<lambda>k. client_send k f) (map (fst \<circ> snd) ms) st"
        for ms :: "(string \<times> nat \<times> int) list" and st
        by (induction ms arbitrary: st) auto
      have "delivered f (member_sockets m n) ts (snd (fold (\<lambda>k. client_send k f) (map (fst \<circ> snd) (ro_members r)) (m, ts)))"
        using sends_delivered[of "map (fst \<circ> snd) (ro_members r)" ts f m] members_distinct[OF wf[unfolded s], of n]
        by (simp add: mem member_sockets_def)
      then show ?thesis using Some None by (simp add: s broadcast_except_def mem fold case_prod_beta del: map_of_eq_Some_iff map_of_eq_None_iff)
    next
      case p: (Some p)
      then obtain k t where k: "p = (k, t)" by force
      have "(cid, k, t) \<in> set (members_of m n)" using map_of_SomeD[OF p] by (simp add: mem k)
      then have "k \<in> member_sockets m n" by (force simp: member_sockets_def)
      from publish_others[OF wf[unfolded s] this, of f] show ?thesis
        using Some p k by (simp add: s broadcast_except_def mem case_prod_beta del: map_of_eq_Some_iff)
    qed
  qed
qed

text \<open>What a broadcast into the room \<open>n\<close> hands to the broker, when there is one.\<close>

definition handed_over :: "string \<Rightarrow> frame \<Rightarrow> ws_state \<Rightarrow> broker_call list" where
  "handed_over n f s =
     (case rm_node (fst s) of
        Some nd \<Rightarrow> (if map_of (rm_rooms (fst s)) n = None then [] else [CallPublish (ws_room_channel n) (json_text_of (room_envelope nd n f))])
      | None \<Rightarrow> [])"

lemma broadcast_except_calls: "rm_calls (fst (broadcast_except n cid f s)) = rm_calls (fst s) @ handed_over n f s"
proof -
  have sent: "rm_calls (fst (client_send k f s)) = rm_calls (fst s) \<and> rm_node (fst (client_send k f s)) = rm_node (fst s)" for k f s
    by (cases s) (simp add: client_send_def)
  have each: "rm_calls (fst (fold (\<lambda>(cid, k, _). client_send k f) ms s)) = rm_calls (fst s)
      \<and> rm_node (fst (fold (\<lambda>(cid, k, _). client_send k f) ms s)) = rm_node (fst s)" for ms :: "(string \<times> nat \<times> int) list"
    by (induction ms arbitrary: s) (auto simp: sent)
  have pub: "rm_calls (fst (counted_publish k n f s)) = rm_calls (fst s) \<and> rm_node (fst (counted_publish k n f s)) = rm_node (fst s)" for k
    by (cases s) (simp add: counted_publish_def)
  show ?thesis
    using each pub
    by (simp add: broadcast_except_def handed_over_def forward_to_broker_def broker_call_def case_prod_beta del: map_of_eq_Some_iff split: option.splits)
qed

text \<open>C23. On a server whose sockets all belong to one manager, a broadcast reaches every member of the room on
  this node once and nobody else, one with an exception every member but that one; nothing else about the
  sockets changes, and a manager with a broker hands the message to it once, in both cases, exactly when the
  room exists.\<close>

theorem broadcast_exact:
  assumes reach: "rooms_reach san (manager_new mx before allow node) s"
  shows "delivered f (member_sockets (fst s) n) (snd s) (snd (broadcast n f s))
    \<and> delivered f (case map_of (members_of (fst s) n) cid of Some (k, t) \<Rightarrow> member_sockets (fst s) n - {k} | None \<Rightarrow> member_sockets (fst s) n)
        (snd s) (snd (broadcast_except n cid f s))
    \<and> rm_calls (fst (broadcast n f s)) = rm_calls (fst s) @ handed_over n f s
    \<and> rm_calls (fst (broadcast_except n cid f s)) = rm_calls (fst s) @ handed_over n f s"
proof -
  note wf = rooms_reach_wf[OF reach]
  obtain m ts where s: "s = (m, ts)" by force
  obtain m' ts' where l: "local_broadcast n f s = (m', ts')" by force
  have keep: "rm_calls m' = rm_calls m \<and> rm_node m' = rm_node m \<and> rm_rooms m' = rm_rooms m"
    using l by (auto simp: s local_broadcast_def client_send_def counted_publish_def split: option.splits list.splits)
  have b: "broadcast n f s = (if map_of (rm_rooms m) n = None then m' else forward_to_broker n f m', ts')"
    by (simp add: broadcast_def l keep)
  have "delivered f (member_sockets m n) ts ts'" using local_broadcast_delivers[OF wf, of f n] by (simp add: s l[unfolded s])
  then show ?thesis
    using broadcast_except_delivers[OF wf, of f n cid] broadcast_except_calls[of n cid f s] keep
    by (simp add: s b[unfolded s] handed_over_def forward_to_broker_def broker_call_def del: map_of_eq_None_iff split: option.splits)
qed

text \<open>A state to try it on: three clients, of which the first two are in the lobby.\<close>

definition demo_inputs :: "(int \<times> room_input) list" where
  "demo_inputs =
     [(0, Accept (JObj [(''name'', JStr ''ann''), (''accessToken'', JStr ''t'')]) ''a''), (1, Accept (JObj []) ''b''), (2, Accept (JObj []) ''c''),
      (3, ApiJoin ''a'' ''lobby''), (4, ApiJoin ''b'' ''lobby'')]"

definition demo_node :: "string \<Rightarrow> ws_state" where
  "demo_node nd = room_run None demo_inputs (manager_new (Some 2) False (Some (\<lambda>n. n = ''lobby'')) (Some nd), [])"

lemma demo_node_reach: "rooms_reach None (manager_new (Some 2) False (Some (\<lambda>n. n = ''lobby'')) (Some nd)) (demo_node nd)"
proof -
  have "fresh_trace None demo_inputs (manager_new (Some 2) False (Some (\<lambda>n. n = ''lobby'')) (Some nd), [])"
    unfolding demo_inputs_def by (simp add: fresh_input_def rooms_open_def socket_new_def)
  from trace_reach[OF this rooms_reach.start] show ?thesis by (simp add: demo_node_def)
qed

abbreviation demo_rooms :: ws_state where
  "demo_rooms \<equiv> demo_node ''n1''"

lemmas demo_rooms_reach = demo_node_reach[of "''n1''"]

theorem broadcast_exact_witness:
  "delivered (TextFrame ''hi'', None) {0, 1} (snd demo_rooms) (snd (broadcast ''lobby'' (TextFrame ''hi'', None) demo_rooms))"
proof -
  have "member_sockets (fst demo_rooms) ''lobby'' = {0, 1}" by code_simp
  with broadcast_exact[OF demo_rooms_reach, of "(TextFrame ''hi'', None)" "''lobby''" "''a''"] show ?thesis by simp
qed

theorem rooms_consistent_witness:
  "let s = room_run None (demo_inputs @ [(5, ApiCreateRoom ''spare'')]) (manager_new (Some 2) False (Some (\<lambda>n. n = ''lobby'')) (Some ''n1''), [])
   in wk_open (snd s ! 1) \<and> ''lobby'' \<in> set (wk_topics (snd s ! 1)) \<and> map_of (members_of (fst s) ''lobby'') ''b'' = Some (1, 4)
      \<and> map_option ro_members (map_of (rm_rooms (fst s)) ''spare'') = Some []"
proof -
  let ?m0 = "manager_new (Some 2) False (Some (\<lambda>n. n = ''lobby'')) (Some ''n1'')" and ?ins = "demo_inputs @ [(5, ApiCreateRoom ''spare'')]"
  have f: "fresh_trace None ?ins (?m0, [])" by code_simp
  obtain m ts where s: "room_run None ?ins (?m0, []) = (m, ts)" by force
  have b: "map_of (rm_clients (fst (room_run None ?ins (?m0, [])))) ''b'' = Some 1"
    "map_of (members_of (fst (room_run None ?ins (?m0, []))) ''lobby'') ''b'' = Some (1, 4)"
    "map_option ro_members (map_of (rm_rooms (fst (room_run None ?ins (?m0, [])))) ''spare'') = Some []" by code_simp+
  have "wk_open (ts ! 1) \<and> ''lobby'' \<in> set (wk_topics (ts ! 1))"
    using rooms_consistent[OF f s] b(1,2) unfolding s fst_conv by (metis option.distinct(1))
  then show ?thesis using b(2,3) unfolding s Let_def fst_conv snd_conv by blast
qed

subsection \<open>Messages of clients\<close>

lemma wf_received: "rooms_wf {} s \<Longrightarrow> rooms_wf {} ((fst s)\<lparr>rm_received := r\<rparr>, snd s)"
  by (cases s) (simp add: wf_pending)




subsection \<open>Who comes in\<close>

definition no_new_members :: "ws_state \<Rightarrow> ws_state \<Rightarrow> bool" where
  "no_new_members s t \<longleftrightarrow> (\<forall>n c. map_of (members_of (fst s) n) c = None \<longrightarrow> map_of (members_of (fst t) n) c = None)"

lemma no_new_same: "rm_rooms (fst t) = rm_rooms (fst s) \<Longrightarrow> no_new_members s t"
  by (simp add: no_new_members_def members_of_def)

lemma no_new_view: "room_view t = room_view s \<Longrightarrow> no_new_members s t"
  by (rule no_new_same) (simp add: room_view_def)

lemma no_new_trans: "no_new_members s t \<Longrightarrow> no_new_members t u \<Longrightarrow> no_new_members s u"
  by (simp add: no_new_members_def)

lemma no_new_leave: "no_new_members s (leave_room cid n s)"
proof -
  obtain m ts where s: "s = (m, ts)" by force
  show ?thesis
  proof (cases "n \<in> set (rooms_of m cid) \<and> map_of (rm_rooms m) n \<noteq> None")
    case True
    then obtain rs r where rs: "map_of (rm_client_rooms m) cid = Some rs" "n \<in> set rs" "map_of (rm_rooms m) n = Some r"
      by (cases "map_of (rm_client_rooms m) cid") (auto simp: rooms_of_def)
    then have "map_of (rm_rooms (fst (leave_room cid n s))) x = (if x = n then (if AList.delete cid (ro_members r) = [] then None
        else Some (r\<lparr>ro_members := AList.delete cid (ro_members r)\<rparr>)) else map_of (rm_rooms m) x)" for x
      by (simp add: s leave_room_def Let_def log_event_def broker_call_def)
    then show ?thesis using rs(3) by (auto simp: no_new_members_def members_of_def s)
  next
    case False
    then have "rm_rooms (fst (leave_room cid n s)) = rm_rooms m"
      by (cases "map_of (rm_client_rooms m) cid") (auto simp: s leave_room_def rooms_of_def Let_def)
    then show ?thesis by (intro no_new_same) (simp add: s)
  qed
qed

lemma no_new_fold: "(\<And>x s. no_new_members s (g x s)) \<Longrightarrow> no_new_members s (fold g xs s)"
proof (induction xs arbitrary: s)
  case (Cons x xs)
  from no_new_trans[OF Cons.prems Cons.IH[OF Cons.prems]] show ?case by simp
qed (simp add: no_new_same)

lemma no_new_leave_all: "no_new_members s (leave_all cid s)"
  unfolding leave_all_def by (rule no_new_fold) (rule no_new_leave)

lemma no_new_on_close: "no_new_members s (on_close cid s)"
  using no_new_leave_all[of s cid] by (simp add: on_close_def no_new_members_def members_of_def case_prod_beta)

lemma no_new_disconnect: "no_new_members s (disconnect k s)"
proof -
  have "no_new_members (m, ts) (on_close cid (if b then (log_event e m, ts') else (m, ts')))" for m ts ts' cid b e
    using no_new_on_close[of "if b then (log_event e m, ts') else (m, ts')" cid]
    by (auto simp: no_new_members_def members_of_def log_event_keeps split: if_splits)
  from this[where b = True] this[where b = False] show ?thesis
    by (cases s) (auto simp: disconnect_def rooms_close_def intro: no_new_same split: option.splits)
qed

lemma no_new_send: "no_new_members s (client_send k f s)"
  by (rule no_new_view) simp

lemma no_new_kick: "no_new_members s (snd (room_kick n cid r disc s))"
  by (auto simp: room_kick_def Let_def intro: no_new_same no_new_trans[OF no_new_send] no_new_leave no_new_trans[OF no_new_leave no_new_disconnect]
      no_new_trans[OF no_new_trans[OF no_new_send no_new_leave] no_new_disconnect] split: option.splits)

lemma no_new_close_manager: "no_new_members s (close_manager s)"
  by (simp add: close_manager_def no_new_members_def members_of_def broker_call_def case_prod_beta)

text \<open>What a join may add: one membership.\<close>

definition only_new :: "string \<Rightarrow> string \<Rightarrow> ws_state \<Rightarrow> ws_state \<Rightarrow> bool" where
  "only_new n cid s t \<longleftrightarrow> (\<forall>x c. map_of (members_of (fst s) x) c = None \<longrightarrow> map_of (members_of (fst t) x) c \<noteq> None \<longrightarrow> x = n \<and> c = cid)"

lemma only_new_join: "only_new n cid s (snd (join_room now cid n s))"
proof -
  obtain m ts where s: "s = (m, ts)" by force
  show ?thesis
  proof (cases "snd (join_room now cid n s) = s")
    case True
    then show ?thesis by (simp add: only_new_def)
  next
    case False
    then have c: "room_name_error n = None" "n \<notin> set (rooms_of m cid)" "\<not> over_limit (length (rooms_of m cid)) (rm_max_rooms m)"
      "map_of (rm_client_rooms m) cid \<noteq> None"
      using join_refused[of n m cid now ts] unfolding s by argo+
    then obtain rs where rs: "map_of (rm_client_rooms m) cid = Some rs" "rooms_of m cid = rs" by (auto simp: rooms_of_def)
    have "\<exists>k r. ro_members r = AList.update cid k (members_of m n)
        \<and> (\<forall>x. map_of (rm_rooms (fst (snd (join_room now cid n s)))) x = (if x = n then Some r else map_of (rm_rooms m) x))"
    proof (cases "map_of (rm_rooms m) n")
      case None
      then show ?thesis using c rs
        by (simp add: s join_room_def get_or_create_room_def Let_def log_event_keeps broker_call_keeps members_of_def)
    next
      case (Some r)
      then show ?thesis using c rs
        by (simp add: s join_room_def get_or_create_room_def Let_def log_event_keeps broker_call_keeps members_of_def del: map_of_eq_Some_iff) blast
    qed
    then obtain k r where r: "ro_members r = AList.update cid k (members_of m n)"
      "\<And>x. map_of (rm_rooms (fst (snd (join_room now cid n s)))) x = (if x = n then Some r else map_of (rm_rooms m) x)" by blast
    then have "members_of (fst (snd (join_room now cid n s))) x = (if x = n then AList.update cid k (members_of m n) else members_of m x)" for x
      by (simp add: members_of_def)
    then show ?thesis by (simp add: only_new_def s)
  qed
qed

lemma only_new_finish:
  "if admitted a then only_new n cid s (finish_join now cid k n a s) else no_new_members s (finish_join now cid k n a s)"
proof (cases "admitted a")
  case True
  obtain e t where j: "join_room now cid n s = (e, t)" by (metis prod.exhaust)
  have "only_new n cid s t" using only_new_join[of n cid s now] by (simp add: j)
  moreover have "members_of (fst (client_send k f t)) = members_of (fst t)" for f
    by (cases t) (simp add: client_send_def members_of_def fun_eq_iff)
  ultimately show ?thesis using True j by (auto simp: finish_join_def only_new_def split: option.splits)
qed (simp add: finish_join_def no_new_send)

lemma no_new_received: "no_new_members s ((fst s)\<lparr>rm_received := r\<rparr>, snd s)"
  by (rule no_new_same) simp

lemma run_join_members:
  "no_new_members s (run_join now cid k n s)
   \<or> only_new n cid s (run_join now cid k n s) \<and> \<not> rm_before_join (fst s) \<and> (\<exists>test. rm_allowlist (fst s) = Some test \<and> test n)"
proof (cases "map_of (rm_ws (fst s)) cid = None \<or> rm_before_join (fst s)")
  case True
  then show ?thesis by (auto simp: run_join_def no_new_send intro: no_new_same)
next
  case False
  then show ?thesis
    using only_new_finish[of "Some (JBool (case rm_allowlist (fst s) of Some test \<Rightarrow> test n | None \<Rightarrow> False))" n cid s now k]
    by (cases "rm_allowlist (fst s)") (auto simp: run_join_def admitted_def truthy_def split: if_splits)
qed

lemma process_action_members:
  "no_new_members s (snd (process_action now cid d s))
   \<or> (\<exists>n. asks_to_join d n \<and> only_new n cid s (snd (process_action now cid d s)) \<and> \<not> rm_before_join (fst s)
        \<and> (\<exists>test. rm_allowlist (fst s) = Some test \<and> test n))"
proof -
  let ?s = "((fst s)\<lparr>rm_received := Suc (rm_received (fst s))\<rparr>, snd s)"
  note r = no_new_received[of s "Suc (rm_received (fst s))"]
  have no: "no_new_members s t" if "no_new_members ?s t" for t using no_new_trans[OF r that] .
  have on: "only_new n cid s t" if "only_new n cid ?s t" for t n
    using that by (simp add: only_new_def members_of_def)
  have post: "no_new_members ?s (post_message cid k n v ?s)" for k n v by (rule no_new_view) simp
  have left: "no_new_members ?s (client_send k f (leave_room cid n ?s))" for k f n
    by (rule no_new_trans[OF no_new_leave no_new_send])
  show ?thesis
  proof (cases "parsed_action d")
    case None
    then show ?thesis using r by (simp add: process_action_def Let_def)
  next
    case (Some v)
    show ?thesis
    proof (cases "\<exists>k n. msg_string ''action'' v = Some ''join'' \<and> map_of (rm_clients (fst s)) cid = Some k \<and> msg_string ''room'' v = Some n \<and> n \<noteq> []")
      case True
      then obtain k n where k: "msg_string ''action'' v = Some ''join''" "map_of (rm_clients (fst s)) cid = Some k" "msg_string ''room'' v = Some n" "n \<noteq> []"
        by blast
      then have "snd (process_action now cid d s) = run_join now cid k n ?s" using Some by (simp add: process_action_def Let_def)
      moreover have "asks_to_join d n" using Some k by (simp add: asks_to_join_def)
      ultimately show ?thesis
        using run_join_members[of ?s now cid k n] no[of "run_join now cid k n ?s"] on[of n "run_join now cid k n ?s"] by auto
    next
      case False
      then have "no_new_members ?s (snd (process_action now cid d s))"
        using Some by (auto simp: process_action_def Let_def no_new_same no_new_send post left split: option.splits sum.splits)
      then show ?thesis using no by blast
    qed
  qed
qed

lemma rooms_message_members:
  assumes "map_of (members_of (fst s) n) cid = None" "map_of (members_of (fst (rooms_message san now k d s)) n) cid \<noteq> None"
  shows "wk_client (snd s ! k) = Some cid \<and> asks_to_join (sanitize_data san d) n \<and> \<not> rm_before_join (fst s)
    \<and> (\<exists>test. rm_allowlist (fst s) = Some test \<and> test n)"
proof -
  from assms obtain c where c: "wk_client (snd s ! k) = Some c" "k < length (snd s)"
    by (auto simp: rooms_message_def split: option.splits if_splits)
  let ?t = "snd (process_action now c (sanitize_data san d) s)"
  have "members_of (fst (rooms_message san now k d s)) = members_of (fst ?t)"
    using c by (simp add: rooms_message_def Let_def log_event_keeps members_of_def fun_eq_iff)
  then have "map_of (members_of (fst ?t)  n) cid \<noteq> None" using assms(2) by simp
  with process_action_members[of s now c "sanitize_data san d"] assms(1) c show ?thesis
    by (auto simp: no_new_members_def only_new_def)
qed

text \<open>In the run of \<open>ins\<close> the client asked to join the room: its socket sent a message that says so.\<close>

definition has_asked :: "sanitizer_options option \<Rightarrow> (int \<times> room_input) list \<Rightarrow> ws_state \<Rightarrow> string \<Rightarrow> string \<Rightarrow> bool" where
  "has_asked san ins s cid n \<longleftrightarrow>
     (\<exists>before t k d later. ins = before @ (t, Receive k d) # later
        \<and> wk_client (snd (room_run san before s) ! k) = Some cid \<and> asks_to_join (sanitize_data san d) n)"

lemma pending_asked: "(cid, k, n) \<in> set (rm_pending (fst (room_run san ins s))) \<Longrightarrow> rm_pending (fst s) = [] \<Longrightarrow> has_asked san ins s cid n"
proof (induction ins rule: rev_induct)
  case (snoc p ins)
  obtain now i where p: "p = (now, i)" by force
  have e: "room_run san (ins @ [p]) s = room_step san now i (room_run san ins s)" by (simp add: room_run_def p)
  from pending_step[OF snoc.prems(1)[unfolded e]] show ?case
  proof
    assume "(cid, k, n) \<in> set (rm_pending (fst (room_run san ins s)))"
    from snoc.IH[OF this snoc.prems(2)] show ?thesis unfolding has_asked_def by force
  next
    assume "\<exists>j d. i = Receive j d \<and> wk_client (snd (room_run san ins s) ! j) = Some cid \<and> asks_to_join (sanitize_data san d) n"
    then show ?thesis unfolding has_asked_def p by blast
  qed
qed (simp add: room_run_def)

text \<open>C25. At whatever point of whatever run of a manager a client becomes a member of a room, that is by a call of
  the application for this client and room, or this client has asked for this room in a message of its own
  and either \<open>beforeJoin\<close> answers yes to that request or, when there is no \<open>beforeJoin\<close>, the allowlist admits the room.\<close>

theorem joins_authorised:
  assumes s: "s = room_run san ins (manager_new mx before allow node, [])"
    and out: "map_of (members_of (fst s) n) cid = None" and new: "map_of (members_of (fst (room_step san now i s)) n) cid \<noteq> None"
  shows "i = ApiJoin cid n
    \<or> (\<exists>j k v. i = JoinDecided j (Some v) \<and> truthy v \<and> j < length (rm_pending (fst s)) \<and> rm_pending (fst s) ! j = (cid, k, n)
         \<and> has_asked san ins (manager_new mx before allow node, []) cid n)
    \<or> (\<exists>k d. i = Receive k d \<and> wk_client (snd s ! k) = Some cid \<and> asks_to_join (sanitize_data san d) n
         \<and> \<not> rm_before_join (fst s) \<and> (\<exists>test. rm_allowlist (fst s) = Some test \<and> test n))"
proof -
  have no: "\<not> no_new_members s (room_step san now i s)" using out new by (auto simp: no_new_members_def)
  show ?thesis
  proof (cases i)
    case (Accept st c)
    then show ?thesis using no by (simp add: rooms_open_def no_new_same log_event_keeps on_open_def)
  next
    case (Receive k d)
    then have "map_of (members_of (fst (rooms_message san now k d s)) n) cid \<noteq> None" using new out by (auto split: if_splits)
    from rooms_message_members[OF out this] Receive show ?thesis by blast
  next
    case (JoinDecided j a)
    then have j: "j < length (rm_pending (fst s))" using no by (auto simp: join_decided_def no_new_same split: if_splits)
    obtain c k x where p: "rm_pending (fst s) ! j = (c, k, x)" by (metis prod.exhaust)
    define s1 where "s1 = ((fst s)\<lparr>rm_pending := take j (rm_pending (fst s)) @ drop (Suc j) (rm_pending (fst s))\<rparr>, snd s)"
    have st: "room_step san now i s = finish_join now c k x a s1" using JoinDecided j p by (simp add: join_decided_def s1_def)
    have mem: "members_of (fst s1) = members_of (fst s)" by (simp add: s1_def members_of_def fun_eq_iff)
    from only_new_finish[of a x c s1 now k] st out new have e: "admitted a" "n = x" "cid = c"
      by (auto simp: only_new_def no_new_members_def mem split: if_splits)
    have "(cid, k, n) \<in> set (rm_pending (fst s))" using nth_mem[OF j] by (simp add: p e)
    then have "has_asked san ins (manager_new mx before allow node, []) cid n"
      unfolding s by (rule pending_asked) (simp add: manager_new_def broker_call_def)
    with JoinDecided j p e show ?thesis by (auto simp: admitted_def split: option.splits)
  next
    case (ApiJoin c x)
    then show ?thesis using only_new_join[of x c s now] out new by (auto simp: only_new_def)
  next
    case (ApiCreateRoom x)
    have "members_of (snd (get_or_create_room now x (fst s))) = members_of (fst s)"
      by (auto simp: get_or_create_room_def members_of_def log_event_keeps fun_eq_iff split: option.splits)
    then show ?thesis using ApiCreateRoom out new by simp
  qed (use no in \<open>simp_all add: no_new_leave no_new_leave_all no_new_kick no_new_disconnect no_new_close_manager no_new_view no_new_same
        broker_failure_def log_event_keeps\<close>)
qed

text \<open>A client that asks and is let in by \<open>beforeJoin\<close>.\<close>

definition demo_asking :: "(int \<times> room_input) list" where
  "demo_asking = [(0, Accept (JObj []) ''a''), (1, Receive 0 (WsValue (JObj [(''action'', JStr ''join''), (''room'', JStr ''ops'')])))]"

theorem joins_authorised_witness:
  "map_of (members_of (fst (room_run None (demo_asking @ [(2, JoinDecided 0 (Some (JNum 1)))]) (manager_new None True None None, []))) ''ops'') ''a'' = Some (0, 2)
   \<and> has_asked None demo_asking (manager_new None True None None, []) ''a'' ''ops''"
proof -
  let ?m0 = "manager_new None True None None" and ?i = "JoinDecided 0 (Some (JNum 1))"
  let ?s = "room_run None demo_asking (?m0, [])"
  have m: "map_of (members_of (fst ?s) ''ops'') ''a'' = None" "map_of (members_of (fst (room_step None 2 ?i ?s)) ''ops'') ''a'' = Some (0, 2)"
    by code_simp+
  then have "map_of (members_of (fst (room_step None 2 ?i ?s)) ''ops'') ''a'' \<noteq> None" by simp
  from joins_authorised[OF refl m(1) this] m(2) show ?thesis by (simp add: room_run_def)
qed

subsection \<open>Presence\<close>

fun secret_free :: "jsval \<Rightarrow> bool" where
  "secret_free (JArr vs) = (\<forall>v \<in> set vs. secret_free v)"
| "secret_free (JObj kvs) = (\<forall>(k, v) \<in> set kvs. \<not> secret_key k \<and> secret_free v)"
| "secret_free v = True"

lemma sanitize_state_free: "secret_free (sanitize_state v)"
  by (induction v rule: sanitize_state.induct) auto

text \<open>What presence shows of a room has one entry per member and no key that looks like a credential, at
  any depth of the state.\<close>

theorem presence_shows_no_secret:
  "length (get_presence room ts) = room_size room
   \<and> map (msg_field ''id'') (get_presence room ts) = map (\<lambda>(cid, k, t). JStr cid) (ro_members room)
   \<and> (\<forall>v \<in> set (get_presence room ts). secret_free (msg_field ''state'' v) \<and> secret_free v)"
proof -
  have "\<not> secret_key ''id''" "\<not> secret_key ''state''" "\<not> secret_key ''joinedAt''" by code_simp+
  then show ?thesis
    by (auto simp: get_presence_def room_size_def msg_field_def sanitize_state_free intro!: map_cong)
qed

subsection \<open>Two managers on one server\<close>

text \<open>Topics belong to the server, not to a manager: with two routes, a broadcast into a room of one
  reaches the clients of the other whose room has the same name, whatever was asked of them to join.\<close>

definition two_managers :: "room_manager \<times> room_manager \<times> ws_socket list" where
  "two_managers =
     (case room_run None [(0, Accept (JObj []) ''admin''), (1, ApiJoin ''admin'' ''ops'')] (manager_new None True None None, []) of
        (m1, ts) \<Rightarrow>
          (case room_run None [(2, Accept (JObj []) ''guest''), (3, Receive 1 (WsValue (JObj [(''action'', JStr ''join''), (''room'', JStr ''ops'')])))]
                  (manager_new None False (Some (\<lambda>_. True)) None, ts) of
             (m2, ts') \<Rightarrow> (m1, m2, ts')))"

theorem managers_share_topics:
  "case two_managers of (m1, m2, ts) \<Rightarrow>
     map (\<lambda>(cid, k, t). cid) (members_of m1 ''ops'') = [''admin'']
     \<and> (TextFrame ''secret'', None) \<in> set (wk_inbox (snd (broadcast ''ops'' (TextFrame ''secret'', None) (m1, ts)) ! 1))"
  by code_simp

text \<open>\<open>onDisconnect\<close> runs before the client leaves its rooms.\<close>

lemma disconnect_reports_rooms:
  assumes wf: "rooms_wf {} (m, ts)" and k: "map_of (rm_clients m) cid = Some k"
  shows "rooms_close k (m, ts) = on_close cid (log_event (EvDisconnect cid (rooms_of m cid)) m, ts)"
  using rooms_wfD(8)[OF wf k] k by (simp add: rooms_close_def rooms_of_def)

end
