(* ===== verification/Ws_Broker.thy ===== *)
theory Ws_Broker
  imports Ws_Delivery
begin

text \<open>
  The brokers that connect the nodes of a cluster: \<open>packages/ws/src/broker.ts\<close>. \<open>MemoryWsBroker\<close> over its
  hub, an \<open>EventEmitter\<close> whose messages wait for the microtask queue, and \<open>RedisWsBroker\<close> over the two
  clients that the application injects, which are outside the repository: the model keeps the calls
  made to them, and whether one succeeds is an argument.
\<close>

subsection \<open>MemoryWsBroker\<close>

text \<open>Brokers of one hub are numbered; \<open>'h\<close> are handlers. The hub calls its listeners in the order in
  which they were added.\<close>

record 'h memory_hub =
  hb_on :: "(string \<times> nat \<times> 'h) list"
  hb_listeners :: "(nat \<times> string, 'h) jsmap"
  hb_closed :: "nat list"
  hb_queue :: "(string \<times> string) list"

definition hub_new :: "'h memory_hub" where
  "hub_new = \<lparr> hb_on = [], hb_listeners = [], hb_closed = [], hb_queue = [] \<rparr>"

definition memory_closed :: thrown where
  "memory_closed = plain_error ''[axiomify/ws] MemoryWsBroker is closed''"

definition mwb_publish :: "nat \<Rightarrow> string \<Rightarrow> string \<Rightarrow> 'h memory_hub act" where
  "mwb_publish b channel payload h =
     (if b \<in> set (hb_closed h) then (Some memory_closed, h) else (None, h\<lparr>hb_queue := hb_queue h @ [(channel, payload)]\<rparr>))"

definition mwb_detach :: "nat \<Rightarrow> string \<Rightarrow> 'h memory_hub \<Rightarrow> 'h memory_hub" where
  "mwb_detach b channel h =
     (case map_of (hb_listeners h) (b, channel) of
        None \<Rightarrow> h
      | Some _ \<Rightarrow> h\<lparr>hb_on := filter (\<lambda>(c, i, _). \<not> (c = channel \<and> i = b)) (hb_on h), hb_listeners := AList.delete (b, channel) (hb_listeners h)\<rparr>)"

definition mwb_subscribe :: "nat \<Rightarrow> string \<Rightarrow> 'h \<Rightarrow> 'h memory_hub act" where
  "mwb_subscribe b channel f h =
     (if b \<in> set (hb_closed h) then (Some memory_closed, h)
      else
        let h' = mwb_detach b channel h
        in (None, h'\<lparr>hb_listeners := AList.update (b, channel) f (hb_listeners h'), hb_on := hb_on h' @ [(channel, b, f)]\<rparr>))"

definition mwb_unsubscribe :: "nat \<Rightarrow> string \<Rightarrow> 'h memory_hub \<Rightarrow> 'h memory_hub" where
  "mwb_unsubscribe b channel h = mwb_detach b channel h"

definition mwb_close :: "nat \<Rightarrow> 'h memory_hub \<Rightarrow> 'h memory_hub" where
  "mwb_close b h =
     (if b \<in> set (hb_closed h) then h
      else fold (mwb_detach b) (map snd (filter (\<lambda>(i, _). i = b) (keys (hb_listeners h)))) (h\<lparr>hb_closed := b # hb_closed h\<rparr>))"

text \<open>The microtask: the listeners that \<open>emit\<close> calls, in order.\<close>

definition hub_emit :: "string \<Rightarrow> 'h memory_hub \<Rightarrow> (nat \<times> 'h) list" where
  "hub_emit channel h = map snd (filter (\<lambda>(c, _). c = channel) (hb_on h))"

definition hub_deliver :: "'h memory_hub \<Rightarrow> ((nat \<times> 'h) list \<times> string \<times> string) option \<times> 'h memory_hub" where
  "hub_deliver h =
     (case hb_queue h of
        [] \<Rightarrow> (None, h)
      | (channel, payload) # q \<Rightarrow> (Some (hub_emit channel h, channel, payload), h\<lparr>hb_queue := q\<rparr>))"

subsection \<open>RedisWsBroker\<close>

datatype redis_style = IoRedis | NodeRedis

text \<open>Which of its members are functions of a client.\<close>

record redis_sub =
  ru_p_subscribe_camel :: bool
  ru_p_subscribe_lower :: bool
  ru_on :: bool
  ru_off :: bool
  ru_remove_listener :: bool

datatype redis_call = RedisPublish string string | RedisSubscribe string | RedisUnsubscribe string | RedisOn | RedisOff

record 'h redis_broker =
  rb_sub :: redis_sub
  rb_style :: redis_style
  rb_handlers :: "(string, 'h) jsmap"
  rb_listener :: bool
  rb_closed :: bool
  rb_calls :: "redis_call list"

definition detect_style :: "redis_sub \<Rightarrow> redis_style" where
  "detect_style c =
     (if ru_p_subscribe_camel c then NodeRedis else if ru_p_subscribe_lower c then IoRedis else if ru_on c then IoRedis else NodeRedis)"

definition redis_broker_new :: "bool \<Rightarrow> redis_sub option \<Rightarrow> thrown + 'h redis_broker" where
  "redis_broker_new pub_ok sub =
     (if \<not> pub_ok then Inl (plain_error ''[axiomify/ws] RedisWsBroker requires a `pub` client with publish()'')
      else case sub of
             None \<Rightarrow> Inl (plain_error ''[axiomify/ws] RedisWsBroker requires a dedicated `sub` client with subscribe()'')
           | Some c \<Rightarrow> Inr \<lparr> rb_sub = c, rb_style = detect_style c, rb_handlers = [], rb_listener = False, rb_closed = False, rb_calls = [] \<rparr>)"

definition redis_closed :: thrown where
  "redis_closed = plain_error ''[axiomify/ws] RedisWsBroker is closed''"

definition redis_call :: "redis_call \<Rightarrow> 'h redis_broker \<Rightarrow> 'h redis_broker" where
  "redis_call c b = b\<lparr>rb_calls := rb_calls b @ [c]\<rparr>"

text \<open>\<open>answer\<close>: the error that the client's promise is rejected with.\<close>

definition rwb_publish :: "thrown option \<Rightarrow> string \<Rightarrow> string \<Rightarrow> 'h redis_broker act" where
  "rwb_publish answer channel payload b =
     (if rb_closed b then (Some redis_closed, b) else (answer, redis_call (RedisPublish channel payload) b))"

definition rwb_subscribe :: "thrown option \<Rightarrow> string \<Rightarrow> 'h \<Rightarrow> 'h redis_broker act" where
  "rwb_subscribe answer channel f b =
     (if rb_closed b then (Some redis_closed, b)
      else
        let already = (map_of (rb_handlers b) channel \<noteq> None);
            b1 = b\<lparr>rb_handlers := AList.update channel f (rb_handlers b)\<rparr>;
            b2 = (if rb_style b = IoRedis \<and> \<not> rb_listener b \<and> ru_on (rb_sub b) then redis_call RedisOn (b1\<lparr>rb_listener := True\<rparr>) else b1)
        in if already then (None, b2) else (answer, redis_call (RedisSubscribe channel) b2))"

definition rwb_unsubscribe :: "thrown option \<Rightarrow> string \<Rightarrow> 'h redis_broker act" where
  "rwb_unsubscribe answer channel b =
     (if map_of (rb_handlers b) channel = None then (None, b)
      else (answer, redis_call (RedisUnsubscribe channel) (b\<lparr>rb_handlers := AList.delete channel (rb_handlers b)\<rparr>)))"

definition rwb_close :: "'h redis_broker \<Rightarrow> 'h redis_broker" where
  "rwb_close b =
     (if rb_closed b then b
      else
        let b1 = fold (\<lambda>c. redis_call (RedisUnsubscribe c)) (keys (rb_handlers b)) (b\<lparr>rb_closed := True, rb_handlers := []\<rparr>)
        in if rb_listener b
           then (if ru_off (rb_sub b) \<or> ru_remove_listener (rb_sub b) then redis_call RedisOff b1 else b1)\<lparr>rb_listener := False\<rparr>
           else b1)"

text \<open>A message arrives on the subscriber connection; the handler that is called.\<close>

definition rwb_message :: "string \<Rightarrow> 'h redis_broker \<Rightarrow> 'h option" where
  "rwb_message channel b = map_of (rb_handlers b) channel"

text \<open>The channels that the server has this connection subscribed to, when every call got through.\<close>

definition redis_server :: "redis_call list \<Rightarrow> string set" where
  "redis_server cs = fold (\<lambda>c S. case c of RedisSubscribe x \<Rightarrow> insert x S | RedisUnsubscribe x \<Rightarrow> S - {x} | _ \<Rightarrow> S) cs {}"

subsection \<open>The contract\<close>

text \<open>The channels that a sequence of calls of a manager leaves subscribed.\<close>

definition after_call :: "broker_call \<Rightarrow> string set \<Rightarrow> string set" where
  "after_call c S = (case c of CallSubscribe x \<Rightarrow> insert x S | CallUnsubscribe x \<Rightarrow> S - {x} | CallClose \<Rightarrow> {} | CallPublish _ _ \<Rightarrow> S)"

definition net_subs :: "broker_call list \<Rightarrow> string set" where
  "net_subs cs = fold after_call cs {}"

lemma net_subs_simps [simp]: "net_subs [] = {}" "net_subs (cs @ [c]) = after_call c (net_subs cs)"
  by (simp_all add: net_subs_def)

text \<open>What the interface \<open>WsBroker\<close> promises: \<open>ok\<close> are the states of a broker that is not closed,
  \<open>hears b c\<close> says that a message on channel \<open>c\<close> reaches its handler, and only that one.\<close>

locale pubsub =
  fixes subscribe :: "string \<Rightarrow> 'b \<Rightarrow> 'b" and unsubscribe :: "string \<Rightarrow> 'b \<Rightarrow> 'b" and publish :: "string \<Rightarrow> string \<Rightarrow> 'b \<Rightarrow> 'b"
    and ok :: "'b \<Rightarrow> bool" and hears :: "'b \<Rightarrow> string \<Rightarrow> bool"
  assumes ok_subscribe: "ok b \<Longrightarrow> ok (subscribe c b)"
    and ok_unsubscribe: "ok b \<Longrightarrow> ok (unsubscribe c b)"
    and ok_publish: "ok b \<Longrightarrow> ok (publish c p b)"
    and hears_subscribe: "ok b \<Longrightarrow> hears (subscribe c b) x \<longleftrightarrow> x = c \<or> hears b x"
    and hears_unsubscribe: "ok b \<Longrightarrow> hears (unsubscribe c b) x \<longleftrightarrow> x \<noteq> c \<and> hears b x"
    and hears_publish: "ok b \<Longrightarrow> hears (publish c p b) x \<longleftrightarrow> hears b x"
begin

fun perform :: "broker_call \<Rightarrow> 'b \<Rightarrow> 'b" where
  "perform (CallSubscribe c) b = subscribe c b"
| "perform (CallUnsubscribe c) b = unsubscribe c b"
| "perform (CallPublish c p) b = publish c p b"
| "perform CallClose b = b"

lemma performed:
  "ok b \<Longrightarrow> CallClose \<notin> set cs \<Longrightarrow> (\<forall>x. \<not> hears b x) \<Longrightarrow>
   ok (fold perform cs b) \<and> (\<forall>x. hears (fold perform cs b) x \<longleftrightarrow> x \<in> net_subs cs)"
proof (induction cs rule: rev_induct)
  case (snoc c cs)
  then show ?case
    by (cases c) (auto simp: ok_subscribe ok_unsubscribe ok_publish hears_subscribe hears_unsubscribe hears_publish after_call_def)
qed simp

end

definition memory_ok :: "nat \<Rightarrow> 'h memory_hub \<Rightarrow> bool" where
  "memory_ok b h \<longleftrightarrow> b \<notin> set (hb_closed h)
     \<and> (\<forall>c. filter (\<lambda>(x, i, _). x = c \<and> i = b) (hb_on h) = (case map_of (hb_listeners h) (b, c) of Some f \<Rightarrow> [(c, b, f)] | None \<Rightarrow> []))"

text \<open>A message on the channel calls the broker's listener.\<close>

definition memory_hears :: "nat \<Rightarrow> 'h memory_hub \<Rightarrow> string \<Rightarrow> bool" where
  "memory_hears b h c \<longleftrightarrow> (\<exists>f. (b, f) \<in> set (hub_emit c h))"

lemma memory_detach:
  assumes "memory_ok b h"
  shows "memory_ok b (mwb_detach b c h)"
    "map_of (hb_listeners (mwb_detach b c h)) (b, x) = (if x = c then None else map_of (hb_listeners h) (b, x))"
    "hb_closed (mwb_detach b c h) = hb_closed h"
proof -
  show l: "map_of (hb_listeners (mwb_detach b c h)) (b, x) = (if x = c then None else map_of (hb_listeners h) (b, x))" for x
    by (auto simp: mwb_detach_def split: option.splits)
  show "hb_closed (mwb_detach b c h) = hb_closed h" by (simp add: mwb_detach_def split: option.splits)
  show "memory_ok b (mwb_detach b c h)"
  proof (cases "map_of (hb_listeners h) (b, c)")
    case None
    then show ?thesis using assms by (simp add: mwb_detach_def del: map_of_eq_None_iff)
  next
    case (Some f)
    have "filter (\<lambda>(x, i, _). x = y \<and> i = b) (hb_on (mwb_detach b c h)) =
        (if y = c then [] else filter (\<lambda>(x, i, _). x = y \<and> i = b) (hb_on h))" for y
      using Some by (auto simp: mwb_detach_def filter_empty_conv intro!: filter_cong)
    then show ?thesis using assms l Some by (simp add: memory_ok_def mwb_detach_def del: map_of_eq_Some_iff)
  qed
qed

lemma memory_hears_iff: "memory_ok b h \<Longrightarrow> memory_hears b h c \<longleftrightarrow> map_of (hb_listeners h) (b, c) \<noteq> None"
proof -
  assume ok: "memory_ok b h"
  have "memory_hears b h c \<longleftrightarrow> filter (\<lambda>(x, i, _). x = c \<and> i = b) (hb_on h) \<noteq> []"
    by (force simp: memory_hears_def hub_emit_def filter_empty_conv image_iff)
  also have "\<dots> \<longleftrightarrow> map_of (hb_listeners h) (b, c) \<noteq> None"
    using ok by (simp add: memory_ok_def del: map_of_eq_None_iff split: option.splits)
  finally show ?thesis .
qed

lemma memory_subscribe_ok:
  assumes "memory_ok b h"
  shows "memory_ok b (snd (mwb_subscribe b c f h))"
    "map_of (hb_listeners (snd (mwb_subscribe b c f h))) (b, x) = (if x = c then Some f else map_of (hb_listeners h) (b, x))"
proof -
  note d = memory_detach[OF assms, of c]
  have nc: "b \<notin> set (hb_closed h)" using assms by (simp add: memory_ok_def)
  show l: "map_of (hb_listeners (snd (mwb_subscribe b c f h))) (b, x) = (if x = c then Some f else map_of (hb_listeners h) (b, x))" for x
    using nc d(2)[of x] by (simp add: mwb_subscribe_def Let_def)
  have f: "filter (\<lambda>(x, i, _). x = y \<and> i = b) (hb_on (mwb_detach b c h)) =
      (case map_of (hb_listeners (mwb_detach b c h)) (b, y) of Some f \<Rightarrow> [(y, b, f)] | None \<Rightarrow> [])" for y
    using d(1) by (simp add: memory_ok_def)
  show "memory_ok b (snd (mwb_subscribe b c f h))"
    using nc f d(2,3) l by (simp add: memory_ok_def mwb_subscribe_def Let_def)
qed

interpretation memory_pubsub: pubsub "\<lambda>c h. snd (mwb_subscribe b c f h)" "mwb_unsubscribe b" "\<lambda>c p h. snd (mwb_publish b c p h)"
  "memory_ok b" "memory_hears b"
proof
  fix h :: "'a memory_hub" and c x p
  assume ok: "memory_ok b h"
  show "memory_ok b (snd (mwb_subscribe b c f h))" by (rule memory_subscribe_ok[OF ok])
  show "memory_ok b (mwb_unsubscribe b c h)" by (simp add: mwb_unsubscribe_def memory_detach[OF ok])
  show p: "memory_ok b (snd (mwb_publish b c p h))" using ok by (simp add: mwb_publish_def memory_ok_def)
  show "memory_hears b (snd (mwb_subscribe b c f h)) x \<longleftrightarrow> x = c \<or> memory_hears b h x"
    using memory_hears_iff[OF ok] memory_hears_iff[OF memory_subscribe_ok(1)[OF ok]] memory_subscribe_ok(2)[OF ok] by simp
  show "memory_hears b (mwb_unsubscribe b c h) x \<longleftrightarrow> x \<noteq> c \<and> memory_hears b h x"
    using memory_hears_iff[OF ok] memory_hears_iff[OF memory_detach(1)[OF ok]] memory_detach(2)[OF ok]
    by (simp add: mwb_unsubscribe_def)
  show "memory_hears b (snd (mwb_publish b c p h)) x \<longleftrightarrow> memory_hears b h x"
    by (simp add: memory_hears_def hub_emit_def mwb_publish_def)
qed

definition redis_ok :: "'h redis_broker \<Rightarrow> bool" where
  "redis_ok b \<longleftrightarrow> \<not> rb_closed b \<and> redis_server (rb_calls b) = {c. map_of (rb_handlers b) c \<noteq> None}
     \<and> (rb_style b = IoRedis \<longrightarrow> ru_on (rb_sub b) \<longrightarrow> rb_handlers b \<noteq> [] \<longrightarrow> rb_listener b)"

definition redis_hears :: "'h redis_broker \<Rightarrow> string \<Rightarrow> bool" where
  "redis_hears b c \<longleftrightarrow> c \<in> redis_server (rb_calls b) \<and> rwb_message c b \<noteq> None"

lemma redis_server_snoc [simp]:
  "redis_server [] = {}"
  "redis_server (cs @ [c]) = (case c of RedisSubscribe x \<Rightarrow> insert x (redis_server cs) | RedisUnsubscribe x \<Rightarrow> redis_server cs - {x} | _ \<Rightarrow> redis_server cs)"
  by (cases c; simp add: redis_server_def)+

lemma redis_hears_iff: "redis_ok b \<Longrightarrow> redis_hears b c \<longleftrightarrow> map_of (rb_handlers b) c \<noteq> None"
  by (auto simp: redis_hears_def redis_ok_def rwb_message_def)

interpretation redis_pubsub: pubsub "\<lambda>c b. snd (rwb_subscribe None c f b)" "\<lambda>c b. snd (rwb_unsubscribe None c b)"
  "\<lambda>c p b. snd (rwb_publish None c p b)" redis_ok redis_hears
proof
  fix b :: "'a redis_broker" and c x p
  assume ok: "redis_ok b"
  have s: "redis_ok (snd (rwb_subscribe None c f b))"
    "map_of (rb_handlers (snd (rwb_subscribe None c f b))) y = (if y = c then Some f else map_of (rb_handlers b) y)" for y
    using ok by (auto simp: redis_ok_def rwb_subscribe_def redis_call_def Let_def)
  show "redis_ok (snd (rwb_subscribe None c f b))" by (rule s)
  show "redis_hears (snd (rwb_subscribe None c f b)) x \<longleftrightarrow> x = c \<or> redis_hears b x"
    using redis_hears_iff[OF s(1)] redis_hears_iff[OF ok] s(2) by simp
  have u: "redis_ok (snd (rwb_unsubscribe None c b))"
    "map_of (rb_handlers (snd (rwb_unsubscribe None c b))) y = (if y = c then None else map_of (rb_handlers b) y)" for y
    using ok by (auto simp: redis_ok_def rwb_unsubscribe_def redis_call_def)
  show "redis_ok (snd (rwb_unsubscribe None c b))" by (rule u)
  show "redis_hears (snd (rwb_unsubscribe None c b)) x \<longleftrightarrow> x \<noteq> c \<and> redis_hears b x"
    using redis_hears_iff[OF u(1)] redis_hears_iff[OF ok] u(2) by simp
  show p: "redis_ok (snd (rwb_publish None c p b))" using ok by (simp add: redis_ok_def rwb_publish_def redis_call_def)
  show "redis_hears (snd (rwb_publish None c p b)) x \<longleftrightarrow> redis_hears b x"
    using redis_hears_iff[OF p] redis_hears_iff[OF ok] by (simp add: rwb_publish_def redis_call_def)
qed

text \<open>A subscription that fails is not repeated: the handler is recorded first, so the next attempt finds
  the channel there and does not ask the server again.\<close>

theorem redis_failed_subscribe_stuck:
  assumes "\<not> rb_closed b" "map_of (rb_handlers b) c = None"
  shows "fst (rwb_subscribe (Some e) c f b) = Some e
    \<and> fst (rwb_subscribe None c g (snd (rwb_subscribe (Some e) c f b))) = None
    \<and> filter (\<lambda>x. x = RedisSubscribe c) (rb_calls (snd (rwb_subscribe None c g (snd (rwb_subscribe (Some e) c f b)))))
      = filter (\<lambda>x. x = RedisSubscribe c) (rb_calls (snd (rwb_subscribe (Some e) c f b)))"
  using assms by (auto simp: rwb_subscribe_def redis_call_def Let_def)

end
