(* ===== verification/Ws_Cluster.thy ===== *)
theory Ws_Cluster
  imports Ws_Broker
begin

text \<open>
  Several nodes behind one broker: what a manager has asked of its broker is what its rooms need, the
  messages survive the way over JSON and base64, and a broadcast on one node reaches every member in
  the cluster once.
\<close>

subsection \<open>Subscriptions follow the rooms\<close>

definition subs_ok :: "ws_state \<Rightarrow> bool" where
  "subs_ok s \<longleftrightarrow> (rm_node (fst s) \<noteq> None \<longrightarrow> rm_ctl (fst s) \<longrightarrow>
     net_subs (rm_calls (fst s)) = insert ws_ctl_channel (ws_room_channel ` {n. members_of (fst s) n \<noteq> []}))"

text \<open>Steps that leave all of that alone; the calls they add only publish.\<close>

definition subs_same :: "ws_state \<Rightarrow> ws_state \<Rightarrow> bool" where
  "subs_same s t \<longleftrightarrow> rm_node (fst t) = rm_node (fst s) \<and> rm_ctl (fst t) = rm_ctl (fst s) \<and> rm_rooms (fst t) = rm_rooms (fst s)
     \<and> net_subs (rm_calls (fst t)) = net_subs (rm_calls (fst s))"

lemma subs_same_ok: "subs_same s t \<Longrightarrow> subs_ok s \<Longrightarrow> subs_ok t"
  by (simp add: subs_same_def subs_ok_def members_of_def)

lemma subs_same_refl [simp]: "subs_same s s"
  by (simp add: subs_same_def)

lemma subs_same_trans: "subs_same s t \<Longrightarrow> subs_same t u \<Longrightarrow> subs_same s u"
  by (simp add: subs_same_def)

lemma subs_same_calls: "rm_node m' = rm_node m \<Longrightarrow> rm_ctl m' = rm_ctl m \<Longrightarrow> rm_rooms m' = rm_rooms m \<Longrightarrow> rm_calls m' = rm_calls m \<Longrightarrow>
    subs_same (m, ts) (m', ts')"
  by (simp add: subs_same_def)

lemma subs_same_log: "subs_same (m, ts) (log_event e m, ts')"
  by (simp add: subs_same_def log_event_def)

lemma subs_same_publish: "subs_same (m, ts) (broker_call (CallPublish c p) m, ts')"
  by (simp add: subs_same_def broker_call_def after_call_def)

lemma subs_same_failure: "subs_same (m, ts) (broker_failure m, ts')"
  by (simp add: subs_same_def broker_failure_def log_event_def)

lemma subs_same_send: "subs_same s (client_send k f s)"
  by (cases s) (simp add: client_send_def subs_same_def)

lemma subs_same_counted: "subs_same s (counted_publish k n f s)"
  by (cases s) (simp add: counted_publish_def subs_same_def)

lemma subs_same_local: "subs_same s (local_broadcast n f s)"
  by (auto simp: local_broadcast_def intro: subs_same_trans[OF subs_same_counted subs_same_send] split: option.splits list.splits)

lemma subs_same_forward: "subs_same (m, ts) (forward_to_broker n f m, ts')"
  by (simp add: forward_to_broker_def subs_same_publish subs_same_calls split: option.splits)

lemma subs_same_fold: "(\<And>x s. subs_same s (g x s)) \<Longrightarrow> subs_same s (fold g xs s)"
proof (induction xs arbitrary: s)
  case (Cons x xs)
  from subs_same_trans[OF Cons.prems Cons.IH[OF Cons.prems]] show ?case by simp
qed simp

lemma subs_same_pair: "subs_same s t \<Longrightarrow> (\<And>m ts. subs_same (m, ts) (g m, ts)) \<Longrightarrow> subs_same s (g (fst t), snd t)"
  by (metis prod.collapse subs_same_trans)

lemma subs_same_broadcast: "subs_same s (broadcast n f s)"
  using subs_same_pair[OF subs_same_local[of s n f], of "forward_to_broker n f"] subs_same_local[of s n f]
  by (auto simp: broadcast_def case_prod_beta subs_same_forward)

lemma subs_same_except: "subs_same s (broadcast_except n cid f s)"
proof -
  have "subs_same s (fold (\<lambda>(cid, k, _). client_send k f) ms s)" for ms :: "(string \<times> nat \<times> int) list"
    by (rule subs_same_fold) (simp add: subs_same_send split: prod.splits)
  from subs_same_pair[OF this, of "forward_to_broker n f"] subs_same_pair[OF subs_same_counted, of "forward_to_broker n f"]
  show ?thesis by (auto simp: broadcast_except_def case_prod_beta subs_same_forward split: option.splits)
qed

lemma subs_same_send_each: "subs_same s (send_each f s)"
  unfolding send_each_def by (rule subs_same_fold) (simp add: subs_same_send split: prod.splits)

lemma subs_same_broadcast_all: "subs_same s (broadcast_all rid f s)"
  using subs_same_send_each[of s f] subs_same_pair[OF subs_same_send_each[of s f], of "broker_call (CallPublish ws_ctl_channel _)"]
  by (auto simp: broadcast_all_def case_prod_beta subs_same_publish split: option.splits)

lemma subs_same_post: "subs_same s (post_message cid k n v s)"
proof -
  have "subs_same s (forward_to_broker n f (fst t), snd t)" if "subs_same s t" for t f
    using subs_same_pair[OF that] subs_same_forward by blast
  then show ?thesis
    by (simp add: post_message_def Let_def subs_same_local subs_same_trans[OF subs_same_counted subs_same_send] split: option.splits)
qed

lemma subs_same_room_message: "subs_same s (on_broker_room_message raw s)"
  by (cases s) (simp add: on_broker_room_message_def subs_same_failure subs_same_local split: option.splits bool.splits)

lemma subs_same_ctl: "subs_same s (on_ctl_message raw s)"
proof (cases s)
  case (Pair m ts)
  have "subs_same (m, ts) (record_reply rid v n m, ts)" for rid v n
    by (simp add: record_reply_def subs_same_calls split: option.splits)
  then show ?thesis
    by (simp add: Pair on_ctl_message_def Let_def subs_same_failure subs_same_publish subs_same_send_each split: option.splits)
qed

lemma room_channel_inj: "ws_room_channel x = ws_room_channel y \<longleftrightarrow> x = y" "ws_room_channel x \<noteq> ws_ctl_channel"
  by (simp_all add: ws_room_channel_def ws_ctl_channel_def)

text \<open>A change of one room's members, with the call that goes with it.\<close>

lemma subs_change:
  assumes ok: "subs_ok (m, ts)" and m': "rm_node m' = rm_node m" "rm_ctl m' = rm_ctl m" "\<And>x. x \<noteq> n \<Longrightarrow> members_of m' x = members_of m x"
    and calls: "rm_node m \<noteq> None \<Longrightarrow> net_subs (rm_calls m')
        = (if members_of m' n = [] then net_subs (rm_calls m) - {ws_room_channel n} else insert (ws_room_channel n) (net_subs (rm_calls m)))"
  shows "subs_ok (m', ts')"
  unfolding subs_ok_def fst_conv
proof (intro impI)
  assume n: "rm_node m' \<noteq> None" "rm_ctl m'"
  let ?A = "{x. members_of m x \<noteq> []}" and ?B = "{x. members_of m' x \<noteq> []}"
  have old: "net_subs (rm_calls m) = insert ws_ctl_channel (ws_room_channel ` ?A)" using ok n by (simp add: subs_ok_def m')
  have B: "?B = (if members_of m' n = [] then ?A - {n} else insert n ?A)"
  proof (rule set_eqI)
    fix x show "x \<in> ?B \<longleftrightarrow> x \<in> (if members_of m' n = [] then ?A - {n} else insert n ?A)" using m'(3)[of x] by (cases "x = n") auto
  qed
  have d: "ws_room_channel ` (?A - {n}) = ws_room_channel ` ?A - {ws_room_channel n}" using room_channel_inj by auto
  show "net_subs (rm_calls m') = insert ws_ctl_channel (ws_room_channel ` ?B)"
    using n(1) calls unfolding B m'(1) by (simp add: old d insert_Diff_if room_channel_inj(2) room_channel_inj(2)[symmetric] insert_commute)
qed

lemma subs_join: "subs_ok s \<Longrightarrow> subs_ok (snd (join_room now cid n s))"
proof -
  assume ok: "subs_ok s"
  obtain m ts where s: "s = (m, ts)" by force
  obtain m' ts' where s': "snd (join_room now cid n s) = (m', ts')" by force
  show ?thesis
  proof (cases "snd (join_room now cid n s) = s")
    case False
    then have c: "room_name_error n = None" "n \<notin> set (rooms_of m cid)" "\<not> over_limit (length (rooms_of m cid)) (rm_max_rooms m)"
      "map_of (rm_client_rooms m) cid \<noteq> None"
      using join_refused[of n m cid now ts] unfolding s by argo+
    then obtain rs where rs: "map_of (rm_client_rooms m) cid = Some rs" "rooms_of m cid = rs" by (auto simp: rooms_of_def)
    let ?p = "(case map_of (rm_clients m) cid of Some j \<Rightarrow> j | None \<Rightarrow> length ts, now)"
    have keep: "rm_calls (broker_call x m1) = rm_calls m1 @ (if rm_node m1 = None then [] else [x])" "rm_node (broker_call x m1) = rm_node m1"
      "rm_ctl (broker_call x m1) = rm_ctl m1" "rm_rooms (broker_call x m1) = rm_rooms m1"
      "rm_calls (log_event e m1) = rm_calls m1" "rm_ctl (log_event e m1) = rm_ctl m1" for x m1 e
      by (simp_all add: broker_call_def log_event_def)
    have new: "rm_node m' = rm_node m \<and> rm_ctl m' = rm_ctl m \<and> (\<forall>x. members_of m' x = (if x = n then AList.update cid ?p (members_of m n) else members_of m x))
       \<and> rm_calls m' = rm_calls m @ (if rm_node m = None \<or> length (AList.update cid ?p (members_of m n)) \<noteq> 1 then [] else [CallSubscribe (ws_room_channel n)])"
    proof (cases "map_of (rm_rooms m) n")
      case None
      then have "m' = fst (snd (join_room now cid n (m, ts)))" "members_of m n = []" using s' s by (simp_all add: members_of_def)
      then show ?thesis using None c rs
        by (simp add: join_room_def get_or_create_room_def Let_def keep log_event_keeps members_of_def room_size_def)
    next
      case (Some r)
      then have "m' = fst (snd (join_room now cid n (m, ts)))" "members_of m n = ro_members r" using s' s by (simp_all add: members_of_def)
      then show ?thesis using Some c rs
        by (simp add: join_room_def get_or_create_room_def Let_def keep log_event_keeps members_of_def room_size_def del: map_of_eq_Some_iff)
    qed
    have ne: "AList.update cid ?p (members_of m n) \<noteq> []" by (simp add: update_nonempty)
    have grown: "members_of m n \<noteq> []" if "length (AList.update cid ?p (members_of m n)) \<noteq> 1" using that by auto
    have sub: "net_subs (rm_calls m') = insert (ws_room_channel n) (net_subs (rm_calls m))" if "rm_node m \<noteq> None" "rm_ctl m"
    proof (cases "length (AList.update cid ?p (members_of m n)) = 1")
      case True
      then show ?thesis using new that by (simp add: after_call_def)
    next
      case False
      then have "rm_calls m' = rm_calls m" using new by simp
      then show ?thesis using ok grown[OF False] that by (auto simp: subs_ok_def s)
    qed
    show ?thesis
    proof (cases "rm_ctl m")
      case True
      have "subs_ok (m', ts')"
        by (rule subs_change[OF ok[unfolded s], of m' n]) (use new ne sub True in simp_all)
      then show ?thesis by (simp add: s')
    next
      case False
      then show ?thesis using new by (simp add: s' subs_ok_def)
    qed
  qed (use ok in simp)
qed

lemma subs_leave: "subs_ok s \<Longrightarrow> subs_ok (leave_room cid n s)"
proof -
  assume ok: "subs_ok s"
  obtain m ts where s: "s = (m, ts)" by force
  obtain m' ts' where s': "leave_room cid n s = (m', ts')" by force
  show ?thesis
  proof (cases "n \<in> set (rooms_of m cid)")
    case True
    then obtain rs where rs: "map_of (rm_client_rooms m) cid = Some rs" "n \<in> set rs"
      by (cases "map_of (rm_client_rooms m) cid") (auto simp: rooms_of_def)
    show ?thesis
    proof (cases "map_of (rm_rooms m) n")
      case None
      then show ?thesis using ok rs by (simp add: s leave_room_def subs_ok_def members_of_def)
    next
      case (Some r)
      let ?q = "AList.delete cid (ro_members r)"
      have mem: "members_of m n = ro_members r" using Some by (simp add: members_of_def)
      have new: "rm_node m' = rm_node m \<and> rm_ctl m' = rm_ctl m \<and> (\<forall>x. members_of m' x = (if x = n then ?q else members_of m x))
         \<and> rm_calls m' = rm_calls m @ (if rm_node m = None \<or> ?q \<noteq> [] then [] else [CallUnsubscribe (ws_room_channel n)])"
        using s' rs Some by (auto simp: s leave_room_def Let_def log_event_def broker_call_def members_of_def split: if_splits)
      show ?thesis
      proof (cases "?q = []")
        case True
        have "subs_ok (m', ts')" by (rule subs_change[OF ok[unfolded s], of m' n]) (use new True in \<open>auto simp: after_call_def\<close>)
        then show ?thesis by (simp add: s')
      next
        case False
        then have "ro_members r \<noteq> []" by auto
        then have "{x. members_of m' x \<noteq> []} = {x. members_of m x \<noteq> []}" using new False mem by auto
        then have "subs_ok (m', ts')" using ok new False unfolding s subs_ok_def by simp
        then show ?thesis by (simp add: s')
      qed
    qed
  next
    case False
    then show ?thesis using ok by (simp add: s leave_absent)
  qed
qed

lemma subs_leave_all: "subs_ok s \<Longrightarrow> subs_ok (leave_all cid s)"
proof -
  have "subs_ok t \<Longrightarrow> subs_ok (fold (leave_room cid) ns t)" for ns t by (induction ns arbitrary: t) (simp_all add: subs_leave)
  then show "subs_ok s \<Longrightarrow> subs_ok (leave_all cid s)" by (simp add: leave_all_def)
qed

lemma subs_on_close: "subs_ok s \<Longrightarrow> subs_ok (on_close cid s)"
  using subs_leave_all[of s cid] by (simp add: on_close_def subs_ok_def members_of_def case_prod_beta)

lemma subs_log: "subs_ok (log_event e m, ts) = subs_ok (m, ts')"
  by (simp add: subs_ok_def log_event_def members_of_def)

lemma subs_disconnect: "subs_ok s \<Longrightarrow> subs_ok (disconnect k s)"
  by (cases s) (auto simp: disconnect_def rooms_close_def subs_log subs_ok_def[of "(_, sock_close _ _)"] subs_ok_def[of "(_, _)"] log_event_def members_of_def
      intro!: subs_on_close split: option.splits)

lemma subs_send: "subs_ok s \<Longrightarrow> subs_ok (client_send k f s)"
  by (rule subs_same_ok[OF subs_same_send])

lemma subs_kick: "subs_ok s \<Longrightarrow> subs_ok (snd (room_kick n cid r disc s))"
  by (simp add: room_kick_def Let_def subs_disconnect subs_leave subs_send split: option.splits)

lemma subs_finish: "subs_ok s \<Longrightarrow> subs_ok (finish_join now cid k n a s)"
  using subs_join[of s now cid n] by (simp add: finish_join_def subs_send case_prod_beta split: option.splits)

lemma subs_pending: "subs_ok (m\<lparr>rm_pending := p\<rparr>, ts) = subs_ok (m, ts)" "subs_ok (m\<lparr>rm_received := r\<rparr>, ts) = subs_ok (m, ts)"
  by (simp_all add: subs_ok_def members_of_def)

lemma subs_run_join: "subs_ok s \<Longrightarrow> subs_ok (run_join now cid k n s)"
  by (cases s) (simp add: run_join_def subs_send subs_finish subs_pending)

lemma subs_process: "subs_ok s \<Longrightarrow> subs_ok (snd (process_action now cid d s))"
  by (cases s) (simp add: process_action_def Let_def subs_pending subs_run_join subs_leave subs_send subs_same_ok[OF subs_same_post]
      split: option.splits sum.splits)

lemma subs_step: "subs_ok s \<Longrightarrow> subs_ok (room_step san now i s)"
proof (cases i)
  case (Accept st cid)
  assume "subs_ok s"
  then show ?thesis by (simp add: Accept rooms_open_def subs_ok_def log_event_def on_open_def members_of_def)
next
  case (Receive k d)
  assume ok: "subs_ok s"
  then show ?thesis using subs_process[OF ok] by (auto simp: Receive rooms_message_def Let_def subs_ok_def log_event_def members_of_def split: option.splits)
next
  case (JoinDecided j a)
  assume ok: "subs_ok s"
  then show ?thesis by (cases s) (simp add: JoinDecided join_decided_def subs_finish subs_pending split: prod.splits)
next
  case BrokerFailed
  assume ok: "subs_ok s"
  then show ?thesis using subs_same_ok[OF subs_same_failure[of "fst s" "snd s" "snd s"]] by (simp add: BrokerFailed)
next
  case (ApiCreateRoom n)
  assume ok: "subs_ok s"
  let ?m = "snd (get_or_create_room now n (fst s))"
  have "members_of ?m = members_of (fst s)" "rm_node ?m = rm_node (fst s)" "rm_ctl ?m = rm_ctl (fst s)" "rm_calls ?m = rm_calls (fst s)"
    by (auto simp: get_or_create_room_def members_of_def log_event_def fun_eq_iff split: option.splits)
  then show ?thesis using ok by (simp add: ApiCreateRoom subs_ok_def)
next
  case Shutdown
  then show ?thesis by (simp add: close_manager_def subs_ok_def case_prod_beta)
qed (simp_all add: subs_disconnect subs_join subs_leave subs_leave_all subs_kick subs_same_ok[OF subs_same_broadcast] subs_same_ok[OF subs_same_except]
    subs_same_ok[OF subs_same_broadcast_all] subs_same_ok[OF subs_same_room_message] subs_same_ok[OF subs_same_ctl])

lemma reach_subs: "rooms_reach san (manager_new mx before allow node) s \<Longrightarrow> subs_ok s"
proof (induction rule: rooms_reach.induct)
  case start
  show ?case by (simp add: subs_ok_def manager_new_def broker_call_def net_subs_def after_call_def members_of_def)
qed (simp add: subs_step)

text \<open>C27. Until the manager is closed, the subscribe and unsubscribe calls it has issued to its broker leave exactly
  the control channel and the channels of the rooms that have a member on this node: the first to join
  subscribes, the last to leave unsubscribes. Whether the broker carries a call out is not part of this; a room
  that \<open>getOrCreateRoom\<close> made and nobody has joined has no channel.\<close>

theorem subscriptions_follow_rooms:
  assumes "rooms_reach san (manager_new mx before allow (Some node)) s" "rm_ctl (fst s)"
  shows "net_subs (rm_calls (fst s)) = insert ws_ctl_channel {ws_room_channel n | n. member_sockets (fst s) n \<noteq> {}}"
proof -
  have "members_of (fst s) n \<noteq> [] \<longleftrightarrow> member_sockets (fst s) n \<noteq> {}" for n by (simp add: member_sockets_def)
  then show ?thesis using reach_subs[OF assms(1)] reach_max[OF assms(1)] assms(2) by (auto simp: subs_ok_def)
qed

theorem subscriptions_follow_rooms_witness:
  "net_subs (rm_calls (fst demo_rooms)) = {ws_ctl_channel, ws_room_channel ''lobby''}"
proof -
  have "rm_ctl (fst demo_rooms)" by code_simp
  from subscriptions_follow_rooms[OF demo_rooms_reach this] have
    e: "net_subs (rm_calls (fst demo_rooms)) = insert ws_ctl_channel {ws_room_channel n |n. member_sockets (fst demo_rooms) n \<noteq> {}}" .
  have r: "map fst (rm_rooms (fst demo_rooms)) = [''lobby'']" "member_sockets (fst demo_rooms) ''lobby'' = {0, 1}" by code_simp+
  then obtain r where "rm_rooms (fst demo_rooms) = [(''lobby'', r)]" by (cases "rm_rooms (fst demo_rooms)") auto
  then have "member_sockets (fst demo_rooms) n = {}" if "n \<noteq> ''lobby''" for n
    using that by (simp add: member_sockets_def members_of_def)
  with r(2) have "member_sockets (fst demo_rooms) n \<noteq> {} \<longleftrightarrow> n = ''lobby''" for n
    by (cases "n = ''lobby''") (simp_all only: insert_not_empty simp_thms)
  with e show ?thesis by auto
qed

subsection \<open>The way of a message\<close>

lemma payload_names: "msg_field ''data'' (JObj (ps @ payload_fields f)) = (case map_of ps ''data'' of Some v \<Rightarrow> v
     | None \<Rightarrow> JStr (case fst f of TextFrame t \<Rightarrow> t | BytesFrame b \<Rightarrow> base64_encode b))"
  by (auto simp: msg_field_def payload_fields_def map_add_def split: option.splits payload.splits)

lemma envelope_plain: "json_plain (room_envelope node n f)"
  by (auto simp: room_envelope_def payload_fields_def split: option.splits payload.splits)

lemma envelope_fields:
  "msg_field ''event'' (room_envelope node n f) = JStr ''broadcast''" "msg_string ''room'' (room_envelope node n f) = Some n"
  "msg_field ''nodeId'' (room_envelope node n f) = JStr node"
  "msg_string ''data'' (room_envelope node n f) = Some (case fst f of TextFrame t \<Rightarrow> t | BytesFrame b \<Rightarrow> base64_encode b)"
  "payload_of (case fst f of TextFrame t \<Rightarrow> t | BytesFrame b \<Rightarrow> base64_encode b) (room_envelope node n f) = f"
  by (cases f; cases "fst f"; cases "snd f";
      simp add: room_envelope_def payload_fields_def msg_string_def msg_field_def payload_of_def truthy_def base64_round_trip)+

lemma remote_message:
  assumes "rm_node (fst s) = Some other" "other \<noteq> node"
  shows "on_broker_room_message (json_text_of (room_envelope node n f)) s = local_broadcast n f s"
  using assms json_round_trip[OF envelope_plain[of node n f]]
  by (simp add: on_broker_room_message_def envelope_fields)

lemma own_message:
  assumes "rm_node (fst s) = Some node"
  shows "on_broker_room_message (json_text_of (room_envelope node n f)) s = s"
  using assms json_round_trip[OF envelope_plain[of node n f]]
  by (simp add: on_broker_room_message_def envelope_fields)

text \<open>A message on a channel: what a node does with it when its broker passes it on, which can only be when the node
  has asked for the channel.\<close>

definition handle_published :: "string \<Rightarrow> string \<Rightarrow> ws_state \<Rightarrow> ws_state" where
  "handle_published channel raw s =
     (if channel \<notin> net_subs (rm_calls (fst s)) then s
      else if channel = ws_ctl_channel then on_ctl_message raw s else on_broker_room_message raw s)"

definition new_calls :: "ws_state \<Rightarrow> ws_state \<Rightarrow> broker_call list" where
  "new_calls s t = drop (length (rm_calls (fst s))) (rm_calls (fst t))"

text \<open>Delivery is at most once: of the messages published, the node gets those that \<open>heard\<close> says. A message that was
  lost, or a subscription that failed, is one it does not hear.\<close>

definition deliver_calls :: "(broker_call \<Rightarrow> bool) \<Rightarrow> broker_call list \<Rightarrow> ws_state \<Rightarrow> ws_state" where
  "deliver_calls heard cs s =
     fold (\<lambda>c s. case c of CallPublish channel raw \<Rightarrow> if heard c then handle_published channel raw s else s | _ \<Rightarrow> s) cs s"

lemma broadcast_calls: "rm_calls (fst (broadcast n f s)) = rm_calls (fst s) @ handed_over n f s"
proof -
  obtain m ts m' ts' where l: "s = (m, ts)" "local_broadcast n f s = (m', ts')" by (metis prod.exhaust)
  have "rm_calls m' = rm_calls m \<and> rm_node m' = rm_node m \<and> rm_rooms m' = rm_rooms m"
    using l by (auto simp: local_broadcast_def client_send_def counted_publish_def split: option.splits list.splits)
  then show ?thesis
    by (simp add: broadcast_def l(2)) (simp add: l(1) handed_over_def forward_to_broker_def broker_call_def del: map_of_eq_None_iff split: option.splits)
qed

lemma local_broadcast_calls: "rm_calls (fst (local_broadcast n f s)) = rm_calls (fst s)"
  by (cases s) (simp add: local_broadcast_def client_send_def counted_publish_def split: option.splits list.splits)

text \<open>C26. In a cluster of nodes with different identifiers behind a broker that delivers at most once, a broadcast on
  node \<open>i\<close> into a room that exists there reaches every member of the room on that node once. Another node, in
  whatever state it is by the time the message comes, gives it to every member it then has exactly once if its
  broker passes the message on, and to nobody if not; node \<open>i\<close> ignores what comes back; and no node publishes
  anything in return.\<close>

theorem cluster_broadcast_once:
  assumes sender: "rooms_reach san (manager_new mx before allow (Some (ident i))) s" "map_of (rm_rooms (fst s)) n \<noteq> None"
    and node: "rooms_reach san' (manager_new mx' before' allow' (Some (ident j))) t" "rm_ctl (fst t)" and ids: "inj ident"
    and published: "cs = new_calls s (broadcast n f s)"
  shows "delivered f (member_sockets (fst s) n) (snd s) (snd (broadcast n f s))
    \<and> delivered f (if j \<noteq> i \<and> (\<forall>c \<in> set cs. heard c) then member_sockets (fst t) n else {}) (snd t) (snd (deliver_calls heard cs t))
    \<and> rm_calls (fst (deliver_calls heard cs t)) = rm_calls (fst t)"
proof -
  let ?c = "ws_room_channel n" and ?raw = "json_text_of (room_envelope (ident i) n f)"
  have nd: "rm_node (fst s) = Some (ident i)" "rm_node (fst t) = Some (ident j)"
    using reach_max[OF sender(1)] reach_max[OF node(1)] by auto
  note wf = rooms_reach_wf[OF sender(1)] rooms_reach_wf[OF node(1)]
  have "rm_calls (fst (broadcast n f s)) = rm_calls (fst s) @ [CallPublish ?c ?raw]"
    using broadcast_calls[of n f s] sender(2) nd(1) by (simp add: handed_over_def)
  then have cs: "cs = [CallPublish ?c ?raw]" by (simp add: published new_calls_def)
  have sub: "?c \<in> net_subs (rm_calls (fst t)) \<longleftrightarrow> members_of (fst t) n \<noteq> []"
    using reach_subs[OF node(1)] node(2) nd(2) by (auto simp: subs_ok_def room_channel_inj)
  have none: "member_sockets (fst t) n = {}" if "members_of (fst t) n = []" using that by (simp add: member_sockets_def)
  have e: "deliver_calls heard cs t = (if heard (CallPublish ?c ?raw) \<and> members_of (fst t) n \<noteq> [] then on_broker_room_message ?raw t else t)"
    by (simp add: deliver_calls_def cs handle_published_def sub room_channel_inj)
  have "delivered f (if j \<noteq> i \<and> (\<forall>c \<in> set cs. heard c) then member_sockets (fst t) n else {}) (snd t) (snd (deliver_calls heard cs t))
     \<and> rm_calls (fst (deliver_calls heard cs t)) = rm_calls (fst t)"
  proof (cases "j = i")
    case True
    then show ?thesis using own_message[of t "ident i" n f] nd by (simp add: e nobody)
  next
    case False
    then have "ident j \<noteq> ident i" using ids by (simp add: inj_eq)
    then have "on_broker_room_message ?raw t = local_broadcast n f t" using remote_message[OF nd(2)] by simp
    then show ?thesis
      using local_broadcast_delivers[OF wf(2), of f n] local_broadcast_calls[of n f t] False none unfolding e by (auto simp: cs nobody)
  qed
  moreover have "delivered f (member_sockets (fst s) n) (snd s) (snd (broadcast n f s))"
    using local_broadcast_delivers[OF wf(1), of f n] by (simp add: broadcast_def case_prod_beta)
  ultimately show ?thesis by blast
qed

theorem cluster_broadcast_once_witness:
  "delivered (BytesFrame [CHR 0x00, CHR 0xFF], Some True) {0, 1} (snd (demo_node ''n2''))
     (snd (deliver_calls (\<lambda>_. True) (new_calls (demo_node ''n1'') (broadcast ''lobby'' (BytesFrame [CHR 0x00, CHR 0xFF], Some True) (demo_node ''n1''))) (demo_node ''n2'')))
   \<and> delivered (BytesFrame [CHR 0x00, CHR 0xFF], Some True) {} (snd (demo_node ''n2''))
     (snd (deliver_calls (\<lambda>_. False) (new_calls (demo_node ''n1'') (broadcast ''lobby'' (BytesFrame [CHR 0x00, CHR 0xFF], Some True) (demo_node ''n1''))) (demo_node ''n2'')))"
proof -
  let ?id = "\<lambda>j. CHR ''n'' # show_nat (Suc j)"
  have "show_nat (Suc 0) = ''1''" "show_nat (Suc 1) = ''2''" by code_simp+
  then have id: "?id 0 = ''n1''" "?id 1 = ''n2''" by simp_all
  have "inj ?id" by (rule injI) (metis digits_value_show_nat list.inject nat.inject of_nat_eq_iff)
  moreover have m: "rm_ctl (fst (demo_node ''n2''))" "map_of (rm_rooms (fst (demo_node ''n1''))) ''lobby'' \<noteq> None"
    "member_sockets (fst (demo_node ''n2'')) ''lobby'' = {0, 1}"
    by code_simp+
  have r: "rooms_reach None (manager_new (Some 2) False (Some (\<lambda>n. n = ''lobby'')) (Some (?id 0))) (demo_node ''n1'')"
    "rooms_reach None (manager_new (Some 2) False (Some (\<lambda>n. n = ''lobby'')) (Some (?id 1))) (demo_node ''n2'')"
    unfolding id by (rule demo_node_reach)+
  note X = cluster_broadcast_once[OF r(1) m(2) r(2) m(1) \<open>inj ?id\<close> refl, of "(BytesFrame [CHR 0x00, CHR 0xFF], Some True)"]
  have "new_calls (demo_node ''n1'') (broadcast ''lobby'' (BytesFrame [CHR 0x00, CHR 0xFF], Some True) (demo_node ''n1'')) \<noteq> []" by code_simp
  then have some: "\<not> (\<forall>c \<in> set (new_calls (demo_node ''n1'') (broadcast ''lobby'' (BytesFrame [CHR 0x00, CHR 0xFF], Some True) (demo_node ''n1''))). False)"
    by simp
  show ?thesis using X[of "\<lambda>_. True"] X[of "\<lambda>_. False"] some unfolding m(3) by simp
qed

end
