(* ===== verification/Vault_Crypto.thy ===== *)
theory Vault_Crypto
  imports Ws_Rooms
begin

text \<open>
  \<open>packages/vault/src/crypto.ts\<close> (keys and envelopes) and \<open>policy.ts\<close> (which module reads which secret).

  AES-256-GCM of \<open>node:crypto\<close> is the record \<open>gcm\<close>: \<open>gcm_seal\<close> maps key, nonce and plaintext bytes to
  ciphertext bytes and tag, \<open>gcm_open\<close> is the inverse that may throw (the text is its message). Random bytes
  are the function \<open>random\<close> of the number of the draw and the size; the host counts the draws.

  The host of a vault is the record \<open>host\<close>: the files, the real \<open>process.env\<close>, the secrets that the output
  streams redact, the number of random draws and the warnings printed. A text file is \<open>Text\<close>; \<open>Doc v\<close> is the text
  that \<open>JSON.stringify(v, null, 2)\<close> prints, which \<open>JSON.parse\<close> reads as \<open>v\<close>.
\<close>

record gcm =
  gcm_seal :: "string \<Rightarrow> string \<Rightarrow> string \<Rightarrow> string \<times> string"
  gcm_open :: "string \<Rightarrow> string \<Rightarrow> string \<Rightarrow> string \<Rightarrow> string + string"

datatype host_file = Text string | Doc jsval

datatype vault_error =
    KeySize string nat
  | KeyMissing string
  | KeyString string nat
  | CipherError string
  | LoadFailed vault_error
  | NotJson
  | BadShape
  | EnvFileMissing string
  | AccessDenied string string
  | VaultSealed string
  | SecretNotFound string
  | SchemaFailed "string list"
  | KeyTrackedByGit string

datatype warning =
    NoPolicyWarning | DecryptWarning string vault_error | KeyTracked string | TrackCheckSkipped string string

record host =
  hs_files :: "(string, host_file) jsmap"
  hs_env :: "(string, string) jsmap"
  hs_redacted :: "string list"
  hs_draws :: nat
  hs_warnings :: "warning list"

definition warn :: "warning \<Rightarrow> host \<Rightarrow> host" where
  "warn w h = h\<lparr>hs_warnings := hs_warnings h @ [w]\<rparr>"

subsection \<open>Hexadecimal text\<close>

text \<open>\<open>toString('hex')\<close>, and \<open>Buffer.from(s, 'hex')\<close>, which stops at the first pair that is no byte.\<close>

definition to_hex :: "string \<Rightarrow> string" where
  "to_hex s = concat (map (\<lambda>c. [hex_digit (of_char c div 16), hex_digit (of_char c mod 16)]) s)"

fun from_hex :: "string \<Rightarrow> string" where
  "from_hex (a # b # s) =
     (case (hex_val a, hex_val b) of
        (Some x, Some y) \<Rightarrow> char_of (16 * x + y) # from_hex s
      | _ \<Rightarrow> [])"
| "from_hex _ = []"

subsection \<open>Keys\<close>

definition required_key_bytes :: nat where
  "required_key_bytes = 32"

definition validate_key_size :: "string option \<Rightarrow> string \<Rightarrow> vault_error + string" where
  "validate_key_size key context =
     (case key of
        None \<Rightarrow> Inl (KeyMissing context)
      | Some k \<Rightarrow> if length k \<noteq> required_key_bytes then Inl (KeySize context (length k)) else Inr k)"

definition is_hex_key :: "string \<Rightarrow> bool" where
  "is_hex_key s \<longleftrightarrow> length s = 64 \<and> list_all (\<lambda>c. hex_val c \<noteq> None) s"

definition decode_key_string :: "string \<Rightarrow> string \<Rightarrow> vault_error + string" where
  "decode_key_string s context =
     (if is_hex_key s then Inr (from_hex s)
      else (let decoded = base64_decode s
            in if length decoded = required_key_bytes then Inr decoded else Inl (KeyString context (length decoded))))"

subsection \<open>Envelopes\<close>

record vault_envelope =
  ve_ciphertext :: string
  ve_iv :: string
  ve_tag :: string

definition random_draw :: "(nat \<Rightarrow> nat \<Rightarrow> string) \<Rightarrow> nat \<Rightarrow> host \<Rightarrow> string \<times> host" where
  "random_draw random n h = (random (hs_draws h) n, h\<lparr>hs_draws := Suc (hs_draws h)\<rparr>)"

text \<open>What \<open>git ls-files --error-unmatch\<close> answers: the file is tracked, it is not (status 1), or git failed.\<close>

datatype git_check = GitTracked | GitUntracked | GitFailed string

record vault_world =
  vx_gcm :: gcm
  vx_random :: "nat \<Rightarrow> nat \<Rightarrow> string"
  vx_sha256 :: "string \<Rightarrow> string"
  vx_cwd :: string
  vx_git :: "string \<Rightarrow> git_check"

definition vault_encrypt :: "vault_world \<Rightarrow> string \<Rightarrow> string option \<Rightarrow> host \<Rightarrow> (vault_error + vault_envelope) \<times> host" where
  "vault_encrypt W plaintext key h =
     (case validate_key_size key ''encrypt'' of
        Inl e \<Rightarrow> (Inl e, h)
      | Inr k \<Rightarrow>
          (case random_draw (vx_random W) 12 h of
             (iv, h1) \<Rightarrow>
               (case gcm_seal (vx_gcm W) k iv (utf8 plaintext) of
                  (c, tag) \<Rightarrow> (Inr \<lparr>ve_ciphertext = to_hex c, ve_iv = to_hex iv, ve_tag = to_hex tag\<rparr>, h1))))"

definition vault_decrypt :: "vault_world \<Rightarrow> vault_envelope \<Rightarrow> string option \<Rightarrow> vault_error + string" where
  "vault_decrypt W env key =
     sum_bind (validate_key_size key ''decrypt'') (\<lambda>k.
       (case gcm_open (vx_gcm W) k (from_hex (ve_iv env)) (from_hex (ve_ciphertext env)) (from_hex (ve_tag env)) of
          Inl msg \<Rightarrow> Inl (CipherError msg)
        | Inr bytes \<Rightarrow> Inr (utf8_decode bytes)))"

subsection \<open>The key encryption key\<close>

text \<open>\<open>join(root, name)\<close> with a root that is already a normal path.\<close>

definition path_join :: "string \<Rightarrow> string \<Rightarrow> string" where
  "path_join base name = (if base = [] then name else if last base = CHR ''/'' then base @ name else base @ ''/'' @ name)"

definition local_key_path :: "string \<Rightarrow> string" where
  "local_key_path project = path_join (path_join project ''.axiomify'') ''vault.key''"

text \<open>What \<open>readFileSync(path, 'utf8')\<close> gives for a file; a document's characters are its JSON text.\<close>

definition file_text :: "host_file \<Rightarrow> string" where
  "file_text f = (case f of Text s \<Rightarrow> s | Doc v \<Rightarrow> (case json_stringify v of Some s \<Rightarrow> s | None \<Rightarrow> []))"

definition load_or_create_local_kek :: "vault_world \<Rightarrow> string \<Rightarrow> host \<Rightarrow> (vault_error + string) \<times> host" where
  "load_or_create_local_kek W project h =
     (case map_of (hs_files h) (local_key_path project) of
        Some f \<Rightarrow> (validate_key_size (Some (from_hex (trim (file_text f)))) ''loadOrCreateLocalKEK'', h)
      | None \<Rightarrow>
          (case random_draw (vx_random W) 32 h of
             (key, h1) \<Rightarrow> (Inr key, h1\<lparr>hs_files := AList.update (local_key_path project) (Text (to_hex key)) (hs_files h1)\<rparr>)))"

datatype kek_option = KekBytes string | KekText string

definition kek_given :: "kek_option option \<Rightarrow> bool" where
  "kek_given k = (case k of None \<Rightarrow> False | Some (KekBytes b) \<Rightarrow> True | Some (KekText s) \<Rightarrow> s \<noteq> [])"

definition env_given :: "(string, string) jsmap \<Rightarrow> string \<Rightarrow> string option" where
  "env_given env name = (case map_of env name of Some s \<Rightarrow> if s = [] then None else Some s | None \<Rightarrow> None)"

definition resolve_kek :: "vault_world \<Rightarrow> string \<Rightarrow> kek_option option \<Rightarrow> host \<Rightarrow> (vault_error + string) \<times> host" where
  "resolve_kek W project given h =
     (if kek_given given then
        (case the given of
           KekBytes b \<Rightarrow> (validate_key_size (Some b) ''resolveKEK (options)'', h)
         | KekText s \<Rightarrow> (decode_key_string s ''resolveKEK (options)'', h))
      else
        (case env_given (hs_env h) ''AXIOMIFY_VAULT_KEK'' of
           Some s \<Rightarrow> (decode_key_string s ''resolveKEK (AXIOMIFY_VAULT_KEK)'', h)
         | None \<Rightarrow> load_or_create_local_kek W project h))"

subsection \<open>Policies\<close>

text \<open>A policy: per module the secrets it may read. \<open>'*'\<close> stands for every module and for every secret.\<close>

type_synonym vault_policy = "(string, string list) jsmap"

record policy_engine =
  pe_policy :: vault_policy
  pe_default_deny :: bool
  pe_warned :: bool

definition policy_engine_new :: "vault_policy option \<Rightarrow> bool \<Rightarrow> policy_engine" where
  "policy_engine_new p deny = \<lparr>pe_policy = (case p of Some q \<Rightarrow> q | None \<Rightarrow> []), pe_default_deny = deny, pe_warned = False\<rparr>"

definition policy_is_allowed :: "policy_engine \<Rightarrow> string \<Rightarrow> string \<Rightarrow> host \<Rightarrow> bool \<times> policy_engine \<times> host" where
  "policy_is_allowed e mname key h =
     (if pe_policy e = [] then
        (if pe_default_deny e then (False, e, h)
         else if pe_warned e then (True, e, h)
         else (True, e\<lparr>pe_warned := True\<rparr>, warn NoPolicyWarning h))
      else
        (case (case map_of (pe_policy e) mname of Some r \<Rightarrow> Some r | None \<Rightarrow> map_of (pe_policy e) ''*'') of
           None \<Rightarrow> (False, e, h)
         | Some allow \<Rightarrow> (key \<in> set allow \<or> ''*'' \<in> set allow, e, h)))"

subsection \<open>Keys and envelopes survive their encodings\<close>

lemma from_hex_to_hex [simp]: "from_hex (to_hex s) = s"
proof (induction s)
  case (Cons c s)
  have n: "(of_char c :: nat) div 16 < 16" using of_char_less_256[of c] by linarith
  have "(char_of (16 * ((of_char c :: nat) div 16) + of_char c mod 16) :: char) = c" by simp
  then show ?case using Cons n by (simp add: to_hex_def hex_val_hex_digit)
qed (simp add: to_hex_def)

end
