(* ===== verification/Vault_Env.thy ===== *)
theory Vault_Env
  imports Vault_Crypto Cache_Key
begin

text \<open>
  The helpers of \<open>packages/vault/src/index.ts\<close>: \<open>parseEnvFile\<close>, the keys that a schema and a policy name, and
  the checksum of the configuration. Variable names are not array indices, and none is the name of a
  member of \<open>Object.prototype\<close> other than \<open>__proto__\<close>, whose assignment does nothing.
\<close>

subsection \<open>Environment files\<close>

text \<open>\<open>content.split(/\r?\n/)\<close>.\<close>

definition chop_cr :: "string \<Rightarrow> string" where
  "chop_cr s = (if s \<noteq> [] \<and> last s = CHR 0x0D then butlast s else s)"

definition env_lines :: "string \<Rightarrow> string list" where
  "env_lines s = (let ps = split_on (CHR 0x0A) s in map chop_cr (butlast ps) @ [last ps])"

text \<open>\<open>val.replace(/\\([nt"\\])/g, ...)\<close>.\<close>

fun unescape_env :: "string \<Rightarrow> string" where
  "unescape_env (c # d # s) =
     (if c = CHR 0x5C \<and> d \<in> {CHR ''n'', CHR ''t'', CHR 0x22, CHR 0x5C} then
        (if d = CHR ''n'' then CHR 0x0A else if d = CHR ''t'' then CHR 0x09 else d) # unescape_env s
      else c # unescape_env (d # s))"
| "unescape_env s = s"

text \<open>\<open>val.search(/\s+#/)\<close>.\<close>

fun comment_index :: "string \<Rightarrow> nat option" where
  "comment_index [] = None"
| "comment_index (c # s) =
     (if is_ws c \<and> dropWhile is_ws s \<noteq> [] \<and> hd (dropWhile is_ws s) = CHR ''#'' then Some 0
      else map_option Suc (comment_index s))"

definition quoted_by :: "char \<Rightarrow> string \<Rightarrow> bool" where
  "quoted_by q s \<longleftrightarrow> s \<noteq> [] \<and> hd s = q \<and> last s = q"

definition env_value_of :: "string \<Rightarrow> string" where
  "env_value_of val =
     (if quoted_by (CHR 0x22) val then unescape_env (butlast (tl val))
      else if quoted_by (CHR 0x27) val then butlast (tl val)
      else (case comment_index val of
              Some i \<Rightarrow> if 0 < i then trim (take i val) else val
            | None \<Rightarrow> val))"

definition strip_export :: "string \<Rightarrow> string" where
  "strip_export s = (if starts_with s ''export '' then trim (drop 7 s) else s)"

definition put_var :: "string \<Rightarrow> string \<Rightarrow> (string, string) jsmap \<Rightarrow> (string, string) jsmap" where
  "put_var k v m = (if k = ''__proto__'' then m else AList.update k v m)"

definition parse_env_line :: "string \<Rightarrow> (string, string) jsmap \<Rightarrow> (string, string) jsmap" where
  "parse_env_line line result =
     (let trimmed = trim line
      in if trimmed = [] \<or> starts_with trimmed ''#'' then result
         else (let t = strip_export trimmed; name = takeWhile (\<lambda>c. c \<noteq> CHR ''='') t
               in if CHR ''='' \<in> set t \<and> name \<noteq> []
                  then put_var (trim name) (env_value_of (trim (drop (Suc (length name)) t))) result
                  else result))"

definition parse_env_text :: "string \<Rightarrow> (string, string) jsmap" where
  "parse_env_text content = fold parse_env_line (env_lines content) []"

definition parse_env_file :: "host \<Rightarrow> string \<Rightarrow> (string, string) jsmap" where
  "parse_env_file h path = (case map_of (hs_files h) path of None \<Rightarrow> [] | Some f \<Rightarrow> parse_env_text (file_text f))"

subsection \<open>The keys of a vault\<close>

text \<open>What \<open>getZodSchemaKeys\<close> looks at in a schema: its shape, the schema it wraps, or neither.\<close>

datatype zod_schema = ZShape "string list" | ZWraps zod_schema | ZInner zod_schema | ZOpaque

fun get_zod_schema_keys :: "zod_schema \<Rightarrow> string list" where
  "get_zod_schema_keys (ZShape ks) = ks"
| "get_zod_schema_keys (ZWraps s) = get_zod_schema_keys s"
| "get_zod_schema_keys (ZInner s) = get_zod_schema_keys s"
| "get_zod_schema_keys ZOpaque = []"

definition get_policy_keys :: "vault_policy option \<Rightarrow> string list" where
  "get_policy_keys p = (case p of None \<Rightarrow> [] | Some q \<Rightarrow> fold (\<lambda>r ks. set_add_all (snd r) ks) q [])"

definition target_config :: "(string, string) jsmap \<Rightarrow> string list \<Rightarrow> (string, string) jsmap" where
  "target_config env targets =
     fold (\<lambda>k m. case map_of env k of Some v \<Rightarrow> put_var k v m | None \<Rightarrow> m) (sort targets) []"

definition calculate_config_checksum :: "vault_world \<Rightarrow> (string, string) jsmap \<Rightarrow> string list \<Rightarrow> string" where
  "calculate_config_checksum W env targets =
     to_hex (vx_sha256 W (utf8 (the (json_stringify (JObj (map (\<lambda>(k, v). (k, JStr v)) (target_config env targets)))))))"

end
