(* ===== verification/Vault.thy ===== *)
theory Vault
  imports Vault_Env
begin

text \<open>
  \<open>packages/vault/src/index.ts\<close> and \<open>proxy.ts\<close>: the vault, its operations, the view that
  \<open>process.env\<close> gives of it and its construction from the vault file and the environment files.

  An operation maps the pair of vault and host to a result and the new pair; \<open>Inl\<close> is a thrown error, with the
  state it leaves. The mask of eight bullets is the value \<open>Masked\<close>, no string of the model. What the schema
  library, git and the call stack answer are arguments.
\<close>

datatype shown = Shown string | Masked

datatype schema_check =
    SafeParse "(string, shown) jsmap \<Rightarrow> string list + (string \<times> jsval) list"
  | ParseOnly "(string, shown) jsmap \<Rightarrow> string + (string \<times> jsval) list"
  | NoCheck

record vault_schema =
  zs_keys :: zod_schema
  zs_check :: schema_check

datatype env_files = NoEnvFiles | OneEnvFile string | EnvFileList "string list"

record vault_options =
  vo_path :: "string option"
  vo_env_files :: env_files
  vo_policy :: "vault_policy option"
  vo_schema :: "vault_schema option"
  vo_project :: "string option"
  vo_kek :: "kek_option option"

record vault =
  vt_dek :: "string option"
  vt_cache :: "(string, string) jsmap"
  vt_secrets :: "(string, vault_envelope) jsmap"
  vt_engine :: policy_engine
  vt_path :: string
  vt_sealed :: bool
  vt_kek :: string

type_synonym vault_state = "vault \<times> host"

definition step_bind :: "('e + 'a) \<times> 's \<Rightarrow> ('a \<Rightarrow> 's \<Rightarrow> ('e + 'b) \<times> 's) \<Rightarrow> ('e + 'b) \<times> 's" where
  "step_bind r f = (case r of (Inl e, s) \<Rightarrow> (Inl e, s) | (Inr x, s) \<Rightarrow> f x s)"

lemma step_bind_simps [simp]: "step_bind (Inl e, s) f = (Inl e, s)" "step_bind (Inr x, s) f = f x s"
  by (simp_all add: step_bind_def)

subsection \<open>Redacted secrets\<close>

definition register_secret_for_redaction :: "string \<Rightarrow> host \<Rightarrow> host" where
  "register_secret_for_redaction secret h =
     (if 4 \<le> length secret then h\<lparr>hs_redacted := set_add secret (hs_redacted h)\<rparr> else h)"

definition unregister_secret_for_redaction :: "string \<Rightarrow> host \<Rightarrow> host" where
  "unregister_secret_for_redaction secret h = h\<lparr>hs_redacted := removeAll secret (hs_redacted h)\<rparr>"

text \<open>The pattern is the alternation of the secrets in the order of their registration: at each position
  the first one that matches is replaced. \<open>None\<close> is the mask.\<close>

definition first_secret :: "string list \<Rightarrow> string \<Rightarrow> string option" where
  "first_secret secrets s = find (\<lambda>x. prefix x s) secrets"

fun redact_from :: "nat \<Rightarrow> string list \<Rightarrow> string \<Rightarrow> char option list" where
  "redact_from 0 secrets s = []"
| "redact_from (Suc n) secrets [] = []"
| "redact_from (Suc n) secrets (c # s) =
     (case first_secret secrets (c # s) of
        Some x \<Rightarrow> None # redact_from n secrets (drop (length x) (c # s))
      | None \<Rightarrow> Some c # redact_from n secrets s)"

definition stream_redact :: "host \<Rightarrow> string \<Rightarrow> char option list" where
  "stream_redact h s = (if hs_redacted h = [] then map Some s else redact_from (Suc (length s)) (hs_redacted h) s)"

subsection \<open>The vault file\<close>

definition vault_version :: int where
  "vault_version = 2"

record vault_metadata =
  vm_version :: int
  vm_wrapped_dek :: vault_envelope
  vm_secrets :: "(string, vault_envelope) jsmap"
  vm_checksum :: "string option"

definition envelope_json :: "vault_envelope \<Rightarrow> jsval" where
  "envelope_json e = JObj [(''ciphertext'', JStr (ve_ciphertext e)), (''iv'', JStr (ve_iv e)), (''tag'', JStr (ve_tag e))]"

definition metadata_json :: "vault_metadata \<Rightarrow> jsval" where
  "metadata_json m =
     JObj ([(''version'', JNum (vm_version m)), (''wrappedDek'', envelope_json (vm_wrapped_dek m)),
            (''secrets'', JObj (map (\<lambda>(k, e). (k, envelope_json e)) (vm_secrets m)))]
           @ (case vm_checksum m of Some s \<Rightarrow> [(''sourceChecksum'', JStr s)] | None \<Rightarrow> []))"

definition write_vault_file :: "string \<Rightarrow> vault_metadata \<Rightarrow> host \<Rightarrow> host" where
  "write_vault_file path m h = h\<lparr>hs_files := AList.update path (Doc (metadata_json m)) (hs_files h)\<rparr>"

text \<open>Reading the file as \<open>VaultMetadata\<close>; a document of another shape is not readable.\<close>

definition string_member :: "(string \<times> jsval) list \<Rightarrow> string \<Rightarrow> string option" where
  "string_member kvs k = (case map_of kvs k of Some (JStr s) \<Rightarrow> Some s | _ \<Rightarrow> None)"

definition read_envelope :: "jsval \<Rightarrow> vault_envelope option" where
  "read_envelope v =
     (case v of
        JObj kvs \<Rightarrow>
          (case (string_member kvs ''ciphertext'', string_member kvs ''iv'', string_member kvs ''tag'') of
             (Some c, Some i, Some t) \<Rightarrow> Some \<lparr>ve_ciphertext = c, ve_iv = i, ve_tag = t\<rparr>
           | _ \<Rightarrow> None)
      | _ \<Rightarrow> None)"

fun read_envelopes :: "(string \<times> jsval) list \<Rightarrow> (string, vault_envelope) jsmap option" where
  "read_envelopes [] = Some []"
| "read_envelopes ((k, v) # kvs) =
     (case (read_envelope v, read_envelopes kvs) of (Some e, Some es) \<Rightarrow> Some ((k, e) # es) | _ \<Rightarrow> None)"

definition read_metadata :: "jsval \<Rightarrow> vault_metadata option" where
  "read_metadata v =
     (case v of
        JObj kvs \<Rightarrow>
          (case (map_of kvs ''version'', Option.bind (map_of kvs ''wrappedDek'') read_envelope, map_of kvs ''secrets'') of
             (Some (JNum n), Some w, Some (JObj ss)) \<Rightarrow>
               map_option (\<lambda>es. \<lparr>vm_version = n, vm_wrapped_dek = w, vm_secrets = es, vm_checksum = string_member kvs ''sourceChecksum''\<rparr>)
                 (read_envelopes ss)
           | _ \<Rightarrow> None)
      | _ \<Rightarrow> None)"

definition parse_vault_file :: "host_file \<Rightarrow> vault_error + vault_metadata" where
  "parse_vault_file f =
     (case (case f of Doc v \<Rightarrow> Some v | Text s \<Rightarrow> json_parse s) of
        None \<Rightarrow> Inl NotJson
      | Some v \<Rightarrow> (case read_metadata v of Some m \<Rightarrow> Inr m | None \<Rightarrow> Inl BadShape))"

subsection \<open>Operations\<close>

definition has_secret :: "vault \<Rightarrow> string \<Rightarrow> bool" where
  "has_secret V key \<longleftrightarrow> key \<in> set (keys (vt_secrets V))"

definition vault_is_allowed :: "string \<Rightarrow> string \<Rightarrow> vault_state \<Rightarrow> bool \<times> vault_state" where
  "vault_is_allowed mname key S =
     (case S of (V, h) \<Rightarrow>
        (case policy_is_allowed (vt_engine V) mname key h of (b, e, h') \<Rightarrow> (b, V\<lparr>vt_engine := e\<rparr>, h')))"

definition resolve_secret_jit :: "vault_world \<Rightarrow> string \<Rightarrow> vault_state \<Rightarrow> (vault_error + string) \<times> vault_state" where
  "resolve_secret_jit W key S =
     (case S of (V, h) \<Rightarrow>
        (case map_of (vt_cache V) key of
           Some s \<Rightarrow> (Inr s, S)
         | None \<Rightarrow>
             if vt_sealed V then (Inl (VaultSealed key), S)
             else
               (case map_of (vt_secrets V) key of
                  None \<Rightarrow> (Inl (SecretNotFound key), S)
                | Some env \<Rightarrow>
                    (case vault_decrypt W env (vt_dek V) of
                       Inl e \<Rightarrow> (Inl e, S)
                     | Inr s \<Rightarrow> (Inr s, V\<lparr>vt_cache := AList.update key s (vt_cache V)\<rparr>, register_secret_for_redaction s h)))))"

text \<open>\<open>resolveSecret\<close>: the caller is the module of the asynchronous context, \<open>default\<close> without one.\<close>

definition scope_or :: "string \<Rightarrow> string option \<Rightarrow> string" where
  "scope_or d store = (case store of Some m \<Rightarrow> if m = [] then d else m | None \<Rightarrow> d)"

definition resolve_secret :: "vault_world \<Rightarrow> string option \<Rightarrow> string \<Rightarrow> vault_state \<Rightarrow> (vault_error + string) \<times> vault_state" where
  "resolve_secret W store key S =
     (let caller = scope_or ''default'' store
      in case vault_is_allowed caller key S of
           (allowed, S1) \<Rightarrow> if allowed then resolve_secret_jit W key S1 else (Inl (AccessDenied caller key), S1))"

definition vault_seal :: "vault_state \<Rightarrow> vault_state" where
  "vault_seal S =
     (case S of (V, h) \<Rightarrow>
        (if vt_sealed V then S else (V\<lparr>vt_sealed := True, vt_dek := None, vt_cache := []\<rparr>, h)))"

text \<open>Encrypting a value and writing the file, as \<open>setSecret\<close> and \<open>rotateSecret\<close> do it: the file written
  here has no checksum of the sources.\<close>

definition dek_text :: "vault \<Rightarrow> string" where
  "dek_text V = (case vt_dek V of Some d \<Rightarrow> base64_encode d | None \<Rightarrow> [])"

definition store_secret :: "vault_world \<Rightarrow> string \<Rightarrow> string \<Rightarrow> vault_state \<Rightarrow> (vault_error + unit) \<times> vault_state" where
  "store_secret W key value S =
     (case S of (V, h) \<Rightarrow>
        (case vault_encrypt W value (vt_dek V) h of
           (Inl e, h1) \<Rightarrow> (Inl e, V, h1)
         | (Inr env, h1) \<Rightarrow>
             (let V1 = V\<lparr>vt_secrets := AList.update key env (vt_secrets V)\<rparr>
              in case vault_encrypt W (dek_text V1) (Some (vt_kek V1)) h1 of
                   (Inl e, h2) \<Rightarrow> (Inl e, V1, h2)
                 | (Inr w, h2) \<Rightarrow>
                     (Inr (), V1,
                      write_vault_file (vt_path V1)
                        \<lparr>vm_version = vault_version, vm_wrapped_dek = w, vm_secrets = vt_secrets V1, vm_checksum = None\<rparr> h2))))"

definition set_secret :: "vault_world \<Rightarrow> string \<Rightarrow> string \<Rightarrow> vault_state \<Rightarrow> (vault_error + unit) \<times> vault_state" where
  "set_secret W key value S =
     (if vt_sealed (fst S) then (Inl (VaultSealed key), S)
      else step_bind (store_secret W key value S) (\<lambda>_ (V, h). (Inr (), V, register_secret_for_redaction value h)))"

definition forget_value :: "string \<Rightarrow> vault_state \<Rightarrow> host" where
  "forget_value key S =
     (case map_of (vt_cache (fst S)) key of
        Some old \<Rightarrow> if old = [] then snd S else unregister_secret_for_redaction old (snd S)
      | None \<Rightarrow> snd S)"

definition rotate_secret :: "vault_world \<Rightarrow> string \<Rightarrow> string \<Rightarrow> vault_state \<Rightarrow> vault_state" where
  "rotate_secret W key value S =
     (let V1 = (fst S)\<lparr>vt_cache := AList.update key value (vt_cache (fst S))\<rparr>;
          S1 = (V1, register_secret_for_redaction value (forget_value key S))
      in if \<not> vt_sealed V1 \<and> vt_dek V1 \<noteq> None then snd (store_secret W key value S1) else S1)"

definition remove_secret :: "string \<Rightarrow> vault_state \<Rightarrow> vault_state" where
  "remove_secret key S =
     ((fst S)\<lparr>vt_cache := AList.delete key (vt_cache (fst S)), vt_secrets := AList.delete key (vt_secrets (fst S))\<rparr>,
      forget_value key S)"

definition list_secret_keys :: "vault \<Rightarrow> string list" where
  "list_secret_keys V = keys (vt_secrets V)"

subsection \<open>The caller of process.env\<close>

text \<open>\<open>cl_store\<close> is the asynchronous context, \<open>cl_stack\<close> the lines of the stack trace. The identifier is
  what \<open>/at\s+([a-zA-Z0-9_$]+)/\<close> captures.\<close>

record caller =
  cl_store :: "string option"
  cl_stack :: "string list"

definition is_ident :: "char \<Rightarrow> bool" where
  "is_ident c \<longleftrightarrow> is_alnum c \<or> c = CHR ''_'' \<or> c = CHR ''$''"

fun at_ident :: "string \<Rightarrow> string option" where
  "at_ident [] = None"
| "at_ident (c # s) =
     (let rest = tl s; ws = takeWhile is_ws rest; name = takeWhile is_ident (dropWhile is_ws rest)
      in if c = CHR ''a'' \<and> s \<noteq> [] \<and> hd s = CHR ''t'' \<and> ws \<noteq> [] \<and> name \<noteq> [] then Some name else at_ident s)"

fun stack_module :: "string list \<Rightarrow> string option" where
  "stack_module [] = None"
| "stack_module (l # ls) =
     (if str_includes l ''AppModule'' \<or> str_includes l ''AppConfigurator''
      then (case at_ident l of Some m \<Rightarrow> Some m | None \<Rightarrow> stack_module ls)
      else stack_module ls)"

definition caller_or :: "string \<Rightarrow> caller \<Rightarrow> string" where
  "caller_or d c =
     (case cl_store c of
        Some m \<Rightarrow> if m \<noteq> [] then m else (case stack_module (cl_stack c) of Some x \<Rightarrow> x | None \<Rightarrow> d)
      | None \<Rightarrow> (case stack_module (cl_stack c) of Some x \<Rightarrow> x | None \<Rightarrow> d))"

definition get_caller_module_name :: "caller \<Rightarrow> string" where
  "get_caller_module_name c = caller_or ''default'' c"

definition unknown_caller :: string where
  "unknown_caller = ''unknown''"

definition resolve_confident_caller_module_name :: "caller \<Rightarrow> string" where
  "resolve_confident_caller_module_name c = caller_or unknown_caller c"

subsection \<open>The proxy of process.env\<close>

definition env_get :: "vault_world \<Rightarrow> caller \<Rightarrow> string \<Rightarrow> vault_state \<Rightarrow> (vault_error + shown option) \<times> vault_state" where
  "env_get W c prop S =
     (if has_secret (fst S) prop then
        (case vault_is_allowed (get_caller_module_name c) prop S of
           (allowed, S1) \<Rightarrow>
             if allowed then
               step_bind (resolve_secret_jit W prop S1) (\<lambda>s (V, h). (Inr (Some (Shown s)), V, register_secret_for_redaction s h))
             else (Inr (Some Masked), S1))
      else (Inr (map_option Shown (map_of (hs_env (snd S)) prop)), S))"

definition env_set :: "vault_world \<Rightarrow> string \<Rightarrow> string \<Rightarrow> vault_state \<Rightarrow> vault_state" where
  "env_set W prop value S =
     (let S1 = (if has_secret (fst S) prop then rotate_secret W prop value S else S)
      in (fst S1, (snd S1)\<lparr>hs_env := AList.update prop value (hs_env (snd S1))\<rparr>))"

definition env_delete :: "string \<Rightarrow> vault_state \<Rightarrow> vault_state" where
  "env_delete prop S =
     (let S1 = (if has_secret (fst S) prop then remove_secret prop S else S)
      in (fst S1, (snd S1)\<lparr>hs_env := AList.delete prop (hs_env (snd S1))\<rparr>))"

definition env_own_keys :: "vault_state \<Rightarrow> string list" where
  "env_own_keys S = set_add_all (list_secret_keys (fst S)) (keys (hs_env (snd S)))"

definition env_descriptor :: "string \<Rightarrow> vault_state \<Rightarrow> shown option" where
  "env_descriptor prop S =
     (if has_secret (fst S) prop then Some Masked else map_option Shown (map_of (hs_env (snd S)) prop))"

text \<open>\<open>{ ...process.env }\<close>: every own key in turn, through the traps.\<close>

fun env_spread :: "vault_world \<Rightarrow> caller \<Rightarrow> string list \<Rightarrow> (string, shown) jsmap \<Rightarrow> vault_state
    \<Rightarrow> (vault_error + (string, shown) jsmap) \<times> vault_state" where
  "env_spread W c [] acc S = (Inr acc, S)"
| "env_spread W c (k # ks) acc S =
     (if env_descriptor k S = None then env_spread W c ks acc S
      else step_bind (env_get W c k S)
             (\<lambda>v S1. env_spread W c ks (case v of Some x \<Rightarrow> AList.update k x acc | None \<Rightarrow> acc) S1))"

end
