(* ===== verification/Vault_Open.thy ===== *)
theory Vault_Open
  imports Vault
begin

text \<open>
  The constructor of \<open>AxiomifyVault\<close> in \<open>packages/vault/src/index.ts\<close>: the key encryption key, the vault file with
  the synchronisation from the environment files, or a new vault, and the validation against the schema.
  \<open>metadata.secrets\<close> and \<open>encryptedSecrets\<close> are changed together and are one map here. The process
  has one vault, so the \<open>process.env\<close> it starts from is the real one.
\<close>

definition is_absolute :: "string \<Rightarrow> bool" where
  "is_absolute p \<longleftrightarrow> starts_with p ''/''"

definition resolve_path :: "string \<Rightarrow> string \<Rightarrow> string" where
  "resolve_path project f = (if is_absolute f then f else path_join project f)"

definition files_to_load :: "env_files \<Rightarrow> string list" where
  "files_to_load fs =
     (case fs of NoEnvFiles \<Rightarrow> [] | OneEnvFile f \<Rightarrow> (if f = [] then [] else [f]) | EnvFileList l \<Rightarrow> l)"

fun merge_env_files :: "host \<Rightarrow> string \<Rightarrow> string list \<Rightarrow> (string, string) jsmap \<Rightarrow> vault_error + (string, string) jsmap" where
  "merge_env_files h project [] acc = Inr acc"
| "merge_env_files h project (f # fs) acc =
     (let p = resolve_path project f
      in if map_of (hs_files h) p \<noteq> None
         then merge_env_files h project fs (fold (\<lambda>(k, v) m. AList.update k v m) (parse_env_file h p) acc)
         else Inl (EnvFileMissing p))"

definition default_env_path :: "string \<Rightarrow> string" where
  "default_env_path project = path_join project ''.env''"

text \<open>The sources of a load (\<open>None\<close> when there is nothing to compare with) and of a new vault.\<close>

definition load_sources :: "vault_options \<Rightarrow> string \<Rightarrow> host \<Rightarrow> vault_error + (string, string) jsmap option" where
  "load_sources opts project h =
     (let fs = files_to_load (vo_env_files opts)
      in if fs \<noteq> [] then sum_bind (merge_env_files h project fs []) (\<lambda>m. Inr (Some m))
         else if map_of (hs_files h) (default_env_path project) \<noteq> None
              then Inr (Some (parse_env_file h (default_env_path project)))
              else Inr None)"

definition create_sources :: "vault_options \<Rightarrow> string \<Rightarrow> host \<Rightarrow> vault_error + (string, string) jsmap" where
  "create_sources opts project h =
     sum_bind (load_sources opts project h) (\<lambda>r. Inr (case r of Some m \<Rightarrow> m | None \<Rightarrow> hs_env h))"

definition target_keys :: "vault_options \<Rightarrow> string list" where
  "target_keys opts =
     set_add_all (get_policy_keys (vo_policy opts)
       @ (case vo_schema opts of Some s \<Rightarrow> get_zod_schema_keys (zs_keys s) | None \<Rightarrow> [])) []"

subsection \<open>Synchronisation\<close>

type_synonym envelopes = "(string, vault_envelope) jsmap"

definition should_update :: "vault_world \<Rightarrow> string \<Rightarrow> vault_envelope option \<Rightarrow> string \<Rightarrow> bool" where
  "should_update W dek existing raw =
     (case existing of
        None \<Rightarrow> True
      | Some env \<Rightarrow> (case vault_decrypt W env (Some dek) of Inr s \<Rightarrow> s \<noteq> raw | Inl _ \<Rightarrow> True))"

fun sync_targets :: "vault_world \<Rightarrow> string \<Rightarrow> (string, string) jsmap \<Rightarrow> string list \<Rightarrow> envelopes \<Rightarrow> host
    \<Rightarrow> (vault_error + envelopes) \<times> host" where
  "sync_targets W dek env [] secrets h = (Inr secrets, h)"
| "sync_targets W dek env (k # ks) secrets h =
     (case map_of env k of
        None \<Rightarrow> sync_targets W dek env ks secrets h
      | Some raw \<Rightarrow>
          if should_update W dek (map_of secrets k) raw
          then step_bind (vault_encrypt W raw (Some dek) h) (\<lambda>e h1. sync_targets W dek env ks (AList.update k e secrets) h1)
          else sync_targets W dek env ks secrets h)"

definition decode_dek :: "string \<Rightarrow> string" where
  "decode_dek s = (if is_hex_key s then from_hex s else base64_decode s)"

definition sync_vault :: "vault_world \<Rightarrow> string \<Rightarrow> string \<Rightarrow> vault_metadata \<Rightarrow> (string, string) jsmap \<Rightarrow> string list \<Rightarrow> host
    \<Rightarrow> (vault_error + envelopes) \<times> host" where
  "sync_vault W dek path m env targets h =
     (let checksum = calculate_config_checksum W env targets
      in if vm_checksum m = Some checksum then (Inr (vm_secrets m), h)
         else
           step_bind (sync_targets W dek env targets (vm_secrets m) h) (\<lambda>secrets h1.
             (let kept = filter (\<lambda>(k, _). k \<in> set targets) secrets
              in (Inr kept,
                  write_vault_file path
                    (m\<lparr>vm_secrets := kept, vm_checksum := Some checksum, vm_version := vault_version\<rparr>) h1))))"

definition load_body :: "vault_world \<Rightarrow> vault_options \<Rightarrow> string \<Rightarrow> string \<Rightarrow> string \<Rightarrow> host_file \<Rightarrow> host
    \<Rightarrow> (vault_error + string \<times> envelopes) \<times> host" where
  "load_body W opts project kek path f h =
     (case sum_bind (parse_vault_file f) (\<lambda>m.
           sum_bind (vault_decrypt W (vm_wrapped_dek m) (Some kek)) (\<lambda>t.
           sum_bind (load_sources opts project h) (\<lambda>src. Inr (m, decode_dek t, src)))) of
        Inl e \<Rightarrow> (Inl e, h)
      | Inr (m, dek, None) \<Rightarrow> (Inr (dek, vm_secrets m), h)
      | Inr (m, dek, Some env) \<Rightarrow>
          step_bind (sync_vault W dek path m env (target_keys opts) h) (\<lambda>secrets h1. (Inr (dek, secrets), h1)))"

definition load_vault :: "vault_world \<Rightarrow> vault_options \<Rightarrow> string \<Rightarrow> string \<Rightarrow> string \<Rightarrow> host_file \<Rightarrow> host
    \<Rightarrow> (vault_error + string \<times> envelopes) \<times> host" where
  "load_vault W opts project kek path f h =
     (case load_body W opts project kek path f h of
        (Inl e, h1) \<Rightarrow> (Inl (LoadFailed e), h1)
      | (Inr r, h1) \<Rightarrow> (Inr r, h1))"

subsection \<open>A new vault\<close>

fun import_targets :: "vault_world \<Rightarrow> string \<Rightarrow> (string, string) jsmap \<Rightarrow> string list \<Rightarrow> envelopes \<Rightarrow> host
    \<Rightarrow> (vault_error + envelopes) \<times> host" where
  "import_targets W dek env [] secrets h = (Inr secrets, h)"
| "import_targets W dek env (k # ks) secrets h =
     (case env_given env k of
        None \<Rightarrow> import_targets W dek env ks secrets h
      | Some v \<Rightarrow>
          step_bind (vault_encrypt W v (Some dek) h) (\<lambda>e h1. import_targets W dek env ks (AList.update k e secrets) h1))"

definition create_vault :: "vault_world \<Rightarrow> vault_options \<Rightarrow> string \<Rightarrow> string \<Rightarrow> string \<Rightarrow> host
    \<Rightarrow> (vault_error + string \<times> envelopes) \<times> host" where
  "create_vault W opts project kek path h =
     (case random_draw (vx_random W) 32 h of
        (dek, h1) \<Rightarrow>
          step_bind (vault_encrypt W (base64_encode dek) (Some kek) h1) (\<lambda>wrapped h2.
          (case create_sources opts project h2 of
             Inl e \<Rightarrow> (Inl e, h2)
           | Inr env \<Rightarrow>
               step_bind (import_targets W dek env (target_keys opts) [] h2) (\<lambda>secrets h3.
                 (Inr (dek, secrets),
                  write_vault_file path
                    \<lparr>vm_version = vault_version, vm_wrapped_dek = wrapped, vm_secrets = secrets,
                      vm_checksum = Some (calculate_config_checksum W env (target_keys opts))\<rparr> h3)))))"

subsection \<open>The schema\<close>

definition value_text_of :: "jsval \<Rightarrow> string" where
  "value_text_of v =
     (case v of
        JNull \<Rightarrow> ''null'' | JArr _ \<Rightarrow> the (json_stringify v) | JObj _ \<Rightarrow> the (json_stringify v) | JInst s \<Rightarrow> s
      | _ \<Rightarrow> js_string v)"

definition cache_values :: "(string \<times> jsval) list \<Rightarrow> (string, string) jsmap \<Rightarrow> (string, string) jsmap" where
  "cache_values data cache =
     fold (\<lambda>(k, v) m. if v = JUndef then m else AList.update k (value_text_of v) m) data cache"

fun schema_secrets :: "vault_world \<Rightarrow> string list \<Rightarrow> (string, shown) jsmap \<Rightarrow> vault_state
    \<Rightarrow> (string, shown) jsmap \<times> vault_state" where
  "schema_secrets W [] obj S = (obj, S)"
| "schema_secrets W (k # ks) obj S =
     (case resolve_secret_jit W k S of
        (Inr s, S1) \<Rightarrow> schema_secrets W ks (AList.update k (Shown s) obj) S1
      | (Inl e, (V, h)) \<Rightarrow> schema_secrets W ks obj (V, warn (DecryptWarning k e) h))"

definition check_vault_schema :: "schema_check \<Rightarrow> (string, shown) jsmap \<Rightarrow> vault_error + (string \<times> jsval) list" where
  "check_vault_schema c obj =
     (case c of
        SafeParse f \<Rightarrow> (case f obj of Inl issues \<Rightarrow> Inl (SchemaFailed issues) | Inr d \<Rightarrow> Inr d)
      | ParseOnly f \<Rightarrow> (case f obj of Inl msg \<Rightarrow> Inl (SchemaFailed [msg]) | Inr d \<Rightarrow> Inr d)
      | NoCheck \<Rightarrow> Inr [])"

definition validate_schema :: "vault_world \<Rightarrow> vault_schema option \<Rightarrow> caller \<Rightarrow> vault_state \<Rightarrow> (vault_error + unit) \<times> vault_state" where
  "validate_schema W schema c S =
     step_bind (env_spread W c (env_own_keys S) [] S) (\<lambda>obj S1.
       (case schema_secrets W (list_secret_keys (fst S1)) obj S1 of
          (obj2, V, h) \<Rightarrow>
            (case schema of
               None \<Rightarrow> (Inr (), V, h)
             | Some s \<Rightarrow>
                 (case check_vault_schema (zs_check s) obj2 of
                    Inl e \<Rightarrow> (Inl e, V, h)
                  | Inr data \<Rightarrow> (Inr (), V\<lparr>vt_cache := cache_values data (vt_cache V)\<rparr>, h)))))"

subsection \<open>The constructor\<close>

definition vault_file_path :: "vault_options \<Rightarrow> string \<Rightarrow> host \<Rightarrow> string" where
  "vault_file_path opts project h =
     (case vo_path opts of
        Some p \<Rightarrow>
          if p \<noteq> [] then resolve_path project p
          else path_join project (case env_given (hs_env h) ''NODE_ENV'' of
                 Some e \<Rightarrow> ''axiomify-vault.'' @ e @ ''.json'' | None \<Rightarrow> ''axiomify-vault.json'')
      | None \<Rightarrow> path_join project (case env_given (hs_env h) ''NODE_ENV'' of
                 Some e \<Rightarrow> ''axiomify-vault.'' @ e @ ''.json'' | None \<Rightarrow> ''axiomify-vault.json''))"

definition check_key_not_git_tracked :: "vault_world \<Rightarrow> string \<Rightarrow> host \<Rightarrow> (vault_error + unit) \<times> host" where
  "check_key_not_git_tracked W path h =
     (case vx_git W path of
        GitTracked \<Rightarrow>
          if map_of (hs_env h) ''NODE_ENV'' = Some ''production'' then (Inl (KeyTrackedByGit path), h)
          else (Inr (), warn (KeyTracked path) h)
      | GitUntracked \<Rightarrow> (Inr (), h)
      | GitFailed msg \<Rightarrow> (Inr (), warn (TrackCheckSkipped path msg) h))"

definition vault_project :: "vault_world \<Rightarrow> vault_options \<Rightarrow> string" where
  "vault_project W opts = (case vo_project opts of Some p \<Rightarrow> p | None \<Rightarrow> vx_cwd W)"

definition vault_of :: "vault_options \<Rightarrow> string \<Rightarrow> string \<Rightarrow> string \<Rightarrow> envelopes \<Rightarrow> vault" where
  "vault_of opts path kek dek secrets =
     \<lparr>vt_dek = Some dek, vt_cache = [], vt_secrets = secrets, vt_engine = policy_engine_new (vo_policy opts) False,
       vt_path = path, vt_sealed = False, vt_kek = kek\<rparr>"

definition vault_open :: "vault_world \<Rightarrow> vault_options \<Rightarrow> host \<Rightarrow> (vault_error + vault) \<times> host" where
  "vault_open W opts h =
     (let project = vault_project W opts; path = vault_file_path opts project h
      in step_bind (resolve_kek W project (vo_kek opts) h) (\<lambda>kek h1.
         step_bind (if \<not> kek_given (vo_kek opts) \<and> env_given (hs_env h1) ''AXIOMIFY_VAULT_KEK'' = None
                    then check_key_not_git_tracked W (local_key_path project) h1 else (Inr (), h1)) (\<lambda>_ h2.
         step_bind (case map_of (hs_files h2) path of
                      Some f \<Rightarrow> load_vault W opts project kek path f h2
                    | None \<Rightarrow> create_vault W opts project kek path h2) (\<lambda>(dek, secrets) h3.
           (Inr (vault_of opts path kek dek secrets), h3)))))"

definition vault_new :: "vault_world \<Rightarrow> vault_options \<Rightarrow> caller \<Rightarrow> host \<Rightarrow> (vault_error + vault) \<times> host" where
  "vault_new W opts c h =
     step_bind (vault_open W opts h) (\<lambda>V h1.
       (case validate_schema W (vo_schema opts) c (V, h1) of
          (Inl e, S) \<Rightarrow> (Inl e, snd S)
        | (Inr _, S) \<Rightarrow> (Inr (fst S), snd S)))"

text \<open>\<open>vaultModule\<close>: the options it gives to the vault, from either form of its arguments.\<close>

datatype vault_module_arg = NoVaultArg | LegacyPolicy vault_policy | VaultOptionsArg vault_options

definition vault_module_options :: "vault_module_arg \<Rightarrow> string \<Rightarrow> vault_options" where
  "vault_module_options a project =
     (case a of
        VaultOptionsArg o1 \<Rightarrow>
          (case vo_project o1 of
             Some p \<Rightarrow> if p = [] then o1\<lparr>vo_project := Some project\<rparr> else o1
           | None \<Rightarrow> o1\<lparr>vo_project := Some project\<rparr>)
      | NoVaultArg \<Rightarrow> \<lparr>vo_path = None, vo_env_files = NoEnvFiles, vo_policy = None, vo_schema = None, vo_project = Some project, vo_kek = None\<rparr>
      | LegacyPolicy p \<Rightarrow> \<lparr>vo_path = None, vo_env_files = NoEnvFiles, vo_policy = Some p, vo_schema = None, vo_project = Some project, vo_kek = None\<rparr>)"

definition vault_module_register :: "vault_world \<Rightarrow> vault_module_arg \<Rightarrow> string \<Rightarrow> caller \<Rightarrow> host \<Rightarrow> (vault_error + vault) \<times> host" where
  "vault_module_register W a project c h = vault_new W (vault_module_options a project) c h"

end
