(* ===== verification/Vault_Props.thy ===== *)
theory Vault_Props
  imports Vault_Open
begin

text \<open>
  What the vault guarantees. AES-GCM is assumed to open what it seals (\<open>gcm_ok\<close>), random draws to have the
  size asked for. \<open>secret_of W V k\<close> is the secret that the envelopes of \<open>V\<close> hold under \<open>k\<close>, whatever the
  plaintext cache says.
\<close>

definition gcm_ok :: "vault_world \<Rightarrow> bool" where
  "gcm_ok W \<longleftrightarrow>
     (\<forall>k iv p. length k = 32 \<longrightarrow>
        gcm_open (vx_gcm W) k iv (fst (gcm_seal (vx_gcm W) k iv p)) (snd (gcm_seal (vx_gcm W) k iv p)) = Inr p)
     \<and> (\<forall>i n. length (vx_random W i n) = n)"

definition envelope_text :: "vault_world \<Rightarrow> string option \<Rightarrow> envelopes \<Rightarrow> string \<Rightarrow> string option" where
  "envelope_text W dek secrets k =
     (case map_of secrets k of
        None \<Rightarrow> None
      | Some e \<Rightarrow> (case vault_decrypt W e dek of Inr s \<Rightarrow> Some s | Inl _ \<Rightarrow> None))"

definition secret_of :: "vault_world \<Rightarrow> vault \<Rightarrow> string \<Rightarrow> string option" where
  "secret_of W V = envelope_text W (vt_dek V) (vt_secrets V)"

text \<open>A vault as the constructor leaves it: keys of the right size, an unsealed vault has its data key, and
  every envelope opens.\<close>

definition vault_wf :: "vault_world \<Rightarrow> vault \<Rightarrow> bool" where
  "vault_wf W V \<longleftrightarrow>
     length (vt_kek V) = 32 \<and> distinct_keys (vt_secrets V)
     \<and> (\<exists>d. vt_dek V = Some d \<and> length d = 32)
     \<and> \<not> vt_sealed V \<and> (\<forall>k \<in> set (keys (vt_secrets V)). secret_of W V k \<noteq> None)"

subsection \<open>Sealing and opening\<close>

lemma encrypt_spec:
  assumes "gcm_ok W" "length k = 32"
  shows "\<exists>env. vault_encrypt W p (Some k) h = (Inr env, h\<lparr>hs_draws := Suc (hs_draws h)\<rparr>) \<and> vault_decrypt W env (Some k) = Inr p"
proof -
  obtain c t where s: "gcm_seal (vx_gcm W) k (vx_random W (hs_draws h) 12) (utf8 p) = (c, t)" by (cases "gcm_seal (vx_gcm W) k (vx_random W (hs_draws h) 12) (utf8 p)")
  have o1: "gcm_open (vx_gcm W) k (vx_random W (hs_draws h) 12) c t = Inr (utf8 p)"
    using assms s unfolding gcm_ok_def by (metis fst_conv snd_conv)
  show ?thesis
    using assms(2) by (simp add: vault_encrypt_def vault_decrypt_def validate_key_size_def required_key_bytes_def random_draw_def s o1)
qed

lemma read_envelope_json [simp]: "read_envelope (envelope_json e) = Some e"
  by (simp add: read_envelope_def envelope_json_def string_member_def)

lemma read_envelopes_json [simp]: "read_envelopes (map (\<lambda>(k, e). (k, envelope_json e)) es) = Some es"
  by (induction es) auto

lemma read_metadata_json [simp]: "read_metadata (metadata_json m) = Some m"
  by (cases "vm_checksum m") (simp_all add: read_metadata_def metadata_json_def string_member_def)

lemma parse_written [simp]: "parse_vault_file (Doc (metadata_json m)) = Inr m"
  by (simp add: parse_vault_file_def)

lemma length_b64url_encode: "length (b64url_encode s) = (4 * length s + 2) div 3"
  by (induction s rule: b64url_encode.induct) (auto simp: Let_def)

lemma decode_dek_base64 [simp]: "length d = 32 \<Longrightarrow> decode_dek (base64_encode d) = d"
proof -
  assume "length d = 32"
  then have "length (base64_encode d) = 44" by (simp add: base64_encode_def Let_def length_b64url_encode)
  then show ?thesis by (simp add: decode_dek_def is_hex_key_def base64_round_trip)
qed

subsection \<open>What an operation keeps\<close>

lemma register_fields [simp]:
  "hs_files (register_secret_for_redaction s h) = hs_files h" "hs_env (register_secret_for_redaction s h) = hs_env h"
  "hs_draws (register_secret_for_redaction s h) = hs_draws h" "hs_warnings (register_secret_for_redaction s h) = hs_warnings h"
  by (simp_all add: register_secret_for_redaction_def)

lemma warn_fields [simp]:
  "hs_files (warn w h) = hs_files h" "hs_env (warn w h) = hs_env h" "hs_draws (warn w h) = hs_draws h"
  "hs_redacted (warn w h) = hs_redacted h"
  by (simp_all add: warn_def)

lemma policy_keeps:
  assumes "policy_is_allowed e m k h = (b, e', h')"
  shows "pe_policy e' = pe_policy e" "hs_files h' = hs_files h" "hs_env h' = hs_env h" "hs_redacted h' = hs_redacted h"
  using assms by (auto simp: policy_is_allowed_def split: if_splits option.splits)

text \<open>The part of a vault that reads leave alone.\<close>

definition same_store :: "vault \<Rightarrow> vault \<Rightarrow> bool" where
  "same_store V V' \<longleftrightarrow>
     vt_dek V' = vt_dek V \<and> vt_secrets V' = vt_secrets V \<and> vt_kek V' = vt_kek V \<and> vt_path V' = vt_path V
     \<and> vt_sealed V' = vt_sealed V \<and> pe_policy (vt_engine V') = pe_policy (vt_engine V)"

lemma same_store_refl [simp]: "same_store V V"
  by (simp add: same_store_def)

lemma same_store_trans: "same_store A B \<Longrightarrow> same_store B C \<Longrightarrow> same_store A C"
  by (simp add: same_store_def)

lemma same_store_secret_of: "same_store V V' \<Longrightarrow> secret_of W V' = secret_of W V"
  by (simp add: same_store_def secret_of_def)

lemma same_store_wf: "same_store V V' \<Longrightarrow> vault_wf W V' = vault_wf W V"
  by (simp add: same_store_secret_of vault_wf_def) (simp add: same_store_def)

lemma allowed_keeps:
  assumes "vault_is_allowed m k (V, h) = (b, V', h')"
  shows "same_store V V'" "vt_cache V' = vt_cache V" "hs_files h' = hs_files h" "hs_env h' = hs_env h" "hs_redacted h' = hs_redacted h"
  using assms by (auto simp: vault_is_allowed_def same_store_def dest: policy_keeps split: prod.splits)

lemma jit_keeps:
  assumes "resolve_secret_jit W k (V, h) = (r, V', h')"
  shows "same_store V V'" "hs_files h' = hs_files h" "hs_env h' = hs_env h"
  using assms by (auto simp: resolve_secret_jit_def same_store_def split: option.splits if_splits sum.splits)

text \<open>A cache that holds nothing but what the envelopes hold.\<close>

definition cache_sound :: "vault_world \<Rightarrow> vault \<Rightarrow> bool" where
  "cache_sound W V \<longleftrightarrow> (\<forall>k s. map_of (vt_cache V) k = Some s \<longrightarrow> secret_of W V k = Some s)"

lemma jit_sound:
  assumes "resolve_secret_jit W k (V, h) = (r, V', h')" "cache_sound W V"
  shows "cache_sound W V'"
proof -
  have same: "secret_of W V' = secret_of W V" using jit_keeps(1)[OF assms(1)] same_store_secret_of by blast
  have "vt_cache V' = vt_cache V \<or> (\<exists>s. secret_of W V k = Some s \<and> vt_cache V' = AList.update k s (vt_cache V))"
    using assms(1) by (auto simp: resolve_secret_jit_def secret_of_def envelope_text_def split: option.splits if_splits sum.splits)
  then show ?thesis using assms(2) by (auto simp: cache_sound_def same split: if_splits)
qed

lemma jit_result:
  assumes "cache_sound W V" "\<not> vt_sealed V" "secret_of W V k = Some s"
  shows "fst (resolve_secret_jit W k (V, h)) = Inr s"
proof (cases "map_of (vt_cache V) k")
  case None
  with assms(2,3) show ?thesis
    by (auto simp: resolve_secret_jit_def secret_of_def envelope_text_def split: option.splits sum.splits)
next
  case (Some t)
  with assms(1,3) show ?thesis by (simp add: resolve_secret_jit_def cache_sound_def)
qed

lemma env_get_keeps:
  assumes "env_get W c k (V, h) = (r, V', h')"
  shows "same_store V V'" "hs_files h' = hs_files h" "hs_env h' = hs_env h" "cache_sound W V \<Longrightarrow> cache_sound W V'"
proof -
  have "same_store V V' \<and> hs_files h' = hs_files h \<and> hs_env h' = hs_env h \<and> (cache_sound W V \<longrightarrow> cache_sound W V')"
  proof (cases "has_secret V k")
    case True
    obtain b V1 h1 where a: "vault_is_allowed (get_caller_module_name c) k (V, h) = (b, V1, h1)" by (metis prod.exhaust)
    note al = allowed_keeps[OF a]
    have s1: "cache_sound W V \<longrightarrow> cache_sound W V1"
      using al(1,2) by (simp add: cache_sound_def same_store_secret_of)
    obtain q V2 h2 where j: "resolve_secret_jit W k (V1, h1) = (q, V2, h2)" by (metis prod.exhaust)
    show ?thesis
    proof (cases b)
      case False
      then have "V' = V1" "h' = h1" using assms True a by (simp_all add: env_get_def)
      then show ?thesis using al s1 by simp
    next
      case b: True
      have e: "V' = V2" "hs_files h' = hs_files h2" "hs_env h' = hs_env h2"
        using assms True a b j by (cases q; auto simp: env_get_def)+
      show ?thesis using e al s1 jit_keeps[OF j] jit_sound[OF j] same_store_trans by metis
    qed
  next
    case False
    then show ?thesis using assms by (auto simp: env_get_def)
  qed
  then show "same_store V V'" "hs_files h' = hs_files h" "hs_env h' = hs_env h" "cache_sound W V \<Longrightarrow> cache_sound W V'" by auto
qed

lemma env_get_succeeds:
  assumes "cache_sound W V" "vault_wf W V"
  shows "\<exists>x. fst (env_get W c k (V, h)) = Inr x"
proof (cases "has_secret V k")
  case True
  obtain b V1 h1 where a: "vault_is_allowed (get_caller_module_name c) k (V, h) = (b, V1, h1)" by (metis prod.exhaust)
  note al = allowed_keeps[OF a]
  have w: "vault_wf W V1" "cache_sound W V1"
    using al(1,2) assms by (simp_all add: same_store_wf cache_sound_def same_store_secret_of)
  obtain s where s: "secret_of W V1 k = Some s"
    using True assms(2) al(1) unfolding has_secret_def vault_wf_def by (metis same_store_secret_of option.exhaust)
  have "fst (resolve_secret_jit W k (V1, h1)) = Inr s"
    using jit_result[OF w(2) _ s] w(1) by (simp add: vault_wf_def)
  then show ?thesis using True a by (cases "resolve_secret_jit W k (V1, h1)") (auto simp: env_get_def split: if_splits)
next
  case False
  then show ?thesis by (simp add: env_get_def)
qed

lemma env_spread_keeps:
  assumes "cache_sound W V" "vault_wf W V"
  shows "\<exists>obj V' h'. env_spread W c ks acc (V, h) = (Inr obj, V', h') \<and> same_store V V' \<and> cache_sound W V'
           \<and> hs_files h' = hs_files h \<and> hs_env h' = hs_env h"
  using assms
proof (induction ks arbitrary: acc V h)
  case (Cons k ks)
  show ?case
  proof (cases "env_descriptor k (V, h) = None")
    case True
    then show ?thesis using Cons by simp
  next
    case False
    obtain x V1 h1 where g: "env_get W c k (V, h) = (Inr x, V1, h1)"
      using env_get_succeeds[OF Cons.prems] by (metis fst_conv prod.exhaust)
    note kp = env_get_keeps[OF g]
    have "cache_sound W V1" "vault_wf W V1" using kp(1,4) Cons.prems by (simp_all add: same_store_wf)
    from Cons.IH[OF this, of "case x of Some y \<Rightarrow> AList.update k y acc | None \<Rightarrow> acc" h1]
    show ?thesis using False g kp(1-3) same_store_trans by fastforce
  qed
qed simp

lemma schema_secrets_keeps:
  assumes "cache_sound W V" "schema_secrets W ks obj (V, h) = (obj', V', h')"
  shows "same_store V V' \<and> cache_sound W V' \<and> hs_files h' = hs_files h \<and> hs_env h' = hs_env h"
  using assms
proof (induction ks arbitrary: obj V h)
  case (Cons k ks)
  obtain r V1 h1 where j: "resolve_secret_jit W k (V, h) = (r, V1, h1)" by (metis prod.exhaust)
  note kp = jit_keeps[OF j] jit_sound[OF j Cons.prems(1)]
  show ?case
  proof (cases r)
    case (Inl e)
    then have "schema_secrets W ks obj (V1, warn (DecryptWarning k e) h1) = (obj', V', h')" using Cons.prems(2) j by simp
    from Cons.IH[OF kp(4) this] show ?thesis using kp same_store_trans by auto
  next
    case (Inr s)
    then have "schema_secrets W ks (AList.update k (Shown s) obj) (V1, h1) = (obj', V', h')" using Cons.prems(2) j by simp
    from Cons.IH[OF kp(4) this] show ?thesis using kp same_store_trans by auto
  qed
qed simp

text \<open>The object the schema checks shows every secret of the vault; its verdict is the data it parsed, none
  without a schema.\<close>

definition shows_store :: "(string \<Rightarrow> string option) \<Rightarrow> (string, shown) jsmap \<Rightarrow> bool" where
  "shows_store f obj \<longleftrightarrow> (\<forall>k s. f k = Some s \<longrightarrow> map_of obj k = Some (Shown s))"

definition schema_verdict :: "vault_schema option \<Rightarrow> (string, shown) jsmap \<Rightarrow> vault_error + (string \<times> jsval) list" where
  "schema_verdict schema obj = (case schema of None \<Rightarrow> Inr [] | Some s \<Rightarrow> check_vault_schema (zs_check s) obj)"

lemma schema_secrets_show:
  assumes "cache_sound W V" "\<not> vt_sealed V" "schema_secrets W ks obj (V, h) = (obj', S')"
    and "secret_of W V k = Some s" "k \<in> set ks \<or> map_of obj k = Some (Shown s)"
  shows "map_of obj' k = Some (Shown s)"
  using assms
proof (induction ks arbitrary: obj V h)
  case (Cons k' ks)
  obtain r V1 h1 where j: "resolve_secret_jit W k' (V, h) = (r, V1, h1)" by (metis prod.exhaust)
  note kp = jit_keeps[OF j] jit_sound[OF j Cons.prems(1)]
  have so: "secret_of W V1 = secret_of W V" using same_store_secret_of[OF kp(1)] .
  have u: "\<not> vt_sealed V1" using kp(1) Cons.prems(2) by (simp add: same_store_def)
  have k: "r = Inr s" if "k' = k"
    using jit_result[OF Cons.prems(1,2,4), of h] j that by simp
  show ?case
  proof (cases r)
    case (Inl e)
    then have "schema_secrets W ks obj (V1, warn (DecryptWarning k' e) h1) = (obj', S')" using Cons.prems(3) j by simp
    from Cons.IH[OF kp(4) u this] show ?thesis using Cons.prems(4,5) so k Inl by auto
  next
    case (Inr t)
    then have "schema_secrets W ks (AList.update k' (Shown t) obj) (V1, h1) = (obj', S')" using Cons.prems(3) j by simp
    from Cons.IH[OF kp(4) u this] show ?thesis
      using Cons.prems(4,5) so k Inr by (cases "k' = k") (auto simp: update_conv)
  qed
qed simp

lemma validate_runs:
  assumes "cache_sound W V" "vault_wf W V"
  shows "\<exists>obj V' h'. same_store V V' \<and> cache_sound W V' \<and> shows_store (secret_of W V) obj
     \<and> validate_schema W schema c (V, h) = (case schema_verdict schema obj of
           Inl e \<Rightarrow> (Inl e, V', h')
         | Inr data \<Rightarrow> (Inr (), V'\<lparr>vt_cache := cache_values data (vt_cache V')\<rparr>, h'))"
proof -
  obtain obj V1 h1 where sp: "env_spread W c (env_own_keys (V, h)) [] (V, h) = (Inr obj, V1, h1)" "same_store V V1"
    "cache_sound W V1" "hs_files h1 = hs_files h" "hs_env h1 = hs_env h"
    using env_spread_keeps[OF assms] by blast
  obtain obj2 V2 h2 where sc: "schema_secrets W (list_secret_keys V1) obj (V1, h1) = (obj2, V2, h2)" by (metis prod.exhaust)
  note kp = schema_secrets_keeps[OF sp(3) sc]
  have so: "secret_of W V1 = secret_of W V" using same_store_secret_of[OF sp(2)] .
  have u: "\<not> vt_sealed V1" using sp(2) assms(2) by (simp add: vault_wf_def same_store_def)
  have "map_of obj2 k = Some (Shown s)" if "secret_of W V k = Some s" for k s
  proof -
    have "k \<in> set (list_secret_keys V1)"
      using that so unfolding list_secret_keys_def secret_of_def envelope_text_def
      by (metis (no_types, lifting) map_of_eq_None_iff image_set option.case(1) option.distinct(1))
    then show ?thesis using schema_secrets_show[OF sp(3) u sc] that so by auto
  qed
  then have sh: "shows_store (secret_of W V) obj2" by (simp add: shows_store_def)
  have st: "same_store V V2" "cache_sound W V2" using kp sp(2) same_store_trans by auto
  have "validate_schema W schema c (V, h) = (case schema_verdict schema obj2 of
           Inl e \<Rightarrow> (Inl e, V2, h2)
         | Inr data \<Rightarrow> (Inr (), V2\<lparr>vt_cache := cache_values data (vt_cache V2)\<rparr>, h2))"
    using sp(1) sc by (simp add: validate_schema_def schema_verdict_def cache_values_def split: option.split)
  with sh st show ?thesis by blast
qed

lemma cache_values_map:
  "map_of (cache_values data m) k = (case map_of (cache_values data []) k of Some s \<Rightarrow> Some s | None \<Rightarrow> map_of m k)"
proof (induction data rule: rev_induct)
  case (snoc d ds)
  then show ?case by (cases d) (auto simp: cache_values_def update_conv)
qed (simp add: cache_values_def)

end
