(* ===== verification/Vault_Persist.thy ===== *)
theory Vault_Persist
  imports Vault_Props
begin

text \<open>
  What the vault file keeps: a secret written by \<open>setSecret\<close> is what the next vault on that file reads, unless
  the environment files override it at the synchronisation.
\<close>

definition intact :: "vault_world \<Rightarrow> string option \<Rightarrow> envelopes \<Rightarrow> bool" where
  "intact W dek secrets \<longleftrightarrow> distinct_keys secrets \<and> (\<forall>k. map_of secrets k \<noteq> None \<longrightarrow> envelope_text W dek secrets k \<noteq> None)"

lemma ball_keys: "(\<forall>k \<in> set (keys m). P k) \<longleftrightarrow> (\<forall>k. map_of m k \<noteq> None \<longrightarrow> P k)"
  by (simp add: map_of_eq_None_iff) blast

lemma vault_wf_iff:
  "vault_wf W V \<longleftrightarrow> length (vt_kek V) = 32 \<and> (\<exists>d. vt_dek V = Some d \<and> length d = 32) \<and> \<not> vt_sealed V
     \<and> intact W (vt_dek V) (vt_secrets V)"
  unfolding vault_wf_def intact_def ball_keys secret_of_def by blast

lemma vault_wf_intact: "vault_wf W V \<Longrightarrow> intact W (vt_dek V) (vt_secrets V)"
  by (simp add: vault_wf_iff)

lemma intact_update:
  assumes "intact W dek secrets" "vault_decrypt W e dek = Inr v"
  shows "intact W dek (AList.update k e secrets)"
  using assms by (auto simp: intact_def envelope_text_def split: if_splits)

lemma text_update:
  assumes "vault_decrypt W e dek = Inr v"
  shows "envelope_text W dek (AList.update k e secrets) = (envelope_text W dek secrets)(k \<mapsto> v)"
  using assms by (auto simp: envelope_text_def fun_eq_iff)

lemma map_of_kept_keys: "map_of (filter (\<lambda>(k, _). k \<in> T) m) k = (if k \<in> T then map_of m k else None)"
  by (induction m) auto

lemma intact_kept: "intact W dek m \<Longrightarrow> intact W dek (filter (\<lambda>(k, _). k \<in> T) m)"
  by (auto simp: intact_def envelope_text_def map_of_kept_keys distinct_map_filter)

lemma text_kept: "envelope_text W dek (filter (\<lambda>(k, _). k \<in> T) m) k = (if k \<in> T then envelope_text W dek m k else None)"
  by (simp add: envelope_text_def map_of_kept_keys)

subsection \<open>Writing\<close>

lemma store_secret_spec:
  assumes "gcm_ok W" "vault_wf W V"
  shows "\<exists>V' h'. store_secret W key val (V, h) = (Inr (), V', h')
     \<and> (\<exists>m. map_of (hs_files h') (vt_path V) = Some (Doc (metadata_json m)) \<and> vm_checksum m = None
            \<and> vm_secrets m = vt_secrets V' \<and> vault_decrypt W (vm_wrapped_dek m) (Some (vt_kek V)) = Inr (dek_text V))
     \<and> secret_of W V' = (secret_of W V)(key \<mapsto> val) \<and> vault_wf W V'
     \<and> vt_dek V' = vt_dek V \<and> vt_kek V' = vt_kek V \<and> vt_path V' = vt_path V \<and> vt_cache V' = vt_cache V
     \<and> (\<forall>p. p \<noteq> vt_path V \<longrightarrow> map_of (hs_files h') p = map_of (hs_files h) p) \<and> hs_env h' = hs_env h"
proof -
  obtain d where d: "vt_dek V = Some d" "length d = 32" using assms(2) by (auto simp: vault_wf_def)
  have kek: "length (vt_kek V) = 32" using assms(2) by (simp add: vault_wf_def)
  let ?h1 = "h\<lparr>hs_draws := Suc (hs_draws h)\<rparr>"
  obtain e where e: "vault_encrypt W val (vt_dek V) h = (Inr e, ?h1)" "vault_decrypt W e (Some d) = Inr val"
    using encrypt_spec[OF assms(1) d(2)] d(1) by metis
  let ?V = "V\<lparr>vt_secrets := AList.update key e (vt_secrets V)\<rparr>"
  let ?h2 = "?h1\<lparr>hs_draws := Suc (hs_draws ?h1)\<rparr>"
  obtain w where w: "vault_encrypt W (dek_text ?V) (Some (vt_kek V)) ?h1 = (Inr w, ?h2)"
    "vault_decrypt W w (Some (vt_kek V)) = Inr (dek_text ?V)"
    using encrypt_spec[OF assms(1) kek] by metis
  have same: "dek_text ?V = dek_text V" by (simp add: dek_text_def)
  have t: "secret_of W ?V = (secret_of W V)(key \<mapsto> val)"
    using text_update[of W e "vt_dek V" val] e(2) d(1) by (simp add: secret_of_def)
  have "intact W (vt_dek V) (AList.update key e (vt_secrets V))"
    using intact_update[OF vault_wf_intact[OF assms(2)]] e(2) d(1) by simp
  then have wf: "vault_wf W ?V"
    using assms(2) by (simp add: vault_wf_iff)
  let ?m = "\<lparr>vm_version = vault_version, vm_wrapped_dek = w, vm_secrets = vt_secrets ?V, vm_checksum = None\<rparr>"
  have "store_secret W key val (V, h) = (Inr (), ?V, write_vault_file (vt_path V) ?m ?h2)"
    using e w by (simp add: store_secret_def Let_def)
  then show ?thesis
    using t wf w(2) same
    by (intro exI[of _ ?V] exI[of _ "write_vault_file (vt_path V) ?m ?h2"] conjI exI[of _ ?m]) (simp_all add: write_vault_file_def)
qed

lemma set_secret_spec:
  assumes "gcm_ok W" "vault_wf W V"
  shows "\<exists>V' h'. set_secret W key val (V, h) = (Inr (), V', h')
     \<and> (\<exists>m. map_of (hs_files h') (vt_path V) = Some (Doc (metadata_json m)) \<and> vm_checksum m = None
            \<and> vm_secrets m = vt_secrets V' \<and> vault_decrypt W (vm_wrapped_dek m) (Some (vt_kek V)) = Inr (dek_text V))
     \<and> secret_of W V' = (secret_of W V)(key \<mapsto> val) \<and> vault_wf W V' \<and> vt_dek V' = vt_dek V \<and> vt_kek V' = vt_kek V
     \<and> vt_cache V' = vt_cache V \<and> vt_path V' = vt_path V \<and> hs_env h' = hs_env h
     \<and> (\<forall>p. p \<noteq> vt_path V \<longrightarrow> map_of (hs_files h') p = map_of (hs_files h) p)"
proof -
  obtain V' h' where st: "store_secret W key val (V, h) = (Inr (), V', h')"
    "\<exists>m. map_of (hs_files h') (vt_path V) = Some (Doc (metadata_json m)) \<and> vm_checksum m = None
            \<and> vm_secrets m = vt_secrets V' \<and> vault_decrypt W (vm_wrapped_dek m) (Some (vt_kek V)) = Inr (dek_text V)"
    "secret_of W V' = (secret_of W V)(key \<mapsto> val)" "vault_wf W V'" "vt_dek V' = vt_dek V" "vt_kek V' = vt_kek V"
    "vt_cache V' = vt_cache V" "vt_path V' = vt_path V" "hs_env h' = hs_env h"
    "\<forall>p. p \<noteq> vt_path V \<longrightarrow> map_of (hs_files h') p = map_of (hs_files h) p"
    using store_secret_spec[OF assms] by blast
  have "set_secret W key val (V, h) = (Inr (), V', register_secret_for_redaction val h')"
    using assms(2) st(1) by (simp add: set_secret_def vault_wf_def)
  then show ?thesis using st by auto
qed

subsection \<open>Synchronising\<close>

lemma sync_targets_spec:
  assumes "gcm_ok W" "length dek = 32" "intact W (Some dek) secrets"
  shows "\<exists>secrets' h'. sync_targets W dek env ks secrets h = (Inr secrets', h') \<and> intact W (Some dek) secrets'
     \<and> hs_files h' = hs_files h \<and> hs_env h' = hs_env h
     \<and> (\<forall>k. envelope_text W (Some dek) secrets' k
             = (if k \<in> set ks \<and> map_of env k \<noteq> None then map_of env k else envelope_text W (Some dek) secrets k))"
  using assms(3)
proof (induction ks arbitrary: secrets h)
  case (Cons k ks)
  show ?case
  proof (cases "map_of env k")
    case None
    obtain s2 h2 where i: "sync_targets W dek env ks secrets h = (Inr s2, h2)" "intact W (Some dek) s2"
      "hs_files h2 = hs_files h" "hs_env h2 = hs_env h"
      "\<forall>x. envelope_text W (Some dek) s2 x
             = (if x \<in> set ks \<and> map_of env x \<noteq> None then map_of env x else envelope_text W (Some dek) secrets x)"
      using Cons.IH[OF Cons.prems, of h] by blast
    show ?thesis
      using None i(1-4) by (intro exI[of _ s2] exI[of _ h2]) (simp add: i(5) del: map_of_eq_None_iff)
  next
    case (Some raw)
    show ?thesis
    proof (cases "should_update W dek (map_of secrets k) raw")
      case True
      let ?h1 = "h\<lparr>hs_draws := Suc (hs_draws h)\<rparr>"
      obtain e where e: "vault_encrypt W raw (Some dek) h = (Inr e, ?h1)" "vault_decrypt W e (Some dek) = Inr raw"
        using encrypt_spec[OF assms(1,2)] by metis
      have "intact W (Some dek) (AList.update k e secrets)" using intact_update[OF Cons.prems e(2)] .
      then obtain s2 h2 where i: "sync_targets W dek env ks (AList.update k e secrets) ?h1 = (Inr s2, h2)" "intact W (Some dek) s2"
        "hs_files h2 = hs_files ?h1" "hs_env h2 = hs_env ?h1"
        "\<forall>x. envelope_text W (Some dek) s2 x
             = (if x \<in> set ks \<and> map_of env x \<noteq> None then map_of env x else envelope_text W (Some dek) (AList.update k e secrets) x)"
        using Cons.IH[of "AList.update k e secrets" ?h1] by blast
      show ?thesis
        using Some True e(1) i(1-4)
        by (intro exI[of _ s2] exI[of _ h2]) (simp add: i(5) text_update[OF e(2)] del: map_of_eq_None_iff)
    next
      case False
      then have "envelope_text W (Some dek) secrets k = Some raw"
        by (auto simp: should_update_def envelope_text_def split: option.splits sum.splits)
      moreover obtain s2 h2 where i: "sync_targets W dek env ks secrets h = (Inr s2, h2)" "intact W (Some dek) s2"
        "hs_files h2 = hs_files h" "hs_env h2 = hs_env h"
        "\<forall>x. envelope_text W (Some dek) s2 x
             = (if x \<in> set ks \<and> map_of env x \<noteq> None then map_of env x else envelope_text W (Some dek) secrets x)"
        using Cons.IH[OF Cons.prems, of h] by blast
      ultimately show ?thesis
        using Some False i(1-4) by (intro exI[of _ s2] exI[of _ h2]) (simp add: i(5) del: map_of_eq_None_iff)
    qed
  qed
qed (auto simp: assms)

text \<open>What the sources make of the secrets.\<close>

definition synced :: "string list \<Rightarrow> (string, string) jsmap option \<Rightarrow> (string \<Rightarrow> string option) \<Rightarrow> string \<Rightarrow> string option" where
  "synced targets src old k =
     (case src of
        None \<Rightarrow> old k
      | Some env \<Rightarrow> if k \<in> set targets then (case map_of env k of Some raw \<Rightarrow> Some raw | None \<Rightarrow> old k) else None)"

lemma load_vault_spec:
  assumes "gcm_ok W" "length dek = 32" "intact W (Some dek) (vm_secrets m)" "vm_checksum m = None"
    and "vault_decrypt W (vm_wrapped_dek m) (Some kek) = Inr (base64_encode dek)"
    and "load_sources opts project h = Inr src"
  shows "\<exists>secrets h'. load_vault W opts project kek path (Doc (metadata_json m)) h = (Inr (dek, secrets), h')
     \<and> intact W (Some dek) secrets \<and> envelope_text W (Some dek) secrets = synced (target_keys opts) src (envelope_text W (Some dek) (vm_secrets m))"
proof (cases src)
  case None
  then show ?thesis
    using assms by (auto simp: load_vault_def load_body_def synced_def fun_eq_iff)
next
  case (Some env)
  let ?ts = "target_keys opts"
  obtain s1 h1 where s: "sync_targets W dek env ?ts (vm_secrets m) h = (Inr s1, h1)" "intact W (Some dek) s1"
    "\<forall>k. envelope_text W (Some dek) s1 k
             = (if k \<in> set ?ts \<and> map_of env k \<noteq> None then map_of env k else envelope_text W (Some dek) (vm_secrets m) k)"
    using sync_targets_spec[OF assms(1-3)] by blast
  let ?kept = "filter (\<lambda>(k, _). k \<in> set ?ts) s1"
  have "envelope_text W (Some dek) ?kept = synced ?ts (Some env) (envelope_text W (Some dek) (vm_secrets m))"
    using s(3) by (auto simp: fun_eq_iff text_kept synced_def simp del: map_of_eq_None_iff split: option.splits)
  moreover have "\<exists>h'. load_vault W opts project kek path (Doc (metadata_json m)) h = (Inr (dek, ?kept), h')"
    using assms s(1) Some by (simp add: load_vault_def load_body_def sync_vault_def Let_def)
  ultimately show ?thesis using intact_kept[OF s(2)] Some by blast
qed

text \<open>Where a later vault finds the file: the same path, and the same key encryption key given as bytes.\<close>

definition same_place :: "vault_world \<Rightarrow> vault_options \<Rightarrow> vault \<Rightarrow> host \<Rightarrow> bool" where
  "same_place W opts V h \<longleftrightarrow>
     vault_file_path opts (vault_project W opts) h = vt_path V \<and> vo_kek opts = Some (KekBytes (vt_kek V))"

lemma vault_open_spec:
  assumes "gcm_ok W" "vault_wf W V" "vault_wf W V'" "vt_dek V' = vt_dek V" "vt_kek V' = vt_kek V"
    and "map_of (hs_files h) (vt_path V) = Some (Doc (metadata_json m))" "vm_checksum m = None" "vm_secrets m = vt_secrets V'"
    and "vault_decrypt W (vm_wrapped_dek m) (Some (vt_kek V)) = Inr (dek_text V)"
    and "same_place W opts V h" "load_sources opts (vault_project W opts) h = Inr src"
  shows "\<exists>V2 h2. vault_open W opts h = (Inr V2, h2) \<and> vault_wf W V2 \<and> vt_cache V2 = []
     \<and> secret_of W V2 = synced (target_keys opts) src (secret_of W V')"
proof -
  obtain d where d: "vt_dek V = Some d" "length d = 32" using assms(2) by (auto simp: vault_wf_def)
  have kek: "length (vt_kek V) = 32" using assms(2) by (simp add: vault_wf_def)
  have i: "intact W (Some d) (vm_secrets m)" using vault_wf_intact[OF assms(3)] assms(4,8) d(1) by simp
  have dec: "vault_decrypt W (vm_wrapped_dek m) (Some (vt_kek V)) = Inr (base64_encode d)"
    using assms(9) d(1) by (simp add: dek_text_def)
  obtain secrets h' where l: "load_vault W opts (vault_project W opts) (vt_kek V) (vt_path V) (Doc (metadata_json m)) h = (Inr (d, secrets), h')"
    "intact W (Some d) secrets" "envelope_text W (Some d) secrets = synced (target_keys opts) src (envelope_text W (Some d) (vm_secrets m))"
    using load_vault_spec[OF assms(1) d(2) i assms(7) dec assms(11)] by blast
  let ?V = "vault_of opts (vt_path V) (vt_kek V) d secrets"
  have "vault_open W opts h = (Inr ?V, h')"
    using assms(6,10) l(1) kek
    by (simp add: vault_open_def Let_def same_place_def resolve_kek_def kek_given_def validate_key_size_def required_key_bytes_def)
  moreover have "vault_wf W ?V"
    using kek d(2) l(2) by (simp add: vault_wf_iff vault_of_def)
  moreover have "secret_of W ?V = synced (target_keys opts) src (secret_of W V')"
    using l(3) assms(4,8) d(1) by (simp add: secret_of_def vault_of_def)
  ultimately show ?thesis by (auto simp: vault_of_def)
qed

text \<open>What a vault resolves a key to: what the schema put into the cache, else the secret it holds.\<close>

definition resolved_as :: "(string \<times> jsval) list \<Rightarrow> (string \<Rightarrow> string option) \<Rightarrow> string \<Rightarrow> vault_error + string" where
  "resolved_as data f k =
     (case map_of (cache_values data []) k of
        Some s \<Rightarrow> Inr s
      | None \<Rightarrow> (case f k of Some s \<Rightarrow> Inr s | None \<Rightarrow> Inl (SecretNotFound k)))"

text \<open>What a new vault is that opened with the secrets \<open>f\<close>: the schema, if there is one, checks an object
  that shows them all, and its failure is the failure of the constructor; else the vault resolves each key.\<close>

definition started_with :: "vault_world \<Rightarrow> vault_schema option \<Rightarrow> (string \<Rightarrow> string option) \<Rightarrow> vault_error + vault \<Rightarrow> bool" where
  "started_with W schema f result \<longleftrightarrow>
     (\<exists>obj. shows_store f obj
        \<and> (case schema_verdict schema obj of
             Inl e \<Rightarrow> result = Inl e
           | Inr data \<Rightarrow> (\<exists>V2. result = Inr V2 \<and> (\<forall>k h2. fst (resolve_secret_jit W k (V2, h2)) = resolved_as data f k))))"

lemma vault_new_reads:
  assumes "vault_open W opts h = (Inr V, h1)" "vault_wf W V" "vt_cache V = []"
  shows "started_with W (vo_schema opts) (secret_of W V) (fst (vault_new W opts c h))"
proof -
  have "cache_sound W V" using assms(3) by (simp add: cache_sound_def)
  from validate_runs[OF this assms(2)] obtain obj V2 h2 where v: "same_store V V2" "cache_sound W V2" "shows_store (secret_of W V) obj"
    "validate_schema W (vo_schema opts) c (V, h1) = (case schema_verdict (vo_schema opts) obj of
       Inl e \<Rightarrow> (Inl e, V2, h2)
     | Inr data \<Rightarrow> (Inr (), V2\<lparr>vt_cache := cache_values data (vt_cache V2)\<rparr>, h2))" by blast
  have wf: "vault_wf W V2" using same_store_wf[OF v(1)] assms(2) by simp
  have so: "secret_of W V2 = secret_of W V" using same_store_secret_of[OF v(1)] .
  have plain: "fst (resolve_secret_jit W k (V2, h)) = (case secret_of W V k of Some s \<Rightarrow> Inr s | None \<Rightarrow> Inl (SecretNotFound k))" for k h
  proof (cases "secret_of W V k")
    case (Some s)
    then show ?thesis using jit_result[OF v(2), of k s h] wf so by (simp add: vault_wf_def)
  next
    case None
    then have "map_of (vt_secrets V2) k = None"
      using wf so unfolding vault_wf_def by (metis map_of_eq_None_iff image_set)
    moreover have "map_of (vt_cache V2) k = None" using v(2) None so unfolding cache_sound_def by (metis option.distinct(1) option.exhaust)
    ultimately show ?thesis using None wf by (simp add: resolve_secret_jit_def vault_wf_def)
  qed
  have read: "fst (resolve_secret_jit W k (V2\<lparr>vt_cache := cache_values data (vt_cache V2)\<rparr>, h)) = resolved_as data (secret_of W V) k" for data k h
  proof (cases "map_of (cache_values data []) k")
    case (Some s)
    then show ?thesis by (simp add: resolve_secret_jit_def resolved_as_def cache_values_map[of data "vt_cache V2"])
  next
    case None
    then have "map_of (cache_values data (vt_cache V2)) k = map_of (vt_cache V2) k"
      by (simp add: cache_values_map[of data "vt_cache V2"])
    then have "fst (resolve_secret_jit W k (V2\<lparr>vt_cache := cache_values data (vt_cache V2)\<rparr>, h)) = fst (resolve_secret_jit W k (V2, h))"
      by (simp add: resolve_secret_jit_def split: option.split sum.split)
    then show ?thesis using None plain[of k h] by (simp add: resolved_as_def)
  qed
  show ?thesis unfolding started_with_def
    by (rule exI[of _ obj]) (use assms(1) v(3,4) read in \<open>auto simp: vault_new_def split: sum.split\<close>)
qed

end
