(* ===== verification/Vault_Access.thy ===== *)
theory Vault_Access
  imports Vault_Persist
begin

text \<open>
  Who reads the secrets of a vault: runs of its operations, the policy, sealing, and the redaction of the output
  streams.
\<close>

datatype vault_op =
    Resolve "string option" string
  | EnvGet caller string
  | SetSecret string string
  | Rotate string string
  | Remove string
  | EnvSet string string
  | EnvDelete string
  | Seal

datatype vault_reply = Read "vault_error + shown option" | Wrote "vault_error + unit"

fun vault_step :: "vault_world \<Rightarrow> vault_op \<Rightarrow> vault_state \<Rightarrow> vault_reply \<times> vault_state" where
  "vault_step W (Resolve store k) S =
     (case resolve_secret W store k S of (r, S1) \<Rightarrow> (Read (map_sum id (Some \<circ> Shown) r), S1))"
| "vault_step W (EnvGet c k) S = (case env_get W c k S of (r, S1) \<Rightarrow> (Read r, S1))"
| "vault_step W (SetSecret k v) S = (case set_secret W k v S of (r, S1) \<Rightarrow> (Wrote r, S1))"
| "vault_step W (Rotate k v) S = (Wrote (Inr ()), rotate_secret W k v S)"
| "vault_step W (Remove k) S = (Wrote (Inr ()), remove_secret k S)"
| "vault_step W (EnvSet k v) S = (Wrote (Inr ()), env_set W k v S)"
| "vault_step W (EnvDelete k) S = (Wrote (Inr ()), env_delete k S)"
| "vault_step W Seal S = (Wrote (Inr ()), vault_seal S)"

definition vault_run :: "vault_world \<Rightarrow> vault_op list \<Rightarrow> vault_state \<Rightarrow> vault_state" where
  "vault_run W ops S = fold (\<lambda>x T. snd (vault_step W x T)) ops S"

lemma vault_run_snoc: "vault_run W (ops @ [x]) S = snd (vault_step W x (vault_run W ops S))"
  by (simp add: vault_run_def)

subsection \<open>The policy\<close>

definition permits :: "vault_policy \<Rightarrow> string \<Rightarrow> string \<Rightarrow> bool" where
  "permits p m k \<longleftrightarrow>
     (case (case map_of p m of Some r \<Rightarrow> Some r | None \<Rightarrow> map_of p ''*'') of
        None \<Rightarrow> False | Some allow \<Rightarrow> k \<in> set allow \<or> ''*'' \<in> set allow)"

lemma allowed_iff:
  "pe_policy (vt_engine V) \<noteq> [] \<Longrightarrow> vault_is_allowed m k (V, h) = (permits (pe_policy (vt_engine V)) m k, V, h)"
  by (auto simp: vault_is_allowed_def policy_is_allowed_def permits_def split: option.splits)

lemma store_keeps_policy:
  assumes "store_secret W k v (V, h) = (r, V', h')"
  shows "vt_engine V' = vt_engine V" "vt_sealed V' = vt_sealed V" "vt_dek V' = vt_dek V" "vt_cache V' = vt_cache V"
  using assms by (auto simp: store_secret_def Let_def split: prod.splits sum.splits)

lemma rotate_keeps_policy: "pe_policy (vt_engine (fst (rotate_secret W k v S))) = pe_policy (vt_engine (fst S))"
proof -
  obtain V h where S: "S = (V, h)" by (metis prod.exhaust)
  let ?T = "(V\<lparr>vt_cache := AList.update k v (vt_cache V)\<rparr>, register_secret_for_redaction v (forget_value k S))"
  obtain r V2 h2 where st: "store_secret W k v ?T = (r, V2, h2)" by (metis prod.exhaust)
  show ?thesis using S st store_keeps_policy(1)[OF st] by (simp add: rotate_secret_def Let_def)
qed

lemma resolve_keeps_policy: "pe_policy (vt_engine (fst (snd (resolve_secret W st k S)))) = pe_policy (vt_engine (fst S))"
proof -
  obtain V h where S: "S = (V, h)" by (metis prod.exhaust)
  obtain b V1 h1 where a: "vault_is_allowed (scope_or ''default'' st) k (V, h) = (b, V1, h1)" by (metis prod.exhaust)
  obtain r V2 h2 where j: "resolve_secret_jit W k (V1, h1) = (r, V2, h2)" by (metis prod.exhaust)
  show ?thesis
    using S a j allowed_keeps(1)[OF a] jit_keeps(1)[OF j] by (simp add: resolve_secret_def same_store_def)
qed

lemma step_keeps_policy: "pe_policy (vt_engine (fst (snd (vault_step W x S)))) = pe_policy (vt_engine (fst S))"
proof -
  obtain V h where S: "S = (V, h)" by (metis prod.exhaust)
  show ?thesis
  proof (cases x)
    case (Resolve st k)
    obtain r V1 h1 where g: "resolve_secret W st k S = (r, V1, h1)" by (metis prod.exhaust)
    show ?thesis using Resolve g resolve_keeps_policy[of W st k S] by simp
  next
    case (EnvGet c k)
    obtain r V1 h1 where g: "env_get W c k (V, h) = (r, V1, h1)" by (metis prod.exhaust)
    show ?thesis using EnvGet S g env_get_keeps(1)[OF g] by (simp add: same_store_def)
  next
    case (SetSecret k v)
    then show ?thesis
      using S by (cases "store_secret W k v (V, h)") (auto simp: set_secret_def step_bind_def dest: store_keeps_policy split: prod.splits sum.splits)
  qed (auto simp: S rotate_keeps_policy[of W _ _ "(V, h)", simplified] remove_secret_def env_set_def env_delete_def vault_seal_def Let_def)
qed

lemma run_keeps_policy: "pe_policy (vt_engine (fst (vault_run W ops S))) = pe_policy (vt_engine (fst S))"
  by (induction ops rule: rev_induct) (simp_all add: vault_run_snoc step_keeps_policy, simp add: vault_run_def)

subsection \<open>Sealing\<close>

definition assigned :: "vault_op list \<Rightarrow> string \<Rightarrow> string \<Rightarrow> bool" where
  "assigned ops k s \<longleftrightarrow> Rotate k s \<in> set ops \<or> EnvSet k s \<in> set ops"

definition sealed_since :: "(string, host_file) jsmap \<Rightarrow> vault_op list \<Rightarrow> vault_state \<Rightarrow> bool" where
  "sealed_since files ops S \<longleftrightarrow>
     vt_sealed (fst S) \<and> vt_dek (fst S) = None \<and> hs_files (snd S) = files
     \<and> (\<forall>k s. map_of (vt_cache (fst S)) k = Some s \<longrightarrow> assigned ops k s)"

lemma assigned_snoc: "assigned ops k s \<Longrightarrow> assigned (ops @ [x]) k s"
  by (auto simp: assigned_def)

lemma sealed_jit:
  "vt_sealed V \<Longrightarrow> resolve_secret_jit W k (V, h)
     = ((case map_of (vt_cache V) k of Some s \<Rightarrow> Inr s | None \<Rightarrow> Inl (VaultSealed k)), V, h)"
  by (auto simp: resolve_secret_jit_def split: option.split)

lemma forget_files [simp]: "hs_files (forget_value k S) = hs_files (snd S)"
  by (simp add: forget_value_def unregister_secret_for_redaction_def split: option.split)

lemma sealed_rotate:
  assumes "vt_sealed V"
  shows "rotate_secret W k v (V, h) = (V\<lparr>vt_cache := AList.update k v (vt_cache V)\<rparr>, register_secret_for_redaction v (forget_value k (V, h)))"
  using assms by (simp add: rotate_secret_def Let_def)

lemma sealed_allowed:
  assumes "vault_is_allowed m k (V, h) = (b, V', h')"
  shows "vt_sealed V' = vt_sealed V" "vt_dek V' = vt_dek V" "vt_cache V' = vt_cache V" "hs_files h' = hs_files h"
  using allowed_keeps[OF assms] by (simp_all add: same_store_def)

lemma sealed_step:
  assumes "sealed_since files ops S"
  shows "sealed_since files (ops @ [x]) (snd (vault_step W x S))"
proof -
  obtain V h where S: "S = (V, h)" by (metis prod.exhaust)
  note inv = assms[unfolded sealed_since_def S fst_conv snd_conv]
  have keep: "sealed_since files (ops @ [x]) T"
    if "vt_sealed (fst T)" "vt_dek (fst T) = None" "hs_files (snd T) = files"
      "\<forall>k s. map_of (vt_cache (fst T)) k = Some s \<longrightarrow> map_of (vt_cache V) k = Some s \<or> x = Rotate k s \<or> x = EnvSet k s" for T
    using that inv by (auto simp: sealed_since_def assigned_def)
  show ?thesis
  proof (cases x)
    case (Resolve st k)
    obtain b V1 h1 where a: "vault_is_allowed (scope_or ''default'' st) k (V, h) = (b, V1, h1)" by (metis prod.exhaust)
    note al = sealed_allowed[OF a]
    have "snd (vault_step W x S) = (V1, h1)" using Resolve S a al(1) inv by (simp add: resolve_secret_def sealed_jit split: if_splits)
    then show ?thesis using keep[of "(V1, h1)"] al inv by simp
  next
    case (EnvGet c k)
    obtain b V1 h1 where a: "vault_is_allowed (get_caller_module_name c) k (V, h) = (b, V1, h1)" by (metis prod.exhaust)
    note al = sealed_allowed[OF a]
    have "\<exists>h2. snd (vault_step W x S) = (V1, h2) \<and> hs_files h2 = hs_files h1 \<or> snd (vault_step W x S) = (V, h)"
      using EnvGet S a al(1) inv by (auto simp: env_get_def sealed_jit step_bind_def split: option.splits)
    then show ?thesis using keep[of "snd (vault_step W x S)"] al inv by auto
  next
    case (Rotate k v)
    then have "snd (vault_step W x S) = (V\<lparr>vt_cache := AList.update k v (vt_cache V)\<rparr>, register_secret_for_redaction v (forget_value k (V, h)))"
      using S inv by (simp add: sealed_rotate)
    then show ?thesis using keep[of "snd (vault_step W x S)"] Rotate inv by (auto split: if_splits)
  next
    case (EnvSet k v)
    then have "snd (vault_step W x S) = env_set W k v (V, h)" using S by simp
    then show ?thesis using keep[of "snd (vault_step W x S)"] EnvSet inv
      by (auto simp: env_set_def sealed_rotate Let_def split: if_splits)
  qed (use keep[of "snd (vault_step W x S)"] S inv in \<open>auto simp: set_secret_def remove_secret_def env_delete_def vault_seal_def Let_def split: if_splits\<close>)
qed

lemma sealed_run: "\<not> vt_sealed (fst S) \<Longrightarrow> sealed_since (hs_files (snd S)) ops (vault_run W ops (vault_seal S))"
proof (induction ops rule: rev_induct)
  case Nil
  then show ?case by (cases S) (simp add: sealed_since_def vault_seal_def vault_run_def)
next
  case (snoc x ops)
  then show ?case using sealed_step by (simp add: vault_run_snoc)
qed

end
