(* ===== verification/Vault_Redact.thy ===== *)
theory Vault_Redact
  imports Vault_Access
begin

text \<open>
  What the redaction of the output streams hides, the instances of the properties of the vault on a concrete
  world, and the behaviours that the code's comments and documents describe otherwise.
\<close>

subsection \<open>Redaction\<close>

lemma redacted_prefix:
  "prefix (map Some x) (redact_from n secrets s) \<Longrightarrow> prefix x s"
proof (induction n arbitrary: s x)
  case (Suc n)
  show ?case
  proof (cases x)
    case (Cons a x')
    then obtain c s' where s: "s = c # s'" using Suc.prems by (cases s) auto
    show ?thesis
    proof (cases "first_secret secrets (c # s')")
      case None
      then have "a = c" "prefix (map Some x') (redact_from n secrets s')" using Suc.prems Cons s by auto
      then show ?thesis using Suc.IH Cons s by simp
    qed (use Suc.prems Cons s in simp)
  qed simp
qed simp

lemma first_secret_None: "first_secret secrets s = None \<longleftrightarrow> (\<forall>x \<in> set secrets. \<not> prefix x s)"
  by (auto simp: first_secret_def find_None_iff)

lemma redact_from_hides:
  assumes "x \<in> set secrets" "x \<noteq> []"
  shows "\<not> sublist (map Some x) (redact_from n secrets s)"
proof (induction n arbitrary: s)
  case (Suc n)
  show ?case
  proof (cases s)
    case (Cons c s')
    show ?thesis
    proof (cases "first_secret secrets (c # s')")
      case None
      then have "\<not> prefix x (c # s')" using assms(1) first_secret_None by blast
      then have "\<not> prefix (map Some x) (redact_from (Suc n) secrets s)" using redacted_prefix Cons by blast
      then show ?thesis using None Cons Suc.IH[of s'] by (simp add: sublist_Cons_right)
    next
      case (Some y)
      have "\<not> prefix (map Some x) (None # r)" for r using assms(2) by (cases x) auto
      then show ?thesis using Some Cons Suc.IH by (simp add: sublist_Cons_right)
    qed
  qed (use assms(2) in simp)
qed (use assms(2) in simp)

lemma stream_redact_hides:
  assumes "x \<in> set (hs_redacted h)" "x \<noteq> []"
  shows "\<not> sublist (map Some x) (stream_redact h s)"
  using assms redact_from_hides by (auto simp: stream_redact_def)

text \<open>The operations that take a value out of the registry: the ones that replace or remove the key it is
  cached under.\<close>

fun forgets_key :: "vault_op \<Rightarrow> string option" where
  "forgets_key (Rotate k v) = Some k"
| "forgets_key (Remove k) = Some k"
| "forgets_key (EnvSet k v) = Some k"
| "forgets_key (EnvDelete k) = Some k"
| "forgets_key _ = None"

fun never_forgotten :: "vault_world \<Rightarrow> string \<Rightarrow> vault_op list \<Rightarrow> vault_state \<Rightarrow> bool" where
  "never_forgotten W s [] S = True"
| "never_forgotten W s (x # ops) S =
     ((case forgets_key x of Some k \<Rightarrow> map_of (vt_cache (fst S)) k \<noteq> Some s | None \<Rightarrow> True)
      \<and> never_forgotten W s ops (snd (vault_step W x S)))"

lemma register_keeps: "s \<in> set (hs_redacted h) \<Longrightarrow> s \<in> set (hs_redacted (register_secret_for_redaction v h))"
  by (simp add: register_secret_for_redaction_def set_add_def)

lemma forget_keeps:
  "s \<in> set (hs_redacted (snd S)) \<Longrightarrow> map_of (vt_cache (fst S)) k \<noteq> Some s \<Longrightarrow> s \<in> set (hs_redacted (forget_value k S))"
  by (auto simp: forget_value_def unregister_secret_for_redaction_def split: option.split)

lemma encrypt_redacted: "vault_encrypt W v dek h = (r, h') \<Longrightarrow> hs_redacted h' = hs_redacted h"
  by (auto simp: vault_encrypt_def random_draw_def Let_def split: option.splits prod.splits if_splits sum.splits)

lemma store_redacted: "hs_redacted (snd (snd (store_secret W k v S))) = hs_redacted (snd S)"
proof -
  obtain V h where S: "S = (V, h)" by (metis prod.exhaust)
  obtain r1 h1 where e1: "vault_encrypt W v (vt_dek V) h = (r1, h1)" by (metis prod.exhaust)
  show ?thesis
  proof (cases r1)
    case (Inl e)
    then show ?thesis using S e1 encrypt_redacted[OF e1] by (simp add: store_secret_def)
  next
    case (Inr env)
    let ?V1 = "V\<lparr>vt_secrets := AList.update k env (vt_secrets V)\<rparr>"
    obtain r2 h2 where e2: "vault_encrypt W (dek_text ?V1) (Some (vt_kek ?V1)) h1 = (r2, h2)" by (metis prod.exhaust)
    show ?thesis using S e1 e2 Inr encrypt_redacted[OF e1] encrypt_redacted[OF e2]
      by (cases r2) (simp_all add: store_secret_def Let_def write_vault_file_def)
  qed
qed

lemma jit_redacted:
  assumes "resolve_secret_jit W k (V, h) = (r, V', h')" "s \<in> set (hs_redacted h)"
  shows "s \<in> set (hs_redacted h')"
  using assms by (auto simp: resolve_secret_jit_def register_keeps split: option.splits if_splits sum.splits)

lemma env_get_redacted:
  assumes "s \<in> set (hs_redacted (snd S))"
  shows "s \<in> set (hs_redacted (snd (snd (env_get W c k S))))"
proof -
  obtain V h where S: "S = (V, h)" by (metis prod.exhaust)
  obtain b V1 h1 where a: "vault_is_allowed (get_caller_module_name c) k (V, h) = (b, V1, h1)" by (metis prod.exhaust)
  obtain r V2 h2 where j: "resolve_secret_jit W k (V1, h1) = (r, V2, h2)" by (metis prod.exhaust)
  have "s \<in> set (hs_redacted h1)" using assms S allowed_keeps(5)[OF a] by simp
  note h = this jit_redacted[OF j this] register_keeps
  show ?thesis using S a j h assms by (cases r) (auto simp: env_get_def)
qed

lemma rotate_redacted:
  assumes "s \<in> set (hs_redacted (snd S))" "map_of (vt_cache (fst S)) k \<noteq> Some s"
  shows "s \<in> set (hs_redacted (snd (rotate_secret W k v S)))"
  using register_keeps[OF forget_keeps[OF assms]] by (simp add: rotate_secret_def Let_def store_redacted)

lemma step_redacted:
  assumes "s \<in> set (hs_redacted (snd S))"
    and "case forgets_key x of Some k \<Rightarrow> map_of (vt_cache (fst S)) k \<noteq> Some s | None \<Rightarrow> True"
  shows "s \<in> set (hs_redacted (snd (snd (vault_step W x S))))"
proof (cases x)
  case (Resolve st k)
  obtain V h where S: "S = (V, h)" by (metis prod.exhaust)
  obtain b V1 h1 where a: "vault_is_allowed (scope_or ''default'' st) k (V, h) = (b, V1, h1)" by (metis prod.exhaust)
  obtain r V2 h2 where j: "resolve_secret_jit W k (V1, h1) = (r, V2, h2)" by (metis prod.exhaust)
  have "s \<in> set (hs_redacted h1)" using assms(1) S allowed_keeps(5)[OF a] by simp
  then show ?thesis using Resolve S a j jit_redacted[OF j] by (simp add: resolve_secret_def)
next
  case (EnvGet c k)
  then show ?thesis using env_get_redacted[OF assms(1)] by (simp add: case_prod_beta)
next
  case (SetSecret k v)
  obtain r V h where st: "store_secret W k v S = (r, V, h)" by (metis prod.exhaust)
  have "s \<in> set (hs_redacted h)" using store_redacted[of W k v S] st assms(1) by simp
  then show ?thesis using SetSecret st assms(1) register_keeps
    by (cases r) (simp_all add: set_secret_def step_bind_def)
next
  case (Rotate k v)
  then show ?thesis using rotate_redacted[OF assms(1), of k] assms(2) by simp
next
  case (Remove k)
  then show ?thesis using forget_keeps[OF assms(1), of k] assms(2) by (simp add: remove_secret_def)
next
  case (EnvSet k v)
  then show ?thesis using rotate_redacted[OF assms(1), of k] assms by (simp add: env_set_def Let_def)
next
  case (EnvDelete k)
  then show ?thesis using forget_keeps[OF assms(1), of k] assms by (simp add: env_delete_def remove_secret_def Let_def)
next
  case Seal
  then show ?thesis using assms(1) by (simp add: vault_seal_def case_prod_beta)
qed

lemma run_redacted:
  "s \<in> set (hs_redacted (snd S)) \<Longrightarrow> never_forgotten W s ops S \<Longrightarrow> s \<in> set (hs_redacted (snd (vault_run W ops S)))"
proof (induction ops arbitrary: S)
  case (Cons x ops)
  then have "s \<in> set (hs_redacted (snd (snd (vault_step W x S))))" using step_redacted by simp
  from Cons.IH[OF this] Cons.prems(2) show ?case by (simp add: vault_run_def)
qed (simp add: vault_run_def)

text \<open>C32. A secret of at least four characters that \<open>process.env\<close> has shown to some module is hidden from then
  on, whatever else is done with the vault and whatever else is registered, as long as no key that is cached
  with that very value is rotated, set or removed: no text written to the output streams in one piece
  shows it.\<close>

theorem shown_secret_redacted:
  assumes "has_secret (fst S) k" "env_get W c k S = (Inr (Some (Shown s)), S')" "4 \<le> length s"
    and "never_forgotten W s ops S'"
  shows "\<not> sublist (map Some s) (stream_redact (snd (vault_run W ops S')) text)"
proof -
  obtain V h where S: "S = (V, h)" by (metis prod.exhaust)
  obtain b V1 h1 where a: "vault_is_allowed (get_caller_module_name c) k (V, h) = (b, V1, h1)" by (metis prod.exhaust)
  obtain r V2 h2 where j: "resolve_secret_jit W k (V1, h1) = (r, V2, h2)" by (metis prod.exhaust)
  have b: b using assms(1,2) S a by (cases b) (simp_all add: env_get_def)
  then have "r = Inr s" "snd S' = register_secret_for_redaction s h2"
    using assms(1,2) S a j by (cases r; auto simp: env_get_def)+
  then have "s \<in> set (hs_redacted (snd S'))" using assms(3) by (simp add: register_secret_for_redaction_def)
  from stream_redact_hides[OF run_redacted[OF this assms(4)]] show ?thesis using assms(3) by fastforce
qed

text \<open>What stays visible: the rest of a longer secret when a prefix of it was registered first, and a secret
  that is written in two pieces.\<close>

lemma redaction_prefix_leak:
  "redact_from 9 [''abcd'', ''abcdefgh''] ''abcdefgh'' = None # map Some ''efgh''"
  by code_simp

lemma redaction_split_leak:
  "redact_from 9 [''abcdefgh''] ''abcd'' @ redact_from 9 [''abcdefgh''] ''efgh'' = map Some ''abcdefgh''"
  by code_simp

text \<open>Rotating one of two secrets with the same value makes the other one visible again.\<close>

lemma rotation_unregisters_shared:
  assumes "vt_sealed V" "map_of (vt_cache V) a = Some s" "s \<noteq> []" "length v < 4"
  shows "s \<notin> set (hs_redacted (snd (rotate_secret W a v (V, h))))"
  using assms by (simp add: sealed_rotate forget_value_def unregister_secret_for_redaction_def register_secret_for_redaction_def)

text \<open>A value that the schema put into the cache is given out without being registered.\<close>

lemma cached_value_unregistered:
  "map_of (vt_cache V) k = Some s \<Longrightarrow> resolve_secret_jit W k (V, h) = (Inr s, V, h)"
  by (simp add: resolve_secret_jit_def)

subsection \<open>Setting a secret that has been read\<close>

text \<open>The README says that \<open>setSecret\<close> caches the value; it does not, so a secret that was read before keeps
  its old value for this process while the file has the new one.\<close>

lemma set_secret_stale:
  assumes "gcm_ok W" "vault_wf W V" "map_of (vt_cache V) k = Some old"
  shows "\<exists>V' h'. set_secret W k new (V, h) = (Inr (), V', h') \<and> secret_of W V' k = Some new
     \<and> fst (resolve_secret_jit W k (V', h')) = Inr old"
proof -
  obtain V' h' where "set_secret W k new (V, h) = (Inr (), V', h')" "secret_of W V' = (secret_of W V)(k \<mapsto> new)" "vt_cache V' = vt_cache V"
    using set_secret_spec[OF assms(1,2), of k new h] by blast
  then show ?thesis using assms(3) by (simp add: resolve_secret_jit_def)
qed

text \<open>A policy with the wildcard lets modules read every secret, but names no key to import.\<close>

lemma wildcard_imports_nothing:
  "get_policy_keys (Some [(''app'', [''*''])]) = [''*'']" "permits [(''app'', [''*''])] ''app'' k"
  by (simp_all add: get_policy_keys_def set_add_all_def set_add_def permits_def)

text \<open>Without a context the caller is \<open>default\<close>, not \<open>unknown\<close>.\<close>

lemma unidentified_caller_is_default:
  assumes "cl_store c = None" "stack_module (cl_stack c) = None"
  shows "get_caller_module_name c = ''default''" "resolve_confident_caller_module_name c = ''unknown''"
  using assms by (simp_all add: get_caller_module_name_def resolve_confident_caller_module_name_def unknown_caller_def caller_or_def)

subsection \<open>The guarantees\<close>

text \<open>C28. A secret written with \<open>setSecret\<close> survives the process: a vault opened on that file with the
  same key encryption key, when there are no environment files to synchronise from, starts with the value
  written and every other secret as it was. A schema, if one is configured, is shown all of them; if it
  accepts, a key resolves to the value the schema made of it, or else to the secret.\<close>

theorem vault_persists:
  assumes "gcm_ok W" "vault_wf W V" "set_secret W key val (V, h) = (r, V1, h1)"
    and "same_place W opts V h1" "load_sources opts (vault_project W opts) h1 = Inr None"
  shows "r = Inr () \<and> started_with W (vo_schema opts) ((secret_of W V)(key \<mapsto> val)) (fst (vault_new W opts c h1))"
proof -
  obtain m where m: "r = Inr ()" "map_of (hs_files h1) (vt_path V) = Some (Doc (metadata_json m))" "vm_checksum m = None"
    "vm_secrets m = vt_secrets V1" "vault_decrypt W (vm_wrapped_dek m) (Some (vt_kek V)) = Inr (dek_text V)"
    "secret_of W V1 = (secret_of W V)(key \<mapsto> val)" "vault_wf W V1" "vt_dek V1 = vt_dek V" "vt_kek V1 = vt_kek V"
    using set_secret_spec[OF assms(1,2), of key val h] assms(3) by auto
  obtain V2 h2 where o2: "vault_open W opts h1 = (Inr V2, h2)" "vault_wf W V2" "vt_cache V2 = []" "secret_of W V2 = secret_of W V1"
    using vault_open_spec[OF assms(1,2) m(7,8,9,2,3,4,5) assms(4,5)] by (auto simp: synced_def fun_eq_iff)
  from vault_new_reads[OF o2(1-3), of c] show ?thesis using m(1,6) o2(4) by simp
qed


text \<open>C30. With a policy in place, after any operations whatsoever, a module that the policy does not let read a
  secret gets an access error from \<open>resolveSecret\<close> and the mask from \<open>process.env\<close>, and its attempt changes
  nothing: no secret is decrypted, cached or registered.\<close>

theorem vault_reads_authorised:
  assumes "pe_policy (vt_engine (fst S0)) = p" "p \<noteq> []" "S = vault_run W ops S0"
  shows "(\<not> permits p (scope_or ''default'' store) k \<longrightarrow>
            vault_step W (Resolve store k) S = (Read (Inl (AccessDenied (scope_or ''default'' store) k)), S))
       \<and> (\<not> permits p (get_caller_module_name c) k \<and> has_secret (fst S) k \<longrightarrow>
            vault_step W (EnvGet c k) S = (Read (Inr (Some Masked)), S))"
proof -
  obtain V h where S: "S = (V, h)" by (metis prod.exhaust)
  have p: "pe_policy (vt_engine V) = p" using run_keeps_policy[of W ops S0] assms(1,3) unfolding S by (metis fst_conv)
  have a: "vault_is_allowed m k (V, h) = (permits p m k, V, h)" for m
    using allowed_iff[of V m k h] p assms(2) by simp
  show ?thesis unfolding S by (auto simp: resolve_secret_def env_get_def a Let_def)
qed

text \<open>C31. Sealing is final. Whatever runs afterwards, the data key is gone and the vault file is not written
  again; no secret can be set; and a read of a secret of the vault, with \<open>resolveSecret\<close> or through
  \<open>process.env\<close>, shows a plaintext only if that very value was assigned to it after the sealing.\<close>

theorem vault_sealed_final:
  assumes "\<not> vt_sealed (fst S0)" "S = vault_run W ops (vault_seal S0)"
  shows "vt_dek (fst S) = None \<and> hs_files (snd S) = hs_files (snd S0)
     \<and> fst (vault_step W (SetSecret k v) S) = Wrote (Inl (VaultSealed k))
     \<and> (fst (vault_step W (Resolve store k) S) = Read (Inr (Some (Shown s))) \<longrightarrow> assigned ops k s)
     \<and> (has_secret (fst S) k \<and> fst (vault_step W (EnvGet c k) S) = Read (Inr (Some (Shown s))) \<longrightarrow> assigned ops k s)"
proof -
  obtain V h where S: "S = (V, h)" by (metis prod.exhaust)
  have inv: "vt_sealed V" "vt_dek V = None" "hs_files h = hs_files (snd S0)"
    "\<And>k s. map_of (vt_cache V) k = Some s \<Longrightarrow> assigned ops k s"
    using sealed_run[OF assms(1), of ops W] S assms(2) by (simp_all add: sealed_since_def)
  have res: "assigned ops k s" if "fst (vault_step W (Resolve store k) S) = Read (Inr (Some (Shown s)))"
  proof -
    obtain b V1 h1 where a: "vault_is_allowed (scope_or ''default'' store) k (V, h) = (b, V1, h1)" by (metis prod.exhaust)
    have "map_of (vt_cache V) k = Some s"
      using that a sealed_allowed[OF a] inv(1)
      by (auto simp: S resolve_secret_def sealed_jit Let_def split: if_splits option.splits)
    then show ?thesis by (rule inv(4))
  qed
  have env: "assigned ops k s" if "has_secret (fst S) k" "fst (vault_step W (EnvGet c k) S) = Read (Inr (Some (Shown s)))"
  proof -
    obtain b V1 h1 where a: "vault_is_allowed (get_caller_module_name c) k (V, h) = (b, V1, h1)" by (metis prod.exhaust)
    have "map_of (vt_cache V) k = Some s"
      using that a sealed_allowed[OF a] inv(1)
      by (auto simp: S env_get_def sealed_jit step_bind_def split: if_splits option.splits)
    then show ?thesis by (rule inv(4))
  qed
  show ?thesis using inv(1-3) res env S by (simp add: set_secret_def)
qed

subsection \<open>A concrete world\<close>

definition demo_gcm :: gcm where
  "demo_gcm = \<lparr>gcm_seal = (\<lambda>k iv p. (rev p, iv)),
     gcm_open = (\<lambda>k iv c t. if t = iv then Inr (rev c) else Inl ''unable to authenticate data'')\<rparr>"

definition demo_vault_world :: vault_world where
  "demo_vault_world = \<lparr>vx_gcm = demo_gcm, vx_random = (\<lambda>i n. replicate n (char_of (i mod 256))), vx_sha256 = (\<lambda>s. s),
     vx_cwd = ''/app'', vx_git = (\<lambda>_. GitUntracked)\<rparr>"

lemma demo_gcm_ok: "gcm_ok demo_vault_world"
  by (simp add: gcm_ok_def demo_vault_world_def demo_gcm_def)

definition demo_kek :: string where
  "demo_kek = replicate 32 (CHR ''K'')"

definition demo_policy :: vault_policy where
  "demo_policy = [(''db'', [''DB_URL'', ''TOKEN''])]"

definition demo_vault_options :: vault_options where
  "demo_vault_options = \<lparr>vo_path = None, vo_env_files = NoEnvFiles, vo_policy = Some demo_policy, vo_schema = None,
     vo_project = None, vo_kek = Some (KekBytes demo_kek)\<rparr>"

definition demo_host :: "(string, string) jsmap \<Rightarrow> (string, host_file) jsmap \<Rightarrow> host" where
  "demo_host env files = \<lparr>hs_files = files, hs_env = env, hs_redacted = [], hs_draws = 0, hs_warnings = []\<rparr>"

definition demo_caller :: "string \<Rightarrow> caller" where
  "demo_caller m = \<lparr>cl_store = Some m, cl_stack = []\<rparr>"

definition demo_vault :: vault where
  "demo_vault = vault_of demo_vault_options ''/app/axiomify-vault.json'' demo_kek (replicate 32 (CHR ''D'')) []"

lemma demo_vault_wf: "vault_wf demo_vault_world demo_vault"
  by (simp add: vault_wf_def demo_vault_def vault_of_def demo_kek_def)

lemma demo_secret_of: "secret_of demo_vault_world demo_vault = Map.empty"
  by (simp add: secret_of_def envelope_text_def demo_vault_def vault_of_def fun_eq_iff)

lemma demo_set_host:
  assumes "set_secret demo_vault_world k v (demo_vault, demo_host [] files) = (r, V1, h1)"
  shows "same_place demo_vault_world demo_vault_options demo_vault h1"
    and "map_of (hs_files h1) ''/app/.env'' = map_of files ''/app/.env''"
    and "vault_project demo_vault_world demo_vault_options = ''/app''"
proof -
  have e: "hs_env h1 = []" "\<forall>p. p \<noteq> vt_path demo_vault \<longrightarrow> map_of (hs_files h1) p = map_of files p"
    using set_secret_spec[OF demo_gcm_ok demo_vault_wf, of k v "demo_host [] files"] assms by (auto simp: demo_host_def)
  show "same_place demo_vault_world demo_vault_options demo_vault h1"
    by (simp add: same_place_def demo_vault_def vault_of_def demo_vault_options_def vault_file_path_def vault_project_def
        demo_vault_world_def path_join_def env_given_def e(1))
  show "map_of (hs_files h1) ''/app/.env'' = map_of files ''/app/.env''"
    using e(2) by (simp add: demo_vault_def vault_of_def)
  show "vault_project demo_vault_world demo_vault_options = ''/app''"
    by (simp add: vault_project_def demo_vault_options_def demo_vault_world_def)
qed

text \<open>A schema that wants the token, and adds a port.\<close>

definition demo_schema :: vault_schema where
  "demo_schema = \<lparr>zs_keys = ZShape [''TOKEN'', ''PORT''], zs_check = SafeParse (\<lambda>obj.
     if map_of obj ''TOKEN'' = Some (Shown ''s3cret'') then Inr [(''PORT'', JNum 80)] else Inl [''TOKEN: Required''])\<rparr>"

lemma same_place_schema [simp]: "same_place W (opts\<lparr>vo_schema := x\<rparr>) V h = same_place W opts V h"
  by (simp add: same_place_def vault_file_path_def vault_project_def)

lemma load_sources_schema [simp]:
  "load_sources (opts\<lparr>vo_schema := x\<rparr>) = load_sources opts" "vault_project W (opts\<lparr>vo_schema := x\<rparr>) = vault_project W opts"
  by (simp_all add: load_sources_def vault_project_def fun_eq_iff files_to_load_def)

theorem vault_persists_witness:
  "\<exists>V1 h1 V2. set_secret demo_vault_world ''TOKEN'' ''s3cret'' (demo_vault, demo_host [] []) = (Inr (), V1, h1)
     \<and> fst (vault_new demo_vault_world (demo_vault_options\<lparr>vo_schema := Some demo_schema\<rparr>) (demo_caller ''db'') h1) = Inr V2
     \<and> (\<forall>h2. fst (resolve_secret_jit demo_vault_world ''TOKEN'' (V2, h2)) = Inr ''s3cret''
          \<and> fst (resolve_secret_jit demo_vault_world ''PORT'' (V2, h2)) = Inr ''80''
          \<and> fst (resolve_secret_jit demo_vault_world ''DB_URL'' (V2, h2)) = Inl (SecretNotFound ''DB_URL''))"
proof -
  let ?opts = "demo_vault_options\<lparr>vo_schema := Some demo_schema\<rparr>"
  obtain r V1 h1 where s: "set_secret demo_vault_world ''TOKEN'' ''s3cret'' (demo_vault, demo_host [] []) = (r, V1, h1)" by (metis prod.exhaust)
  note d = demo_set_host[OF s]
  have l: "load_sources ?opts (vault_project demo_vault_world ?opts) h1 = Inr None"
    unfolding load_sources_schema d(3) using d(2) by (simp add: load_sources_def default_env_path_def path_join_def files_to_load_def demo_vault_options_def)
  have p: "same_place demo_vault_world ?opts demo_vault h1" using d(1) by simp
  have st: "r = Inr ()" "started_with demo_vault_world (Some demo_schema) (Map.empty(''TOKEN'' \<mapsto> ''s3cret''))
      (fst (vault_new demo_vault_world ?opts (demo_caller ''db'') h1))"
    using vault_persists[OF demo_gcm_ok demo_vault_wf s p l, of "demo_caller ''db''"] unfolding demo_secret_of by simp_all
  have v: "schema_verdict (Some demo_schema) obj = Inr [(''PORT'', JNum 80)]"
    if "shows_store (Map.empty(''TOKEN'' \<mapsto> ''s3cret'')) obj" for obj
    using that by (simp add: shows_store_def schema_verdict_def demo_schema_def check_vault_schema_def)
  obtain V2 where r: "fst (vault_new demo_vault_world ?opts (demo_caller ''db'') h1) = Inr V2"
    "\<And>k h2. fst (resolve_secret_jit demo_vault_world k (V2, h2)) = resolved_as [(''PORT'', JNum 80)] (Map.empty(''TOKEN'' \<mapsto> ''s3cret'')) k"
    using st(2) v unfolding started_with_def by fastforce
  have c: "cache_values [(''PORT'', JNum 80)] [] = [(''PORT'', ''80'')]" by code_simp
  show ?thesis
    by (intro exI[of _ V1] exI[of _ h1] exI[of _ V2]) (use s st(1) r in \<open>simp add: resolved_as_def c\<close>)
qed



text \<open>A vault that has read a secret.\<close>

definition demo_read :: vault_state where
  "demo_read = (demo_vault\<lparr>vt_secrets := [(''TOKEN'', \<lparr>ve_ciphertext = to_hex (rev (utf8 ''s3cret'')), ve_iv = [], ve_tag = []\<rparr>)],
     vt_cache := [(''TOKEN'', ''s3cret'')]\<rparr>, demo_host [] [])"

theorem vault_reads_authorised_witness:
  "vault_step demo_vault_world (Resolve (Some ''logs'') ''TOKEN'') (vault_run demo_vault_world [Rotate ''TOKEN'' ''t0ken'', Seal] demo_read)
     = (Read (Inl (AccessDenied ''logs'' ''TOKEN'')), vault_run demo_vault_world [Rotate ''TOKEN'' ''t0ken'', Seal] demo_read)"
proof -
  have p: "pe_policy (vt_engine (fst demo_read)) = demo_policy" by code_simp
  have n: "demo_policy \<noteq> []" by (simp add: demo_policy_def)
  have f: "\<not> permits demo_policy (scope_or ''default'' (Some ''logs'')) ''TOKEN''" "scope_or ''default'' (Some ''logs'') = ''logs''"
    by code_simp+
  show ?thesis
    using vault_reads_authorised[OF p n refl, where W = demo_vault_world and ops = "[Rotate ''TOKEN'' ''t0ken'', Seal]" and store = "Some ''logs''" and k = "''TOKEN''"] f by simp
qed

theorem vault_sealed_final_witness:
  "vt_dek (fst (vault_run demo_vault_world [Rotate ''TOKEN'' ''next''] (vault_seal demo_read))) = None
   \<and> fst (vault_step demo_vault_world (SetSecret ''A'' ''b'') (vault_run demo_vault_world [Rotate ''TOKEN'' ''next''] (vault_seal demo_read)))
       = Wrote (Inl (VaultSealed ''A''))"
proof -
  have "\<not> vt_sealed (fst demo_read)" by (simp add: demo_read_def demo_vault_def vault_of_def)
  from vault_sealed_final[OF this refl, of demo_vault_world "[Rotate ''TOKEN'' ''next'']" "''A''" "''b''"] show ?thesis by blast
qed

theorem shown_secret_redacted_witness:
  "\<not> sublist (map Some ''s3cret'') (stream_redact (snd (vault_run demo_vault_world [Rotate ''DB_URL'' ''s3cret'', Seal]
      (snd (env_get demo_vault_world (demo_caller ''db'') ''TOKEN'' demo_read)))) ''token: s3cret!'')"
proof -
  let ?ops = "[Rotate ''DB_URL'' ''s3cret'', Seal]"
  have h: "has_secret (fst demo_read) ''TOKEN''" by code_simp
  have "fst (env_get demo_vault_world (demo_caller ''db'') ''TOKEN'' demo_read) = Inr (Some (Shown ''s3cret''))" by code_simp
  then have g: "env_get demo_vault_world (demo_caller ''db'') ''TOKEN'' demo_read
      = (Inr (Some (Shown ''s3cret'')), snd (env_get demo_vault_world (demo_caller ''db'') ''TOKEN'' demo_read))"
    by (metis prod.collapse)
  have c: "map_of (vt_cache (fst (snd (env_get demo_vault_world (demo_caller ''db'') ''TOKEN'' demo_read)))) ''DB_URL'' = None"
    by code_simp
  then have n: "never_forgotten demo_vault_world ''s3cret'' ?ops (snd (env_get demo_vault_world (demo_caller ''db'') ''TOKEN'' demo_read))"
    by simp
  from shown_secret_redacted[OF h g _ n] show ?thesis by simp
qed

text \<open>One envelope that does not open stops the constructor, when the policy lets the caller read it: the spread
  of \<open>process.env\<close> comes before the loop that only warns.\<close>

definition demo_corrupt :: vault where
  "demo_corrupt = demo_vault\<lparr>vt_secrets := [(''TOKEN'', \<lparr>ve_ciphertext = ''00'', ve_iv = ''00'', ve_tag = ''01''\<rparr>)]\<rparr>"

lemma corrupt_secret_stops_start:
  "fst (validate_schema demo_vault_world None (demo_caller ''db'') (demo_corrupt, demo_host [] []))
     = Inl (CipherError ''unable to authenticate data'')"
  "fst (validate_schema demo_vault_world None (demo_caller ''logs'') (demo_corrupt, demo_host [] [])) = Inr ()"
  by code_simp+

end
