(* ===== verification/Static_Files.thy ===== *)
theory Static_Files
  imports Native_Response Jobs_Cron
begin

text \<open>
  \<open>packages/static/src/index.ts\<close>: \<open>serveStatic\<close>. The file system is the record \<open>file_system\<close>: \<open>realpath\<close> and
  \<open>stat\<close> answer a value or an error code; \<open>createReadStream\<close> is the log of opened files with their byte
  ranges. Paths are POSIX paths; numbers in headers are integers. \<open>Date.parse\<close> is a parameter.
\<close>

subsection \<open>Paths, as node:path has them\<close>

definition path_segs :: "string \<Rightarrow> string list" where
  "path_segs p = filter (\<lambda>s. s \<noteq> [] \<and> s \<noteq> ''.'') (split_on (CHR ''/'') p)"

fun resolve_segs :: "bool \<Rightarrow> string list \<Rightarrow> string list \<Rightarrow> string list" where
  "resolve_segs up acc [] = rev acc"
| "resolve_segs up acc (s # ss) =
     (if s = ''..'' then
        (case acc of
           a # acc' \<Rightarrow> if a \<noteq> ''..'' then resolve_segs up acc' ss
                       else resolve_segs up (if up then ''..'' # acc else acc) ss
         | [] \<Rightarrow> resolve_segs up (if up then [''..''] else []) ss)
      else resolve_segs up (s # acc) ss)"

definition path_is_absolute :: "string \<Rightarrow> bool" where
  "path_is_absolute p \<longleftrightarrow> starts_with p ''/''"

definition path_normalize :: "string \<Rightarrow> string" where
  "path_normalize p =
     (if p = [] then ''.''
      else (let body = join_with ''/'' (resolve_segs (\<not> path_is_absolute p) [] (path_segs p));
                slash = (last p = CHR ''/'')
            in if body = [] then (if path_is_absolute p then ''/'' else if slash then ''./'' else ''.'')
               else (if path_is_absolute p then ''/'' else []) @ body @ (if slash then ''/'' else [])))"

definition path_resolve :: "string \<Rightarrow> string \<Rightarrow> string" where
  "path_resolve base p =
     CHR ''/'' # join_with ''/'' (resolve_segs False [] (path_segs (if path_is_absolute p then p else base @ ''/'' @ p)))"

definition path_basename :: "string \<Rightarrow> string" where
  "path_basename p = (case rev (filter (\<lambda>s. s \<noteq> []) (split_on (CHR ''/'') p)) of b # _ \<Rightarrow> b | [] \<Rightarrow> [])"

definition path_extname :: "string \<Rightarrow> string" where
  "path_extname p =
     (let b = path_basename p
      in case last_index_of (CHR ''.'') b of
           Some i \<Rightarrow> if i = 0 \<or> b = ''..'' then [] else drop i b
         | None \<Rightarrow> [])"

subsection \<open>Types of files\<close>

definition mime_types :: "(string, string) jsmap" where
  "mime_types =
     [(''.html'', ''text/html; charset=utf-8''), (''.htm'', ''text/html; charset=utf-8''), (''.css'', ''text/css; charset=utf-8''),
      (''.js'', ''application/javascript; charset=utf-8''), (''.mjs'', ''application/javascript; charset=utf-8''),
      (''.cjs'', ''application/javascript; charset=utf-8''), (''.ts'', ''application/typescript''),
      (''.json'', ''application/json; charset=utf-8''), (''.xml'', ''application/xml; charset=utf-8''),
      (''.txt'', ''text/plain; charset=utf-8''), (''.md'', ''text/markdown; charset=utf-8''),
      (''.png'', ''image/png''), (''.jpg'', ''image/jpeg''), (''.jpeg'', ''image/jpeg''), (''.gif'', ''image/gif''),
      (''.svg'', ''image/svg+xml''), (''.ico'', ''image/x-icon''), (''.webp'', ''image/webp''), (''.avif'', ''image/avif''),
      (''.bmp'', ''image/bmp''), (''.tiff'', ''image/tiff''), (''.tif'', ''image/tiff''),
      (''.woff'', ''font/woff''), (''.woff2'', ''font/woff2''), (''.ttf'', ''font/ttf''), (''.otf'', ''font/otf''),
      (''.eot'', ''application/vnd.ms-fontobject''),
      (''.mp4'', ''video/mp4''), (''.webm'', ''video/webm''), (''.ogg'', ''video/ogg''), (''.mp3'', ''audio/mpeg''),
      (''.wav'', ''audio/wav''), (''.flac'', ''audio/flac''), (''.pdf'', ''application/pdf''),
      (''.csv'', ''text/csv; charset=utf-8''), (''.yaml'', ''application/yaml''), (''.yml'', ''application/yaml''),
      (''.zip'', ''application/zip''), (''.gz'', ''application/gzip''), (''.tar'', ''application/x-tar''),
      (''.wasm'', ''application/wasm'')]"

definition default_force_download :: "string list" where
  "default_force_download = [''.svg'', ''.html'', ''.htm'', ''.xml'']"

subsection \<open>Ranges\<close>

datatype range_answer = Range int int | Unsatisfiable | NoRange

text \<open>\<open>/^bytes=(.*)$/i\<close>; the dot matches no line terminator.\<close>

definition bytes_spec :: "string \<Rightarrow> string option" where
  "bytes_spec header =
     (let h = trim header; rest = drop 6 h
      in if to_lower (take 6 h) = ''bytes='' \<and> CHR 0x0A \<notin> set rest \<and> CHR 0x0D \<notin> set rest then Some (trim rest) else None)"

text \<open>\<open>/^(\d*)-(\d*)$/\<close>.\<close>

definition range_parts :: "string \<Rightarrow> (string \<times> string) option" where
  "range_parts spec =
     (let a = takeWhile is_digit spec; r = drop (length a) spec
      in if r \<noteq> [] \<and> hd r = CHR ''-'' \<and> list_all is_digit (tl r) then Some (a, tl r) else None)"

definition parse_range :: "string \<Rightarrow> int \<Rightarrow> range_answer" where
  "parse_range header len =
     (case bytes_spec header of
        None \<Rightarrow> NoRange
      | Some spec \<Rightarrow>
          if CHR '','' \<in> set spec then NoRange
          else
            (case range_parts spec of
               None \<Rightarrow> NoRange
             | Some (a, b) \<Rightarrow>
                 if a = [] \<and> b = [] then NoRange
                 else if a = [] then
                   (let suffix = digits_value b
                    in if suffix = 0 \<or> len = 0 then Unsatisfiable else Range (max 0 (len - suffix)) (len - 1))
                 else
                   (let start = digits_value a
                    in if start \<ge> len then Unsatisfiable
                       else (let end' = (if b = [] then len - 1 else min (digits_value b) (len - 1))
                             in if end' < start then NoRange else Range start end'))))"

definition if_range_matches :: "(string \<Rightarrow> int option) \<Rightarrow> string \<Rightarrow> string \<Rightarrow> int \<Rightarrow> bool" where
  "if_range_matches date_parse if_range etag mtime =
     (let v = trim if_range
      in if starts_with v ''W/'' \<or> starts_with v [CHR 0x22] then v = etag
         else (case date_parse v of None \<Rightarrow> False | Some t \<Rightarrow> mtime div 1000 * 1000 \<le> t))"

fun show_hex :: "nat \<Rightarrow> string" where
  "show_hex n = (if n < 16 then [hex_digit n] else show_hex (n div 16) @ [hex_digit (n mod 16)])"

declare show_hex.simps [simp del]

definition show_hex_int :: "int \<Rightarrow> string" where
  "show_hex_int i = (if i < 0 then CHR ''-'' # show_hex (nat (- i)) else show_hex (nat i))"

subsection \<open>The file system and the options\<close>

datatype fs_kind = Directory | RegularFile | OtherFile

record file_stat =
  fs_kind :: fs_kind
  fs_size :: nat
  fs_mtime :: int
  fs_ino :: nat

datatype fs_error = NotFound | FsError string

record file_system =
  fs_realpath :: "string \<Rightarrow> fs_error + string"
  fs_stat :: "string \<Rightarrow> fs_error + file_stat"

record static_config =
  sf_root :: string
  sf_force_download :: "string list"
  sf_cache_control :: string
  sf_serve_index :: bool

record static_options =
  so_prefix :: string
  so_root :: string
  so_force_download :: "string list option"
  so_cache_control :: "string option"
  so_serve_index :: "bool option"

definition static_route_path :: "static_options \<Rightarrow> string" where
  "static_route_path opts =
     (let p = (if starts_with (so_prefix opts) ''/'' then so_prefix opts else CHR ''/'' # so_prefix opts)
      in if p = ''/'' then ''/*'' else p @ ''/*'')"

definition static_config_of :: "string \<Rightarrow> static_options \<Rightarrow> static_config" where
  "static_config_of cwd opts =
     \<lparr>sf_root = path_resolve cwd (so_root opts),
      sf_force_download = (case so_force_download opts of Some es \<Rightarrow> map to_lower es | None \<Rightarrow> default_force_download),
      sf_cache_control = (case so_cache_control opts of Some c \<Rightarrow> c | None \<Rightarrow> ''public, max-age=86400''),
      sf_serve_index = (so_serve_index opts \<noteq> Some False)\<rparr>"

definition static_etag :: "file_stat \<Rightarrow> string" where
  "static_etag st =
     ''W/'' @ [CHR 0x22] @ show_hex (fs_ino st) @ ''-'' @ show_hex (fs_size st) @ ''-'' @ show_hex_int (fs_mtime st) @ [CHR 0x22]"

definition disposition :: "string \<Rightarrow> string" where
  "disposition name =
     ''attachment; filename='' @ [CHR 0x22]
     @ concat (map (\<lambda>c. if c = CHR 0x5C then [CHR 0x5C, CHR 0x5C] else if c = CHR 0x22 then [CHR 0x5C, CHR 0x22] else [c]) name)
     @ [CHR 0x22]"

subsection \<open>The handler\<close>

text \<open>The response together with the files opened so far and the part of each that is read.\<close>

type_synonym static_world = "native_response \<times> (string \<times> (int \<times> int) option) list"

definition on_response :: "native_response act \<Rightarrow> static_world act" where
  "on_response f w = (case f (fst w) of (e, r) \<Rightarrow> (e, r, snd w))"

definition set_status :: "int \<Rightarrow> static_world act" where
  "set_status code w = (None, nr_status code (fst w), snd w)"

definition put_header :: "string \<Rightarrow> string \<Rightarrow> static_world act" where
  "put_header k v = on_response (nr_header k v)"

definition send_error :: "serializer \<Rightarrow> int \<Rightarrow> string \<Rightarrow> static_world act" where
  "send_error ser code msg = seq_act (set_status code) (on_response (nr_send ser JNull (Some msg)))"

definition stream_file :: "string \<Rightarrow> (int \<times> int) option \<Rightarrow> string \<Rightarrow> static_world act" where
  "stream_file p rng ctype w = on_response (nr_stream ctype) (fst w, snd w @ [(p, rng)])"

fun do_all :: "'w act list \<Rightarrow> 'w act" where
  "do_all [] w = (None, w)"
| "do_all (a # as) w = seq_act a (do_all as) w"

text \<open>A directory; an error inside is answered with 404 by the inner \<open>catch\<close>.\<close>

definition index_path :: "string \<Rightarrow> string" where
  "index_path dir = (if dir = ''/'' then ''/index.html'' else dir @ ''/index.html'')"

definition serve_index :: "static_config \<Rightarrow> file_system \<Rightarrow> serializer \<Rightarrow> string \<Rightarrow> static_world act" where
  "serve_index cfg fsys ser dir w =
     (case fs_stat fsys (index_path dir) of
        Inl _ \<Rightarrow> send_error ser 404 ''File not found'' w
      | Inr st \<Rightarrow>
          (case (if fs_kind st \<noteq> RegularFile then send_error ser 404 ''File not found'' w
                 else do_all ([put_header ''Cache-Control'' (sf_cache_control cfg),
                    put_header ''Content-Length'' (show_nat (fs_size st)), put_header ''X-Content-Type-Options'' ''nosniff'']
                    @ (if ''.html'' \<in> set (sf_force_download cfg)
                       then [put_header ''Content-Disposition'' (''attachment; filename='' @ [CHR 0x22] @ ''index.html'' @ [CHR 0x22])] else [])
                    @ [stream_file (index_path dir) None ''text/html; charset=utf-8'']) w) of
             (Some _, w') \<Rightarrow> send_error ser 404 ''File not found'' w'
           | (None, w') \<Rightarrow> (None, w')))"

text \<open>A header that came once; a repeated one is an array, which the handler ignores.\<close>

definition single_header :: "request \<Rightarrow> string \<Rightarrow> string option" where
  "single_header req name = (case map_of (rq_headers req) name of Some [v] \<Rightarrow> Some v | _ \<Rightarrow> None)"

definition range_of :: "(string \<Rightarrow> int option) \<Rightarrow> request \<Rightarrow> file_stat \<Rightarrow> range_answer" where
  "range_of date_parse req st =
     (case single_header req ''range'' of
        None \<Rightarrow> NoRange
      | Some rh \<Rightarrow>
          if rh = [] then NoRange
          else
            (let applicable = (case single_header req ''if-range'' of
                 Some ir \<Rightarrow> if ir = [] then True else if_range_matches date_parse ir (static_etag st) (fs_mtime st)
               | None \<Rightarrow> True)
             in if applicable then parse_range rh (int (fs_size st)) else NoRange))"

definition serve_file :: "static_config \<Rightarrow> (string \<Rightarrow> int option) \<Rightarrow> serializer \<Rightarrow> request \<Rightarrow> string \<Rightarrow> file_stat \<Rightarrow> static_world act" where
  "serve_file cfg date_parse ser req p st =
     (let len = show_nat (fs_size st); ext = to_lower (path_extname p);
          ctype = (case map_of mime_types ext of Some t \<Rightarrow> t | None \<Rightarrow> ''application/octet-stream'');
          tail = (\<lambda>rng. [put_header ''X-Content-Type-Options'' ''nosniff'']
            @ (if ext \<in> set (sf_force_download cfg) then [put_header ''Content-Disposition'' (disposition (path_basename p))] else [])
            @ [stream_file p rng ctype])
      in do_all
           ([put_header ''Accept-Ranges'' ''bytes'', put_header ''Last-Modified'' (to_utc_string (fs_mtime st)),
             put_header ''ETag'' (static_etag st)]
            @ (if single_header req ''if-none-match'' = Some (static_etag st) then [set_status 304, on_response (nr_send_raw (JStr []) ''text/plain'')]
               else
                 (case range_of date_parse req st of
                    Unsatisfiable \<Rightarrow> [put_header ''Content-Range'' (''bytes */'' @ len), send_error ser 416 ''Range Not Satisfiable'']
                  | Range a b \<Rightarrow>
                      [put_header ''Cache-Control'' (sf_cache_control cfg), set_status 206,
                       put_header ''Content-Range'' (''bytes '' @ show_int a @ ''-'' @ show_int b @ ''/'' @ len),
                       put_header ''Content-Length'' (show_int (b - a + 1))] @ tail (Some (a, b))
                  | NoRange \<Rightarrow>
                      [put_header ''Cache-Control'' (sf_cache_control cfg), put_header ''Content-Length'' len] @ tail None))))"

definition within_root :: "string \<Rightarrow> string \<Rightarrow> bool" where
  "within_root root_real p \<longleftrightarrow> p = root_real \<or> starts_with p (root_real @ ''/'')"

definition climbs :: "string \<Rightarrow> bool" where
  "climbs p \<longleftrightarrow> p = ''..'' \<or> starts_with p ''../'' \<or> str_includes p ''/../''"

definition wildcard_param :: "request \<Rightarrow> string" where
  "wildcard_param req =
     (case rq_params req of
        JObj kvs \<Rightarrow> (case map_of kvs ''*'' of Some v \<Rightarrow> if truthy v then js_string v else [] | None \<Rightarrow> [])
      | _ \<Rightarrow> [])"

definition answer_fs_error :: "serializer \<Rightarrow> fs_error \<Rightarrow> static_world act" where
  "answer_fs_error ser e =
     (if e = NotFound then send_error ser 404 ''File not found'' else send_error ser 500 ''Internal Server Error'')"

definition static_body :: "static_config \<Rightarrow> file_system \<Rightarrow> (string \<Rightarrow> int option) \<Rightarrow> serializer \<Rightarrow> request \<Rightarrow> string \<Rightarrow> static_world
    \<Rightarrow> fs_error option \<times> thrown option \<times> static_world" where
  "static_body cfg fsys date_parse ser req root_real w =
     (case uri_decode (wildcard_param req) of
        None \<Rightarrow> (None, send_error ser 400 ''Bad Request'' w)
      | Some decoded \<Rightarrow>
          if CHR 0x00 \<in> set decoded \<or> path_is_absolute decoded then (None, send_error ser 403 ''Forbidden'' w)
          else
            (let norm = path_normalize (map (\<lambda>c. if c = CHR 0x5C then CHR ''/'' else c) decoded)
             in if climbs norm then (None, send_error ser 403 ''Forbidden'' w)
                else
                  (case fs_realpath fsys (path_resolve root_real norm) of
                     Inl e \<Rightarrow> (Some e, None, w)
                   | Inr p \<Rightarrow>
                       if \<not> within_root root_real p then (None, send_error ser 403 ''Forbidden'' w)
                       else
                         (case fs_stat fsys p of
                            Inl e \<Rightarrow> (Some e, None, w)
                          | Inr st \<Rightarrow>
                              (None,
                               if fs_kind st = Directory then
                                 (if sf_serve_index cfg then serve_index cfg fsys ser p w else send_error ser 403 ''Forbidden'' w)
                               else if fs_kind st \<noteq> RegularFile then send_error ser 404 ''File not found'' w
                               else serve_file cfg date_parse ser req p st w)))))"

text \<open>The handler with its outer \<open>catch\<close>: an error with the code \<open>ENOENT\<close> is 404, any other one 500.\<close>

definition static_handler :: "static_config \<Rightarrow> file_system \<Rightarrow> (string \<Rightarrow> int option) \<Rightarrow> serializer \<Rightarrow> request \<Rightarrow> static_world act" where
  "static_handler cfg fsys date_parse ser req w =
     (case fs_realpath fsys (sf_root cfg) of
        Inl e \<Rightarrow> answer_fs_error ser e w
      | Inr root_real \<Rightarrow>
          (case static_body cfg fsys date_parse ser req root_real w of
             (Some e, _, w') \<Rightarrow> answer_fs_error ser e w'
           | (None, Some _, w') \<Rightarrow> send_error ser 500 ''Internal Server Error'' w'
           | (None, None, w') \<Rightarrow> (None, w')))"

end
