(* ===== verification/Cors.thy ===== *)
theory Cors
  imports Static_Files
begin

text \<open>
  \<open>packages/cors/src/index.ts\<close> (\<open>useCors\<close>) and \<open>packages/helmet/src/index.ts\<close> (\<open>useHelmet\<close>): hooks that put headers on
  the response of the native adapter. A regular expression is its source and its flags (not \<open>g\<close> or \<open>y\<close>, which keep
  state between calls); what it matches is the parameter \<open>test\<close>.
\<close>

subsection \<open>Vary\<close>

definition vary_items :: "string \<Rightarrow> string list" where
  "vary_items s = filter (\<lambda>x. x \<noteq> []) (map trim (split_on (CHR '','') s))"

definition set_vary :: "string \<Rightarrow> native_response act" where
  "set_vary val r =
     (case nr_get_header ''Vary'' r of
        Some existing \<Rightarrow>
          if existing = [] then nr_header ''Vary'' val r
          else (let cur = vary_items existing
                in nr_header ''Vary'' (join_with '', '' (if val \<in> set cur then cur else cur @ [val])) r)
      | None \<Rightarrow> nr_header ''Vary'' val r)"

definition set_vary_values :: "string list \<Rightarrow> native_response act" where
  "set_vary_values vals = (if vals = [] then (\<lambda>r. (None, r)) else set_vary (join_with '', '' (set_add_all vals [])))"

subsection \<open>Options\<close>

record js_regexp =
  re_source :: string
  re_flags :: string

definition anchored :: "string \<Rightarrow> bool" where
  "anchored s \<longleftrightarrow> starts_with s ''^'' \<and> ends_with s ''$''"

definition anchor_regexp :: "js_regexp \<Rightarrow> js_regexp" where
  "anchor_regexp re =
     (if anchored (re_source re) then re
      else (let s1 = (if starts_with (re_source re) ''^'' then re_source re else CHR ''^'' # re_source re)
            in re\<lparr>re_source := (if ends_with s1 ''$'' then s1 else s1 @ ''$'')\<rparr>))"

datatype origin_entry = EntryText string | EntryRegexp js_regexp

datatype cors_origin =
    OriginBool bool
  | OriginText string
  | OriginRegexp js_regexp
  | OriginList "origin_entry list"
  | OriginFun "string option \<Rightarrow> thrown + bool"

record cors_options =
  co_origin :: "cors_origin option"
  co_methods :: "string list option"
  co_allowed :: "string list option"
  co_exposed :: "string list option"
  co_credentials :: "bool option"
  co_cors_max_age :: "int option"
  co_continue :: "bool option"
  co_success :: "int option"
  co_private_network :: "bool option"
  co_vary_headers :: "bool option"
  co_strict :: "bool option"

record cors_config =
  cc_origin :: cors_origin
  cc_methods :: "string list"
  cc_allowed :: "string list"
  cc_exposed :: "string list"
  cc_credentials :: bool
  cc_max_age :: int
  cc_continue :: bool
  cc_success :: int
  cc_private_network :: bool
  cc_vary_headers :: bool
  cc_strict :: bool

definition or_default :: "'a \<Rightarrow> 'a option \<Rightarrow> 'a" where
  "or_default d v = (case v of Some x \<Rightarrow> x | None \<Rightarrow> d)"

definition normalized_origin :: "cors_origin \<Rightarrow> cors_origin" where
  "normalized_origin o1 =
     (case o1 of
        OriginRegexp re \<Rightarrow> OriginRegexp (anchor_regexp re)
      | OriginList es \<Rightarrow> OriginList (map (\<lambda>e. case e of EntryRegexp re \<Rightarrow> EntryRegexp (anchor_regexp re) | EntryText t \<Rightarrow> EntryText t) es)
      | _ \<Rightarrow> o1)"

definition any_origin :: "cors_origin \<Rightarrow> bool" where
  "any_origin o1 = (case o1 of OriginText t \<Rightarrow> t = ''*'' | _ \<Rightarrow> False)"

definition reflect_all :: "cors_origin \<Rightarrow> bool" where
  "reflect_all o1 = (case o1 of OriginBool b \<Rightarrow> b | _ \<Rightarrow> False)"

definition use_cors :: "cors_options \<Rightarrow> thrown + cors_config" where
  "use_cors opts =
     (let origin = or_default (OriginText ''*'') (co_origin opts); cred = or_default False (co_credentials opts)
      in if cred \<and> any_origin origin then
           Inl (plain_error ''[axiomify/cors] `credentials: true` cannot be combined with `origin: \"*\"`.'')
         else if cred \<and> reflect_all origin then
           Inl (plain_error ''[axiomify/cors] `credentials: true` cannot be combined with `origin: true` (reflect-all). Specify an explicit origin allowlist.'')
         else Inr
           \<lparr>cc_origin = normalized_origin origin,
            cc_methods = or_default [''GET'', ''POST'', ''PUT'', ''PATCH'', ''DELETE'', ''OPTIONS'', ''HEAD''] (co_methods opts),
            cc_allowed = or_default [] (co_allowed opts), cc_exposed = or_default [] (co_exposed opts), cc_credentials = cred,
            cc_max_age = or_default 86400 (co_cors_max_age opts), cc_continue = or_default False (co_continue opts),
            cc_success = or_default 204 (co_success opts), cc_private_network = or_default False (co_private_network opts),
            cc_vary_headers = or_default True (co_vary_headers opts), cc_strict = or_default False (co_strict opts)\<rparr>)"

subsection \<open>The hook\<close>

definition entry_matches :: "(js_regexp \<Rightarrow> string \<Rightarrow> bool) \<Rightarrow> string \<Rightarrow> origin_entry \<Rightarrow> bool" where
  "entry_matches test o1 e = (case e of EntryText t \<Rightarrow> t = o1 | EntryRegexp re \<Rightarrow> test re o1)"

definition present :: "string option \<Rightarrow> string option" where
  "present v = (case v of Some s \<Rightarrow> if s = [] then None else Some s | None \<Rightarrow> None)"

definition resolve_origin :: "(js_regexp \<Rightarrow> string \<Rightarrow> bool) \<Rightarrow> cors_config \<Rightarrow> string option \<Rightarrow> thrown + string option" where
  "resolve_origin test cfg requested =
     (case cc_origin cfg of
        OriginBool b \<Rightarrow> Inr (if b then (case present requested of Some s \<Rightarrow> if s \<noteq> ''null'' then Some s else None | None \<Rightarrow> None) else None)
      | OriginText t \<Rightarrow> Inr (if t = ''*'' then Some ''*'' else if requested = Some t then Some t else None)
      | OriginRegexp re \<Rightarrow> Inr (case present requested of Some s \<Rightarrow> if test re s then Some s else None | None \<Rightarrow> None)
      | OriginList es \<Rightarrow> Inr (case present requested of Some s \<Rightarrow> if list_ex (entry_matches test s) es then Some s else None | None \<Rightarrow> None)
      | OriginFun f \<Rightarrow>
          (case f requested of
             Inl e \<Rightarrow> Inl e
           | Inr allowed \<Rightarrow>
               Inr (if \<not> allowed then None else if cc_credentials cfg then requested
                    else (case requested of Some s \<Rightarrow> Some s | None \<Rightarrow> Some ''*''))))"

definition preflight :: "serializer \<Rightarrow> cors_config \<Rightarrow> request \<Rightarrow> string list \<Rightarrow> native_response act list" where
  "preflight ser cfg req vary =
     [nr_header ''Access-Control-Allow-Methods'' (join_with '', '' (cc_methods cfg)),
      nr_header ''Access-Control-Allow-Headers''
        (if cc_allowed cfg \<noteq> [] then join_with '', '' (cc_allowed cfg)
         else (case single_header req ''access-control-request-headers'' of Some h \<Rightarrow> h | None \<Rightarrow> ''Content-Type, Authorization'')),
      nr_header ''Access-Control-Max-Age'' (show_int (cc_max_age cfg))]
     @ (if cc_private_network cfg \<and> single_header req ''access-control-request-private-network'' = Some ''true''
        then [nr_header ''Access-Control-Allow-Private-Network'' ''true''] else [])
     @ [set_vary_values (vary @ (if cc_vary_headers cfg \<and> cc_allowed cfg = [] then [''Access-Control-Request-Headers''] else []))]
     @ (if cc_continue cfg then [] else [\<lambda>r. nr_send ser JNull None (nr_status (cc_success cfg) r)])"

definition cors_hook :: "(js_regexp \<Rightarrow> string \<Rightarrow> bool) \<Rightarrow> serializer \<Rightarrow> cors_config \<Rightarrow> request \<Rightarrow> native_response act" where
  "cors_hook test ser cfg req r =
     (let requested = single_header req ''origin''
      in case resolve_origin test cfg requested of
           Inl e \<Rightarrow> (Some e, r)
         | Inr resolved \<Rightarrow>
             (let origin = present resolved; vary = (if origin \<noteq> None \<and> origin \<noteq> Some ''*'' then [''Origin''] else [])
              in do_all
                   ((case origin of Some s \<Rightarrow> [nr_header ''Access-Control-Allow-Origin'' s] | None \<Rightarrow> [])
                    @ (if cc_credentials cfg then [nr_header ''Access-Control-Allow-Credentials'' ''true''] else [])
                    @ (if cc_exposed cfg \<noteq> [] then [nr_header ''Access-Control-Expose-Headers'' (join_with '', '' (cc_exposed cfg))] else [])
                    @ (if rq_method req = OPTIONS then
                         (if cc_strict cfg \<and> present requested = None
                          then [\<lambda>r. nr_send ser (JObj [(''error'', JStr ''Invalid preflight request'')]) None (nr_status 400 r)]
                          else preflight ser cfg req vary)
                       else [set_vary_values vary])) r))"

subsection \<open>Security headers\<close>

text \<open>An option of type \<open>boolean | string\<close>.\<close>

datatype switch = Flag bool | Val string

definition if_enabled :: "string \<Rightarrow> switch \<Rightarrow> string \<Rightarrow> (string \<times> string) list" where
  "if_enabled name v fallback =
     (case v of
        Flag b \<Rightarrow> if b then [(name, fallback)] else []
      | Val s \<Rightarrow> if s = [] then [] else [(name, s)])"

datatype hsts_option = HstsFlag bool | HstsOptions "int option" "bool option" "bool option"

record helmet_options =
  ho_hsts :: "hsts_option option"
  ho_csp :: "switch option"
  ho_content_type :: "switch option"
  ho_frame :: "switch option"
  ho_xss :: "switch option"
  ho_referrer :: "switch option"
  ho_permissions :: "switch option"
  ho_download :: "switch option"
  ho_cross_domain :: "switch option"
  ho_dns :: "switch option"
  ho_coep :: "switch option"
  ho_coop :: "switch option"
  ho_corp :: "switch option"
  ho_agent_cluster :: "bool option"
  ho_robots :: "switch option"
  ho_remove :: "string list option"
  ho_powered_by :: "bool option"

text \<open>An option of type \<open>string | false\<close>: only a non-empty string sets the header.\<close>

definition if_text :: "string \<Rightarrow> switch \<Rightarrow> (string \<times> string) list" where
  "if_text name v = (case v of Val s \<Rightarrow> if s = [] then [] else [(name, s)] | Flag _ \<Rightarrow> [])"

definition hsts_header :: "hsts_option \<Rightarrow> (string \<times> string) list" where
  "hsts_header h =
     (case h of
        HstsFlag b \<Rightarrow> if b then [(''Strict-Transport-Security'', ''max-age=15552000; includeSubDomains'')] else []
      | HstsOptions age sub preload \<Rightarrow>
          [(''Strict-Transport-Security'',
            ''max-age='' @ show_int (or_default 15552000 age) @ (if sub \<noteq> Some False then ''; includeSubDomains'' else [])
            @ (if preload = Some True then ''; preload'' else []))])"

definition quoted :: "string \<Rightarrow> string" where
  "quoted s = [CHR 0x27] @ s @ [CHR 0x27]"

definition default_csp :: string where
  "default_csp = ''default-src '' @ quoted ''self'' @ ''; base-uri '' @ quoted ''self'' @ ''; frame-ancestors '' @ quoted ''none''"

definition helmet_headers :: "helmet_options \<Rightarrow> (string \<times> string) list" where
  "helmet_headers p =
     if_enabled ''X-Content-Type-Options'' (or_default (Val ''nosniff'') (ho_content_type p)) ''nosniff''
     @ if_enabled ''X-Frame-Options'' (or_default (Val ''DENY'') (ho_frame p)) ''DENY''
     @ if_enabled ''X-XSS-Protection'' (or_default (Val ''0'') (ho_xss p)) ''0''
     @ if_enabled ''Referrer-Policy'' (or_default (Val ''no-referrer'') (ho_referrer p)) ''no-referrer''
     @ if_enabled ''X-Download-Options'' (or_default (Val ''noopen'') (ho_download p)) ''noopen''
     @ if_enabled ''X-Permitted-Cross-Domain-Policies'' (or_default (Val ''none'') (ho_cross_domain p)) ''none''
     @ if_enabled ''X-DNS-Prefetch-Control'' (or_default (Val ''off'') (ho_dns p)) ''off''
     @ if_text ''Content-Security-Policy'' (or_default (Val default_csp) (ho_csp p))
     @ if_text ''Cross-Origin-Embedder-Policy'' (or_default (Val ''require-corp'') (ho_coep p))
     @ if_text ''Cross-Origin-Opener-Policy'' (or_default (Val ''same-origin'') (ho_coop p))
     @ if_text ''Cross-Origin-Resource-Policy'' (or_default (Val ''same-origin'') (ho_corp p))
     @ map (\<lambda>(k, v). (k, trim v)) (if_text ''Permissions-Policy'' (or_default (Val ''geolocation=(), microphone=(), camera=()'') (ho_permissions p)))
     @ (if or_default True (ho_agent_cluster p) then [(''Origin-Agent-Cluster'', ''?1'')] else [])
     @ if_text ''X-Robots-Tag'' (or_default (Val ''noindex, nofollow'') (ho_robots p))
     @ hsts_header (or_default (HstsFlag True) (ho_hsts p))"

definition helmet_removed :: "helmet_options \<Rightarrow> string list" where
  "helmet_removed p =
     (let rs = or_default [''X-Powered-By'', ''Server'', ''X-AspNet-Version'', ''X-AspNetMvc-Version''] (ho_remove p)
      in if or_default True (ho_powered_by p) then set_add_all (rs @ [''X-Powered-By'']) [] else rs)"

definition helmet_hook :: "helmet_options \<Rightarrow> native_response act" where
  "helmet_hook p =
     seq_act (do_all (map (\<lambda>(k, v). nr_header k v) (helmet_headers p)))
       (\<lambda>r. (None, fold nr_remove_header (helmet_removed p) r))"

end
