(* ===== verification/Static_Props.thy ===== *)
theory Static_Props
  imports Static_Files
begin

text \<open>
  What \<open>serveStatic\<close> opens: only what lies under the root after symbolic links are resolved (or the index file of
  such a directory), and of it exactly the range that the response announces.
\<close>

subsection \<open>Ranges\<close>

lemma digits_value_nonneg: "0 \<le> digits_value ds" if "list_all is_digit ds"
proof -
  have "0 \<le> foldl (\<lambda>a c. a * 10 + (of_char c - 48)) x ds" if "0 \<le> x" "list_all is_digit ds" for x :: int
    using that
  proof (induction ds arbitrary: x)
    case (Cons c ds)
    have "(48::nat) \<le> of_char c" using Cons.prems(2) by (simp add: is_digit_def)
    then have "(48::int) \<le> of_char c" by (metis of_char_of of_nat_mono of_nat_numeral of_nat_of_char)
    with Cons show ?case by simp
  qed simp
  with that show ?thesis by (simp add: digits_value_def)
qed

lemma range_parts_digits:
  "range_parts spec = Some (a, b) \<Longrightarrow> list_all is_digit a \<and> list_all is_digit b"
  by (auto simp: range_parts_def Let_def list_all_iff split: if_splits dest: set_takeWhileD)

lemma parse_range_bounds:
  assumes "parse_range header n = Range a b" "0 \<le> n"
  shows "0 \<le> a \<and> a \<le> b \<and> b < n"
proof -
  obtain spec x y where s: "bytes_spec header = Some spec" "range_parts spec = Some (x, y)"
    using assms(1) by (auto simp: parse_range_def split: option.splits if_splits)
  have d: "0 \<le> digits_value x" "0 \<le> digits_value y"
    using range_parts_digits[OF s(2)] digits_value_nonneg by blast+
  show ?thesis
    using assms s d by (auto simp: parse_range_def Let_def split: if_splits)
qed

lemma show_nat_digits: "list_all is_digit (show_nat n)"
  by (simp add: list_all_iff show_nat_is_digit)

lemma take_digits: "list_all is_digit ds \<Longrightarrow> takeWhile is_digit (ds @ CHR ''-'' # t) = ds"
  using is_digit_not by (induction ds) (auto simp: is_digit_def)

lemma range_parts_print:
  "list_all is_digit a \<Longrightarrow> list_all is_digit b \<Longrightarrow> range_parts (a @ CHR ''-'' # b) = Some (a, b)"
  by (simp add: range_parts_def take_digits Let_def)

lemma digits_plain:
  assumes "list_all is_digit a" "list_all is_digit b" "a \<noteq> [] \<or> b \<noteq> []"
  shows "bytes_spec (''bytes='' @ a @ CHR ''-'' # b) = Some (a @ CHR ''-'' # b)" "CHR '','' \<notin> set (a @ CHR ''-'' # b)"
proof -
  let ?s = "a @ CHR ''-'' # b"
  have d: "\<not> is_ws c \<and> c \<noteq> CHR '','' \<and> c \<noteq> CHR 0x0A \<and> c \<noteq> CHR 0x0D" if "c \<in> set ?s" for c
  proof (cases "c = CHR ''-''")
    case False
    then have "is_digit c" using that assms(1,2) by (auto simp: list_all_iff)
    then show ?thesis using is_digit_not[of c] by (auto simp: is_digit_def)
  qed (simp add: is_ws_def)
  show "CHR '','' \<notin> set ?s" using d by blast
  have t: "trim ?s = ?s" using d by (intro trim_id) (metis append_is_Nil_conv hd_in_set last_in_set list.distinct(1))
  have "last ?s \<in> set ?s" by (rule last_in_set) simp
  then have "\<not> is_ws (last (''bytes='' @ ?s))" using d by (metis append_is_Nil_conv last_appendR list.distinct(1))
  then have t2: "trim (''bytes='' @ ?s) = ''bytes='' @ ?s" by (intro trim_id) (simp add: is_ws_def)
  have nl: "CHR 0x0A \<notin> set ?s" "CHR 0x0D \<notin> set ?s" using d by blast+
  have lo: "to_lower ''bytes='' = ''bytes=''" by (simp add: to_lower_def to_lower_char_def)
  have tk: "take 6 (''bytes='' @ ?s) = ''bytes=''" "drop 6 (''bytes='' @ ?s) = ?s" by simp_all
  show "bytes_spec (''bytes='' @ ?s) = Some ?s"
    unfolding bytes_spec_def t2 Let_def tk t lo using nl by (simp only: simp_thms if_True)
qed

lemma parse_range_print:
  assumes "list_all is_digit a" "list_all is_digit b" "a \<noteq> [] \<or> b \<noteq> []"
  shows "parse_range (''bytes='' @ a @ CHR ''-'' # b) n =
    (if a = [] then (if digits_value b = 0 \<or> n = 0 then Unsatisfiable else Range (max 0 (n - digits_value b)) (n - 1))
     else if digits_value a \<ge> n then Unsatisfiable
     else (let e = (if b = [] then n - 1 else min (digits_value b) (n - 1))
           in if e < digits_value a then NoRange else Range (digits_value a) e))"
proof -
  have s: "bytes_spec (''bytes='' @ a @ CHR ''-'' # b) = Some (a @ CHR ''-'' # b)" "CHR '','' \<notin> set (a @ CHR ''-'' # b)"
    by (rule digits_plain[OF assms])+
  show ?thesis
    using range_parts_print[OF assms(1,2)] assms(3) unfolding parse_range_def s(1) option.case if_not_P[OF s(2)] by (auto simp: Let_def)
qed

text \<open>\<open>parseRange\<close> reads the three forms of a single range as RFC 9110 means them, clamped to the file, and
  whatever the header, a range it answers lies inside the file.\<close>

theorem parse_range_exact:
  "parse_range (''bytes='' @ show_nat a @ ''-'' @ show_nat b) n
     = (if int a \<ge> n then Unsatisfiable else if min (int b) (n - 1) < int a then NoRange else Range (int a) (min (int b) (n - 1)))
   \<and> (parse_range (''bytes='' @ show_nat a @ ''-'') n
     = (if int a \<ge> n then Unsatisfiable else Range (int a) (n - 1)))
   \<and> (parse_range (''bytes=-'' @ show_nat b) n
     = (if b = 0 \<or> n = 0 then Unsatisfiable else Range (max 0 (n - int b)) (n - 1)))
   \<and> (0 \<le> n \<longrightarrow> (case parse_range header n of Range x y \<Rightarrow> 0 \<le> x \<and> x \<le> y \<and> y < n | _ \<Rightarrow> True))"
proof -
  note d = show_nat_digits show_nat_nonempty digits_value_show_nat
  have 1: "parse_range (''bytes='' @ show_nat a @ ''-'' @ show_nat b) n
     = (if int a \<ge> n then Unsatisfiable else if min (int b) (n - 1) < int a then NoRange else Range (int a) (min (int b) (n - 1)))"
    using parse_range_print[of "show_nat a" "show_nat b" n] by (auto simp: d Let_def)
  have 2: "parse_range (''bytes='' @ show_nat a @ ''-'') n = (if int a \<ge> n then Unsatisfiable else Range (int a) (n - 1))"
    using parse_range_print[of "show_nat a" "[]" n] by (simp add: d Let_def)
  have 3: "parse_range (''bytes=-'' @ show_nat b) n = (if b = 0 \<or> n = 0 then Unsatisfiable else Range (max 0 (n - int b)) (n - 1))"
    using parse_range_print[of "[]" "show_nat b" n] by (simp add: d Let_def)
  have 4: "case parse_range header n of Range x y \<Rightarrow> 0 \<le> x \<and> x \<le> y \<and> y < n | _ \<Rightarrow> True" if "0 \<le> n"
    using parse_range_bounds that by (auto split: range_answer.split)
  show ?thesis using 1 2 3 4 by blast
qed

subsection \<open>What is opened\<close>

lemma do_all_append: "do_all (A @ B) w = seq_act (do_all A) (do_all B) w"
  by (induction A arbitrary: w) (auto simp: seq_act_def split: prod.splits option.splits)

text \<open>An action that opens nothing.\<close>

definition opens_nothing :: "static_world act \<Rightarrow> bool" where
  "opens_nothing a \<longleftrightarrow> (\<forall>w. snd (snd (a w)) = snd w)"

lemma opens_nothing_simps [simp]:
  "opens_nothing (on_response f)" "opens_nothing (set_status c)" "opens_nothing (put_header k v)" "opens_nothing (send_error ser c m)"
  by (simp_all add: opens_nothing_def on_response_def set_status_def put_header_def send_error_def seq_act_def split: prod.split option.split)

lemma opens_nothingD: "opens_nothing a \<Longrightarrow> snd (snd (a w)) = snd w"
  unfolding opens_nothing_def by blast

lemma opens_nothing_all: "\<forall>a \<in> set A. opens_nothing a \<Longrightarrow> snd (snd (do_all A w)) = snd w"
proof (induction A arbitrary: w)
  case (Cons a A)
  then have "snd (snd (a w)) = snd w" using opens_nothingD by simp
  then show ?case using Cons by (cases "a w"; cases "fst (a w)") (auto simp: seq_act_def)
qed simp

text \<open>An action that opens at most one file.\<close>

lemma stream_last:
  assumes "\<forall>a \<in> set A. opens_nothing a" "do_all (A @ [stream_file p rng t]) w = (e, r, os)"
  shows "os = snd w \<or> (os = snd w @ [(p, rng)] \<and> (\<exists>w1. do_all A w = (None, w1) \<and> (e, r) = nr_stream t (fst w1)))"
proof -
  obtain e1 w1 where a: "do_all A w = (e1, w1)" by (metis prod.exhaust)
  have o1: "snd w1 = snd w" using opens_nothing_all[OF assms(1), of w] a by simp
  show ?thesis
  proof (cases e1)
    case None
    then show ?thesis
      using assms(2) a o1
      by (cases "nr_stream t (fst w1)") (auto simp: do_all_append seq_act_def stream_file_def on_response_def split: option.splits prod.splits)
  next
    case (Some x)
    then show ?thesis using assms(2) a o1 by (auto simp: do_all_append seq_act_def)
  qed
qed

lemma serve_index_opens:
  assumes "serve_index cfg fsys ser d w = (e, r, os)"
  shows "os = snd w \<or> (os = snd w @ [(index_path d, None)] \<and> (\<exists>st. fs_stat fsys (index_path d) = Inr st \<and> fs_kind st = RegularFile))"
proof (cases "fs_stat fsys (index_path d)")
  case (Inl x)
  then show ?thesis using assms opens_nothingD[of "send_error ser 404 ''File not found''" w] by (simp add: serve_index_def)
next
  case (Inr st)
  show ?thesis
  proof (cases "fs_kind st = RegularFile")
    case True
    let ?A = "[put_header ''Cache-Control'' (sf_cache_control cfg),
                    put_header ''Content-Length'' (show_nat (fs_size st)), put_header ''X-Content-Type-Options'' ''nosniff'']
                    @ (if ''.html'' \<in> set (sf_force_download cfg)
                       then [put_header ''Content-Disposition'' (''attachment; filename='' @ [CHR 0x22] @ ''index.html'' @ [CHR 0x22])] else [])"
    obtain e1 r1 o1 where b: "do_all (?A @ [stream_file (index_path d) None ''text/html; charset=utf-8'']) w = (e1, r1, o1)" by (metis prod.exhaust)
    have "o1 = snd w \<or> o1 = snd w @ [(index_path d, None)]"
      using stream_last[OF _ b] by (auto split: if_splits)
    moreover have "os = o1"
      using assms Inr True b opens_nothingD[of "send_error ser 404 ''File not found''" "(r1, o1)"]
      by (cases e1) (auto simp: serve_index_def)
    ultimately show ?thesis using Inr True by auto
  next
    case False
    obtain e1 w1 where s: "send_error ser 404 ''File not found'' w = (e1, w1)" by (metis prod.exhaust)
    then have "snd w1 = snd w" using opens_nothingD[of "send_error ser 404 ''File not found''" w] by simp
    then show ?thesis
      using assms Inr False s opens_nothingD[of "send_error ser 404 ''File not found''" w1]
      by (cases e1) (auto simp: serve_index_def)
  qed
qed

subsection \<open>What a partial answer announces\<close>

definition announces :: "string \<Rightarrow> static_world \<Rightarrow> bool" where
  "announces x w \<longleftrightarrow> nr_status_code (fst w) = 206 \<and> map_of (nr_headers (fst w)) ''Content-Range'' = Some x"

definition keeps_range :: "string \<Rightarrow> static_world act \<Rightarrow> bool" where
  "keeps_range x a \<longleftrightarrow> (\<forall>w w1. a w = (None, w1) \<longrightarrow> announces x w \<longrightarrow> announces x w1)"

lemma put_header_ok:
  "put_header k v w = (None, w1) \<Longrightarrow> w1 = ((fst w)\<lparr>nr_headers := AList.update k v (nr_headers (fst w))\<rparr>, snd w)"
  by (cases w) (auto simp: put_header_def on_response_def nr_header_def split: if_splits)

lemma put_header_keeps: "k \<noteq> ''Content-Range'' \<Longrightarrow> keeps_range x (put_header k v)"
  unfolding keeps_range_def announces_def by (auto dest!: put_header_ok)

lemma do_all_ok: "do_all (A @ B) w = (None, w2) \<Longrightarrow> \<exists>w1. do_all A w = (None, w1) \<and> do_all B w1 = (None, w2)"
  by (auto simp: do_all_append seq_act_def split: prod.splits option.splits)

lemma do_all_keeps:
  assumes "\<forall>a \<in> set B. keeps_range x a" "do_all B w = (None, w1)" "announces x w"
  shows "announces x w1"
  using assms
proof (induction B arbitrary: w)
  case (Cons a B)
  obtain w2 where a: "a w = (None, w2)" "do_all B w2 = (None, w1)"
    using Cons.prems(2) by (cases "a w"; cases "fst (a w)") (auto simp: seq_act_def)
  have "keeps_range x a" using Cons.prems(1) by simp
  then have "announces x w2" using Cons.prems(3) a(1) unfolding keeps_range_def by blast
  then show ?case using Cons.IH Cons.prems(1) a(2) by simp
qed simp

lemma range_announced:
  assumes "do_all (A @ [set_status 206, put_header ''Content-Range'' x] @ B) w = (None, w1)" "\<forall>a \<in> set B. keeps_range x a"
  shows "announces x w1"
proof -
  obtain w2 where w2: "do_all A w = (None, w2)" "do_all ([set_status 206, put_header ''Content-Range'' x] @ B) w2 = (None, w1)"
    using do_all_ok[OF assms(1)] by blast
  obtain w3 where w: "do_all [set_status 206, put_header ''Content-Range'' x] w2 = (None, w3)" "do_all B w3 = (None, w1)"
    using do_all_ok[OF w2(2)] by blast
  have c: "put_header ''Content-Range'' x (nr_status 206 (fst w2), snd w2) = (None, w3)"
    using w(1) by (cases "put_header ''Content-Range'' x (nr_status 206 (fst w2), snd w2)";
        cases "fst (put_header ''Content-Range'' x (nr_status 206 (fst w2), snd w2))") (simp_all add: seq_act_def set_status_def)
  have "announces x w3" using put_header_ok[OF c] by (simp add: announces_def nr_status_def)
  then show ?thesis using do_all_keeps[OF assms(2) w(2)] by simp
qed

lemma mime_clean: "list_all (\<lambda>(e, t). clean t) mime_types"
  by (simp add: mime_types_def clean_Cons injection_char_code)

lemma content_type_ok: "clean (case map_of mime_types ext of Some t \<Rightarrow> t | None \<Rightarrow> ''application/octet-stream'')"
proof (cases "map_of mime_types ext")
  case None
  then show ?thesis by (simp add: clean_Cons injection_char_code)
next
  case (Some t)
  then show ?thesis using mime_clean by (auto simp: list_all_iff dest: map_of_SomeD)
qed

lemma content_range_kept: "map_of (remove_header_ci ''content-length'' hs) ''Content-Range'' = map_of hs ''Content-Range''"
proof -
  have "to_lower ''Content-Range'' \<noteq> to_lower ''content-length''" by code_simp
  then show ?thesis unfolding remove_header_ci_def by (induction hs) auto
qed

lemma stream_announces:
  assumes "clean t" "announces x (r1, os)"
  shows "\<exists>r2. nr_stream t r1 = (None, r2) \<and> announces x (r2, os)"
  using assms by (auto simp: nr_stream_def announces_def emit_def content_range_kept Let_def)

text \<open>What \<open>serve_file\<close> opens: the file, whole, or the range of the request, announced by status and header.\<close>

definition opened_as :: "(string \<Rightarrow> int option) \<Rightarrow> request \<Rightarrow> string \<Rightarrow> file_stat \<Rightarrow> (int \<times> int) option \<Rightarrow> native_response \<Rightarrow> bool" where
  "opened_as date_parse req p st rng r \<longleftrightarrow>
     (case rng of
        None \<Rightarrow> range_of date_parse req st = NoRange
      | Some (a, b) \<Rightarrow>
          range_of date_parse req st = Range a b \<and> nr_status_code r = 206
          \<and> map_of (nr_headers r) ''Content-Range'' = Some (''bytes '' @ show_int a @ ''-'' @ show_int b @ ''/'' @ show_nat (fs_size st)))"

definition file_type :: "string \<Rightarrow> string" where
  "file_type p = (case map_of mime_types (to_lower (path_extname p)) of Some t \<Rightarrow> t | None \<Rightarrow> ''application/octet-stream'')"

definition file_tail :: "static_config \<Rightarrow> string \<Rightarrow> static_world act list" where
  "file_tail cfg p = [put_header ''X-Content-Type-Options'' ''nosniff'']
     @ (if to_lower (path_extname p) \<in> set (sf_force_download cfg) then [put_header ''Content-Disposition'' (disposition (path_basename p))] else [])"

definition file_head :: "file_stat \<Rightarrow> static_world act list" where
  "file_head st = [put_header ''Accept-Ranges'' ''bytes'', put_header ''Last-Modified'' (to_utc_string (fs_mtime st)), put_header ''ETag'' (static_etag st)]"

lemma serve_file_unfold:
  "serve_file cfg date_parse ser req p st =
     do_all (file_head st
       @ (if single_header req ''if-none-match'' = Some (static_etag st) then [set_status 304, on_response (nr_send_raw (JStr []) ''text/plain'')]
          else (case range_of date_parse req st of
              Unsatisfiable \<Rightarrow> [put_header ''Content-Range'' (''bytes */'' @ show_nat (fs_size st)), send_error ser 416 ''Range Not Satisfiable'']
            | Range a b \<Rightarrow> ([put_header ''Cache-Control'' (sf_cache_control cfg)]
                @ [set_status 206, put_header ''Content-Range'' (''bytes '' @ show_int a @ ''-'' @ show_int b @ ''/'' @ show_nat (fs_size st))]
                @ [put_header ''Content-Length'' (show_int (b - a + 1))] @ file_tail cfg p) @ [stream_file p (Some (a, b)) (file_type p)]
            | NoRange \<Rightarrow> ([put_header ''Cache-Control'' (sf_cache_control cfg), put_header ''Content-Length'' (show_nat (fs_size st))]
                @ file_tail cfg p) @ [stream_file p None (file_type p)])))"
  by (cases "range_of date_parse req st"; simp add: serve_file_def Let_def file_head_def file_tail_def file_type_def)

lemma tail_opens_nothing: "\<forall>a \<in> set (file_tail cfg p). opens_nothing a" "\<forall>a \<in> set (file_tail cfg p). keeps_range x a"
  "\<forall>a \<in> set (file_head st). opens_nothing a"
  by (auto simp: file_tail_def file_head_def intro!: put_header_keeps)

lemma serve_file_opens:
  assumes "serve_file cfg date_parse ser req p st w = (e, r, os)"
  shows "os = snd w \<or> (\<exists>rng. e = None \<and> os = snd w @ [(p, rng)] \<and> opened_as date_parse req p st rng r)"
proof (cases "single_header req ''if-none-match'' = Some (static_etag st)")
  case True
  then show ?thesis
    using assms opens_nothing_all[of "file_head st @ [set_status 304, on_response (nr_send_raw (JStr []) ''text/plain'')]" w] tail_opens_nothing(3)
    by (auto simp: serve_file_unfold)
next
  case no_match: False
  show ?thesis
  proof (cases "range_of date_parse req st")
    case (Range a b)
    let ?x = "''bytes '' @ show_int a @ ''-'' @ show_int b @ ''/'' @ show_nat (fs_size st)"
    let ?pre = "file_head st @ [put_header ''Cache-Control'' (sf_cache_control cfg)]"
    let ?post = "[put_header ''Content-Length'' (show_int (b - a + 1))] @ file_tail cfg p"
    let ?A = "?pre @ [set_status 206, put_header ''Content-Range'' ?x] @ ?post"
    have run: "do_all (?A @ [stream_file p (Some (a, b)) (file_type p)]) w = (e, r, os)"
      using assms no_match Range by (simp add: serve_file_unfold)
    have "\<forall>a \<in> set ?A. opens_nothing a" using tail_opens_nothing(1,3) by auto
    from stream_last[OF this run] consider "os = snd w"
      | w1 where "os = snd w @ [(p, Some (a, b))]" "do_all ?A w = (None, w1)" "(e, r) = nr_stream (file_type p) (fst w1)" by blast
    then show ?thesis
    proof cases
      case 2
      have "\<forall>a \<in> set ?post. keeps_range ?x a" using tail_opens_nothing(2) put_header_keeps by auto
      from range_announced[OF 2(2) this] have "announces ?x (fst w1, snd w1)" by simp
      from stream_announces[OF content_type_ok[of "to_lower (path_extname p)", folded file_type_def] this]
      have "e = None \<and> announces ?x (r, snd w1)" using 2(3) by auto
      then show ?thesis using 2(1) Range by (intro disjI2 exI[of _ "Some (a, b)"]) (simp add: opened_as_def announces_def)
    qed simp
  next
    case Unsatisfiable
    then show ?thesis
      using assms no_match tail_opens_nothing(3)
        opens_nothing_all[of "file_head st @ [put_header ''Content-Range'' (''bytes */'' @ show_nat (fs_size st)), send_error ser 416 ''Range Not Satisfiable'']" w]
      by (auto simp: serve_file_unfold)
  next
    case NoRange
    let ?A = "file_head st @ [put_header ''Cache-Control'' (sf_cache_control cfg), put_header ''Content-Length'' (show_nat (fs_size st))] @ file_tail cfg p"
    have run: "do_all (?A @ [stream_file p None (file_type p)]) w = (e, r, os)"
      using assms no_match NoRange by (simp add: serve_file_unfold)
    have "\<forall>a \<in> set ?A. opens_nothing a" using tail_opens_nothing(1,3) by auto
    from stream_last[OF this run] consider "os = snd w"
      | w1 where "os = snd w @ [(p, None)]" "do_all ?A w = (None, w1)" "(e, r) = nr_stream (file_type p) (fst w1)" by blast
    then show ?thesis
    proof cases
      case 2
      have "clean (file_type p)" using content_type_ok[of "to_lower (path_extname p)", folded file_type_def] .
      then have "e = None" using 2(3) by (auto simp: nr_stream_def Let_def split: if_splits)
      then show ?thesis using 2(1) NoRange by (intro disjI2 exI[of _ None]) (simp add: opened_as_def)
    qed simp
  qed
qed

text \<open>The file \<open>p\<close> is what the root holds under some path: the real path of a path, inside the real root and a regular
  file, or the index file of such a directory.\<close>

definition under_root :: "static_config \<Rightarrow> file_system \<Rightarrow> string \<Rightarrow> bool" where
  "under_root cfg fsys p \<longleftrightarrow>
     (\<exists>root_real. fs_realpath fsys (sf_root cfg) = Inr root_real \<and> (p = root_real \<or> (\<exists>rest. p = root_real @ ''/'' @ rest)) \<and> (\<exists>q. fs_realpath fsys q = Inr p))"

definition may_open :: "static_config \<Rightarrow> file_system \<Rightarrow> (string \<Rightarrow> int option) \<Rightarrow> request \<Rightarrow> string \<times> (int \<times> int) option \<Rightarrow> native_response \<Rightarrow> bool" where
  "may_open cfg fsys date_parse req f r \<longleftrightarrow>
     (under_root cfg fsys (fst f) \<and> (\<exists>st. fs_stat fsys (fst f) = Inr st \<and> fs_kind st = RegularFile \<and> opened_as date_parse req (fst f) st (snd f) r))
     \<or> (\<exists>d. under_root cfg fsys d \<and> sf_serve_index cfg \<and> fst f = index_path d \<and> snd f = None
            \<and> (\<exists>st. fs_stat fsys d = Inr st \<and> fs_kind st = Directory))"

lemma static_body_opens:
  assumes "static_body cfg fsys date_parse ser req root_real w = (fe, e, r, os)" "fs_realpath fsys (sf_root cfg) = Inr root_real"
  shows "os = snd w \<or> (fe = None \<and> (\<exists>f. os = snd w @ [f] \<and> may_open cfg fsys date_parse req f r \<and> (snd f \<noteq> None \<longrightarrow> e = None)))"
proof -
  have quiet: "os = snd w" if "(fe, e, r, os) = (None, send_error ser c m w)" for c m
    using that opens_nothingD[of "send_error ser c m" w] by (cases "send_error ser c m w") simp
  consider decoded where "uri_decode (wildcard_param req) = Some decoded" | "os = snd w"
    using assms(1) quiet[of 400 "''Bad Request''"] by (cases "uri_decode (wildcard_param req)") (simp_all add: static_body_def)
  then show ?thesis
  proof cases
    case 1
    let ?n = "path_normalize (map (\<lambda>c. if c = CHR 0x5C then CHR ''/'' else c) decoded)"
    let ?q = "path_resolve root_real ?n"
    show ?thesis
    proof (cases "(CHR 0x00 \<in> set decoded \<or> path_is_absolute decoded) \<or> climbs ?n")
      case True
      then have "(fe, e, r, os) = (None, send_error ser 403 ''Forbidden'' w)"
        using assms(1) 1 by (cases "CHR 0x00 \<in> set decoded \<or> path_is_absolute decoded") (simp_all add: static_body_def Let_def)
      then show ?thesis using quiet by blast
    next
      case ok: False
      show ?thesis
      proof (cases "fs_realpath fsys ?q")
        case (Inl x)
        then show ?thesis using assms(1) 1 ok by (simp add: static_body_def Let_def)
      next
        case (Inr p)
        show ?thesis
        proof (cases "within_root root_real p")
          case False
          then have "(fe, e, r, os) = (None, send_error ser 403 ''Forbidden'' w)"
            using assms(1) 1 ok Inr by (simp add: static_body_def Let_def)
          then show ?thesis using quiet by blast
        next
          case inside: True
          have u: "under_root cfg fsys p" using inside Inr assms(2) by (auto simp: under_root_def within_root_def starts_with_def prefix_def)
          show ?thesis
          proof (cases "fs_stat fsys p")
            case (Inl x)
            then show ?thesis using assms(1) 1 ok Inr inside by (simp add: static_body_def Let_def)
          next
            case st: (Inr st)
            have body: "(fe, e, r, os) = (None, if fs_kind st = Directory then
                 (if sf_serve_index cfg then serve_index cfg fsys ser p w else send_error ser 403 ''Forbidden'' w)
               else if fs_kind st \<noteq> RegularFile then send_error ser 404 ''File not found'' w
               else serve_file cfg date_parse ser req p st w)"
              using assms(1) 1 ok Inr inside st by (simp add: static_body_def Let_def)
            show ?thesis
            proof (cases "fs_kind st")
              case Directory
              show ?thesis
              proof (cases "sf_serve_index cfg")
                case True
                with body Directory have "serve_index cfg fsys ser p w = (e, r, os)" "fe = None" by simp_all
                from serve_index_opens[OF this(1)] this(2) True Directory u st show ?thesis by (auto simp: may_open_def)
              next
                case False
                then show ?thesis using body Directory quiet by simp
              qed
            next
              case RegularFile
              with body have "serve_file cfg date_parse ser req p st w = (e, r, os)" "fe = None" by simp_all
              from serve_file_opens[OF this(1)] this(2) RegularFile u st show ?thesis unfolding may_open_def by force
            next
              case OtherFile
              then show ?thesis using body quiet by simp
            qed
          qed
        qed
      qed
    qed
  qed simp
qed

text \<open>C33. Whatever path, headers and links a client comes with, \<open>serveStatic\<close> opens at most one file, and that is a
  regular file under the root once every symbolic link is resolved, or the index file of such a directory; when
  only a range is read, the response has status 206 and announces exactly that range.\<close>

theorem static_contained:
  assumes "static_handler cfg fsys date_parse ser req (r0, []) = (e, r, opened)"
  shows "opened = [] \<or> (\<exists>f. opened = [f] \<and> may_open cfg fsys date_parse req f r)"
proof (cases "fs_realpath fsys (sf_root cfg)")
  case (Inl x)
  then show ?thesis
    using assms opens_nothingD[of "send_error ser 404 ''File not found''" "(r0, [])"]
      opens_nothingD[of "send_error ser 500 ''Internal Server Error''" "(r0, [])"]
    by (auto simp: static_handler_def answer_fs_error_def split: if_splits)
next
  case (Inr root_real)
  obtain fe e1 r1 o1 where b: "static_body cfg fsys date_parse ser req root_real (r0, []) = (fe, e1, r1, o1)" by (metis prod.exhaust)
  have quiet: "snd (snd (send_error ser c m (r1, o1))) = o1" for c m using opens_nothingD[of "send_error ser c m" "(r1, o1)"] by simp
  have os: "opened = o1"
    using assms Inr b quiet[of 404 "''File not found''"] quiet[of 500 "''Internal Server Error''"]
    by (cases fe; cases e1) (auto simp: static_handler_def answer_fs_error_def split: if_splits)
  from static_body_opens[OF b Inr] consider "o1 = []"
    | f where "fe = None" "o1 = [f]" "may_open cfg fsys date_parse req f r1" "snd f \<noteq> None \<longrightarrow> e1 = None" by auto
  then show ?thesis
  proof cases
    case 1
    then show ?thesis using os by simp
  next
    case (2 f)
    have "may_open cfg fsys date_parse req f r"
    proof (cases "snd f = None")
      case True
      then show ?thesis using 2(3) by (simp add: may_open_def opened_as_def)
    next
      case False
      then have "r = r1" using 2(1,4) assms Inr b by (simp add: static_handler_def)
      then show ?thesis using 2(3) by simp
    qed
    then show ?thesis using os 2(2) by blast
  qed
qed

text \<open>The index file is opened where it is, not where a link leads: its own real path is never asked for.\<close>

lemma index_not_resolved:
  assumes "fs_stat fsys (index_path d) = Inr st" "fs_kind st = RegularFile"
  shows "serve_index cfg (fsys\<lparr>fs_realpath := g\<rparr>) ser d = serve_index cfg fsys ser d"
  by (simp add: serve_index_def fun_eq_iff)

subsection \<open>A concrete site\<close>

definition demo_fs :: file_system where
  "demo_fs = \<lparr>fs_realpath = (\<lambda>p. if p = ''/www'' \<or> p = ''/www/a.txt'' then Inr p else if p = ''/www/up'' then Inr ''/etc/key'' else Inl NotFound),
     fs_stat = (\<lambda>p. if p = ''/www/a.txt'' \<or> p = ''/etc/key'' then Inr \<lparr>fs_kind = RegularFile, fs_size = 10, fs_mtime = 0, fs_ino = 7\<rparr> else Inl NotFound)\<rparr>"

definition demo_site :: static_config where
  "demo_site = static_config_of ''/'' \<lparr>so_prefix = ''/files'', so_root = ''www'', so_force_download = None, so_cache_control = None, so_serve_index = None\<rparr>"

definition site_request :: "string \<Rightarrow> request" where
  "site_request p = \<lparr>rq_method = GET, rq_path = ''/files/'' @ p, rq_headers = [(''range'', [''bytes=2-4''])], rq_ip = [], rq_body = JUndef,
     rq_query = JUndef, rq_params = JObj [(''*'', JStr p)], rq_aborted = False\<rparr>"

definition site_answer :: "string \<Rightarrow> thrown option \<times> static_world" where
  "site_answer p = static_handler demo_site demo_fs (\<lambda>_. None) (\<lambda>_. SerValue JNull) (site_request p) (nr_new GET [], [])"

theorem static_contained_witness:
  "snd (snd (site_answer ''up'')) = []
   \<and> (\<exists>f. snd (snd (site_answer ''a.txt'')) = [f] \<and> f = (''/www/a.txt'', Some (2, 4))
        \<and> may_open demo_site demo_fs (\<lambda>_. None) (site_request ''a.txt'') f (fst (snd (site_answer ''a.txt''))))"
proof -
  have o1: "snd (snd (site_answer ''up'')) = []" by code_simp
  have o2: "snd (snd (site_answer ''a.txt'')) = [(''/www/a.txt'', Some (2, 4))]" by code_simp
  obtain e r os where a: "site_answer ''a.txt'' = (e, r, os)" by (metis prod.exhaust)
  from static_contained[OF a[unfolded site_answer_def]] show ?thesis using o1 o2 a by simp
qed

end
