(* ===== verification/Cors_Props.thy ===== *)
theory Cors_Props
  imports Cors Static_Props
begin

text \<open>
  Which origins \<open>useCors\<close> lets read a response: exactly those the options admit, and never every origin together
  with credentials.
\<close>

text \<open>What the options admit, read off the options alone. A pattern counts with \<open>^\<close> before its text and \<open>$\<close> after
  it where they are missing, put there without a group: of \<open>a|b\<close> only the ends are anchored.\<close>

definition between_anchors :: "js_regexp \<Rightarrow> js_regexp" where
  "between_anchors re = re\<lparr>re_source :=
     (if prefix ''^'' (re_source re) then [] else ''^'') @ re_source re @ (if suffix ''$'' (re_source re) then [] else ''$'')\<rparr>"

lemma anchor_between: "anchor_regexp re = between_anchors re"
proof -
  have "suffix ''$'' (CHR ''^'' # s) = suffix ''$'' s" for s by (cases s) (auto simp: suffix_Cons)
  then show ?thesis
    by (cases re) (auto simp: anchor_regexp_def anchored_def between_anchors_def starts_with_def ends_with_def Let_def prefix_def suffix_def)
qed

definition cors_admits :: "(js_regexp \<Rightarrow> string \<Rightarrow> bool) \<Rightarrow> cors_origin \<Rightarrow> string \<Rightarrow> bool" where
  "cors_admits test opt o1 \<longleftrightarrow>
     (case opt of
        OriginBool b \<Rightarrow> b \<and> o1 \<noteq> ''null''
      | OriginText t \<Rightarrow> t = ''*'' \<or> t = o1
      | OriginRegexp re \<Rightarrow> test (between_anchors re) o1
      | OriginList es \<Rightarrow> (\<exists>e \<in> set es. case e of EntryText t \<Rightarrow> t = o1 | EntryRegexp re \<Rightarrow> test (between_anchors re) o1)
      | OriginFun f \<Rightarrow> f (Some o1) = Inr True)"

text \<open>What a browser at the origin \<open>o1\<close> concludes from the response.\<close>

definition readable :: "native_response \<Rightarrow> string \<Rightarrow> bool" where
  "readable r o1 \<longleftrightarrow> map_of (nr_headers r) ''Access-Control-Allow-Origin'' \<in> {Some ''*'', Some o1}"

lemma resolve_admits:
  assumes "use_cors opts = Inr cfg" "resolve_origin test cfg (Some o1) = Inr res" "o1 \<noteq> []"
  shows "(present res = Some ''*'' \<or> present res = Some o1) \<longleftrightarrow> cors_admits test (or_default (OriginText ''*'') (co_origin opts)) o1"
    and "present res \<in> {None, Some ''*'', Some o1}"
    and "cc_credentials cfg \<Longrightarrow> o1 \<noteq> ''*'' \<Longrightarrow> present res \<noteq> Some ''*''"
proof -
  let ?opt = "or_default (OriginText ''*'') (co_origin opts)"
  have c: "cc_origin cfg = normalized_origin ?opt" "cc_credentials cfg = or_default False (co_credentials opts)"
    "cc_credentials cfg \<Longrightarrow> \<not> any_origin ?opt"
    using assms(1) by (auto simp: use_cors_def Let_def split: if_splits)
  have all: "((present res = Some ''*'' \<or> present res = Some o1) \<longleftrightarrow> cors_admits test ?opt o1)
      \<and> present res \<in> {None, Some ''*'', Some o1} \<and> (cc_credentials cfg \<and> o1 \<noteq> ''*'' \<longrightarrow> present res \<noteq> Some ''*'')"
  proof (cases ?opt)
    case (OriginFun f)
    then show ?thesis
      using assms(2,3) c by (cases "f (Some o1)") (auto simp: resolve_origin_def normalized_origin_def cors_admits_def present_def split: if_splits)
  next
    case (OriginList es)
    have "list_ex (entry_matches test o1) (map (\<lambda>e. case e of EntryRegexp re \<Rightarrow> EntryRegexp (anchor_regexp re) | EntryText t \<Rightarrow> EntryText t) es)
        = cors_admits test ?opt o1"
      by (auto simp: OriginList cors_admits_def anchor_between list_ex_iff entry_matches_def split: origin_entry.splits)
    then show ?thesis
      using assms(2,3) c OriginList by (auto simp: resolve_origin_def normalized_origin_def present_def split: if_splits)
  qed (use assms(2,3) c in \<open>auto simp: resolve_origin_def normalized_origin_def cors_admits_def anchor_between present_def any_origin_def split: if_splits\<close>)
  show "(present res = Some ''*'' \<or> present res = Some o1) \<longleftrightarrow> cors_admits test ?opt o1" "present res \<in> {None, Some ''*'', Some o1}"
    "cc_credentials cfg \<Longrightarrow> o1 \<noteq> ''*'' \<Longrightarrow> present res \<noteq> Some ''*''"
    using all by blast+
qed

text \<open>Actions that leave a header alone when they succeed.\<close>

definition keeps_header :: "string \<Rightarrow> native_response act \<Rightarrow> bool" where
  "keeps_header k a \<longleftrightarrow> (\<forall>r r'. a r = (None, r') \<longrightarrow> map_of (nr_headers r') k = map_of (nr_headers r) k)"

lemma header_set:
  "nr_header k v r = (None, r') \<Longrightarrow> map_of (nr_headers r') k' = (if k' = k then Some v else map_of (nr_headers r) k')"
  by (auto simp: nr_header_def split: if_splits)

lemma keeps_nr_header: "k \<noteq> k' \<Longrightarrow> keeps_header k (nr_header k' v)"
  by (simp add: keeps_header_def header_set)

lemma send_headers: "nr_headers (snd (nr_send ser d m r)) = nr_headers r"
  by (auto simp: nr_send_def Let_def emit_def split: ser_result.splits option.splits)

lemma keeps_send: "keeps_header k (\<lambda>r. nr_send ser d m (nr_status c r))"
  unfolding keeps_header_def by (metis send_headers snd_conv nr_status_def native_response.ext_inject native_response.surjective native_response.update_convs(1))

lemma vary_set:
  assumes "set_vary v r = (None, r')" "map_of (nr_headers r) ''Vary'' = None"
  shows "map_of (nr_headers r') ''Vary'' = Some v"
  using assms header_set by (simp add: set_vary_def nr_get_header_def)

lemma keeps_vary: "k \<noteq> ''Vary'' \<Longrightarrow> keeps_header k (set_vary_values vs)"
  unfolding keeps_header_def set_vary_values_def set_vary_def nr_get_header_def Let_def
  by (auto simp: header_set split: option.splits if_splits)

lemma do_all_cons_ok: "do_all (a # B) r = (None, r2) \<Longrightarrow> \<exists>r1. a r = (None, r1) \<and> do_all B r1 = (None, r2)"
  by (cases "a r"; cases "fst (a r)") (auto simp: seq_act_def)

lemma do_all_one: "do_all [a] r = (None, r') \<Longrightarrow> a r = (None, r')"
  using do_all_cons_ok[of a "[]" r r'] by auto

lemma do_all_keeps_header:
  "\<forall>a \<in> set B. keeps_header k a \<Longrightarrow> do_all B r = (None, r') \<Longrightarrow> map_of (nr_headers r') k = map_of (nr_headers r) k"
proof (induction B arbitrary: r)
  case (Cons a B)
  obtain r1 where "a r = (None, r1)" "do_all B r1 = (None, r')" using do_all_cons_ok[OF Cons.prems(2)] by blast
  then show ?case using Cons unfolding keeps_header_def by simp
qed simp

subsection \<open>The parts of the hook\<close>

definition cors_plain :: "cors_config \<Rightarrow> native_response act list" where
  "cors_plain cfg = (if cc_credentials cfg then [nr_header ''Access-Control-Allow-Credentials'' ''true''] else [])
     @ (if cc_exposed cfg \<noteq> [] then [nr_header ''Access-Control-Expose-Headers'' (join_with '', '' (cc_exposed cfg))] else [])"

definition cors_tail :: "serializer \<Rightarrow> cors_config \<Rightarrow> request \<Rightarrow> string list \<Rightarrow> native_response act list" where
  "cors_tail ser cfg req vary = (if rq_method req = OPTIONS then preflight ser cfg req vary else [set_vary_values vary])"

lemma cors_hook_parts:
  assumes "single_header req ''origin'' = Some o1" "o1 \<noteq> []" "resolve_origin test cfg (Some o1) = Inr res"
  shows "cors_hook test ser cfg req r =
     do_all ((case present res of Some s \<Rightarrow> [nr_header ''Access-Control-Allow-Origin'' s] | None \<Rightarrow> [])
       @ cors_plain cfg @ cors_tail ser cfg req (if present res \<noteq> None \<and> present res \<noteq> Some ''*'' then [''Origin''] else [])) r"
  using assms by (simp add: cors_hook_def Let_def cors_plain_def cors_tail_def present_def)

lemma plain_keeps:
  "k \<notin> {''Access-Control-Allow-Credentials'', ''Access-Control-Expose-Headers''} \<Longrightarrow> \<forall>a \<in> set (cors_plain cfg). keeps_header k a"
  by (auto simp: cors_plain_def keeps_nr_header)

lemma tail_keeps_origin: "\<forall>a \<in> set (cors_tail ser cfg req vary). keeps_header ''Access-Control-Allow-Origin'' a"
  by (auto simp: cors_tail_def preflight_def keeps_nr_header keeps_vary keeps_send)

lemma tail_sets_vary:
  assumes "do_all (cors_tail ser cfg req [''Origin'']) r = (None, r')" "map_of (nr_headers r) ''Vary'' = None"
  shows "\<exists>v. map_of (nr_headers r') ''Vary'' = Some v \<and> ''Origin'' \<in> set (vary_items v)"
proof -
  have one: "''Origin'' \<in> set (vary_items (join_with '', '' (set_add_all [''Origin''] [])))" by code_simp
  have two: "''Origin'' \<in> set (vary_items (join_with '', '' (set_add_all ([''Origin''] @ [''Access-Control-Request-Headers'']) [])))" by code_simp
  show ?thesis
  proof (cases "rq_method req = OPTIONS")
    case False
    then have "do_all [set_vary_values [''Origin'']] r = (None, r')" using assms(1) by (simp only: cors_tail_def if_False)
    then have "set_vary_values [''Origin''] r = (None, r')" by (rule do_all_one)
    then have "set_vary (join_with '', '' (set_add_all [''Origin''] [])) r = (None, r')" by (simp only: set_vary_values_def list.distinct(2) if_False simp_thms)
    from vary_set[OF this assms(2)] one show ?thesis by blast
  next
    case True
    let ?vs = "[''Origin''] @ (if cc_vary_headers cfg \<and> cc_allowed cfg = [] then [''Access-Control-Request-Headers''] else [])"
    let ?pre = "[nr_header ''Access-Control-Allow-Methods'' (join_with '', '' (cc_methods cfg)),
      nr_header ''Access-Control-Allow-Headers''
        (if cc_allowed cfg \<noteq> [] then join_with '', '' (cc_allowed cfg)
         else (case single_header req ''access-control-request-headers'' of Some h \<Rightarrow> h | None \<Rightarrow> ''Content-Type, Authorization'')),
      nr_header ''Access-Control-Max-Age'' (show_int (cc_max_age cfg))]
     @ (if cc_private_network cfg \<and> single_header req ''access-control-request-private-network'' = Some ''true''
        then [nr_header ''Access-Control-Allow-Private-Network'' ''true''] else [])"
    let ?post = "if cc_continue cfg then [] else [\<lambda>r. nr_send ser JNull None (nr_status (cc_success cfg) r)]"
    have run: "do_all (?pre @ ([set_vary_values ?vs] @ ?post)) r = (None, r')"
      using assms(1) by (simp only: cors_tail_def if_P[OF True] preflight_def append_assoc)
    obtain r1 where r1: "do_all ?pre r = (None, r1)" "do_all ([set_vary_values ?vs] @ ?post) r1 = (None, r')"
      using do_all_ok[OF run] by blast
    obtain r2 where r2: "set_vary_values ?vs r1 = (None, r2)" "do_all ?post r2 = (None, r')"
      using do_all_cons_ok[of "set_vary_values ?vs" "?post" r1 r'] r1(2) unfolding append_Cons append_Nil by blast
    have "\<forall>a \<in> set ?pre. keeps_header ''Vary'' a" by (auto simp: keeps_nr_header)
    then have "map_of (nr_headers r1) ''Vary'' = None" using do_all_keeps_header[OF _ r1(1)] assms(2) by simp
    moreover have "set_vary (join_with '', '' (set_add_all ?vs [])) r1 = (None, r2)"
      using r2(1) by (simp only: set_vary_values_def append_Cons list.distinct(2) if_False simp_thms)
    ultimately have v: "map_of (nr_headers r2) ''Vary'' = Some (join_with '', '' (set_add_all ?vs []))"
      using vary_set by blast
    have "map_of (nr_headers r') ''Vary'' = map_of (nr_headers r2) ''Vary''"
      by (rule do_all_keeps_header[OF _ r2(2)]) (simp add: keeps_send)
    moreover have "''Origin'' \<in> set (vary_items (join_with '', '' (set_add_all ?vs [])))"
      using one two by (cases "cc_vary_headers cfg \<and> cc_allowed cfg = []") (simp_all only: if_P if_not_P append_Nil2 simp_thms if_True if_False)
    ultimately show ?thesis using v by metis
  qed
qed

text \<open>C34. A page of the origin \<open>o1\<close> may read a response exactly when the options admit \<open>o1\<close>: the hook puts
  \<open>Access-Control-Allow-Origin\<close> with this origin or with \<open>*\<close> in that case and in no other, never \<open>*\<close> when credentials
  are allowed, and says \<open>Vary: Origin\<close> when the answer names the origin. A pattern admits what it matches
  with an anchor put at either end of it, without a group around it.\<close>

theorem cors_exact:
  assumes "use_cors opts = Inr cfg" "single_header req ''origin'' = Some o1" "o1 \<noteq> []" "o1 \<noteq> ''*''"
    and "map_of (nr_headers r) ''Access-Control-Allow-Origin'' = None" "map_of (nr_headers r) ''Vary'' = None"
    and "cors_hook test ser cfg req r = (None, r')"
  shows "(readable r' o1 \<longleftrightarrow> cors_admits test (or_default (OriginText ''*'') (co_origin opts)) o1)
     \<and> (\<forall>o2. readable r' o2 \<longrightarrow> o2 = o1 \<or> (map_of (nr_headers r') ''Access-Control-Allow-Origin'' = Some ''*'' \<and> co_credentials opts \<noteq> Some True))
     \<and> (map_of (nr_headers r') ''Access-Control-Allow-Origin'' = Some o1 \<longrightarrow>
          (\<exists>v. map_of (nr_headers r') ''Vary'' = Some v \<and> ''Origin'' \<in> set (vary_items v)))"
proof -
  obtain res where res: "resolve_origin test cfg (Some o1) = Inr res"
  proof (cases "resolve_origin test cfg (Some o1)")
    case (Inl x)
    then have "cors_hook test ser cfg req r = (Some x, r)" by (simp only: cors_hook_def assms(2) Let_def sum.case)
    with assms(7) show ?thesis by simp
  qed
  note adm = resolve_admits[OF assms(1) res assms(3)]
  have cred: "cc_credentials cfg = (co_credentials opts = Some True)"
  proof -
    have "cc_credentials cfg = or_default False (co_credentials opts)"
      using assms(1) by (auto simp: use_cors_def Let_def split: if_splits)
    then show ?thesis by (cases "co_credentials opts") (simp_all add: or_default_def)
  qed
  let ?vary = "if present res \<noteq> None \<and> present res \<noteq> Some ''*'' then [''Origin''] else []"
  let ?first = "case present res of Some s \<Rightarrow> [nr_header ''Access-Control-Allow-Origin'' s] | None \<Rightarrow> []"
  have run: "do_all (?first @ (cors_plain cfg @ cors_tail ser cfg req ?vary)) r = (None, r')"
    using assms(7) unfolding cors_hook_parts[OF assms(2,3) res] .
  obtain r1 where r1: "do_all ?first r = (None, r1)" "do_all (cors_plain cfg @ cors_tail ser cfg req ?vary) r1 = (None, r')"
    using do_all_ok[OF run] by blast
  obtain r2 where r2: "do_all (cors_plain cfg) r1 = (None, r2)" "do_all (cors_tail ser cfg req ?vary) r2 = (None, r')"
    using do_all_ok[OF r1(2)] by blast
  have first: "map_of (nr_headers r1) ''Access-Control-Allow-Origin'' = present res" "map_of (nr_headers r1) ''Vary'' = None"
  proof -
    have "map_of (nr_headers r1) ''Access-Control-Allow-Origin'' = present res \<and> map_of (nr_headers r1) ''Vary'' = None"
    proof (cases "present res")
      case None
      then show ?thesis using r1(1) assms(5,6) by simp
    next
      case (Some s)
      then have "do_all [nr_header ''Access-Control-Allow-Origin'' s] r = (None, r1)" using r1(1) by simp
      from header_set[OF do_all_one[OF this]] show ?thesis using assms(6) Some by simp
    qed
    then show "map_of (nr_headers r1) ''Access-Control-Allow-Origin'' = present res" "map_of (nr_headers r1) ''Vary'' = None" by auto
  qed
  have acao: "map_of (nr_headers r') ''Access-Control-Allow-Origin'' = present res"
    using do_all_keeps_header[OF tail_keeps_origin r2(2)]
      do_all_keeps_header[OF plain_keeps[of "''Access-Control-Allow-Origin''" cfg] r2(1)] first(1) by simp
  have v2: "map_of (nr_headers r2) ''Vary'' = None" using do_all_keeps_header[OF plain_keeps r2(1)] first(2) by simp
  have "\<exists>v. map_of (nr_headers r') ''Vary'' = Some v \<and> ''Origin'' \<in> set (vary_items v)" if "present res = Some o1"
  proof -
    have "?vary = [''Origin'']" using that assms(4) by simp
    from tail_sets_vary[OF r2(2)[unfolded this] v2] show ?thesis .
  qed
  moreover have "o2 = o1 \<or> (present res = Some ''*'' \<and> co_credentials opts \<noteq> Some True)" if "readable r' o2" for o2
  proof -
    have p: "present res = Some ''*'' \<or> present res = Some o2" using that unfolding readable_def acao by simp
    show ?thesis
    proof (cases "present res = Some ''*''")
      case True
      then show ?thesis using adm(3)[OF _ assms(4)] cred by metis
    next
      case False
      then show ?thesis using p adm(2) by simp
    qed
  qed
  moreover have "readable r' o1 \<longleftrightarrow> cors_admits test (or_default (OriginText ''*'') (co_origin opts)) o1"
    using adm(1) unfolding readable_def acao by simp
  ultimately show ?thesis unfolding acao by blast
qed

subsection \<open>What goes wrong\<close>

text \<open>An origin that is not admitted gets a response without \<open>Vary: Origin\<close>, which a cache may then give to one that is.\<close>

lemma refused_without_vary:
  assumes "resolve_origin test cfg (Some o1) = Inr None" "single_header req ''origin'' = Some o1" "o1 \<noteq> []"
    and "rq_method req \<noteq> OPTIONS" "map_of (nr_headers r) ''Vary'' = None" "cors_hook test ser cfg req r = (None, r')"
  shows "map_of (nr_headers r') ''Vary'' = None"
proof -
  have "do_all (cors_plain cfg @ [set_vary_values []]) r = (None, r')"
    using assms(6) unfolding cors_hook_parts[OF assms(2,3,1)] cors_tail_def if_not_P[OF assms(4)] by (simp only: present_def option.case append_Nil simp_thms if_False)
  moreover have "\<forall>a \<in> set (cors_plain cfg). keeps_header ''Vary'' a" by (rule plain_keeps) simp
  then have "\<forall>a \<in> set (cors_plain cfg @ [set_vary_values []]). keeps_header ''Vary'' a"
    by (simp add: keeps_header_def set_vary_values_def)
  ultimately have "map_of (nr_headers r') ''Vary'' = map_of (nr_headers r) ''Vary''" by (intro do_all_keeps_header)
  then show ?thesis using assms(5) by simp
qed

text \<open>Anchoring an alternation anchors only its ends.\<close>

lemma anchored_alternation:
  "re_source (anchor_regexp \<lparr>re_source = ''a[.]com|b[.]com'', re_flags = []\<rparr>) = ''^a[.]com|b[.]com$''"
  "anchor_regexp \<lparr>re_source = ''^a[.]com|b[.]com$'', re_flags = []\<rparr> = \<lparr>re_source = ''^a[.]com|b[.]com$'', re_flags = []\<rparr>"
  by code_simp+

text \<open>The values go to \<open>setVary\<close> joined, so one that is there already is repeated.\<close>

lemma vary_repeated:
  "snd (set_vary_values [''Origin'', ''Access-Control-Request-Headers''] ((nr_new GET [])\<lparr>nr_headers := [(''Vary'', ''Origin'')]\<rparr>))
   = (nr_new GET [])\<lparr>nr_headers := [(''Vary'', ''Origin, Origin, Access-Control-Request-Headers'')]\<rparr>"
  by code_simp

subsection \<open>An instance\<close>

definition demo_cors :: cors_options where
  "demo_cors = \<lparr>co_origin = Some (OriginList [EntryText ''https://a.example'']), co_methods = None, co_allowed = None, co_exposed = None,
     co_credentials = Some True, co_cors_max_age = None, co_continue = None, co_success = None, co_private_network = None,
     co_vary_headers = None, co_strict = None\<rparr>"

definition cors_request :: "string \<Rightarrow> request" where
  "cors_request o1 = \<lparr>rq_method = GET, rq_path = ''/'', rq_headers = [(''origin'', [o1])], rq_ip = [], rq_body = JUndef,
     rq_query = JUndef, rq_params = JObj [], rq_aborted = False\<rparr>"

definition cors_answer :: "string \<Rightarrow> thrown option \<times> native_response" where
  "cors_answer o1 = (case use_cors demo_cors of
     Inr cfg \<Rightarrow> cors_hook (\<lambda>_ _. False) (\<lambda>_. SerValue JNull) cfg (cors_request o1) (nr_new GET []) | Inl e \<Rightarrow> (Some e, nr_new GET []))"

theorem cors_exact_witness:
  "readable (snd (cors_answer ''https://a.example'')) ''https://a.example''
   \<and> \<not> readable (snd (cors_answer ''https://b.example'')) ''https://b.example''"
proof -
  obtain cfg where cfg: "use_cors demo_cors = Inr cfg" by (auto simp: use_cors_def demo_cors_def or_default_def Let_def any_origin_def reflect_all_def)
  have h: "single_header (cors_request o1) ''origin'' = Some o1" for o1 by (simp add: single_header_def cors_request_def)
  have n: "map_of (nr_headers (nr_new GET [])) k = None" for k by (simp add: nr_new_def)
  have run: "cors_hook (\<lambda>_ _. False) (\<lambda>_. SerValue JNull) cfg (cors_request o1) (nr_new GET []) = (None, snd (cors_answer o1))"
    if "fst (cors_answer o1) = None" for o1
    using that cfg by (cases "cors_answer o1") (simp add: cors_answer_def)
  have f: "fst (cors_answer ''https://a.example'') = None" "fst (cors_answer ''https://b.example'') = None" by code_simp+
  have a: "cors_admits (\<lambda>_ _. False) (or_default (OriginText ''*'') (co_origin demo_cors)) ''https://a.example''"
    "\<not> cors_admits (\<lambda>_ _. False) (or_default (OriginText ''*'') (co_origin demo_cors)) ''https://b.example''"
    by (simp_all add: cors_admits_def demo_cors_def or_default_def)
  show ?thesis
    using cors_exact[OF cfg h _ _ n n run[OF f(1)]] cors_exact[OF cfg h _ _ n n run[OF f(2)]] a by simp
qed

subsection \<open>useHelmet\<close>

text \<open>After the hook the response has exactly the configured headers beside those it had, less the removed ones.\<close>

lemma put_all_headers:
  "do_all (map (\<lambda>(k, v). nr_header k v) hs) r = (None, r') \<Longrightarrow> nr_headers r' = fold (\<lambda>(k, v) m. AList.update k v m) hs (nr_headers r)"
proof (induction hs arbitrary: r)
  case (Cons h hs)
  obtain k v where h: "h = (k, v)" by (metis prod.exhaust)
  obtain r1 where r1: "nr_header k v r = (None, r1)" "do_all (map (\<lambda>(k, v). nr_header k v) hs) r1 = (None, r')"
    using do_all_cons_ok[of "nr_header k v" "map (\<lambda>(k, v). nr_header k v) hs" r r'] Cons.prems h by (auto simp del: do_all.simps(2))
  then have "nr_headers r1 = AList.update k v (nr_headers r)" by (auto simp: nr_header_def split: if_splits)
  then show ?case using Cons.IH[OF r1(2)] h by simp
qed simp

lemma removed_headers: "nr_headers (fold nr_remove_header ks r) = fold AList.delete ks (nr_headers r)"
  by (induction ks arbitrary: r) (simp_all add: nr_remove_header_def)

lemma helmet_exact:
  assumes "helmet_hook p r = (None, r')"
  shows "nr_headers r' = fold AList.delete (helmet_removed p) (fold (\<lambda>(k, v) m. AList.update k v m) (helmet_headers p) (nr_headers r))"
proof -
  let ?D = "do_all (map (\<lambda>(k, v). nr_header k v) (helmet_headers p))"
  obtain r1 where r1: "?D r = (None, r1)" "r' = fold nr_remove_header (helmet_removed p) r1"
    using assms by (cases "?D r"; cases "fst (?D r)") (auto simp: helmet_hook_def seq_act_def)
  then show ?thesis using put_all_headers[OF r1(1)] by (simp add: removed_headers)
qed

end
