(* ===== verification/Spec2Isabelle.thy ===== *)
theory Spec2Isabelle
  imports Router_Props Dispatcher_Props Cookies Native_Response Cache_Provenance Rate_Limiter Jobs_Props App_Props Api_Key_Props Session_Props
    Sdk_Client_Props Sdk_Stream_Props Security_Props Ws_Cluster Vault_Redact Cors_Props
begin

text \<open>
  A verification development for Axiomify, a web framework in TypeScript (a monorepo: every path
  below is relative to \<open>packages/\<close>).

  \<^bold>\<open>How a request goes through the program\<close>

  An adapter (\<open>native/\<close>) hands a request and a response to the request dispatcher (\<open>core/src/dispatcher.ts\<close>),
  which runs the \<open>onRequest\<close> hooks (\<open>core/src/lifecycle.ts\<close>), looks the route up in the trie
  (\<open>core/src/router.ts\<close>), validates the input (\<open>core/src/validation.ts\<close>) and runs the pipeline of the
  route; the handler answers through the response (\<open>native/src/response.ts\<close>), which prints cookies
  (\<open>core/src/cookies.ts\<close>) and serializes bodies (\<open>core/src/serialize.ts\<close>). Plugins are hooks and
  middleware on that path: the response cache (\<open>cache/\<close>) answers before routing and wraps \<open>send\<close>, the
  rate limiter (\<open>rate-limit/\<close>) runs before the handler. The job scheduler (\<open>jobs/\<close>) runs beside it.

  \<^bold>\<open>Theories\<close>

  \<^item> \<open>Prelude\<close>: insertion-ordered maps, the string functions of the source, decimal numbers, the error
    monad, and the lemmas every component shares. \<open>Js_Value\<close>: JavaScript values, \<open>String(v)\<close>,
    \<open>JSON.stringify\<close>, \<open>sanitizeInput\<close> (\<open>core/src/sanitize.ts\<close>) and the write-once request state
    (\<open>core/src/state.ts\<close>).
  \<^item> \<open>Router\<close> models the trie, its registration with conflict checks and its lookup with the shared
    parameter accumulator; \<open>Router_Spec\<close> gives routes their meaning as patterns over segments and
    proves that the trie represents the set of registered routes; \<open>Router_Props\<close> has the properties:
    lookup is sound, complete and prefers the most specific route, the methods reported for a 405
    are the ones that would be served, registration fails exactly on the documented conflicts.
  \<^item> \<open>Hooks\<close> (\<open>core/src/lifecycle.ts\<close>, \<open>core/src/errors.ts\<close>): a handler is a state transformer \<open>'w act\<close>
    that returns what it threw; \<open>run\<close> stops at the first exception, \<open>runSafe\<close> never does.
  \<^item> \<open>Validation\<close> and \<open>Dispatcher\<close> follow \<open>core/src/validation.ts\<close>, \<open>core/src/compiled.ts\<close> and
    \<open>core/src/dispatcher.ts\<close> call by call; the adapter is a record of operations, user code is the
    function \<open>dc_call\<close>. \<open>Dispatcher_Props\<close> states what an adapter promises (locale
    \<open>response_adapter\<close>) and proves what clients see for unknown routes, wrong methods and failing
    handlers. \<open>Native_Response\<close> models the native adapter's response as the list of calls it makes on
    the socket, with its server-sent events buffer, and interprets the locale on it.
  \<^item> \<open>App_Registry\<close> (\<open>core/src/registry.ts\<close>, \<open>core/src/deprecation.ts\<close>) and \<open>App\<close> (\<open>core/src/app.ts\<close>): what
    registering a route does to validator, compiled state, router and routes; services, modules, route
    groups with their hooks, locking. \<open>App_Props\<close>: the registry invariant over any registrations, what
    provision, bootstrap and lock freeze over the step relation \<open>app_step\<close>, the scope of group hooks,
    module resolution, and two defects.
  \<^item> \<open>Cookies\<close>: parsing, printing, signing (the HMAC is a parameter). Printing cannot inject an
    attribute, and what is printed is parsed back.
  \<^item> \<open>Cache_Store\<close> (the in-memory LRU store and the locale \<open>cache_store\<close> of what a store promises),
    \<open>Cache_Key\<close> (keys, entity tags, \<open>If-None-Match\<close>, \<open>Cache-Control\<close>), \<open>Cache_Plugin\<close> (\<open>useCache\<close>: lookup,
    stale-while-revalidate, the wrapped \<open>send\<close>, invalidation) and \<open>Cache_Provenance\<close>: whatever an
    application did, an answer from the cache was written by an earlier response for the same key
    that may be shared, and was not invalidated since. The hash of entity tags is a parameter.
  \<^item> \<open>Rate_Limit\<close>: the memory and Redis stores and the limiter. \<open>Rate_Limit_Props\<close>: the locale \<open>rate_store\<close>
    says that a store counts sliding windows exactly while the active keys fit; the memory store
    (timestamps with a moving start index, compaction, pruning, eviction) is shown to refine that.
    \<open>Rate_Limiter\<close>: no window of \<open>windowMs\<close> milliseconds, wherever it opens, lets more than \<open>max\<close>
    requests of a key through; the limiter fails closed; the Redis store calls the script once.
  \<^item> \<open>Jobs_Cron\<close>, \<open>Jobs_Storage\<close>, \<open>Jobs_Scheduler\<close>, \<open>Jobs_Props\<close>: cron matching, the memory storage with
    the locale \<open>job_storage\<close>, the scheduler as the step relation \<open>sched_step\<close> with its invariants over all
    reachable states (bounded concurrency, no stall, one worker per job, bounded attempts), sagas.
  \<^item> \<open>Jwt\<close> (\<open>auth/src/jwt.ts\<close>), \<open>Token_Auth\<close> (\<open>auth/src/index.ts\<close>), \<open>Api_Key\<close> (\<open>auth/src/apikey.ts\<close>,
    \<open>auth/src/jwks.ts\<close>): tokens, the authentication plugin with its revocation store, the refresh handler
    cut at its \<open>await\<close>s, API keys, cached key sets. \<open>Jwt_Props\<close>: exactly which tokens verify, no algorithm
    confusion, what is signed verifies. \<open>Token_Auth_Props\<close>: the locale \<open>token_store\<close>, kept by the memory store;
    exactly which requests go on; no refresh costs a session; refreshes spend a token once when they do
    not overlap and twice when they do. \<open>Api_Key_Props\<close>: keys authenticate, what an unknown id costs, how often
    a key set is fetched.
  \<^item> \<open>Session\<close> (\<open>session/src/\<close>): the session of a request with its flags, the tracked writes, the hooks that
    attach and persist it, the memory and Redis stores. \<open>Session_Props\<close>: the locales \<open>session_store\<close> and
    \<open>reliable_store\<close>, kept by the memory store; whose session a request gets, that what the handler leaves
    in it is what the store holds, that destroyed sessions stay destroyed within a request and can return
    through an overlapping one, and a round through the browser.
  \<^item> \<open>Sdk_Core\<close>, \<open>Sdk_Client\<close>, \<open>Sdk_Stream\<close> (\<open>sdk-runtime/src/\<close>): the client side. \<open>Sdk_Core_Props\<close>: when the
    circuit breaker trips, what it blocks, what the retry loop does, the response cache, the offline queue.
    \<open>Sdk_Client_Props\<close>: \<open>JSON.stringify\<close> is injective on cache keys, so no cached answer crosses a boundary of
    authorization, and one execution per key is in flight. \<open>Sdk_Stream_Props\<close>: the client reads what the
    server's \<open>sseSend\<close> prints, loses an event cut between chunks, and keeps one connection until the user
    disconnects.
  \<^item> \<open>Json\<close>: \<open>JSON.parse\<close>, and that it reads back what \<open>JSON.stringify\<close> prints.
  \<^item> \<open>Security\<close> (\<open>security/src/\<close>): the sanitizer, whose regular expressions are functions on the text after a
    position, the detectors and the hook. \<open>Security_Props\<close>: sanitizing only leaves characters out and
    keeps every value in its place; no operator key passes the hook; ways around the script filter.
  \<^item> \<open>Ws_Rooms\<close> (\<open>ws/src/room-manager.ts\<close>, \<open>ws/src/room.ts\<close>): rooms of WebSocket clients as the function
    \<open>room_step\<close> over the callbacks and calls of one manager, uWebSockets.js being the list of sockets
    with the topics of each and what it was sent. \<open>Ws_Rooms_Props\<close> has the invariant and that every step
    keeps it, over the relation \<open>rooms_reach\<close>; \<open>Ws_Delivery\<close> what follows: who gets a broadcast or a message,
    who can come in, what presence shows. \<open>Ws_Broker\<close> (\<open>ws/src/broker.ts\<close>): both brokers, with the locale
    \<open>pubsub\<close> of what the interface promises, interpreted on each. \<open>Ws_Cluster\<close>: subscriptions follow the rooms,
    messages survive JSON and base64, and a broadcast reaches every member in the cluster once.
  \<^item> \<open>Vault_Crypto\<close>, \<open>Vault_Env\<close>, \<open>Vault\<close>, \<open>Vault_Open\<close> (\<open>vault/src/\<close>): keys and envelopes over a sealing function
    that is a parameter, the parser of environment files, the operations of the vault with the proxy of
    \<open>process.env\<close> and the redaction of the streams, and its construction from file and sources. An
    operation maps the pair of vault and host. \<open>Vault_Props\<close>, \<open>Vault_Persist\<close>, \<open>Vault_Access\<close>: what reads leave
    alone, what the file keeps, runs of operations; \<open>Vault_Redact\<close>: redaction, the guarantees, and what the
    code does otherwise than its documents say.
  \<^item> \<open>Static_Files\<close> (\<open>static/src/\<close>): \<open>serveStatic\<close> over a record of \<open>realpath\<close> and \<open>stat\<close>, with a log of the
    files opened; \<open>Static_Props\<close>: what ranges mean, and that nothing outside the root is opened. \<open>Cors\<close>
    (\<open>cors/src/\<close>, \<open>helmet/src/\<close>): the two header plugins; \<open>Cors_Props\<close>: who may read a response.

  \<^bold>\<open>Conventions\<close>

  A JavaScript string is a list of 8-bit characters; a \<open>Map\<close> or an object is an association list in
  insertion order; numbers are \<open>int\<close> (the modelled code uses integers only), \<open>Date.now()\<close> is an
  argument of the operation that reads it, and an exception is a value. Asynchronous code is a
  sequence of steps: what runs between two \<open>await\<close>s is one step, and where the interleaving matters
  (the job scheduler, the events buffer) the steps are the callbacks of the runtime. Loops are
  structural recursions or functions with a termination proof (the start index of a hits record, the
  slots left to a scheduler tick, the length of a cron field), so the only fuel is
  that of the module resolver, which is shown to end with one unit per dependency and one more.
  External code (schema validators, the serializer, HMAC and SHA-1, the Redis client, UUIDs, the
  calendar of the time zone, user handlers) is a parameter of the definitions that call it; a
  property that needs something of it says so in its hypotheses and has a witness.

  \<^bold>\<open>Not modelled\<close>

  The uWebSockets.js and HTTP/2 glue of the native adapter with its body and query parsers and the
  pump from a readable stream to the socket; the SQL and Redis storages of jobs and the Redis cache
  store, which are sequences of commands to a database; tracing spans, logging and event listeners;
  Unicode above Latin-1 and \<open>Buffer\<close> bodies; OAuth,
  CORS, security headers and static files (see the component
  list of the manifest); the command-line tools and the studio, which are code generation and a
  front end.
\<close>

end
